(* ===== verification/Prelude.thy ===== *)
theory Prelude
  imports Main "HOL-Library.Word" "HOL-Library.Multiset" "HOL-Library.AList"
    "HOL-Library.Char_ord" "HOL-Library.List_Lexorder" "HOL-Library.Product_Lexorder"
begin

text \<open>
  Shared vocabulary of the development: how the Go values of the repository are
  represented, the string and integer helpers of the Go standard library that the
  sources call, and generic lemmas on lists and association lists that every component
  theory uses.

  \<^item> A Go \<^verbatim>\<open>string\<close> or \<^verbatim>\<open>[]byte\<close> is a list of bytes, and \<open>char\<close> is an 8-bit
    character, so both are \<open>string\<close>. The order \<open><\<close> on \<open>string\<close> (from
    \<^verbatim>\<open>List_Lexorder\<close> and \<^verbatim>\<open>Char_ord\<close>) is Go's byte-wise string order.
  \<^item> A Go \<^verbatim>\<open>uint64\<close> is a \<open>64 word\<close>; \<^verbatim>\<open>[16]byte\<close> and \<^verbatim>\<open>[32]byte\<close> identifiers and
    hashes are \<open>128 word\<close> and \<open>256 word\<close>, the all-zero array being \<open>0\<close>.
  \<^item> A Go \<^verbatim>\<open>int\<close> is an \<open>int\<close>; where its 64-bit range matters the arithmetic goes through
    \<open>wrap64\<close>.
  \<^item> A nil pointer is \<open>None\<close>; a slice is a \<open>list\<close>, nil and empty slices being the same
    value; a Go map that the code iterates over is an association list in some iteration
    order, any other Go map is a partial function.
  \<^item> Values are immutable here, so a deep clone of a value is that value.
\<close>

section \<open>Collections of facts\<close>

named_theorems go_defs \<open>definitions of small helpers of the Go standard library\<close>

section \<open>Type names\<close>

type_synonym bytes = string
type_synonym uint64 = "64 word"
type_synonym hash = "256 word"
type_synonym duration = int
type_synonym instant = int
type_synonym strmap = "(string \<times> string) list"

section \<open>Go integers\<close>

text \<open>The largest \<^verbatim>\<open>int\<close>, and two's-complement wrap-around of a 64-bit signed result.\<close>

definition maxInt :: int where
  "maxInt = 9223372036854775807"

definition wrap64 :: "int \<Rightarrow> int" where
  "wrap64 x = (x + 9223372036854775808) mod 18446744073709551616 - 9223372036854775808"

definition int64 :: "int \<Rightarrow> bool" where
  "int64 x \<longleftrightarrow> - 9223372036854775808 \<le> x \<and> x \<le> maxInt"

lemma wrap64_in_range [simp]: "int64 x \<Longrightarrow> wrap64 x = x"
  by (simp add: wrap64_def int64_def maxInt_def)

lemma int64_wrap64 [simp]: "int64 (wrap64 x)"
  by (simp add: wrap64_def int64_def maxInt_def)

lemma word_plus_one_gt:
  fixes w :: "'a::len word"
  assumes "unat w + 1 < 2 ^ LENGTH('a)"
  shows "w < w + 1" and "unat (w + 1) = unat w + 1"
proof -
  show *: "unat (w + 1) = unat w + 1"
    using assms by (simp add: unat_word_ariths)
  show "w < w + 1" by (simp add: word_less_nat_alt *)
qed

section \<open>Strings\<close>

text \<open>
  \<^verbatim>\<open>strings.TrimSpace\<close> removes leading and trailing Unicode white space from a UTF-8
  string. \<open>spaceWidth\<close> is the number of bytes of the white-space rune a byte list starts
  with (0 if it starts with none): the ASCII spaces, and the UTF-8 encodings of U+0085,
  U+00A0, U+1680, U+2000 to U+200A, U+2028, U+2029, U+202F, U+205F and U+3000.
  \<open>lastSpaceWidth\<close> reads the same runes from the end of the list.
\<close>

definition asciiSpace :: "nat \<Rightarrow> bool" where
  "asciiSpace n \<longleftrightarrow> 9 \<le> n \<and> n \<le> 13 \<or> n = 32"

definition wideSpace :: "nat \<Rightarrow> nat \<Rightarrow> nat \<Rightarrow> bool" where
  "wideSpace a b c \<longleftrightarrow>
     a = 225 \<and> b = 154 \<and> c = 128 \<or>
     a = 226 \<and> b = 128 \<and> (128 \<le> c \<and> c \<le> 138 \<or> c = 168 \<or> c = 169 \<or> c = 175) \<or>
     a = 226 \<and> b = 129 \<and> c = 159 \<or>
     a = 227 \<and> b = 128 \<and> c = 128"

fun spaceWidth :: "nat list \<Rightarrow> nat" where
  "spaceWidth (a # bs) =
     (if asciiSpace a then 1
      else case bs of
        [] \<Rightarrow> 0
      | b # cs \<Rightarrow>
          if a = 194 \<and> (b = 133 \<or> b = 160) then 2
          else (case cs of [] \<Rightarrow> 0 | c # _ \<Rightarrow> if wideSpace a b c then 3 else 0))"
| "spaceWidth [] = 0"

fun lastSpaceWidth :: "nat list \<Rightarrow> nat" where
  "lastSpaceWidth (c # bs) =
     (if asciiSpace c then 1
      else case bs of
        [] \<Rightarrow> 0
      | b # as \<Rightarrow>
          if b = 194 \<and> (c = 133 \<or> c = 160) then 2
          else (case as of [] \<Rightarrow> 0 | a # _ \<Rightarrow> if wideSpace a b c then 3 else 0))"
| "lastSpaceWidth [] = 0"

function dropSpaces :: "(nat list \<Rightarrow> nat) \<Rightarrow> string \<Rightarrow> string" where
  "dropSpaces width s =
     (let n = width (map of_char s)
      in if n = 0 \<or> s = [] then s else dropSpaces width (drop n s))"
  by pat_completeness auto
termination
  by (relation "measure (\<lambda>(width, s). length s)") auto

declare dropSpaces.simps [simp del]

definition trimSpace :: "string \<Rightarrow> string" where
  "trimSpace s = rev (dropSpaces lastSpaceWidth (rev (dropSpaces spaceWidth s)))"

definition blank :: "string \<Rightarrow> bool" where
  "blank s \<longleftrightarrow> trimSpace s = []"

lemma dropSpaces_Nil [simp]: "dropSpaces width [] = []"
  by (simp add: dropSpaces.simps)

lemma trimSpace_Nil [simp]: "trimSpace [] = []"
  by (simp add: trimSpace_def)

lemma blank_Nil [simp]: "blank []"
  by (simp add: blank_def)

lemma not_blank_nonempty: "\<not> blank s \<Longrightarrow> s \<noteq> []"
  by auto

lemma dropSpaces_step: "width (map of_char s) = 0 \<Longrightarrow> dropSpaces width s = s"
  by (subst dropSpaces.simps) (simp add: Let_def)

text \<open>A string that starts and ends with an ASCII letter, digit or sign is its own trim.\<close>

lemma trimSpace_plain:
  assumes "s \<noteq> []" and "33 \<le> (of_char (hd s) :: nat)" and "(of_char (hd s) :: nat) < 128"
    and "33 \<le> (of_char (last s) :: nat)" and "(of_char (last s) :: nat) < 128"
  shows "trimSpace s = s"
proof -
  have hd0: "spaceWidth (map of_char s) = 0"
    using assms(1-3) by (cases s) (auto simp: asciiSpace_def wideSpace_def split: list.splits)
  obtain xs x where s: "s = xs @ [x]" using assms(1) by (cases s rule: rev_cases) auto
  have last0: "lastSpaceWidth (map of_char (rev s)) = 0"
    using assms(4,5) s by (auto simp: asciiSpace_def wideSpace_def split: list.splits)
  show ?thesis
    using dropSpaces_step [of spaceWidth s] dropSpaces_step [of lastSpaceWidth "rev s"] hd0 last0
    by (simp add: trimSpace_def)
qed

section \<open>Formatted messages\<close>

text \<open>
  The arguments of a \<^verbatim>\<open>fmt\<close> format. An error built by \<^verbatim>\<open>fmt.Errorf\<close> is kept as its format and
  arguments, so that distinct failures stay distinct without rendering them.
\<close>

datatype fmtArg = ArgInt int | ArgString string

section \<open>Decimal numbers\<close>

text \<open>\<open>showInt\<close> prints as the verb \<^verbatim>\<open>%d\<close> does; \<open>readNat\<close> reads a string of decimal digits.\<close>

fun showNat :: "nat \<Rightarrow> string" where
  "showNat n =
     (if n < 10 then [char_of (48 + n)] else showNat (n div 10) @ [char_of (48 + n mod 10)])"

declare showNat.simps [simp del]

definition showInt :: "int \<Rightarrow> string" where
  "showInt i = (if i < 0 then CHR ''-'' # showNat (nat (- i)) else showNat (nat i))"

definition isDigit :: "char \<Rightarrow> bool" where
  "isDigit c \<longleftrightarrow> 48 \<le> (of_char c :: nat) \<and> (of_char c :: nat) \<le> 57"

definition readNat :: "string \<Rightarrow> nat" where
  "readNat s = foldl (\<lambda>n c. 10 * n + (of_char c - 48)) 0 s"

lemma of_char_digit [simp]: "d < 10 \<Longrightarrow> of_char (char_of (48 + d) :: char) = (48 + d :: nat)"
  by simp

lemma showNat_digits: "list_all isDigit (showNat n)"
proof (induction n rule: showNat.induct)
  case (1 n)
  have "isDigit (char_of (48 + d))" if "d < 10" for d :: nat using that by (simp add: isDigit_def)
  with 1 show ?case by (subst showNat.simps) auto
qed

lemma showNat_nonempty [simp]: "showNat n \<noteq> []"
  by (subst showNat.simps) simp

lemma readNat_showNat [simp]: "readNat (showNat n) = n"
proof (induction n rule: showNat.induct)
  case (1 n)
  then show ?case
    by (subst showNat.simps) (auto simp: readNat_def simp del: of_char_of)
qed

lemma showNat_inject [simp]: "showNat m = showNat n \<longleftrightarrow> m = n"
  by (metis readNat_showNat)

section \<open>Lists\<close>

lemma list_all_take_drop:
  "list_all P xs \<Longrightarrow> list_all P (take n xs) \<and> list_all P (drop n xs)"
  by (auto simp: list_all_iff dest: in_set_takeD in_set_dropD)

lemma length_filter_update:
  "i < length xs \<Longrightarrow> length (filter P (xs[i := y])) + (if P (xs ! i) then 1 else 0) = length (filter P xs) + (if P y then 1 else 0)"
proof (induction xs arbitrary: i)
  case (Cons x xs)
  then show ?case by (cases i) auto
qed simp

text \<open>
  Sorting by an injective key depends only on the multiset of the elements, so the order
  in which a Go map or a channel yields them does not show in the sorted slice.
\<close>

lemma filter_const_eq_replicate: "filter (\<lambda>x. x = k) xs = replicate (count (mset xs) k) k"
  by (induction xs) auto

lemma sort_key_mset_eq:
  assumes "mset xs = mset ys" and "inj_on f (set xs)"
  shows "sort_key f xs = sort_key f ys"
proof (rule properties_for_sort_key)
  show "mset (sort_key f ys) = mset xs" using assms(1) by simp
  show "filter (\<lambda>x. f k = f x) (sort_key f ys) = filter (\<lambda>x. f k = f x) xs"
    if "k \<in> set (sort_key f ys)" for k
  proof -
    have eqs: "set ys = set xs" using assms(1) by (metis mset_eq_setD)
    have key: "filter (\<lambda>x. f k = f x) zs = filter (\<lambda>x. x = k) zs" if "set zs = set xs" for zs
      using that \<open>k \<in> set (sort_key f ys)\<close> eqs assms(2) by (intro filter_cong) (auto dest: inj_onD)
    show ?thesis using assms(1) eqs by (simp add: key filter_const_eq_replicate)
  qed
  show "sorted (map f (sort_key f ys))" by simp
qed

end
