(* ===== verification/Message.thy ===== *)
theory Message
  imports Prelude
begin

text \<open>
  The provider-neutral message model (\<^verbatim>\<open>src/message\<close>): messages, ordered content parts, tool
  calls and tool results (\<^verbatim>\<open>message.go\<close>, \<^verbatim>\<open>content.go\<close>), and the validation and cutting of a
  history into complete tool turns (\<^verbatim>\<open>history.go\<close>).

  The string-typed Go enumerations are datatypes whose last constructor stands for every
  string that is none of the declared constants.
\<close>

section \<open>Data\<close>

datatype Role = RoleSystem | RoleUser | RoleAssistant | RoleTool | RoleCustom | RoleOther string

datatype Kind = KindStandard | KindBranchSummary | KindCompactionSummary | KindCommandOutput
  | KindCustom | KindOther string

datatype ContentKind = ContentText | ContentCommentary | ContentFinalAnswer | ContentReasoning
  | ContentRedactedReasoning | ContentImage | ContentAudio | ContentFile | ContentSource
  | ContentProviderData | ContentOther string

record Source =
  src_ID :: string
  src_URL :: string
  src_Title :: string
  src_MediaType :: string
  src_Filename :: string

record ContentPart =
  cp_ID :: string
  cp_Kind :: ContentKind
  cp_Text :: string
  cp_Data :: bytes
  cp_MediaType :: string
  cp_URI :: string
  cp_Filename :: string
  cp_Source :: "Source option"
  cp_Signature :: string
  cp_ProviderData :: bytes

record ResponseMetadata =
  rm_ID :: string
  rm_Model :: string
  rm_Headers :: strmap

record ToolCall =
  tc_ID :: string
  tc_Name :: string
  tc_Arguments :: bytes
  tc_OperationID :: string

record ToolResult =
  tr_ToolCallID :: string
  tr_Name :: string
  tr_Content :: string
  tr_Parts :: "ContentPart list"
  tr_Structured :: bytes
  tr_IsError :: bool

record Message =
  m_ID :: string
  m_Role :: Role
  m_Kind :: Kind
  m_Name :: string
  m_Text :: string
  m_Content :: "ContentPart list"
  m_CacheBoundary :: bool
  m_Thinking :: string
  m_ThinkingSignature :: string
  m_RedactedThinking :: string
  m_ProviderState :: bytes
  m_Response :: ResponseMetadata
  m_ToolCalls :: "ToolCall list"
  m_ToolResult :: "ToolResult option"
  m_Metadata :: strmap

text \<open>The zero values a Go composite literal leaves in the fields it does not name.\<close>

definition zeroPart :: ContentPart where
  "zeroPart = \<lparr>cp_ID = [], cp_Kind = ContentOther [], cp_Text = [], cp_Data = [],
     cp_MediaType = [], cp_URI = [], cp_Filename = [], cp_Source = None, cp_Signature = [],
     cp_ProviderData = []\<rparr>"

definition zeroResponse :: ResponseMetadata where
  "zeroResponse = \<lparr>rm_ID = [], rm_Model = [], rm_Headers = []\<rparr>"

definition zeroMessage :: Message where
  "zeroMessage = \<lparr>m_ID = [], m_Role = RoleOther [], m_Kind = KindOther [], m_Name = [],
     m_Text = [], m_Content = [], m_CacheBoundary = False, m_Thinking = [],
     m_ThinkingSignature = [], m_RedactedThinking = [], m_ProviderState = [],
     m_Response = zeroResponse, m_ToolCalls = [], m_ToolResult = None, m_Metadata = []\<rparr>"

definition zeroToolResult :: ToolResult where
  "zeroToolResult = \<lparr>tr_ToolCallID = [], tr_Name = [], tr_Content = [], tr_Parts = [],
     tr_Structured = [], tr_IsError = False\<rparr>"

section \<open>Content\<close>

definition TextPart :: "string \<Rightarrow> ContentPart" where
  "TextPart text = zeroPart\<lparr>cp_Kind := ContentText, cp_Text := text\<rparr>"

definition CommentaryPart :: "string \<Rightarrow> ContentPart" where
  "CommentaryPart text = zeroPart\<lparr>cp_Kind := ContentCommentary, cp_Text := text\<rparr>"

definition FinalAnswerPart :: "string \<Rightarrow> ContentPart" where
  "FinalAnswerPart text = zeroPart\<lparr>cp_Kind := ContentFinalAnswer, cp_Text := text\<rparr>"

definition ReasoningPart :: "string \<Rightarrow> string \<Rightarrow> ContentPart" where
  "ReasoningPart text signature =
     zeroPart\<lparr>cp_Kind := ContentReasoning, cp_Text := text, cp_Signature := signature\<rparr>"

text \<open>
  \<^verbatim>\<open>textForKinds\<close>: the texts of the parts whose kind is among \<open>kinds\<close>, concatenated in
  order.
\<close>

fun textForKinds :: "ContentPart list \<Rightarrow> ContentKind list \<Rightarrow> string" where
  "textForKinds [] kinds = []"
| "textForKinds (part # parts) kinds =
     (if cp_Kind part \<in> set kinds then cp_Text part else []) @ textForKinds parts kinds"

abbreviation visibleKinds :: "ContentKind list" where
  "visibleKinds \<equiv> [ContentText, ContentCommentary, ContentFinalAnswer]"

definition CanonicalContent :: "Message \<Rightarrow> ContentPart list" where
  "CanonicalContent m =
     (if m_Content m \<noteq> [] then m_Content m
      else
        (if m_Thinking m \<noteq> [] \<or> m_ThinkingSignature m \<noteq> []
         then [ReasoningPart (m_Thinking m) (m_ThinkingSignature m)] else []) @
        (if m_RedactedThinking m \<noteq> []
         then [zeroPart\<lparr>cp_Kind := ContentRedactedReasoning, cp_Data := m_RedactedThinking m\<rparr>]
         else []) @
        (if m_Text m \<noteq> [] then [TextPart (m_Text m)] else []))"

definition TextContent :: "Message \<Rightarrow> string" where
  "TextContent m = textForKinds (CanonicalContent m) visibleKinds"

definition FinalAnswerContent :: "Message \<Rightarrow> string" where
  "FinalAnswerContent m = textForKinds (CanonicalContent m) [ContentText, ContentFinalAnswer]"

definition ReasoningContent :: "Message \<Rightarrow> string" where
  "ReasoningContent m = textForKinds (CanonicalContent m) [ContentReasoning]"

definition HasContent :: "Message \<Rightarrow> bool" where
  "HasContent m \<longleftrightarrow> CanonicalContent m \<noteq> [] \<or> m_ToolCalls m \<noteq> [] \<or> m_ToolResult m \<noteq> None
     \<or> m_ProviderState m \<noteq> []"

text \<open>The loop of \<^verbatim>\<open>SyncLegacyContent\<close> over the parts: the last signature and payload win.\<close>

fun syncSignatures :: "ContentPart list \<Rightarrow> string \<times> string \<Rightarrow> string \<times> string" where
  "syncSignatures [] acc = acc"
| "syncSignatures (part # parts) (signature, redacted) =
     syncSignatures parts
       (if cp_Kind part = ContentReasoning \<and> cp_Signature part \<noteq> []
        then cp_Signature part else signature,
        if cp_Kind part = ContentRedactedReasoning \<and> cp_Data part \<noteq> []
        then cp_Data part else redacted)"

definition SyncLegacyContent :: "Message \<Rightarrow> Message" where
  "SyncLegacyContent m =
     (if m_Content m = [] then m\<lparr>m_Content := CanonicalContent m\<rparr>
      else
        let (signature, redacted) = syncSignatures (m_Content m) ([], [])
        in m\<lparr>m_Text := textForKinds (m_Content m) visibleKinds,
             m_Thinking := textForKinds (m_Content m) [ContentReasoning],
             m_ThinkingSignature := signature,
             m_RedactedThinking := redacted\<rparr>)"

definition CanonicalToolContent :: "ToolResult \<Rightarrow> ContentPart list" where
  "CanonicalToolContent r =
     (if tr_Parts r \<noteq> [] then tr_Parts r
      else if tr_Content r = [] then [] else [TextPart (tr_Content r)])"

definition ToolTextContent :: "ToolResult \<Rightarrow> string" where
  "ToolTextContent r = textForKinds (CanonicalToolContent r) visibleKinds"

definition SyncLegacyToolContent :: "ToolResult \<Rightarrow> ToolResult" where
  "SyncLegacyToolContent r =
     (if tr_Parts r = [] then r\<lparr>tr_Parts := CanonicalToolContent r\<rparr>
      else r\<lparr>tr_Content := textForKinds (tr_Parts r) visibleKinds\<rparr>)"

definition NewText :: "Role \<Rightarrow> string \<Rightarrow> Message" where
  "NewText role text =
     zeroMessage\<lparr>m_Role := role, m_Kind := KindStandard, m_Text := text,
       m_Content := [TextPart text]\<rparr>"

definition NewToolResult :: "ToolResult \<Rightarrow> Message" where
  "NewToolResult result =
     (let synced = SyncLegacyToolContent result
      in zeroMessage\<lparr>m_Role := RoleTool, m_Kind := KindStandard, m_Name := tr_Name synced,
           m_ToolResult := Some synced\<rparr>)"

section \<open>Complete tool turns\<close>

text \<open>
  \<^verbatim>\<open>incompleteToolTurn\<close>: the index of the offending message and the reason, which is a fixed
  text or names a repeated call ID.
\<close>

datatype TurnReason = ReasonText string | DuplicateToolCallID string

datatype TurnError = IncompleteToolTurn nat TurnReason

text \<open>
  \<^verbatim>\<open>unmatchedCallIndex\<close>: the call a result answers, \<open>None\<close> for the \<^verbatim>\<open>-1\<close> of the code.
  \<open>firstUnmatched\<close> is its two searching loops, \<open>index\<close> being the position of the head.
\<close>

fun firstUnmatched :: "(ToolCall \<Rightarrow> bool) \<Rightarrow> nat \<Rightarrow> ToolCall list \<Rightarrow> bool list \<Rightarrow> nat option" where
  "firstUnmatched P index (call # calls) (seen # matched) =
     (if \<not> seen \<and> P call then Some index else firstUnmatched P (Suc index) calls matched)"
| "firstUnmatched P index _ _ = None"

definition unmatchedCallIndex ::
    "ToolCall list \<Rightarrow> bool list \<Rightarrow> (string \<rightharpoonup> nat) \<Rightarrow> string \<Rightarrow> nat option" where
  "unmatchedCallIndex calls matched callIndexes resultID =
     (if resultID \<noteq> [] then
        (case callIndexes resultID of
           Some index \<Rightarrow>
             if \<not> matched ! index then Some index
             else firstUnmatched (\<lambda>call. tc_ID call = []) 0 calls matched
         | None \<Rightarrow> firstUnmatched (\<lambda>call. tc_ID call = []) 0 calls matched)
      else firstUnmatched (\<lambda>call. True) 0 calls matched)"

text \<open>The loop that records the position of every identified call and rejects a repeated ID.\<close>

fun indexCalls :: "nat \<Rightarrow> ToolCall list \<Rightarrow> (string \<rightharpoonup> nat) \<Rightarrow> string + (string \<rightharpoonup> nat)" where
  "indexCalls callIndex [] callIndexes = Inr callIndexes"
| "indexCalls callIndex (call # calls) callIndexes =
     (if tc_ID call = [] then indexCalls (Suc callIndex) calls callIndexes
      else case callIndexes (tc_ID call) of
        Some _ \<Rightarrow> Inl (tc_ID call)
      | None \<Rightarrow> indexCalls (Suc callIndex) calls (callIndexes(tc_ID call \<mapsto> callIndex)))"

text \<open>
  The loop over the results of one group: \<open>remaining\<close> results are still due, \<open>rest\<close> is the
  history from message \<open>resultIndex\<close> on and \<open>index\<close> the position of the assistant message.
\<close>

fun matchResults ::
    "ToolCall list \<Rightarrow> (string \<rightharpoonup> nat) \<Rightarrow> nat \<Rightarrow> nat \<Rightarrow> nat \<Rightarrow> Message list \<Rightarrow> bool list
       \<Rightarrow> TurnError option" where
  "matchResults calls callIndexes index resultIndex 0 rest matched = None"
| "matchResults calls callIndexes index resultIndex (Suc remaining) rest matched =
     (case rest of
        [] \<Rightarrow> Some (IncompleteToolTurn index (ReasonText ''tool-call group has an incomplete suffix''))
      | result # rest' \<Rightarrow>
          if m_ToolCalls result \<noteq> [] then
            Some (IncompleteToolTurn resultIndex (ReasonText ''tool calls require the assistant role''))
          else if m_Role result \<noteq> RoleTool then
            Some (IncompleteToolTurn resultIndex
              (ReasonText ''non-tool message before tool-call group completed''))
          else case m_ToolResult result of
            None \<Rightarrow> Some (IncompleteToolTurn resultIndex (ReasonText ''tool message has no result''))
          | Some toolResult \<Rightarrow>
              (case unmatchedCallIndex calls matched callIndexes (tr_ToolCallID toolResult) of
                 None \<Rightarrow> Some (IncompleteToolTurn resultIndex
                   (ReasonText ''duplicate or unmatched tool result''))
               | Some callIndex \<Rightarrow>
                   matchResults calls callIndexes index (Suc resultIndex) remaining rest'
                     (matched[callIndex := True])))"

text \<open>
  \<^verbatim>\<open>ValidateCompleteTurns\<close>, its loop as recursion on the part of the history from position
  \<open>index\<close> on; \<open>None\<close> is the nil error.
\<close>

function validateFrom :: "nat \<Rightarrow> Message list \<Rightarrow> TurnError option" where
  "validateFrom index [] = None"
| "validateFrom index (msg # rest) =
     (if m_ToolCalls msg \<noteq> [] \<and> m_Role msg \<noteq> RoleAssistant then
        Some (IncompleteToolTurn index (ReasonText ''tool calls require the assistant role''))
      else if m_ToolResult msg \<noteq> None \<and> m_Role msg \<noteq> RoleTool then
        Some (IncompleteToolTurn index (ReasonText ''tool results require the tool role''))
      else if m_Role msg = RoleTool then
        (if m_ToolResult msg = None
         then Some (IncompleteToolTurn index (ReasonText ''tool message has no result''))
         else Some (IncompleteToolTurn index (ReasonText ''orphan tool result'')))
      else if m_ToolCalls msg = [] then validateFrom (Suc index) rest
      else case indexCalls 0 (m_ToolCalls msg) Map.empty of
        Inl callID \<Rightarrow> Some (IncompleteToolTurn index (DuplicateToolCallID callID))
      | Inr callIndexes \<Rightarrow>
          (case matchResults (m_ToolCalls msg) callIndexes index (Suc index)
                  (length (m_ToolCalls msg)) rest (replicate (length (m_ToolCalls msg)) False) of
             Some err \<Rightarrow> Some err
           | None \<Rightarrow> validateFrom (index + length (m_ToolCalls msg) + 1)
                       (drop (length (m_ToolCalls msg)) rest)))"
  by pat_completeness auto
termination
  by (relation "measure (\<lambda>(index, msgs). length msgs)") auto

definition ValidateCompleteTurns :: "Message list \<Rightarrow> TurnError option" where
  "ValidateCompleteTurns messages = validateFrom 0 messages"

text \<open>
  The cutting loop of \<^verbatim>\<open>CompleteTurnBoundary\<close>: \<open>msgCount\<close> is the length of the history and
  \<open>rest\<close> the part of it from position \<open>index\<close> on.
\<close>

function boundaryLoop :: "nat \<Rightarrow> nat \<Rightarrow> nat \<Rightarrow> Message list \<Rightarrow> nat" where
  "boundaryLoop msgCount start index [] = start"
| "boundaryLoop msgCount start index (msg # rest) =
     (let callCount = length (m_ToolCalls msg);
          groupEnd = index + callCount + 1
      in if callCount = 0 then boundaryLoop msgCount start (Suc index) rest
         else if index < start \<and> start < groupEnd then
           (if groupEnd < msgCount then groupEnd else index)
         else boundaryLoop msgCount start groupEnd (drop callCount rest))"
  by pat_completeness auto
termination
  by (relation "measure (\<lambda>(msgCount, start, index, msgs). length msgs)") auto

definition clampStart :: "int \<Rightarrow> nat \<Rightarrow> nat" where
  "clampStart preferredStart msgCount =
     (if preferredStart < 0 then 0
      else if int msgCount < preferredStart then msgCount else nat preferredStart)"

definition CompleteTurnBoundary :: "Message list \<Rightarrow> int \<Rightarrow> TurnError + nat" where
  "CompleteTurnBoundary messages preferredStart =
     (case ValidateCompleteTurns messages of
        Some err \<Rightarrow> Inl err
      | None \<Rightarrow> Inr (boundaryLoop (length messages)
                        (clampStart preferredStart (length messages)) 0 messages))"

text \<open>\<^verbatim>\<open>CachePrefixBoundary\<close>: one past the last marked message, then out of the group it is in.\<close>

fun lastCacheBoundary :: "nat \<Rightarrow> Message list \<Rightarrow> nat \<Rightarrow> nat" where
  "lastCacheBoundary index [] boundary = boundary"
| "lastCacheBoundary index (msg # rest) boundary =
     lastCacheBoundary (Suc index) rest (if m_CacheBoundary msg then index + 1 else boundary)"

function cacheLoop :: "nat \<Rightarrow> nat \<Rightarrow> Message list \<Rightarrow> nat" where
  "cacheLoop boundary index [] = boundary"
| "cacheLoop boundary index (msg # rest) =
     (let callCount = length (m_ToolCalls msg);
          groupEnd = index + callCount + 1
      in if callCount = 0 then cacheLoop boundary (Suc index) rest
         else if index < boundary \<and> boundary < groupEnd then groupEnd
         else cacheLoop boundary groupEnd (drop callCount rest))"
  by pat_completeness auto
termination
  by (relation "measure (\<lambda>(boundary, index, msgs). length msgs)") auto

definition CachePrefixBoundary :: "Message list \<Rightarrow> TurnError + nat" where
  "CachePrefixBoundary messages =
     (case ValidateCompleteTurns messages of
        Some err \<Rightarrow> Inl err
      | None \<Rightarrow>
          let boundary = lastCacheBoundary 0 messages 0
          in if boundary = 0 then Inr 0 else Inr (cacheLoop boundary 0 messages))"

end
