(* ===== verification/Provider.thy ===== *)
theory Provider
  imports Message
begin

text \<open>
  The provider contract (\<^verbatim>\<open>src/provider/provider.go\<close>): stop reasons, stream events, token usage
  with its saturating addition, and the classification of provider failures.
\<close>

section \<open>Data\<close>

datatype StopReason = StopReasonUnknown | StopReasonComplete | StopReasonToolUse | StopReasonLength
  | StopReasonContentFilter | StopReasonMaxTurns | StopReasonAborted | StopReasonError
  | StopReasonOther string

datatype TextPhase = TextPhaseCommentary | TextPhaseFinalAnswer | TextPhaseOther string

datatype EventKind = EventTextDelta | EventThinkingDelta | EventToolCallDelta | EventToolCall
  | EventDone | EventError | EventOther string

record Usage =
  u_InputTokens :: int
  u_CachedInputTokens :: int
  u_CachedInputTokensReported :: bool
  u_CacheWriteInputTokens :: int
  u_CacheWriteInputTokensReported :: bool
  u_OutputTokens :: int
  u_ReasoningTokens :: int
  u_TotalTokens :: int

definition zeroUsage :: Usage where
  "zeroUsage = \<lparr>u_InputTokens = 0, u_CachedInputTokens = 0, u_CachedInputTokensReported = False,
     u_CacheWriteInputTokens = 0, u_CacheWriteInputTokensReported = False, u_OutputTokens = 0,
     u_ReasoningTokens = 0, u_TotalTokens = 0\<rparr>"

record ToolCallDelta =
  tcd_Index :: "int option"
  tcd_ID :: string
  tcd_Name :: string
  tcd_ArgumentsDelta :: string

section \<open>Token usage\<close>

definition saturatingTokenAdd :: "int \<Rightarrow> int \<Rightarrow> int" where
  "saturatingTokenAdd left right =
     (if left \<ge> wrap64 (maxInt - right) then maxInt else wrap64 (left + right))"

definition normalizedUsage :: "Usage \<Rightarrow> Usage" where
  "normalizedUsage usage =
     (let inputTokens = max 0 (u_InputTokens usage);
          cached = min (max 0 (u_CachedInputTokens usage)) inputTokens;
          cacheWrite = min (max 0 (u_CacheWriteInputTokens usage)) inputTokens;
          outputTokens = max 0 (u_OutputTokens usage);
          reasoning = min (max 0 (u_ReasoningTokens usage)) outputTokens
      in \<lparr>u_InputTokens = inputTokens,
          u_CachedInputTokens = cached,
          u_CachedInputTokensReported = (u_CachedInputTokensReported usage \<or> cached > 0),
          u_CacheWriteInputTokens = cacheWrite,
          u_CacheWriteInputTokensReported = (u_CacheWriteInputTokensReported usage \<or> cacheWrite > 0),
          u_OutputTokens = outputTokens,
          u_ReasoningTokens = reasoning,
          u_TotalTokens = max (max 0 (u_TotalTokens usage))
            (saturatingTokenAdd inputTokens outputTokens)\<rparr>)"

definition UsageAdd :: "Usage \<Rightarrow> Usage \<Rightarrow> Usage" where
  "UsageAdd u0 v0 =
     (let u = normalizedUsage u0; v = normalizedUsage v0
      in \<lparr>u_InputTokens = saturatingTokenAdd (u_InputTokens u) (u_InputTokens v),
          u_CachedInputTokens = saturatingTokenAdd (u_CachedInputTokens u) (u_CachedInputTokens v),
          u_CachedInputTokensReported =
            (u_CachedInputTokensReported u \<or> u_CachedInputTokensReported v),
          u_CacheWriteInputTokens =
            saturatingTokenAdd (u_CacheWriteInputTokens u) (u_CacheWriteInputTokens v),
          u_CacheWriteInputTokensReported =
            (u_CacheWriteInputTokensReported u \<or> u_CacheWriteInputTokensReported v),
          u_OutputTokens = saturatingTokenAdd (u_OutputTokens u) (u_OutputTokens v),
          u_ReasoningTokens = saturatingTokenAdd (u_ReasoningTokens u) (u_ReasoningTokens v),
          u_TotalTokens = saturatingTokenAdd (u_TotalTokens u) (u_TotalTokens v)\<rparr>)"

section \<open>Failures\<close>

datatype ErrorKind = ErrorUnknown | ErrorAuthentication | ErrorPermission | ErrorInvalidRequest
  | ErrorNotFound | ErrorRateLimit | ErrorServer | ErrorStream | ErrorKindOther string

record ProviderError =
  pe_Provider :: string
  pe_Kind :: ErrorKind
  pe_Code :: string
  pe_StatusCode :: int
  pe_Message :: string
  pe_RetryAfter :: duration

definition Retryable :: "ProviderError option \<Rightarrow> bool" where
  "Retryable e = (case e of None \<Rightarrow> False
     | Some err \<Rightarrow> pe_Kind err = ErrorRateLimit \<or> pe_Kind err = ErrorServer \<or> pe_Kind err = ErrorStream)"

definition RetryDelay :: "ProviderError option \<Rightarrow> duration" where
  "RetryDelay e = (case e of None \<Rightarrow> 0 | Some err \<Rightarrow> max 0 (pe_RetryAfter err))"

definition httpErrorKind :: "int \<Rightarrow> ErrorKind" where
  "httpErrorKind statusCode =
     (if statusCode = 401 then ErrorAuthentication
      else if statusCode = 403 then ErrorPermission
      else if statusCode = 404 then ErrorNotFound
      else if statusCode = 429 then ErrorRateLimit
      else if 500 \<le> statusCode \<and> statusCode \<le> 599 then ErrorServer
      else if 400 \<le> statusCode \<and> statusCode \<le> 499 then ErrorInvalidRequest
      else ErrorUnknown)"

definition NewHTTPError :: "string \<Rightarrow> int \<Rightarrow> string \<Rightarrow> ProviderError" where
  "NewHTTPError providerName statusCode text =
     \<lparr>pe_Provider = providerName, pe_Kind = httpErrorKind statusCode, pe_Code = [],
      pe_StatusCode = statusCode, pe_Message = text, pe_RetryAfter = 0\<rparr>"

text \<open>
  Go errors as far as the provider package tells them apart. \<open>Wrapped\<close> is an error built with
  the \<^verbatim>\<open>%w\<close> verb, \<open>UrlError\<close> and \<open>NetOpError\<close> are the wrappers of \<^verbatim>\<open>net/url\<close> and \<^verbatim>\<open>net\<close>,
  \<open>NetError\<close> any other \<^verbatim>\<open>net.Error\<close> with its timeout flag, \<open>SystemError\<close> one of the errors
  listed in \<^verbatim>\<open>isRetryableSystemError\<close>, \<open>MarkedError\<close> a foreign \<^verbatim>\<open>RetryableError\<close>, and
  \<open>SentinelError\<close> a package-level sentinel, by its Go name. \<open>JoinError\<close> is an error with several causes, built by
  \<^verbatim>\<open>errors.Join\<close> or an \<^verbatim>\<open>Unwrap() []error\<close> method.
\<close>

datatype goError =
    ContextCanceled
  | ContextDeadlineExceeded
  | SystemError string
  | ProviderFailure ProviderError
  | MarkedError string bool
  | PartialStreamError goError
  | Wrapped string goError
  | UrlError "goError option"
  | NetOpError "goError option"
  | NetError string bool
  | SentinelError string
  | TextError string
  | JoinError "goError list"

fun isContextError :: "goError \<Rightarrow> bool" where
  "isContextError ContextCanceled = True"
| "isContextError ContextDeadlineExceeded = True"
| "isContextError (PartialStreamError cause) = isContextError cause"
| "isContextError (Wrapped _ cause) = isContextError cause"
| "isContextError (UrlError (Some cause)) = isContextError cause"
| "isContextError (NetOpError (Some cause)) = isContextError cause"
| "isContextError (JoinError causes) = list_ex isContextError causes"
| "isContextError _ = False"

text \<open>\<^verbatim>\<open>errors.Is\<close> against \<^verbatim>\<open>context.DeadlineExceeded\<close> and against a named sentinel.\<close>

fun isDeadline :: "goError \<Rightarrow> bool" where
  "isDeadline ContextDeadlineExceeded = True"
| "isDeadline (PartialStreamError cause) = isDeadline cause"
| "isDeadline (Wrapped _ cause) = isDeadline cause"
| "isDeadline (UrlError (Some cause)) = isDeadline cause"
| "isDeadline (NetOpError (Some cause)) = isDeadline cause"
| "isDeadline (JoinError causes) = list_ex isDeadline causes"
| "isDeadline _ = False"

fun isSentinel :: "string \<Rightarrow> goError \<Rightarrow> bool" where
  "isSentinel name (SentinelError text) \<longleftrightarrow> name = text"
| "isSentinel name (PartialStreamError cause) \<longleftrightarrow> isSentinel name cause"
| "isSentinel name (Wrapped _ cause) \<longleftrightarrow> isSentinel name cause"
| "isSentinel name (UrlError (Some cause)) \<longleftrightarrow> isSentinel name cause"
| "isSentinel name (NetOpError (Some cause)) \<longleftrightarrow> isSentinel name cause"
| "isSentinel name (JoinError causes) \<longleftrightarrow> list_ex (isSentinel name) causes"
| "isSentinel name _ \<longleftrightarrow> False"

end
