(* ===== verification/Provider_Usage.thy ===== *)
theory Provider_Usage
  imports Provider "HOL-Library.Multiset"
begin

text \<open>
  Laws of the saturating token arithmetic of \<^verbatim>\<open>src/provider/provider.go\<close> (\<^verbatim>\<open>Usage.Add\<close>,
  \<^verbatim>\<open>normalizedUsage\<close>, \<^verbatim>\<open>saturatingTokenAdd\<close>). \<open>usage64\<close> bounds the counters by the width of a
  Go \<^verbatim>\<open>int\<close>, \<open>consistentUsage\<close> describes the normal form, and the locale \<open>ledger\<close> gives the
  consequences for accumulated totals.
\<close>

section \<open>Usage arithmetic\<close>

text \<open>A usage whose counters are Go ints, and one in the normal form of \<open>normalizedUsage\<close>.\<close>

definition usage64 :: "Usage \<Rightarrow> bool" where
  "usage64 u \<longleftrightarrow> int64 (u_InputTokens u) \<and> int64 (u_CachedInputTokens u)
     \<and> int64 (u_CacheWriteInputTokens u) \<and> int64 (u_OutputTokens u)
     \<and> int64 (u_ReasoningTokens u) \<and> int64 (u_TotalTokens u)"

definition consistentUsage :: "Usage \<Rightarrow> bool" where
  "consistentUsage u \<longleftrightarrow>
     0 \<le> u_CachedInputTokens u \<and> u_CachedInputTokens u \<le> u_InputTokens u \<and> u_InputTokens u \<le> maxInt \<and>
     0 \<le> u_CacheWriteInputTokens u \<and> u_CacheWriteInputTokens u \<le> u_InputTokens u \<and>
     0 \<le> u_ReasoningTokens u \<and> u_ReasoningTokens u \<le> u_OutputTokens u \<and> u_OutputTokens u \<le> maxInt \<and>
     min maxInt (u_InputTokens u + u_OutputTokens u) \<le> u_TotalTokens u \<and> u_TotalTokens u \<le> maxInt \<and>
     (0 < u_CachedInputTokens u \<longrightarrow> u_CachedInputTokensReported u) \<and>
     (0 < u_CacheWriteInputTokens u \<longrightarrow> u_CacheWriteInputTokensReported u)"

lemma saturating_min:
  assumes "0 \<le> a" "a \<le> maxInt" "0 \<le> b" "b \<le> maxInt"
  shows "saturatingTokenAdd a b = min maxInt (a + b)"
proof -
  have "int64 (maxInt - b)" using assms by (simp add: int64_def maxInt_def)
  then show ?thesis
    using assms by (cases "a \<ge> maxInt - b") (auto simp: saturatingTokenAdd_def int64_def maxInt_def)
qed

lemma normalized_consistent:
  assumes "usage64 u"
  shows "consistentUsage (normalizedUsage u)"
proof -
  have r: "u_InputTokens u \<le> maxInt" "u_OutputTokens u \<le> maxInt" "u_TotalTokens u \<le> maxInt"
    using assms by (simp_all add: usage64_def int64_def)
  have m: "(0::int) \<le> maxInt" by (simp add: maxInt_def)
  have "saturatingTokenAdd (max 0 (u_InputTokens u)) (max 0 (u_OutputTokens u))
      = min maxInt (max 0 (u_InputTokens u) + max 0 (u_OutputTokens u))"
    using r m by (intro saturating_min) auto
  then show ?thesis using r m by (auto simp: consistentUsage_def normalizedUsage_def Let_def)
qed

lemma normalized_id:
  assumes "consistentUsage u"
  shows "normalizedUsage u = u"
proof -
  have "saturatingTokenAdd (u_InputTokens u) (u_OutputTokens u) = min maxInt (u_InputTokens u + u_OutputTokens u)"
    using assms by (intro saturating_min) (auto simp: consistentUsage_def)
  then show ?thesis
    using assms by (cases u) (auto simp: consistentUsage_def normalizedUsage_def Let_def max_def)
qed

lemma consistent_zero: "consistentUsage zeroUsage"
  by (simp add: consistentUsage_def zeroUsage_def maxInt_def)

lemma consistent_usage64: "consistentUsage u \<Longrightarrow> usage64 u"
  by (auto simp: consistentUsage_def usage64_def int64_def maxInt_def)

lemma UsageAdd_fields:
  assumes "consistentUsage u" "consistentUsage v"
  shows "UsageAdd u v =
    \<lparr>u_InputTokens = min maxInt (u_InputTokens u + u_InputTokens v),
     u_CachedInputTokens = min maxInt (u_CachedInputTokens u + u_CachedInputTokens v),
     u_CachedInputTokensReported = (u_CachedInputTokensReported u \<or> u_CachedInputTokensReported v),
     u_CacheWriteInputTokens = min maxInt (u_CacheWriteInputTokens u + u_CacheWriteInputTokens v),
     u_CacheWriteInputTokensReported = (u_CacheWriteInputTokensReported u \<or> u_CacheWriteInputTokensReported v),
     u_OutputTokens = min maxInt (u_OutputTokens u + u_OutputTokens v),
     u_ReasoningTokens = min maxInt (u_ReasoningTokens u + u_ReasoningTokens v),
     u_TotalTokens = min maxInt (u_TotalTokens u + u_TotalTokens v)\<rparr>"
proof -
  have b: "0 \<le> u_InputTokens w \<and> u_InputTokens w \<le> maxInt \<and> 0 \<le> u_CachedInputTokens w \<and> u_CachedInputTokens w \<le> maxInt
      \<and> 0 \<le> u_CacheWriteInputTokens w \<and> u_CacheWriteInputTokens w \<le> maxInt \<and> 0 \<le> u_OutputTokens w \<and> u_OutputTokens w \<le> maxInt
      \<and> 0 \<le> u_ReasoningTokens w \<and> u_ReasoningTokens w \<le> maxInt \<and> 0 \<le> u_TotalTokens w \<and> u_TotalTokens w \<le> maxInt"
    if "consistentUsage w" for w using that by (auto simp: consistentUsage_def maxInt_def)
  show ?thesis
    using assms b [OF assms(1)] b [OF assms(2)]
    by (simp add: UsageAdd_def normalized_id Let_def saturating_min)
qed

lemma UsageAdd_consistent:
  assumes "consistentUsage u" "consistentUsage v"
  shows "consistentUsage (UsageAdd u v)"
proof -
  have m: "(0::int) \<le> maxInt" by (simp add: maxInt_def)
  have part: "min maxInt (a + b) \<le> min maxInt (c + d)" if "a \<le> c" "b \<le> d" for a b c d :: int
    using that by (intro min.mono add_mono) simp_all
  have covered: "min maxInt (min maxInt (i + j) + min maxInt (k + l)) \<le> min maxInt (t + r)"
    if "min maxInt (i + k) \<le> t" "min maxInt (j + l) \<le> r" "0 \<le> i" "0 \<le> j" "0 \<le> k" "0 \<le> l" for i j k l t r :: int
    using that m by linarith
  have nonneg: "0 \<le> u_InputTokens w \<and> 0 \<le> u_OutputTokens w" if "consistentUsage w" for w
    using that by (auto simp: consistentUsage_def)
  show ?thesis
    using assms m nonneg [OF assms(1)] nonneg [OF assms(2)]
    unfolding UsageAdd_fields [OF assms] consistentUsage_def Usage.select_convs
    by (intro conjI part covered) linarith+
qed

lemma UsageAdd_comm: "usage64 u \<Longrightarrow> usage64 v \<Longrightarrow> UsageAdd u v = UsageAdd v u"
proof -
  assume uv: "usage64 u" "usage64 v"
  have n: "UsageAdd a b = UsageAdd (normalizedUsage a) (normalizedUsage b)" if "usage64 a" "usage64 b" for a b
    using that by (simp add: UsageAdd_def normalized_id normalized_consistent)
  show ?thesis
    unfolding n [OF uv] n [OF uv(2,1)]
    using normalized_consistent [OF uv(1)] normalized_consistent [OF uv(2)]
    by (simp add: UsageAdd_fields add.commute disj_commute)
qed

lemma UsageAdd_normalize: "usage64 a \<Longrightarrow> usage64 b \<Longrightarrow> UsageAdd (normalizedUsage a) (normalizedUsage b) = UsageAdd a b"
  by (simp add: UsageAdd_def normalized_id normalized_consistent)

lemma sat_assoc: "(0::int) \<le> a \<Longrightarrow> 0 \<le> c \<Longrightarrow> min m (min m (a + b) + c) = min m (a + min m (b + c))"
  by (auto simp: min_def)

lemma UsageAdd_assoc_consistent:
  assumes "consistentUsage u" "consistentUsage v" "consistentUsage w"
  shows "UsageAdd (UsageAdd u v) w = UsageAdd u (UsageAdd v w)"
proof -
  have nn: "0 \<le> u_InputTokens x \<and> 0 \<le> u_OutputTokens x \<and> 0 \<le> u_TotalTokens x \<and> 0 \<le> u_CachedInputTokens x
      \<and> 0 \<le> u_CacheWriteInputTokens x \<and> 0 \<le> u_ReasoningTokens x" if "consistentUsage x" for x
    using that by (auto simp: consistentUsage_def maxInt_def)
  show ?thesis
    unfolding UsageAdd_fields [OF UsageAdd_consistent [OF assms(1,2)] assms(3)]
      UsageAdd_fields [OF assms(1) UsageAdd_consistent [OF assms(2,3)]]
    unfolding UsageAdd_fields [OF assms(1,2)] UsageAdd_fields [OF assms(2,3)]
    using nn [OF assms(1)] nn [OF assms(3)] by (simp add: sat_assoc disj_assoc)
qed

text \<open>
  Accumulation in the order of completion: a commutative, associative operation on a set of
  admissible values gives the same total for every order.
\<close>

locale ledger =
  fixes admissible :: "'u \<Rightarrow> bool" and add :: "'u \<Rightarrow> 'u \<Rightarrow> 'u"
  assumes closed: "admissible a \<Longrightarrow> admissible b \<Longrightarrow> admissible (add a b)"
    and commutes: "admissible a \<Longrightarrow> admissible b \<Longrightarrow> add a b = add b a"
    and associates: "admissible a \<Longrightarrow> admissible b \<Longrightarrow> admissible c \<Longrightarrow> add (add a b) c = add a (add b c)"
begin

lemma total_admissible:
  "admissible z \<Longrightarrow> list_all admissible xs \<Longrightarrow> admissible (foldl add z xs)"
  by (induction xs arbitrary: z) (auto intro: closed)

lemma total_move:
  "admissible z \<Longrightarrow> admissible x \<Longrightarrow> list_all admissible xs \<Longrightarrow>
   foldl add (add z x) xs = add (foldl add z xs) x"
proof (induction xs arbitrary: z)
  case (Cons y ys)
  have "add (add z x) y = add (add z y) x"
    using Cons.prems by (simp add: associates commutes [of x y])
  then show ?case using Cons by (simp add: closed)
qed simp

lemma total_perm:
  "mset xs = mset ys \<Longrightarrow> admissible z \<Longrightarrow> list_all admissible xs \<Longrightarrow> foldl add z xs = foldl add z ys"
proof (induction xs arbitrary: ys z)
  case (Cons x xs)
  have "x \<in> set ys" using Cons.prems(1) by (metis list.set_intros(1) mset_eq_setD)
  then obtain as bs where ys: "ys = as @ x # bs" by (auto simp: in_set_conv_decomp)
  have perm: "mset xs = mset (as @ bs)" using Cons.prems(1) ys by simp
  have adm: "list_all admissible (as @ bs)" using Cons.prems(3) mset_eq_setD [OF perm] by (auto simp: list_all_iff)
  have "foldl add z (x # xs) = foldl add (add z x) (as @ bs)"
    using Cons.IH [OF perm, of "add z x"] Cons.prems by (simp add: closed)
  also have "\<dots> = foldl add z ys"
    using adm Cons.prems ys by (simp add: total_move total_admissible closed)
  finally show ?case .
qed simp

end

interpretation usage: ledger consistentUsage UsageAdd
  by unfold_locales
    (auto intro: UsageAdd_consistent UsageAdd_assoc_consistent UsageAdd_comm consistent_usage64)


text \<open>
  Adding token usage is safe in 64-bit arithmetic: for any counters a Go int can hold, even
  negative or contradictory ones, the sum is consistent (no counter is negative or overflows, cached
  and written tokens are part of the input, reasoning tokens part of the output, the total covers
  both), each counter is the saturated sum of the normalized ones, and the operands may be swapped.
\<close>

theorem usage_add_consistent:
  assumes "usage64 u" "usage64 v"
  shows "consistentUsage (UsageAdd u v)
    \<and> u_InputTokens (UsageAdd u v) = min maxInt (max 0 (u_InputTokens u) + max 0 (u_InputTokens v))
    \<and> u_OutputTokens (UsageAdd u v) = min maxInt (max 0 (u_OutputTokens u) + max 0 (u_OutputTokens v))
    \<and> u_TotalTokens (UsageAdd u v)
        = min maxInt (u_TotalTokens (normalizedUsage u) + u_TotalTokens (normalizedUsage v))
    \<and> UsageAdd u v = UsageAdd v u"
proof -
  have n: "consistentUsage (normalizedUsage u)" "consistentUsage (normalizedUsage v)"
    using assms by (simp_all only: normalized_consistent)
  note sum = UsageAdd_normalize [OF assms, symmetric]
  have i: "u_InputTokens (normalizedUsage w) = max 0 (u_InputTokens w)"
    "u_OutputTokens (normalizedUsage w) = max 0 (u_OutputTokens w)" for w
    by (simp_all add: normalizedUsage_def Let_def)
  have fields: "u_InputTokens (UsageAdd u v) = min maxInt (max 0 (u_InputTokens u) + max 0 (u_InputTokens v))"
    "u_OutputTokens (UsageAdd u v) = min maxInt (max 0 (u_OutputTokens u) + max 0 (u_OutputTokens v))"
    "u_TotalTokens (UsageAdd u v) = min maxInt (u_TotalTokens (normalizedUsage u) + u_TotalTokens (normalizedUsage v))"
    unfolding sum UsageAdd_fields [OF n] by (simp_all only: Usage.select_convs i)
  have "consistentUsage (UsageAdd u v)" unfolding sum by (rule UsageAdd_consistent [OF n])
  then show ?thesis using fields UsageAdd_comm [OF assms] by blast
qed

text \<open>
  The order in which the usage of model calls is accumulated does not matter: any two orders of
  the same reported usages give the same total, and that total is consistent.
\<close>

theorem usage_total_order_independent:
  assumes "list_all consistentUsage us" and "mset us = mset vs"
  shows "foldl UsageAdd zeroUsage us = foldl UsageAdd zeroUsage vs
    \<and> consistentUsage (foldl UsageAdd zeroUsage us)"
proof
  show "foldl UsageAdd zeroUsage us = foldl UsageAdd zeroUsage vs"
    by (rule usage.total_perm [OF assms(2) consistent_zero assms(1)])
  show "consistentUsage (foldl UsageAdd zeroUsage us)"
    by (rule usage.total_admissible [OF consistent_zero assms(1)])
qed

definition smallUsage :: Usage where
  "smallUsage = zeroUsage\<lparr>u_InputTokens := 3, u_OutputTokens := 2, u_TotalTokens := 9\<rparr>"

lemma usage_total_order_independent_witness:
  "foldl UsageAdd zeroUsage [smallUsage, zeroUsage, smallUsage]
     = foldl UsageAdd zeroUsage [zeroUsage, smallUsage, smallUsage]
   \<and> smallUsage \<noteq> zeroUsage"
proof -
  have h: "list_all consistentUsage [smallUsage, zeroUsage, smallUsage]"
    by (simp add: consistentUsage_def smallUsage_def zeroUsage_def maxInt_def)
  show ?thesis
    using usage_total_order_independent [OF h, of "[zeroUsage, smallUsage, smallUsage]"]
    by (simp add: smallUsage_def zeroUsage_def)
qed

end
