(* ===== verification/Provider_Normalize.thy ===== *)
theory Provider_Normalize
  imports Provider_Usage
begin

text \<open>
  Folding a provider stream into one response (\<^verbatim>\<open>src/provider/conformance.go\<close>): the terminal
  event discipline, the content builder, and the assembly of tool calls from fragments that name them
  by ID, by index or not at all. \<^verbatim>\<open>json.Valid\<close> is the argument \<open>jsonValid\<close>. The maps and slices
  the Go functions share by reference are the fields of \<open>builderState\<close>, and a pointer to a builder
  is its key.
\<close>

section \<open>Data\<close>

record Event =
  ev_Kind :: EventKind
  ev_Text :: string
  ev_TextPhase :: TextPhase
  ev_Thinking :: string
  ev_Signature :: string
  ev_RedactedThinking :: string
  ev_ToolCall :: "ToolCall option"
  ev_ToolCallDelta :: "ToolCallDelta option"
  ev_Usage :: Usage
  ev_StopReason :: StopReason
  ev_ProviderState :: bytes
  ev_Response :: ResponseMetadata
  ev_Err :: "goError option"

definition zeroEvent :: Event where
  "zeroEvent = \<lparr>ev_Kind = EventOther [], ev_Text = [], ev_TextPhase = TextPhaseOther [], ev_Thinking = [],
     ev_Signature = [], ev_RedactedThinking = [], ev_ToolCall = None, ev_ToolCallDelta = None,
     ev_Usage = zeroUsage, ev_StopReason = StopReasonOther [], ev_ProviderState = [],
     ev_Response = zeroResponse, ev_Err = None\<rparr>"

record NormalizedResponse =
  nr_Content :: "ContentPart list"
  nr_Text :: string
  nr_Thinking :: string
  nr_Signature :: string
  nr_RedactedThinking :: string
  nr_ToolCalls :: "ToolCall list"
  nr_Usage :: Usage
  nr_StopReason :: StopReason
  nr_ProviderState :: bytes
  nr_Response :: ResponseMetadata

definition zeroNormalized :: NormalizedResponse where
  "zeroNormalized = \<lparr>nr_Content = [], nr_Text = [], nr_Thinking = [], nr_Signature = [],
     nr_RedactedThinking = [], nr_ToolCalls = [], nr_Usage = zeroUsage,
     nr_StopReason = StopReasonOther [], nr_ProviderState = [], nr_Response = zeroResponse\<rparr>"

datatype normalizeError =
    ErrEventAfterTerminal nat nat
  | ErrMultipleTerminalEvents nat nat
  | ErrMissingTerminalEvent
  | ErrDuplicateToolCallID string
  | ErrToolCallIdentityConflict string "fmtArg list"
  | ErrMissingToolCallID string
  | ErrInvalidToolCallArguments string
  | ErrTooManyProviderToolCalls int
  | StreamEventError goError
  | StreamErrorEvent

definition MaxToolCallsPerResponse :: nat where
  "MaxToolCallsPerResponse = 1024"

section \<open>Terminal events\<close>

fun terminalLoop :: "nat option \<Rightarrow> nat \<Rightarrow> Event list \<Rightarrow> normalizeError + nat option" where
  "terminalLoop seen index [] = Inr seen"
| "terminalLoop seen index (event # events) =
     (if ev_Kind event \<noteq> EventDone \<and> ev_Kind event \<noteq> EventError then
        (case seen of
           Some t \<Rightarrow> Inl (ErrEventAfterTerminal t index)
         | None \<Rightarrow> terminalLoop seen (Suc index) events)
      else case seen of
        Some t \<Rightarrow> Inl (ErrMultipleTerminalEvents t index)
      | None \<Rightarrow> terminalLoop (Some index) (Suc index) events)"

definition validateTerminalSequence :: "Event list \<Rightarrow> bool \<Rightarrow> normalizeError option" where
  "validateTerminalSequence events requireTerminal =
     (case terminalLoop None 0 events of
        Inl err \<Rightarrow> Some err
      | Inr seen \<Rightarrow> if requireTerminal \<and> seen = None then Some ErrMissingTerminalEvent else None)"

section \<open>Content\<close>

definition contentKindForPhase :: "TextPhase \<Rightarrow> ContentKind" where
  "contentKindForPhase phase =
     (case phase of TextPhaseCommentary \<Rightarrow> ContentCommentary
      | TextPhaseFinalAnswer \<Rightarrow> ContentFinalAnswer
      | TextPhaseOther _ \<Rightarrow> ContentText)"

text \<open>The part builders with their accumulated text, newest last.\<close>

definition appendText :: "ContentKind \<Rightarrow> string \<Rightarrow> string \<Rightarrow> ContentPart list \<Rightarrow> ContentPart list" where
  "appendText kind text signature parts =
     (if text = [] \<and> signature = [] then parts
      else if parts \<noteq> [] \<and> cp_Kind (last parts) = kind \<and> cp_Data (last parts) = [] then
        butlast parts @
          [(last parts)\<lparr>cp_Text := cp_Text (last parts) @ text,
             cp_Signature := (if signature \<noteq> [] then signature else cp_Signature (last parts))\<rparr>]
      else parts @ [zeroPart\<lparr>cp_Kind := kind, cp_Text := text, cp_Signature := signature\<rparr>])"

definition appendPart :: "ContentPart \<Rightarrow> ContentPart list \<Rightarrow> ContentPart list" where
  "appendPart part parts = parts @ [part]"

section \<open>Tool calls\<close>

record toolCallBuilder =
  tb_ID :: string
  tb_Index :: "int option"
  tb_Name :: string
  tb_Arguments :: string
  tb_fullSeen :: bool
  tb_identityConflict :: "(string \<times> fmtArg list) option"

record builderState =
  bs_builders :: "string \<rightharpoonup> toolCallBuilder"
  bs_order :: "string list"
  bs_idKeys :: "string \<rightharpoonup> string"
  bs_indexKeys :: "int \<rightharpoonup> string"
  bs_syntheticSeq :: int

definition builderAt :: "builderState \<Rightarrow> string \<Rightarrow> toolCallBuilder" where
  "builderAt st key = the (bs_builders st key)"

definition putBuilder :: "string \<Rightarrow> toolCallBuilder \<Rightarrow> builderState \<Rightarrow> builderState" where
  "putBuilder key builder st = st\<lparr>bs_builders := (bs_builders st)(key \<mapsto> builder)\<rparr>"

text \<open>
  \<^verbatim>\<open>ensureToolCallBuilder\<close>: the key of the builder of a call and the state in which it exists.
  A builder found by ID is bound to the index, one found by index to the ID.
\<close>

definition bindIndex :: "string \<Rightarrow> string \<Rightarrow> int option \<Rightarrow> builderState \<Rightarrow> builderState" where
  "bindIndex key id0 index st =
     (case index of
        None \<Rightarrow> st
      | Some idx \<Rightarrow>
          let builder = builderAt st key
          in if (case bs_indexKeys st idx of Some indexedKey \<Rightarrow> indexedKey \<noteq> key | None \<Rightarrow> False) then
               putBuilder key (builder\<lparr>tb_identityConflict :=
                 Some (''id %q rebound to index %d'', [ArgString id0, ArgInt idx])\<rparr>) st
             else if (case tb_Index builder of Some old \<Rightarrow> old \<noteq> idx | None \<Rightarrow> False) then
               putBuilder key (builder\<lparr>tb_identityConflict :=
                 Some (''id %q used indexes %d and %d'',
                       [ArgString id0, ArgInt (the (tb_Index builder)), ArgInt idx])\<rparr>) st
             else (putBuilder key (builder\<lparr>tb_Index := Some idx\<rparr>) st)
                    \<lparr>bs_indexKeys := (bs_indexKeys st)(idx \<mapsto> key)\<rparr>)"

definition bindID :: "string \<Rightarrow> int \<Rightarrow> string \<Rightarrow> builderState \<Rightarrow> builderState" where
  "bindID key idx id0 st =
     (if id0 = [] then st
      else
        let builder = builderAt st key
        in if (case bs_idKeys st id0 of Some idKey \<Rightarrow> idKey \<noteq> key | None \<Rightarrow> False) then
             putBuilder key (builder\<lparr>tb_identityConflict :=
               Some (''index %d rebound to id %q'', [ArgInt idx, ArgString id0])\<rparr>) st
           else if tb_ID builder \<noteq> [] \<and> tb_ID builder \<noteq> id0 then
             putBuilder key (builder\<lparr>tb_identityConflict :=
               Some (''index %d used ids %q and %q'',
                     [ArgInt idx, ArgString (tb_ID builder), ArgString id0])\<rparr>) st
           else (putBuilder key (builder\<lparr>tb_ID := id0\<rparr>) st)
                  \<lparr>bs_idKeys := (bs_idKeys st)(id0 \<mapsto> key)\<rparr>)"

definition newBuilder :: "string \<Rightarrow> string \<Rightarrow> int option \<Rightarrow> builderState \<Rightarrow> builderState" where
  "newBuilder key id0 index st =
     (if bs_builders st key \<noteq> None then st
      else
        let builder = \<lparr>tb_ID = id0, tb_Index = index, tb_Name = [], tb_Arguments = [],
                       tb_fullSeen = False, tb_identityConflict = None\<rparr>
        in st\<lparr>bs_builders := (bs_builders st)(key \<mapsto> builder),
              bs_order := bs_order st @ [key],
              bs_idKeys := (if id0 \<noteq> [] then (bs_idKeys st)(id0 \<mapsto> key) else bs_idKeys st),
              bs_indexKeys := (case index of None \<Rightarrow> bs_indexKeys st
                               | Some idx \<Rightarrow> (bs_indexKeys st)(idx \<mapsto> key))\<rparr>)"

definition ensureToolCallBuilder :: "string \<Rightarrow> int option \<Rightarrow> builderState \<Rightarrow> string \<times> builderState" where
  "ensureToolCallBuilder id0 index st =
     (case (if id0 \<noteq> [] then bs_idKeys st id0 else None) of
        Some key \<Rightarrow> (key, bindIndex key id0 index st)
      | None \<Rightarrow>
          (case (case index of None \<Rightarrow> None | Some idx \<Rightarrow> bs_indexKeys st idx) of
             Some key \<Rightarrow> (key, bindID key (the index) id0 st)
           | None \<Rightarrow>
               if id0 \<noteq> [] then (''id:'' @ id0, newBuilder (''id:'' @ id0) id0 index st)
               else (case index of
                 Some idx \<Rightarrow>
                   (''index:'' @ showInt idx, newBuilder (''index:'' @ showInt idx) id0 index st)
               | None \<Rightarrow>
                   let key = ''tool-call-'' @ showInt (bs_syntheticSeq st)
                   in (key, newBuilder key id0 index
                         (st\<lparr>bs_syntheticSeq := bs_syntheticSeq st + 1\<rparr>)))))"

definition applyToolCallEvent :: "ToolCall option \<Rightarrow> builderState \<Rightarrow> normalizeError + builderState" where
  "applyToolCallEvent toolCall st =
     (case toolCall of
        None \<Rightarrow> Inr st
      | Some call \<Rightarrow>
          let (key, st1) = ensureToolCallBuilder (tc_ID call) None st;
              builder = builderAt st1 key
          in if tb_fullSeen builder then Inl (ErrDuplicateToolCallID (tb_ID builder))
             else Inr (putBuilder key
               (builder\<lparr>tb_fullSeen := True,
                  tb_ID := (if tc_ID call \<noteq> [] then tc_ID call else tb_ID builder),
                  tb_Name := (if tc_Name call \<noteq> [] then tc_Name call else tb_Name builder),
                  tb_Arguments := (if tc_Arguments call \<noteq> [] then tc_Arguments call
                                   else tb_Arguments builder)\<rparr>) st1))"

definition applyToolCallDeltaEvent :: "ToolCallDelta option \<Rightarrow> builderState \<Rightarrow> builderState" where
  "applyToolCallDeltaEvent toolCallDelta st =
     (case toolCallDelta of
        None \<Rightarrow> st
      | Some delta \<Rightarrow>
          let (key, st1) = ensureToolCallBuilder (tcd_ID delta) (tcd_Index delta) st;
              builder = builderAt st1 key
          in putBuilder key
               (builder\<lparr>tb_ID := (if tcd_ID delta \<noteq> [] then tcd_ID delta else tb_ID builder),
                  tb_Index := (case tcd_Index delta of Some idx \<Rightarrow> Some idx | None \<Rightarrow> tb_Index builder),
                  tb_Name := (if tcd_Name delta \<noteq> [] then tcd_Name delta else tb_Name builder),
                  tb_Arguments := tb_Arguments builder @ tcd_ArgumentsDelta delta\<rparr>) st1)"

definition toolCallBuilderLabel :: "string \<Rightarrow> toolCallBuilder \<Rightarrow> string" where
  "toolCallBuilderLabel key builder =
     (if tb_ID builder \<noteq> [] then tb_ID builder
      else case tb_Index builder of Some idx \<Rightarrow> ''index:'' @ showInt idx | None \<Rightarrow> key)"

fun finalizeToolCalls ::
    "(bytes \<Rightarrow> bool) \<Rightarrow> NormalizedResponse \<Rightarrow> string list \<Rightarrow> (string \<rightharpoonup> toolCallBuilder)
       \<Rightarrow> normalizeError + NormalizedResponse" where
  "finalizeToolCalls jsonValid response [] builders = Inr response"
| "finalizeToolCalls jsonValid response (key # order) builders =
     (case builders key of
        None \<Rightarrow> finalizeToolCalls jsonValid response order builders
      | Some builder \<Rightarrow>
          (case tb_identityConflict builder of
             Some (text, args) \<Rightarrow> Inl (ErrToolCallIdentityConflict text args)
           | None \<Rightarrow>
               if trimSpace (tb_ID builder) = [] then
                 Inl (ErrMissingToolCallID (toolCallBuilderLabel key builder))
               else if tb_Arguments builder \<noteq> [] \<and> \<not> jsonValid (tb_Arguments builder) then
                 Inl (ErrInvalidToolCallArguments (toolCallBuilderLabel key builder))
               else if length (nr_ToolCalls response) \<ge> MaxToolCallsPerResponse then
                 Inl (ErrTooManyProviderToolCalls (int MaxToolCallsPerResponse))
               else finalizeToolCalls jsonValid
                 (response\<lparr>nr_ToolCalls := nr_ToolCalls response @
                    [\<lparr>tc_ID = tb_ID builder, tc_Name = tb_Name builder,
                      tc_Arguments = tb_Arguments builder, tc_OperationID = []\<rparr>]\<rparr>)
                 order builders))"

section \<open>The fold over the events\<close>

text \<open>
  One event of the loop of \<^verbatim>\<open>normalizeEvents\<close>: the text and thinking builders are kept in
  \<open>nr_Text\<close> and \<open>nr_Thinking\<close>, the content builder in \<open>nr_Content\<close>.
\<close>

definition normalizeEvent ::
    "Event \<Rightarrow> NormalizedResponse \<times> builderState \<Rightarrow> normalizeError + (NormalizedResponse \<times> builderState)" where
  "normalizeEvent event acc =
     (let (response0, st) = acc;
          response = response0\<lparr>nr_Usage := UsageAdd (nr_Usage response0) (ev_Usage event)\<rparr>
      in case ev_Kind event of
           EventTextDelta \<Rightarrow>
             Inr (response\<lparr>nr_Text := nr_Text response @ ev_Text event,
                    nr_Content := appendText (contentKindForPhase (ev_TextPhase event)) (ev_Text event) []
                      (nr_Content response)\<rparr>, st)
         | EventThinkingDelta \<Rightarrow>
             let parts = appendText ContentReasoning (ev_Thinking event) (ev_Signature event)
                           (nr_Content response)
             in Inr (response\<lparr>nr_Thinking := nr_Thinking response @ ev_Thinking event,
                       nr_Signature := (if ev_Signature event \<noteq> [] then ev_Signature event
                                        else nr_Signature response),
                       nr_RedactedThinking := (if ev_RedactedThinking event \<noteq> []
                                        then ev_RedactedThinking event else nr_RedactedThinking response),
                       nr_Content := (if ev_RedactedThinking event \<noteq> []
                         then appendPart (zeroPart\<lparr>cp_Kind := ContentRedactedReasoning,
                                cp_Data := ev_RedactedThinking event\<rparr>) parts
                         else parts)\<rparr>, st)
         | EventToolCall \<Rightarrow>
             (case applyToolCallEvent (ev_ToolCall event) st of
                Inl err \<Rightarrow> Inl err | Inr st1 \<Rightarrow> Inr (response, st1))
         | EventToolCallDelta \<Rightarrow> Inr (response, applyToolCallDeltaEvent (ev_ToolCallDelta event) st)
         | EventError \<Rightarrow>
             (case ev_Err event of Some err \<Rightarrow> Inl (StreamEventError err) | None \<Rightarrow> Inl StreamErrorEvent)
         | EventDone \<Rightarrow>
             Inr (response\<lparr>nr_StopReason := ev_StopReason event,
                    nr_Usage := (if ev_Usage event \<noteq> zeroUsage then ev_Usage event else nr_Usage response),
                    nr_ProviderState := (if ev_ProviderState event \<noteq> [] then ev_ProviderState event
                                         else nr_ProviderState response),
                    nr_Response := (if rm_ID (ev_Response event) \<noteq> [] \<or> rm_Model (ev_Response event) \<noteq> []
                                       \<or> rm_Headers (ev_Response event) \<noteq> []
                                    then ev_Response event else nr_Response response)\<rparr>, st)
         | EventOther _ \<Rightarrow> Inr (response, st))"

fun normalizeLoop ::
    "Event list \<Rightarrow> NormalizedResponse \<times> builderState \<Rightarrow> normalizeError + (NormalizedResponse \<times> builderState)" where
  "normalizeLoop [] acc = Inr acc"
| "normalizeLoop (event # events) acc =
     (case normalizeEvent event acc of Inl err \<Rightarrow> Inl err | Inr acc1 \<Rightarrow> normalizeLoop events acc1)"

definition emptyBuilders :: builderState where
  "emptyBuilders = \<lparr>bs_builders = Map.empty, bs_order = [], bs_idKeys = Map.empty,
     bs_indexKeys = Map.empty, bs_syntheticSeq = 0\<rparr>"

definition normalizeEvents ::
    "(bytes \<Rightarrow> bool) \<Rightarrow> Event list \<Rightarrow> bool \<Rightarrow> normalizeError + NormalizedResponse" where
  "normalizeEvents jsonValid events requireTerminal =
     (case validateTerminalSequence events False of
        Some err \<Rightarrow> Inl err
      | None \<Rightarrow>
          (case normalizeLoop events (zeroNormalized, emptyBuilders) of
             Inl err \<Rightarrow> Inl err
           | Inr (response, st) \<Rightarrow>
               (case (if requireTerminal then validateTerminalSequence events True else None) of
                  Some err \<Rightarrow> Inl err
                | None \<Rightarrow> finalizeToolCalls jsonValid response (bs_order st) (bs_builders st))))"

definition NormalizeEvents :: "(bytes \<Rightarrow> bool) \<Rightarrow> Event list \<Rightarrow> normalizeError + NormalizedResponse" where
  "NormalizeEvents jsonValid events = normalizeEvents jsonValid events True"

definition NormalizePartialEvents :: "(bytes \<Rightarrow> bool) \<Rightarrow> Event list \<Rightarrow> normalizeError + NormalizedResponse" where
  "NormalizePartialEvents jsonValid events = normalizeEvents jsonValid events False"

end
