(* ===== verification/Provider_Retry.thy ===== *)
theory Provider_Retry
  imports Provider_Normalize
begin

text \<open>
  Retries of a provider stream (\<^verbatim>\<open>src/provider/retry_stream.go\<close>) and the classification of errors they rest on
  (\<^verbatim>\<open>IsRetryableError\<close> and its kin in \<^verbatim>\<open>src/provider/provider.go\<close>). A stream that the application opens is the
  function from the number of a \<^verbatim>\<open>Recv\<close> to what it returns; \<open>rw_open\<close> gives what the successive calls of \<^verbatim>\<open>open\<close>
  return, \<open>rw_ctxErr\<close> and \<open>rw_wait\<close> what the context says at the successive requests for a retry and whether it
  ends the wait.
\<close>

section \<open>Classification of errors\<close>

text \<open>
  \<^verbatim>\<open>errors.As\<close>: the first error of the tree, in depth-first order, that the probe recognizes.
\<close>

fun firstFound :: "'a option list \<Rightarrow> 'a option" where
  "firstFound [] = None"
| "firstFound (None # xs) = firstFound xs"
| "firstFound (Some x # xs) = Some x"

fun errorAs :: "(goError \<Rightarrow> 'a option) \<Rightarrow> goError \<Rightarrow> 'a option" where
  "errorAs probe err =
     (case probe err of
        Some found \<Rightarrow> Some found
      | None \<Rightarrow>
          (case err of
             PartialStreamError cause \<Rightarrow> errorAs probe cause
           | Wrapped _ cause \<Rightarrow> errorAs probe cause
           | UrlError (Some cause) \<Rightarrow> errorAs probe cause
           | NetOpError (Some cause) \<Rightarrow> errorAs probe cause
           | JoinError causes \<Rightarrow> firstFound (map (errorAs probe) causes)
           | _ \<Rightarrow> None))"

declare errorAs.simps [simp del]

lemmas errorAs_wrapper = errorAs.simps [of _ "UrlError inner" for inner] errorAs.simps [of _ "NetOpError inner" for inner]
  errorAs.simps [of _ "PartialStreamError inner" for inner] errorAs.simps [of _ "Wrapped label inner" for label inner]
  errorAs.simps [of _ "JoinError inner" for inner]

definition asRetryable :: "goError \<Rightarrow> bool option" where
  "asRetryable err =
     (case err of
        ProviderFailure failure \<Rightarrow> Some (Retryable (Some failure))
      | MarkedError _ retryable \<Rightarrow> Some retryable
      | PartialStreamError _ \<Rightarrow> Some False
      | _ \<Rightarrow> None)"

definition asDelay :: "goError \<Rightarrow> duration option" where
  "asDelay err = (case err of ProviderFailure failure \<Rightarrow> Some (RetryDelay (Some failure)) | _ \<Rightarrow> None)"

definition asKind :: "goError \<Rightarrow> ErrorKind option" where
  "asKind err = (case err of ProviderFailure failure \<Rightarrow> Some (pe_Kind failure) | _ \<Rightarrow> None)"

definition asSystem :: "goError \<Rightarrow> unit option" where
  "asSystem err = (case err of SystemError _ \<Rightarrow> Some () | _ \<Rightarrow> None)"

definition asUrl :: "goError \<Rightarrow> goError option option" where
  "asUrl err = (case err of UrlError cause \<Rightarrow> Some cause | _ \<Rightarrow> None)"

definition asNetOp :: "goError \<Rightarrow> goError option option" where
  "asNetOp err = (case err of NetOpError cause \<Rightarrow> Some cause | _ \<Rightarrow> None)"

text \<open>The \<^verbatim>\<open>Timeout\<close> methods of the standard library; \<^verbatim>\<open>url.Error\<close> and \<^verbatim>\<open>net.OpError\<close> ask the error they hold.\<close>

fun timesOut :: "goError \<Rightarrow> bool" where
  "timesOut (NetError _ timeout) = timeout"
| "timesOut (UrlError (Some cause)) = timesOut cause"
| "timesOut (NetOpError (Some cause)) = timesOut cause"
| "timesOut ContextDeadlineExceeded = True"
| "timesOut (SystemError name) = (name = ''ETIMEDOUT'')"
| "timesOut _ = False"

definition asNetwork :: "goError \<Rightarrow> bool option" where
  "asNetwork err =
     (case err of
        NetError _ _ \<Rightarrow> Some (timesOut err) | UrlError _ \<Rightarrow> Some (timesOut err) | NetOpError _ \<Rightarrow> Some (timesOut err)
      | ContextDeadlineExceeded \<Rightarrow> Some True | _ \<Rightarrow> None)"

definition isRetryableSystemError :: "goError \<Rightarrow> bool" where
  "isRetryableSystemError err \<longleftrightarrow> errorAs asSystem err \<noteq> None"

definition SuggestedRetryDelay :: "goError \<Rightarrow> duration" where
  "SuggestedRetryDelay err = (case errorAs asDelay err of None \<Rightarrow> 0 | Some delay \<Rightarrow> max 0 delay)"

definition ErrorKindOf :: "goError \<Rightarrow> ErrorKind" where
  "ErrorKindOf err = (case errorAs asKind err of None \<Rightarrow> ErrorUnknown | Some kind \<Rightarrow> kind)"

text \<open>What \<^verbatim>\<open>errors.As\<close> finds behind a wrapper is a smaller error.\<close>

lemma firstFound_in: "firstFound xs = Some x \<Longrightarrow> Some x \<in> set xs"
  by (induction xs rule: firstFound.induct) auto

lemma errorAs_smaller:
  assumes probe: "\<And>e c. probe e = Some (Some c) \<Longrightarrow> size c < size e"
  shows "errorAs probe err = Some (Some cause) \<Longrightarrow> size cause < size err"
proof (induction err)
  case (JoinError causes)
  show ?case
  proof (cases "probe (JoinError causes)")
    case None
    then have "firstFound (map (errorAs probe) causes) = Some (Some cause)"
      using JoinError.prems by (simp add: errorAs_wrapper)
    then obtain c where c: "c \<in> set causes" "errorAs probe c = Some (Some cause)" by (auto dest!: firstFound_in)
    then have "size c \<le> size_list size causes" by (simp add: size_list_estimation' [OF _ le_refl])
    then show ?thesis using JoinError.IH [OF c] by simp
  next
    case (Some found)
    then show ?thesis using JoinError.prems probe [of "JoinError causes"] by (simp add: errorAs_wrapper)
  qed
next
  case (UrlError inner)
  then show ?case using probe [of "UrlError inner"]
    by (cases inner) (auto simp: errorAs_wrapper split: option.splits intro: less_SucI)
next
  case (NetOpError inner)
  then show ?case using probe [of "NetOpError inner"]
    by (cases inner) (auto simp: errorAs_wrapper split: option.splits intro: less_SucI)
next
  case (PartialStreamError inner)
  then show ?case using probe [of "PartialStreamError inner"] by (auto simp: errorAs_wrapper split: option.splits)
next
  case (Wrapped label inner)
  then show ?case using probe [of "Wrapped label inner"] by (auto simp: errorAs_wrapper split: option.splits)
qed (auto simp: errorAs.simps [of probe] split: option.splits dest: probe)

lemma asUrl_smaller: "errorAs asUrl err = Some (Some cause) \<Longrightarrow> size cause < size err"
  by (rule errorAs_smaller [of asUrl]) (auto simp: asUrl_def split: goError.splits)

lemma asNetOp_smaller: "errorAs asNetOp err = Some (Some cause) \<Longrightarrow> size cause < size err"
  by (rule errorAs_smaller [of asNetOp]) (auto simp: asNetOp_def split: goError.splits)

function IsRetryableError :: "goError \<Rightarrow> bool" where
  "IsRetryableError err =
     (if isContextError err then False
      else case errorAs asRetryable err of
        Some retryable \<Rightarrow> retryable
      | None \<Rightarrow>
          if isRetryableSystemError err then True
          else (case errorAs asUrl err of
                  Some (Some cause) \<Rightarrow> IsRetryableError cause
                | _ \<Rightarrow>
                    (case errorAs asNetOp err of
                       Some (Some cause) \<Rightarrow> IsRetryableError cause
                     | _ \<Rightarrow> errorAs asNetwork err = Some True)))"
  by pat_completeness auto

termination IsRetryableError
  by (relation "measure size") (auto dest: asUrl_smaller asNetOp_smaller)

declare IsRetryableError.simps [simp del]

section \<open>Options and progress\<close>

record RetryProgress =
  rp_Attempt :: int
  rp_Max :: int
  rp_Delay :: duration
  rp_Cause :: goError

record StreamRetryOptions =
  so_Max :: int
  so_Delay :: "(int \<Rightarrow> duration) option"
  so_MaxDelay :: duration
  so_ShouldRetry :: "(RetryProgress \<Rightarrow> bool) option"
  so_Observer :: "(RetryProgress \<Rightarrow> goError option) option"

definition DefaultMaxStreamRetries :: int where
  "DefaultMaxStreamRetries = 5"

definition DefaultMaxStreamRetryDelay :: duration where
  "DefaultMaxStreamRetryDelay = 30 * 1000000000"

text \<open>200 milliseconds doubled for each attempt after the first, at most 2 seconds.\<close>

definition defaultStreamDelay :: "int \<Rightarrow> duration" where
  "defaultStreamDelay attempt =
     (let shift = min (max (attempt - 1) 0) 30 in min (200000000 * 2 ^ nat shift) 2000000000)"

definition normalizedStreamRetryOptions :: "StreamRetryOptions \<Rightarrow> StreamRetryOptions" where
  "normalizedStreamRetryOptions options =
     options\<lparr>so_Max := (if so_Max options \<le> 0 then DefaultMaxStreamRetries else so_Max options),
            so_MaxDelay := (if so_MaxDelay options \<le> 0 then DefaultMaxStreamRetryDelay else so_MaxDelay options),
            so_Delay := (case so_Delay options of None \<Rightarrow> Some defaultStreamDelay | Some delay \<Rightarrow> Some delay)\<rparr>"

type_synonym received = "Event \<times> goError option"
type_synonym rawStream = "nat \<Rightarrow> received"

record retryWorld =
  rw_open :: "nat \<Rightarrow> goError + rawStream"
  rw_ctxErr :: "nat \<Rightarrow> goError option"
  rw_wait :: "nat \<Rightarrow> goError option"

definition contextRetryStop :: "goError \<Rightarrow> bool" where
  "contextRetryStop err \<longleftrightarrow> isContextError err"

definition retryProgress :: "StreamRetryOptions \<Rightarrow> int \<Rightarrow> goError \<Rightarrow> RetryProgress" where
  "retryProgress options attempt cause =
     \<lparr>rp_Attempt = attempt, rp_Max = so_Max options,
      rp_Delay = min (max (max 0 ((the (so_Delay options)) attempt)) (SuggestedRetryDelay cause)) (so_MaxDelay options),
      rp_Cause = cause\<rparr>"

text \<open>Whether the retry is approved, or the error that ends the waiting.\<close>

definition approveStreamRetryAndWait ::
    "retryWorld \<Rightarrow> nat \<Rightarrow> StreamRetryOptions \<Rightarrow> int \<Rightarrow> goError \<Rightarrow> goError + bool" where
  "approveStreamRetryAndWait world asked options attempt cause =
     (case rw_ctxErr world asked of
        Some err \<Rightarrow> Inl err
      | None \<Rightarrow>
          if contextRetryStop cause then Inr False
          else
            let progress = retryProgress options attempt cause;
                approved = (case so_ShouldRetry options of None \<Rightarrow> IsRetryableError cause | Some decide \<Rightarrow> decide progress)
            in if \<not> approved then Inr False
               else case (case so_Observer options of None \<Rightarrow> None | Some observe \<Rightarrow> observe progress) of
                   Some err \<Rightarrow> Inl err
                 | None \<Rightarrow>
                     if rp_Delay progress \<le> 0 then Inr True
                     else (case rw_wait world asked of Some err \<Rightarrow> Inl err | None \<Rightarrow> Inr True))"

section \<open>Opening\<close>

definition exhausted :: "StreamRetryOptions \<Rightarrow> goError \<Rightarrow> goError" where
  "exhausted options err = Wrapped (''provider stream failed after '' @ showInt (so_Max options) @ '' retries'') err"

text \<open>\<open>oc_opened\<close> counts the calls of \<^verbatim>\<open>open\<close>, \<open>oc_asked\<close> the requests for a retry.\<close>

record openCounters =
  oc_opened :: nat
  oc_asked :: nat
  oc_retries :: int

function openStreamWithRetry ::
    "retryWorld \<Rightarrow> StreamRetryOptions \<Rightarrow> openCounters \<Rightarrow> (goError + rawStream) \<times> openCounters" where
  "openStreamWithRetry world options counters =
     (let opened = counters\<lparr>oc_opened := Suc (oc_opened counters)\<rparr>
      in case rw_open world (oc_opened counters) of
           Inr stream \<Rightarrow> (Inr stream, opened)
         | Inl err \<Rightarrow>
             if contextRetryStop err then (Inl err, opened)
             else if oc_retries counters \<ge> so_Max options then (Inl (exhausted options err), opened)
             else
               let asked = opened\<lparr>oc_asked := Suc (oc_asked counters)\<rparr>
               in case approveStreamRetryAndWait world (oc_asked counters) options (oc_retries counters + 1) err of
                    Inl approvalErr \<Rightarrow> (Inl approvalErr, asked)
                  | Inr False \<Rightarrow> (Inl err, asked)
                  | Inr True \<Rightarrow> openStreamWithRetry world options (asked\<lparr>oc_retries := oc_retries counters + 1\<rparr>))"
  by pat_completeness auto

termination openStreamWithRetry
  by (relation "measure (\<lambda>(_, options, counters). nat (so_Max options - oc_retries counters))") auto

declare openStreamWithRetry.simps [simp del]

lemma int_le_of_succ: "(a :: int) + 1 \<le> b \<Longrightarrow> a \<le> b"
  by simp

lemma openStreamWithRetry_retries: "oc_retries counters \<le> oc_retries (snd (openStreamWithRetry world options counters))"
proof (induction world options counters rule: openStreamWithRetry.induct)
  case (1 world options counters)
  then show ?case
    by (subst openStreamWithRetry.simps) (auto simp: Let_def split: sum.splits bool.splits intro: int_le_of_succ)
qed

lemma openStreamWithRetry_later:
  "openStreamWithRetry world options counters = (answer, counters') \<Longrightarrow> oc_retries counters \<le> oc_retries counters'"
  using openStreamWithRetry_retries [of counters world options] by simp

section \<open>Receiving\<close>

record retryingStream =
  rg_current :: rawStream
  rg_position :: nat
  rg_counters :: openCounters
  rg_emitted :: bool
  rg_terminal :: bool
  rg_closed :: bool

definition contentEvent :: "Event \<Rightarrow> bool" where
  "contentEvent event \<longleftrightarrow> ev_Kind event \<noteq> EventOther [] \<and> ev_Kind event \<noteq> EventError \<and> ev_Kind event \<noteq> EventDone"

definition classifyPartialFailure ::
    "retryingStream \<Rightarrow> Event \<Rightarrow> goError option \<Rightarrow> goError option \<Rightarrow> Event \<times> bool \<times> goError option \<times> retryingStream" where
  "classifyPartialFailure s event recvErr cause =
     (let failing = (\<lambda>failure. (if ev_Kind event = EventError then zeroEvent else event, False,
            Some (PartialStreamError failure), s\<lparr>rg_terminal := True\<rparr>))
      in case cause of
           None \<Rightarrow>
             if ev_Kind event \<noteq> EventError then (event, False, recvErr, s)
             else failing (TextError ''provider returned an error event after partial output'')
         | Some failure \<Rightarrow> failing failure)"

definition classifyReceived ::
    "retryingStream \<Rightarrow> Event \<Rightarrow> goError option \<Rightarrow> Event \<times> bool \<times> goError option \<times> retryingStream" where
  "classifyReceived s event recvErr =
     (let cause = (if ev_Kind event = EventError \<and> ev_Err event \<noteq> None then ev_Err event else recvErr)
      in if ev_Kind event = EventDone then
           (case recvErr of
              Some err \<Rightarrow> (zeroEvent, False, Some (PartialStreamError err), s\<lparr>rg_terminal := True\<rparr>)
            | None \<Rightarrow> (event, False, None, s\<lparr>rg_terminal := True\<rparr>))
         else if contentEvent event then
           (case recvErr of
              Some err \<Rightarrow> (event, False, Some (PartialStreamError err), s\<lparr>rg_emitted := True, rg_terminal := True\<rparr>)
            | None \<Rightarrow> (event, False, None, s\<lparr>rg_emitted := True\<rparr>))
         else if rg_emitted s then classifyPartialFailure s event recvErr cause
         else case cause of
             None \<Rightarrow> (event, False, recvErr, if ev_Kind event = EventError then s\<lparr>rg_terminal := True\<rparr> else s)
           | Some failure \<Rightarrow> (event, True, Some failure, s))"

definition streamRetryFailure :: "Event \<Rightarrow> goError \<Rightarrow> received" where
  "streamRetryFailure event err =
     (if ev_Kind event = EventError then (event\<lparr>ev_Err := Some err\<rparr>, None) else (event, Some err))"

definition askedRetry :: "retryingStream \<Rightarrow> retryingStream" where
  "askedRetry s = s\<lparr>rg_counters := (rg_counters s)\<lparr>oc_asked := Suc (oc_asked (rg_counters s))\<rparr>\<rparr>"

function recvRetrying :: "retryWorld \<Rightarrow> StreamRetryOptions \<Rightarrow> retryingStream \<Rightarrow> received \<times> retryingStream" where
  "recvRetrying world options s0 =
     (if rg_closed s0 then ((zeroEvent, Some (TextError ''provider stream is closed'')), s0)
      else
        case rg_current s0 (rg_position s0) of
          (event, recvErr) \<Rightarrow>
            let s1 = s0\<lparr>rg_position := Suc (rg_position s0)\<rparr>
            in if rg_terminal s0 then ((event, recvErr), s1)
               else case classifyReceived s1 event recvErr of
                   (classified, False, resultErr, s) \<Rightarrow> ((classified, resultErr), s)
                 | (classified, True, None, s) \<Rightarrow> ((classified, None), s)
                 | (classified, True, Some cause, s) \<Rightarrow>
                     if contextRetryStop cause then ((zeroEvent, Some cause), s)
                     else if oc_retries (rg_counters s0) \<ge> so_Max options
                     then (streamRetryFailure event (exhausted options cause), s)
                     else case approveStreamRetryAndWait world (oc_asked (rg_counters s0)) options (oc_retries (rg_counters s0) + 1) cause of
                         Inl err \<Rightarrow> ((zeroEvent, Some err), askedRetry s)
                       | Inr False \<Rightarrow>
                           if ev_Kind event = EventError then ((event, recvErr), (askedRetry s)\<lparr>rg_terminal := True\<rparr>)
                           else ((event, Some cause), askedRetry s)
                       | Inr True \<Rightarrow>
                           (case openStreamWithRetry world options
                                  ((rg_counters (askedRetry s0))\<lparr>oc_retries := oc_retries (rg_counters s0) + 1\<rparr>) of
                              (Inl err, counters) \<Rightarrow> (streamRetryFailure event err, s\<lparr>rg_counters := counters\<rparr>)
                            | (Inr stream, counters) \<Rightarrow>
                                recvRetrying world options
                                  (s0\<lparr>rg_current := stream, rg_position := 0, rg_counters := counters\<rparr>)))"
  by pat_completeness auto

termination recvRetrying
  by (relation "measure (\<lambda>(_, options, s). nat (so_Max options - oc_retries (rg_counters s)))")
    (auto dest!: openStreamWithRetry_later [OF sym] simp: askedRetry_def)

declare recvRetrying.simps [simp del]

definition CloseRetrying :: "retryingStream \<Rightarrow> retryingStream" where
  "CloseRetrying s = s\<lparr>rg_closed := True\<rparr>"

definition OpenRetryingStream :: "retryWorld \<Rightarrow> StreamRetryOptions \<Rightarrow> goError + retryingStream" where
  "OpenRetryingStream world options =
     (case openStreamWithRetry world (normalizedStreamRetryOptions options) \<lparr>oc_opened = 0, oc_asked = 0, oc_retries = 0\<rparr> of
        (Inl err, _) \<Rightarrow> Inl err
      | (Inr stream, counters) \<Rightarrow>
          Inr \<lparr>rg_current = stream, rg_position = 0, rg_counters = counters, rg_emitted = False, rg_terminal = False,
               rg_closed = False\<rparr>)"

text \<open>What a caller gets from so many calls of \<^verbatim>\<open>Recv\<close>.\<close>

fun receive :: "retryWorld \<Rightarrow> StreamRetryOptions \<Rightarrow> nat \<Rightarrow> retryingStream \<Rightarrow> received list \<times> retryingStream" where
  "receive world options 0 s = ([], s)"
| "receive world options (Suc n) s =
     (case recvRetrying world options s of (answer, s1) \<Rightarrow> apfst (Cons answer) (receive world options n s1))"

end
