(* ===== verification/Provider_Retry_Properties.thy ===== *)
theory Provider_Retry_Properties
  imports Provider_Retry
begin

text \<open>
  What a retrying stream promises: the content a caller sees is the content of one underlying stream, without
  gaps or repetitions; the provider is opened at most once more than the retries allowed; and a failure after
  content is final.
\<close>

section \<open>One Recv\<close>

lemma contentEvent_zero [simp]: "\<not> contentEvent zeroEvent"
  by (simp add: contentEvent_def zeroEvent_def)

lemma contentEvent_failure [simp]: "contentEvent (fst (streamRetryFailure event err)) \<longleftrightarrow> contentEvent event"
  by (auto simp: streamRetryFailure_def contentEvent_def)

lemma classifyReceived_keeps:
  assumes "classifyReceived s event recvErr = (classified, retry, resultErr, s')"
  shows "rg_current s' = rg_current s" "rg_position s' = rg_position s" "rg_counters s' = rg_counters s"
    "rg_emitted s \<Longrightarrow> rg_emitted s'" "rg_terminal s \<Longrightarrow> rg_terminal s'"
  using assms by (auto simp: classifyReceived_def classifyPartialFailure_def Let_def split: if_splits option.splits)

lemma classifyReceived_retry:
  assumes "classifyReceived s event recvErr = (classified, True, resultErr, s')"
  shows "s' = s" "\<not> rg_emitted s" "\<not> contentEvent event" "resultErr \<noteq> None"
proof -
  note unfolded = assms [unfolded classifyReceived_def classifyPartialFailure_def Let_def]
  show "s' = s" "\<not> rg_emitted s" "\<not> contentEvent event" using unfolded by (auto split: if_splits option.splits)
  show "resultErr \<noteq> None" using unfolded by (cases resultErr) (auto split: if_splits option.splits)
qed

lemma classifyReceived_answer:
  assumes "classifyReceived s event recvErr = (classified, False, resultErr, s')"
  shows "contentEvent event \<Longrightarrow> classified = event \<and> rg_emitted s'" "\<not> contentEvent event \<Longrightarrow> \<not> contentEvent classified"
  using assms
  by (auto simp: classifyReceived_def classifyPartialFailure_def contentEvent_def Let_def zeroEvent_def split: if_splits option.splits)

text \<open>The content of the current stream that has been received.\<close>

definition streamed :: "retryingStream \<Rightarrow> Event list" where
  "streamed s = filter contentEvent (map (fst \<circ> rg_current s) [0..<rg_position s])"

definition silent :: "retryingStream \<Rightarrow> bool" where
  "silent s \<longleftrightarrow> (\<not> rg_emitted s \<and> \<not> rg_terminal s \<longrightarrow> streamed s = [])"

lemma streamed_next:
  "rg_current s' = rg_current s \<Longrightarrow> rg_position s' = Suc (rg_position s) \<Longrightarrow> rg_current s (rg_position s) = (event, recvErr) \<Longrightarrow>
   streamed s' = streamed s @ filter contentEvent [event]"
  by (simp add: streamed_def)

lemma streamed_flags [simp]:
  "streamed (s\<lparr>rg_counters := c\<rparr>) = streamed s" "streamed (s\<lparr>rg_terminal := t\<rparr>) = streamed s"
  "streamed (askedRetry s) = streamed s" "streamed (s\<lparr>rg_current := stream, rg_position := 0\<rparr>) = []"
  by (simp_all add: streamed_def askedRetry_def)

lemma askedRetry_fields [simp]:
  "rg_current (askedRetry s) = rg_current s" "rg_position (askedRetry s) = rg_position s" "rg_emitted (askedRetry s) = rg_emitted s"
  "rg_terminal (askedRetry s) = rg_terminal s" "rg_closed (askedRetry s) = rg_closed s"
  by (simp_all add: askedRetry_def)

lemma recvRetrying_answer:
  assumes "\<not> rg_closed s" "\<not> rg_terminal s" "rg_current s (rg_position s) = (event, recvErr)"
    "classifyReceived (s\<lparr>rg_position := Suc (rg_position s)\<rparr>) event recvErr = (classified, False, resultErr, s')"
  shows "recvRetrying world options s = ((classified, resultErr), s')"
  using assms by (subst recvRetrying.simps) (simp only: if_False prod.case Let_def bool.case)

text \<open>The cases of one \<^verbatim>\<open>Recv\<close> of an open stream.\<close>

lemma recvRetrying_cases:
  assumes "recvRetrying world options s0 = (answer, s')"
  obtains (closed) "rg_closed s0" "s' = s0" "\<not> contentEvent (fst answer)"
  | (direct) event recvErr where "\<not> rg_closed s0" "rg_current s0 (rg_position s0) = (event, recvErr)"
      "rg_current s' = rg_current s0" "rg_position s' = Suc (rg_position s0)"
      "oc_opened (rg_counters s') = oc_opened (rg_counters s0)" "oc_retries (rg_counters s') = oc_retries (rg_counters s0)"
      "filter contentEvent [fst answer] = filter contentEvent [event]"
      "contentEvent event \<Longrightarrow> rg_emitted s' \<or> rg_terminal s'" "rg_emitted s0 \<Longrightarrow> rg_emitted s'" "rg_terminal s0 \<Longrightarrow> rg_terminal s'"
  | (unopened) event recvErr err counters where "rg_current s0 (rg_position s0) = (event, recvErr)" "\<not> contentEvent event"
      "\<not> rg_emitted s0" "\<not> rg_terminal s0" "oc_retries (rg_counters s0) < so_Max options"
      "openStreamWithRetry world options ((rg_counters (askedRetry s0))\<lparr>oc_retries := oc_retries (rg_counters s0) + 1\<rparr>) = (Inl err, counters)"
      "answer = streamRetryFailure event err" "s' = s0\<lparr>rg_position := Suc (rg_position s0), rg_counters := counters\<rparr>"
  | (reopened) event recvErr stream counters where "rg_current s0 (rg_position s0) = (event, recvErr)" "\<not> contentEvent event"
      "\<not> rg_emitted s0" "\<not> rg_terminal s0" "oc_retries (rg_counters s0) < so_Max options"
      "openStreamWithRetry world options ((rg_counters (askedRetry s0))\<lparr>oc_retries := oc_retries (rg_counters s0) + 1\<rparr>) = (Inr stream, counters)"
      "recvRetrying world options (s0\<lparr>rg_current := stream, rg_position := 0, rg_counters := counters\<rparr>) = (answer, s')"
proof (cases "rg_closed s0")
  case True
  then have "recvRetrying world options s0 = ((zeroEvent, Some (TextError ''provider stream is closed'')), s0)"
    by (subst recvRetrying.simps) (simp only: if_True)
  then have "answer = (zeroEvent, Some (TextError ''provider stream is closed''))" "s' = s0" using assms by auto
  then show thesis using True by (intro closed) simp_all
next
  case open0: False
  obtain event recvErr where got: "rg_current s0 (rg_position s0) = (event, recvErr)" by fastforce
  let ?s1 = "s0\<lparr>rg_position := Suc (rg_position s0)\<rparr>"
  show thesis
  proof (cases "rg_terminal s0")
    case True
    then have "recvRetrying world options s0 = ((event, recvErr), ?s1)"
      using open0 got by (subst recvRetrying.simps) (simp only: if_False if_True prod.case Let_def)
    then have "answer = (event, recvErr)" "s' = ?s1" using assms by auto
    then show thesis using True by (intro direct [OF open0 got]) simp_all
  next
    case live: False
    obtain classified retry resultErr s where cl: "classifyReceived ?s1 event recvErr = (classified, retry, resultErr, s)"
      by (metis prod_cases4)
    note kept = classifyReceived_keeps [OF cl]
    show thesis
    proof (cases retry)
      case False
      then have "recvRetrying world options s0 = ((classified, resultErr), s)"
        using recvRetrying_answer [OF open0 live got] cl by simp
      then have "answer = (classified, resultErr)" "s' = s" using assms by auto
      moreover have "classifyReceived ?s1 event recvErr = (classified, False, resultErr, s)" using cl False by simp
      note answered = classifyReceived_answer [OF this]
      have "filter contentEvent [classified] = filter contentEvent [event]" using answered by (cases "contentEvent event") simp_all
      ultimately show thesis using kept answered live by (intro direct [OF open0 got]) simp_all
    next
      case True
      have "classifyReceived ?s1 event recvErr = (classified, True, resultErr, s)" using cl True by simp
      note again = classifyReceived_retry [OF this]
      obtain cause where cause: "resultErr = Some cause" using again(4) by auto
      have s: "s = ?s1" by (rule again(1))
      let ?more = "openStreamWithRetry world options ((rg_counters (askedRetry s0))\<lparr>oc_retries := oc_retries (rg_counters s0) + 1\<rparr>)"
      have step: "recvRetrying world options s0 =
          (if contextRetryStop cause then ((zeroEvent, Some cause), ?s1)
           else if oc_retries (rg_counters s0) \<ge> so_Max options then (streamRetryFailure event (exhausted options cause), ?s1)
           else case approveStreamRetryAndWait world (oc_asked (rg_counters s0)) options (oc_retries (rg_counters s0) + 1) cause of
               Inl err \<Rightarrow> ((zeroEvent, Some err), askedRetry ?s1)
             | Inr False \<Rightarrow>
                 if ev_Kind event = EventError then ((event, recvErr), (askedRetry ?s1)\<lparr>rg_terminal := True\<rparr>)
                 else ((event, Some cause), askedRetry ?s1)
             | Inr True \<Rightarrow>
                 (case ?more of
                    (Inl err, counters) \<Rightarrow> (streamRetryFailure event err, ?s1\<lparr>rg_counters := counters\<rparr>)
                  | (Inr stream, counters) \<Rightarrow>
                      recvRetrying world options (s0\<lparr>rg_current := stream, rg_position := 0, rg_counters := counters\<rparr>)))"
        using open0 live cl True cause got unfolding s
        by (subst recvRetrying.simps) (simp only: if_False prod.case Let_def bool.case option.case)
      have quiet: "\<not> rg_emitted s0" "\<not> contentEvent event" using again(2,3) by simp_all
      consider (stopped) "fst (recvRetrying world options s0) = answer" "s' = ?s1 \<or> s' = askedRetry ?s1 \<or> s' = (askedRetry ?s1)\<lparr>rg_terminal := True\<rparr>"
          "\<not> contentEvent (fst answer)"
        | (more) "oc_retries (rg_counters s0) < so_Max options" "recvRetrying world options s0 =
            (case ?more of
                    (Inl err, counters) \<Rightarrow> (streamRetryFailure event err, ?s1\<lparr>rg_counters := counters\<rparr>)
                  | (Inr stream, counters) \<Rightarrow>
                      recvRetrying world options (s0\<lparr>rg_current := stream, rg_position := 0, rg_counters := counters\<rparr>))"
        using step assms quiet by (fastforce split: if_splits sum.splits bool.splits)
      then show thesis
      proof cases
        case stopped
        then show thesis using quiet live by (intro direct [OF open0 got]) (auto simp: askedRetry_def)
      next
        case more
        obtain opened counters where o: "?more = (opened, counters)" by fastforce
        show thesis
        proof (cases opened)
          case (Inl err)
          show thesis using more assms o Inl
            by (intro unopened [OF got quiet(2,1) live more(1) o [unfolded Inl]]) auto
        next
          case (Inr stream)
          show thesis using more assms o Inr
            by (intro reopened [OF got quiet(2,1) live more(1) o [unfolded Inr]]) auto
        qed
      qed
    qed
  qed
qed

section \<open>The content of a session\<close>

lemma recvRetrying_streams:
  "recvRetrying world options s = (answer, s') \<Longrightarrow> silent s \<Longrightarrow>
   streamed s' = streamed s @ filter contentEvent [fst answer] \<and> silent s'"
proof (induction "nat (so_Max options - oc_retries (rg_counters s))" arbitrary: s rule: less_induct)
  case less
  from less.prems(1) show ?case
  proof (cases rule: recvRetrying_cases)
    case closed
    then show ?thesis using less.prems(2) by simp
  next
    case (direct event recvErr)
    have "streamed s' = streamed s @ filter contentEvent [event]" by (rule streamed_next [OF direct(3,4,2)])
    then show ?thesis using direct(7-10) less.prems(2) by (auto simp: silent_def split: if_splits)
  next
    case (unopened event recvErr err counters)
    have "streamed s' = streamed s @ filter contentEvent [event]"
      unfolding unopened(8) by (rule streamed_next [OF _ _ unopened(1)]) simp_all
    then show ?thesis using unopened less.prems(2) by (simp add: silent_def)
  next
    case (reopened event recvErr stream counters)
    let ?s = "s\<lparr>rg_current := stream, rg_position := 0, rg_counters := counters\<rparr>"
    have "streamed s = []" using less.prems(2) reopened(3,4) by (simp add: silent_def)
    moreover have "silent ?s" by (simp add: silent_def)
    moreover have "oc_retries (rg_counters s) < oc_retries counters"
      using openStreamWithRetry_later [OF reopened(6)] by (simp add: askedRetry_def)
    ultimately show ?thesis using less.hyps [OF _ reopened(7)] reopened(5) by simp
  qed
qed

lemma receive_streams:
  "receive world options n s = (answers, s') \<Longrightarrow> silent s \<Longrightarrow>
   streamed s' = streamed s @ filter contentEvent (map fst answers) \<and> silent s'"
proof (induction n arbitrary: s answers)
  case (Suc n)
  obtain answer s1 where one: "recvRetrying world options s = (answer, s1)" by fastforce
  obtain rest where rest: "receive world options n s1 = (rest, s')" "answers = answer # rest"
    using Suc.prems(1) one by (cases "receive world options n s1") auto
  show ?case using recvRetrying_streams [OF one Suc.prems(2)] Suc.IH [OF rest(1)] rest(2) by (simp split: if_splits)
qed simp

section \<open>The number of streams opened\<close>

definition counted :: "StreamRetryOptions \<Rightarrow> openCounters \<Rightarrow> bool" where
  "counted options counters \<longleftrightarrow> int (oc_opened counters) = oc_retries counters + 1 \<and> oc_retries counters \<le> so_Max options"

lemma openStreamWithRetry_counted:
  "int (oc_opened counters) = oc_retries counters \<Longrightarrow> oc_retries counters \<le> so_Max options \<Longrightarrow>
   counted options (snd (openStreamWithRetry world options counters)) \<and>
   (\<forall>stream. fst (openStreamWithRetry world options counters) = Inr stream \<longrightarrow>
      (\<exists>k. rw_open world k = Inr stream))"
proof (induction world options counters rule: openStreamWithRetry.induct)
  case (1 world options counters)
  show ?case
  proof (cases "rw_open world (oc_opened counters)")
    case (Inr stream)
    then show ?thesis using "1.prems" by (subst (1 2) openStreamWithRetry.simps) (auto simp: counted_def Let_def)
  next
    case (Inl err)
    show ?thesis
    proof (cases "contextRetryStop err \<or> oc_retries counters \<ge> so_Max options")
      case True
      then show ?thesis using "1.prems" Inl by (subst (1 2) openStreamWithRetry.simps) (auto simp: counted_def Let_def)
    next
      case False
      let ?asked = "counters\<lparr>oc_opened := Suc (oc_opened counters), oc_asked := Suc (oc_asked counters)\<rparr>"
      consider e where "approveStreamRetryAndWait world (oc_asked counters) options (oc_retries counters + 1) err = Inl e"
        | "approveStreamRetryAndWait world (oc_asked counters) options (oc_retries counters + 1) err = Inr False"
        | "approveStreamRetryAndWait world (oc_asked counters) options (oc_retries counters + 1) err = Inr True"
        by (metis (full_types) old.sum.exhaust)
      then show ?thesis
      proof cases
        case 3
        then have "openStreamWithRetry world options counters
            = openStreamWithRetry world options (?asked\<lparr>oc_retries := oc_retries counters + 1\<rparr>)"
          using Inl False by (subst openStreamWithRetry.simps) (simp add: Let_def)
        then show ?thesis using "1.IH" [OF refl Inl _ _ refl 3] False "1.prems" by simp
      next
        case 1
        then have "openStreamWithRetry world options counters = (Inl e, ?asked)"
          using Inl False by (subst openStreamWithRetry.simps) (simp add: Let_def)
        then show ?thesis using "1.prems" False by (simp add: counted_def)
      next
        case 2
        then have "openStreamWithRetry world options counters = (Inl err, ?asked)"
          using Inl False by (subst openStreamWithRetry.simps) (simp add: Let_def)
        then show ?thesis using "1.prems" False by (simp add: counted_def)
      qed
    qed
  qed
qed

lemma recvRetrying_counted:
  "recvRetrying world options s = (answer, s') \<Longrightarrow> counted options (rg_counters s) \<Longrightarrow> \<exists>k. rw_open world k = Inr (rg_current s) \<Longrightarrow>
   counted options (rg_counters s') \<and> (\<exists>k. rw_open world k = Inr (rg_current s'))"
proof (induction "nat (so_Max options - oc_retries (rg_counters s))" arbitrary: s rule: less_induct)
  case less
  have more: "counted options counters \<and> (\<forall>stream. opened = Inr stream \<longrightarrow> (\<exists>k. rw_open world k = Inr stream))"
    if "openStreamWithRetry world options ((rg_counters (askedRetry s))\<lparr>oc_retries := oc_retries (rg_counters s) + 1\<rparr>) = (opened, counters)"
      "oc_retries (rg_counters s) < so_Max options" for opened counters
    using openStreamWithRetry_counted [of "(rg_counters (askedRetry s))\<lparr>oc_retries := oc_retries (rg_counters s) + 1\<rparr>" options world]
      less.prems(2) that by (simp add: counted_def askedRetry_def)
  from less.prems(1) show ?case
  proof (cases rule: recvRetrying_cases)
    case (unopened event recvErr err counters)
    then show ?thesis using more [OF unopened(6,5)] less.prems(3) by simp
  next
    case (reopened event recvErr stream counters)
    have "oc_retries (rg_counters s) < oc_retries counters"
      using openStreamWithRetry_later [OF reopened(6)] by (simp add: askedRetry_def)
    then show ?thesis using less.hyps [OF _ reopened(7)] more [OF reopened(6,5)] reopened(5) by simp
  qed (use less.prems(2,3) in \<open>auto simp: counted_def\<close>)
qed

lemma receive_counted:
  "receive world options n s = (answers, s') \<Longrightarrow> counted options (rg_counters s) \<Longrightarrow> \<exists>k. rw_open world k = Inr (rg_current s) \<Longrightarrow>
   counted options (rg_counters s') \<and> (\<exists>k. rw_open world k = Inr (rg_current s'))"
proof (induction n arbitrary: s answers)
  case (Suc n)
  obtain answer s1 where one: "recvRetrying world options s = (answer, s1)" by fastforce
  obtain rest where rest: "receive world options n s1 = (rest, s')"
    using Suc.prems(1) one by (cases "receive world options n s1") auto
  show ?case using recvRetrying_counted [OF one Suc.prems(2,3)] Suc.IH [OF rest] by blast
qed simp

lemma normalized_Max: "0 < so_Max (normalizedStreamRetryOptions options)" "0 < so_MaxDelay (normalizedStreamRetryOptions options)"
  by (simp_all add: normalizedStreamRetryOptions_def DefaultMaxStreamRetries_def DefaultMaxStreamRetryDelay_def)

lemma OpenRetryingStream_start:
  assumes "OpenRetryingStream world options = Inr s"
  shows "silent s" "streamed s = []" "counted (normalizedStreamRetryOptions options) (rg_counters s)"
    "\<exists>k. rw_open world k = Inr (rg_current s)"
proof -
  let ?options = "normalizedStreamRetryOptions options" and ?zero = "\<lparr>oc_opened = 0, oc_asked = 0, oc_retries = 0\<rparr>"
  obtain stream counters where o: "openStreamWithRetry world ?options ?zero = (Inr stream, counters)"
    "s = \<lparr>rg_current = stream, rg_position = 0, rg_counters = counters, rg_emitted = False, rg_terminal = False, rg_closed = False\<rparr>"
    using assms by (auto simp: OpenRetryingStream_def split: prod.splits sum.splits)
  show "silent s" "streamed s = []" by (simp_all add: o(2) silent_def streamed_def)
  show "counted ?options (rg_counters s)" "\<exists>k. rw_open world k = Inr (rg_current s)"
    using openStreamWithRetry_counted [of ?zero ?options world] normalized_Max(1) [of options] o by simp_all
qed

section \<open>The properties\<close>

text \<open>
  C28. The content events that a caller receives from a retrying stream, over any number of calls of \<^verbatim>\<open>Recv\<close>, are
  exactly the content events that one of the streams opened at the provider has delivered so far, in their order:
  a retry neither repeats nor drops output.
\<close>

theorem retry_delivers_one_stream:
  assumes "OpenRetryingStream world options = Inr s"
    and "receive world (normalizedStreamRetryOptions options) n s = (answers, s')"
  shows "filter contentEvent (map fst answers) = filter contentEvent (map (fst \<circ> rg_current s') [0..<rg_position s']) \<and>
    (\<exists>k. rw_open world k = Inr (rg_current s'))"
  using receive_streams [OF assms(2) OpenRetryingStream_start(1) [OF assms(1)]]
    receive_counted [OF assms(2) OpenRetryingStream_start(3,4) [OF assms(1)]] OpenRetryingStream_start(2) [OF assms(1)]
  by (simp add: streamed_def)

text \<open>
  Whatever the provider does and however long the caller reads, a retrying stream opens the provider at most
  once more than the retries the options allow.
\<close>

theorem retry_opens_bounded:
  assumes "OpenRetryingStream world options = Inr s"
    and "receive world (normalizedStreamRetryOptions options) n s = (answers, s')"
  shows "int (oc_opened (rg_counters s')) \<le> so_Max (normalizedStreamRetryOptions options) + 1"
  using receive_counted [OF assms(2) OpenRetryingStream_start(3,4) [OF assms(1)]] by (simp add: counted_def)

lemma IsRetryableError_partial: "\<not> IsRetryableError (PartialStreamError cause)"
  by (subst IsRetryableError.simps) (simp add: errorAs_wrapper asRetryable_def)

text \<open>
  After content has been received, the next error that \<^verbatim>\<open>Recv\<close> returns is a \<^verbatim>\<open>PartialStreamError\<close>, which no
  retry policy that asks \<^verbatim>\<open>IsRetryableError\<close> repeats; the stream is then terminal, and nothing was reopened.
\<close>

theorem partial_failure_final:
  assumes "rg_emitted s" "\<not> rg_terminal s" "\<not> rg_closed s" "recvRetrying world options s = ((event, Some err), s')"
  shows "(\<exists>cause. err = PartialStreamError cause) \<and> \<not> IsRetryableError err \<and> rg_terminal s' \<and> rg_current s' = rg_current s"
proof -
  let ?s1 = "s\<lparr>rg_position := Suc (rg_position s)\<rparr>"
  obtain got recvErr where got: "rg_current s (rg_position s) = (got, recvErr)" by fastforce
  obtain classified retry resultErr s2 where cl: "classifyReceived ?s1 got recvErr = (classified, retry, resultErr, s2)"
    by (metis prod_cases4)
  have "\<not> retry" using classifyReceived_retry(2) [of ?s1 got recvErr classified resultErr s2] cl assms(1) by (cases retry) auto
  then have cl': "classifyReceived ?s1 got recvErr = (classified, False, resultErr, s2)" using cl by simp
  from recvRetrying_answer [OF assms(3,2) got this, of world options] have "resultErr = Some err" "s' = s2"
    using assms(4) by auto
  moreover from this have "\<exists>cause. err = PartialStreamError cause" "rg_terminal s2"
    using cl' assms(1) by (auto simp: classifyReceived_def classifyPartialFailure_def Let_def split: if_splits option.splits)
  ultimately show ?thesis using IsRetryableError_partial classifyReceived_keeps(1) [OF cl] by auto
qed

section \<open>Witnesses\<close>

text \<open>
  A provider that refuses the first call, opens a stream that breaks at once, and then one that delivers a text
  and breaks.
\<close>

definition textEvent :: Event where
  "textEvent = zeroEvent\<lparr>ev_Kind := EventTextDelta, ev_Text := ''hi''\<rparr>"

definition flakyWorld :: retryWorld where
  "flakyWorld = \<lparr>rw_open = (\<lambda>k. if k = 0 then Inl (SystemError ''ECONNREFUSED'')
       else if k = 1 then Inr (\<lambda>_. (zeroEvent, Some (SystemError ''EOF'')))
       else Inr (\<lambda>i. if i = 0 then (textEvent, None) else (zeroEvent, Some (SystemError ''EOF'')))),
     rw_ctxErr = (\<lambda>_. None), rw_wait = (\<lambda>_. None)\<rparr>"

definition plainOptions :: StreamRetryOptions where
  "plainOptions = \<lparr>so_Max = 0, so_Delay = None, so_MaxDelay = 0, so_ShouldRetry = None, so_Observer = None\<rparr>"

definition flakyStream :: retryingStream where
  "flakyStream = (case OpenRetryingStream flakyWorld plainOptions of Inr s \<Rightarrow> s)"

definition flakyRun :: "nat \<Rightarrow> received list \<times> retryingStream" where
  "flakyRun n = receive flakyWorld (normalizedStreamRetryOptions plainOptions) n flakyStream"

lemma flaky_opens: "OpenRetryingStream flakyWorld plainOptions = Inr flakyStream"
proof -
  have "\<not> isl (OpenRetryingStream flakyWorld plainOptions)" by code_simp
  then show ?thesis unfolding flakyStream_def by (cases "OpenRetryingStream flakyWorld plainOptions") auto
qed

lemma flaky_runs: "receive flakyWorld (normalizedStreamRetryOptions plainOptions) n flakyStream = (fst (flakyRun n), snd (flakyRun n))"
  by (simp add: flakyRun_def)

theorem retry_delivers_one_stream_witness:
  "filter contentEvent (map fst (fst (flakyRun 2))) = [textEvent] \<and>
   filter contentEvent (map (fst \<circ> rg_current (snd (flakyRun 2))) [0..<rg_position (snd (flakyRun 2))]) = [textEvent]"
proof -
  have "filter contentEvent (map fst (fst (flakyRun 2))) = [textEvent]" by code_simp
  then show ?thesis using retry_delivers_one_stream [OF flaky_opens flaky_runs, of 2] by simp
qed

theorem retry_opens_bounded_witness: "oc_opened (rg_counters (snd (flakyRun 2))) = 3 \<and> int (oc_opened (rg_counters (snd (flakyRun 2)))) \<le> 6"
proof -
  have "oc_opened (rg_counters (snd (flakyRun 2))) = 3" by code_simp
  moreover have "so_Max (normalizedStreamRetryOptions plainOptions) = 5"
    by (simp add: normalizedStreamRetryOptions_def plainOptions_def DefaultMaxStreamRetries_def)
  ultimately show ?thesis using retry_opens_bounded [OF flaky_opens flaky_runs, of 2] by simp
qed

theorem partial_failure_final_witness:
  "\<exists>cause. snd (fst (recvRetrying flakyWorld (normalizedStreamRetryOptions plainOptions) (snd (flakyRun 1)))) = Some (PartialStreamError cause)"
proof -
  let ?step = "recvRetrying flakyWorld (normalizedStreamRetryOptions plainOptions) (snd (flakyRun 1))"
  have state: "rg_emitted (snd (flakyRun 1))" "\<not> rg_terminal (snd (flakyRun 1))" "\<not> rg_closed (snd (flakyRun 1))" by code_simp+
  have "snd (fst ?step) \<noteq> None" by code_simp
  then obtain event err s' where step: "?step = ((event, Some err), s')" by (metis option.exhaust prod.collapse)
  then show ?thesis using partial_failure_final [OF state step] by simp
qed

end
