(* ===== verification/Provider_Routing.thy ===== *)
theory Provider_Routing
  imports Provider_Normalize
begin

text \<open>
  Which driver serves a request: failover between drivers (\<^verbatim>\<open>src/provider/failover.go\<close>) and the resolution of a
  model name to a driver (\<^verbatim>\<open>src/provider/resolver.go\<close>). A driver is its metadata and the function that opens a
  stream; the request is the model name with the rest of the request, and a stream is an opaque value with the
  identity it reports, if it reports one. A nil driver is \<open>None\<close>.
\<close>

section \<open>Drivers and streams\<close>

record Metadata =
  md_Name :: string
  md_Models :: "string list"
  md_Version :: string

record identity =
  id_Provider :: Metadata
  id_Model :: string

record ('r, 's) driver =
  dr_Metadata :: Metadata
  dr_Stream :: "string \<Rightarrow> 'r \<Rightarrow> goError + 's \<times> identity option"

definition zeroMetadata :: Metadata where
  "zeroMetadata = \<lparr>md_Name = [], md_Models = [], md_Version = []\<rparr>"

definition identifyStream :: "'s \<times> identity option \<Rightarrow> identity \<Rightarrow> 's \<times> identity option" where
  "identifyStream stream identity =
     (case snd stream of
        Some current \<Rightarrow>
          if md_Name (id_Provider current) \<noteq> [] \<or> id_Model current \<noteq> [] then stream else (fst stream, Some identity)
      | None \<Rightarrow> (fst stream, Some identity))"

section \<open>Failover\<close>

definition Fallback :: "'d option \<Rightarrow> 'd option list \<Rightarrow> 'd option list" where
  "Fallback primary fallbacks = primary # fallbacks"

fun fallbackMetadata :: "('r, 's) driver option list \<Rightarrow> Metadata" where
  "fallbackMetadata [] = zeroMetadata"
| "fallbackMetadata (None # drivers) = fallbackMetadata drivers"
| "fallbackMetadata (Some driver # drivers) = dr_Metadata driver"

definition allFailed :: "goError list \<Rightarrow> goError" where
  "allFailed errs =
     (if errs = [] then TextError ''provider: fallback chain holds no drivers''
      else Wrapped ''provider: every fallback driver failed'' (JoinError errs))"

text \<open>
  The loop over the drivers; \<open>ctxErr\<close> is \<^verbatim>\<open>ctx.Err()\<close> before the call of a driver, by its number. The second
  component lists the drivers whose \<^verbatim>\<open>Stream\<close> was called.
\<close>

fun fallbackLoop ::
    "(nat \<Rightarrow> goError option) \<Rightarrow> string \<Rightarrow> 'r \<Rightarrow> nat \<Rightarrow> goError list \<Rightarrow> ('r, 's) driver option list
       \<Rightarrow> (goError + 's \<times> identity option) \<times> ('r, 's) driver list" where
  "fallbackLoop ctxErr model request i errs [] = (Inl (allFailed errs), [])"
| "fallbackLoop ctxErr model request i errs (None # drivers) = fallbackLoop ctxErr model request (Suc i) errs drivers"
| "fallbackLoop ctxErr model request i errs (Some driver # drivers) =
     (case ctxErr i of
        Some err \<Rightarrow> (Inl (allFailed (errs @ [err])), [])
      | None \<Rightarrow>
          (case dr_Stream driver model request of
             Inr stream \<Rightarrow>
               (Inr (identifyStream stream \<lparr>id_Provider = dr_Metadata driver, id_Model = model\<rparr>), [driver])
           | Inl err \<Rightarrow>
               apsnd (Cons driver)
                 (fallbackLoop ctxErr model request (Suc i) (errs @ [Wrapped (md_Name (dr_Metadata driver)) err]) drivers)))"

definition fallbackStream ::
    "(nat \<Rightarrow> goError option) \<Rightarrow> string \<Rightarrow> 'r \<Rightarrow> ('r, 's) driver option list
       \<Rightarrow> (goError + 's \<times> identity option) \<times> ('r, 's) driver list" where
  "fallbackStream ctxErr model request drivers = fallbackLoop ctxErr model request 0 [] drivers"

text \<open>\<^verbatim>\<open>ModelFallback\<close>: the second driver is asked for its own model, and only when the first could not open.\<close>

definition modelFallbackStream ::
    "goError option \<Rightarrow> ('r, 's) driver option \<Rightarrow> ('r, 's) driver option \<Rightarrow> string \<Rightarrow> string \<Rightarrow> 'r
       \<Rightarrow> goError + 's \<times> identity option" where
  "modelFallbackStream ctxErr primary fallback fallbackModel model request =
     (case (primary, fallback) of
        (Some first, Some second) \<Rightarrow>
          if fallbackModel = [] then Inl (TextError ''provider: model fallback is incomplete'')
          else (case dr_Stream first model request of
                  Inr stream \<Rightarrow> Inr (identifyStream stream \<lparr>id_Provider = dr_Metadata first, id_Model = model\<rparr>)
                | Inl primaryErr \<Rightarrow>
                    (case ctxErr of
                       Some err \<Rightarrow> Inl (JoinError [primaryErr, err])
                     | None \<Rightarrow>
                         (case dr_Stream second fallbackModel request of
                            Inr stream \<Rightarrow>
                              Inr (identifyStream stream \<lparr>id_Provider = dr_Metadata second, id_Model = fallbackModel\<rparr>)
                          | Inl fallbackErr \<Rightarrow>
                              Inl (Wrapped ''provider: primary model and fallback model failed'' (JoinError [primaryErr, fallbackErr])))))
      | _ \<Rightarrow> Inl (TextError ''provider: model fallback is incomplete''))"

section \<open>Resolution\<close>

definition ErrNoDriverForModel :: goError where
  "ErrNoDriverForModel = SentinelError ''provider.ErrNoDriverForModel''"

record ('r, 's) Registry =
  rg_byModel :: "string \<rightharpoonup> ('r, 's) driver"
  rg_byProviderModel :: "string \<rightharpoonup> ('r, 's) driver"

definition providerModelKey :: "string \<Rightarrow> string \<Rightarrow> string" where
  "providerModelKey providerName model = providerName @ [CHR 0x00] @ model"

definition emptyRegistry :: "('r, 's) Registry" where
  "emptyRegistry = \<lparr>rg_byModel = Map.empty, rg_byProviderModel = Map.empty\<rparr>"

definition registerModel :: "('r, 's) driver \<Rightarrow> string \<Rightarrow> ('r, 's) Registry \<Rightarrow> ('r, 's) Registry" where
  "registerModel d model r =
     (let name = md_Name (dr_Metadata d)
      in r\<lparr>rg_byModel := (rg_byModel r)(model \<mapsto> d),
          rg_byProviderModel :=
            (if name \<noteq> [] then (rg_byProviderModel r)(providerModelKey name model \<mapsto> d) else rg_byProviderModel r)\<rparr>)"

definition RegisterDriver :: "('r, 's) driver option \<Rightarrow> ('r, 's) Registry \<Rightarrow> ('r, 's) Registry" where
  "RegisterDriver d r = (case d of None \<Rightarrow> r | Some driver \<Rightarrow> fold (registerModel driver) (md_Models (dr_Metadata driver)) r)"

definition NewRegistry :: "('r, 's) driver option list \<Rightarrow> ('r, 's) Registry" where
  "NewRegistry drivers = fold RegisterDriver drivers emptyRegistry"

definition registryDriver :: "('r, 's) Registry \<Rightarrow> string \<Rightarrow> goError + ('r, 's) driver" where
  "registryDriver r model =
     (case rg_byModel r model of Some d \<Rightarrow> Inr d | None \<Rightarrow> Inl (Wrapped model ErrNoDriverForModel))"

definition DriverFor :: "('r, 's) Registry \<Rightarrow> string \<Rightarrow> string \<Rightarrow> goError + ('r, 's) driver" where
  "DriverFor r providerName model =
     (case rg_byProviderModel r (providerModelKey providerName model) of
        Some d \<Rightarrow> Inr d
      | None \<Rightarrow> Inl (Wrapped (providerName @ '' '' @ model) ErrNoDriverForModel))"

text \<open>A resolver is a registry, a single driver, or one of the application without names.\<close>

datatype ('r, 's) resolver =
    RegistryResolver "('r, 's) Registry"
  | Single "('r, 's) driver option"
  | PlainResolver "string \<Rightarrow> goError + ('r, 's) driver"

definition resolverDriver :: "('r, 's) resolver \<Rightarrow> string \<Rightarrow> goError + ('r, 's) driver" where
  "resolverDriver resolver model =
     (case resolver of
        RegistryResolver r \<Rightarrow> registryDriver r model
      | Single None \<Rightarrow> Inl (Wrapped ''single resolver holds a nil driver'' ErrNoDriverForModel)
      | Single (Some d) \<Rightarrow> Inr d
      | PlainResolver f \<Rightarrow> f model)"

definition Resolve :: "('r, 's) resolver option \<Rightarrow> string \<Rightarrow> string \<Rightarrow> goError + ('r, 's) driver" where
  "Resolve resolver providerName model =
     (case resolver of
        None \<Rightarrow> Inl (Wrapped ''nil resolver'' ErrNoDriverForModel)
      | Some given \<Rightarrow>
          if providerName = [] then resolverDriver given model
          else (case given of
                  RegistryResolver r \<Rightarrow> DriverFor r providerName model
                | _ \<Rightarrow>
                    (case resolverDriver given model of
                       Inl err \<Rightarrow> Inl err
                     | Inr d \<Rightarrow>
                         if md_Name (dr_Metadata d) \<noteq> providerName
                         then Inl (Wrapped (providerName @ '' '' @ model) ErrNoDriverForModel) else Inr d)))"

section \<open>Laws of failover\<close>

lemma identifyStream_cases:
  "fst (identifyStream opened identity) = fst opened \<and>
   ((\<exists>own. snd opened = Some own \<and> snd (identifyStream opened identity) = Some own \<and> (md_Name (id_Provider own) \<noteq> [] \<or> id_Model own \<noteq> [])) \<or>
    (\<forall>own. snd opened = Some own \<longrightarrow> md_Name (id_Provider own) = [] \<and> id_Model own = []) \<and>
    snd (identifyStream opened identity) = Some identity)"
  by (auto simp: identifyStream_def split: option.splits)

lemma fallbackLoop_success:
  assumes "fallbackLoop ctxErr model request i errs drivers = (Inr stream, tried)"
  shows "\<exists>before driver later opened. drivers = before @ Some driver # later \<and> tried = map the (filter (\<lambda>d. d \<noteq> None) before) @ [driver] \<and>
    (\<forall>d. Some d \<in> set before \<longrightarrow> isl (dr_Stream d model request)) \<and> dr_Stream driver model request = Inr opened \<and>
    stream = identifyStream opened \<lparr>id_Provider = dr_Metadata driver, id_Model = model\<rparr>"
  using assms
proof (induction ctxErr model request i errs drivers arbitrary: tried rule: fallbackLoop.induct)
  case (2 ctxErr model request i errs drivers)
  then obtain before driver later opened where IH: "drivers = before @ Some driver # later"
    "tried = map the (filter (\<lambda>d. d \<noteq> None) before) @ [driver]" "\<forall>d. Some d \<in> set before \<longrightarrow> isl (dr_Stream d model request)"
    "dr_Stream driver model request = Inr opened" "stream = identifyStream opened \<lparr>id_Provider = dr_Metadata driver, id_Model = model\<rparr>"
    by auto
  then show ?case by (intro exI [of _ "None # before"] exI [of _ driver] exI [of _ later] exI [of _ opened]) auto
next
  case (3 ctxErr model request i errs driver drivers)
  have ctx: "ctxErr i = None" using "3.prems" by (cases "ctxErr i") auto
  show ?case
  proof (cases "dr_Stream driver model request")
    case (Inr opened)
    then show ?thesis using "3.prems" ctx
      by (intro exI [of _ "[]"] exI [of _ driver] exI [of _ drivers] exI [of _ opened]) auto
  next
    case (Inl err)
    then obtain rest where rest: "fallbackLoop ctxErr model request (Suc i) (errs @ [Wrapped (md_Name (dr_Metadata driver)) err]) drivers = (Inr stream, rest)"
      "tried = driver # rest" using "3.prems" ctx by (auto simp: apsnd_def map_prod_def split: prod.splits)
    from "3.IH" [OF ctx Inl rest(1)] obtain before d later opened where IH: "drivers = before @ Some d # later"
      "rest = map the (filter (\<lambda>d. d \<noteq> None) before) @ [d]" "\<forall>d. Some d \<in> set before \<longrightarrow> isl (dr_Stream d model request)"
      "dr_Stream d model request = Inr opened" "stream = identifyStream opened \<lparr>id_Provider = dr_Metadata d, id_Model = model\<rparr>"
      by auto
    then show ?thesis using Inl rest(2)
      by (intro exI [of _ "Some driver # before"] exI [of _ d] exI [of _ later] exI [of _ opened]) auto
  qed
qed simp

text \<open>
  C30. Failover takes the first driver that opens a stream: every driver before it was asked exactly once and
  failed, none after it is asked, and the caller gets the stream it opened. A stream that names a provider or a
  model keeps the identity it reports; any other one is labelled with the metadata of the driver that opened it and
  the requested model.
\<close>

theorem fallback_takes_first:
  assumes "fallbackStream ctxErr model request drivers = (Inr stream, tried)"
  shows "\<exists>before driver later opened. drivers = before @ Some driver # later \<and> tried = map the (filter (\<lambda>d. d \<noteq> None) before) @ [driver] \<and>
    (\<forall>d. Some d \<in> set before \<longrightarrow> isl (dr_Stream d model request)) \<and> dr_Stream driver model request = Inr opened \<and>
    fst stream = fst opened \<and>
    ((\<exists>own. snd opened = Some own \<and> snd stream = Some own \<and> (md_Name (id_Provider own) \<noteq> [] \<or> id_Model own \<noteq> [])) \<or>
     (\<forall>own. snd opened = Some own \<longrightarrow> md_Name (id_Provider own) = [] \<and> id_Model own = []) \<and>
     snd stream = Some \<lparr>id_Provider = dr_Metadata driver, id_Model = model\<rparr>)"
proof -
  obtain before driver later opened where f: "drivers = before @ Some driver # later" "tried = map the (filter (\<lambda>d. d \<noteq> None) before) @ [driver]"
    "\<forall>d. Some d \<in> set before \<longrightarrow> isl (dr_Stream d model request)" "dr_Stream driver model request = Inr opened"
    "stream = identifyStream opened \<lparr>id_Provider = dr_Metadata driver, id_Model = model\<rparr>"
    using fallbackLoop_success [OF assms [unfolded fallbackStream_def]] by blast
  show ?thesis
    using f identifyStream_cases [of opened "\<lparr>id_Provider = dr_Metadata driver, id_Model = model\<rparr>"]
    by (intro exI [of _ before] exI [of _ driver] exI [of _ later] exI [of _ opened]) simp
qed

section \<open>Laws of the registry\<close>

lemma registerModel_fields [simp]:
  "rg_byModel (registerModel d model r) = (rg_byModel r)(model \<mapsto> d)"
  "rg_byProviderModel (registerModel d model r) =
     (if md_Name (dr_Metadata d) \<noteq> [] then (rg_byProviderModel r)(providerModelKey (md_Name (dr_Metadata d)) model \<mapsto> d)
      else rg_byProviderModel r)"
  by (simp_all add: registerModel_def Let_def)

lemma providerModelKey_inject:
  assumes "CHR 0x00 \<notin> set name" "CHR 0x00 \<notin> set name'"
  shows "providerModelKey name model = providerModelKey name' model' \<longleftrightarrow> name = name' \<and> model = model'"
  using assms
proof (induction name arbitrary: name')
  case Nil
  then show ?case by (cases name') (auto simp: providerModelKey_def)
next
  case (Cons c name)
  then show ?case by (cases name') (auto simp: providerModelKey_def)
qed

lemma registerModels_byModel:
  "rg_byModel (fold (registerModel d) models r) model = (if model \<in> set models then Some d else rg_byModel r model)"
  by (induction models arbitrary: r) auto

lemma registerModels_byProvider:
  assumes "CHR 0x00 \<notin> set providerName" "CHR 0x00 \<notin> set (md_Name (dr_Metadata d))" "providerName \<noteq> []"
  shows "rg_byProviderModel (fold (registerModel d) models r) (providerModelKey providerName model) =
    (if md_Name (dr_Metadata d) = providerName \<and> model \<in> set models then Some d
     else rg_byProviderModel r (providerModelKey providerName model))"
  using assms(3) providerModelKey_inject [OF assms(1,2)]
  by (induction models arbitrary: r) auto

text \<open>The drivers that declare a model, under a provider's name when one is given.\<close>

definition serves :: "string \<Rightarrow> string \<Rightarrow> ('r, 's) driver \<Rightarrow> bool" where
  "serves providerName model d \<longleftrightarrow>
     model \<in> set (md_Models (dr_Metadata d)) \<and> (providerName = [] \<or> md_Name (dr_Metadata d) = providerName)"

definition servers :: "string \<Rightarrow> string \<Rightarrow> ('r, 's) driver option list \<Rightarrow> ('r, 's) driver list" where
  "servers providerName model drivers = filter (serves providerName model) (map the (filter (\<lambda>d. d \<noteq> None) drivers))"

definition lastOption :: "'a list \<Rightarrow> 'a option" where
  "lastOption xs = (if xs = [] then None else Some (last xs))"

lemma registry_byModel: "rg_byModel (NewRegistry drivers) model = lastOption (servers [] model drivers)"
proof (induction drivers rule: rev_induct)
  case Nil
  show ?case by (simp add: NewRegistry_def emptyRegistry_def servers_def lastOption_def)
next
  case (snoc d drivers)
  then show ?case
    by (cases d) (auto simp: NewRegistry_def RegisterDriver_def registerModels_byModel servers_def serves_def lastOption_def)
qed

lemma registry_byProvider:
  assumes "CHR 0x00 \<notin> set providerName" "providerName \<noteq> []"
    "\<And>d. Some d \<in> set drivers \<Longrightarrow> CHR 0x00 \<notin> set (md_Name (dr_Metadata d))"
  shows "rg_byProviderModel (NewRegistry drivers) (providerModelKey providerName model) = lastOption (servers providerName model drivers)"
  using assms(3)
proof (induction drivers rule: rev_induct)
  case Nil
  show ?case by (simp add: NewRegistry_def emptyRegistry_def servers_def lastOption_def)
next
  case (snoc d drivers)
  then show ?case
    by (cases d) (auto simp: NewRegistry_def RegisterDriver_def registerModels_byProvider [OF assms(1) _ assms(2)]
      servers_def serves_def lastOption_def assms(2))
qed

text \<open>
  A registry resolves a model, and a model of a named provider, to the driver registered last among those that
  declare it, and to an error when there is none; provider names must not contain the zero byte that joins the
  parts of a key.
\<close>

theorem registry_last_wins:
  assumes "CHR 0x00 \<notin> set providerName" "\<And>d. Some d \<in> set drivers \<Longrightarrow> CHR 0x00 \<notin> set (md_Name (dr_Metadata d))"
  shows "Resolve (Some (RegistryResolver (NewRegistry drivers))) providerName model =
    (case lastOption (servers providerName model drivers) of
       Some d \<Rightarrow> Inr d
     | None \<Rightarrow> Inl (Wrapped (if providerName = [] then model else providerName @ '' '' @ model) ErrNoDriverForModel))"
proof (cases "providerName = []")
  case True
  then show ?thesis by (simp add: Resolve_def resolverDriver_def registryDriver_def registry_byModel split: option.splits)
next
  case False
  then show ?thesis using registry_byProvider [OF assms(1) False assms(2)]
    by (simp add: Resolve_def DriverFor_def split: option.splits)
qed

section \<open>Witnesses\<close>

definition demoDriver :: "string \<Rightarrow> bool \<Rightarrow> (unit, string) driver" where
  "demoDriver name up = \<lparr>dr_Metadata = \<lparr>md_Name = name, md_Models = [''m''], md_Version = []\<rparr>,
     dr_Stream = (\<lambda>_ _. if up then Inr (name, None) else Inl (TextError ''down''))\<rparr>"

theorem fallback_takes_first_witness:
  "\<exists>stream driver. fallbackStream (\<lambda>_. None) ''m'' () [Some (demoDriver ''a'' False), None, Some (demoDriver ''b'' True)] =
     (Inr stream, [demoDriver ''a'' False, driver]) \<and> md_Name (dr_Metadata driver) = ''b'' \<and>
     snd stream = Some \<lparr>id_Provider = dr_Metadata driver, id_Model = ''m''\<rparr>"
proof -
  let ?drivers = "[Some (demoDriver ''a'' False), None, Some (demoDriver ''b'' True)]"
  obtain stream tried where run: "fallbackStream (\<lambda>_. None) ''m'' () ?drivers = (Inr stream, tried)"
    by (simp add: fallbackStream_def demoDriver_def)
  from fallback_takes_first [OF run] obtain before driver later opened where
    w: "?drivers = before @ Some driver # later" "tried = map the (filter (\<lambda>d. d \<noteq> None) before) @ [driver]"
      "dr_Stream driver ''m'' () = Inr opened"
      "(\<exists>own. snd opened = Some own \<and> snd stream = Some own) \<or> snd stream = Some \<lparr>id_Provider = dr_Metadata driver, id_Model = ''m''\<rparr>"
    by auto
  have "driver \<noteq> demoDriver ''a'' False" using w(3) by (auto simp: demoDriver_def)
  then have d: "driver = demoDriver ''b'' True" "before = [Some (demoDriver ''a'' False), None]"
    using w(1) by (auto simp: Cons_eq_append_conv)
  then have "snd opened = None" using w(3) by (auto simp: demoDriver_def)
  then show ?thesis using w(2,4) run d by (simp add: demoDriver_def)
qed

theorem registry_last_wins_witness:
  "Resolve (Some (RegistryResolver (NewRegistry [Some (demoDriver ''a'' True), None, Some (demoDriver ''b'' True)]))) [] ''m''
     = Inr (demoDriver ''b'' True)"
  by (subst registry_last_wins) (auto simp: demoDriver_def servers_def serves_def lastOption_def)

end
