(* ===== verification/Provider_Interceptor.thy ===== *)
theory Provider_Interceptor
  imports Provider_Normalize
begin

text \<open>
  Interceptors around the opening of a provider stream (\<^verbatim>\<open>src/provider/interceptor.go\<close>) and the validation of extra
  request fields (\<^verbatim>\<open>extra_body.go\<close>). A request is its operation ID, its observer of context usage and the rest,
  which is what \<^verbatim>\<open>json.Marshal\<close> sees (\<open>marshal\<close>); an observer is a function value, its code pointer with what it
  captured, and only the pointers are compared. An interceptor is the tree of what it does; \<open>StreamNext\<close> calls the
  next driver, whose panic unwinds through it. An answer lists the requests that reached the provider.
\<close>

section \<open>Interceptors\<close>

type_synonym observer = "nat \<times> nat"

record 'r streamRequest =
  sq_OperationID :: string
  sq_ContextUsage :: "observer option"
  sq_Rest :: 'r

datatype 's streamAnswer = Answered "'s option" "goError option" | Crashed string

datatype ('r, 's) streamRun = StreamReturn "'s option" "goError option" | StreamPanic string
  | StreamNext "'r streamRequest" "'s streamAnswer \<Rightarrow> ('r, 's) streamRun"

type_synonym ('r, 's) streamInterceptor = "'r streamRequest \<Rightarrow> ('r, 's) streamRun"
type_synonym ('r, 's) nextStream = "'r streamRequest \<Rightarrow> 'r streamRequest list \<times> 's streamAnswer"

abbreviation ErrNotStarted :: goError where
  "ErrNotStarted \<equiv> SentinelError ''provider.ErrNotStarted''"

definition streamProtocolError :: "nat \<Rightarrow> goError \<Rightarrow> goError" where
  "streamProtocolError index cause =
     Wrapped (''provider stream interceptor '' @ showNat index)
       (JoinError [SentinelError ''provider.ErrStreamInterceptorProtocol'', cause])"

definition requestFingerprint :: "('r \<Rightarrow> goError + bytes) \<Rightarrow> 'r streamRequest \<Rightarrow> goError + bytes" where
  "requestFingerprint marshal request =
     (case marshal (sq_Rest request) of
        Inl err \<Rightarrow> Inl (Wrapped ''encode request for interceptor validation'' err)
      | Inr encoded \<Rightarrow> Inr encoded)"

definition sameContextUsage :: "observer option \<Rightarrow> observer option \<Rightarrow> bool" where
  "sameContextUsage left right \<longleftrightarrow>
     (case (left, right) of (Some l, Some r) \<Rightarrow> fst l = fst r | (None, None) \<Rightarrow> True | _ \<Rightarrow> False)"

record streamGuard =
  sg_calls :: nat
  sg_closed :: bool
  sg_protocolErr :: "goError option"

definition guardedStream ::
    "('r \<Rightarrow> goError + bytes) \<Rightarrow> nat \<Rightarrow> 'r streamRequest \<Rightarrow> bytes \<Rightarrow> ('r, 's) nextStream \<Rightarrow> streamGuard \<Rightarrow> 'r streamRequest
       \<Rightarrow> ('r streamRequest list \<times> 's streamAnswer) \<times> streamGuard" where
  "guardedStream marshal index request expected nexts g candidate =
     (if sg_closed g then
        (([], Answered None (Some (JoinError
           [ErrNotStarted, streamProtocolError index (TextError ''next called after interceptor returned'')]))), g)
      else
        let g1 = g\<lparr>sg_calls := sg_calls g + 1\<rparr>
        in if sg_calls g1 > 1 then
             let failure = streamProtocolError index (TextError ''next called more than once'')
             in (([], Answered None (Some failure)), g1\<lparr>sg_protocolErr := Some failure\<rparr>)
           else
             let refuse = (\<lambda>cause.
                   let failure = JoinError [ErrNotStarted, streamProtocolError index cause]
                   in (([], Answered None (Some failure)), g1\<lparr>sg_protocolErr := Some failure\<rparr>))
             in case requestFingerprint marshal candidate of
                  Inl candidateErr \<Rightarrow> refuse candidateErr
                | Inr candidateFingerprint \<Rightarrow>
                    if sq_OperationID candidate \<noteq> sq_OperationID request \<or>
                       \<not> sameContextUsage (sq_ContextUsage candidate) (sq_ContextUsage request) \<or>
                       candidateFingerprint \<noteq> expected
                    then refuse (TextError ''request or operation ID was modified'')
                    else (nexts (candidate\<lparr>sq_ContextUsage := sq_ContextUsage request\<rparr>), g1))"

primrec runStreamInterceptor ::
    "('r \<Rightarrow> goError + bytes) \<Rightarrow> nat \<Rightarrow> 'r streamRequest \<Rightarrow> bytes \<Rightarrow> ('r, 's) nextStream \<Rightarrow> ('r, 's) streamRun \<Rightarrow> streamGuard
       \<Rightarrow> 'r streamRequest list \<times> 's streamAnswer \<times> streamGuard" where
  "runStreamInterceptor marshal index request expected nexts (StreamReturn stream err) g = ([], Answered stream err, g)"
| "runStreamInterceptor marshal index request expected nexts (StreamPanic reason) g = ([], Crashed reason, g)"
| "runStreamInterceptor marshal index request expected nexts (StreamNext candidate continue) g =
     (case guardedStream marshal index request expected nexts g candidate of
        ((reached, Crashed reason), g1) \<Rightarrow> (reached, Crashed reason, g1)
      | ((reached, answer), g1) \<Rightarrow>
          (case runStreamInterceptor marshal index request expected nexts (continue answer) g1 of
             (later, ended, g2) \<Rightarrow> (reached @ later, ended, g2)))"

definition wrapStreamInterceptor ::
    "('r \<Rightarrow> goError + bytes) \<Rightarrow> nat \<Rightarrow> ('r, 's) streamInterceptor \<Rightarrow> ('r, 's) nextStream \<Rightarrow> ('r, 's) nextStream" where
  "wrapStreamInterceptor marshal index interceptor nexts request =
     (case requestFingerprint marshal request of
        Inl fingerprintErr \<Rightarrow> ([], Answered None (Some (streamProtocolError index fingerprintErr)))
      | Inr expected \<Rightarrow>
          (case runStreamInterceptor marshal index request expected nexts (interceptor request)
                  \<lparr>sg_calls = 0, sg_closed = False, sg_protocolErr = None\<rparr> of
             (reached, Crashed reason, g) \<Rightarrow>
               let cause = TextError (''panic: '' @ reason)
               in (reached, Answered None (Some (streamProtocolError index
                     (if sg_calls g = 0 then JoinError [ErrNotStarted, cause] else cause))))
           | (reached, Answered stream err, g) \<Rightarrow>
               (reached,
                case sg_protocolErr g of
                  Some violation \<Rightarrow>
                    Answered None (Some (JoinError (case err of Some e \<Rightarrow> [e, violation] | None \<Rightarrow> [violation])))
                | None \<Rightarrow>
                    Answered stream
                      (case err of
                         Some e \<Rightarrow>
                           if sg_calls g = 0 \<and> \<not> isSentinel ''provider.ErrNotStarted'' e
                           then Some (JoinError [ErrNotStarted, e]) else Some e
                       | None \<Rightarrow> None))))"

fun streamChainFrom :: "('r \<Rightarrow> goError + bytes) \<Rightarrow> nat \<Rightarrow> ('r, 's) streamInterceptor list \<Rightarrow> ('r, 's) nextStream \<Rightarrow> ('r, 's) nextStream" where
  "streamChainFrom marshal index [] driver = driver"
| "streamChainFrom marshal index (interceptor # interceptors) driver =
     wrapStreamInterceptor marshal index interceptor (streamChainFrom marshal (Suc index) interceptors driver)"

definition ChainStreamInterceptors ::
    "('r \<Rightarrow> goError + bytes) \<Rightarrow> ('r, 's) streamInterceptor option list \<Rightarrow> (('r, 's) nextStream \<Rightarrow> ('r, 's) nextStream) option" where
  "ChainStreamInterceptors marshal interceptors =
     (let filtered = map the (filter (\<lambda>i. i \<noteq> None) interceptors)
      in if filtered = [] then None else Some (streamChainFrom marshal 0 filtered))"

text \<open>The provider at the end of the chain: it is asked once, and opens a stream or fails.\<close>

definition providerStream :: "('r streamRequest \<Rightarrow> goError + 's) \<Rightarrow> ('r, 's) nextStream" where
  "providerStream driver request =
     ([request], case driver request of Inl err \<Rightarrow> Answered None (Some err) | Inr stream \<Rightarrow> Answered (Some stream) None)"

section \<open>The contract of a stage\<close>

definition faithful :: "('r \<Rightarrow> goError + bytes) \<Rightarrow> 'r streamRequest \<Rightarrow> 'r streamRequest \<Rightarrow> bool" where
  "faithful marshal request sent \<longleftrightarrow> sq_OperationID sent = sq_OperationID request \<and>
     sq_ContextUsage sent = sq_ContextUsage request \<and> marshal (sq_Rest sent) = marshal (sq_Rest request)"

locale stream_stage =
  fixes marshal :: "'r \<Rightarrow> goError + bytes" and nexts :: "('r, 's) nextStream"
  assumes at_most_one: "nexts request = (reached, answer) \<Longrightarrow> length reached \<le> 1"
    and as_given: "nexts request = (reached, answer) \<Longrightarrow> sent \<in> set reached \<Longrightarrow> faithful marshal request sent"
begin

lemma guarded:
  assumes "guardedStream marshal index request expected nexts g candidate = ((reached, answer), g')"
    and "requestFingerprint marshal request = Inr expected"
  shows "sg_calls g \<le> sg_calls g'" "reached \<noteq> [] \<Longrightarrow> sg_calls g = 0 \<and> sg_calls g' = 1" "length reached \<le> 1"
    "sent \<in> set reached \<Longrightarrow> faithful marshal request sent"
proof -
  have d: "reached = [] \<or> nexts (candidate\<lparr>sq_ContextUsage := sq_ContextUsage request\<rparr>) = (reached, answer) \<and>
      sq_OperationID candidate = sq_OperationID request \<and> requestFingerprint marshal candidate = Inr expected \<and>
      sg_calls g = 0 \<and> sg_calls g' = 1"
    using assms(1) by (auto simp: guardedStream_def Let_def split: if_splits sum.splits)
  show "sg_calls g \<le> sg_calls g'" using assms(1) by (auto simp: guardedStream_def Let_def split: if_splits sum.splits)
  show "reached \<noteq> [] \<Longrightarrow> sg_calls g = 0 \<and> sg_calls g' = 1" using d by auto
  show "length reached \<le> 1" using d at_most_one by auto
  show "faithful marshal request sent" if sent: "sent \<in> set reached"
  proof -
    have asked: "nexts (candidate\<lparr>sq_ContextUsage := sq_ContextUsage request\<rparr>) = (reached, answer)"
      "sq_OperationID candidate = sq_OperationID request" "requestFingerprint marshal candidate = Inr expected"
      using d sent by auto
    have "marshal (sq_Rest candidate) = marshal (sq_Rest request)"
      using asked(3) assms(2) by (auto simp: requestFingerprint_def split: sum.splits)
    then show ?thesis using as_given [OF asked(1) sent] asked(2) by (simp add: faithful_def)
  qed
qed

lemma running:
  assumes "requestFingerprint marshal request = Inr expected"
  shows "runStreamInterceptor marshal index request expected nexts run g = (reached, ended, g') \<Longrightarrow>
    sg_calls g \<le> sg_calls g' \<and> length reached \<le> 1 \<and> (reached \<noteq> [] \<longrightarrow> sg_calls g = 0) \<and>
    (\<forall>sent \<in> set reached. faithful marshal request sent)"
proof (induction run arbitrary: g reached)
  case (StreamNext candidate continue)
  obtain first answer g1 where gn: "guardedStream marshal index request expected nexts g candidate = ((first, answer), g1)"
    by (metis surj_pair)
  note guard = guarded [OF gn assms]
  show ?case
  proof (cases answer)
    case (Crashed reason)
    then show ?thesis using StreamNext.prems gn guard by auto
  next
    case (Answered stream err)
    obtain rest where rn: "runStreamInterceptor marshal index request expected nexts (continue answer) g1 = (rest, ended, g')"
      and ex: "reached = first @ rest"
      using StreamNext.prems gn Answered by (auto split: prod.splits)
    have "continue answer \<in> range continue" by simp
    note tail = StreamNext.IH [OF this rn]
    show ?thesis using guard tail ex by (cases "first = []"; cases "rest = []") auto
  qed
qed auto

end

interpretation vendor: stream_stage marshal "providerStream driver" for marshal driver
  by unfold_locales (auto simp: providerStream_def faithful_def)

lemma wrapStreamInterceptor_stage:
  assumes "stream_stage marshal nexts"
  shows "stream_stage marshal (wrapStreamInterceptor marshal index interceptor nexts)"
proof
  fix request reached answer
  assume w: "wrapStreamInterceptor marshal index interceptor nexts request = (reached, answer)"
  have "reached = [] \<or> (\<exists>expected ended g'. requestFingerprint marshal request = Inr expected \<and>
      runStreamInterceptor marshal index request expected nexts (interceptor request)
        \<lparr>sg_calls = 0, sg_closed = False, sg_protocolErr = None\<rparr> = (reached, ended, g'))"
    using w by (auto simp: wrapStreamInterceptor_def Let_def split: sum.splits prod.splits streamAnswer.splits)
  then have all: "length reached \<le> 1 \<and> (\<forall>sent \<in> set reached. faithful marshal request sent)"
    by (auto dest: stream_stage.running [OF assms])
  show "length reached \<le> 1" using all by blast
  show "faithful marshal request sent" if "sent \<in> set reached" for sent using all that by blast
qed

lemma streamChain_stage: "stream_stage marshal (streamChainFrom marshal index interceptors (providerStream driver))"
  by (induction interceptors arbitrary: index) (auto intro: vendor.stream_stage_axioms wrapStreamInterceptor_stage)

text \<open>
  Whatever the interceptors do, at most one request reaches the provider, with the operation ID, the observer and
  the encoding of the request that was made.
\<close>

theorem stream_chain_once:
  assumes "ChainStreamInterceptors marshal interceptors = Some chain" "chain (providerStream driver) request = (reached, answer)"
  shows "length reached \<le> 1 \<and> (\<forall>sent \<in> set reached. faithful marshal request sent)"
proof -
  obtain filtered where "chain = streamChainFrom marshal 0 filtered"
    using assms(1) by (auto simp: ChainStreamInterceptors_def Let_def split: if_splits)
  then show ?thesis using streamChain_stage assms(2) stream_stage.at_most_one stream_stage.as_given by metis
qed

text \<open>
  An interceptor that calls on twice loses the stream it got first: the provider has opened it, and the stage
  answers with an error and no stream, so nobody can close it.
\<close>

definition callsTwice :: "('r, 's) streamInterceptor" where
  "callsTwice request = StreamNext request (\<lambda>first. StreamNext request (\<lambda>_.
     case first of Answered stream err \<Rightarrow> StreamReturn stream None | Crashed reason \<Rightarrow> StreamPanic reason))"

theorem second_call_drops_stream:
  assumes "driver request = Inr stream" "marshal (sq_Rest request) = Inr encoded"
  shows "\<exists>err. wrapStreamInterceptor marshal 0 callsTwice (providerStream driver) request = ([request], Answered None (Some err))"
  using assms
  by (auto simp: wrapStreamInterceptor_def callsTwice_def guardedStream_def requestFingerprint_def providerStream_def
      sameContextUsage_def Let_def split: option.splits)

section \<open>Extra request fields\<close>

text \<open>
  Go values as reflection shows them: an interface holds a value or nil, and a map, slice or array its elements,
  a map in the order of its iteration. \<open>decode\<close> is the decoder of raw JSON, \<open>encodedSize\<close> the length of the
  encoding of a value or the error of \<^verbatim>\<open>json.Marshal\<close>.
\<close>

datatype goValue =
    InvalidValue
  | InterfaceValue "goValue option"
  | RawMessage bytes
  | ScalarValue
  | FloatValue bool
  | MapValue bool "(string \<times> goValue) list"
  | SliceValue "goValue list"
  | UnsupportedValue string

definition maxExtraBodyDepth :: nat where
  "maxExtraBodyDepth = 64"

definition maxExtraBodyBytes :: int where
  "maxExtraBodyBytes = 1048576"

datatype bodyError = TooDeep string | TooLong string | NonFinite string | NonStringKeys string
  | UnsupportedKind string string | InvalidRawJSON string goError | InvalidJSON goError

fun firstBodyError :: "('a \<Rightarrow> 'e option) \<Rightarrow> 'a list \<Rightarrow> 'e option" where
  "firstBodyError check [] = None"
| "firstBodyError check (x # xs) = (case check x of Some err \<Rightarrow> Some err | None \<Rightarrow> firstBodyError check xs)"

lemma firstBodyError_cong [fundef_cong]:
  "xs = ys \<Longrightarrow> (\<And>x. x \<in> set ys \<Longrightarrow> f x = g x) \<Longrightarrow> firstBodyError f xs = firstBodyError g ys"
  by (induction xs arbitrary: ys) (auto split: option.splits)

lemma firstBodyError_None: "firstBodyError check xs = None \<longleftrightarrow> (\<forall>x \<in> set xs. check x = None)"
  by (induction xs) (auto split: option.splits)

function validateExtraBodyValue :: "(bytes \<Rightarrow> goError + goValue) \<Rightarrow> nat \<Rightarrow> string \<Rightarrow> goValue \<Rightarrow> bodyError option" where
  "validateExtraBodyValue decode depth path val =
     (if depth > maxExtraBodyDepth then Some (TooDeep path)
      else case val of
          InvalidValue \<Rightarrow> None
        | InterfaceValue None \<Rightarrow> None
        | InterfaceValue (Some inner) \<Rightarrow> validateExtraBodyValue decode (depth + 1) path inner
        | RawMessage raw \<Rightarrow>
            if raw = [] then None
            else if int (length raw) > maxExtraBodyBytes then Some (TooLong path)
            else (case decode raw of
                    Inl err \<Rightarrow> Some (InvalidRawJSON path err)
                  | Inr decoded \<Rightarrow> validateExtraBodyValue decode (depth + 1) path decoded)
        | ScalarValue \<Rightarrow> None
        | FloatValue finite0 \<Rightarrow> if finite0 then None else Some (NonFinite path)
        | MapValue stringKeys entries \<Rightarrow>
            if \<not> stringKeys then Some (NonStringKeys path)
            else firstBodyError (\<lambda>(key, v). validateExtraBodyValue decode (depth + 1) (path @ ''.'' @ key) v) entries
        | SliceValue elements \<Rightarrow>
            firstBodyError (\<lambda>(i, v). validateExtraBodyValue decode (depth + 1) (path @ ''['' @ showNat i @ '']'') v)
              (zip [0..<length elements] elements)
        | UnsupportedValue kind \<Rightarrow> Some (UnsupportedKind path kind))"
  by pat_completeness auto

termination validateExtraBodyValue
  by (relation "measure (\<lambda>(_, depth, _, _). Suc maxExtraBodyDepth - depth)") auto

declare validateExtraBodyValue.simps [simp del]

definition ValidateExtraBody ::
    "(bytes \<Rightarrow> goError + goValue) \<Rightarrow> (goValue \<Rightarrow> goError + int) \<Rightarrow> (string \<times> goValue) list option \<Rightarrow> bodyError option" where
  "ValidateExtraBody decode encodedSize body =
     (case body of
        None \<Rightarrow> None
      | Some entries \<Rightarrow>
          (case validateExtraBodyValue decode 0 ''extraBody'' (MapValue True entries) of
             Some err \<Rightarrow> Some err
           | None \<Rightarrow>
               (case encodedSize (MapValue True entries) of
                  Inl err \<Rightarrow> Some (InvalidJSON err)
                | Inr n \<Rightarrow> if n > maxExtraBodyBytes then Some (TooLong ''extraBody'') else None)))"

text \<open>Objects nested in one another; each value of such a map is an interface.\<close>

fun nestedObjects :: "nat \<Rightarrow> goValue" where
  "nestedObjects 0 = MapValue True []"
| "nestedObjects (Suc n) = MapValue True [(''a'', InterfaceValue (Some (nestedObjects n)))]"

lemma validate_nested:
  "validateExtraBodyValue decode depth path (nestedObjects n) = None \<longleftrightarrow> depth + 2 * n \<le> maxExtraBodyDepth"
proof (induction n arbitrary: depth path)
  case 0
  show ?case by (subst validateExtraBodyValue.simps) simp
next
  case (Suc n)
  show ?case
  proof (cases "depth + 1 \<le> maxExtraBodyDepth")
    case True
    have "validateExtraBodyValue decode (depth + 1) path' (InterfaceValue (Some (nestedObjects n))) =
        validateExtraBodyValue decode (depth + 2) path' (nestedObjects n)" for path'
      using True by (subst validateExtraBodyValue.simps) simp
    then show ?thesis using True Suc [of "depth + 2" "path @ ''.a''"]
      by (subst validateExtraBodyValue.simps) (auto split: option.split)
  next
    case False
    have "validateExtraBodyValue decode (depth + 1) path' v = Some (TooDeep path')" for path' v
      using False by (subst validateExtraBodyValue.simps) simp
    then show ?thesis using False
      by (subst validateExtraBodyValue.simps) (simp split: option.split)
  qed
qed

text \<open>
  Every level of nested objects counts twice, once for the interface and once for the object in it: 32 levels of
  nesting are accepted and 33 are refused, although the limit is said to be 64 levels.
\<close>

theorem extra_body_nesting:
  "validateExtraBodyValue decode 0 path (nestedObjects n) = None \<longleftrightarrow> n \<le> 32"
  by (auto simp: validate_nested maxExtraBodyDepth_def)

text \<open>What is accepted holds no value of an unsupported kind.\<close>

fun supportedValue :: "goValue \<Rightarrow> bool" where
  "supportedValue (InterfaceValue (Some inner)) = supportedValue inner"
| "supportedValue (FloatValue finite0) = finite0"
| "supportedValue (MapValue stringKeys entries) = (stringKeys \<and> (\<forall>(key, v) \<in> set entries. supportedValue v))"
| "supportedValue (SliceValue elements) = (\<forall>v \<in> set elements. supportedValue v)"
| "supportedValue (UnsupportedValue kind) = False"
| "supportedValue _ = True"

theorem extra_body_supported:
  "validateExtraBodyValue decode depth path val = None \<Longrightarrow> supportedValue val"
proof (induction decode depth path val rule: validateExtraBodyValue.induct)
  case (1 decode depth path val)
  have within: "\<not> maxExtraBodyDepth < depth" using 1(5) by (subst (asm) validateExtraBodyValue.simps) (auto split: if_splits)
  show ?case
  proof (cases val)
    case (InterfaceValue inner)
    then show ?thesis using 1(1) [OF within InterfaceValue] 1(5) within
      by (cases inner) (simp_all, subst (asm) (2) validateExtraBodyValue.simps, simp)
  next
    case (MapValue stringKeys entries)
    have "stringKeys \<and> (\<forall>(key, v) \<in> set entries. validateExtraBodyValue decode (depth + 1) (path @ ''.'' @ key) v = None)"
      using 1(5) within MapValue
      by (subst (asm) validateExtraBodyValue.simps) (auto simp: firstBodyError_None split: if_splits)
    then show ?thesis using 1(3) [OF within MapValue] MapValue by fastforce
  next
    case (SliceValue elements)
    have "\<forall>(i, v) \<in> set (zip [0..<length elements] elements).
        validateExtraBodyValue decode (depth + 1) (path @ ''['' @ showNat i @ '']'') v = None"
      using 1(5) within SliceValue by (subst (asm) validateExtraBodyValue.simps) (auto simp: firstBodyError_None)
    then have "\<forall>(i, v) \<in> set (zip [0..<length elements] elements). supportedValue v" using 1(4) [OF within SliceValue] by fastforce
    moreover have "(i, elements ! i) \<in> set (zip [0..<length elements] elements)" if "i < length elements" for i
      using that by (auto simp: set_zip intro!: exI [of _ i])
    ultimately have "\<forall>i < length elements. supportedValue (elements ! i)" by fastforce
    then show ?thesis using SliceValue by (auto simp: in_set_conv_nth)
  next
    case (FloatValue finite0)
    then show ?thesis using 1(5) within by (subst (asm) validateExtraBodyValue.simps) (simp split: if_splits)
  next
    case (UnsupportedValue kind)
    then show ?thesis using 1(5) within by (subst (asm) validateExtraBodyValue.simps) simp
  qed simp_all
qed

end
