(* ===== verification/Provider_Sse.thy ===== *)
theory Provider_Sse
  imports Provider_Normalize
begin

text \<open>
  Reading server-sent events (\<^verbatim>\<open>src/provider/shared/sse.go\<close>). The body of a response is the bytes that are still
  to be read and the error that follows them, which is \<^verbatim>\<open>io.EOF\<close> for a body that ends; \<open>readSlice\<close> is
  \<^verbatim>\<open>bufio.Reader.ReadSlice\<close> with the default buffer of 4096 bytes.
\<close>

section \<open>Lines\<close>

definition EOF :: goError where
  "EOF = SystemError ''EOF''"

definition ErrUnexpectedEOF :: goError where
  "ErrUnexpectedEOF = SystemError ''ErrUnexpectedEOF''"

definition MaxSSELineBytes :: int where
  "MaxSSELineBytes = 8388608"

definition MaxSSEFrameBytes :: int where
  "MaxSSEFrameBytes = 16777216"

definition MaxSSEFrameLines :: int where
  "MaxSSEFrameLines = 4096"

definition bufferSize :: nat where
  "bufferSize = 4096"

record body =
  bd_bytes :: bytes
  bd_end :: goError

datatype sliceEnd = Delimited | BufferFull | SliceFailed goError

definition newline :: char where
  "newline = CHR 0x0A"

definition readSlice :: "body \<Rightarrow> bytes \<times> sliceEnd \<times> body" where
  "readSlice b =
     (let window = take bufferSize (bd_bytes b);
          line = takeWhile (\<lambda>c. c \<noteq> newline) window
      in if length line < length window
         then (line @ [newline], Delimited, b\<lparr>bd_bytes := drop (Suc (length line)) (bd_bytes b)\<rparr>)
         else if length window = bufferSize
         then (window, BufferFull, b\<lparr>bd_bytes := drop bufferSize (bd_bytes b)\<rparr>)
         else (window, SliceFailed (bd_end b), b\<lparr>bd_bytes := []\<rparr>))"

definition trimSuffix :: "string \<Rightarrow> char \<Rightarrow> string" where
  "trimSuffix s c = (if s \<noteq> [] \<and> last s = c then butlast s else s)"

definition lineLimitError :: goError where
  "lineLimitError = TextError ''sse: line exceeds 8388608 bytes''"

lemma readSlice_full_shorter:
  "readSlice b = (chunk, BufferFull, b') \<Longrightarrow> length (bd_bytes b') < length (bd_bytes b)"
  by (auto simp: readSlice_def Let_def bufferSize_def split: if_splits)

function readLineFrom :: "bytes \<Rightarrow> body \<Rightarrow> (goError + string) \<times> body" where
  "readLineFrom buf b =
     (case readSlice b of
        (chunk, sliceErr, b') \<Rightarrow>
          if int (length buf + length chunk) > MaxSSELineBytes then (Inl lineLimitError, b')
          else (case sliceErr of
                  BufferFull \<Rightarrow> readLineFrom (buf @ chunk) b'
                | Delimited \<Rightarrow> (Inr (trimSuffix (trimSuffix (buf @ chunk) newline) (CHR 0x0D)), b')
                | SliceFailed err \<Rightarrow>
                    if err \<noteq> EOF then (Inl err, b')
                    else if chunk = [] \<and> buf = [] then (Inl EOF, b')
                    else (Inr (trimSuffix (trimSuffix (buf @ chunk) newline) (CHR 0x0D)), b')))"
  by pat_completeness auto

termination readLineFrom
  by (relation "measure (\<lambda>(buf, b). length (bd_bytes b))") (auto dest: readSlice_full_shorter [OF sym])

declare readLineFrom.simps [simp del]

definition readLine :: "body \<Rightarrow> (goError + string) \<times> body" where
  "readLine b = readLineFrom [] b"

section \<open>Frames\<close>

record sseEvent =
  se_Name :: string
  se_Data :: string
  se_ID :: string
  se_Comment :: string

definition zeroSse :: sseEvent where
  "zeroSse = \<lparr>se_Name = [], se_Data = [], se_ID = [], se_Comment = []\<rparr>"

text \<open>\<^verbatim>\<open>strings.Index\<close> of a byte, and \<^verbatim>\<open>strings.Join\<close>.\<close>

fun indexOf :: "char \<Rightarrow> string \<Rightarrow> nat option" where
  "indexOf c [] = None"
| "indexOf c (x # xs) = (if x = c then Some 0 else map_option Suc (indexOf c xs))"

fun joinStrings :: "string \<Rightarrow> string list \<Rightarrow> string" where
  "joinStrings sep [] = []"
| "joinStrings sep [x] = x"
| "joinStrings sep (x # y # ys) = x @ sep @ joinStrings sep (y # ys)"

definition parseSSELine :: "string \<Rightarrow> string \<times> string" where
  "parseSSELine line =
     (case indexOf (CHR '':'') line of
        None \<Rightarrow> ([], [])
      | Some colonIdx \<Rightarrow>
          (take colonIdx line,
           if colonIdx + 1 < length line \<and> line ! (colonIdx + 1) = CHR '' '' then drop (colonIdx + 2) line
           else if colonIdx + 1 < length line then drop (colonIdx + 1) line
           else []))"

text \<open>The variables of \<^verbatim>\<open>Next\<close>.\<close>

record frame =
  fr_name :: string
  fr_data :: "string list"
  fr_id :: string
  fr_comment :: string
  fr_bytes :: int
  fr_lines :: int

definition emptyFrame :: frame where
  "emptyFrame = \<lparr>fr_name = [], fr_data = [], fr_id = [], fr_comment = [], fr_bytes = 0, fr_lines = 0\<rparr>"

definition nothingRead :: "frame \<Rightarrow> bool" where
  "nothingRead f \<longleftrightarrow> fr_data f = [] \<and> fr_name f = [] \<and> fr_id f = [] \<and> fr_comment f = []"

definition frameEvent :: "frame \<Rightarrow> sseEvent" where
  "frameEvent f = \<lparr>se_Name = fr_name f, se_Data = joinStrings [newline] (fr_data f), se_ID = fr_id f, se_Comment = fr_comment f\<rparr>"

definition countLine :: "string \<Rightarrow> frame \<Rightarrow> frame" where
  "countLine line f = f\<lparr>fr_bytes := fr_bytes f + int (length line) + 1, fr_lines := fr_lines f + 1\<rparr>"

definition overLimit :: "frame \<Rightarrow> bool" where
  "overLimit f \<longleftrightarrow> fr_bytes f > MaxSSEFrameBytes \<or> fr_lines f > MaxSSEFrameLines"

definition frameLimitError :: goError where
  "frameLimitError = TextError ''sse: frame exceeds 16777216 bytes or 4096 lines''"

text \<open>A line that is not blank: a comment, or a field, of which only three are known.\<close>

definition applyLine :: "string \<Rightarrow> frame \<Rightarrow> frame" where
  "applyLine line f =
     (if take 1 line = '':'' then f\<lparr>fr_comment := trimSpace (drop 1 line)\<rparr>
      else
        let (field, val) = parseSSELine line
        in if field = ''event'' then f\<lparr>fr_name := val\<rparr>
           else if field = ''data'' then f\<lparr>fr_data := fr_data f @ [val]\<rparr>
           else if field = ''id'' then f\<lparr>fr_id := val\<rparr>
           else f)"

lemma readSlice_shorter: "readSlice b = (chunk, sliceErr, b') \<Longrightarrow> length (bd_bytes b') \<le> length (bd_bytes b)"
  by (auto simp: readSlice_def Let_def split: if_splits)

lemma readSlice_delimited_shorter:
  "readSlice b = (chunk, Delimited, b') \<Longrightarrow> length (bd_bytes b') < length (bd_bytes b)"
  by (auto simp: readSlice_def Let_def split: if_splits)

lemma readSlice_failed:
  "readSlice b = (chunk, SliceFailed err, b') \<Longrightarrow> chunk = bd_bytes b \<and> bd_bytes b' = [] \<and> length (bd_bytes b) < bufferSize"
  by (auto simp: readSlice_def Let_def split: if_splits)

lemma readLineFrom_le: "readLineFrom buf b = (answer, b') \<Longrightarrow> length (bd_bytes b') \<le> length (bd_bytes b)"
proof (induction buf b rule: readLineFrom.induct)
  case (1 buf b)
  obtain chunk sliceErr b1 where s: "readSlice b = (chunk, sliceErr, b1)" by (metis prod_cases3)
  then show ?case using 1(2) 1(1) [OF s [symmetric] refl] readSlice_shorter [OF s]
    by (subst (asm) readLineFrom.simps) (auto split: if_splits sliceEnd.splits)
qed

lemma readLine_shorter: "readLine b = (Inr line, b') \<Longrightarrow> length (bd_bytes b') < length (bd_bytes b)"
proof -
  assume r: "readLine b = (Inr line, b')"
  obtain chunk sliceErr b1 where s: "readSlice b = (chunk, sliceErr, b1)" by (metis prod_cases3)
  show ?thesis
  proof (cases sliceErr)
    case Delimited
    then have "length (bd_bytes b1) < length (bd_bytes b)" using readSlice_delimited_shorter s by simp
    then show ?thesis using r s Delimited unfolding readLine_def
      by (subst (asm) readLineFrom.simps) (simp split: if_splits)
  next
    case BufferFull
    then have "length (bd_bytes b1) < length (bd_bytes b)" using readSlice_full_shorter s by simp
    moreover have "readLineFrom chunk b1 = (Inr line, b')" using r s BufferFull unfolding readLine_def
      by (subst (asm) readLineFrom.simps) (simp split: if_splits)
    ultimately show ?thesis using readLineFrom_le by fastforce
  next
    case (SliceFailed err)
    then have "chunk = bd_bytes b" "bd_bytes b1 = []" using readSlice_failed s by blast+
    then show ?thesis using r s SliceFailed unfolding readLine_def
      by (subst (asm) readLineFrom.simps) (auto split: if_splits)
  qed
qed

function nextFrom :: "frame \<Rightarrow> body \<Rightarrow> (sseEvent \<times> goError option) \<times> body" where
  "nextFrom f b =
     (case readLine b of
        (Inl err, b') \<Rightarrow>
          if err \<noteq> EOF then ((zeroSse, Some err), b')
          else if \<not> nothingRead f then ((frameEvent f, Some ErrUnexpectedEOF), b')
          else ((zeroSse, Some EOF), b')
      | (Inr line, b') \<Rightarrow>
          let counted = countLine line f
          in if overLimit counted then ((zeroSse, Some frameLimitError), b')
             else if blank line then
               (if nothingRead counted then nextFrom counted b' else ((frameEvent counted, None), b'))
             else nextFrom (applyLine line counted) b')"
  by pat_completeness auto

termination nextFrom
  by (relation "measure (\<lambda>(f, b). length (bd_bytes b))") (auto dest: readLine_shorter [OF sym])

declare nextFrom.simps [simp del]

definition Next :: "body \<Rightarrow> (sseEvent \<times> goError option) \<times> body" where
  "Next b = nextFrom emptyFrame b"

end
