(* ===== verification/Provider_Http.thy ===== *)
theory Provider_Http
  imports Provider_Retry
begin

text \<open>
  Retries of one HTTP request (\<^verbatim>\<open>src/provider/shared/retry.go\<close>). The request builder, the client, the random
  source, the context and \<^verbatim>\<open>http.ParseTime\<close> are arguments. The answer records the requests sent and the waits
  between them.
\<close>

section \<open>The policy\<close>

record HTTPRetryPolicy =
  hp_MaxAttempts :: int
  hp_BaseDelay :: duration
  hp_MaxDelay :: duration
  hp_Jitter :: "(duration \<Rightarrow> duration) option"

definition maxRetryAttempts :: int where
  "maxRetryAttempts = 10"

definition attempts :: "HTTPRetryPolicy \<Rightarrow> int" where
  "attempts p = (if hp_MaxAttempts p < 0 then 1 else if hp_MaxAttempts p = 0 then 3 else min (hp_MaxAttempts p) maxRetryAttempts)"

definition baseDelay :: "HTTPRetryPolicy \<Rightarrow> duration" where
  "baseDelay p = (if hp_BaseDelay p \<le> 0 then 500 * 1000000 else hp_BaseDelay p)"

definition maxDelay :: "HTTPRetryPolicy \<Rightarrow> duration" where
  "maxDelay p = (if hp_MaxDelay p \<le> 0 then 4 * 1000000000 else hp_MaxDelay p)"

section \<open>Requests and responses\<close>

record httpRequest =
  hq_Method :: string
  hq_IdempotencyKey :: string

record httpResponse =
  hr_StatusCode :: int
  hr_RetryAfter :: string

definition RetryableStatus :: "int \<Rightarrow> bool" where
  "RetryableStatus status \<longleftrightarrow> status = 429 \<or> 500 \<le> status \<and> status \<le> 599"

definition retrySafeRequest :: "httpRequest \<Rightarrow> bool" where
  "retrySafeRequest req \<longleftrightarrow>
     hq_Method req \<in> set [''GET'', ''HEAD'', ''PUT'', ''DELETE'', ''OPTIONS'', ''TRACE''] \<or> hq_IdempotencyKey req \<noteq> []"

text \<open>\<^verbatim>\<open>strconv.Atoi\<close>: an optional sign and decimal digits within 64 bits.\<close>

definition atoi :: "string \<Rightarrow> int option" where
  "atoi s =
     (let signed = s \<noteq> [] \<and> (hd s = CHR ''-'' \<or> hd s = CHR ''+'');
          digits = (if signed then tl s else s);
          magnitude = foldl (\<lambda>n c. 10 * n + (of_char c - 48)) (0 :: int) digits;
          n = (if signed \<and> hd s = CHR ''-'' then - magnitude else magnitude)
      in if digits = [] \<or> \<not> list_all isDigit digits \<or> \<not> int64 n then None else Some n)"

record httpWorld =
  hw_build :: "int \<Rightarrow> goError + httpRequest"
  hw_do :: "int \<Rightarrow> httpRequest \<Rightarrow> goError + httpResponse"
  hw_ctxErr :: "int \<Rightarrow> goError option"
  hw_wait :: "int \<Rightarrow> goError option"
  hw_random :: "int \<Rightarrow> int \<Rightarrow> int"
  hw_now :: "int \<Rightarrow> instant"
  hw_parseTime :: "string \<Rightarrow> instant option"

definition equalJitter :: "(int \<Rightarrow> int) \<Rightarrow> duration \<Rightarrow> duration" where
  "equalJitter random delay =
     (if delay \<le> 1 then max 0 delay else let lower = delay div 2 in lower + random (delay - lower + 1))"

definition retryAfter :: "(string \<Rightarrow> instant option) \<Rightarrow> instant \<Rightarrow> httpResponse \<Rightarrow> duration" where
  "retryAfter parseTime now resp =
     (let text0 = hr_RetryAfter resp;
          dated = (case parseTime text0 of None \<Rightarrow> 0 | Some at \<Rightarrow> max 0 (at - now))
      in case atoi text0 of
           Some seconds \<Rightarrow> if seconds > 0 then wrap64 (seconds * 1000000000) else dated
         | None \<Rightarrow> dated)"

section \<open>The loop\<close>

definition retryableOutcome :: "goError option \<Rightarrow> goError + httpResponse \<Rightarrow> bool" where
  "retryableOutcome ctxErr outcome =
     (case outcome of
        Inl err \<Rightarrow> IsRetryableError err \<or> ctxErr = None \<and> isDeadline err
      | Inr resp \<Rightarrow> RetryableStatus (hr_StatusCode resp))"

definition retryWait :: "httpWorld \<Rightarrow> HTTPRetryPolicy \<Rightarrow> int \<Rightarrow> duration \<Rightarrow> goError + httpResponse \<Rightarrow> duration" where
  "retryWait world policy attempt delay outcome =
     (let jittered = (case hp_Jitter policy of None \<Rightarrow> equalJitter (hw_random world attempt) delay | Some jitter \<Rightarrow> max 0 (jitter delay));
          wait = (case outcome of
                    Inl _ \<Rightarrow> jittered
                  | Inr resp \<Rightarrow> max jittered (retryAfter (hw_parseTime world) (hw_now world attempt) resp))
      in min wait (maxDelay policy))"

definition nextDelay :: "HTTPRetryPolicy \<Rightarrow> duration \<Rightarrow> duration" where
  "nextDelay policy delay = (let limit = maxDelay policy in if delay \<ge> limit div 2 then limit else delay * 2)"

record httpAnswer =
  ha_result :: "goError + httpResponse"
  ha_sent :: "httpRequest list"
  ha_waits :: "duration list"

function retryLoop :: "httpWorld \<Rightarrow> HTTPRetryPolicy \<Rightarrow> int \<Rightarrow> int \<Rightarrow> duration \<Rightarrow> httpAnswer" where
  "retryLoop world policy most attempt delay =
     (case hw_build world attempt of
        Inl err \<Rightarrow> \<lparr>ha_result = Inl err, ha_sent = [], ha_waits = []\<rparr>
      | Inr req \<Rightarrow>
          let allowed = (if attempt = 1 \<and> \<not> retrySafeRequest req then 1 else most);
              outcome = hw_do world attempt req
          in if \<not> retryableOutcome (hw_ctxErr world attempt) outcome \<or> attempt \<ge> allowed
             then \<lparr>ha_result = outcome, ha_sent = [req], ha_waits = []\<rparr>
             else
               let wait = retryWait world policy attempt delay outcome
               in case hw_wait world attempt of
                    Some err \<Rightarrow> \<lparr>ha_result = Inl err, ha_sent = [req], ha_waits = [wait]\<rparr>
                  | None \<Rightarrow>
                      let later = retryLoop world policy allowed (attempt + 1) (nextDelay policy delay)
                      in later\<lparr>ha_sent := req # ha_sent later, ha_waits := wait # ha_waits later\<rparr>)"
  by pat_completeness auto

termination retryLoop
  by (relation "measure (\<lambda>(_, _, most, attempt, _). nat (most - attempt))") auto

declare retryLoop.simps [simp del]

definition DoWithRetry :: "httpWorld \<Rightarrow> HTTPRetryPolicy \<Rightarrow> httpAnswer" where
  "DoWithRetry world policy = retryLoop world policy (attempts policy) 1 (baseDelay policy)"

section \<open>Bounds\<close>

text \<open>\<^verbatim>\<open>rand.Int64N\<close> is below its bound.\<close>

definition fairRandom :: "httpWorld \<Rightarrow> bool" where
  "fairRandom world \<longleftrightarrow> (\<forall>attempt bound. 0 < bound \<longrightarrow> 0 \<le> hw_random world attempt bound \<and> hw_random world attempt bound < bound)"

lemma equalJitter_bounds:
  assumes "\<And>bound. 0 < bound \<Longrightarrow> 0 \<le> random bound \<and> random bound < bound" "0 \<le> delay"
  shows "delay div 2 \<le> equalJitter random delay \<and> equalJitter random delay \<le> delay"
proof -
  have "delay div 2 \<le> delay" using assms(2) by simp
  then show ?thesis using assms(1) [of "delay - delay div 2 + 1"] assms(2) by (auto simp: equalJitter_def Let_def)
qed

lemma nextDelay_bounds: "0 < delay \<Longrightarrow> 0 < nextDelay policy delay \<and> nextDelay policy delay \<le> max delay (maxDelay policy)"
  by (auto simp: nextDelay_def Let_def maxDelay_def)

lemma retryWait_bounds:
  assumes "fairRandom world" "0 < delay"
  shows "0 \<le> retryWait world policy attempt delay outcome \<and> retryWait world policy attempt delay outcome \<le> maxDelay policy"
proof -
  have "0 \<le> equalJitter (hw_random world attempt) delay"
    using equalJitter_bounds [of "hw_random world attempt" delay] assms by (force simp: fairRandom_def)
  then show ?thesis by (auto simp: retryWait_def Let_def maxDelay_def split: option.splits sum.splits)
qed

lemma retryLoop_bounds:
  assumes "fairRandom world" "0 < delay" "attempt \<le> most" "1 \<le> attempt"
  shows "int (length (ha_sent (retryLoop world policy most attempt delay))) \<le> most - attempt + 1 \<and>
    (\<forall>wait \<in> set (ha_waits (retryLoop world policy most attempt delay)). 0 \<le> wait \<and> wait \<le> maxDelay policy)"
  using assms(2-4)
proof (induction "nat (most - attempt)" arbitrary: most attempt delay rule: less_induct)
  case less
  show ?case
  proof (cases "hw_build world attempt")
    case (Inl err)
    then show ?thesis using less.prems by (subst (1 2) retryLoop.simps) simp
  next
    case (Inr req)
    let ?allowed = "if attempt = 1 \<and> \<not> retrySafeRequest req then 1 else most"
    let ?outcome = "hw_do world attempt req"
    note waits = retryWait_bounds [OF assms(1) less.prems(1), of policy attempt ?outcome]
    show ?thesis
    proof (cases "\<not> retryableOutcome (hw_ctxErr world attempt) ?outcome \<or> attempt \<ge> ?allowed")
      case True
      then have "retryLoop world policy most attempt delay = \<lparr>ha_result = ?outcome, ha_sent = [req], ha_waits = []\<rparr>"
        using Inr by (subst retryLoop.simps) (simp add: Let_def)
      then show ?thesis using less.prems by simp
    next
      case False
      then have most: "?allowed = most" "attempt < most" using less.prems(3) by (auto split: if_splits)
      show ?thesis
      proof (cases "hw_wait world attempt")
        case (Some err)
        then have "retryLoop world policy most attempt delay
            = \<lparr>ha_result = Inl err, ha_sent = [req], ha_waits = [retryWait world policy attempt delay ?outcome]\<rparr>"
          using Inr False by (subst retryLoop.simps) (simp add: Let_def)
        then show ?thesis using less.prems waits by simp
      next
        case None
        let ?later = "retryLoop world policy most (attempt + 1) (nextDelay policy delay)"
        have "retryLoop world policy most attempt delay
            = ?later\<lparr>ha_sent := req # ha_sent ?later, ha_waits := retryWait world policy attempt delay ?outcome # ha_waits ?later\<rparr>"
          using Inr False None most by (subst retryLoop.simps) (simp add: Let_def)
        then show ?thesis
          using less.hyps [of most "attempt + 1" "nextDelay policy delay"] nextDelay_bounds [OF less.prems(1), of policy]
            less.prems most waits by auto
      qed
    qed
  qed
qed

lemma attempts_bounds: "1 \<le> attempts policy" "attempts policy \<le> 10"
  by (auto simp: attempts_def maxRetryAttempts_def)

lemma baseDelay_pos: "0 < baseDelay policy"
  by (simp add: baseDelay_def)

text \<open>
  C29. A request is sent at most as often as the policy says and never more than ten times, and each wait before a
  retry is between zero and the policy's cap, whatever the server asks for. A request that is not safe to repeat
  (no idempotent method and no idempotency key) is sent at most once.
\<close>

theorem http_retry_bounded:
  assumes "fairRandom world"
  shows "int (length (ha_sent (DoWithRetry world policy))) \<le> attempts policy \<and> attempts policy \<le> 10 \<and>
    (\<forall>wait \<in> set (ha_waits (DoWithRetry world policy)). 0 \<le> wait \<and> wait \<le> maxDelay policy) \<and>
    (\<forall>req. hw_build world 1 = Inr req \<and> \<not> retrySafeRequest req \<longrightarrow> ha_sent (DoWithRetry world policy) = [req])"
proof -
  have "ha_sent (DoWithRetry world policy) = [req]" if "hw_build world 1 = Inr req" "\<not> retrySafeRequest req" for req
    using that unfolding DoWithRetry_def by (subst retryLoop.simps) (simp add: Let_def)
  then show ?thesis
    using retryLoop_bounds [OF assms baseDelay_pos attempts_bounds(1), of policy policy] attempts_bounds(2) [of policy]
    by (auto simp: DoWithRetry_def)
qed

text \<open>
  A \<^verbatim>\<open>Retry-After\<close> of 18446744074 seconds, some 585 years, overflows when it is turned into nanoseconds and comes
  out as less than 0.3 seconds: the code retries sooner than it would without the header, instead of waiting for
  the policy's cap.
\<close>

theorem retry_after_overflows:
  "retryAfter parseTime now \<lparr>hr_StatusCode = 429, hr_RetryAfter = ''18446744074''\<rparr> = 290448384"
proof -
  have "atoi ''18446744074'' = Some 18446744074" by code_simp
  then show ?thesis by (simp add: retryAfter_def wrap64_def)
qed

section \<open>Witness\<close>

definition busyWorld :: httpWorld where
  "busyWorld = \<lparr>hw_build = (\<lambda>_. Inr \<lparr>hq_Method = ''POST'', hq_IdempotencyKey = ''k''\<rparr>),
     hw_do = (\<lambda>_ _. Inr \<lparr>hr_StatusCode = 503, hr_RetryAfter = []\<rparr>), hw_ctxErr = (\<lambda>_. None), hw_wait = (\<lambda>_. None),
     hw_random = (\<lambda>_ _. 0), hw_now = (\<lambda>_. 0), hw_parseTime = (\<lambda>_. None)\<rparr>"

definition defaultPolicy :: HTTPRetryPolicy where
  "defaultPolicy = \<lparr>hp_MaxAttempts = 0, hp_BaseDelay = 0, hp_MaxDelay = 0, hp_Jitter = None\<rparr>"

theorem http_retry_bounded_witness:
  "ha_waits (DoWithRetry busyWorld defaultPolicy) = [250000000, 500000000] \<and>
   int (length (ha_sent (DoWithRetry busyWorld defaultPolicy))) \<le> 3"
proof -
  have "ha_waits (DoWithRetry busyWorld defaultPolicy) = [250000000, 500000000]" by code_simp
  moreover have "fairRandom busyWorld" by (simp add: fairRandom_def busyWorld_def)
  from http_retry_bounded [OF this, of defaultPolicy] have "int (length (ha_sent (DoWithRetry busyWorld defaultPolicy))) \<le> 3"
    by (simp add: attempts_def defaultPolicy_def)
  ultimately show ?thesis by simp
qed

end
