(* ===== verification/Tool_Update.thy ===== *)
theory Tool_Update
  imports Provider
begin

text \<open>
  The update stream of one tool call (\<^verbatim>\<open>src/tool/update.go\<close>): a driver may emit progress and output
  updates while it runs; the bus stamps their identity and sequence, bounds their number and size,
  delivers them to a sink and reconciles the terminal result with the streamed output.

  A driver is the tree of its interaction with the bus: it returns, panics, or emits an update and goes
  on with the answer. A sink may answer differently every time, so it sees the updates delivered
  before; \<open>us_delivered\<close> records the deliveries and \<open>us_cancelled\<close> whether the context handed to the driver
  was cancelled. The mutex of the state makes emissions atomic, which is what the tree assumes.
\<close>

section \<open>Data\<close>

datatype UpdateKind = UpdateProgress | UpdateOutput | UpdateOther string

record Update =
  up_Kind :: UpdateKind
  up_ToolCallID :: string
  up_OperationID :: string
  up_Sequence :: uint64
  up_Message :: string
  up_Data :: strmap
  up_Parts :: "ContentPart list"

datatype sinkAnswer = SinkOk | SinkErr goError | SinkPanic string

type_synonym sink = "(Update list \<Rightarrow> Update \<Rightarrow> sinkAnswer) option"

datatype driverRun = DriverReturn ToolResult "goError option" | DriverPanic string
  | DriverEmit Update "goError option \<Rightarrow> driverRun"

datatype execOutcome = Returned ToolResult "goError option" | Panicked string

record toolUpdateState =
  us_call :: ToolCall
  us_closed :: bool
  us_count :: uint64
  us_bytes :: uint64
  us_output :: "ContentPart list"
  us_updateErr :: "goError option"
  us_cancelled :: bool
  us_delivered :: "Update list"

definition maxToolUpdatesPerCall :: uint64 where
  "maxToolUpdatesPerCall = 65536"

definition maxToolUpdateBytesPerCall :: uint64 where
  "maxToolUpdateBytesPerCall = 67108864"

abbreviation updateProtocol :: "string \<Rightarrow> goError" where
  "updateProtocol text \<equiv> Wrapped text (SentinelError ''tool.ErrToolUpdateProtocol'')"

abbreviation updateLimit :: "string \<Rightarrow> goError" where
  "updateLimit text \<equiv> Wrapped text (SentinelError ''tool.ErrToolUpdateLimit'')"

section \<open>Checks\<close>

definition validateUpdate :: "Update \<Rightarrow> goError option" where
  "validateUpdate update =
     (case up_Kind update of
        UpdateProgress \<Rightarrow>
          if up_Parts update \<noteq> [] then Some (updateProtocol ''progress update contains output parts'') else None
      | UpdateOutput \<Rightarrow>
          if up_Parts update = [] then Some (updateProtocol ''output update has no parts'') else None
      | UpdateOther kind \<Rightarrow> Some (updateProtocol (''unknown kind '' @ kind)))"

text \<open>The strings behind the enumerations, which \<^verbatim>\<open>decodedUpdateBytes\<close> measures.\<close>

fun updateKindText :: "UpdateKind \<Rightarrow> string" where
  "updateKindText UpdateProgress = ''progress''"
| "updateKindText UpdateOutput = ''output''"
| "updateKindText (UpdateOther text) = text"

fun contentKindText :: "ContentKind \<Rightarrow> string" where
  "contentKindText ContentText = ''text''"
| "contentKindText ContentCommentary = ''commentary''"
| "contentKindText ContentFinalAnswer = ''final_answer''"
| "contentKindText ContentReasoning = ''reasoning''"
| "contentKindText ContentRedactedReasoning = ''redacted_reasoning''"
| "contentKindText ContentImage = ''image''"
| "contentKindText ContentAudio = ''audio''"
| "contentKindText ContentFile = ''file''"
| "contentKindText ContentSource = ''source''"
| "contentKindText ContentProviderData = ''provider_data''"
| "contentKindText (ContentOther text) = text"

definition partBytes :: "ContentPart \<Rightarrow> nat" where
  "partBytes part =
     length (cp_ID part) + length (contentKindText (cp_Kind part)) + length (cp_Text part) + length (cp_Data part)
     + length (cp_MediaType part) + length (cp_URI part) + length (cp_Filename part) + length (cp_Signature part)
     + length (cp_ProviderData part)
     + (case cp_Source part of None \<Rightarrow> 0
        | Some source \<Rightarrow> length (src_ID source) + length (src_URL source) + length (src_Title source)
            + length (src_MediaType source) + length (src_Filename source))"

definition decodedUpdateBytes :: "Update \<Rightarrow> uint64" where
  "decodedUpdateBytes update =
     of_nat (8 + length (updateKindText (up_Kind update)) + length (up_ToolCallID update)
       + length (up_OperationID update) + length (up_Message update)
       + sum_list (map (\<lambda>(key, val). length key + length val) (up_Data update))
       + sum_list (map partBytes (up_Parts update)))"

section \<open>Emitting\<close>

definition failLocked :: "toolUpdateState \<Rightarrow> goError \<Rightarrow> toolUpdateState" where
  "failLocked st err =
     (if us_updateErr st = None then st\<lparr>us_updateErr := Some err, us_cancelled := True\<rparr> else st)"

definition deliverUpdate :: "(Update list \<Rightarrow> Update \<Rightarrow> sinkAnswer) \<Rightarrow> Update list \<Rightarrow> Update \<Rightarrow> goError option" where
  "deliverUpdate receive delivered update =
     (case receive delivered update of SinkOk \<Rightarrow> None | SinkErr err \<Rightarrow> Some err
      | SinkPanic text \<Rightarrow> Some (TextError (''tool update sink panicked: '' @ text)))"

definition emit :: "sink \<Rightarrow> toolUpdateState \<Rightarrow> Update \<Rightarrow> toolUpdateState \<times> goError option" where
  "emit sink st update0 =
     (if us_closed st then (st, Some (updateProtocol ''update emitted after Driver.Execute returned''))
      else case us_updateErr st of
        Some err \<Rightarrow> (st, Some err)
      | None \<Rightarrow>
          (case validateUpdate update0 of
             Some err \<Rightarrow> (failLocked st err, Some err)
           | None \<Rightarrow>
               if us_count st \<ge> maxToolUpdatesPerCall then
                 let err = updateLimit ''count exceeds 65536'' in (failLocked st err, Some err)
               else
                 let update = update0\<lparr>up_ToolCallID := tc_ID (us_call st),
                                up_OperationID := tc_OperationID (us_call st),
                                up_Sequence := us_count st + 1\<rparr>;
                     decodedBytes = decodedUpdateBytes update
                 in if decodedBytes > maxToolUpdateBytesPerCall - us_bytes st then
                      let err = updateLimit ''decoded bytes exceed 67108864'' in (failLocked st err, Some err)
                    else
                      let st1 = st\<lparr>us_count := us_count st + 1, us_bytes := us_bytes st + decodedBytes,
                                  us_output := (if up_Kind update = UpdateOutput
                                                then us_output st @ up_Parts update else us_output st)\<rparr>
                      in case sink of
                           None \<Rightarrow> (st1, None)
                         | Some receive \<Rightarrow>
                             let st2 = st1\<lparr>us_delivered := us_delivered st @ [update]\<rparr>
                             in case deliverUpdate receive (us_delivered st) update of
                                  Some err \<Rightarrow> (failLocked st2 err, Some err)
                                | None \<Rightarrow> (st2, None)))"

definition finish :: "toolUpdateState \<Rightarrow> toolUpdateState \<times> ContentPart list \<times> uint64 \<times> goError option" where
  "finish st = (st\<lparr>us_closed := True, us_cancelled := True\<rparr>, us_output st, us_count st, us_updateErr st)"

definition close :: "toolUpdateState \<Rightarrow> toolUpdateState" where
  "close st = st\<lparr>us_closed := True, us_cancelled := True\<rparr>"

section \<open>The terminal result\<close>

definition equalContentPart :: "ContentPart \<Rightarrow> ContentPart \<Rightarrow> bool" where
  "equalContentPart left right \<longleftrightarrow>
     cp_ID left = cp_ID right \<and> cp_Kind left = cp_Kind right \<and> cp_Text left = cp_Text right
     \<and> cp_MediaType left = cp_MediaType right \<and> cp_URI left = cp_URI right
     \<and> cp_Filename left = cp_Filename right \<and> cp_Signature left = cp_Signature right
     \<and> cp_Data left = cp_Data right \<and> cp_ProviderData left = cp_ProviderData right
     \<and> (case (cp_Source left, cp_Source right) of
          (Some a, Some b) \<Rightarrow> a = b | (None, None) \<Rightarrow> True | _ \<Rightarrow> False)"

definition equalContent :: "ContentPart list \<Rightarrow> ContentPart list \<Rightarrow> bool" where
  "equalContent left right \<longleftrightarrow> length left = length right \<and> list_all2 equalContentPart left right"

definition normalizeUpdatedResult ::
    "ToolCall \<Rightarrow> ToolResult \<Rightarrow> ContentPart list \<Rightarrow> ToolResult \<times> goError option" where
  "normalizeUpdatedResult call result0 streamed =
     (let result = result0\<lparr>tr_ToolCallID := tc_ID call, tr_Name := tc_Name call\<rparr>
      in if streamed = [] then (SyncLegacyToolContent result, None)
         else if tr_Parts result = [] then (SyncLegacyToolContent (result\<lparr>tr_Parts := streamed\<rparr>), None)
         else
           let expected = SyncLegacyToolContent (zeroToolResult\<lparr>tr_Parts := streamed\<rparr>);
               synced = SyncLegacyToolContent result
           in if tr_Content synced \<noteq> tr_Content expected \<or> \<not> equalContent (tr_Parts synced) (tr_Parts expected)
              then (synced, Some (updateProtocol ''terminal result differs from streamed output''))
              else (synced, None))"

section \<open>Executing a driver\<close>

text \<open>The run of a driver against the state: how it ended, and the state it left.\<close>

primrec runDriver :: "sink \<Rightarrow> driverRun \<Rightarrow> toolUpdateState \<Rightarrow> toolUpdateState \<times> execOutcome" where
  "runDriver sink (DriverReturn result err) st = (st, Returned result err)"
| "runDriver sink (DriverPanic text) st = (st, Panicked text)"
| "runDriver sink (DriverEmit update continue) st =
     (case emit sink st update of (st1, err) \<Rightarrow> runDriver sink (continue err) st1)"

definition startUpdates :: "ToolCall \<Rightarrow> toolUpdateState" where
  "startUpdates call = \<lparr>us_call = call, us_closed = False, us_count = 0, us_bytes = 0, us_output = [],
     us_updateErr = None, us_cancelled = False, us_delivered = []\<rparr>"

definition toolUpdateExecute ::
    "sink \<Rightarrow> driverRun \<Rightarrow> ToolCall \<Rightarrow> toolUpdateState \<times> execOutcome" where
  "toolUpdateExecute sink driver call =
     (case runDriver sink driver (startUpdates call) of
        (st, Panicked text) \<Rightarrow> (close st, Panicked text)
      | (st, Returned result executeErr) \<Rightarrow>
          let (closed, parts, updateCount, updateErr) = finish st;
              (normalized, protocolErr) = normalizeUpdatedResult call result parts
          in (close closed,
              Returned normalized
                (case updateErr of
                   Some err \<Rightarrow>
                     (case protocolErr of Some protocol \<Rightarrow> Some (JoinError [err, protocol]) | None \<Rightarrow> Some err)
                 | None \<Rightarrow>
                     (case protocolErr of
                        Some protocol \<Rightarrow> Some protocol
                      | None \<Rightarrow>
                          (case executeErr of
                             Some err \<Rightarrow>
                               if updateCount > 0 \<and> isSentinel ''tool.ErrNotExecuted'' err
                               then Some (updateProtocol (''driver emitted '' @ showNat (unat updateCount)
                                      @ '' update(s) before reporting that it was not executed''))
                               else Some err
                           | None \<Rightarrow> None)))))"

section \<open>Laws of the stream\<close>

text \<open>
  The invariant of the state: what was delivered carries the identity of the call and consecutive
  sequence numbers from 1, respects its kind, and fits both budgets; with a sink, the counters and the
  collected output are those of the deliveries.
\<close>

definition stampedFor :: "ToolCall \<Rightarrow> Update \<Rightarrow> bool" where
  "stampedFor call update \<longleftrightarrow>
     up_ToolCallID update = tc_ID call \<and> up_OperationID update = tc_OperationID call \<and> validateUpdate update = None"

definition streamedParts :: "Update list \<Rightarrow> ContentPart list" where
  "streamedParts updates = concat (map up_Parts (filter (\<lambda>u. up_Kind u = UpdateOutput) updates))"

definition updatesWithin :: "toolUpdateState \<Rightarrow> bool" where
  "updatesWithin st \<longleftrightarrow>
     us_count st \<le> maxToolUpdatesPerCall \<and> us_bytes st \<le> maxToolUpdateBytesPerCall \<and>
     us_count st = of_nat (length (us_delivered st)) \<and> length (us_delivered st) \<le> 65536 \<and>
     unat (us_bytes st) = sum_list (map (unat \<circ> decodedUpdateBytes) (us_delivered st)) \<and>
     map up_Sequence (us_delivered st) = map (\<lambda>i. of_nat (Suc i)) [0..<length (us_delivered st)] \<and>
     list_all (stampedFor (us_call st)) (us_delivered st) \<and>
     us_output st = streamedParts (us_delivered st)"

lemma updatesWithin_start [simp]: "updatesWithin (startUpdates call)"
  by (simp add: updatesWithin_def startUpdates_def streamedParts_def)

lemma updatesWithin_fail [simp]: "updatesWithin (failLocked st err) = updatesWithin st"
  by (simp add: updatesWithin_def failLocked_def)

lemma failLocked_fields [simp]:
  "us_call (failLocked st err) = us_call st" "us_delivered (failLocked st err) = us_delivered st"
  by (simp_all add: failLocked_def)

lemma count_room:
  assumes "\<not> maxToolUpdatesPerCall \<le> (of_nat n :: uint64)" "n \<le> 65536"
  shows "n < 65536" "of_nat n + 1 \<le> maxToolUpdatesPerCall"
proof -
  show "n < 65536" using assms by (cases "n = 65536") (auto simp: maxToolUpdatesPerCall_def)
  then show "of_nat n + 1 \<le> maxToolUpdatesPerCall"
    by (simp add: maxToolUpdatesPerCall_def word_le_nat_alt unat_of_nat unat_word_ariths)
qed

lemma bytes_room:
  assumes "\<not> d > maxToolUpdateBytesPerCall - b" "b \<le> maxToolUpdateBytesPerCall"
  shows "b + d \<le> maxToolUpdateBytesPerCall" "unat (b + d) = unat b + unat d"
proof -
  have "unat d \<le> 67108864 - unat b" "unat b \<le> 67108864"
    using assms by (simp_all add: maxToolUpdateBytesPerCall_def word_le_nat_alt not_less unat_sub)
  then have "unat b + unat d \<le> 67108864" by linarith
  then show sum: "unat (b + d) = unat b + unat d" by (simp add: unat_word_ariths)
  show "b + d \<le> maxToolUpdateBytesPerCall"
    using \<open>unat b + unat d \<le> 67108864\<close> by (simp add: maxToolUpdateBytesPerCall_def word_le_nat_alt sum)
qed

lemma emit_within:
  assumes "updatesWithin st" "emit (Some receive) st update = (st', err)"
  shows "updatesWithin st' \<and> us_call st' = us_call st"
proof (cases "us_closed st \<or> us_updateErr st \<noteq> None \<or> validateUpdate update \<noteq> None
    \<or> us_count st \<ge> maxToolUpdatesPerCall")
  case True
  then show ?thesis using assms by (auto simp: emit_def Let_def split: option.splits if_splits)
next
  case False
  let ?update = "update\<lparr>up_ToolCallID := tc_ID (us_call st), up_OperationID := tc_OperationID (us_call st),
     up_Sequence := us_count st + 1\<rparr>"
  let ?next = "st\<lparr>us_count := us_count st + 1, us_bytes := us_bytes st + decodedUpdateBytes ?update,
     us_output := (if up_Kind ?update = UpdateOutput then us_output st @ up_Parts ?update else us_output st),
     us_delivered := us_delivered st @ [?update]\<rparr>"
  have valid: "validateUpdate ?update = None" using False by (auto simp: validateUpdate_def split: UpdateKind.splits if_splits)
  show ?thesis
  proof (cases "decodedUpdateBytes ?update > maxToolUpdateBytesPerCall - us_bytes st")
    case True
    then show ?thesis using assms False by (auto simp: emit_def Let_def)
  next
    case small: False
    have count: "us_count st = of_nat (length (us_delivered st))" "length (us_delivered st) \<le> 65536"
      using assms(1) by (simp_all add: updatesWithin_def)
    have room: "length (us_delivered st) < 65536" "us_count st + 1 \<le> maxToolUpdatesPerCall"
      using count_room [of "length (us_delivered st)"] False count by simp_all
    have "updatesWithin ?next"
      using assms(1) room bytes_room [OF small] valid count(1)
      by (simp add: updatesWithin_def streamedParts_def stampedFor_def add.commute)
    then show ?thesis
      using assms False small by (auto simp: emit_def Let_def split: option.splits)
  qed
qed

lemma runDriver_within:
  "runDriver (Some receive) driver st = (st', outcome) \<Longrightarrow> updatesWithin st \<Longrightarrow>
   updatesWithin st' \<and> us_call st' = us_call st"
proof (induction driver arbitrary: st)
  case (DriverEmit update continue)
  obtain st1 err where e: "emit (Some receive) st update = (st1, err)" by fastforce
  have "continue err \<in> range continue" by simp
  then show ?case
    using DriverEmit.IH [of "continue err" st1] DriverEmit.prems emit_within [OF DriverEmit.prems(2) e] e by auto
qed auto

lemma equalContentPart_iff [simp]: "equalContentPart left right \<longleftrightarrow> left = right"
  by (cases left; cases right) (auto simp: equalContentPart_def split: option.splits)

lemma equalContent_iff [simp]: "equalContent left right \<longleftrightarrow> left = right"
  by (auto simp: equalContent_def list_all2_conv_all_nth list_eq_iff_nth_eq)

text \<open>An accepted result carries the identity of its call and, when output was streamed, exactly that.\<close>

lemma normalizeUpdatedResult_ok:
  assumes "normalizeUpdatedResult call result parts = (normalized, err)"
  shows "tr_ToolCallID normalized = tc_ID call" "tr_Name normalized = tc_Name call"
    "err = None \<Longrightarrow> parts \<noteq> [] \<Longrightarrow> tr_Parts normalized = parts \<and> tr_Content normalized = textForKinds parts visibleKinds"
  using assms
  by (auto simp: normalizeUpdatedResult_def Let_def SyncLegacyToolContent_def zeroToolResult_def split: if_splits)

section \<open>The property\<close>

text \<open>
  C37. Streaming is bounded and faithful for every driver and every sink, panicking ones included. At most
  65,536 updates of at most 64 MiB together reach the sink (the 64-bit counters never wrap), numbered
  1, 2, 3, \<open>\<dots>\<close> and stamped with the identity of the call whatever the driver wrote there. A result that is
  returned carries that identity, and without an error its parts and text are exactly the output that was
  streamed, if any was.
\<close>

theorem tool_updates_bounded:
  assumes "toolUpdateExecute (Some receive) driver call = (st, outcome)"
  shows "length (us_delivered st) \<le> 65536
    \<and> sum_list (map (unat \<circ> decodedUpdateBytes) (us_delivered st)) \<le> 67108864
    \<and> map up_Sequence (us_delivered st) = map (\<lambda>i. of_nat (Suc i)) [0..<length (us_delivered st)]
    \<and> list_all (stampedFor call) (us_delivered st)
    \<and> (case outcome of Panicked _ \<Rightarrow> True
       | Returned result err \<Rightarrow> tr_ToolCallID result = tc_ID call \<and> tr_Name result = tc_Name call
           \<and> (err = None \<and> streamedParts (us_delivered st) \<noteq> [] \<longrightarrow>
                tr_Parts result = streamedParts (us_delivered st)
                \<and> tr_Content result = textForKinds (streamedParts (us_delivered st)) visibleKinds))"
proof -
  obtain st1 ended where run: "runDriver (Some receive) driver (startUpdates call) = (st1, ended)" by fastforce
  have inv: "updatesWithin st1" "us_call st1 = call"
    using runDriver_within [OF run updatesWithin_start] by (simp_all add: startUpdates_def)
  have same: "us_delivered st = us_delivered st1"
    using assms run by (auto simp: toolUpdateExecute_def close_def finish_def split: execOutcome.splits prod.splits)
  have bytes: "sum_list (map (unat \<circ> decodedUpdateBytes) (us_delivered st1)) \<le> 67108864"
    using inv(1) by (simp add: updatesWithin_def maxToolUpdateBytesPerCall_def word_le_nat_alt)
  show ?thesis
  proof (cases ended)
    case (Returned result executeErr)
    obtain normalized protocolErr where n: "normalizeUpdatedResult call result (us_output st1) = (normalized, protocolErr)"
      by fastforce
    have "\<exists>err. outcome = Returned normalized err \<and> (err = None \<longrightarrow> protocolErr = None)"
      using assms run Returned n by (auto simp: toolUpdateExecute_def finish_def split: option.splits)
    then show ?thesis
      using inv bytes normalizeUpdatedResult_ok [OF n] by (auto simp: updatesWithin_def same)
  next
    case (Panicked reason)
    then show ?thesis using assms run inv bytes by (auto simp: toolUpdateExecute_def updatesWithin_def same)
  qed
qed

text \<open>A driver that streams one part under a forged identity and returns nothing else.\<close>

definition demoStreaming :: driverRun where
  "demoStreaming = DriverEmit \<lparr>up_Kind = UpdateOutput, up_ToolCallID = ''forged'', up_OperationID = [], up_Sequence = 9,
     up_Message = [], up_Data = [], up_Parts = [TextPart ''out'']\<rparr> (\<lambda>_. DriverReturn zeroToolResult None)"

definition demoCall :: ToolCall where
  "demoCall = \<lparr>tc_ID = ''c1'', tc_Name = ''f'', tc_Arguments = ''{}'', tc_OperationID = ''turn:0:call:0''\<rparr>"

definition demoStreamed :: "toolUpdateState \<times> execOutcome" where
  "demoStreamed = toolUpdateExecute (Some (\<lambda>_ _. SinkOk)) demoStreaming demoCall"

lemma tool_updates_bounded_witness:
  "list_all (stampedFor demoCall) (us_delivered (fst demoStreamed)) \<and> length (us_delivered (fst demoStreamed)) = 1
   \<and> (case snd demoStreamed of Returned result err \<Rightarrow> tr_Content result = ''out'' | Panicked _ \<Rightarrow> False)"
proof -
  have "toolUpdateExecute (Some (\<lambda>_ _. SinkOk)) demoStreaming demoCall = (fst demoStreamed, snd demoStreamed)"
    by (simp add: demoStreamed_def)
  note bounded = tool_updates_bounded [OF this]
  have "length (us_delivered (fst demoStreamed)) = 1" "streamedParts (us_delivered (fst demoStreamed)) = [TextPart ''out'']"
    "(case snd demoStreamed of Returned _ err \<Rightarrow> err = None | Panicked _ \<Rightarrow> False)"
    by code_simp+
  then show ?thesis using bounded by (auto simp: TextPart_def split: execOutcome.splits)
qed

end
