(* ===== verification/Tool_Interceptor.thy ===== *)
theory Tool_Interceptor
  imports Tool_Update
begin

text \<open>
  Interceptors around one tool execution (\<^verbatim>\<open>src/tool/interceptor.go\<close>). An interceptor is the tree of what
  it does: return, panic, or call the next driver with some call and go on with its answer; a panic of
  the next driver unwinds through it. Each stage guards the next one: at most one call, unchanged, and
  not after the interceptor has returned.

  A driver answers with the calls that reached the terminal driver, in order, and its outcome, so that
  what was executed is visible. The sink an interceptor passes on is part of its choice and does not
  matter here. \<open>marshal\<close> stands for \<^verbatim>\<open>json.Marshal\<close> on a call, which compacts the raw arguments: calls
  with equal encodings may differ in insignificant white space.
\<close>

section \<open>Data\<close>

datatype interceptorRun = InterceptorReturn ToolResult "goError option" | InterceptorPanic string
  | InterceptorNext ToolCall "execOutcome \<Rightarrow> interceptorRun"

type_synonym Interceptor = "ToolCall \<Rightarrow> interceptorRun"
type_synonym nextDriver = "ToolCall \<Rightarrow> ToolCall list \<times> execOutcome"

definition protocolError :: "nat \<Rightarrow> goError \<Rightarrow> goError" where
  "protocolError index cause =
     Wrapped (''tool interceptor '' @ showNat index)
       (JoinError [SentinelError ''tool.ErrInterceptorProtocol'', cause])"

abbreviation notExecuted :: goError where
  "notExecuted \<equiv> SentinelError ''tool.ErrNotExecuted''"

record guardState =
  gu_calls :: nat
  gu_closed :: bool
  gu_protocolErr :: "goError option"

section \<open>The guard\<close>

text \<open>\<^verbatim>\<open>guarded.execute\<close>: what reached the terminal driver, the answer, and the guard's state.\<close>

definition guardedNext ::
    "(ToolCall \<Rightarrow> goError + bytes) \<Rightarrow> nat \<Rightarrow> ToolCall \<Rightarrow> bytes \<Rightarrow> nextDriver \<Rightarrow> guardState \<Rightarrow> ToolCall
       \<Rightarrow> (ToolCall list \<times> execOutcome) \<times> guardState" where
  "guardedNext marshal index call expected nextd g candidate =
     (if gu_closed g then
        (([], Returned zeroToolResult (Some (JoinError
           [notExecuted, protocolError index (TextError ''next called after interceptor returned'')]))), g)
      else
        let g1 = g\<lparr>gu_calls := gu_calls g + 1\<rparr>
        in if gu_calls g1 > 1 then
             let failure = protocolError index (TextError ''next called more than once'')
             in (([], Returned zeroToolResult (Some failure)), g1\<lparr>gu_protocolErr := Some failure\<rparr>)
           else
             let refuse = (\<lambda>cause.
                   let failure = JoinError [notExecuted, protocolError index cause]
                   in (([], Returned zeroToolResult (Some failure)), g1\<lparr>gu_protocolErr := Some failure\<rparr>))
             in case marshal candidate of
                  Inl candidateErr \<Rightarrow> refuse candidateErr
                | Inr candidateFingerprint \<Rightarrow>
                    if tc_OperationID candidate \<noteq> tc_OperationID call \<or> candidateFingerprint \<noteq> expected
                    then refuse (TextError ''call or operation ID was modified'')
                    else (nextd candidate, g1))"

text \<open>
  The interceptor at work: the calls that reached the terminal driver, how it ended, and the guard.
\<close>

primrec runInterceptor ::
    "(ToolCall \<Rightarrow> goError + bytes) \<Rightarrow> nat \<Rightarrow> ToolCall \<Rightarrow> bytes \<Rightarrow> nextDriver \<Rightarrow> interceptorRun \<Rightarrow> guardState
       \<Rightarrow> ToolCall list \<times> execOutcome \<times> guardState" where
  "runInterceptor marshal index call expected nextd (InterceptorReturn result err) g = ([], Returned result err, g)"
| "runInterceptor marshal index call expected nextd (InterceptorPanic reason) g = ([], Panicked reason, g)"
| "runInterceptor marshal index call expected nextd (InterceptorNext candidate continue) g =
     (case guardedNext marshal index call expected nextd g candidate of
        ((executed, Panicked reason), g1) \<Rightarrow> (executed, Panicked reason, g1)
      | ((executed, answer), g1) \<Rightarrow>
          (case runInterceptor marshal index call expected nextd (continue answer) g1 of
             (more_executed, ended, g2) \<Rightarrow> (executed @ more_executed, ended, g2)))"

definition wrapInterceptor ::
    "(ToolCall \<Rightarrow> goError + bytes) \<Rightarrow> nat \<Rightarrow> Interceptor \<Rightarrow> nextDriver \<Rightarrow> nextDriver" where
  "wrapInterceptor marshal index interceptor nextd call =
     (case marshal call of
        Inl fingerprintErr \<Rightarrow> ([], Returned zeroToolResult (Some (protocolError index fingerprintErr)))
      | Inr expected \<Rightarrow>
          (case runInterceptor marshal index call expected nextd (interceptor call)
                  \<lparr>gu_calls = 0, gu_closed = False, gu_protocolErr = None\<rparr> of
             (executed, Panicked reason, g) \<Rightarrow>
               let cause = TextError (''panic: '' @ reason)
               in (executed, Returned zeroToolResult (Some (protocolError index
                     (if gu_calls g = 0 then JoinError [notExecuted, cause] else cause))))
           | (executed, Returned result err, g) \<Rightarrow>
               (executed,
                case gu_protocolErr g of
                  Some violation \<Rightarrow>
                    Returned zeroToolResult (Some (JoinError (case err of Some e \<Rightarrow> [e, violation] | None \<Rightarrow> [violation])))
                | None \<Rightarrow>
                    Returned result
                      (case err of
                         Some e \<Rightarrow>
                           if gu_calls g = 0 \<and> \<not> isSentinel ''tool.ErrNotExecuted'' e
                           then Some (JoinError [notExecuted, e]) else Some e
                       | None \<Rightarrow> None))))"

text \<open>\<^verbatim>\<open>ChainInterceptors\<close>: nil entries are dropped, the first interceptor is the outermost stage.\<close>

fun chainFrom :: "(ToolCall \<Rightarrow> goError + bytes) \<Rightarrow> nat \<Rightarrow> Interceptor list \<Rightarrow> nextDriver \<Rightarrow> nextDriver" where
  "chainFrom marshal index [] driver = driver"
| "chainFrom marshal index (interceptor # interceptors) driver =
     wrapInterceptor marshal index interceptor (chainFrom marshal (Suc index) interceptors driver)"

definition ChainInterceptors ::
    "(ToolCall \<Rightarrow> goError + bytes) \<Rightarrow> Interceptor option list \<Rightarrow> (nextDriver \<Rightarrow> nextDriver) option" where
  "ChainInterceptors marshal interceptors =
     (let filtered = map the (filter (\<lambda>i. i \<noteq> None) interceptors)
      in if filtered = [] then None else Some (chainFrom marshal 0 filtered))"

section \<open>Laws\<close>

text \<open>
  The contract of a stage, which the terminal driver and every wrapped stage satisfy: it executes at most
  one call, the one it was given up to encoding; an error with nothing executed says so; and no panic
  escapes a wrapped stage.
\<close>

locale guarded_stage =
  fixes marshal :: "ToolCall \<Rightarrow> goError + bytes" and nextd :: nextDriver
  assumes once: "nextd call = (executed, outcome) \<Longrightarrow> length executed \<le> 1"
    and unchanged: "nextd call = (executed, outcome) \<Longrightarrow> c \<in> set executed \<Longrightarrow>
      tc_OperationID c = tc_OperationID call \<and> marshal c = marshal call"
begin

lemma guarded_calls:
  assumes "guardedNext marshal index call expected nextd g candidate = ((executed, answer), g')"
  shows "gu_calls g' \<ge> gu_calls g" "executed \<noteq> [] \<Longrightarrow> gu_calls g = 0 \<and> gu_calls g' = 1"
    "length executed \<le> 1"
    "marshal call = Inr expected \<Longrightarrow> c \<in> set executed \<Longrightarrow> tc_OperationID c = tc_OperationID call \<and> marshal c = marshal call"
proof -
  have nx: "nextd candidate = (executed, answer) \<and> tc_OperationID candidate = tc_OperationID call \<and> marshal candidate = Inr expected
      \<and> gu_calls g = 0 \<and> gu_calls g' = 1" if "executed \<noteq> []"
    using assms that by (auto simp: guardedNext_def Let_def split: if_splits sum.splits)
  show "gu_calls g' \<ge> gu_calls g"
    using assms by (auto simp: guardedNext_def Let_def split: if_splits sum.splits)
  show "executed \<noteq> [] \<Longrightarrow> gu_calls g = 0 \<and> gu_calls g' = 1" using nx by blast
  show "length executed \<le> 1" using nx once by (cases "executed = []") auto
  show "marshal call = Inr expected \<Longrightarrow> c \<in> set executed \<Longrightarrow> tc_OperationID c = tc_OperationID call \<and> marshal c = marshal call"
    using nx unchanged by (cases "executed = []") fastforce+
qed

lemma run_calls:
  assumes "marshal call = Inr expected"
  shows "runInterceptor marshal index call expected nextd run g = (executed, ended, g') \<Longrightarrow>
    gu_calls g' \<ge> gu_calls g \<and> length executed \<le> 1 \<and> (executed \<noteq> [] \<longrightarrow> gu_calls g = 0 \<and> gu_calls g' > 0)
    \<and> (\<forall>c \<in> set executed. tc_OperationID c = tc_OperationID call \<and> marshal c = marshal call)"
proof (induction run arbitrary: g executed)
  case (InterceptorNext candidate continue)
  obtain head answer g1 where gn: "guardedNext marshal index call expected nextd g candidate = ((head, answer), g1)"
    by (metis surj_pair)
  note first = guarded_calls(1-3) [OF gn] and changed = guarded_calls(4) [OF gn assms]
  show ?case
  proof (cases answer)
    case (Panicked reason)
    then show ?thesis using InterceptorNext.prems gn first changed by auto
  next
    case (Returned result err)
    obtain rest where rn: "runInterceptor marshal index call expected nextd (continue answer) g1 = (rest, ended, g')"
      and ex: "executed = head @ rest"
      using InterceptorNext.prems gn Returned by (auto split: prod.splits)
    have "continue answer \<in> range continue" by simp
    note tail = InterceptorNext.IH [OF this rn]
    show ?thesis
    proof (cases "head = []")
      case True
      then show ?thesis using tail first(1) by (cases "rest = []") (simp_all add: ex)
    next
      case False
      then have "gu_calls g = 0" "gu_calls g1 = 1" using first(2) by auto
      moreover from this have "rest = []" using tail by auto
      ultimately show ?thesis using tail first(3) changed by (simp add: ex)
    qed
  qed
qed auto

end

text \<open>The terminal driver, and every stage around a stage that keeps the contract, keep the contract.\<close>

definition terminalExecute :: "sink \<Rightarrow> (ToolCall \<Rightarrow> driverRun) \<Rightarrow> nextDriver" where
  "terminalExecute sink driver call = ([call], snd (toolUpdateExecute sink (driver call) call))"

interpretation terminal: guarded_stage marshal "terminalExecute sink driver" for marshal sink driver
  by unfold_locales (auto simp: terminalExecute_def)

lemma wrapInterceptor_stage:
  assumes "guarded_stage marshal nextd"
  shows "guarded_stage marshal (wrapInterceptor marshal index interceptor nextd)"
proof
  fix call executed outcome
  assume w: "wrapInterceptor marshal index interceptor nextd call = (executed, outcome)"
  have "executed = [] \<or> (\<exists>expected ended g'. marshal call = Inr expected \<and>
      runInterceptor marshal index call expected nextd (interceptor call)
        \<lparr>gu_calls = 0, gu_closed = False, gu_protocolErr = None\<rparr> = (executed, ended, g'))"
    using w by (auto simp: wrapInterceptor_def Let_def split: sum.splits prod.splits execOutcome.splits)
  then have all: "length executed \<le> 1 \<and> (\<forall>c \<in> set executed. tc_OperationID c = tc_OperationID call \<and> marshal c = marshal call)"
    by (auto dest: guarded_stage.run_calls [OF assms])
  show "length executed \<le> 1" using all by blast
  show "tc_OperationID c = tc_OperationID call \<and> marshal c = marshal call" if "c \<in> set executed" for c using all that by blast
qed

lemma chainFrom_stage: "guarded_stage marshal (chainFrom marshal index interceptors (terminalExecute sink driver))"
  by (induction interceptors arbitrary: index) (auto intro: terminal.guarded_stage_axioms wrapInterceptor_stage)

lemma wrapInterceptor_returns: "\<exists>executed result err. wrapInterceptor marshal index interceptor nextd call = (executed, Returned result err)"
proof (cases "marshal call")
  case (Inr expected)
  obtain executed ended g where "runInterceptor marshal index call expected nextd (interceptor call)
      \<lparr>gu_calls = 0, gu_closed = False, gu_protocolErr = None\<rparr> = (executed, ended, g)" by (metis surj_pair)
  then show ?thesis
    using Inr by (cases ended) (auto simp: wrapInterceptor_def Let_def split: option.split)
qed (simp add: wrapInterceptor_def)

section \<open>The property\<close>

text \<open>An interceptor that never calls the next driver.\<close>

fun shortCircuits :: "interceptorRun \<Rightarrow> bool" where
  "shortCircuits (InterceptorNext _ _) = False"
| "shortCircuits _ = True"

text \<open>
  C19. A chain of interceptors executes the tool at most once, on the call it was given: whatever the
  interceptors do (call the next driver repeatedly, alter the call or its operation ID, swallow errors,
  panic), at most one execution reaches the driver, its operation ID and encoding are those of the
  original call, and no panic escapes the chain. When the outermost interceptor fails without calling
  on, the error proves that the tool was not executed.
\<close>

theorem interceptor_chain_once:
  assumes "ChainInterceptors marshal (Some interceptor # interceptors) = Some chain"
    and "marshal call = Inr encoded"
  shows "\<exists>executed result err. chain (terminalExecute sink driver) call = (executed, Returned result err)
    \<and> length executed \<le> 1
    \<and> (\<forall>c \<in> set executed. tc_OperationID c = tc_OperationID call \<and> marshal c = Inr encoded)
    \<and> (shortCircuits (interceptor call) \<longrightarrow> executed = []
         \<and> (case err of None \<Rightarrow> True | Some e \<Rightarrow> isSentinel ''tool.ErrNotExecuted'' e))"
proof -
  let ?rest = "chainFrom marshal (Suc 0) (map the (filter (\<lambda>i. i \<noteq> None) interceptors)) (terminalExecute sink driver)"
  have chain: "chain (terminalExecute sink driver) call = wrapInterceptor marshal 0 interceptor ?rest call"
    using assms(1) by (auto simp: ChainInterceptors_def Let_def)
  have stage: "guarded_stage marshal (wrapInterceptor marshal 0 interceptor ?rest)"
    by (intro wrapInterceptor_stage chainFrom_stage)
  obtain executed result err where w: "wrapInterceptor marshal 0 interceptor ?rest call = (executed, Returned result err)"
    using wrapInterceptor_returns by blast
  have "executed = [] \<and> (case err of None \<Rightarrow> True | Some e \<Rightarrow> isSentinel ''tool.ErrNotExecuted'' e)"
    if "shortCircuits (interceptor call)"
    using that w assms(2)
    by (cases "interceptor call") (auto simp: wrapInterceptor_def Let_def protocolError_def split: option.splits if_splits)
  then show ?thesis
    using chain w guarded_stage.once [OF stage w] guarded_stage.unchanged [OF stage w] assms(2) by auto
qed

text \<open>An interceptor that calls the next driver twice, the second time under another operation ID.\<close>

definition demoTwice :: Interceptor where
  "demoTwice call = InterceptorNext call (\<lambda>_. InterceptorNext (call\<lparr>tc_OperationID := ''other''\<rparr>)
     (\<lambda>answer. case answer of Returned result err \<Rightarrow> InterceptorReturn result None | Panicked reason \<Rightarrow> InterceptorPanic reason))"

definition demoMarshal :: "ToolCall \<Rightarrow> goError + bytes" where
  "demoMarshal call = Inr (tc_ID call @ tc_Name call @ tc_Arguments call @ tc_OperationID call)"

lemma interceptor_chain_once_witness:
  "\<exists>result err. wrapInterceptor demoMarshal 0 demoTwice (terminalExecute None (\<lambda>_. demoStreaming)) demoCall
     = ([demoCall], Returned result (Some err))"
proof -
  have "ChainInterceptors demoMarshal [Some demoTwice] = Some (chainFrom demoMarshal 0 [demoTwice])"
    by (simp add: ChainInterceptors_def)
  from interceptor_chain_once [OF this, of demoCall _ None "\<lambda>_. demoStreaming"]
  obtain executed result err where c: "chainFrom demoMarshal 0 [demoTwice] (terminalExecute None (\<lambda>_. demoStreaming)) demoCall
      = (executed, Returned result err)" "length executed \<le> 1"
    by (auto simp: demoMarshal_def)
  have "fst (chainFrom demoMarshal 0 [demoTwice] (terminalExecute None (\<lambda>_. demoStreaming)) demoCall) = [demoCall]"
    "(case snd (chainFrom demoMarshal 0 [demoTwice] (terminalExecute None (\<lambda>_. demoStreaming)) demoCall) of
        Returned _ err \<Rightarrow> err \<noteq> None | Panicked _ \<Rightarrow> False)"
    by code_simp+
  then show ?thesis using c by auto
qed

end
