(* ===== verification/Json.thy ===== *)
theory Json
  imports Prelude
begin

text \<open>
  JSON documents as the token stream of \<^verbatim>\<open>json.Decoder\<close> presents them: the members of an object
  in the order of the text, repeated names included. The strict traversal of
  \<^verbatim>\<open>src/agent/continuation_codec.go\<close> that refuses a repeated member name is defined over it.
\<close>

datatype json = JNull | JBool bool | JNumber string | JString string | JArray "json list"
  | JObject "(string \<times> json) list"

text \<open>
  \<^verbatim>\<open>consumeContinuationJSONObject\<close> and \<^verbatim>\<open>consumeContinuationJSONValue\<close>: \<open>True\<close> is the nil error,
  \<open>seen\<close> holds the member names already met.
\<close>

fun consumeContinuationJSONValue :: "json \<Rightarrow> bool"
and consumeContinuationJSONObject :: "string set \<Rightarrow> (string \<times> json) list \<Rightarrow> bool"
and consumeContinuationJSONArray :: "json list \<Rightarrow> bool" where
  "consumeContinuationJSONValue (JObject members) = consumeContinuationJSONObject {} members"
| "consumeContinuationJSONValue (JArray items) = consumeContinuationJSONArray items"
| "consumeContinuationJSONValue _ = True"
| "consumeContinuationJSONObject seen [] = True"
| "consumeContinuationJSONObject seen ((key, val) # members) =
     (key \<notin> seen \<and> consumeContinuationJSONValue val
      \<and> consumeContinuationJSONObject (insert key seen) members)"
| "consumeContinuationJSONArray [] = True"
| "consumeContinuationJSONArray (item # items) =
     (consumeContinuationJSONValue item \<and> consumeContinuationJSONArray items)"

text \<open>\<^verbatim>\<open>validateContinuationJSONDocument\<close> on a document that the decoder can read to its end.\<close>

definition validateContinuationJSONDocument :: "json \<Rightarrow> bool" where
  "validateContinuationJSONDocument document =
     (case document of JObject members \<Rightarrow> consumeContinuationJSONObject {} members | _ \<Rightarrow> False)"

text \<open>What the traversal establishes: no object of the document repeats a member name.\<close>

fun uniqueMembers :: "json \<Rightarrow> bool" where
  "uniqueMembers (JObject members) \<longleftrightarrow>
     distinct (map fst members) \<and> list_all (\<lambda>member. uniqueMembers (snd member)) members"
| "uniqueMembers (JArray items) \<longleftrightarrow> list_all uniqueMembers items"
| "uniqueMembers _ \<longleftrightarrow> True"

lemma consume_iff:
  "consumeContinuationJSONValue val \<longleftrightarrow> uniqueMembers val"
  "consumeContinuationJSONObject seen members \<longleftrightarrow>
     seen \<inter> fst ` set members = {} \<and> distinct (map fst members)
     \<and> list_all (\<lambda>member. uniqueMembers (snd member)) members"
  "consumeContinuationJSONArray items \<longleftrightarrow> list_all uniqueMembers items"
  by (induction val and seen members and items
      rule: consumeContinuationJSONValue_consumeContinuationJSONObject_consumeContinuationJSONArray.induct)
    auto

end
