(* ===== verification/Tool_Bus.thy ===== *)
theory Tool_Bus
  imports Tool_Interceptor Json
begin

text \<open>
  The tool registry and the execution of single calls and sequential batches (\<^verbatim>\<open>src/tool/tool.go\<close>,
  \<^verbatim>\<open>src/tool/validation.go\<close>).

  The maps \<^verbatim>\<open>drivers\<close>, \<^verbatim>\<open>definitions\<close> and \<^verbatim>\<open>validations\<close> of a bus always have the same keys, so a bus
  holds one association list of entries; \<open>bus_limiters\<close> gives the capacity of every concurrency group.
  \<open>Env\<close> holds what an execution depends on beyond the bus: \<open>en_parse\<close> is the JSON decoder on an argument
  payload (the first value, with the members of objects in the order of the text, and what follows it:
  \<open>None\<close> at the end of the input), \<open>en_marshal\<close> is \<^verbatim>\<open>json.Marshal\<close> on a call, \<open>en_acquire\<close> is the error with
  which waiting for the permit of a group ends, and the interceptor and sink of the options. The schema
  compiler is third-party code: \<open>compile\<close> gives its error, or the validator of a decoded value. Deadlines
  reach the model only through \<open>en_acquire\<close> and through what drivers do.
\<close>

section \<open>Definitions\<close>

datatype ToolConcurrencyMode = ConcurrencyParallel | ConcurrencySequential | ConcurrencyExclusive
  | ConcurrencyOther string

datatype JSONSchema = JSONSchema
  (js_Type: string)
  (js_Description: string)
  (js_Properties: "(string \<times> JSONSchema) list")
  (js_Required: "string list")
  (js_Items: "JSONSchema option")
  (js_Enum: "string list")
  (js_AdditionalProperties: "bool option")

record ToolDefinition =
  td_Name :: string
  td_Description :: string
  td_InputSchema :: JSONSchema
  td_Terminal :: bool
  td_Timeout :: duration
  td_Concurrency :: ToolConcurrencyMode
  td_ConcurrencyGroup :: string
  td_MaxConcurrency :: int

record Driver =
  dr_Definition :: ToolDefinition
  dr_Execute :: "ToolCall \<Rightarrow> driverRun"

section \<open>Argument validation\<close>

type_synonym schemaCheck = "json \<Rightarrow> goError option"
type_synonym compiler = "JSONSchema \<Rightarrow> goError + schemaCheck"

record argumentValidation =
  av_schema :: schemaCheck
  av_err :: "goError option"

definition maxArgumentBytes :: int where
  "maxArgumentBytes = 1048576"

definition maxArgumentDepth :: int where
  "maxArgumentDepth = 128"

definition compileArgumentValidation :: "compiler \<Rightarrow> ToolDefinition \<Rightarrow> argumentValidation" where
  "compileArgumentValidation compile definition0 =
     (case compile (td_InputSchema definition0) of
        Inl err \<Rightarrow> \<lparr>av_schema = (\<lambda>_. None),
          av_err = Some (Wrapped ('' for '' @ td_Name definition0) (SentinelError ''tool.ErrInvalidToolSchema''))\<rparr>
      | Inr check \<Rightarrow> \<lparr>av_schema = check, av_err = None\<rparr>)"

text \<open>
  \<^verbatim>\<open>decodeArgumentValue\<close> on the document the decoder presents; \<open>seen\<close> are the keys already stored in the
  object, \<open>depth\<close> is the nesting of the value.
\<close>

fun decodeArgumentValue :: "json \<Rightarrow> int \<Rightarrow> goError + json"
and decodeMembers :: "(string \<times> json) list \<Rightarrow> int \<Rightarrow> string set \<Rightarrow> goError + (string \<times> json) list"
and decodeItems :: "json list \<Rightarrow> int \<Rightarrow> goError + json list" where
  "decodeArgumentValue document depth =
     (if depth > maxArgumentDepth then Inl (TextError ''JSON nesting exceeds 128 levels'')
      else case document of
        JObject members \<Rightarrow> map_sum id JObject (decodeMembers members depth {})
      | JArray items \<Rightarrow> map_sum id JArray (decodeItems items depth)
      | scalar \<Rightarrow> Inr scalar)"
| "decodeMembers [] depth seen = Inr []"
| "decodeMembers ((key, val) # members) depth seen =
     (if key \<in> seen then Inl (Wrapped key (SentinelError ''tool.ErrDuplicateArgumentKey''))
      else case decodeArgumentValue val (depth + 1) of
        Inl err \<Rightarrow> Inl err
      | Inr decoded \<Rightarrow> map_sum id (Cons (key, decoded)) (decodeMembers members depth (insert key seen)))"
| "decodeItems [] depth = Inr []"
| "decodeItems (item # items) depth =
     (case decodeArgumentValue item (depth + 1) of
        Inl err \<Rightarrow> Inl err
      | Inr decoded \<Rightarrow> map_sum id (Cons decoded) (decodeItems items depth))"

type_synonym argumentParser = "bytes \<Rightarrow> goError + json \<times> goError option option"

abbreviation invalidArguments :: "string \<Rightarrow> goError" where
  "invalidArguments detail \<equiv> Wrapped detail (SentinelError ''tool.ErrInvalidArguments'')"

text \<open>
  \<^verbatim>\<open>argumentValidation.validate\<close>. After the value the parser reports the end of the input (\<open>None\<close>), a
  further token (\<open>Some None\<close>) or an error.
\<close>

definition validateArguments ::
    "argumentParser \<Rightarrow> (goError \<Rightarrow> string) \<Rightarrow> argumentValidation \<Rightarrow> bytes \<Rightarrow> goError option" where
  "validateArguments parse errorText validation arguments0 =
     (case av_err validation of
        Some err \<Rightarrow> Some err
      | None \<Rightarrow>
          let arguments = (if blank arguments0 then ''{}'' else arguments0)
          in if int (length arguments) > maxArgumentBytes
             then Some (invalidArguments ''payload exceeds 1048576 bytes'')
             else case parse arguments of
               Inl err \<Rightarrow> Some (invalidArguments (errorText err))
             | Inr (document, trailing) \<Rightarrow>
                 (case decodeArgumentValue document 0 of
                    Inl err \<Rightarrow> Some (invalidArguments (errorText err))
                  | Inr val \<Rightarrow>
                      (case trailing of
                         Some (Some err) \<Rightarrow> Some (invalidArguments (''trailing data: '' @ errorText err))
                       | Some None \<Rightarrow> Some (invalidArguments ''trailing data: multiple JSON values'')
                       | None \<Rightarrow>
                           (case av_schema validation val of
                              Some err \<Rightarrow> Some (invalidArguments (errorText err))
                            | None \<Rightarrow> None))))"

section \<open>The registry\<close>

record busEntry =
  be_driver :: Driver
  be_definition :: ToolDefinition
  be_validation :: argumentValidation

record Bus =
  bus_entries :: "(string \<times> busEntry) list"
  bus_limiters :: "(string \<times> int) list"
  bus_err :: "goError option"

abbreviation invalidDefinition :: "string \<Rightarrow> goError" where
  "invalidDefinition detail \<equiv> Wrapped detail (SentinelError ''tool.ErrInvalidToolDefinition'')"

text \<open>\<^verbatim>\<open>concurrencySpec\<close>: the group and its capacity, the empty group when there is no limit.\<close>

definition concurrencySpec :: "ToolDefinition \<Rightarrow> goError + string \<times> int" where
  "concurrencySpec definition0 =
     (let mode = (if td_Concurrency definition0 = ConcurrencyOther [] then ConcurrencyParallel
                  else td_Concurrency definition0);
          capacity0 = td_MaxConcurrency definition0;
          group0 = trimSpace (td_ConcurrencyGroup definition0);
          limited = (\<lambda>capacity.
            if capacity = 0 then Inr ([], 0)
            else Inr (if group0 = [] then td_Name definition0 else group0, capacity))
      in if capacity0 < 0 then Inl (invalidDefinition (td_Name definition0 @ '' has negative max concurrency''))
         else case mode of
           ConcurrencyParallel \<Rightarrow> limited capacity0
         | ConcurrencyOther other \<Rightarrow>
             Inl (invalidDefinition (td_Name definition0 @ '' has concurrency mode '' @ other))
         | _ \<Rightarrow>
             if capacity0 > 1
             then Inl (invalidDefinition (td_Name definition0 @ '' requires max concurrency 0 or 1''))
             else limited 1)"

definition emptyBus :: Bus where
  "emptyBus = \<lparr>bus_entries = [], bus_limiters = [], bus_err = None\<rparr>"

definition Register :: "compiler \<Rightarrow> Bus \<Rightarrow> Driver option \<Rightarrow> Bus \<times> goError option" where
  "Register compile bus driver0 =
     (case driver0 of
        None \<Rightarrow> (bus, Some (invalidDefinition ''driver is nil''))
      | Some driver \<Rightarrow>
          let definition0 = dr_Definition driver;
              name = td_Name definition0;
              validation = compileArgumentValidation compile definition0
          in if name = [] then (bus, Some (invalidDefinition ''name is empty''))
             else case av_err validation of
               Some err \<Rightarrow> (bus, Some err)
             | None \<Rightarrow>
                 (case concurrencySpec definition0 of
                    Inl err \<Rightarrow> (bus, Some err)
                  | Inr (limiterKey, limiterCapacity) \<Rightarrow>
                      if map_of (bus_entries bus) name \<noteq> None
                      then (bus, Some (Wrapped name (SentinelError ''tool.ErrDuplicateToolName'')))
                      else
                        let existing = map_of (bus_limiters bus) limiterKey
                        in if limiterKey \<noteq> [] \<and> existing \<noteq> None \<and> existing \<noteq> Some limiterCapacity
                           then (bus, Some (invalidDefinition (''concurrency group '' @ limiterKey)))
                           else
                             (bus\<lparr>bus_limiters := (if limiterKey \<noteq> [] \<and> existing = None
                                                   then (limiterKey, limiterCapacity) # bus_limiters bus
                                                   else bus_limiters bus),
                                  bus_entries := (name, \<lparr>be_driver = driver, be_definition = definition0,
                                                         be_validation = validation\<rparr>) # bus_entries bus\<rparr>, None)))"

text \<open>\<^verbatim>\<open>errors.Join(existing, err)\<close>.\<close>

definition joinErr :: "goError option \<Rightarrow> goError \<Rightarrow> goError option" where
  "joinErr existing err = Some (JoinError (case existing of None \<Rightarrow> [err] | Some e \<Rightarrow> [e, err]))"

fun registerAll :: "compiler \<Rightarrow> Bus \<Rightarrow> Driver option list \<Rightarrow> Bus" where
  "registerAll compile bus [] = bus"
| "registerAll compile bus (driver # drivers) =
     (case Register compile bus driver of
        (bus1, None) \<Rightarrow> registerAll compile bus1 drivers
      | (bus1, Some err) \<Rightarrow> registerAll compile (bus1\<lparr>bus_err := joinErr (bus_err bus1) err\<rparr>) drivers)"

definition NewBus :: "compiler \<Rightarrow> Driver option list \<Rightarrow> Bus" where
  "NewBus compile drivers = registerAll compile emptyBus drivers"

definition Validate :: "Bus option \<Rightarrow> goError option" where
  "Validate bus = (case bus of None \<Rightarrow> None | Some b \<Rightarrow> bus_err b)"

definition Definitions :: "Bus \<Rightarrow> ToolDefinition list" where
  "Definitions bus = sort_key td_Name (map (be_definition \<circ> snd) (bus_entries bus))"

definition IsTerminal :: "Bus \<Rightarrow> string \<Rightarrow> bool" where
  "IsTerminal bus name = (case map_of (bus_entries bus) name of None \<Rightarrow> False | Some entry \<Rightarrow> td_Terminal (be_definition entry))"

definition DriverOf :: "Bus \<Rightarrow> string \<Rightarrow> Driver option" where
  "DriverOf bus name = map_option be_driver (map_of (bus_entries bus) name)"

definition Clone :: "Bus option \<Rightarrow> Bus" where
  "Clone bus = (case bus of None \<Rightarrow> emptyBus | Some b \<Rightarrow> b)"

text \<open>
  \<^verbatim>\<open>MapDrivers\<close>: the mapper answers nil or a driver; an entry whose mapped driver is refused keeps the
  driver of the source bus.
\<close>

fun mapEntries ::
    "(ToolDefinition \<Rightarrow> Driver \<Rightarrow> Driver option) \<Rightarrow> (string \<times> busEntry) list \<Rightarrow> goError option
       \<Rightarrow> (string \<times> busEntry) list \<times> goError option" where
  "mapEntries mapper [] err = ([], err)"
| "mapEntries mapper ((name, entry) # entries) err =
     (case mapper (be_definition entry) (be_driver entry) of
        None \<Rightarrow>
          (case mapEntries mapper entries (joinErr err (invalidDefinition (''mapped driver '' @ name @ '' is nil''))) of
             (rest, err1) \<Rightarrow> ((name, entry) # rest, err1))
      | Some mapped \<Rightarrow>
          if td_Name (dr_Definition mapped) \<noteq> name then
            (case mapEntries mapper entries (joinErr err (invalidDefinition
                     (''mapped driver renamed '' @ name @ '' to '' @ td_Name (dr_Definition mapped)))) of
               (rest, err1) \<Rightarrow> ((name, entry) # rest, err1))
          else
            (case mapEntries mapper entries err of
               (rest, err1) \<Rightarrow> ((name, entry\<lparr>be_driver := mapped\<rparr>) # rest, err1)))"

definition MapDrivers :: "(ToolDefinition \<Rightarrow> Driver \<Rightarrow> Driver option) option \<Rightarrow> Bus option \<Rightarrow> Bus" where
  "MapDrivers mapper bus =
     (case (bus, mapper) of
        (Some b, Some f) \<Rightarrow>
          (case mapEntries f (bus_entries b) (bus_err b) of
             (entries, err) \<Rightarrow> b\<lparr>bus_entries := entries, bus_err := err\<rparr>)
      | _ \<Rightarrow> Clone bus)"

fun subsetLoop :: "Bus \<Rightarrow> string list \<Rightarrow> string set \<Rightarrow> Bus \<Rightarrow> Bus" where
  "subsetLoop bus [] seen chosen = chosen"
| "subsetLoop bus (name # names) seen chosen =
     (if name \<in> seen
      then subsetLoop bus names seen
             (chosen\<lparr>bus_err := joinErr (bus_err chosen) (Wrapped name (SentinelError ''tool.ErrDuplicateToolName''))\<rparr>)
      else subsetLoop bus names (insert name seen)
             (case map_of (bus_entries bus) name of
                None \<Rightarrow> chosen
              | Some entry \<Rightarrow> chosen\<lparr>bus_entries := bus_entries chosen @ [(name, entry)]\<rparr>))"

definition Subset :: "Bus option \<Rightarrow> string list \<Rightarrow> Bus" where
  "Subset bus names =
     (case bus of
        None \<Rightarrow> emptyBus
      | Some b \<Rightarrow> if names = [] then emptyBus
                  else subsetLoop b names {} \<lparr>bus_entries = [], bus_limiters = bus_limiters b, bus_err = bus_err b\<rparr>)"

section \<open>Execution\<close>

record Env =
  en_parse :: argumentParser
  en_errorText :: "goError \<Rightarrow> string"
  en_marshal :: "ToolCall \<Rightarrow> goError + bytes"
  en_acquire :: "string \<Rightarrow> goError option"
  en_interceptor :: "Interceptor option"
  en_sink :: sink

text \<open>\<^verbatim>\<open>Execute\<close>: the calls that reached the driver, and the outcome.\<close>

definition Execute :: "Bus \<Rightarrow> Env \<Rightarrow> ToolCall \<Rightarrow> ToolCall list \<times> execOutcome" where
  "Execute bus env call =
     (let failed = (\<lambda>err. ([], Returned zeroToolResult (Some err)))
      in case Validate (Some bus) of
           Some err \<Rightarrow> failed err
         | None \<Rightarrow>
             (case map_of (bus_entries bus) (tc_Name call) of
                None \<Rightarrow> failed (Wrapped (tc_Name call) (SentinelError ''tool.ErrToolNotFound''))
              | Some entry \<Rightarrow>
                  (case av_err (be_validation entry) of
                     Some err \<Rightarrow> failed err
                   | None \<Rightarrow>
                       (case validateArguments (en_parse env) (en_errorText env) (be_validation entry)
                               (tc_Arguments call) of
                          Some err \<Rightarrow>
                            ([], Returned (SyncLegacyToolContent (zeroToolResult\<lparr>tr_ToolCallID := tc_ID call,
                               tr_Name := tc_Name call, tr_Content := tc_Name call @ '' rejected: '' @ en_errorText env err,
                               tr_IsError := True\<rparr>)) None)
                        | None \<Rightarrow>
                            let key = (case concurrencySpec (be_definition entry) of Inl _ \<Rightarrow> [] | Inr (k, _) \<Rightarrow> k);
                                waited = (if map_of (bus_limiters bus) key = None then None else en_acquire env key);
                                terminal = terminalExecute (en_sink env) (dr_Execute (be_driver entry))
                            in case waited of
                                 Some err \<Rightarrow> failed (JoinError [notExecuted, err])
                               | None \<Rightarrow>
                                   (case ChainInterceptors (en_marshal env) [en_interceptor env] of
                                      None \<Rightarrow> terminal call
                                    | Some chain \<Rightarrow> chain terminal call)))))"

definition MaxBatchCalls :: int where
  "MaxBatchCalls = 1024"

definition DefaultBatchConcurrency :: nat where
  "DefaultBatchConcurrency = 32"

definition requiresSequential :: "Bus \<Rightarrow> ToolCall list \<Rightarrow> bool" where
  "requiresSequential bus calls \<longleftrightarrow>
     list_ex (\<lambda>call. case map_of (bus_entries bus) (tc_Name call) of None \<Rightarrow> False
       | Some entry \<Rightarrow> td_Concurrency (be_definition entry) = ConcurrencySequential) calls"

text \<open>
  The outcome of a batch: the results, and one failure per call that has none (the \<^verbatim>\<open>Failures\<close> of a
  \<^verbatim>\<open>BatchExecutionError\<close>, which is nil when there are none); a refused batch; or a panic of a driver that
  reached the caller's stack.
\<close>

datatype batchOutcome = Batch "ToolResult list" "(string \<times> goError) list" | BatchRefused goError | BatchPanicked string

fun executeSequential ::
    "(ToolCall \<Rightarrow> ToolCall list \<times> execOutcome) \<Rightarrow> ToolCall list \<Rightarrow> ToolCall list \<Rightarrow> ToolResult list
       \<Rightarrow> ToolCall list \<times> batchOutcome" where
  "executeSequential execute [] executed results = (executed, Batch results [])"
| "executeSequential execute (call # calls) executed results =
     (case execute call of
        (reached, Panicked reason) \<Rightarrow> (executed @ reached, BatchPanicked reason)
      | (reached, Returned _ (Some err)) \<Rightarrow>
          (executed @ reached,
           Batch results ((tc_ID call, err) # map (\<lambda>skipped. (tc_ID skipped, JoinError [notExecuted, ContextCanceled])) calls))
      | (reached, Returned result None) \<Rightarrow>
          executeSequential execute calls (executed @ reached) (results @ [result]))"

text \<open>\<^verbatim>\<open>NotExecutedCallIDs\<close> on the failures of a batch error.\<close>

definition NotExecutedCallIDs :: "(string \<times> goError) list \<Rightarrow> string set \<times> bool" where
  "NotExecutedCallIDs failures =
     (if failures = [] then ({}, False)
      else (set (map fst (filter (\<lambda>(_, err). isSentinel ''tool.ErrNotExecuted'' err) failures)),
            list_all (\<lambda>(_, err). isSentinel ''tool.ErrNotExecuted'' err) failures))"

end
