(* ===== verification/Message_Turns.thy ===== *)
theory Message_Turns
  imports Message
begin

text \<open>
  What \<^verbatim>\<open>src/message/history.go\<close> promises about tool turns. \<open>validHistory\<close> is the shape of
  the histories \<^verbatim>\<open>ValidateCompleteTurns\<close> accepts, independent of positions; it is the
  induction rule of every proof about the two cutting loops. \<open>answeredHistory\<close> is the
  specification in the words of the documentation: every tool-call message is directly
  followed by one result per call, the results answering a permutation of the calls.
\<close>

section \<open>The accepted histories\<close>

lemma matchResults_cong:
  "n \<le> length rest \<Longrightarrow> n \<le> length rest' \<Longrightarrow> take n rest = take n rest' \<Longrightarrow>
   (matchResults calls cis i ri n rest matched = None) =
   (matchResults calls cis j rj n rest' matched = None)"
proof (induction n arbitrary: ri rj rest rest' matched)
  case (Suc n)
  then obtain x xs ys where "rest = x # xs" "rest' = x # ys" by (cases rest; cases rest') auto
  with Suc show ?case by (simp split: option.splits)
qed simp

lemma matchResults_length:
  "matchResults calls cis i ri n rest matched = None \<Longrightarrow> n \<le> length rest"
proof (induction n arbitrary: ri rest matched)
  case (Suc n)
  then show ?case by (cases rest) (auto split: if_splits option.splits)
qed simp

text \<open>
  One assistant message with its results, and a message that takes part in no exchange.
\<close>

definition validTurn :: "Message \<Rightarrow> Message list \<Rightarrow> bool" where
  "validTurn msg results \<longleftrightarrow>
     m_Role msg = RoleAssistant \<and> m_ToolResult msg = None \<and> m_ToolCalls msg \<noteq> [] \<and>
     length results = length (m_ToolCalls msg) \<and>
     (\<exists>cis. indexCalls 0 (m_ToolCalls msg) Map.empty = Inr cis \<and>
       matchResults (m_ToolCalls msg) cis 0 1 (length (m_ToolCalls msg)) results
         (replicate (length (m_ToolCalls msg)) False) = None)"

definition plainMessage :: "Message \<Rightarrow> bool" where
  "plainMessage msg \<longleftrightarrow> m_ToolCalls msg = [] \<and> m_ToolResult msg = None \<and> m_Role msg \<noteq> RoleTool"

inductive validHistory :: "Message list \<Rightarrow> bool" where
  vh_Nil: "validHistory []"
| vh_plain: "plainMessage msg \<Longrightarrow> validHistory rest \<Longrightarrow> validHistory (msg # rest)"
| vh_turn: "validTurn msg results \<Longrightarrow> validHistory rest \<Longrightarrow> validHistory (msg # results @ rest)"

lemma validateFrom_None_iff: "validateFrom index msgs = None \<longleftrightarrow> validHistory msgs"
proof
  show "validateFrom index msgs = None \<Longrightarrow> validHistory msgs"
  proof (induction index msgs rule: validateFrom.induct)
    case (2 index msg rest)
    show ?case
    proof (cases "m_ToolCalls msg = []")
      case True
      with 2 show ?thesis by (auto simp: plainMessage_def split: if_splits intro: vh_plain)
    next
      case False
      let ?n = "length (m_ToolCalls msg)"
      obtain cis where cis: "indexCalls 0 (m_ToolCalls msg) Map.empty = Inr cis"
        and m: "matchResults (m_ToolCalls msg) cis index (Suc index) ?n rest (replicate ?n False) = None"
        and v: "validateFrom (index + ?n + 1) (drop ?n rest) = None"
        and r: "m_Role msg = RoleAssistant" "m_ToolResult msg = None"
        using 2(3) False by (auto split: if_splits sum.splits option.splits)
      have len: "?n \<le> length rest" using m by (rule matchResults_length)
      have "validTurn msg (take ?n rest)"
        unfolding validTurn_def
      proof (intro conjI exI)
        show "matchResults (m_ToolCalls msg) cis 0 1 ?n (take ?n rest) (replicate ?n False) = None"
          using m len matchResults_cong [of ?n "take ?n rest" rest "m_ToolCalls msg" cis 0 1
            "replicate ?n False" index "Suc index"] by simp
      qed (use False r cis len in auto)
      moreover have "validHistory (drop ?n rest)"
        using 2(2) [OF _ _ _ False cis m] v r False by auto
      ultimately show ?thesis using vh_turn [of msg "take ?n rest" "drop ?n rest"] by simp
    qed
  qed (rule vh_Nil)
  show "validHistory msgs \<Longrightarrow> validateFrom index msgs = None"
  proof (induction msgs arbitrary: index rule: validHistory.induct)
    case (vh_turn msg results rest)
    let ?n = "length (m_ToolCalls msg)"
    from vh_turn(1) obtain cis where cis: "indexCalls 0 (m_ToolCalls msg) Map.empty = Inr cis"
      and m: "matchResults (m_ToolCalls msg) cis 0 1 ?n results (replicate ?n False) = None"
      and l: "length results = ?n" by (auto simp: validTurn_def)
    have "matchResults (m_ToolCalls msg) cis index (Suc index) ?n (results @ rest) (replicate ?n False) = None"
      using m l matchResults_cong [of ?n results "results @ rest" "m_ToolCalls msg" cis 0 1
        "replicate ?n False" index "Suc index"] by simp
    with vh_turn cis l show ?case by (simp add: validTurn_def)
  qed (auto simp: plainMessage_def)
qed

lemma valid_iff: "ValidateCompleteTurns msgs = None \<longleftrightarrow> validHistory msgs"
  by (simp add: ValidateCompleteTurns_def validateFrom_None_iff)

lemma validHistory_append: "validHistory xs \<Longrightarrow> validHistory ys \<Longrightarrow> validHistory (xs @ ys)"
  by (induction rule: validHistory.induct) (auto intro: validHistory.intros)

inductive_cases validHistory_ConsE: "validHistory (msg # rest)"

lemma validHistory_turnE:
  assumes "validHistory (msg # rest)" and "m_ToolCalls msg \<noteq> []"
  obtains "validTurn msg (take (length (m_ToolCalls msg)) rest)"
    "length (m_ToolCalls msg) \<le> length rest" "validHistory (drop (length (m_ToolCalls msg)) rest)"
  using assms by (elim validHistory_ConsE) (auto simp: plainMessage_def validTurn_def)

lemma validHistory_plainE:
  assumes "validHistory (msg # rest)" and "m_ToolCalls msg = []"
  obtains "plainMessage msg" "validHistory rest"
  using assms by (elim validHistory_ConsE) (auto simp: plainMessage_def validTurn_def)

section \<open>Cutting\<close>

lemma boundaryLoop_before: "start \<le> index \<Longrightarrow> boundaryLoop n start index msgs = start"
  by (induction n start index msgs rule: boundaryLoop.induct) (auto simp: Let_def)

lemma cacheLoop_before: "boundary \<le> index \<Longrightarrow> cacheLoop boundary index msgs = boundary"
  by (induction boundary index msgs rule: cacheLoop.induct) (auto simp: Let_def)

lemma boundaryLoop_turn:
  assumes "validTurn msg results"
  shows "boundaryLoop n start index (msg # results @ rest) =
    (if index < start \<and> start < index + length results + 1 then
       (if index + length results + 1 < n then index + length results + 1 else index)
     else boundaryLoop n start (index + length results + 1) rest)"
  using assms by (simp add: validTurn_def Let_def)

lemma cacheLoop_turn:
  assumes "validTurn msg results"
  shows "cacheLoop boundary index (msg # results @ rest) =
    (if index < boundary \<and> boundary < index + length results + 1 then index + length results + 1
     else cacheLoop boundary (index + length results + 1) rest)"
  using assms by (simp add: validTurn_def Let_def)

lemma loop_plain:
  assumes "plainMessage msg"
  shows "boundaryLoop n start index (msg # rest) = boundaryLoop n start (Suc index) rest"
    and "cacheLoop boundary index (msg # rest) = cacheLoop boundary (Suc index) rest"
  using assms by (simp_all add: plainMessage_def)

lemmas loop_simps = boundaryLoop_turn cacheLoop_turn loop_plain boundaryLoop_before cacheLoop_before

declare boundaryLoop.simps(2) [simp del] cacheLoop.simps(2) [simp del]

definition cleanCut :: "nat \<Rightarrow> Message list \<Rightarrow> bool" where
  "cleanCut n msgs \<longleftrightarrow> n \<le> length msgs \<and> validHistory (take n msgs) \<and> validHistory (drop n msgs)"

lemma cleanCut_0 [simp]: "cleanCut 0 msgs \<longleftrightarrow> validHistory msgs"
  by (auto simp: cleanCut_def intro: vh_Nil)

lemma cleanCut_plain:
  "plainMessage msg \<Longrightarrow> cleanCut (Suc n) (msg # rest) \<longleftrightarrow> cleanCut n rest"
  by (auto simp: cleanCut_def intro: vh_plain elim: validHistory_plainE [of msg] simp: plainMessage_def)

lemma cleanCut_turn:
  assumes "validTurn msg results"
  shows "cleanCut (Suc (length results) + n) (msg # results @ rest) \<longleftrightarrow> cleanCut n rest"
  using assms
  by (auto simp: cleanCut_def validTurn_def intro: vh_turn [OF assms] elim: validHistory_turnE [of msg])

lemma cleanCut_inside:
  assumes "validTurn msg results" and "0 < n" and "n \<le> length results"
  shows "\<not> validHistory (take n (msg # results @ rest))"
proof
  assume "validHistory (take n (msg # results @ rest))"
  then have "validHistory (msg # take (n - 1) results)" using assms by (cases n) auto
  then show False using assms by (elim validHistory_turnE) (auto simp: validTurn_def)
qed

lemma boundaryLoop_cut:
  assumes "validHistory msgs" and "index \<le> start" and "start \<le> index + length msgs"
  shows "index \<le> boundaryLoop (index + length msgs) start index msgs \<and>
    cleanCut (boundaryLoop (index + length msgs) start index msgs - index) msgs"
  using assms
proof (induction msgs arbitrary: index rule: validHistory.induct)
  case (vh_plain msg rest)
  show ?case
  proof (cases "start = index")
    case True
    then show ?thesis using vh_plain
      by (simp add: boundaryLoop_before validHistory.vh_plain)
  next
    case False
    let ?r = "boundaryLoop (Suc index + length rest) start (Suc index) rest"
    have IH: "Suc index \<le> ?r" "cleanCut (?r - Suc index) rest"
      using vh_plain(3) [of "Suc index"] vh_plain(4,5) False by auto
    then have "cleanCut (Suc (?r - Suc index)) (msg # rest)" using vh_plain(1) by (simp add: cleanCut_plain)
    moreover have "Suc (?r - Suc index) = ?r - index" using IH by simp
    ultimately show ?thesis using IH vh_plain(1) by (simp add: loop_simps)
  qed
next
  case (vh_turn msg results rest)
  have l: "length results = length (m_ToolCalls msg)" "m_ToolCalls msg \<noteq> []"
    using vh_turn(1) by (auto simp: validTurn_def)
  have whole: "validHistory (msg # results @ rest)" using vh_turn by (auto intro: validHistory.vh_turn)
  let ?e = "index + length results + 1"
  consider "start = index" | "index < start" "start < ?e" | "?e \<le> start" using vh_turn(4) by linarith
  then show ?case
  proof cases
    case 1
    then show ?thesis using whole by (simp add: boundaryLoop_before)
  next
    case 2
    then show ?thesis
      using whole cleanCut_turn [OF vh_turn(1), of 0 rest] vh_turn(2)
      by (auto simp add: loop_simps vh_turn(1))
  next
    case 3
    let ?r = "boundaryLoop (?e + length rest) start ?e rest"
    have IH: "?e \<le> ?r" "cleanCut (?r - ?e) rest" using vh_turn(3) [of ?e] vh_turn(5) 3 by auto
    have "cleanCut (Suc (length results) + (?r - ?e)) (msg # results @ rest)"
      using IH by (simp only: cleanCut_turn [OF vh_turn(1)])
    moreover have "Suc (length results) + (?r - ?e) = ?r - index" using IH(1) by linarith
    moreover have "boundaryLoop (index + length (msg # results @ rest)) start index (msg # results @ rest) = ?r"
      using 3 by (simp add: loop_simps vh_turn(1) add.assoc)
    ultimately show ?thesis using IH(1) by simp
  qed
qed (auto intro: validHistory.intros)

lemma boundaryLoop_fix:
  assumes "validHistory msgs" and "index \<le> start"
    and "validHistory (take (start - index) msgs)"
  shows "boundaryLoop n start index msgs = start"
  using assms
proof (induction msgs arbitrary: index rule: validHistory.induct)
  case (vh_plain msg rest)
  show ?case
  proof (cases "start = index")
    case False
    then obtain d where d: "start - index = Suc d" "start - Suc index = d"
      using vh_plain(4) by (metis Suc_diff_Suc diff_Suc_Suc le_neq_implies_less)
    with vh_plain have "validHistory (take d rest)" by (auto elim: validHistory_plainE simp: plainMessage_def)
    then show ?thesis using vh_plain d False by (simp add: loop_simps)
  qed (simp add: boundaryLoop_before)
next
  case (vh_turn msg results rest)
  have l: "length results = length (m_ToolCalls msg)" "m_ToolCalls msg \<noteq> []"
    using vh_turn(1) by (auto simp: validTurn_def)
  let ?e = "index + length results + 1"
  consider "start = index" | "index < start" "start < ?e" | "?e \<le> start" using vh_turn(4) by linarith
  then show ?case
  proof cases
    case 2
    then have "start - index \<le> length results" by linarith
    with 2 show ?thesis using cleanCut_inside [OF vh_turn(1), of "start - index" rest] vh_turn(5)
      by simp
  next
    case 3
    have "start - index = Suc (length results + (start - ?e))" using 3 by simp
    then have "validHistory (take (start - ?e) rest)"
      using vh_turn(5) l by (auto elim: validHistory_turnE)
    then show ?thesis using vh_turn(3) [of ?e] 3 by (simp add: loop_simps vh_turn(1))
  qed (simp add: boundaryLoop_before)
qed simp

lemma cacheLoop_cut:
  assumes "validHistory msgs" and "index \<le> boundary" and "boundary \<le> index + length msgs"
  shows "boundary \<le> cacheLoop boundary index msgs \<and>
    cleanCut (cacheLoop boundary index msgs - index) msgs"
  using assms
proof (induction msgs arbitrary: index rule: validHistory.induct)
  case (vh_plain msg rest)
  show ?case
  proof (cases "boundary = index")
    case True
    then show ?thesis using vh_plain by (simp add: loop_simps validHistory.vh_plain)
  next
    case False
    let ?r = "cacheLoop boundary (Suc index) rest"
    have IH: "boundary \<le> ?r" "cleanCut (?r - Suc index) rest"
      using vh_plain(3) [of "Suc index"] vh_plain(4,5) False by auto
    then have "cleanCut (Suc (?r - Suc index)) (msg # rest)" using vh_plain(1) by (simp add: cleanCut_plain)
    moreover have "Suc (?r - Suc index) = ?r - index" using IH(1) vh_plain(4) False by simp
    ultimately show ?thesis using IH vh_plain(1) by (simp add: loop_simps)
  qed
next
  case (vh_turn msg results rest)
  have whole: "validHistory (msg # results @ rest)" using vh_turn by (auto intro: validHistory.vh_turn)
  let ?e = "index + length results + 1"
  consider "boundary = index" | "index < boundary" "boundary < ?e" | "?e \<le> boundary"
    using vh_turn(4) by linarith
  then show ?case
  proof cases
    case 1
    then show ?thesis using whole by (simp add: loop_simps vh_turn(1))
  next
    case 2
    then show ?thesis
      using cleanCut_turn [OF vh_turn(1), of 0 rest] vh_turn(2) by (simp add: loop_simps vh_turn(1))
  next
    case 3
    let ?r = "cacheLoop boundary ?e rest"
    have IH: "boundary \<le> ?r" "cleanCut (?r - ?e) rest" using vh_turn(3) [of ?e] vh_turn(5) 3 by auto
    have "cleanCut (Suc (length results) + (?r - ?e)) (msg # results @ rest)"
      using IH by (simp only: cleanCut_turn [OF vh_turn(1)])
    moreover have "Suc (length results) + (?r - ?e) = ?r - index" using IH(1) 3 by linarith
    moreover have "cacheLoop boundary index (msg # results @ rest) = ?r"
      using 3 by (simp add: loop_simps vh_turn(1))
    ultimately show ?thesis using IH(1) by (simp only:)
  qed
qed (auto intro: validHistory.intros)

lemma cacheLoop_least:
  assumes "validHistory msgs" and "index \<le> boundary" and "boundary \<le> k"
    and "validHistory (take (k - index) msgs)"
  shows "cacheLoop boundary index msgs \<le> k"
  using assms
proof (induction msgs arbitrary: index rule: validHistory.induct)
  case (vh_plain msg rest)
  show ?case
  proof (cases "boundary = index")
    case False
    then have "k - index = Suc (k - Suc index)" using vh_plain(4,5) by linarith
    with vh_plain have "validHistory (take (k - Suc index) rest)"
      by (auto elim: validHistory_plainE simp: plainMessage_def)
    then show ?thesis using vh_plain False by (simp add: loop_simps)
  qed (use vh_plain in \<open>simp add: loop_simps\<close>)
next
  case (vh_turn msg results rest)
  have l: "length results = length (m_ToolCalls msg)" "m_ToolCalls msg \<noteq> []"
    using vh_turn(1) by (auto simp: validTurn_def)
  let ?e = "index + length results + 1"
  consider "boundary = index" | "index < boundary" "boundary < ?e" | "?e \<le> boundary"
    using vh_turn(4) by linarith
  then show ?case
  proof cases
    case 2
    have "\<not> k < ?e"
    proof
      assume "k < ?e"
      then have "k - index \<le> length results" "0 < k - index" using 2 vh_turn(5) by auto
      then show False using cleanCut_inside [OF vh_turn(1), of "k - index" rest] vh_turn(6) by simp
    qed
    then show ?thesis using 2 by (simp add: loop_simps vh_turn(1))
  next
    case 3
    have "k - index = Suc (length results + (k - ?e))" using 3 vh_turn(5) by simp
    then have "validHistory (take (k - ?e) rest)"
      using vh_turn(6) l by (auto elim: validHistory_turnE)
    then show ?thesis using vh_turn(3) [of ?e] 3 vh_turn(5) by (simp add: loop_simps vh_turn(1))
  qed (use vh_turn in \<open>simp add: loop_simps\<close>)
qed simp

lemma lastCacheBoundary_bounds:
  "boundary \<le> index \<Longrightarrow> lastCacheBoundary index msgs boundary \<le> index + length msgs"
  by (induction index msgs boundary rule: lastCacheBoundary.induct) (fastforce split: if_splits)+

lemma lastCacheBoundary_ge:
  "boundary \<le> index \<Longrightarrow> boundary \<le> lastCacheBoundary index msgs boundary"
  by (induction index msgs boundary rule: lastCacheBoundary.induct) (fastforce split: if_splits)+

lemma lastCacheBoundary_covers:
  "boundary \<le> index \<Longrightarrow> j < length msgs \<Longrightarrow> m_CacheBoundary (msgs ! j) \<Longrightarrow>
    index + j < lastCacheBoundary index msgs boundary"
proof (induction index msgs boundary arbitrary: j rule: lastCacheBoundary.induct)
  case (2 index msg rest boundary)
  then show ?case
    using lastCacheBoundary_ge [of "if m_CacheBoundary msg then index + 1 else boundary" "Suc index" rest]
    by (cases j) (fastforce split: if_splits)+
qed simp

lemma lastCacheBoundary_least:
  "(\<forall>j < length msgs. m_CacheBoundary (msgs ! j) \<longrightarrow> index + j < k) \<Longrightarrow> boundary \<le> k \<Longrightarrow>
    lastCacheBoundary index msgs boundary \<le> k"
proof (induction index msgs boundary rule: lastCacheBoundary.induct)
  case (2 index msg rest boundary)
  have "\<forall>j < length rest. m_CacheBoundary (rest ! j) \<longrightarrow> Suc index + j < k"
    using 2(2) by (metis Suc_less_eq add_Suc_shift length_Cons nth_Cons_Suc)
  moreover have "m_CacheBoundary msg \<Longrightarrow> index < k" using 2(2) by force
  ultimately show ?case using 2(1,3) by (cases "m_CacheBoundary msg") simp_all
qed simp


section \<open>The documented contract\<close>

text \<open>
  A result may answer a call when their IDs agree or when one of them has none.
\<close>

definition answers :: "ToolCall \<Rightarrow> ToolResult \<Rightarrow> bool" where
  "answers call result \<longleftrightarrow>
     tc_ID call = tr_ToolCallID result \<or> tc_ID call = [] \<or> tr_ToolCallID result = []"

definition resultMessage :: "Message \<Rightarrow> bool" where
  "resultMessage msg \<longleftrightarrow> m_Role msg = RoleTool \<and> m_ToolCalls msg = [] \<and> m_ToolResult msg \<noteq> None"

abbreviation "resultOf msg \<equiv> the (m_ToolResult msg)"

definition answeredTurn :: "Message \<Rightarrow> Message list \<Rightarrow> bool" where
  "answeredTurn msg results \<longleftrightarrow>
     m_Role msg = RoleAssistant \<and> m_ToolResult msg = None \<and> m_ToolCalls msg \<noteq> [] \<and>
     distinct (filter (\<lambda>i. i \<noteq> []) (map tc_ID (m_ToolCalls msg))) \<and>
     list_all resultMessage results \<and>
     (\<exists>calls. mset calls = mset (m_ToolCalls msg) \<and> list_all2 answers calls (map resultOf results))"

inductive answeredHistory :: "Message list \<Rightarrow> bool" where
  ah_Nil: "answeredHistory []"
| ah_plain: "plainMessage msg \<Longrightarrow> answeredHistory rest \<Longrightarrow> answeredHistory (msg # rest)"
| ah_turn: "answeredTurn msg results \<Longrightarrow> answeredHistory rest \<Longrightarrow> answeredHistory (msg # results @ rest)"

lemma indexCalls_keeps:
  "indexCalls k calls cis = Inr cis' \<Longrightarrow> cis i = Some n \<Longrightarrow> cis' i = Some n"
proof (induction k calls cis rule: indexCalls.induct)
  case (2 k call calls cis)
  then show ?case by (cases "i = tc_ID call") (auto simp: fun_upd_def split: if_splits option.splits)
qed simp

lemma indexCalls_sound:
  "indexCalls k calls cis = Inr cis' \<Longrightarrow> cis' i = Some n \<Longrightarrow> cis i = None \<Longrightarrow>
     \<exists>j < length calls. n = k + j \<and> tc_ID (calls ! j) = i"
proof (induction k calls cis rule: indexCalls.induct)
  case (2 k call calls cis)
  show ?case
  proof (cases "tc_ID call \<noteq> [] \<and> i = tc_ID call")
    case True
    with 2(3,5) have "indexCalls (Suc k) calls (cis(tc_ID call \<mapsto> k)) = Inr cis'" by simp
    then have "cis' i = Some k" using True by (auto dest: indexCalls_keeps)
    then show ?thesis using 2(4) True by auto
  next
    case False
    with 2 obtain j where "j < length calls" "n = Suc k + j" "tc_ID (calls ! j) = i"
      by (fastforce split: if_splits option.splits)
    then show ?thesis by (intro exI [of _ "Suc j"]) simp
  qed
qed simp

lemma indexCalls_complete:
  "indexCalls k calls cis = Inr cis' \<Longrightarrow> j < length calls \<Longrightarrow> tc_ID (calls ! j) \<noteq> [] \<Longrightarrow>
     cis' (tc_ID (calls ! j)) = Some (k + j)"
proof (induction k calls cis arbitrary: j rule: indexCalls.induct)
  case (2 k call calls cis)
  show ?case
  proof (cases j)
    case 0
    with 2(3,5) have "indexCalls (Suc k) calls (cis(tc_ID call \<mapsto> k)) = Inr cis'"
      by (simp split: option.splits)
    then show ?thesis using 0 by (auto dest: indexCalls_keeps)
  next
    case (Suc j')
    with 2 show ?thesis by (fastforce split: if_splits option.splits)
  qed
qed simp

abbreviation "givenIDs calls \<equiv> filter (\<lambda>i. i \<noteq> []) (map tc_ID calls)"

lemma fresh_keys_upd:
  "(\<forall>i \<in> S. (m(a \<mapsto> b)) i = None) \<longleftrightarrow> a \<notin> S \<and> (\<forall>i \<in> S. m i = None)"
  by (metis fun_upd_other fun_upd_same option.distinct(1))

lemma indexCalls_defined_iff:
  "(\<exists>cis'. indexCalls k calls cis = Inr cis') \<longleftrightarrow>
   distinct (givenIDs calls) \<and> (\<forall>i \<in> set (givenIDs calls). cis i = None)"
proof (induction k calls cis rule: indexCalls.induct)
  case (2 k call calls cis)
  show ?case
  proof (cases "tc_ID call = [] \<or> cis (tc_ID call) \<noteq> None")
    case True
    with 2(1) show ?thesis by auto
  next
    case False
    with 2(2) show ?thesis by (auto simp del: fun_upd_apply simp: fresh_keys_upd)
  qed
qed simp

lemma firstUnmatched_Some:
  "firstUnmatched P k calls matched = Some n \<Longrightarrow> length matched = length calls \<Longrightarrow>
   \<exists>j < length calls. n = k + j \<and> \<not> matched ! j \<and> P (calls ! j)"
proof (induction P k calls matched rule: firstUnmatched.induct)
  case (1 P k call calls seen matched)
  show ?case
  proof (cases "\<not> seen \<and> P call")
    case False
    with 1 obtain j where "j < length calls" "n = Suc k + j" "\<not> matched ! j" "P (calls ! j)"
      by (auto split: if_splits)
    then show ?thesis by (intro exI [of _ "Suc j"]) simp
  qed (use 1 in auto)
qed auto

lemma unmatchedCallIndex_Some:
  assumes "unmatchedCallIndex calls matched cis i = Some n" and "length matched = length calls"
    and "indexCalls 0 calls Map.empty = Inr cis"
  shows "n < length calls \<and> \<not> matched ! n \<and> (tc_ID (calls ! n) = i \<or> tc_ID (calls ! n) = [] \<or> i = [])"
  using assms(1,2) indexCalls_sound [OF assms(3), of i]
  by (auto simp: unmatchedCallIndex_def dest!: firstUnmatched_Some split: if_splits option.splits)

lemma matchResults_sound:
  assumes "indexCalls 0 calls Map.empty = Inr cis"
  shows "matchResults calls cis i ri n rest matched = None \<Longrightarrow> length matched = length calls \<Longrightarrow>
    list_all resultMessage (take n rest) \<and>
    (\<exists>ps. length ps = n \<and> distinct ps \<and> (\<forall>p \<in> set ps. p < length calls \<and> \<not> matched ! p) \<and>
       list_all2 answers (map (nth calls) ps) (map resultOf (take n rest)))"
proof (induction n arbitrary: ri rest matched)
  case (Suc n)
  then obtain msg rest' tr p where r: "rest = msg # rest'" "resultMessage msg" "m_ToolResult msg = Some tr"
    and u: "unmatchedCallIndex calls matched cis (tr_ToolCallID tr) = Some p"
    and m: "matchResults calls cis i (Suc ri) n rest' (matched[p := True]) = None"
    by (cases rest) (auto simp: resultMessage_def split: if_splits option.splits)
  have p: "p < length calls" "\<not> matched ! p" "answers (calls ! p) tr"
    using unmatchedCallIndex_Some [OF u Suc(3) assms] by (auto simp: answers_def)
  obtain ps where ps: "list_all resultMessage (take n rest')" "length ps = n" "distinct ps"
    "\<forall>q \<in> set ps. q < length calls \<and> \<not> matched[p := True] ! q"
    "list_all2 answers (map (nth calls) ps) (map resultOf (take n rest'))"
    using Suc.IH [OF m] Suc(3) by auto
  have "p \<notin> set ps" "\<forall>q \<in> set ps. q < length calls \<and> \<not> matched ! q"
    using ps(4) p Suc(3) by (auto simp: nth_list_update split: if_splits) 
  with r p ps show ?case by (intro conjI exI [of _ "p # ps"]) auto
qed simp

lemma validTurn_answered: "validTurn msg results \<Longrightarrow> answeredTurn msg results"
proof -
  assume v: "validTurn msg results"
  let ?calls = "m_ToolCalls msg"
  from v obtain cis where cis: "indexCalls 0 ?calls Map.empty = Inr cis"
    and m: "matchResults ?calls cis 0 1 (length ?calls) results (replicate (length ?calls) False) = None"
    and l: "length results = length ?calls"
    by (auto simp: validTurn_def)
  from matchResults_sound [OF cis m] l obtain ps where
    ps: "list_all resultMessage results" "length ps = length ?calls" "distinct ps"
      "\<forall>p \<in> set ps. p < length ?calls" "list_all2 answers (map (nth ?calls) ps) (map resultOf results)"
    by auto
  have "set ps = {..<length ?calls}"
    using ps(2-4) by (intro card_subset_eq) (auto simp: distinct_card)
  then have "mset ps = mset [0..<length ?calls]"
    using ps(3) by (metis atLeast_upt distinct_upt set_eq_iff_mset_eq_distinct)
  then have "mset (map (nth ?calls) ps) = mset ?calls"
    by (metis map_nth mset_map)
  moreover have "distinct (givenIDs ?calls)" using cis indexCalls_defined_iff by blast
  ultimately show ?thesis using v ps(1,5) unfolding answeredTurn_def validTurn_def by blast
qed

lemma validHistory_answered: "validHistory msgs \<Longrightarrow> answeredHistory msgs"
  by (induction rule: validHistory.induct) (auto intro: answeredHistory.intros validTurn_answered)

definition identified :: "Message \<Rightarrow> bool" where
  "identified msg \<longleftrightarrow> list_all (\<lambda>call. tc_ID call \<noteq> []) (m_ToolCalls msg) \<and>
     (case m_ToolResult msg of None \<Rightarrow> True | Some result \<Rightarrow> tr_ToolCallID result \<noteq> [])"

lemma matchResults_complete:
  assumes "indexCalls 0 calls Map.empty = Inr cis" and "\<forall>call \<in> set calls. tc_ID call \<noteq> []"
  shows "distinct ps \<Longrightarrow> \<forall>p \<in> set ps. p < length calls \<and> \<not> matched ! p \<Longrightarrow>
    length matched = length calls \<Longrightarrow>
    list_all2 (\<lambda>p msg. resultMessage msg \<and> tr_ToolCallID (resultOf msg) = tc_ID (calls ! p)) ps results \<Longrightarrow>
    matchResults calls cis i ri (length ps) results matched = None"
proof (induction ps arbitrary: ri results matched)
  case (Cons p ps)
  then obtain msg results' where r: "results = msg # results'" "resultMessage msg"
    "tr_ToolCallID (resultOf msg) = tc_ID (calls ! p)"
    "list_all2 (\<lambda>p msg. resultMessage msg \<and> tr_ToolCallID (resultOf msg) = tc_ID (calls ! p)) ps results'"
    by (auto simp: list_all2_Cons1)
  have p: "p < length calls" "\<not> matched ! p" "p \<notin> set ps" using Cons.prems by auto
  have "cis (tc_ID (calls ! p)) = Some p"
    using indexCalls_complete [OF assms(1) p(1)] assms(2) p(1) by simp
  then have u: "unmatchedCallIndex calls matched cis (tc_ID (calls ! p)) = Some p"
    using p assms(2) by (simp add: unmatchedCallIndex_def)
  have "matchResults calls cis i (Suc ri) (length ps) results' (matched[p := True]) = None"
    using Cons.prems r(4) p(3) by (intro Cons.IH) (auto simp: nth_list_update)
  then show ?case using r u by (auto simp: resultMessage_def)
qed simp

lemma answeredTurn_valid:
  assumes "answeredTurn msg results" and "identified msg" and "list_all identified results"
  shows "validTurn msg results"
proof -
  let ?calls = "m_ToolCalls msg"
  from assms(1) obtain calls where a: "m_Role msg = RoleAssistant" "m_ToolResult msg = None" "?calls \<noteq> []"
    "distinct (givenIDs ?calls)" "list_all resultMessage results" "mset calls = mset ?calls"
    "list_all2 answers calls (map resultOf results)"
    by (auto simp: answeredTurn_def)
  have ids: "\<forall>call \<in> set ?calls. tc_ID call \<noteq> []" using assms(2) by (auto simp: identified_def list_all_iff)
  from a(4) obtain cis where cis: "indexCalls 0 ?calls Map.empty = Inr cis"
    using indexCalls_defined_iff [of 0 ?calls Map.empty] by auto
  have sets: "set calls = set ?calls" using a(6) by (metis mset_eq_setD)
  define ps where "ps = map (\<lambda>call. the (cis (tc_ID call))) calls"
  have pos: "the (cis (tc_ID call)) < length ?calls \<and> ?calls ! the (cis (tc_ID call)) = call"
    if c: "call \<in> set ?calls" for call
  proof -
    obtain j where "j < length ?calls" "?calls ! j = call" using c by (auto simp: in_set_conv_nth)
    then show ?thesis using indexCalls_complete [OF cis, of j] ids by auto
  qed
  have "givenIDs ?calls = map tc_ID ?calls" using ids by (intro filter_True) auto
  then have "distinct (map tc_ID ?calls)" using a(4) by simp
  then have "distinct calls" using a(6) by (metis distinct_map mset_eq_imp_distinct_iff)
  moreover have "inj_on (\<lambda>call. the (cis (tc_ID call))) (set calls)"
    using pos sets by (intro inj_on_inverseI [of _ "nth ?calls"]) simp
  ultimately have "distinct ps" by (simp add: ps_def distinct_map)
  moreover have "list_all2 (\<lambda>p msg. resultMessage msg \<and> tr_ToolCallID (resultOf msg) = tc_ID (?calls ! p)) ps results"
    unfolding ps_def list_all2_map1
    using a(7) unfolding list_all2_map2
  proof (rule list.rel_mono_strong)
    fix call result assume "call \<in> set calls" "result \<in> set results" "answers call (resultOf result)"
    moreover from this have "resultMessage result" "identified result" "tc_ID call \<noteq> []"
      using a(5) assms(3) sets ids by (auto simp: list_all_iff)
    ultimately show "resultMessage result \<and> tr_ToolCallID (resultOf result) = tc_ID (?calls ! the (cis (tc_ID call)))"
      using pos [of call] sets
      by (auto simp: answers_def identified_def resultMessage_def)
  qed
  moreover have "length ps = length ?calls" unfolding ps_def using a(6) by (metis length_map size_mset)
  moreover have "length results = length ?calls"
    using a(6,7) by (metis length_map list_all2_lengthD size_mset)
  ultimately have "matchResults ?calls cis 0 1 (length ?calls) results (replicate (length ?calls) False) = None"
    using matchResults_complete [OF cis ids, of ps "replicate (length ?calls) False" results 0 1] pos sets
    by (auto simp: ps_def)
  then show ?thesis using a cis \<open>length results = length ?calls\<close> by (auto simp: validTurn_def)
qed

lemma answeredHistory_valid:
  "answeredHistory msgs \<Longrightarrow> list_all identified msgs \<Longrightarrow> validHistory msgs"
  by (induction rule: answeredHistory.induct) (auto intro: validHistory.intros answeredTurn_valid)

section \<open>Content\<close>

lemma textForKinds_single [simp]: "textForKinds [part] kinds = (if cp_Kind part \<in> set kinds then cp_Text part else [])"
  by simp

lemmas part_defs = zeroPart_def TextPart_def CommentaryPart_def FinalAnswerPart_def ReasoningPart_def

lemma SyncLegacyContent_canonical: "CanonicalContent (SyncLegacyContent m) = CanonicalContent m"
  by (auto simp: SyncLegacyContent_def CanonicalContent_def split: prod.splits)

lemma SyncLegacyContent_again:
  "m_Content m = [] \<Longrightarrow> SyncLegacyContent (m\<lparr>m_Content := CanonicalContent m\<rparr>) = m\<lparr>m_Content := CanonicalContent m\<rparr>"
  by (cases m) (auto simp: SyncLegacyContent_def CanonicalContent_def part_defs Let_def)

lemma SyncLegacyContent_content: "m_Content m \<noteq> [] \<Longrightarrow> m_Content (SyncLegacyContent m) = m_Content m"
  by (auto simp: SyncLegacyContent_def split: prod.splits)

section \<open>Properties\<close>

text \<open>
  A history that \<^verbatim>\<open>ValidateCompleteTurns\<close> accepts satisfies the documented contract: every
  assistant tool-call message has pairwise distinct non-empty call IDs and is directly
  followed by exactly one tool result per call, the results answering a permutation of the
  calls, and no other message is a tool message or carries tool calls or results.
\<close>

theorem ValidateCompleteTurns_sound:
  assumes "ValidateCompleteTurns messages = None"
  shows "answeredHistory messages"
  using assms by (simp add: valid_iff validHistory_answered)

definition exampleTurn :: "Message list" where
  "exampleTurn =
     [NewText RoleUser ''go'',
      zeroMessage\<lparr>m_Role := RoleAssistant, m_ToolCalls :=
        [\<lparr>tc_ID = ''a'', tc_Name = ''f'', tc_Arguments = [], tc_OperationID = []\<rparr>,
         \<lparr>tc_ID = ''b'', tc_Name = ''f'', tc_Arguments = [], tc_OperationID = []\<rparr>]\<rparr>,
      NewToolResult (zeroToolResult\<lparr>tr_ToolCallID := ''b''\<rparr>),
      (NewToolResult (zeroToolResult\<lparr>tr_ToolCallID := ''a''\<rparr>))\<lparr>m_CacheBoundary := True\<rparr>,
      NewText RoleAssistant ''done'']"

lemma ValidateCompleteTurns_sound_witness: "answeredHistory exampleTurn"
proof (rule ValidateCompleteTurns_sound)
  show "ValidateCompleteTurns exampleTurn = None" by code_simp
qed

text \<open>
  C17. When every call and every result carries an ID, \<^verbatim>\<open>ValidateCompleteTurns\<close> accepts exactly
  the histories that satisfy the documented contract.
\<close>

theorem ValidateCompleteTurns_exact:
  assumes "list_all identified messages"
  shows "ValidateCompleteTurns messages = None \<longleftrightarrow> answeredHistory messages"
  using assms by (auto simp: valid_iff validHistory_answered answeredHistory_valid)

lemma ValidateCompleteTurns_exact_witness:
  "ValidateCompleteTurns (take 3 exampleTurn) \<noteq> None \<and> \<not> answeredHistory (take 3 exampleTurn)"
proof -
  have "list_all identified (take 3 exampleTurn)" by code_simp
  moreover have "ValidateCompleteTurns (take 3 exampleTurn) \<noteq> None" by code_simp
  ultimately show ?thesis using ValidateCompleteTurns_exact [of "take 3 exampleTurn"] by simp
qed

text \<open>
  \<^verbatim>\<open>CompleteTurnBoundary\<close> fails exactly when the history is rejected; otherwise it returns
  a position inside the history that splits it into two histories which are each accepted,
  and it returns the clamped preferred position itself whenever that is such a position.
\<close>

theorem CompleteTurnBoundary_clean:
  "case CompleteTurnBoundary messages preferredStart of
     Inl err \<Rightarrow> ValidateCompleteTurns messages = Some err
   | Inr start \<Rightarrow>
       ValidateCompleteTurns messages = None \<and> start \<le> length messages
       \<and> ValidateCompleteTurns (take start messages) = None
       \<and> ValidateCompleteTurns (drop start messages) = None
       \<and> (start = clampStart preferredStart (length messages)
          \<longleftrightarrow> ValidateCompleteTurns (take (clampStart preferredStart (length messages)) messages) = None)"
proof (cases "ValidateCompleteTurns messages")
  case None
  let ?s = "clampStart preferredStart (length messages)"
  let ?r = "boundaryLoop (length messages) ?s 0 messages"
  have v: "validHistory messages" using None by (simp add: valid_iff)
  have "?s \<le> length messages" by (auto simp: clampStart_def)
  then have "cleanCut ?r messages" using boundaryLoop_cut [OF v, of 0 ?s] by simp
  moreover have "validHistory (take ?s messages) \<Longrightarrow> ?r = ?s" using boundaryLoop_fix [OF v, of 0 ?s] by simp
  moreover have "CompleteTurnBoundary messages preferredStart = Inr ?r"
    using None by (simp add: CompleteTurnBoundary_def)
  ultimately show ?thesis using v by (auto simp: valid_iff cleanCut_def)
qed (simp add: CompleteTurnBoundary_def)

lemma CompleteTurnBoundary_clean_witness:
  "CompleteTurnBoundary exampleTurn 2 = Inr 4 \<and> ValidateCompleteTurns (drop 4 exampleTurn) = None"
proof -
  have "CompleteTurnBoundary exampleTurn 2 = Inr 4" by code_simp
  then show ?thesis using CompleteTurnBoundary_clean [of exampleTurn 2] by simp
qed

text \<open>
  On an accepted history \<^verbatim>\<open>CachePrefixBoundary\<close> returns the shortest accepted prefix that
  contains every marked message; cutting there leaves an accepted rest.
\<close>

theorem CachePrefixBoundary_least:
  assumes "ValidateCompleteTurns messages = None"
  shows "\<exists>boundary. CachePrefixBoundary messages = Inr boundary \<and> boundary \<le> length messages
    \<and> ValidateCompleteTurns (take boundary messages) = None
    \<and> ValidateCompleteTurns (drop boundary messages) = None
    \<and> (\<forall>j < length messages. m_CacheBoundary (messages ! j) \<longrightarrow> j < boundary)
    \<and> (\<forall>k. ValidateCompleteTurns (take k messages) = None \<longrightarrow>
         (\<forall>j < length messages. m_CacheBoundary (messages ! j) \<longrightarrow> j < k) \<longrightarrow> boundary \<le> k)"
proof -
  let ?b = "lastCacheBoundary 0 messages 0"
  let ?r = "cacheLoop ?b 0 messages"
  have v: "validHistory messages" using assms by (simp add: valid_iff)
  have b: "?b \<le> length messages" using lastCacheBoundary_bounds [of 0 0 messages] by simp
  have r: "?b \<le> ?r" "cleanCut ?r messages" using cacheLoop_cut [OF v, of 0 ?b] b by simp_all
  have "CachePrefixBoundary messages = Inr ?r"
    using assms by (simp add: CachePrefixBoundary_def Let_def cacheLoop_before)
  moreover have "j < ?r" if "j < length messages" "m_CacheBoundary (messages ! j)" for j
    using lastCacheBoundary_covers [of 0 0 j messages] that r(1) by simp
  moreover have "?r \<le> k" if "validHistory (take k messages)"
    "\<forall>j < length messages. m_CacheBoundary (messages ! j) \<longrightarrow> j < k" for k
    using lastCacheBoundary_least [of messages 0 k 0] that(2) cacheLoop_least [OF v, of 0 ?b k] that(1) by simp
  ultimately show ?thesis using r(2) by (auto simp: valid_iff cleanCut_def)
qed

lemma CachePrefixBoundary_least_witness:
  "\<exists>boundary. CachePrefixBoundary exampleTurn = Inr boundary \<and> 3 < boundary \<and> boundary \<le> 5"
proof -
  have v: "ValidateCompleteTurns exampleTurn = None" by code_simp
  have m: "3 < length exampleTurn" "m_CacheBoundary (exampleTurn ! 3)" "length exampleTurn = 5"
    by code_simp+
  show ?thesis using CachePrefixBoundary_least [OF v] m by auto
qed

text \<open>
  \<^verbatim>\<open>Message.SyncLegacyContent\<close> is a synchronisation: it keeps the canonical content, so every
  reading of the message through it is unchanged, and running it again changes nothing.
\<close>

theorem SyncLegacyContent_idempotent:
  "SyncLegacyContent (SyncLegacyContent m) = SyncLegacyContent m
   \<and> CanonicalContent (SyncLegacyContent m) = CanonicalContent m
   \<and> TextContent (SyncLegacyContent m) = TextContent m"
proof -
  have "SyncLegacyContent (SyncLegacyContent m) = SyncLegacyContent m"
  proof (cases "m_Content m = []")
    case True
    then show ?thesis using SyncLegacyContent_again [OF True] by (simp add: SyncLegacyContent_def)
  next
    case False
    then show ?thesis by (auto simp: SyncLegacyContent_def split: prod.splits)
  qed
  then show ?thesis by (simp add: TextContent_def SyncLegacyContent_canonical)
qed

end
