(* ===== verification/Provider_Anthropic.thy ===== *)
theory Provider_Anthropic
  imports Provider_Sse Provider_Http Tool_Bus Message_Turns
begin

text \<open>
  The Anthropic driver (\<^verbatim>\<open>src/provider/anthropic\<close>): the translation of a history into the messages of the API, the
  opening of a stream, and the translation of the server's events into provider events. \<^verbatim>\<open>json.Marshal\<close> of a request,
  \<^verbatim>\<open>json.Unmarshal\<close> of an event and the API key of the environment are arguments. A content block, whose struct
  sets only the fields of its type, is one constructor for each type; a \<^verbatim>\<open>float64\<close> of a request is only passed on
  and is a type variable.
\<close>

section \<open>Requests\<close>

record contentSource =
  cs_Type :: string
  cs_MediaType :: string
  cs_Data :: string
  cs_URL :: string

datatype contentBlock =
    TextBlock string
  | ImageBlock contentSource
  | DocumentBlock contentSource
  | ToolUseBlock string string bytes
  | ToolResultBlock string toolContent bool
  | ThinkingBlock string string
  | RedactedThinkingBlock string
and toolContent = PlainContent string | BlockContent "contentBlock list"

record anthropicMessage =
  am_Role :: string
  am_Content :: "contentBlock list"

text \<open>\<^verbatim>\<open>base64.StdEncoding.EncodeToString\<close>.\<close>

definition base64Alphabet :: string where
  "base64Alphabet = ''ABCDEFGHIJKLMNOPQRSTUVWXYZabcdefghijklmnopqrstuvwxyz0123456789+/''"

fun base64Codes :: "nat list \<Rightarrow> string" where
  "base64Codes (a # b # c # rest) =
     map (nth base64Alphabet) [a div 4, (a mod 4) * 16 + b div 16, (b mod 16) * 4 + c div 64, c mod 64] @ base64Codes rest"
| "base64Codes [a, b] = map (nth base64Alphabet) [a div 4, (a mod 4) * 16 + b div 16, (b mod 16) * 4] @ ''=''"
| "base64Codes [a] = map (nth base64Alphabet) [a div 4, (a mod 4) * 16] @ ''==''"
| "base64Codes [] = []"

definition base64Encode :: "bytes \<Rightarrow> string" where
  "base64Encode bytes = base64Codes (map of_char bytes)"

definition anthropicSource :: "ContentPart \<Rightarrow> goError + contentSource" where
  "anthropicSource part =
     (if cp_URI part \<noteq> [] then Inr \<lparr>cs_Type = ''url'', cs_MediaType = [], cs_Data = [], cs_URL = cp_URI part\<rparr>
      else if cp_Data part = [] \<or> cp_MediaType part = []
      then Inl (TextError ''anthropic content requires uri or inline data with media type'')
      else Inr \<lparr>cs_Type = ''base64'', cs_MediaType = cp_MediaType part, cs_Data = base64Encode (cp_Data part), cs_URL = []\<rparr>)"

definition visibleKind :: "ContentKind \<Rightarrow> bool" where
  "visibleKind kind \<longleftrightarrow> kind = ContentText \<or> kind = ContentCommentary \<or> kind = ContentFinalAnswer"

fun anthropicSystemText :: "ContentPart list \<Rightarrow> goError + string" where
  "anthropicSystemText [] = Inr []"
| "anthropicSystemText (part # parts) =
     (if visibleKind (cp_Kind part)
      then (case anthropicSystemText parts of Inl err \<Rightarrow> Inl err | Inr rest \<Rightarrow> Inr (cp_Text part @ rest))
      else Inl (TextError ''anthropic system message cannot serialize content''))"

fun anthropicInputBlocks :: "ContentPart list \<Rightarrow> goError + contentBlock list" where
  "anthropicInputBlocks [] = Inr []"
| "anthropicInputBlocks (part # parts) =
     (case (if visibleKind (cp_Kind part) then Inr (TextBlock (cp_Text part))
            else if cp_Kind part = ContentImage then map_sum id ImageBlock (anthropicSource part)
            else if cp_Kind part = ContentFile then map_sum id DocumentBlock (anthropicSource part)
            else Inl (TextError ''anthropic message cannot serialize content'')) of
        Inl err \<Rightarrow> Inl err
      | Inr block \<Rightarrow> (case anthropicInputBlocks parts of Inl err \<Rightarrow> Inl err | Inr blocks \<Rightarrow> Inr (block # blocks)))"

text \<open>The loop of \<^verbatim>\<open>assistantBlocks\<close> over the parts; \<open>sawVisible\<close> is its flag.\<close>

fun assistantParts :: "bool \<Rightarrow> ContentPart list \<Rightarrow> goError + contentBlock list" where
  "assistantParts sawVisible [] = Inr []"
| "assistantParts sawVisible (part # parts) =
     (if cp_Kind part = ContentReasoning then
        (if cp_Signature part = [] then assistantParts sawVisible parts
         else if sawVisible then Inl (TextError ''anthropic signed thinking must precede visible assistant content'')
         else map_sum id (Cons (ThinkingBlock (cp_Text part) (cp_Signature part))) (assistantParts sawVisible parts))
      else if cp_Kind part = ContentRedactedReasoning then
        (if sawVisible then Inl (TextError ''anthropic redacted thinking must precede visible assistant content'')
         else map_sum id (Cons (RedactedThinkingBlock (cp_Data part))) (assistantParts sawVisible parts))
      else if visibleKind (cp_Kind part)
      then map_sum id (Cons (TextBlock (cp_Text part))) (assistantParts True parts)
      else Inl (TextError ''anthropic assistant message cannot serialize content''))"

definition toolUseBlock :: "ToolCall \<Rightarrow> contentBlock" where
  "toolUseBlock call =
     ToolUseBlock (tc_ID call) (tc_Name call) (if tc_Arguments call = [] then ''{}'' else tc_Arguments call)"

definition assistantBlocks :: "Message \<Rightarrow> goError + contentBlock list" where
  "assistantBlocks msg =
     map_sum id (\<lambda>blocks. blocks @ map toolUseBlock (m_ToolCalls msg)) (assistantParts False (CanonicalContent msg))"

definition toolResultBlock :: "ToolResult \<Rightarrow> goError + contentBlock" where
  "toolResultBlock result =
     (case anthropicInputBlocks (CanonicalToolContent result) of
        Inl err \<Rightarrow> Inl err
      | Inr blocks \<Rightarrow>
          Inr (ToolResultBlock (tr_ToolCallID result)
                 (case blocks of [TextBlock t] \<Rightarrow> PlainContent t | _ \<Rightarrow> BlockContent blocks) (tr_IsError result)))"

text \<open>The variables of \<^verbatim>\<open>toAnthropicRequest\<close>, its local function \<^verbatim>\<open>flush\<close>, and one turn of its loop.\<close>

record translation =
  tn_systemParts :: "string list"
  tn_items :: "anthropicMessage list"
  tn_pending :: "contentBlock list"

definition flush :: "translation \<Rightarrow> translation" where
  "flush t =
     (if tn_pending t \<noteq> []
      then t\<lparr>tn_items := tn_items t @ [\<lparr>am_Role = ''user'', am_Content = tn_pending t\<rparr>], tn_pending := []\<rparr> else t)"

definition appendItem :: "string \<Rightarrow> contentBlock list \<Rightarrow> translation \<Rightarrow> translation" where
  "appendItem role blocks t =
     (if blocks \<noteq> [] then t\<lparr>tn_items := tn_items t @ [\<lparr>am_Role = role, am_Content = blocks\<rparr>]\<rparr> else t)"

definition translateMessage :: "Message \<Rightarrow> translation \<Rightarrow> goError + translation" where
  "translateMessage msg t =
     (if m_Role msg = RoleSystem then
        map_sum id (\<lambda>s. if s \<noteq> [] then (flush t)\<lparr>tn_systemParts := tn_systemParts (flush t) @ [s]\<rparr> else flush t)
          (anthropicSystemText (CanonicalContent msg))
      else if m_Role msg = RoleTool then
        (case m_ToolResult msg of
           None \<Rightarrow> Inr t
         | Some result \<Rightarrow> map_sum id (\<lambda>block. t\<lparr>tn_pending := tn_pending t @ [block]\<rparr>) (toolResultBlock result))
      else if m_Role msg = RoleAssistant then
        map_sum id (\<lambda>blocks. appendItem ''assistant'' blocks (flush t)) (assistantBlocks msg)
      else
        map_sum id (\<lambda>blocks. appendItem ''user'' blocks (flush t)) (anthropicInputBlocks (CanonicalContent msg)))"

fun translateMessages :: "Message list \<Rightarrow> translation \<Rightarrow> goError + translation" where
  "translateMessages [] t = Inr t"
| "translateMessages (msg # msgs) t =
     (case translateMessage msg t of Inl err \<Rightarrow> Inl err | Inr t1 \<Rightarrow> translateMessages msgs t1)"

definition toAnthropicRequest :: "Message list \<Rightarrow> goError + string \<times> anthropicMessage list" where
  "toAnthropicRequest messages =
     (case translateMessages messages \<lparr>tn_systemParts = [], tn_items = [], tn_pending = []\<rparr> of
        Inl err \<Rightarrow> Inl err
      | Inr t \<Rightarrow>
          Inr (joinStrings [newline, newline] (tn_systemParts (flush t)), tn_items (flush t)))"

record anthropicTool =
  at_Name :: string
  at_Description :: string
  at_InputSchema :: JSONSchema

definition toAnthropicTools :: "ToolDefinition list \<Rightarrow> anthropicTool list" where
  "toAnthropicTools defs =
     map (\<lambda>def. \<lparr>at_Name = td_Name def, at_Description = td_Description def, at_InputSchema = td_InputSchema def\<rparr>) defs"

record thinkingOptions =
  to_Type :: string
  to_BudgetTokens :: int

definition thinkingFromBudget :: "int \<Rightarrow> thinkingOptions option" where
  "thinkingFromBudget budget =
     (if budget \<le> 0 then None else Some \<lparr>to_Type = ''enabled'', to_BudgetTokens = max 1024 budget\<rparr>)"

record 'f anthropicCall =
  ac_Model :: string
  ac_Messages :: "Message list"
  ac_Temperature :: 'f
  ac_TopP :: 'f
  ac_MaxTokens :: int
  ac_Tools :: "ToolDefinition list"
  ac_StopSequences :: "string list"
  ac_ThinkingBudget :: int

record 'f requestBody =
  rb_Model :: string
  rb_MaxTokens :: int
  rb_Temperature :: 'f
  rb_TopP :: 'f
  rb_System :: string
  rb_Messages :: "anthropicMessage list"
  rb_Tools :: "anthropicTool list"
  rb_Stream :: bool
  rb_StopSequences :: "string list"
  rb_Thinking :: "thinkingOptions option"

record anthropicConfig =
  an_APIKey :: string
  an_BaseURL :: string
  an_Models :: "string list"
  an_Version :: string
  an_MaxTokens :: int
  an_Retry :: HTTPRetryPolicy

definition NewAnthropic :: "anthropicConfig \<Rightarrow> anthropicConfig" where
  "NewAnthropic config =
     config\<lparr>an_Models := (if an_Models config = [] then [''claude-opus-4-8'', ''claude-sonnet-4-6'', ''claude-haiku-4-5''] else an_Models config),
           an_BaseURL := (if an_BaseURL config = [] then ''https://api.anthropic.com/v1'' else an_BaseURL config),
           an_Version := (if an_Version config = [] then ''2023-06-01'' else an_Version config),
           an_MaxTokens := (if an_MaxTokens config \<le> 0 then 1024 else an_MaxTokens config)\<rparr>"

definition anthropicBody :: "anthropicConfig \<Rightarrow> 'f anthropicCall \<Rightarrow> goError + 'f requestBody" where
  "anthropicBody config request =
     (let configured = (if an_MaxTokens config \<le> 0 then 1024 else an_MaxTokens config);
          maxTokens = (if ac_MaxTokens request > 0 then ac_MaxTokens request else configured)
      in case toAnthropicRequest (ac_Messages request) of
           Inl err \<Rightarrow> Inl err
         | Inr (system, messages) \<Rightarrow>
             Inr \<lparr>rb_Model = ac_Model request, rb_MaxTokens = maxTokens, rb_Temperature = ac_Temperature request,
                  rb_TopP = ac_TopP request, rb_System = system, rb_Messages = messages,
                  rb_Tools = toAnthropicTools (ac_Tools request), rb_Stream = True,
                  rb_StopSequences = ac_StopSequences request,
                  rb_Thinking = thinkingFromBudget (ac_ThinkingBudget request)\<rparr>)"

section \<open>Events of the server\<close>

record eventEnvelope =
  en_Type :: string
  en_Index :: int
  en_MessageID :: string
  en_MessageModel :: string
  en_BlockType :: string
  en_BlockID :: string
  en_BlockName :: string
  en_BlockData :: string
  en_DeltaType :: string
  en_DeltaText :: string
  en_DeltaThinking :: string
  en_DeltaSignature :: string
  en_DeltaPartialJSON :: string
  en_DeltaStopReason :: string
  en_InputTokens :: int
  en_CacheReadInputTokens :: "int option"
  en_CacheCreationInputTokens :: "int option"
  en_OutputTokens :: int
  en_ErrorType :: string
  en_ErrorMessage :: string

record streamState =
  st_reader :: body
  st_pending :: "Event list"
  st_finished :: bool
  st_usage :: Usage
  st_response :: ResponseMetadata
  st_stopReason :: StopReason
  st_toolCalls :: "int \<rightharpoonup> ToolCallDelta"

definition startState :: "body \<Rightarrow> streamState" where
  "startState reader = \<lparr>st_reader = reader, st_pending = [], st_finished = False, st_usage = zeroUsage,
     st_response = zeroResponse, st_stopReason = StopReasonOther [], st_toolCalls = Map.empty\<rparr>"

definition zeroDelta :: ToolCallDelta where
  "zeroDelta = \<lparr>tcd_Index = None, tcd_ID = [], tcd_Name = [], tcd_ArgumentsDelta = []\<rparr>"

definition mapAnthropicStopReason :: "string \<Rightarrow> StopReason" where
  "mapAnthropicStopReason reason =
     (if reason = ''end_turn'' \<or> reason = ''stop_sequence'' then StopReasonComplete
      else if reason = ''max_tokens'' then StopReasonLength
      else if reason = ''tool_use'' then StopReasonToolUse
      else StopReasonUnknown)"

definition optionalToken :: "int option \<Rightarrow> int \<times> bool" where
  "optionalToken val = (case val of None \<Rightarrow> (0, False) | Some n \<Rightarrow> (max 0 n, True))"

definition anthropicError :: "string \<Rightarrow> string \<Rightarrow> goError" where
  "anthropicError errorType msg =
     (let kind = (if errorType = ''overloaded_error'' \<or> errorType = ''api_error'' then ErrorServer
                  else if errorType = ''rate_limit_error'' then ErrorRateLimit
                  else if errorType = ''invalid_request_error'' then ErrorInvalidRequest
                  else if errorType = ''authentication_error'' then ErrorAuthentication
                  else if errorType = ''permission_error'' then ErrorPermission
                  else if errorType = ''not_found_error'' then ErrorNotFound
                  else ErrorUnknown)
      in ProviderFailure \<lparr>pe_Provider = ''anthropic'', pe_Kind = kind, pe_Code = errorType, pe_StatusCode = 0,
           pe_Message = msg, pe_RetryAfter = 0\<rparr>)"

definition enqueue :: "Event \<Rightarrow> streamState \<Rightarrow> streamState" where
  "enqueue event s = s\<lparr>st_pending := st_pending s @ [event]\<rparr>"

definition toolDeltaEvent :: "ToolCallDelta \<Rightarrow> Event" where
  "toolDeltaEvent delta = zeroEvent\<lparr>ev_Kind := EventToolCallDelta, ev_ToolCallDelta := Some delta\<rparr>"

text \<open>The cases of the switch of \<^verbatim>\<open>Recv\<close>.\<close>

definition messageStart :: "eventEnvelope \<Rightarrow> streamState \<Rightarrow> streamState" where
  "messageStart parsed s =
     (let (cacheRead, readReported) = optionalToken (en_CacheReadInputTokens parsed);
          (cacheWrite, writeReported) = optionalToken (en_CacheCreationInputTokens parsed)
      in s\<lparr>st_usage := (st_usage s)
              \<lparr>u_InputTokens := wrap64 (en_InputTokens parsed + cacheRead + cacheWrite),
               u_CachedInputTokens := cacheRead, u_CachedInputTokensReported := readReported,
               u_CacheWriteInputTokens := cacheWrite, u_CacheWriteInputTokensReported := writeReported\<rparr>,
          st_response := zeroResponse\<lparr>rm_ID := en_MessageID parsed, rm_Model := en_MessageModel parsed\<rparr>\<rparr>)"

definition contentBlockStart :: "eventEnvelope \<Rightarrow> streamState \<Rightarrow> streamState" where
  "contentBlockStart parsed s =
     (if en_BlockType parsed = ''tool_use'' then
        let current = zeroDelta\<lparr>tcd_ID := en_BlockID parsed, tcd_Name := en_BlockName parsed\<rparr>
        in enqueue (toolDeltaEvent current) (s\<lparr>st_toolCalls := (st_toolCalls s)(en_Index parsed \<mapsto> current)\<rparr>)
      else if en_BlockType parsed = ''redacted_thinking'' then
        enqueue (zeroEvent\<lparr>ev_Kind := EventThinkingDelta, ev_RedactedThinking := en_BlockData parsed\<rparr>) s
      else s)"

definition contentBlockDelta :: "eventEnvelope \<Rightarrow> streamState \<Rightarrow> streamState" where
  "contentBlockDelta parsed s =
     (if en_DeltaType parsed = ''text_delta'' then
        enqueue (zeroEvent\<lparr>ev_Kind := EventTextDelta, ev_Text := en_DeltaText parsed, ev_TextPhase := TextPhaseFinalAnswer\<rparr>) s
      else if en_DeltaType parsed = ''thinking_delta'' then
        enqueue (zeroEvent\<lparr>ev_Kind := EventThinkingDelta, ev_Thinking := en_DeltaThinking parsed\<rparr>) s
      else if en_DeltaType parsed = ''signature_delta'' then
        enqueue (zeroEvent\<lparr>ev_Kind := EventThinkingDelta, ev_Signature := en_DeltaSignature parsed\<rparr>) s
      else if en_DeltaType parsed = ''input_json_delta'' then
        let known = (case st_toolCalls s (en_Index parsed) of None \<Rightarrow> zeroDelta | Some delta \<Rightarrow> delta);
            current = known\<lparr>tcd_ArgumentsDelta := en_DeltaPartialJSON parsed\<rparr>
        in enqueue (toolDeltaEvent current) (s\<lparr>st_toolCalls := (st_toolCalls s)(en_Index parsed \<mapsto> current)\<rparr>)
      else s)"

definition messageDelta :: "eventEnvelope \<Rightarrow> streamState \<Rightarrow> streamState" where
  "messageDelta parsed s =
     s\<lparr>st_usage := (st_usage s)
          \<lparr>u_OutputTokens := en_OutputTokens parsed,
           u_TotalTokens := wrap64 (u_InputTokens (st_usage s) + en_OutputTokens parsed)\<rparr>,
       st_stopReason := mapAnthropicStopReason (en_DeltaStopReason parsed)\<rparr>"

definition applyEnvelope :: "eventEnvelope \<Rightarrow> streamState \<Rightarrow> streamState" where
  "applyEnvelope parsed s =
     (if en_Type parsed = ''message_start'' then messageStart parsed s
      else if en_Type parsed = ''content_block_start'' then contentBlockStart parsed s
      else if en_Type parsed = ''content_block_delta'' then contentBlockDelta parsed s
      else if en_Type parsed = ''message_delta'' then messageDelta parsed s
      else s)"

definition messageStopEvent :: "streamState \<Rightarrow> Event" where
  "messageStopEvent s = zeroEvent\<lparr>ev_Kind := EventDone, ev_Usage := st_usage s, ev_StopReason := st_stopReason s, ev_Response := st_response s\<rparr>"

lemma nextFrom_shorter:
  "nextFrom f b = ((event, None), b') \<Longrightarrow> length (bd_bytes b') < length (bd_bytes b)"
proof (induction f b rule: nextFrom.induct)
  case (1 f b)
  show ?case
  proof (cases "readLine b")
    case (Pair answer b1)
    show ?thesis
    proof (cases answer)
      case (Inl err)
      then show ?thesis using 1(3) Pair by (subst (asm) nextFrom.simps) (simp split: if_splits)
    next
      case (Inr line)
      then have "length (bd_bytes b1) < length (bd_bytes b)" using Pair readLine_shorter by blast
      then show ?thesis using 1 Pair Inr
        by (subst (asm) (3) nextFrom.simps) (force simp: Let_def split: if_splits intro: less_trans)
    qed
  qed
qed

lemma Next_shorter: "Next b = ((event, None), b') \<Longrightarrow> length (bd_bytes b') < length (bd_bytes b)"
  by (simp add: Next_def nextFrom_shorter)

function recvAnthropic :: "(string \<Rightarrow> goError + eventEnvelope) \<Rightarrow> streamState \<Rightarrow> (Event \<times> goError option) \<times> streamState" where
  "recvAnthropic unmarshal s =
     (case st_pending s of
        event # rest \<Rightarrow> ((event, None), s\<lparr>st_pending := rest\<rparr>)
      | [] \<Rightarrow>
          if st_finished s then ((zeroEvent, Some EOF), s)
          else case Next (st_reader s) of
              ((current, Some err), reader) \<Rightarrow> ((zeroEvent, Some err), s\<lparr>st_reader := reader\<rparr>)
            | ((current, None), reader) \<Rightarrow>
                if blank (se_Data current) then recvAnthropic unmarshal (s\<lparr>st_reader := reader\<rparr>)
                else case unmarshal (se_Data current) of
                    Inl err \<Rightarrow> ((zeroEvent, Some err), s\<lparr>st_reader := reader\<rparr>)
                  | Inr parsed \<Rightarrow>
                      if en_Type parsed = ''message_stop''
                      then ((messageStopEvent s, None), s\<lparr>st_reader := reader, st_finished := True\<rparr>)
                      else if en_Type parsed = ''error''
                      then ((zeroEvent, Some (anthropicError (en_ErrorType parsed) (en_ErrorMessage parsed))), s\<lparr>st_reader := reader\<rparr>)
                      else recvAnthropic unmarshal (applyEnvelope parsed (s\<lparr>st_reader := reader\<rparr>)))"
  by pat_completeness auto

lemma applyEnvelope_reader [simp]: "st_reader (applyEnvelope parsed s) = st_reader s"
  by (simp add: applyEnvelope_def messageStart_def contentBlockStart_def contentBlockDelta_def messageDelta_def enqueue_def
      Let_def split_beta)

termination recvAnthropic
  by (relation "measure (\<lambda>(_, s). length (bd_bytes (st_reader s)))") (auto dest: Next_shorter [OF sym])

declare recvAnthropic.simps [simp del]

section \<open>Opening a stream\<close>

text \<open>
  \<^verbatim>\<open>IsEventStreamContentType\<close>; \<^verbatim>\<open>strings.EqualFold\<close> against this name ignores the case of ASCII letters and takes
  the long s, U+017F, for an s.
\<close>

definition lowerByte :: "char \<Rightarrow> char" where
  "lowerByte c = (let n = of_char c :: nat in if 65 \<le> n \<and> n \<le> 90 then char_of (n + 32) else c)"

fun foldCase :: "string \<Rightarrow> string" where
  "foldCase (c # d # rest) =
     (if c = CHR 0xC5 \<and> d = CHR 0xBF then CHR ''s'' # foldCase rest else lowerByte c # foldCase (d # rest))"
| "foldCase [c] = [lowerByte c]"
| "foldCase [] = []"

definition IsEventStreamContentType :: "string \<Rightarrow> bool" where
  "IsEventStreamContentType contentType \<longleftrightarrow>
     \<not> blank contentType \<and>
     foldCase (trimSpace (takeWhile (\<lambda>c. c \<noteq> CHR '';'') contentType)) = ''text/event-stream''"

text \<open>What the n-th request is answered with besides its status: the content type and the body.\<close>

record responseContent =
  rc_ContentType :: string
  rc_Body :: body

definition anthropicRequest :: "goError option \<Rightarrow> string \<Rightarrow> int \<Rightarrow> goError + httpRequest" where
  "anthropicRequest urlErr key attempt =
     (case urlErr of Some err \<Rightarrow> Inl err | None \<Rightarrow> Inr \<lparr>hq_Method = ''POST'', hq_IdempotencyKey = key\<rparr>)"

definition acceptResponse :: "httpResponse \<Rightarrow> responseContent \<Rightarrow> goError option" where
  "acceptResponse resp content =
     (let payload = trimSpace (take 8192 (bd_bytes (rc_Body content)))
      in if hr_StatusCode resp < 200 \<or> hr_StatusCode resp \<ge> 300
         then Some (ProviderFailure (NewHTTPError ''anthropic'' (hr_StatusCode resp) payload))
         else if \<not> IsEventStreamContentType (rc_ContentType content)
         then Some (TextError (''anthropic api returned unexpected content type '' @ rc_ContentType content @ '': '' @ payload))
         else None)"

definition streamAnthropic ::
    "('f requestBody \<Rightarrow> goError + bytes) \<Rightarrow> string \<Rightarrow> goError option \<Rightarrow> goError + string \<Rightarrow> httpWorld \<Rightarrow>
     (nat \<Rightarrow> responseContent) \<Rightarrow> anthropicConfig \<Rightarrow> 'f anthropicCall \<Rightarrow> goError + streamState" where
  "streamAnthropic marshal envKey urlErr newKey world contents config request =
     (if an_APIKey config = [] \<and> envKey = [] then Inl (TextError ''anthropic api key is required'')
      else case anthropicBody config request of
          Inl err \<Rightarrow> Inl err
        | Inr body \<Rightarrow>
            (case marshal body of
               Inl err \<Rightarrow> Inl err
             | Inr _ \<Rightarrow>
                 (case newKey of
                    Inl err \<Rightarrow> Inl (Wrapped ''anthropic: generate idempotency key'' err)
                  | Inr key \<Rightarrow>
                      let answer = DoWithRetry (world\<lparr>hw_build := anthropicRequest urlErr key\<rparr>) (an_Retry config)
                      in case ha_result answer of
                           Inl err \<Rightarrow> Inl err
                         | Inr resp \<Rightarrow>
                             let content = contents (length (ha_sent answer))
                             in case acceptResponse resp content of
                                  Some err \<Rightarrow> Inl err
                                | None \<Rightarrow> Inr (startState (rc_Body content)))))"

end
