(* ===== verification/Provider_Sse_Properties.thy ===== *)
theory Provider_Sse_Properties
  imports Provider_Sse
begin

text \<open>
  What the reader of server-sent events promises: the buffer does not show in the lines it reads, a printed frame
  is read back as it was, and a frame that the connection cuts off is never taken for a whole one.
\<close>

section \<open>Lines\<close>

definition firstLine :: "bytes \<Rightarrow> string" where
  "firstLine bytes = takeWhile (\<lambda>c. c \<noteq> newline) bytes"

lemma firstLine_append: "newline \<notin> set chunk \<Longrightarrow> firstLine (chunk @ rest) = chunk @ firstLine rest"
  by (induction chunk) (auto simp: firstLine_def)

lemma firstLine_less: "newline \<in> set bytes \<Longrightarrow> length (firstLine bytes) < length bytes"
  by (induction bytes) (auto simp: firstLine_def)

lemma firstLine_split:
  "newline \<in> set bytes \<Longrightarrow> bytes = firstLine bytes @ newline # drop (Suc (length (firstLine bytes))) bytes"
  by (induction bytes) (auto simp: firstLine_def)

lemma readSlice_cases:
  obtains (line) "newline \<in> set (bd_bytes b)" "length (firstLine (bd_bytes b)) < bufferSize"
      "readSlice b = (firstLine (bd_bytes b) @ [newline], Delimited, b\<lparr>bd_bytes := drop (Suc (length (firstLine (bd_bytes b)))) (bd_bytes b)\<rparr>)"
    | (full) chunk rest where "bd_bytes b = chunk @ rest" "chunk \<noteq> []" "newline \<notin> set chunk"
      "readSlice b = (chunk, BufferFull, b\<lparr>bd_bytes := rest\<rparr>)"
    | (failed) "newline \<notin> set (bd_bytes b)" "readSlice b = (bd_bytes b, SliceFailed (bd_end b), b\<lparr>bd_bytes := []\<rparr>)"
proof -
  let ?w = "take bufferSize (bd_bytes b)"
  let ?l = "takeWhile (\<lambda>c. c \<noteq> newline) ?w"
  show thesis
  proof (cases "newline \<in> set ?w")
    case True
    then have lt: "length ?l < length ?w" using firstLine_less [of ?w] by (simp add: firstLine_def)
    have "bd_bytes b = ?w @ drop bufferSize (bd_bytes b)" by simp
    then have same: "firstLine (bd_bytes b) = ?l" using True unfolding firstLine_def by (metis (mono_tags) takeWhile_append1)
    show thesis
      using line lt same True in_set_takeD [of newline bufferSize "bd_bytes b"] by (simp add: readSlice_def Let_def)
  next
    case False
    then have all: "?l = ?w" by (auto simp: takeWhile_eq_all_conv)
    show thesis
    proof (cases "length ?w = bufferSize")
      case True
      then have "?w \<noteq> []" by (auto simp: bufferSize_def)
      moreover have "bd_bytes b = ?w @ drop bufferSize (bd_bytes b)" by simp
      moreover have "readSlice b = (?w, BufferFull, b\<lparr>bd_bytes := drop bufferSize (bd_bytes b)\<rparr>)"
        unfolding readSlice_def Let_def all using True by simp
      ultimately show thesis using full False by blast
    next
      case len: False
      then have w: "?w = bd_bytes b" by simp
      have "readSlice b = (?w, SliceFailed (bd_end b), b\<lparr>bd_bytes := []\<rparr>)"
        unfolding readSlice_def Let_def all using len by simp
      then show thesis using failed False w by simp
    qed
  qed
qed

lemma trimSuffix_snoc [simp]: "trimSuffix (s @ [c]) c = s"
  by (simp add: trimSuffix_def)

lemma trimSuffix_other: "c \<notin> set s \<Longrightarrow> trimSuffix s c = s"
  by (auto simp: trimSuffix_def dest: last_in_set)

definition withoutCR :: "string \<Rightarrow> string" where
  "withoutCR line = trimSuffix line (CHR 0x0D)"

lemma readLineFrom_terminated:
  "newline \<in> set (bd_bytes b) \<Longrightarrow>
   int (length buf + length (firstLine (bd_bytes b)) + 1) \<le> MaxSSELineBytes \<Longrightarrow>
   readLineFrom buf b =
     (Inr (withoutCR (buf @ firstLine (bd_bytes b))), b\<lparr>bd_bytes := drop (Suc (length (firstLine (bd_bytes b)))) (bd_bytes b)\<rparr>)"
proof (induction buf b rule: readLineFrom.induct)
  case (1 buf b)
  show ?case
  proof (cases b rule: readSlice_cases)
    case line
    then show ?thesis using 1(3) by (subst readLineFrom.simps) (simp add: withoutCR_def flip: append_assoc)
  next
    case (full chunk rest)
    have fl: "firstLine (bd_bytes b) = chunk @ firstLine rest"
      using full(1,3) by (simp add: firstLine_append)
    have "int (length buf + length chunk) \<le> MaxSSELineBytes" using 1(3) by (simp add: fl)
    moreover have "newline \<in> set rest" using 1(2) full(1,3) by auto
    ultimately show ?thesis using 1(1) [OF full(4) [symmetric] refl, simplified] 1(3) full fl
      by (subst readLineFrom.simps) simp
  next
    case failed
    then show ?thesis using 1(2) by simp
  qed
qed

lemma readLineFrom_last:
  "newline \<notin> set (bd_bytes b) \<Longrightarrow> newline \<notin> set buf \<Longrightarrow> bd_end b = EOF \<Longrightarrow> buf @ bd_bytes b \<noteq> [] \<Longrightarrow>
   int (length buf + length (bd_bytes b)) \<le> MaxSSELineBytes \<Longrightarrow>
   readLineFrom buf b = (Inr (withoutCR (buf @ bd_bytes b)), b\<lparr>bd_bytes := []\<rparr>)"
proof (induction buf b rule: readLineFrom.induct)
  case (1 buf b)
  show ?case
  proof (cases b rule: readSlice_cases)
    case line
    then show ?thesis using 1(2) by simp
  next
    case (full chunk rest)
    have "int (length buf + length chunk) \<le> MaxSSELineBytes" using 1(6) full(1) by simp
    then show ?thesis using 1(1) [OF full(4) [symmetric] refl] 1(2-6) full
      by (subst readLineFrom.simps) simp
  next
    case failed
    then show ?thesis using 1(3-6) trimSuffix_other [of newline "buf @ bd_bytes b"]
      by (subst readLineFrom.simps) (auto simp: withoutCR_def)
  qed
qed

lemma readLineFrom_too_long:
  "int (length buf + length (firstLine (bd_bytes b)) + (if newline \<in> set (bd_bytes b) then 1 else 0)) > MaxSSELineBytes \<Longrightarrow>
   fst (readLineFrom buf b) = Inl lineLimitError"
proof (induction buf b rule: readLineFrom.induct)
  case (1 buf b)
  show ?case
  proof (cases b rule: readSlice_cases)
    case line
    then show ?thesis using 1(2) by (subst readLineFrom.simps) simp
  next
    case (full chunk rest)
    have fl: "firstLine (bd_bytes b) = chunk @ firstLine rest"
      using full(1,3) by (simp add: firstLine_append)
    show ?thesis
    proof (cases "int (length buf + length chunk) > MaxSSELineBytes")
      case True
      then show ?thesis using full(4) by (subst readLineFrom.simps) simp
    next
      case False
      have "newline \<in> set (bd_bytes b) \<longleftrightarrow> newline \<in> set rest" using full(1,3) by auto
      then have "fst (readLineFrom (buf @ chunk) (b\<lparr>bd_bytes := rest\<rparr>)) = Inl lineLimitError"
        using 1(1) [OF full(4) [symmetric] refl False refl] 1(2) fl by (simp add: add.assoc)
      then show ?thesis using full(4) False by (subst readLineFrom.simps) simp
    qed
  next
    case failed
    then have "firstLine (bd_bytes b) = bd_bytes b" by (auto simp: firstLine_def takeWhile_eq_all_conv)
    then show ?thesis using failed 1(2) by (subst readLineFrom.simps) simp
  qed
qed

text \<open>
  The lines that \<^verbatim>\<open>readLine\<close> returns do not depend on the buffer: it returns the bytes up to the next newline
  without a final carriage return when they are within the limit, and refuses the line otherwise.
\<close>

theorem readLine_exact:
  assumes "newline \<in> set (bd_bytes b)"
  shows "fst (readLine b) =
      (if int (length (firstLine (bd_bytes b)) + 1) \<le> MaxSSELineBytes then Inr (withoutCR (firstLine (bd_bytes b)))
       else Inl lineLimitError)"
    and "int (length (firstLine (bd_bytes b)) + 1) \<le> MaxSSELineBytes \<Longrightarrow>
      bd_bytes b = firstLine (bd_bytes b) @ newline # bd_bytes (snd (readLine b))"
proof -
  show "fst (readLine b) =
      (if int (length (firstLine (bd_bytes b)) + 1) \<le> MaxSSELineBytes then Inr (withoutCR (firstLine (bd_bytes b)))
       else Inl lineLimitError)"
    using readLineFrom_terminated [OF assms, of "[]"] readLineFrom_too_long [of "[]" b] assms by (simp add: readLine_def)
  show "int (length (firstLine (bd_bytes b)) + 1) \<le> MaxSSELineBytes \<Longrightarrow>
      bd_bytes b = firstLine (bd_bytes b) @ newline # bd_bytes (snd (readLine b))"
    using readLineFrom_terminated [OF assms, of "[]"] firstLine_split [OF assms] by (simp add: readLine_def)
qed

section \<open>Frames\<close>

text \<open>A line that starts with a visible ASCII character is not blank.\<close>

lemma lastSpaceWidth_visible:
  assumes "33 \<le> (of_char x :: nat)" "(of_char x :: nat) < 128"
  shows "lastSpaceWidth (map of_char (xs @ [x])) \<le> length xs"
proof (cases xs)
  case xs: (Cons c cs)
  show ?thesis
  proof (cases cs)
    case (Cons d ds)
    then show ?thesis using assms xs by (cases ds) (auto simp: asciiSpace_def wideSpace_def)
  qed (use assms xs in \<open>simp add: asciiSpace_def\<close>)
qed (use assms in \<open>simp add: asciiSpace_def\<close>)

lemma dropSpaces_visible:
  assumes "33 \<le> (of_char x :: nat)" "(of_char x :: nat) < 128"
  shows "dropSpaces lastSpaceWidth (xs @ [x]) \<noteq> []"
proof (induction xs rule: measure_induct_rule [of length])
  case (less xs)
  let ?n = "lastSpaceWidth (map of_char (xs @ [x]))"
  show ?case
  proof (cases "?n = 0")
    case False
    then have "drop ?n (xs @ [x]) = drop ?n xs @ [x]" "length (drop ?n xs) < length xs"
      using lastSpaceWidth_visible [OF assms, of xs] by (auto simp: drop_Cons')
    then show ?thesis using less [of "drop ?n xs"] False by (subst dropSpaces.simps) (simp add: Let_def)
  qed (simp add: dropSpaces_step)
qed

definition visibleStart :: "string \<Rightarrow> bool" where
  "visibleStart line \<longleftrightarrow> line \<noteq> [] \<and> 33 \<le> (of_char (hd line) :: nat) \<and> (of_char (hd line) :: nat) < 128"

lemma visible_not_blank:
  assumes "visibleStart line"
  shows "\<not> blank line"
proof -
  have "spaceWidth (map of_char line) = 0"
    using assms by (cases line) (auto simp: visibleStart_def asciiSpace_def wideSpace_def split: list.splits)
  moreover have "rev line = rev (tl line) @ [hd line]" using assms by (cases line) (auto simp: visibleStart_def)
  ultimately show ?thesis
    using assms dropSpaces_visible [of "hd line" "rev (tl line)"] dropSpaces_step [of spaceWidth line]
    by (auto simp: blank_def trimSpace_def visibleStart_def)
qed

text \<open>The lines of a frame, as a server prints them.\<close>

definition frameLine :: "string \<Rightarrow> bool" where
  "frameLine line \<longleftrightarrow> visibleStart line \<and> newline \<notin> set line \<and> CHR 0x0D \<notin> set line \<and> int (length line) < MaxSSELineBytes"

definition printLines :: "string list \<Rightarrow> bytes" where
  "printLines ls = concat (map (\<lambda>line. line @ [newline]) ls)"

definition printFrame :: "string list \<Rightarrow> bytes" where
  "printFrame ls = printLines ls @ [newline]"

definition readFrame :: "string list \<Rightarrow> frame \<Rightarrow> frame" where
  "readFrame ls f = fold (\<lambda>line g. applyLine line (countLine line g)) ls f"

lemma printLines_simps [simp]:
  "printLines [] = []" "printLines (line # ls) = line @ newline # printLines ls"
  by (simp_all add: printLines_def)

lemma readFrame_simps [simp]:
  "readFrame [] f = f" "readFrame (line # ls) f = readFrame ls (applyLine line (countLine line f))"
  by (simp_all add: readFrame_def)

lemma applyLine_counts [simp]:
  "fr_bytes (applyLine line f) = fr_bytes f" "fr_lines (applyLine line f) = fr_lines f"
  by (simp_all add: applyLine_def Let_def split_beta)

lemma countLine_fields [simp]:
  "fr_bytes (countLine line f) = fr_bytes f + int (length line) + 1" "fr_lines (countLine line f) = fr_lines f + 1"
  "fr_name (countLine line f) = fr_name f" "fr_data (countLine line f) = fr_data f" "fr_id (countLine line f) = fr_id f"
  "fr_comment (countLine line f) = fr_comment f" "nothingRead (countLine line f) = nothingRead f"
  "frameEvent (countLine line f) = frameEvent f"
  by (simp_all add: countLine_def nothingRead_def frameEvent_def)

lemma readFrame_counts [simp]:
  "fr_bytes (readFrame ls f) = fr_bytes f + int (length (printLines ls))"
  "fr_lines (readFrame ls f) = fr_lines f + int (length ls)"
  by (induction ls arbitrary: f) simp_all

lemma readLine_printed:
  assumes "newline \<notin> set line" "CHR 0x0D \<notin> set line" "int (length line) < MaxSSELineBytes"
  shows "readLine (b\<lparr>bd_bytes := line @ newline # rest\<rparr>) = (Inr line, b\<lparr>bd_bytes := rest\<rparr>)"
proof -
  have "firstLine (line @ newline # rest) = line" using assms(1) by (simp add: firstLine_append) (simp add: firstLine_def)
  then show ?thesis using readLineFrom_terminated [of "b\<lparr>bd_bytes := line @ newline # rest\<rparr>" "[]"] assms
    by (simp add: readLine_def withoutCR_def trimSuffix_other)
qed

lemma nextFrom_line:
  assumes "frameLine line" "\<not> overLimit (countLine line f)"
  shows "nextFrom f (b\<lparr>bd_bytes := line @ newline # rest\<rparr>) =
    nextFrom (applyLine line (countLine line f)) (b\<lparr>bd_bytes := rest\<rparr>)"
  using assms readLine_printed [of line rest b] visible_not_blank [of line]
  by (subst nextFrom.simps) (simp add: frameLine_def Let_def)

text \<open>What is left of the limits after the lines of a frame.\<close>

definition roomFor :: "string list \<Rightarrow> frame \<Rightarrow> bool" where
  "roomFor ls f \<longleftrightarrow> fr_bytes f + int (length (printLines ls)) < MaxSSEFrameBytes \<and> fr_lines f + int (length ls) < MaxSSEFrameLines"

lemma roomFor_Cons:
  "roomFor (line # ls) f \<Longrightarrow> roomFor ls (applyLine line (countLine line f)) \<and> \<not> overLimit (countLine line f)"
  by (simp add: roomFor_def overLimit_def)

lemma nextFrom_frame:
  assumes "list_all frameLine ls" "roomFor ls f" "\<not> nothingRead (readFrame ls f)"
  shows "nextFrom f (b\<lparr>bd_bytes := printFrame ls @ rest\<rparr>) = ((frameEvent (readFrame ls f), None), b\<lparr>bd_bytes := rest\<rparr>)"
  using assms
proof (induction ls arbitrary: f)
  case Nil
  then show ?case using readLine_printed [of "[]" rest b]
    by (subst nextFrom.simps) (simp add: printFrame_def overLimit_def roomFor_def MaxSSELineBytes_def)
next
  case (Cons line ls)
  then show ?case using roomFor_Cons [of line ls f] by (simp add: printFrame_def nextFrom_line)
qed

text \<open>A frame that ends before its blank line.\<close>

lemma readLine_nothing: "bd_end b = EOF \<Longrightarrow> readLine (b\<lparr>bd_bytes := []\<rparr>) = (Inl EOF, b\<lparr>bd_bytes := []\<rparr>)"
  unfolding readLine_def by (subst readLineFrom.simps) (simp add: readSlice_def MaxSSELineBytes_def bufferSize_def)

lemma nextFrom_empty: "bd_end b = EOF \<Longrightarrow> snd (fst (nextFrom f (b\<lparr>bd_bytes := []\<rparr>))) \<in> {Some EOF, Some ErrUnexpectedEOF}"
  by (subst nextFrom.simps) (simp add: readLine_nothing)

lemma readLine_cut:
  assumes "frameLine line" "0 < n" "bd_end b = EOF"
  shows "readLine (b\<lparr>bd_bytes := take n line\<rparr>) = (Inr (take n line), b\<lparr>bd_bytes := []\<rparr>)"
proof -
  have "newline \<notin> set (take n line)" "CHR 0x0D \<notin> set (take n line)" "take n line \<noteq> []"
    using assms(1,2) by (auto simp: frameLine_def visibleStart_def dest: in_set_takeD)
  then show ?thesis using readLineFrom_last [of "b\<lparr>bd_bytes := take n line\<rparr>" "[]"] assms
    by (simp add: readLine_def frameLine_def withoutCR_def trimSuffix_other min_def)
qed

lemma nextFrom_cut:
  assumes "frameLine line" "bd_end b = EOF" "\<not> overLimit (countLine line f)"
  shows "snd (fst (nextFrom f (b\<lparr>bd_bytes := take n line\<rparr>))) \<in> {Some EOF, Some ErrUnexpectedEOF}"
proof (cases "n = 0")
  case True
  then show ?thesis using nextFrom_empty [OF assms(2)] by simp
next
  case False
  have "\<not> overLimit (countLine (take n line) f)" using assms(3) by (auto simp: overLimit_def)
  moreover have "\<not> blank (take n line)"
    using assms(1) False by (intro visible_not_blank) (auto simp: frameLine_def visibleStart_def hd_take)
  ultimately have "nextFrom f (b\<lparr>bd_bytes := take n line\<rparr>) =
      nextFrom (applyLine (take n line) (countLine (take n line) f)) (b\<lparr>bd_bytes := []\<rparr>)"
    using readLine_cut [OF assms(1), of n b] False assms(2) by (subst nextFrom.simps) (simp add: Let_def)
  then show ?thesis using nextFrom_empty [OF assms(2)] by simp
qed

lemma nextFrom_truncated:
  assumes "list_all frameLine ls" "roomFor ls f" "bd_end b = EOF" "n \<le> length (printLines ls)"
  shows "snd (fst (nextFrom f (b\<lparr>bd_bytes := take n (printFrame ls)\<rparr>))) \<in> {Some EOF, Some ErrUnexpectedEOF}"
  using assms
proof (induction ls arbitrary: f n)
  case Nil
  then show ?case using nextFrom_empty by simp
next
  case (Cons line ls)
  show ?case
  proof (cases "n \<le> length line")
    case True
    then show ?thesis using nextFrom_cut [of line b f n] Cons.prems roomFor_Cons [of line ls f] by (simp add: printFrame_def)
  next
    case False
    then obtain k where n: "n = Suc (length line + k)" by (metis add_Suc_right less_imp_Suc_add not_le)
    then have "take n (printFrame (line # ls)) = line @ newline # take k (printFrame ls)" by (simp add: printFrame_def)
    then show ?thesis using Cons n roomFor_Cons [of line ls f] by (simp add: nextFrom_line)
  qed
qed

section \<open>Events\<close>

definition optionalLine :: "string \<Rightarrow> string \<Rightarrow> string list" where
  "optionalLine prefix0 val = (if val = [] then [] else [prefix0 @ val])"

definition eventLines :: "string \<Rightarrow> string list \<Rightarrow> string \<Rightarrow> string \<Rightarrow> string list" where
  "eventLines name datas ident comment =
     optionalLine ''event: '' name @ map (\<lambda>d. ''data: '' @ d) datas @ optionalLine ''id: '' ident @ optionalLine '':'' comment"

definition cleanText :: "string \<Rightarrow> bool" where
  "cleanText s \<longleftrightarrow> newline \<notin> set s \<and> CHR 0x0D \<notin> set s \<and> int (length s) + 7 < MaxSSELineBytes"

lemma applyLine_fields [simp]:
  "applyLine (''event: '' @ v) f = f\<lparr>fr_name := v\<rparr>" "applyLine (''data: '' @ v) f = f\<lparr>fr_data := fr_data f @ [v]\<rparr>"
  "applyLine (''id: '' @ v) f = f\<lparr>fr_id := v\<rparr>" "applyLine ('':'' @ v) f = f\<lparr>fr_comment := trimSpace v\<rparr>"
  by (simp_all add: applyLine_def parseSSELine_def)

lemma readFrame_append [simp]: "readFrame (ls @ ks) f = readFrame ks (readFrame ls f)"
  by (simp add: readFrame_def)

lemma readFrame_datas:
  "fr_name (readFrame (map (\<lambda>d. ''data: '' @ d) datas) f) = fr_name f"
  "fr_data (readFrame (map (\<lambda>d. ''data: '' @ d) datas) f) = fr_data f @ datas"
  "fr_id (readFrame (map (\<lambda>d. ''data: '' @ d) datas) f) = fr_id f"
  "fr_comment (readFrame (map (\<lambda>d. ''data: '' @ d) datas) f) = fr_comment f"
  by (induction datas arbitrary: f) (simp_all del: append_Cons append_Nil)

lemma readFrame_optional:
  "readFrame (optionalLine prefix0 v) f =
     (if v = [] then f else applyLine (prefix0 @ v) (countLine (prefix0 @ v) f))"
  by (simp add: optionalLine_def)

lemma readFrame_event:
  assumes "trimSpace comment = comment"
  shows "frameEvent (readFrame (eventLines name datas ident comment) emptyFrame) =
      \<lparr>se_Name = name, se_Data = joinStrings [newline] datas, se_ID = ident, se_Comment = comment\<rparr>"
    and "nothingRead (readFrame (eventLines name datas ident comment) emptyFrame) \<longleftrightarrow>
      name = [] \<and> datas = [] \<and> ident = [] \<and> comment = []"
  using assms
  by (simp_all add: eventLines_def readFrame_optional readFrame_datas frameEvent_def nothingRead_def emptyFrame_def
      del: append_Cons)

lemma eventLines_good:
  assumes "list_all cleanText (name # ident # comment # datas)"
  shows "list_all frameLine (eventLines name datas ident comment)"
  using assms
  by (auto simp: eventLines_def optionalLine_def list_all_iff frameLine_def cleanText_def visibleStart_def newline_def)

lemma eventLines_room:
  assumes "int (length (printFrame (eventLines name datas ident comment))) \<le> MaxSSEFrameBytes" "length datas + 3 < 4096"
  shows "roomFor (eventLines name datas ident comment) emptyFrame"
proof -
  have "length (eventLines name datas ident comment) \<le> length datas + 3" by (simp add: eventLines_def optionalLine_def)
  then show ?thesis using assms by (simp add: roomFor_def emptyFrame_def printFrame_def MaxSSEFrameLines_def)
qed

lemma Next_event:
  assumes "list_all cleanText (name # ident # comment # datas)" "trimSpace comment = comment"
    and "\<not> (name = [] \<and> datas = [] \<and> ident = [] \<and> comment = [])"
    and "int (length (printFrame (eventLines name datas ident comment))) \<le> MaxSSEFrameBytes"
    and "length datas + 3 < 4096"
  shows "Next \<lparr>bd_bytes = printFrame (eventLines name datas ident comment) @ rest, bd_end = ending\<rparr> =
      ((\<lparr>se_Name = name, se_Data = joinStrings [newline] datas, se_ID = ident, se_Comment = comment\<rparr>, None),
       \<lparr>bd_bytes = rest, bd_end = ending\<rparr>)"
  using nextFrom_frame [OF eventLines_good [OF assms(1)] eventLines_room [OF assms(4,5)], of rest "\<lparr>bd_bytes = [], bd_end = ending\<rparr>"]
    assms(3) by (simp add: Next_def readFrame_event [OF assms(2)])

text \<open>
  C33. A server-sent event that is printed with one line for each part of its data is read back as it was, with
  exactly its bytes consumed, whatever follows; and when the connection ends anywhere before the blank line that
  closes it, the reader reports an error and never delivers the part it has read as an event.
\<close>

theorem sse_roundtrip:
  assumes "list_all cleanText (name # ident # comment # datas)" "trimSpace comment = comment"
    and "\<not> (name = [] \<and> datas = [] \<and> ident = [] \<and> comment = [])"
    and "int (length (printFrame (eventLines name datas ident comment))) \<le> MaxSSEFrameBytes"
    and "length datas + 3 < 4096"
  shows "Next \<lparr>bd_bytes = printFrame (eventLines name datas ident comment) @ rest, bd_end = ending\<rparr> =
      ((\<lparr>se_Name = name, se_Data = joinStrings [newline] datas, se_ID = ident, se_Comment = comment\<rparr>, None),
       \<lparr>bd_bytes = rest, bd_end = ending\<rparr>) \<and>
    (\<forall>n < length (printFrame (eventLines name datas ident comment)).
       snd (fst (Next \<lparr>bd_bytes = take n (printFrame (eventLines name datas ident comment)), bd_end = EOF\<rparr>))
         \<in> {Some EOF, Some ErrUnexpectedEOF})"
  using Next_event [OF assms]
    nextFrom_truncated [OF eventLines_good [OF assms(1)] eventLines_room [OF assms(4,5)], of "\<lparr>bd_bytes = [], bd_end = EOF\<rparr>"]
  by (auto simp: Next_def printFrame_def less_Suc_eq_le)

theorem sse_roundtrip_witness:
  "Next \<lparr>bd_bytes = printFrame (eventLines ''message'' [''{'', ''}''] [] []) @ ''next'', bd_end = EOF\<rparr> =
     ((\<lparr>se_Name = ''message'', se_Data = ''{'' @ [newline] @ ''}'', se_ID = [], se_Comment = []\<rparr>, None),
      \<lparr>bd_bytes = ''next'', bd_end = EOF\<rparr>)"
proof -
  have "list_all cleanText (''message'' # [] # [] # [''{'', ''}''])" by (simp add: cleanText_def newline_def MaxSSELineBytes_def)
  from sse_roundtrip [OF this, of "''next''" EOF] show ?thesis
    by (simp add: printFrame_def eventLines_def optionalLine_def MaxSSEFrameBytes_def)
qed

text \<open>
  The limits of a frame are not started afresh after blank lines between frames: a server that keeps the
  connection alive with more than 4096 bare newlines is refused, although no frame was begun.
\<close>

lemma nextFrom_blank_line:
  assumes "nothingRead f"
  shows "nextFrom f (b\<lparr>bd_bytes := newline # rest\<rparr>) =
    (if overLimit (countLine [] f) then ((zeroSse, Some frameLimitError), b\<lparr>bd_bytes := rest\<rparr>)
     else nextFrom (countLine [] f) (b\<lparr>bd_bytes := rest\<rparr>))"
  using readLine_printed [of "[]" rest b] assms by (subst nextFrom.simps) (simp add: MaxSSELineBytes_def Let_def)

theorem blank_lines_exhaust_frame:
  assumes "nothingRead f" "fr_lines f + int n > MaxSSEFrameLines" "fr_lines f \<le> MaxSSEFrameLines"
  shows "fst (nextFrom f (b\<lparr>bd_bytes := replicate n newline @ rest\<rparr>)) = (zeroSse, Some frameLimitError)"
  using assms
proof (induction n arbitrary: f)
  case (Suc n)
  then show ?case by (cases "overLimit (countLine [] f)") (simp_all add: nextFrom_blank_line overLimit_def)
qed simp

end
