(* ===== verification/Provider_Normalize_Laws.thy ===== *)
theory Provider_Normalize_Laws
  imports Provider_Normalize
begin

text \<open>
  What \<open>normalizeEvents\<close> guarantees of the response it accepts: the terminal discipline, the text,
  the identities of the tool calls and the reassembly of their fragments. The invariant
  \<open>soundBuilders\<close> ties the builders to the ID table, \<open>holds\<close> ties them to the fragments received.
\<close>

section \<open>The terminal event\<close>

definition terminalEvent :: "Event \<Rightarrow> bool" where
  "terminalEvent event \<longleftrightarrow> ev_Kind event = EventDone \<or> ev_Kind event = EventError"

lemma terminalLoop_seen:
  "terminalLoop (Some t) i es = Inr x \<longleftrightarrow> es = [] \<and> x = Some t"
  by (cases es) auto

lemma terminalLoop_iff:
  "terminalLoop None i es = Inr x \<longleftrightarrow>
     (if x = None then list_all (\<lambda>event. \<not> terminalEvent event) es
      else es \<noteq> [] \<and> x = Some (i + length es - 1) \<and> terminalEvent (last es)
           \<and> list_all (\<lambda>event. \<not> terminalEvent event) (butlast es))"
proof (induction es arbitrary: i)
  case (Cons e es)
  show ?case
  proof (cases "terminalEvent e")
    case True
    then have "terminalLoop None i (e # es) = terminalLoop (Some i) (Suc i) es"
      by (auto simp: terminalEvent_def)
    then show ?thesis using True by (cases es) (auto simp: terminalLoop_seen)
  next
    case False
    then have "terminalLoop None i (e # es) = terminalLoop None (Suc i) es"
      by (auto simp: terminalEvent_def)
    then show ?thesis using False Cons.IH [of "Suc i"] by (cases es) (auto simp del: terminalLoop.simps)
  qed
qed auto

lemma validateTerminalSequence_iff:
  "validateTerminalSequence es True = None \<longleftrightarrow>
     (\<exists>pre e. es = pre @ [e] \<and> terminalEvent e \<and> list_all (\<lambda>event. \<not> terminalEvent event) pre)"
proof -
  have "validateTerminalSequence es True = None \<longleftrightarrow> (\<exists>t. terminalLoop None 0 es = Inr (Some t))"
    by (auto simp: validateTerminalSequence_def split: sum.splits option.splits)
  also have "\<dots> \<longleftrightarrow> es \<noteq> [] \<and> terminalEvent (last es) \<and> list_all (\<lambda>event. \<not> terminalEvent event) (butlast es)"
    by (auto simp: terminalLoop_iff)
  also have "\<dots> \<longleftrightarrow> (\<exists>pre e. es = pre @ [e] \<and> terminalEvent e \<and> list_all (\<lambda>event. \<not> terminalEvent event) pre)"
    by (cases es rule: rev_cases) auto
  finally show ?thesis .
qed

lemma normalizeLoop_append:
  "normalizeLoop (xs @ ys) acc =
     (case normalizeLoop xs acc of Inl err \<Rightarrow> Inl err | Inr acc1 \<Rightarrow> normalizeLoop ys acc1)"
  by (induction xs arbitrary: acc) (auto split: sum.splits)

text \<open>Only the tool calls of the response change when the builders are finalized.\<close>

lemma finalize_keeps:
  "finalizeToolCalls jv r order bs = Inr r' \<Longrightarrow> \<exists>calls. r' = r\<lparr>nr_ToolCalls := calls\<rparr>"
proof (induction jv r order bs rule: finalizeToolCalls.induct)
  case (1 jv r bs)
  then show ?case by (metis NormalizedResponse.surjective NormalizedResponse.update_convs(6) finalizeToolCalls.simps(1) sum.inject(2))
next
  case (2 jv r key order bs)
  then show ?case by (force split: option.splits if_splits prod.splits)
qed

lemma normalize_success:
  assumes "normalizeEvents jv es req = Inr r"
  obtains r0 st where "normalizeLoop es (zeroNormalized, emptyBuilders) = Inr (r0, st)"
    "finalizeToolCalls jv r0 (bs_order st) (bs_builders st) = Inr r"
    "req \<Longrightarrow> validateTerminalSequence es True = None"
  using assms by (auto simp: normalizeEvents_def split: sum.splits option.splits if_splits prod.splits)

section \<open>Text\<close>

definition textDelta :: "Event \<Rightarrow> string" where
  "textDelta event = (if ev_Kind event = EventTextDelta then ev_Text event else [])"

definition thinkingDelta :: "Event \<Rightarrow> string" where
  "thinkingDelta event = (if ev_Kind event = EventThinkingDelta then ev_Thinking event else [])"

lemma textForKinds_append [simp]:
  "textForKinds (xs @ ys) kinds = textForKinds xs kinds @ textForKinds ys kinds"
  by (induction xs) auto

lemma textForKinds_appendText:
  "textForKinds (appendText kind text sig parts) kinds =
     textForKinds parts kinds @ (if kind \<in> set kinds then text else [])"
  by (cases parts rule: rev_cases) (auto simp: appendText_def zeroPart_def)

lemma contentKindForPhase_visible [simp]:
  "contentKindForPhase phase \<in> {ContentText, ContentCommentary, ContentFinalAnswer}"
  "contentKindForPhase phase \<noteq> ContentReasoning"
  by (auto simp: contentKindForPhase_def split: TextPhase.splits)

lemma normalizeEvent_text:
  assumes "normalizeEvent e (r, st) = Inr (r', st')"
  shows "nr_Text r' = nr_Text r @ textDelta e \<and> nr_Thinking r' = nr_Thinking r @ thinkingDelta e
    \<and> textForKinds (nr_Content r') visibleKinds = textForKinds (nr_Content r) visibleKinds @ textDelta e
    \<and> textForKinds (nr_Content r') [ContentReasoning]
        = textForKinds (nr_Content r) [ContentReasoning] @ thinkingDelta e
    \<and> nr_ToolCalls r' = nr_ToolCalls r"
  using assms contentKindForPhase_visible [of "ev_TextPhase e"]
  by (auto simp: normalizeEvent_def textDelta_def thinkingDelta_def appendPart_def
      textForKinds_appendText zeroPart_def Let_def split: EventKind.splits option.splits sum.splits if_splits)

lemma normalizeLoop_text:
  assumes "normalizeLoop es (r, st) = Inr (r', st')"
  shows "nr_Text r' = nr_Text r @ concat (map textDelta es)
    \<and> nr_Thinking r' = nr_Thinking r @ concat (map thinkingDelta es)
    \<and> textForKinds (nr_Content r') visibleKinds
        = textForKinds (nr_Content r) visibleKinds @ concat (map textDelta es)
    \<and> textForKinds (nr_Content r') [ContentReasoning]
        = textForKinds (nr_Content r) [ContentReasoning] @ concat (map thinkingDelta es)
    \<and> nr_ToolCalls r' = nr_ToolCalls r"
  using assms
proof (induction es arbitrary: r st)
  case (Cons e es)
  obtain r1 st1 where e: "normalizeEvent e (r, st) = Inr (r1, st1)"
    and l: "normalizeLoop es (r1, st1) = Inr (r', st')"
    using Cons.prems by (auto split: sum.splits prod.splits)
  show ?case using normalizeEvent_text [OF e] Cons.IH [OF l] by simp
qed simp

section \<open>Tool-call identities\<close>

text \<open>
  The builders of a stream: every key is in the order once, an ID leads to an existing builder, a
  builder without a conflict is the one its ID leads to, and the key made from an ID is taken only
  if the ID is known.
\<close>

definition soundBuilders :: "builderState \<Rightarrow> bool" where
  "soundBuilders st \<longleftrightarrow>
     distinct (bs_order st) \<and> set (bs_order st) = dom (bs_builders st) \<and>
     ran (bs_idKeys st) \<subseteq> dom (bs_builders st) \<and> ran (bs_indexKeys st) \<subseteq> dom (bs_builders st) \<and>
     (\<forall>key builder. bs_builders st key = Some builder \<longrightarrow> tb_identityConflict builder = None \<longrightarrow>
        tb_ID builder \<noteq> [] \<longrightarrow> bs_idKeys st (tb_ID builder) = Some key) \<and>
     (\<forall>id0. ''id:'' @ id0 \<in> dom (bs_builders st) \<longrightarrow> bs_idKeys st id0 \<noteq> None)"

lemma sound_empty: "soundBuilders emptyBuilders"
  by (simp add: soundBuilders_def emptyBuilders_def)

text \<open>Replacing a builder is safe when it gets no new identity except one that already leads to it.\<close>

lemma sound_put:
  assumes "soundBuilders st" "bs_builders st key = Some old"
    and "tb_identityConflict new = None \<Longrightarrow> tb_ID new \<noteq> [] \<Longrightarrow>
           tb_identityConflict old = None \<and> tb_ID new = tb_ID old \<or> bs_idKeys st (tb_ID new) = Some key"
  shows "soundBuilders (putBuilder key new st)"
  using assms by (auto simp: soundBuilders_def putBuilder_def)

lemma sound_idKeys:
  assumes "soundBuilders st" "key \<in> dom (bs_builders st)" "bs_idKeys st id0 = None"
  shows "soundBuilders (st\<lparr>bs_idKeys := (bs_idKeys st)(id0 \<mapsto> key)\<rparr>)"
  using assms unfolding soundBuilders_def by (auto simp: ran_def)

lemma sound_indexKeys:
  assumes "soundBuilders st" "key \<in> dom (bs_builders st)"
  shows "soundBuilders (st\<lparr>bs_indexKeys := (bs_indexKeys st)(idx \<mapsto> key)\<rparr>)"
  using assms unfolding soundBuilders_def by (auto simp: ran_def)

lemma sound_bindIndex:
  assumes "soundBuilders st" "bs_builders st key = Some builder"
  shows "soundBuilders (bindIndex key id0 index st)"
proof -
  have put: "soundBuilders (putBuilder key (builder\<lparr>tb_Index := i\<rparr>) st)"
    "soundBuilders (putBuilder key (builder\<lparr>tb_identityConflict := Some c\<rparr>) st)" for i c
    by (rule sound_put [OF assms]; simp)+
  have idx: "soundBuilders (putBuilder key (builder\<lparr>tb_Index := Some i\<rparr>) st
      \<lparr>bs_indexKeys := (bs_indexKeys st)(i \<mapsto> key)\<rparr>)" for i
    using sound_indexKeys [OF put(1) [of "Some i"], of key i] by (simp add: putBuilder_def)
  show ?thesis
    using assms put idx by (auto simp: bindIndex_def builderAt_def Let_def split: option.splits)
qed

lemma sound_bindID:
  assumes "soundBuilders st" "bs_builders st key = Some builder" "id0 \<noteq> [] \<Longrightarrow> bs_idKeys st id0 = None"
  shows "soundBuilders (bindID key idx id0 st)"
proof -
  have conflict: "soundBuilders (putBuilder key (builder\<lparr>tb_identityConflict := Some c\<rparr>) st)" for c
    by (rule sound_put [OF assms(1,2)]) simp
  have bind: "soundBuilders (putBuilder key (builder\<lparr>tb_ID := id0\<rparr>) st
      \<lparr>bs_idKeys := (bs_idKeys st)(id0 \<mapsto> key)\<rparr>)" if "id0 \<noteq> []"
  proof -
    have "soundBuilders (st\<lparr>bs_idKeys := (bs_idKeys st)(id0 \<mapsto> key)\<rparr>)"
      using assms that by (intro sound_idKeys) auto
    then have "soundBuilders (putBuilder key (builder\<lparr>tb_ID := id0\<rparr>)
        (st\<lparr>bs_idKeys := (bs_idKeys st)(id0 \<mapsto> key)\<rparr>))"
      using assms(2) by (intro sound_put) auto
    then show ?thesis by (cases st) (simp add: putBuilder_def)
  qed
  show ?thesis
    using assms conflict bind by (auto simp: bindID_def builderAt_def Let_def split: option.splits)
qed

lemma sound_newBuilder:
  assumes "soundBuilders st" "id0 \<noteq> [] \<Longrightarrow> bs_idKeys st id0 = None"
    and "\<And>x. key = ''id:'' @ x \<Longrightarrow> id0 = x \<and> x \<noteq> []"
  shows "soundBuilders (newBuilder key id0 index st)"
proof (cases "bs_builders st key")
  case None
  show ?thesis
    unfolding soundBuilders_def
  proof (intro conjI allI impI, goal_cases)
    case (5 k b)
    show ?case
      using 5 assms(1,2) None
      by (cases "k = key") (auto simp: newBuilder_def soundBuilders_def Let_def)
  next
    case (6 x)
    show ?case
      using 6 assms None by (cases "key = ''id:'' @ x") (auto simp: newBuilder_def soundBuilders_def Let_def)
  qed (use assms(1,2) None in \<open>auto simp: newBuilder_def soundBuilders_def Let_def ran_def split: option.splits if_splits\<close>)
qed (simp add: newBuilder_def assms(1))

lemma newBuilder_exists: "bs_builders (newBuilder key id0 index st) key \<noteq> None"
  by (simp add: newBuilder_def Let_def)

lemma ensure_cases:
  assumes "soundBuilders st" "ensureToolCallBuilder id0 index st = (key, st')"
  obtains (known) "id0 \<noteq> []" "bs_idKeys st id0 = Some key" "st' = bindIndex key id0 index st"
    | (indexed) idx where "id0 \<noteq> [] \<Longrightarrow> bs_idKeys st id0 = None" "index = Some idx"
        "bs_indexKeys st idx = Some key" "st' = bindID key idx id0 st"
    | (new) st0 where "id0 \<noteq> [] \<Longrightarrow> bs_idKeys st0 id0 = None" "st' = newBuilder key id0 index st0"
        "soundBuilders st0" "\<And>x. key = ''id:'' @ x \<Longrightarrow> id0 = x \<and> x \<noteq> []"
        "id0 \<noteq> [] \<Longrightarrow> key = ''id:'' @ id0" "\<exists>n. st0 = st\<lparr>bs_syntheticSeq := n\<rparr>"
        "\<And>i. index = Some i \<Longrightarrow> bs_indexKeys st i = None \<and> (id0 = [] \<longrightarrow> key = ''index:'' @ showInt i)"
proof (cases "if id0 \<noteq> [] then bs_idKeys st id0 else None")
  case (Some k)
  then show ?thesis using that(1) assms(2) by (simp add: ensureToolCallBuilder_def split: if_splits)
next
  case None
  then have fresh: "id0 \<noteq> [] \<Longrightarrow> bs_idKeys st id0 = None" by simp
  show ?thesis
  proof (cases "case index of None \<Rightarrow> None | Some idx \<Rightarrow> bs_indexKeys st idx")
    case (Some k)
    then obtain idx where "index = Some idx" "bs_indexKeys st idx = Some k" by (cases index) auto
    then show ?thesis
      using that(2) [OF fresh] None assms(2) by (auto simp: ensureToolCallBuilder_def)
  next
    case unbound: None
    have seq: "soundBuilders (st\<lparr>bs_syntheticSeq := n\<rparr>)" for n
      using assms(1) by (simp add: soundBuilders_def)
    have same: "\<exists>n. st = st\<lparr>bs_syntheticSeq := n\<rparr>"
      by (rule exI [of _ "bs_syntheticSeq st"]) simp
    have free: "\<And>i. index = Some i \<Longrightarrow> bs_indexKeys st i = None" using unbound by simp
    show ?thesis
    proof (cases "id0 = []")
      case empty: True
      show ?thesis
      proof (cases index)
        case None
        then show ?thesis
          using that(3) [of "st\<lparr>bs_syntheticSeq := bs_syntheticSeq st + 1\<rparr>"] seq empty assms(2)
          by (auto simp: ensureToolCallBuilder_def Let_def)
      next
        case (Some i)
        then have "key = ''index:'' @ showInt i" "st' = newBuilder key id0 index st"
          using None unbound empty assms(2) by (auto simp: ensureToolCallBuilder_def)
        then show ?thesis using that(3) [OF fresh _ assms(1) _ _ same] empty free Some by simp
      qed
    next
      case False
      then have "key = ''id:'' @ id0" "st' = newBuilder key id0 index st"
        using None unbound assms(2) by (auto simp: ensureToolCallBuilder_def)
      then show ?thesis using that(3) [OF fresh _ assms(1)] False same free by blast
    qed
  qed
qed

text \<open>
  The builder of a call after \<^verbatim>\<open>ensureToolCallBuilder\<close>: it exists, and the ID of the call leads to
  it unless the builder is marked as conflicting.
\<close>

lemma ensure_sound:
  assumes "soundBuilders st" "ensureToolCallBuilder id0 index st = (key, st')"
  shows "soundBuilders st' \<and> (\<exists>builder. bs_builders st' key = Some builder \<and>
    (id0 \<noteq> [] \<longrightarrow> tb_identityConflict builder = None \<longrightarrow> bs_idKeys st' id0 = Some key))"
proof -
  show ?thesis
    using assms
  proof (cases rule: ensure_cases)
    case known
    then obtain b where b: "bs_builders st key = Some b"
      using assms(1) by (auto simp: soundBuilders_def ran_def dom_def)
    have "bs_idKeys st' = bs_idKeys st" "bs_builders st' key \<noteq> None"
      using b known(3) by (auto simp: bindIndex_def putBuilder_def builderAt_def Let_def split: option.splits)
    then show ?thesis using sound_bindIndex [OF assms(1) b, of id0 index] known by simp
  next
    case (indexed idx)
    then obtain b where b: "bs_builders st key = Some b"
      using assms(1) by (auto simp: soundBuilders_def ran_def dom_def)
    have "\<exists>builder. bs_builders st' key = Some builder \<and>
        (id0 \<noteq> [] \<longrightarrow> tb_identityConflict builder = None \<longrightarrow> bs_idKeys st' id0 = Some key)"
      using b indexed by (auto simp: bindID_def putBuilder_def builderAt_def Let_def split: option.splits)
    then show ?thesis using sound_bindID [OF assms(1) b indexed(1), of idx] indexed(4) by simp
  next
    case (new st0)
    have "id0 \<noteq> [] \<Longrightarrow> bs_builders st0 key = None" 
      using new(1,3,5) unfolding soundBuilders_def by (metis domIff)
    then have "id0 \<noteq> [] \<Longrightarrow> bs_idKeys st' id0 = Some key" using new(2) by (simp add: newBuilder_def Let_def)
    then show ?thesis
      using sound_newBuilder [OF new(3,1,4), where index = index] newBuilder_exists [of key id0 index st0] new(2) by auto
  qed
qed

lemma sound_applyToolCall:
  assumes "soundBuilders st" "applyToolCallEvent call st = Inr st'"
  shows "soundBuilders st'"
proof (cases call)
  case (Some c)
  obtain key st1 where e: "ensureToolCallBuilder (tc_ID c) None st = (key, st1)" by fastforce
  show ?thesis
    using ensure_sound [OF assms(1) e] assms(2) Some e
    by (auto simp: applyToolCallEvent_def builderAt_def split: if_splits intro!: sound_put)
qed (use assms in \<open>simp add: applyToolCallEvent_def\<close>)

lemma sound_applyDelta:
  assumes "soundBuilders st"
  shows "soundBuilders (applyToolCallDeltaEvent delta st)"
proof (cases delta)
  case (Some d)
  obtain key st1 where e: "ensureToolCallBuilder (tcd_ID d) (tcd_Index d) st = (key, st1)" by fastforce
  show ?thesis
    using ensure_sound [OF assms e] Some e
    by (auto simp: applyToolCallDeltaEvent_def builderAt_def intro!: sound_put)
qed (use assms in \<open>simp add: applyToolCallDeltaEvent_def\<close>)

lemma sound_normalizeLoop:
  "normalizeLoop es (r, st) = Inr (r', st') \<Longrightarrow> soundBuilders st \<Longrightarrow> soundBuilders st'"
proof (induction es arbitrary: r st)
  case (Cons e es)
  obtain r1 st1 where e: "normalizeEvent e (r, st) = Inr (r1, st1)"
    and l: "normalizeLoop es (r1, st1) = Inr (r', st')"
    using Cons.prems by (auto split: sum.splits prod.splits)
  have "soundBuilders st1"
    using e Cons.prems(2)
    by (auto simp: normalizeEvent_def Let_def intro: sound_applyToolCall sound_applyDelta
        split: EventKind.splits sum.splits option.splits)
  then show ?case using Cons.IH [OF l] by simp
qed simp

text \<open>The call made from a builder, and when finalization accepts it.\<close>

definition builtCall :: "toolCallBuilder \<Rightarrow> ToolCall" where
  "builtCall builder = \<lparr>tc_ID = tb_ID builder, tc_Name = tb_Name builder,
     tc_Arguments = tb_Arguments builder, tc_OperationID = []\<rparr>"

definition buildable :: "(bytes \<Rightarrow> bool) \<Rightarrow> toolCallBuilder \<Rightarrow> bool" where
  "buildable jv builder \<longleftrightarrow> tb_identityConflict builder = None \<and> \<not> blank (tb_ID builder) \<and>
     (tb_Arguments builder = [] \<or> jv (tb_Arguments builder))"

lemma finalize_calls:
  assumes "finalizeToolCalls jv r order bs = Inr r'" "set order \<subseteq> dom bs"
    "length (nr_ToolCalls r) \<le> MaxToolCallsPerResponse"
  shows "length (nr_ToolCalls r') \<le> MaxToolCallsPerResponse \<and>
    nr_ToolCalls r' = nr_ToolCalls r @ map (builtCall \<circ> the \<circ> bs) order \<and>
    list_all (buildable jv \<circ> the \<circ> bs) order"
  using assms
proof (induction jv r order bs rule: finalizeToolCalls.induct)
  case (2 jv r key order bs)
  then obtain b where b: "bs key = Some b" by auto
  then show ?case
    using 2 by (auto simp: blank_def builtCall_def buildable_def split: option.splits if_splits prod.splits)
qed simp

section \<open>Reassembly of indexed fragments\<close>

text \<open>
  The reference for streams in which every tool event is a fragment with an index: one call per
  index, in the order in which the indexes first appear, its arguments the fragments of that index
  joined in arrival order.
\<close>

definition fragments :: "Event list \<Rightarrow> (int \<times> string) list" where
  "fragments events = map (\<lambda>d. (the (tcd_Index d), tcd_ArgumentsDelta d))
     (map (the \<circ> ev_ToolCallDelta) (filter (\<lambda>e. ev_Kind e = EventToolCallDelta \<and> ev_ToolCallDelta e \<noteq> None) events))"

definition firstSeen :: "'a list \<Rightarrow> 'a list" where
  "firstSeen xs = rev (remdups (rev xs))"

definition joinedAt :: "int \<Rightarrow> (int \<times> string) list \<Rightarrow> string" where
  "joinedAt i frags = concat (map snd (filter (\<lambda>p. fst p = i) frags))"

definition indexedOnly :: "Event \<Rightarrow> bool" where
  "indexedOnly e \<longleftrightarrow> (ev_Kind e \<noteq> EventToolCall \<or> ev_ToolCall e = None) \<and>
     (ev_Kind e = EventToolCallDelta \<longrightarrow>
        (case ev_ToolCallDelta e of Some d \<Rightarrow> tcd_Index d \<noteq> None | None \<Rightarrow> True))"

lemma firstSeen_snoc: "firstSeen (xs @ [x]) = (if x \<in> set xs then firstSeen xs else firstSeen xs @ [x])"
  by (simp add: firstSeen_def)

lemma set_firstSeen [simp]: "set (firstSeen xs) = set xs"
  by (simp add: firstSeen_def)

lemma joinedAt_snoc: "joinedAt i (frags @ [(j, s)]) = joinedAt i frags @ (if j = i then s else [])"
  by (simp add: joinedAt_def)

definition conflicted :: "builderState \<Rightarrow> bool" where
  "conflicted st \<longleftrightarrow> (\<exists>key builder. bs_builders st key = Some builder \<and> tb_identityConflict builder \<noteq> None)"

lemma conflicted_put: "tb_identityConflict new \<noteq> None \<Longrightarrow> conflicted (putBuilder key new st)"
  by (auto simp: conflicted_def putBuilder_def)

text \<open>The builders hold exactly the fragments received.\<close>

definition holds :: "builderState \<Rightarrow> (int \<times> string) list \<Rightarrow> bool" where
  "holds st frags \<longleftrightarrow>
     dom (bs_indexKeys st) = fst ` set frags \<and>
     bs_order st = map (the \<circ> bs_indexKeys st) (firstSeen (map fst frags)) \<and>
     (\<forall>i key. bs_indexKeys st i = Some key \<longrightarrow> (\<exists>builder. bs_builders st key = Some builder \<and>
        tb_Index builder = Some i \<and> tb_Arguments builder = joinedAt i frags)) \<and>
     (\<forall>i. ''index:'' @ showInt i \<in> dom (bs_builders st) \<longrightarrow> bs_indexKeys st i \<noteq> None)"

lemma showInt_inject: "showInt i = showInt j \<Longrightarrow> i = j"
proof -
  have nd: "showNat m \<noteq> CHR ''-'' # showNat n" for m n
    using showNat_digits [of m] by (auto simp: isDigit_def)
  assume "showInt i = showInt j"
  then show "i = j"
    using nd nd [symmetric] by (auto simp: showInt_def split: if_splits)
qed

text \<open>A recorded conflict stays recorded.\<close>

definition keepsConflicts :: "builderState \<Rightarrow> builderState \<Rightarrow> bool" where
  "keepsConflicts st st' \<longleftrightarrow> (\<forall>key builder. bs_builders st key = Some builder \<longrightarrow>
     tb_identityConflict builder \<noteq> None \<longrightarrow>
     (\<exists>builder'. bs_builders st' key = Some builder' \<and> tb_identityConflict builder' \<noteq> None))"

lemma keeps_conflicted: "keepsConflicts st st' \<Longrightarrow> conflicted st \<Longrightarrow> conflicted st'"
  unfolding keepsConflicts_def conflicted_def by blast

lemma keeps_put:
  assumes "bs_builders st key = Some old"
    "tb_identityConflict old \<noteq> None \<Longrightarrow> tb_identityConflict new \<noteq> None"
  shows "keepsConflicts st (putBuilder key new st)"
  using assms unfolding keepsConflicts_def putBuilder_def by auto

lemma keeps_ensure:
  assumes "soundBuilders st" "ensureToolCallBuilder id0 index st = (key, st')"
  shows "keepsConflicts st st'"
proof -
  have there: "\<exists>b. bs_builders st k = Some b" if "k \<in> ran (bs_idKeys st) \<union> ran (bs_indexKeys st)" for k
    using assms(1) that by (auto simp: soundBuilders_def)
  show ?thesis
    using assms
  proof (cases rule: ensure_cases)
    case known
    then show ?thesis
      using there [of key]
      by (auto simp: bindIndex_def keepsConflicts_def putBuilder_def builderAt_def ran_def Let_def split: option.splits)
  next
    case (indexed idx)
    then show ?thesis
      using there [of key]
      by (auto simp: bindID_def keepsConflicts_def putBuilder_def builderAt_def ran_def Let_def split: option.splits)
  next
    case (new st0)
    have "bs_builders st0 = bs_builders st" using new(6) by auto
    then show ?thesis
      using new(2) by (cases "bs_builders st key") (auto simp: newBuilder_def keepsConflicts_def Let_def)
  qed
qed

lemma holds_builder:
  assumes "holds st frags" "bs_indexKeys st i = Some key" "bs_builders st key = Some builder"
  shows "tb_Index builder = Some i \<and> tb_Arguments builder = joinedAt i frags"
  using assms unfolding holds_def by fastforce

lemma holds_put:
  assumes "holds st frags" "bs_indexKeys st i = Some key" "bs_builders st key = Some builder"
    and "tb_Index new = Some i" "tb_Arguments new = tb_Arguments builder @ z"
  shows "holds (putBuilder key new st) (frags @ [(i, z)])"
proof -
  have mem: "i \<in> fst ` set frags" using assms(1,2) by (auto simp: holds_def)
  have old: "tb_Index builder = Some i" "tb_Arguments builder = joinedAt i frags"
    using holds_builder [OF assms(1-3)] by simp_all
  have dom_put: "dom (bs_builders (putBuilder key new st)) = dom (bs_builders st)"
    using assms(3) by (auto simp: putBuilder_def)
  show ?thesis
    unfolding holds_def
  proof (intro conjI allI impI, goal_cases)
    case (3 j k)
    have jk: "bs_indexKeys st j = Some k" using 3 by (simp add: putBuilder_def)
    then obtain b' where b': "bs_builders st k = Some b'" "tb_Index b' = Some j" "tb_Arguments b' = joinedAt j frags"
      using assms(1) unfolding holds_def by blast
    then show ?case
      using assms(2-5) old jk by (cases "k = key") (auto simp: putBuilder_def joinedAt_snoc)
  next
    case (4 j)
    then have "bs_indexKeys st j \<noteq> None" using assms(1) unfolding dom_put holds_def by blast
    then show ?case by (simp add: putBuilder_def)
  qed (use assms(1) mem in \<open>auto simp: holds_def putBuilder_def firstSeen_snoc\<close>)
qed

text \<open>After \<^verbatim>\<open>ensureToolCallBuilder\<close> the index leads to the builder of the fragment, or there is a conflict.\<close>

lemma holds_present:
  "i \<in> fst ` set frags \<Longrightarrow> holds st (frags @ [(i, [])]) = holds st frags"
  by (auto simp: holds_def firstSeen_snoc joinedAt_snoc insert_absorb)

lemma ensure_holds:
  assumes "soundBuilders st" "holds st frags" "ensureToolCallBuilder id0 (Some i) st = (key, st')"
  shows "conflicted st' \<or> holds st' (frags @ [(i, [])]) \<and> bs_indexKeys st' i = Some key"
  using assms(1,3)
proof (cases rule: ensure_cases)
  case known
  obtain b where b: "bs_builders st key = Some b" using known(2) assms(1) by (auto simp: soundBuilders_def ran_def)
  have "key \<in> set (bs_order st)" using b assms(1) by (auto simp: soundBuilders_def)
  then obtain i' where i': "bs_indexKeys st i' = Some key" 
    using assms(2) by (auto simp: holds_def) (metis (no_types, lifting) domD fst_conv image_eqI option.sel)
  then have bi: "tb_Index b = Some i'" using holds_builder [OF assms(2)] b by blast
  show ?thesis
  proof (cases "i' = i")
    case True
    then have "st' = st" "i \<in> fst ` set frags"
      using known(3) b bi i' assms(2) by (auto simp: bindIndex_def builderAt_def putBuilder_def holds_def fun_upd_idem)
    then show ?thesis using assms(2) i' True by (simp add: holds_present)
  next
    case False
    then show ?thesis
      using known(3) b bi
      by (auto simp: bindIndex_def builderAt_def conflicted_put Let_def split: option.splits)
  qed
next
  case (indexed idx)
  obtain b where b: "bs_builders st key = Some b" "tb_Index b = Some i" "tb_Arguments b = joinedAt i frags"
    using indexed(2,3) assms(2) unfolding holds_def by blast
  have mem: "i \<in> fst ` set frags" using indexed(2,3) assms(2) by (auto simp: holds_def)
  show ?thesis
  proof (cases "st' = st")
    case False
    then consider "conflicted st'" | "st' = (putBuilder key (b\<lparr>tb_ID := id0\<rparr>) st)\<lparr>bs_idKeys := (bs_idKeys st)(id0 \<mapsto> key)\<rparr>"
      using indexed(4) b
      by (auto simp: bindID_def builderAt_def conflicted_put Let_def split: if_splits option.splits)
    then show ?thesis
    proof cases
      case 2
      have "holds (putBuilder key (b\<lparr>tb_ID := id0\<rparr>) st) (frags @ [(i, [])])"
        using holds_put [OF assms(2) _ b(1)] indexed(2,3) b(2) by simp
      then show ?thesis using indexed(2,3) 2 by (simp add: holds_def putBuilder_def)
    qed simp
  qed (use indexed(2,3) assms(2) mem in \<open>simp add: holds_present\<close>)
next
  case (new st0)
  have same: "bs_builders st0 = bs_builders st" "bs_indexKeys st0 = bs_indexKeys st" "bs_order st0 = bs_order st"
    using new(6) by auto
  have free: "bs_indexKeys st i = None" using new(7) by simp
  have fresh: "bs_builders st key = None"
  proof (cases "id0 = []")
    case True
    then show ?thesis using new(7) [of i] assms(2) free by (auto simp: holds_def)
  next
    case False
    then show ?thesis using new(1,3,5) same(1) unfolding soundBuilders_def by (metis domIff)
  qed
  have st': "bs_builders st' = (bs_builders st)(key \<mapsto> \<lparr>tb_ID = id0, tb_Index = Some i, tb_Name = [],
        tb_Arguments = [], tb_fullSeen = False, tb_identityConflict = None\<rparr>)"
    "bs_order st' = bs_order st @ [key]" "bs_indexKeys st' = (bs_indexKeys st)(i \<mapsto> key)"
    using new(2) fresh same by (auto simp: newBuilder_def Let_def)
  have unseen: "i \<notin> fst ` set frags" using free assms(2) by (auto simp: holds_def)
  have "holds st' (frags @ [(i, [])])"
    unfolding holds_def
  proof (intro conjI allI impI, goal_cases)
    case 1
    show ?case using assms(2) st'(3) by (auto simp: holds_def)
  next
    case 2
    show ?case using assms(2) st' unseen by (auto simp: holds_def firstSeen_snoc intro!: map_cong)
  next
    case (3 j k)
    have none: "joinedAt i frags = []" using unseen by (force simp: joinedAt_def filter_empty_conv)
    show ?case
    proof (cases "j = i")
      case False
      then have jk: "bs_indexKeys st j = Some k" using 3 st'(3) by simp
      then obtain b where "bs_builders st k = Some b" "tb_Index b = Some j" "tb_Arguments b = joinedAt j frags"
        using assms(2) unfolding holds_def by blast
      moreover have "k \<noteq> key" using calculation(1) fresh by auto
      ultimately show ?thesis using False st'(1) by (simp add: joinedAt_snoc)
    qed (use 3 st' none in \<open>auto simp: joinedAt_snoc\<close>)
  next
    case (4 j)
    show ?case
    proof (cases "''index:'' @ showInt j \<in> dom (bs_builders st)")
      case True
      then have "bs_indexKeys st j \<noteq> None" using assms(2) unfolding holds_def by blast
      then show ?thesis using st'(3) by simp
    next
      case False
      then have key: "key = ''index:'' @ showInt j" using 4 st'(1) by simp
      then have "id0 = []" using new(5) by auto
      then have "showInt i = showInt j" using new(7) [of i] key by simp
      then show ?thesis using st'(3) showInt_inject by simp
    qed
  qed
  then show ?thesis using st'(3) by simp
qed

text \<open>One fragment: a conflict, or one more fragment held.\<close>

lemma applyDelta_holds:
  assumes "soundBuilders st" "holds st frags" "tcd_Index d = Some i"
  shows "conflicted (applyToolCallDeltaEvent (Some d) st)
    \<or> holds (applyToolCallDeltaEvent (Some d) st) (frags @ [(i, tcd_ArgumentsDelta d)])"
proof -
  obtain key st1 where e: "ensureToolCallBuilder (tcd_ID d) (Some i) st = (key, st1)" by fastforce
  obtain b where b: "bs_builders st1 key = Some b" using ensure_sound [OF assms(1) e] by auto
  show ?thesis
  proof (cases "conflicted st1")
    case True
    then have "conflicted (putBuilder key new st1)" if "tb_identityConflict new = tb_identityConflict b" for new
      using keeps_conflicted [OF keeps_put [OF b, of new]] that by simp
    then show ?thesis using e b assms(3) by (simp add: applyToolCallDeltaEvent_def builderAt_def)
  next
    case False
    then have h: "holds st1 (frags @ [(i, [])])" "bs_indexKeys st1 i = Some key"
      using ensure_holds [OF assms(1,2) e] by auto
    have "holds (putBuilder key new st1) ((frags @ [(i, [])]) @ [(i, z)])"
      if "tb_Index new = Some i" "tb_Arguments new = tb_Arguments b @ z" for new z
      using holds_put [OF h b that] .
    moreover have "holds s ((frags @ [(i, [])]) @ [(i, z)]) = holds s (frags @ [(i, z)])" for s z
      unfolding holds_def append_assoc [symmetric] map_append list.map firstSeen_snoc joinedAt_snoc
      by (simp add: firstSeen_snoc joinedAt_snoc del: append_assoc)
    ultimately show ?thesis
      using e b assms(3) by (simp add: applyToolCallDeltaEvent_def builderAt_def)
  qed
qed

lemma applyDelta_conflicted:
  assumes "soundBuilders st" "conflicted st"
  shows "conflicted (applyToolCallDeltaEvent (Some d) st)"
proof -
  obtain key st1 where e: "ensureToolCallBuilder (tcd_ID d) (tcd_Index d) st = (key, st1)" by fastforce
  obtain b where b: "bs_builders st1 key = Some b" using ensure_sound [OF assms(1) e] by auto
  have "conflicted (putBuilder key new st1)" if "tb_identityConflict new = tb_identityConflict b" for new
    using keeps_conflicted [OF keeps_put [OF b, of new]] keeps_conflicted [OF keeps_ensure [OF assms(1) e] assms(2)]
      that by simp
  then show ?thesis using e b by (simp add: applyToolCallDeltaEvent_def builderAt_def)
qed

lemma normalizeEvent_holds:
  assumes "normalizeEvent e (r, st) = Inr (r', st')" "indexedOnly e" "soundBuilders st"
    "conflicted st \<or> holds st frags"
  shows "soundBuilders st' \<and> (conflicted st' \<or> holds st' (frags @ fragments [e]))"
proof (cases "ev_Kind e = EventToolCallDelta \<and> ev_ToolCallDelta e \<noteq> None")
  case True
  then obtain d where d: "ev_ToolCallDelta e = Some d" "ev_Kind e = EventToolCallDelta" by auto
  then obtain i where i: "tcd_Index d = Some i" using assms(2) by (auto simp: indexedOnly_def)
  have "st' = applyToolCallDeltaEvent (Some d) st" using assms(1) d by (simp add: normalizeEvent_def Let_def)
  then show ?thesis
    using d i assms(3,4) applyDelta_holds [OF assms(3) _ i] applyDelta_conflicted [OF assms(3)] sound_applyDelta
    by (auto simp: fragments_def)
next
  case False
  then have "st' = st"
    using assms(1,2)
    by (auto simp: normalizeEvent_def indexedOnly_def Let_def applyToolCallEvent_def applyToolCallDeltaEvent_def
        split: EventKind.splits option.splits sum.splits)
  moreover have "fragments [e] = []" using False unfolding fragments_def by (auto simp: filter_empty_conv)
  ultimately show ?thesis using assms(3,4) by simp
qed

lemma normalizeLoop_holds:
  "normalizeLoop es (r, st) = Inr (r', st') \<Longrightarrow> list_all indexedOnly es \<Longrightarrow> soundBuilders st \<Longrightarrow>
   conflicted st \<or> holds st frags \<Longrightarrow> conflicted st' \<or> holds st' (frags @ fragments es)"
proof (induction es arbitrary: r st frags)
  case (Cons e es)
  obtain r1 st1 where e: "normalizeEvent e (r, st) = Inr (r1, st1)"
    and l: "normalizeLoop es (r1, st1) = Inr (r', st')"
    using Cons.prems(1) by (auto split: sum.splits prod.splits)
  have "fragments (e # es) = fragments [e] @ fragments es" by (simp add: fragments_def)
  moreover have "soundBuilders st1 \<and> (conflicted st1 \<or> holds st1 (frags @ fragments [e]))"
    using normalizeEvent_holds [OF e _ Cons.prems(3,4)] Cons.prems(2) by simp
  ultimately show ?case
    using Cons.IH [OF l, of "frags @ fragments [e]"] Cons.prems(2) by simp
qed (simp add: fragments_def)

text \<open>What finalization does with the builders of a successful stream.\<close>

lemma normalize_calls:
  assumes "normalizeEvents jv es req = Inr r"
  obtains st r0 where "normalizeLoop es (zeroNormalized, emptyBuilders) = Inr (r0, st)" "soundBuilders st"
    "\<not> conflicted st" "length (nr_ToolCalls r) \<le> MaxToolCallsPerResponse"
    "nr_ToolCalls r = map (builtCall \<circ> the \<circ> bs_builders st) (bs_order st)"
    "list_all (buildable jv \<circ> the \<circ> bs_builders st) (bs_order st)"
proof -
  obtain r0 st where l: "normalizeLoop es (zeroNormalized, emptyBuilders) = Inr (r0, st)"
    and f: "finalizeToolCalls jv r0 (bs_order st) (bs_builders st) = Inr r"
    using normalize_success [OF assms] by blast
  have s: "soundBuilders st" by (rule sound_normalizeLoop [OF l sound_empty])
  have none: "nr_ToolCalls r0 = []" using normalizeLoop_text [OF l] by (simp add: zeroNormalized_def)
  have sub: "set (bs_order st) \<subseteq> dom (bs_builders st)" using s by (simp add: soundBuilders_def)
  have c: "length (nr_ToolCalls r) \<le> MaxToolCallsPerResponse"
    "nr_ToolCalls r = map (builtCall \<circ> the \<circ> bs_builders st) (bs_order st)"
    "list_all (buildable jv \<circ> the \<circ> bs_builders st) (bs_order st)"
    using finalize_calls [OF f sub] none by auto
  have "tb_identityConflict b = None" if "bs_builders st key = Some b" for key b
  proof -
    have "key \<in> set (bs_order st)" using that s by (auto simp: soundBuilders_def)
    then show ?thesis using c(3) that by (force simp: list_all_iff buildable_def)
  qed
  then have "\<not> conflicted st" by (auto simp: conflicted_def)
  then show ?thesis using that [OF l s _ c] by blast
qed

section \<open>Properties\<close>

text \<open>
  A stream is accepted only if it is properly terminated: it has exactly one terminal event, that
  event is the last one and is a \<^verbatim>\<open>done\<close> event, never an error event, and the response's stop reason
  is the one it carries.
\<close>

theorem normalize_terminal:
  assumes "NormalizeEvents jv es = Inr r"
  shows "\<exists>pre event. es = pre @ [event] \<and> ev_Kind event = EventDone
    \<and> list_all (\<lambda>e. ev_Kind e \<noteq> EventDone \<and> ev_Kind e \<noteq> EventError) pre
    \<and> nr_StopReason r = ev_StopReason event"
proof -
  obtain r0 st where l: "normalizeLoop es (zeroNormalized, emptyBuilders) = Inr (r0, st)"
    and f: "finalizeToolCalls jv r0 (bs_order st) (bs_builders st) = Inr r"
    and t: "validateTerminalSequence es True = None"
    using normalize_success [OF assms [unfolded NormalizeEvents_def]] by blast
  obtain pre e where es: "es = pre @ [e]" "terminalEvent e" "list_all (\<lambda>e. \<not> terminalEvent e) pre"
    using t by (auto simp: validateTerminalSequence_iff)
  obtain r1 st1 where "normalizeEvent e (r1, st1) = Inr (r0, st)"
    using l es(1) by (auto simp: normalizeLoop_append split: sum.splits prod.splits)
  then have "ev_Kind e = EventDone \<and> nr_StopReason r0 = ev_StopReason e"
    using es(2) by (auto simp: terminalEvent_def normalizeEvent_def Let_def split: option.splits)
  then show ?thesis
    using es finalize_keeps [OF f] by (intro exI [of _ pre] exI [of _ e]) (auto simp: terminalEvent_def list_all_iff)
qed

text \<open>
  No text is lost, repeated or reordered: the response's text is the concatenation of the text
  deltas, its reasoning that of the thinking deltas, and the structured content of the response reads
  back as exactly the same two strings, so the legacy and the canonical representation agree.
\<close>

theorem normalize_text:
  assumes "normalizeEvents jv es requireTerminal = Inr r"
  shows "nr_Text r = concat (map textDelta es)
    \<and> nr_Thinking r = concat (map thinkingDelta es)
    \<and> textForKinds (nr_Content r) visibleKinds = nr_Text r
    \<and> textForKinds (nr_Content r) [ContentReasoning] = nr_Thinking r"
proof -
  obtain r0 st where l: "normalizeLoop es (zeroNormalized, emptyBuilders) = Inr (r0, st)"
    and f: "finalizeToolCalls jv r0 (bs_order st) (bs_builders st) = Inr r"
    using normalize_success [OF assms] by blast
  show ?thesis using normalizeLoop_text [OF l] finalize_keeps [OF f] by (auto simp: zeroNormalized_def)
qed

lemma normalizeEvents_calls:
  assumes "normalizeEvents jv es requireTerminal = Inr r"
  shows "length (nr_ToolCalls r) \<le> 1024
    \<and> distinct (map tc_ID (nr_ToolCalls r))
    \<and> list_all (\<lambda>call. \<not> blank (tc_ID call) \<and> (tc_Arguments call = [] \<or> jv (tc_Arguments call))) (nr_ToolCalls r)"
proof -
  obtain st where s: "soundBuilders st" and len: "length (nr_ToolCalls r) \<le> MaxToolCallsPerResponse"
    and calls: "nr_ToolCalls r = map (builtCall \<circ> the \<circ> bs_builders st) (bs_order st)"
    and able: "list_all (buildable jv \<circ> the \<circ> bs_builders st) (bs_order st)"
    using normalize_calls [OF assms] by blast
  have leads: "bs_idKeys st (tb_ID (the (bs_builders st key))) = Some key" 
    if member: "key \<in> set (bs_order st)" for key
  proof -
    obtain b where b: "bs_builders st key = Some b"
      using member s unfolding soundBuilders_def by blast
    have "list_all (\<lambda>k. buildable jv (the (bs_builders st k))) (bs_order st)" using able by (simp add: comp_def)
    then have "buildable jv b" using member b unfolding list_all_iff by (metis option.sel)
    then have "tb_identityConflict b = None" "tb_ID b \<noteq> []"
      using not_blank_nonempty by (auto simp: buildable_def)
    moreover have "bs_builders st key = Some b \<longrightarrow> tb_identityConflict b = None \<longrightarrow> tb_ID b \<noteq> [] \<longrightarrow>
        bs_idKeys st (tb_ID b) = Some key"
      using s unfolding soundBuilders_def by blast
    ultimately show ?thesis using b by simp
  qed
  have "inj_on (\<lambda>key. tb_ID (the (bs_builders st key))) (set (bs_order st))"
  proof (rule inj_onI)
    fix k l
    assume k: "k \<in> set (bs_order st)" and l: "l \<in> set (bs_order st)"
      and same: "tb_ID (the (bs_builders st k)) = tb_ID (the (bs_builders st l))"
    show "k = l" using leads [OF k] leads [OF l] unfolding same by (rule option.inject [THEN iffD1, OF trans [OF sym]])
  qed
  then have "distinct (map tc_ID (nr_ToolCalls r))"
    using s by (simp add: calls soundBuilders_def distinct_map builtCall_def comp_def)
  moreover have "list_all (\<lambda>call. \<not> blank (tc_ID call) \<and> (tc_Arguments call = [] \<or> jv (tc_Arguments call)))
      (nr_ToolCalls r)"
    using able unfolding calls list_all_iff by (simp add: builtCall_def buildable_def)
  ultimately show ?thesis using len by (simp add: MaxToolCallsPerResponse_def)
qed

text \<open>
  C34. The tool calls of an accepted response can be dispatched: at most 1024 of them, each with a
  non-blank ID, no ID used twice (whatever mixture of IDs and indexes the fragments used), and
  arguments that are empty or valid JSON.
\<close>

theorem normalize_tool_calls:
  assumes "normalizeEvents jv es requireTerminal = Inr r"
  shows "length (nr_ToolCalls r) \<le> 1024
    \<and> distinct (map tc_ID (nr_ToolCalls r))
    \<and> list_all (\<lambda>call. \<not> blank (tc_ID call) \<and> (tc_Arguments call = [] \<or> jv (tc_Arguments call))) (nr_ToolCalls r)"
  by (rule normalizeEvents_calls [OF assms])

text \<open>
  C35. Interleaved fragments are reassembled correctly: in a stream whose tool events are fragments
  with an index, an accepted response has exactly one call per index, in the order the indexes first
  appear, and its arguments are the fragments of that index joined in arrival order.
\<close>

theorem normalize_reassembles:
  assumes "normalizeEvents jv es requireTerminal = Inr r" and "list_all indexedOnly es"
  shows "map tc_Arguments (nr_ToolCalls r)
    = map (\<lambda>i. joinedAt i (fragments es)) (firstSeen (map fst (fragments es)))"
proof -
  obtain st r0 where l: "normalizeLoop es (zeroNormalized, emptyBuilders) = Inr (r0, st)" and s: "soundBuilders st"
    and nc: "\<not> conflicted st"
    and calls: "nr_ToolCalls r = map (builtCall \<circ> the \<circ> bs_builders st) (bs_order st)"
    using normalize_calls [OF assms(1)] by metis
  have "holds emptyBuilders []" by (simp add: holds_def emptyBuilders_def firstSeen_def)
  then have h: "holds st (fragments es)"
    using normalizeLoop_holds [OF l assms(2) sound_empty, of "[]"] nc by simp
  have "tb_Arguments (the (bs_builders st (the (bs_indexKeys st i)))) = joinedAt i (fragments es)"
    if i: "i \<in> fst ` set (fragments es)" for i
  proof -
    obtain key where k: "bs_indexKeys st i = Some key" using h i unfolding holds_def by (metis domD)
    then obtain b where "bs_builders st key = Some b" "tb_Arguments b = joinedAt i (fragments es)"
      using h unfolding holds_def by blast
    then show ?thesis using k by simp
  qed
  moreover have "bs_order st = map (the \<circ> bs_indexKeys st) (firstSeen (map fst (fragments es)))"
    using h unfolding holds_def by blast
  ultimately show ?thesis by (simp add: calls builtCall_def)
qed


section \<open>Witnesses\<close>

text \<open>
  A stream in the shape an OpenAI-compatible provider sends: text, reasoning, two interleaved calls
  whose fragments carry the ID only once, and the terminal event.
\<close>

definition fragmentEvent :: "int \<Rightarrow> string \<Rightarrow> string \<Rightarrow> string \<Rightarrow> Event" where
  "fragmentEvent i id0 name args = zeroEvent\<lparr>ev_Kind := EventToolCallDelta,
     ev_ToolCallDelta := Some \<lparr>tcd_Index = Some i, tcd_ID = id0, tcd_Name = name, tcd_ArgumentsDelta = args\<rparr>\<rparr>"

definition demoStream :: "Event list" where
  "demoStream =
     [zeroEvent\<lparr>ev_Kind := EventTextDelta, ev_Text := ''he''\<rparr>,
      zeroEvent\<lparr>ev_Kind := EventThinkingDelta, ev_Thinking := ''hm''\<rparr>,
      zeroEvent\<lparr>ev_Kind := EventTextDelta, ev_Text := ''y''\<rparr>,
      fragmentEvent 0 ''a'' ''f'' ''1'', fragmentEvent 1 ''b'' ''g'' ''3'', fragmentEvent 0 [] [] ''2'',
      zeroEvent\<lparr>ev_Kind := EventDone, ev_StopReason := StopReasonToolUse\<rparr>]"

definition demoResponse :: NormalizedResponse where
  "demoResponse = (case NormalizeEvents (\<lambda>_. True) demoStream of Inr r \<Rightarrow> r | Inl _ \<Rightarrow> zeroNormalized)"

lemma demoStream_accepted: "NormalizeEvents (\<lambda>_. True) demoStream = Inr demoResponse"
  by code_simp

lemma demoStream_partial: "normalizeEvents (\<lambda>_. True) demoStream True = Inr demoResponse"
  using demoStream_accepted by (simp add: NormalizeEvents_def)

lemma normalize_terminal_witness:
  "nr_StopReason demoResponse = StopReasonToolUse \<and> ev_Kind (last demoStream) = EventDone"
proof -
  obtain pre event where "demoStream = pre @ [event]" "ev_Kind event = EventDone"
    "nr_StopReason demoResponse = ev_StopReason event"
    using normalize_terminal [OF demoStream_accepted] by blast
  moreover have "ev_StopReason (last demoStream) = StopReasonToolUse" by (simp add: demoStream_def zeroEvent_def)
  ultimately show ?thesis by (metis last_snoc)
qed

lemma normalize_text_witness: "nr_Text demoResponse = ''hey'' \<and> nr_Thinking demoResponse = ''hm''"
  using normalize_text [OF demoStream_partial]
  by (simp add: demoStream_def fragmentEvent_def zeroEvent_def textDelta_def thinkingDelta_def)

lemma normalize_tool_calls_witness:
  "distinct (map tc_ID (nr_ToolCalls demoResponse)) \<and> length (nr_ToolCalls demoResponse) = 2"
proof -
  have "length (nr_ToolCalls demoResponse) = 2" by code_simp
  then show ?thesis using normalize_tool_calls [OF demoStream_partial] by blast
qed

lemma normalize_reassembles_witness: "map tc_Arguments (nr_ToolCalls demoResponse) = [''12'', ''3'']"
proof -
  have "list_all indexedOnly demoStream"
    by (simp add: demoStream_def fragmentEvent_def zeroEvent_def indexedOnly_def)
  then have "map tc_Arguments (nr_ToolCalls demoResponse)
      = map (\<lambda>i. joinedAt i (fragments demoStream)) (firstSeen (map fst (fragments demoStream)))"
    by (rule normalize_reassembles [OF demoStream_partial])
  also have "\<dots> = [''12'', ''3'']"
    by (simp add: demoStream_def fragmentEvent_def zeroEvent_def fragments_def firstSeen_def joinedAt_def)
  finally show ?thesis .
qed

end
