(* ===== verification/Provider_Anthropic_Properties.thy ===== *)
theory Provider_Anthropic_Properties
  imports Provider_Anthropic Provider_Sse_Properties Provider_Normalize_Laws
begin

text \<open>
  What the Anthropic driver promises: a request made from a complete history answers every tool use in the message
  that follows it, and the events of a response are delivered in order and put together to the tool calls that the
  server sent.
\<close>

section \<open>Requests\<close>

fun toolUseID :: "contentBlock \<Rightarrow> string option" where
  "toolUseID (ToolUseBlock i _ _) = Some i"
| "toolUseID _ = None"

fun toolResultID :: "contentBlock \<Rightarrow> string option" where
  "toolResultID (ToolResultBlock i _ _) = Some i"
| "toolResultID _ = None"

definition toolUses :: "anthropicMessage \<Rightarrow> string list" where
  "toolUses item = List.map_filter toolUseID (am_Content item)"

definition toolResults :: "anthropicMessage \<Rightarrow> string list" where
  "toolResults item = List.map_filter toolResultID (am_Content item)"

text \<open>
  The contract of the API: the message after one with tool uses is a user message of nothing but their results, and
  there are no other results.
\<close>

fun pairedItems :: "anthropicMessage list \<Rightarrow> bool" where
  "pairedItems [] = True"
| "pairedItems (item # items) =
     (toolResults item = [] \<and>
      (if toolUses item = [] then pairedItems items
       else case items of
           [] \<Rightarrow> False
         | answer # rest \<Rightarrow>
             am_Role item = ''assistant'' \<and> am_Role answer = ''user'' \<and> toolUses answer = [] \<and>
             length (toolResults answer) = length (am_Content answer) \<and>
             mset (toolResults answer) = mset (toolUses item) \<and> pairedItems rest))"

lemma pairedItems_append: "pairedItems xs \<Longrightarrow> pairedItems ys \<Longrightarrow> pairedItems (xs @ ys)"
  by (induction xs rule: pairedItems.induct) (auto split: list.splits if_splits)

lemma map_filter_append: "List.map_filter f (xs @ ys) = List.map_filter f xs @ List.map_filter f ys"
  by (simp add: List.map_filter_def)

lemma map_filter_none: "(\<And>x. x \<in> set xs \<Longrightarrow> f x = None) \<Longrightarrow> List.map_filter f xs = []"
  by (auto simp: List.map_filter_def filter_empty_conv)

lemma map_filter_all: "(\<And>x. x \<in> set xs \<Longrightarrow> f x = Some (g x)) \<Longrightarrow> List.map_filter f xs = map g xs"
  by (induction xs) (auto simp: List.map_filter_def)

lemma inputBlocks_plain:
  "anthropicInputBlocks parts = Inr blocks \<Longrightarrow> block \<in> set blocks \<Longrightarrow> toolUseID block = None \<and> toolResultID block = None"
  by (induction parts arbitrary: blocks)
    (auto split: if_splits sum.splits simp: map_sum_def split: sum.splits)

lemma map_sum_Inr: "map_sum id f x = Inr y \<longleftrightarrow> (\<exists>z. x = Inr z \<and> y = f z)"
  by (cases x) auto

lemma assistantParts_plain:
  "assistantParts saw parts = Inr blocks \<Longrightarrow> block \<in> set blocks \<Longrightarrow> toolUseID block = None \<and> toolResultID block = None"
proof (induction saw parts arbitrary: blocks rule: assistantParts.induct)
  case (2 saw part parts)
  then show ?case by (auto simp: map_sum_Inr split: if_splits)
qed simp

lemma assistantBlocks_uses:
  assumes "assistantBlocks msg = Inr blocks"
  shows "List.map_filter toolUseID blocks = map tc_ID (m_ToolCalls msg)" "List.map_filter toolResultID blocks = []"
proof -
  obtain parts where p: "assistantParts False (CanonicalContent msg) = Inr parts" "blocks = parts @ map toolUseBlock (m_ToolCalls msg)"
    using assms by (auto simp: assistantBlocks_def map_sum_Inr)
  have "List.map_filter toolUseID (map toolUseBlock calls) = map tc_ID calls"
    "List.map_filter toolResultID (map toolUseBlock calls) = []" for calls
    by (induction calls) (simp_all add: List.map_filter_def toolUseBlock_def)
  then show "List.map_filter toolUseID blocks = map tc_ID (m_ToolCalls msg)" "List.map_filter toolResultID blocks = []"
    using p assistantParts_plain [OF p(1)] by (simp_all add: map_filter_append map_filter_none)
qed

lemma toolResultBlock_ids:
  "toolResultBlock result = Inr block \<Longrightarrow> toolResultID block = Some (tr_ToolCallID result) \<and> toolUseID block = None"
  by (auto simp: toolResultBlock_def split: sum.splits)

lemma flush_fields [simp]:
  "tn_pending (flush t) = []"
  "tn_items (flush t) = tn_items t @ (if tn_pending t = [] then [] else [\<lparr>am_Role = ''user'', am_Content = tn_pending t\<rparr>])"
  by (simp_all add: flush_def)

lemma flush_pending: "tn_pending t = [] \<Longrightarrow> flush t = t"
  by (simp add: flush_def)

lemma appendItem_fields [simp]:
  "tn_pending (appendItem role blocks t) = tn_pending t"
  "tn_items (appendItem role blocks t) =
     tn_items t @ (if blocks = [] then [] else [\<lparr>am_Role = role, am_Content = blocks\<rparr>])"
  by (simp_all add: appendItem_def)

text \<open>A message outside a tool turn adds at most an item without tool blocks.\<close>

lemma translate_plain:
  assumes "translateMessage msg t = Inr t1" "plainMessage msg"
  shows "tn_pending t1 = [] \<and> (\<exists>new. tn_items t1 = tn_items (flush t) @ new \<and> pairedItems new)"
proof -
  consider "m_Role msg = RoleSystem" | "m_Role msg = RoleAssistant" | "m_Role msg \<notin> {RoleSystem, RoleAssistant, RoleTool}"
    using assms(2) by (auto simp: plainMessage_def)
  then show ?thesis
  proof cases
    case 1
    then show ?thesis using assms(1) by (auto simp: translateMessage_def map_sum_Inr intro: exI [of _ "[]"])
  next
    case 2
    then obtain blocks where b: "assistantBlocks msg = Inr blocks" "t1 = appendItem ''assistant'' blocks (flush t)"
      using assms(1) by (auto simp: translateMessage_def map_sum_Inr)
    have "pairedItems (if blocks = [] then [] else [\<lparr>am_Role = ''assistant'', am_Content = blocks\<rparr>])"
      using assistantBlocks_uses [OF b(1)] assms(2) by (simp add: toolUses_def toolResults_def plainMessage_def)
    then show ?thesis using b(2) by auto
  next
    case 3
    then obtain blocks where b: "anthropicInputBlocks (CanonicalContent msg) = Inr blocks" "t1 = appendItem ''user'' blocks (flush t)"
      using assms(1) by (auto simp: translateMessage_def map_sum_Inr)
    have "pairedItems (if blocks = [] then [] else [\<lparr>am_Role = ''user'', am_Content = blocks\<rparr>])"
      using inputBlocks_plain [OF b(1)] by (simp add: toolUses_def toolResults_def map_filter_none)
    then show ?thesis using b(2) by auto
  qed
qed

text \<open>The results of a turn wait together until the next message.\<close>

lemma translate_results:
  assumes "list_all resultMessage results" "translateMessages (results @ rest) t = Inr t2"
  shows "\<exists>blocks. translateMessages rest (t\<lparr>tn_pending := tn_pending t @ blocks\<rparr>) = Inr t2 \<and>
    List.map_filter toolUseID blocks = [] \<and> length blocks = length results \<and>
    List.map_filter toolResultID blocks = map (tr_ToolCallID \<circ> resultOf) results"
  using assms
proof (induction results arbitrary: t)
  case Nil
  then show ?case by (intro exI [of _ "[]"]) (simp add: List.map_filter_def)
next
  case (Cons msg results)
  then obtain r where r: "m_Role msg = RoleTool" "m_ToolResult msg = Some r" by (auto simp: resultMessage_def)
  obtain t1 where t1: "translateMessage msg t = Inr t1" "translateMessages (results @ rest) t1 = Inr t2"
    using Cons.prems(2) by (auto split: sum.splits)
  obtain block where b: "toolResultBlock r = Inr block" "t1 = t\<lparr>tn_pending := tn_pending t @ [block]\<rparr>"
    using t1(1) r by (auto simp: translateMessage_def map_sum_Inr)
  obtain blocks where bs: "translateMessages rest (t1\<lparr>tn_pending := tn_pending t1 @ blocks\<rparr>) = Inr t2"
    "List.map_filter toolUseID blocks = []" "length blocks = length results"
    "List.map_filter toolResultID blocks = map (tr_ToolCallID \<circ> resultOf) results"
    using Cons.IH [OF _ t1(2)] Cons.prems(1) by auto
  then show ?case using b(2) r(2) toolResultBlock_ids [OF b(1)]
    by (intro exI [of _ "block # blocks"]) (simp add: List.map_filter_def)
qed

lemma answered_ids:
  assumes "answeredTurn msg results" "identified msg" "list_all identified results"
  shows "mset (map (tr_ToolCallID \<circ> resultOf) results) = mset (map tc_ID (m_ToolCalls msg))"
proof -
  obtain calls where c: "mset calls = mset (m_ToolCalls msg)" "list_all2 answers calls (map resultOf results)"
    using assms(1) by (auto simp: answeredTurn_def)
  have "list_all resultMessage results" using assms(1) by (simp add: answeredTurn_def)
  moreover have "\<forall>call \<in> set calls. tc_ID call \<noteq> []" using assms(2) mset_eq_setD [OF c(1)] by (auto simp: identified_def list_all_iff)
  ultimately have "list_all2 (\<lambda>call result. tc_ID call = tr_ToolCallID (resultOf result)) calls results"
    using c(2) assms(3) unfolding list_all2_map2
    by (elim list.rel_mono_strong) (fastforce simp: list_all_iff answers_def identified_def resultMessage_def)
  then have "map tc_ID calls = map (tr_ToolCallID \<circ> resultOf) results" by (simp add: list_all2_conv_all_nth list_eq_iff_nth_eq)
  then show ?thesis using c(1) by (metis mset_map)
qed

lemma translate_turn:
  assumes "answeredTurn msg results" "identified msg" "list_all identified results"
    and "translateMessages (msg # results @ rest) t = Inr t2"
  obtains t1 answer use where "translateMessages rest t1 = Inr t2" "tn_items (flush t1) = tn_items (flush t) @ [use, answer]"
    "pairedItems [use, answer]"
proof -
  have role: "m_Role msg = RoleAssistant" "m_ToolCalls msg \<noteq> []" and results: "list_all resultMessage results"
    using assms(1) by (auto simp: answeredTurn_def)
  obtain blocks where b: "assistantBlocks msg = Inr blocks"
    and later: "translateMessages (results @ rest) (appendItem ''assistant'' blocks (flush t)) = Inr t2"
    using assms(4) role(1) by (auto simp: translateMessage_def map_sum_Inr split: sum.splits)
  note uses = assistantBlocks_uses [OF b]
  have "blocks \<noteq> []" using uses(1) role(2) by (auto simp: List.map_filter_def)
  obtain answers where a: "translateMessages rest
      ((appendItem ''assistant'' blocks (flush t))\<lparr>tn_pending := answers\<rparr>) = Inr t2"
    "List.map_filter toolUseID answers = []" "length answers = length results"
    "List.map_filter toolResultID answers = map (tr_ToolCallID \<circ> resultOf) results"
    using translate_results [OF results later] by auto
  note ids = answered_ids [OF assms(1-3)]
  have "results \<noteq> []" using ids role(2) by auto
  then show thesis
    using a ids uses role(2) \<open>blocks \<noteq> []\<close>
    by (intro that [OF a(1), of "\<lparr>am_Role = ''assistant'', am_Content = blocks\<rparr>" "\<lparr>am_Role = ''user'', am_Content = answers\<rparr>"])
      (auto simp: toolUses_def toolResults_def)
qed

lemma translate_paired:
  "answeredHistory msgs \<Longrightarrow> list_all identified msgs \<Longrightarrow> translateMessages msgs t = Inr t2 \<Longrightarrow>
   pairedItems (tn_items (flush t)) \<Longrightarrow> pairedItems (tn_items (flush t2))"
proof (induction msgs arbitrary: t rule: answeredHistory.induct)
  case (ah_plain msg rest)
  obtain t1 where t1: "translateMessage msg t = Inr t1" "translateMessages rest t1 = Inr t2"
    using ah_plain.prems(2) by (auto split: sum.splits)
  from translate_plain [OF t1(1) ah_plain.hyps(1)] obtain new where
    "tn_pending t1 = []" "tn_items t1 = tn_items (flush t) @ new" "pairedItems new" by blast
  then have "pairedItems (tn_items (flush t1))"
    using pairedItems_append [OF ah_plain.prems(3), of new] by (simp only: flush_pending)
  then show ?case using ah_plain t1(2) by simp
next
  case (ah_turn msg results rest)
  have ids: "identified msg" "list_all identified results" "list_all identified rest" using ah_turn.prems(1) by auto
  obtain t1 answer use where t1: "translateMessages rest t1 = Inr t2"
    and items: "tn_items (flush t1) = tn_items (flush t) @ [use, answer]" "pairedItems [use, answer]"
    by (rule translate_turn [OF ah_turn.hyps(1) ids(1,2) ah_turn.prems(2)])
  have "pairedItems (tn_items (flush t1))" unfolding items(1) by (rule pairedItems_append [OF ah_turn.prems(3) items(2)])
  then show ?case by (rule ah_turn.IH [OF ids(3) t1])
qed simp

text \<open>
  C32. The request made from a complete history whose calls and results carry their IDs keeps the contract of the
  API: every message with tool uses is followed at once by one user message that consists of exactly the results of
  these uses, and no results stand anywhere else.
\<close>

theorem anthropic_request_paired:
  assumes "ValidateCompleteTurns messages = None" "list_all identified messages"
    and "toAnthropicRequest messages = Inr (system, items)"
  shows "pairedItems items"
proof -
  have "answeredHistory messages" using assms(1) by (simp add: valid_iff validHistory_answered)
  moreover obtain t where "translateMessages messages \<lparr>tn_systemParts = [], tn_items = [], tn_pending = []\<rparr> = Inr t"
    "items = tn_items (flush t)"
    using assms(3) by (auto simp: toAnthropicRequest_def split: sum.splits)
  ultimately show ?thesis using translate_paired [OF _ assms(2)] by (simp del: flush_fields add: flush_def)
qed

section \<open>Responses\<close>

text \<open>The events that an event of the server adds, and the tool calls it leaves begun.\<close>

definition addedEvents :: "eventEnvelope \<Rightarrow> (int \<rightharpoonup> ToolCallDelta) \<Rightarrow> Event list" where
  "addedEvents e calls = st_pending (applyEnvelope e ((startState undefined)\<lparr>st_toolCalls := calls\<rparr>))"

definition begunCalls :: "eventEnvelope \<Rightarrow> (int \<rightharpoonup> ToolCallDelta) \<Rightarrow> (int \<rightharpoonup> ToolCallDelta)" where
  "begunCalls e calls = st_toolCalls (applyEnvelope e ((startState undefined)\<lparr>st_toolCalls := calls\<rparr>))"

lemmas envelope_defs = applyEnvelope_def messageStart_def contentBlockStart_def contentBlockDelta_def messageDelta_def
  enqueue_def

lemma applyEnvelope_pending: "st_pending (applyEnvelope e s) = st_pending s @ addedEvents e (st_toolCalls s)"
  by (simp add: addedEvents_def envelope_defs startState_def Let_def split_beta)

lemma applyEnvelope_calls: "st_toolCalls (applyEnvelope e s) = begunCalls e (st_toolCalls s)"
  by (simp add: begunCalls_def envelope_defs startState_def Let_def split_beta)

lemma applyEnvelope_finished [simp]: "st_finished (applyEnvelope e s) = st_finished s"
  by (simp add: envelope_defs Let_def split_beta)

lemma applyEnvelope_commutes:
  "applyEnvelope e (s\<lparr>st_reader := r\<rparr>) = (applyEnvelope e s)\<lparr>st_reader := r\<rparr>"
  "applyEnvelope e (s\<lparr>st_pending := p\<rparr>) = (applyEnvelope e s)\<lparr>st_pending := p @ addedEvents e (st_toolCalls s)\<rparr>"
proof -
  have reader: "f e (s\<lparr>st_reader := r\<rparr>) = (f e s)\<lparr>st_reader := r\<rparr>"
    if "f \<in> {messageStart, contentBlockStart, contentBlockDelta, messageDelta}" for f
    using that by (auto simp: envelope_defs Let_def split_beta)
  show "applyEnvelope e (s\<lparr>st_reader := r\<rparr>) = (applyEnvelope e s)\<lparr>st_reader := r\<rparr>"
    by (simp add: applyEnvelope_def reader)
  have pending: "f e (s\<lparr>st_pending := p\<rparr>) = (f e s)\<lparr>st_pending := p @ drop (length (st_pending s)) (st_pending (f e s))\<rparr>"
    if "f \<in> {messageStart, contentBlockStart, contentBlockDelta, messageDelta}" for f
    using that by (auto simp: envelope_defs Let_def split_beta)
  have "applyEnvelope e (s\<lparr>st_pending := p\<rparr>)
      = (applyEnvelope e s)\<lparr>st_pending := p @ drop (length (st_pending s)) (st_pending (applyEnvelope e s))\<rparr>"
    by (simp add: applyEnvelope_def pending)
  then show "applyEnvelope e (s\<lparr>st_pending := p\<rparr>) = (applyEnvelope e s)\<lparr>st_pending := p @ addedEvents e (st_toolCalls s)\<rparr>"
    by (simp add: applyEnvelope_pending)
qed

lemma messageStopEvent_fold:
  "messageStopEvent (fold applyEnvelope es (s\<lparr>st_reader := r\<rparr>)) = messageStopEvent (fold applyEnvelope es s)"
  "messageStopEvent (fold applyEnvelope es (s\<lparr>st_pending := p\<rparr>)) = messageStopEvent (fold applyEnvelope es s)"
  by (induction es arbitrary: s p) (simp_all add: applyEnvelope_commutes messageStopEvent_def)

fun deliveredEvents :: "eventEnvelope list \<Rightarrow> (int \<rightharpoonup> ToolCallDelta) \<Rightarrow> Event list" where
  "deliveredEvents [] calls = []"
| "deliveredEvents (e # es) calls = addedEvents e calls @ deliveredEvents es (begunCalls e calls)"

lemma fold_pending: "st_pending (fold applyEnvelope es s) = st_pending s @ deliveredEvents es (st_toolCalls s)"
  by (induction es arbitrary: s) (simp_all add: applyEnvelope_pending applyEnvelope_calls)

text \<open>Repeated calls of \<^verbatim>\<open>Recv\<close>.\<close>

fun recvTimes :: "(string \<Rightarrow> goError + eventEnvelope) \<Rightarrow> nat \<Rightarrow> streamState \<Rightarrow> (Event \<times> goError option) list" where
  "recvTimes unmarshal 0 s = []"
| "recvTimes unmarshal (Suc n) s = (case recvAnthropic unmarshal s of (answer, s1) \<Rightarrow> answer # recvTimes unmarshal n s1)"

text \<open>One event of the server on the wire.\<close>

definition envelopeFrame :: "string \<times> string \<Rightarrow> bytes" where
  "envelopeFrame f = printFrame (eventLines (fst f) [snd f] [] [])"

definition carries :: "(string \<Rightarrow> goError + eventEnvelope) \<Rightarrow> string \<times> string \<Rightarrow> eventEnvelope \<Rightarrow> bool" where
  "carries unmarshal f e \<longleftrightarrow> cleanText (fst f) \<and> cleanText (snd f) \<and> \<not> blank (snd f) \<and>
     int (length (envelopeFrame f)) \<le> MaxSSEFrameBytes \<and> unmarshal (snd f) = Inr e"

lemma Next_carried:
  assumes "carries unmarshal f e"
  shows "Next \<lparr>bd_bytes = envelopeFrame f @ rest, bd_end = ending\<rparr> =
    ((\<lparr>se_Name = fst f, se_Data = snd f, se_ID = [], se_Comment = []\<rparr>, None), \<lparr>bd_bytes = rest, bd_end = ending\<rparr>)"
  using Next_event [of "fst f" "[]" "[]" "[snd f]" rest ending] assms
  by (simp add: carries_def envelopeFrame_def cleanText_def MaxSSELineBytes_def)

definition ordinary :: "eventEnvelope \<Rightarrow> bool" where
  "ordinary e \<longleftrightarrow> en_Type e \<noteq> ''message_stop'' \<and> en_Type e \<noteq> ''error''"

definition printedFrames :: "(string \<times> string) list \<Rightarrow> bytes" where
  "printedFrames frames = concat (map envelopeFrame frames)"

lemma recv_pending: "st_pending s = p # ps \<Longrightarrow> recvAnthropic unmarshal s = ((p, None), s\<lparr>st_pending := ps\<rparr>)"
  by (subst recvAnthropic.simps) simp

lemma recv_envelope:
  assumes "carries unmarshal f e" "ordinary e" "st_pending s = []" "\<not> st_finished s"
    and "st_reader s = \<lparr>bd_bytes = envelopeFrame f @ rest, bd_end = ending\<rparr>"
  shows "recvAnthropic unmarshal s =
    recvAnthropic unmarshal ((applyEnvelope e s)\<lparr>st_reader := \<lparr>bd_bytes = rest, bd_end = ending\<rparr>\<rparr>)"
  using assms Next_carried [OF assms(1), of rest ending]
  by (subst recvAnthropic.simps) (simp add: carries_def ordinary_def applyEnvelope_commutes)

lemma recv_stop:
  assumes "carries unmarshal f e" "en_Type e = ''message_stop''" "st_pending s = []" "\<not> st_finished s"
    and "st_reader s = \<lparr>bd_bytes = envelopeFrame f @ rest, bd_end = ending\<rparr>"
  shows "fst (recvAnthropic unmarshal s) = (messageStopEvent s, None)"
  using assms Next_carried [OF assms(1), of rest ending] by (subst recvAnthropic.simps) (simp add: carries_def)

lemma recvTimes_pending:
  "recvTimes unmarshal (length (st_pending s) + n) s =
     map (\<lambda>e. (e, None)) (st_pending s) @ recvTimes unmarshal n (s\<lparr>st_pending := []\<rparr>)"
proof (induction "st_pending s" arbitrary: s)
  case Nil
  then have e: "st_pending s = []" by simp
  then have r: "s\<lparr>st_pending := []\<rparr> = s" by (cases s) simp
  show ?case by (simp only: e r list.size add_0 list.map append_Nil)
next
  case (Cons p ps)
  show ?case using Cons(1) [of "s\<lparr>st_pending := ps\<rparr>"] recv_pending [OF Cons(2) [symmetric]]
    by (simp flip: Cons(2))
qed

lemma recvTimes_delivers:
  assumes "list_all2 (carries unmarshal) frames es" "list_all ordinary es"
    and "carries unmarshal stopFrame stop" "en_Type stop = ''message_stop''"
    and "st_pending s = []" "\<not> st_finished s"
    and "st_reader s = \<lparr>bd_bytes = printedFrames frames @ envelopeFrame stopFrame @ rest, bd_end = ending\<rparr>"
  shows "recvTimes unmarshal (Suc (length (deliveredEvents es (st_toolCalls s)))) s =
    map (\<lambda>e. (e, None)) (deliveredEvents es (st_toolCalls s)) @ [(messageStopEvent (fold applyEnvelope es s), None)]"
  using assms(1,2,5-7)
proof (induction frames es arbitrary: s rule: list_all2_induct)
  case Nil
  then show ?case using recv_stop [OF assms(3,4), of s rest ending] by (auto simp: printedFrames_def split: prod.splits)
next
  case (Cons f frames e es)
  let ?s1 = "(applyEnvelope e s)\<lparr>st_reader := \<lparr>bd_bytes = printedFrames frames @ envelopeFrame stopFrame @ rest, bd_end = ending\<rparr>\<rparr>"
  let ?later = "deliveredEvents es (begunCalls e (st_toolCalls s))"
  have same: "recvAnthropic unmarshal s = recvAnthropic unmarshal ?s1"
    using Cons by (intro recv_envelope) (auto simp: printedFrames_def)
  have "recvTimes unmarshal (Suc (length (deliveredEvents (e # es) (st_toolCalls s)))) s =
      recvTimes unmarshal (length (st_pending ?s1) + Suc (length ?later)) ?s1"
    using same Cons.prems(2) by (simp add: applyEnvelope_pending)
  also have "\<dots> = map (\<lambda>e. (e, None)) (st_pending ?s1) @ recvTimes unmarshal (Suc (length ?later)) (?s1\<lparr>st_pending := []\<rparr>)"
    by (rule recvTimes_pending)
  also have "recvTimes unmarshal (Suc (length ?later)) (?s1\<lparr>st_pending := []\<rparr>) =
      map (\<lambda>e. (e, None)) ?later @ [(messageStopEvent (fold applyEnvelope (e # es) s), None)]"
    using Cons.IH [of "?s1\<lparr>st_pending := []\<rparr>"] Cons.prems
    by (simp add: applyEnvelope_calls messageStopEvent_fold)
  finally show ?case using Cons.prems(2) by (simp add: applyEnvelope_pending)
qed

section \<open>Tool calls\<close>

text \<open>
  The reference: a block of type tool use begins a call, and every fragment of JSON is added to the call of its
  block. A stream is in order when blocks have indexes and IDs of their own and fragments belong to a block begun
  before.
\<close>

definition beginsCall :: "eventEnvelope \<Rightarrow> bool" where
  "beginsCall e \<longleftrightarrow> en_Type e = ''content_block_start'' \<and> en_BlockType e = ''tool_use''"

definition extendsCall :: "eventEnvelope \<Rightarrow> bool" where
  "extendsCall e \<longleftrightarrow> en_Type e = ''content_block_delta'' \<and> en_DeltaType e = ''input_json_delta''"

definition assemble :: "eventEnvelope \<Rightarrow> (int \<times> ToolCall) list \<Rightarrow> (int \<times> ToolCall) list" where
  "assemble e calls =
     (if beginsCall e
      then calls @ [(en_Index e, \<lparr>tc_ID = en_BlockID e, tc_Name = en_BlockName e, tc_Arguments = [], tc_OperationID = []\<rparr>)]
      else if extendsCall e
      then map (\<lambda>(i, c). (i, if i = en_Index e then c\<lparr>tc_Arguments := tc_Arguments c @ en_DeltaPartialJSON e\<rparr> else c)) calls
      else calls)"

fun blocksInOrder :: "eventEnvelope list \<Rightarrow> (int \<times> ToolCall) list \<Rightarrow> bool" where
  "blocksInOrder [] calls = True"
| "blocksInOrder (e # es) calls =
     ((beginsCall e \<longrightarrow> en_BlockID e \<noteq> [] \<and> en_BlockID e \<notin> tc_ID ` snd ` set calls \<and> en_Index e \<notin> fst ` set calls) \<and>
      (extendsCall e \<longrightarrow> en_Index e \<in> fst ` set calls) \<and> blocksInOrder es (assemble e calls))"

definition callKey :: "ToolCall \<Rightarrow> string" where
  "callKey call = ''id:'' @ tc_ID call"

definition builderOf :: "ToolCall \<Rightarrow> toolCallBuilder" where
  "builderOf call = \<lparr>tb_ID = tc_ID call, tb_Index = None, tb_Name = tc_Name call, tb_Arguments = tc_Arguments call,
     tb_fullSeen = False, tb_identityConflict = None\<rparr>"

text \<open>The driver and the normalization agree with the reference on the calls so far.\<close>

definition tracks :: "(int \<times> ToolCall) list \<Rightarrow> (int \<rightharpoonup> ToolCallDelta) \<Rightarrow> builderState \<Rightarrow> bool" where
  "tracks calls begun st \<longleftrightarrow>
     distinct (map fst calls) \<and> distinct (map (tc_ID \<circ> snd) calls) \<and>
     (\<forall>(i, c) \<in> set calls. tc_ID c \<noteq> [] \<and> tc_OperationID c = [] \<and>
        (\<exists>d. begun i = Some d \<and> tcd_ID d = tc_ID c \<and> tcd_Name d = tc_Name c \<and> tcd_Index d = None)) \<and>
     bs_order st = map (callKey \<circ> snd) calls \<and>
     bs_builders st = map_of (map (\<lambda>(i, c). (callKey c, builderOf c)) calls) \<and>
     bs_idKeys st = map_of (map (\<lambda>(i, c). (tc_ID c, callKey c)) calls)"

lemma map_of_snoc: "k \<notin> fst ` set xs \<Longrightarrow> map_of (xs @ [(k, v)]) = (map_of xs)(k \<mapsto> v)"
  by (induction xs) (auto simp: fun_eq_iff)

lemma map_of_updated:
  assumes "distinct (map fst calls)" "(i0, c0) \<in> set calls" "\<And>c. K (f c) = K c"
    "\<And>i c. (i, c) \<in> set calls \<Longrightarrow> K c = K c0 \<Longrightarrow> i = i0"
  shows "map_of (map (\<lambda>(i, c). (K c, B c)) (map (\<lambda>(i, c). (i, if i = i0 then f c else c)) calls)) =
    (map_of (map (\<lambda>(i, c). (K c, B c)) calls))(K c0 \<mapsto> B (f c0))"
  using assms(1,2,4)
proof (induction calls)
  case (Cons p calls)
  obtain i c where p: "p = (i, c)" by fastforce
  show ?case
  proof (cases "i = i0")
    case True
    then have c: "c = c0" using Cons.prems(1,2) p by force
    have "map (\<lambda>(i, c). (i, if i = i0 then f c else c)) calls = calls"
      using Cons.prems(1) p True by (intro map_idI) force
    then show ?thesis using p True c assms(3) by (simp add: fun_eq_iff)
  next
    case False
    have d: "distinct (map fst calls)" and m: "(i0, c0) \<in> set calls" using Cons.prems(1,2) p False by auto
    have u: "j = i0" if "(j, c') \<in> set calls" "K c' = K c0" for j c' using Cons.prems(3) [of j c'] that by simp
    have "K c \<noteq> K c0" using Cons.prems(3) [of i c] p False by auto
    moreover have "map_of (map (\<lambda>(i, c). (K c, B c)) (map (\<lambda>(i, c). (i, if i = i0 then f c else c)) calls)) =
        (map_of (map (\<lambda>(i, c). (K c, B c)) calls))(K c0 \<mapsto> B (f c0))"
      by (rule Cons.IH [OF d m]) (use u in blast)
    ultimately show ?thesis using p False by (simp add: fun_upd_twist del: map_map fun_upd_apply)
  qed
qed simp

lemma map_of_member:
  assumes "distinct (map fst calls)" "(i, c) \<in> set calls" "\<And>j c'. (j, c') \<in> set calls \<Longrightarrow> K c' = K c \<Longrightarrow> j = i"
  shows "map_of (map (\<lambda>(i, c). (K c, B c)) calls) (K c) = Some (B c)"
  using assms
proof (induction calls)
  case (Cons p calls)
  obtain j c' where p: "p = (j, c')" by fastforce
  show ?case
  proof (cases "j = i")
    case True
    then have "c' = c" using Cons.prems(1,2) p by force
    then show ?thesis using p by simp
  next
    case False
    have d: "distinct (map fst calls)" and m: "(i, c) \<in> set calls" using Cons.prems(1,2) p False by auto
    have u: "k = i" if "(k, c'') \<in> set calls" "K c'' = K c" for k c'' using Cons.prems(3) [of k c''] that by simp
    have "K c' \<noteq> K c" using Cons.prems(3) [of j c'] p False by auto
    then show ?thesis using Cons.IH [OF d m u] p by simp
  qed
qed simp

lemma normalize_toolDelta:
  "normalizeLoop [toolDeltaEvent d] (r, st) = Inr (r', st') \<Longrightarrow> st' = applyToolCallDeltaEvent (Some d) st"
  by (auto simp: normalizeEvent_def toolDeltaEvent_def Let_def)

lemma normalize_visible:
  "ev_Kind e = EventTextDelta \<or> ev_Kind e = EventThinkingDelta \<Longrightarrow> \<exists>r'. normalizeEvent e (r, st) = Inr (r', st)"
  by (elim disjE) (simp_all add: normalizeEvent_def Let_def)

lemma normalize_other:
  "list_all (\<lambda>ev. ev_Kind ev = EventTextDelta \<or> ev_Kind ev = EventThinkingDelta) evs \<Longrightarrow>
   normalizeLoop evs (r, st) = Inr (r', st') \<Longrightarrow> st' = st"
proof (induction evs arbitrary: r)
  case (Cons e evs)
  then obtain r1 where "normalizeEvent e (r, st) = Inr (r1, st)" using normalize_visible [of e r st] by auto
  then show ?case using Cons by simp
qed simp

lemma added_begin:
  assumes "beginsCall e"
  shows "addedEvents e begun = [toolDeltaEvent (zeroDelta\<lparr>tcd_ID := en_BlockID e, tcd_Name := en_BlockName e\<rparr>)]"
    and "begunCalls e begun = begun(en_Index e \<mapsto> zeroDelta\<lparr>tcd_ID := en_BlockID e, tcd_Name := en_BlockName e\<rparr>)"
  using assms by (simp_all add: addedEvents_def begunCalls_def beginsCall_def envelope_defs startState_def Let_def)

lemma added_extend:
  assumes "extendsCall e" "begun (en_Index e) = Some d"
  shows "addedEvents e begun = [toolDeltaEvent (d\<lparr>tcd_ArgumentsDelta := en_DeltaPartialJSON e\<rparr>)]"
    and "begunCalls e begun = begun(en_Index e \<mapsto> d\<lparr>tcd_ArgumentsDelta := en_DeltaPartialJSON e\<rparr>)"
  using assms by (simp_all add: addedEvents_def begunCalls_def extendsCall_def envelope_defs startState_def Let_def)

lemma added_other:
  assumes "\<not> beginsCall e" "\<not> extendsCall e"
  shows "list_all (\<lambda>ev. ev_Kind ev = EventTextDelta \<or> ev_Kind ev = EventThinkingDelta) (addedEvents e begun)"
    and "begunCalls e begun = begun"
  using assms
  by (auto simp: addedEvents_def begunCalls_def beginsCall_def extendsCall_def envelope_defs startState_def Let_def split_beta)

lemma callKey_inject [simp]: "callKey c = callKey c' \<longleftrightarrow> tc_ID c = tc_ID c'"
  by (simp add: callKey_def)

lemma tracks_same_id:
  assumes "tracks calls begun st" "(i, c) \<in> set calls" "(j, c') \<in> set calls" "tc_ID c' = tc_ID c"
  shows "j = i"
  using assms by (auto simp: tracks_def distinct_conv_nth in_set_conv_nth split_beta) (metis fst_conv snd_conv)

lemma tracks_entry:
  assumes "tracks calls begun st" "(i, c) \<in> set calls"
  shows "bs_builders st (callKey c) = Some (builderOf c)" "bs_idKeys st (tc_ID c) = Some (callKey c)"
proof -
  have d: "distinct (map fst calls)" using assms(1) by (simp add: tracks_def)
  have "map_of (map (\<lambda>(i, c). (callKey c, builderOf c)) calls) (callKey c) = Some (builderOf c)"
    by (rule map_of_member [OF d assms(2)]) (use tracks_same_id [OF assms] in auto)
  moreover have "map_of (map (\<lambda>(i, c). (tc_ID c, callKey c)) calls) (tc_ID c) = Some (callKey c)"
    by (rule map_of_member [OF d assms(2)]) (use tracks_same_id [OF assms] in auto)
  ultimately show "bs_builders st (callKey c) = Some (builderOf c)" "bs_idKeys st (tc_ID c) = Some (callKey c)"
    using assms(1) by (simp_all add: tracks_def)
qed

lemma tracks_fresh:
  assumes "tracks calls begun st" "id0 \<notin> tc_ID ` snd ` set calls"
  shows "bs_builders st (''id:'' @ id0) = None" "bs_idKeys st id0 = None"
  using assms by (force simp: tracks_def map_of_eq_None_iff callKey_def)+

lemma tracks_begin:
  assumes "tracks calls begun st" "beginsCall e" "en_BlockID e \<noteq> []" "en_BlockID e \<notin> tc_ID ` snd ` set calls"
    "en_Index e \<notin> fst ` set calls" "normalizeLoop (addedEvents e begun) (r, st) = Inr (r', st')"
  shows "tracks (assemble e calls) (begunCalls e begun) st'"
proof -
  let ?c = "\<lparr>tc_ID = en_BlockID e, tc_Name = en_BlockName e, tc_Arguments = [], tc_OperationID = []\<rparr>"
  let ?d = "zeroDelta\<lparr>tcd_ID := en_BlockID e, tcd_Name := en_BlockName e\<rparr>"
  note fresh = tracks_fresh [OF assms(1,4)]
  have "st' = applyToolCallDeltaEvent (Some ?d) st"
    using assms(6) normalize_toolDelta by (simp add: added_begin [OF assms(2)])
  then have st': "bs_builders st' = (bs_builders st)(callKey ?c \<mapsto> builderOf ?c)" "bs_order st' = bs_order st @ [callKey ?c]"
    "bs_idKeys st' = (bs_idKeys st)(en_BlockID e \<mapsto> callKey ?c)"
    using fresh assms(3)
    by (simp_all add: applyToolCallDeltaEvent_def ensureToolCallBuilder_def newBuilder_def putBuilder_def builderAt_def
        zeroDelta_def callKey_def builderOf_def Let_def)
  note new = added_begin(2) [OF assms(2)]
  have grown: "assemble e calls = calls @ [(en_Index e, ?c)]" using assms(2) by (simp add: assemble_def)
  have entries: "\<exists>d. begunCalls e begun i = Some d \<and> tcd_ID d = tc_ID c \<and> tcd_Name d = tc_Name c \<and> tcd_Index d = None"
    if "(i, c) \<in> set calls" for i c
  proof -
    have "i \<noteq> en_Index e" using that assms(5) by force
    then show ?thesis using that assms(1) by (auto simp: new tracks_def)
  qed
  show ?thesis unfolding tracks_def grown
  proof (intro conjI)
    show "distinct (map fst (calls @ [(en_Index e, ?c)]))" "distinct (map (tc_ID \<circ> snd) (calls @ [(en_Index e, ?c)]))"
      using assms(1,4,5) by (auto simp: tracks_def image_image)
    show "\<forall>(i, c) \<in> set (calls @ [(en_Index e, ?c)]). tc_ID c \<noteq> [] \<and> tc_OperationID c = [] \<and>
        (\<exists>d. begunCalls e begun i = Some d \<and> tcd_ID d = tc_ID c \<and> tcd_Name d = tc_Name c \<and> tcd_Index d = None)"
      using entries assms(1,3) by (auto simp: new tracks_def zeroDelta_def)
    show "bs_order st' = map (callKey \<circ> snd) (calls @ [(en_Index e, ?c)])" using assms(1) st' by (simp add: tracks_def)
    have "callKey ?c \<notin> fst ` set (map (\<lambda>(i, c). (callKey c, builderOf c)) calls)"
      "en_BlockID e \<notin> fst ` set (map (\<lambda>(i, c). (tc_ID c, callKey c)) calls)" using assms(4) by force+
    then show "bs_builders st' = map_of (map (\<lambda>(i, c). (callKey c, builderOf c)) (calls @ [(en_Index e, ?c)]))"
      "bs_idKeys st' = map_of (map (\<lambda>(i, c). (tc_ID c, callKey c)) (calls @ [(en_Index e, ?c)]))"
      using assms(1) st' by (simp_all add: tracks_def map_of_snoc del: map_of_append)
  qed
qed

lemma tracks_extend:
  assumes "tracks calls begun st" "extendsCall e" "en_Index e \<in> fst ` set calls"
    "normalizeLoop (addedEvents e begun) (r, st) = Inr (r', st')"
  shows "tracks (assemble e calls) (begunCalls e begun) st'"
proof -
  obtain c where c: "(en_Index e, c) \<in> set calls" using assms(3) by force
  then obtain d where d: "begun (en_Index e) = Some d" "tcd_ID d = tc_ID c" "tcd_Name d = tc_Name c" "tcd_Index d = None"
    and c': "tc_ID c \<noteq> []" "tc_OperationID c = []" using assms(1) by (auto simp: tracks_def)
  let ?f = "\<lambda>c. c\<lparr>tc_Arguments := tc_Arguments c @ en_DeltaPartialJSON e\<rparr>"
  let ?g = "\<lambda>(i, c). (i, if i = en_Index e then ?f c else c)"
  note entry = tracks_entry [OF assms(1) c]
  note new = added_extend [OF assms(2), where begun = begun and d = d, OF d(1)]
  have "st' = applyToolCallDeltaEvent (Some (d\<lparr>tcd_ArgumentsDelta := en_DeltaPartialJSON e\<rparr>)) st"
    using assms(4) normalize_toolDelta by (simp add: new)
  then have st': "st' = st\<lparr>bs_builders := (bs_builders st)(callKey c \<mapsto> builderOf (?f c))\<rparr>"
    using entry d c'
    by (simp add: applyToolCallDeltaEvent_def ensureToolCallBuilder_def bindIndex_def putBuilder_def builderAt_def
        builderOf_def Let_def)
  have grown: "assemble e calls = map ?g calls"
    using assms(2) by (auto simp: assemble_def beginsCall_def extendsCall_def)
  have same: "map fst (map ?g calls) = map fst calls" "map (tc_ID \<circ> snd) (map ?g calls) = map (tc_ID \<circ> snd) calls"
    "map (callKey \<circ> snd) (map ?g calls) = map (callKey \<circ> snd) calls"
    "map (\<lambda>(i, c). (tc_ID c, callKey c)) (map ?g calls) = map (\<lambda>(i, c). (tc_ID c, callKey c)) calls"
    by (auto simp: callKey_def)
  show ?thesis unfolding tracks_def grown same
  proof (intro conjI)
    show "distinct (map fst calls)" "distinct (map (tc_ID \<circ> snd) calls)" using assms(1) by (simp_all add: tracks_def)
    show "\<forall>(i, c) \<in> set (map ?g calls). tc_ID c \<noteq> [] \<and> tc_OperationID c = [] \<and>
        (\<exists>d. begunCalls e begun i = Some d \<and> tcd_ID d = tc_ID c \<and> tcd_Name d = tc_Name c \<and> tcd_Index d = None)"
    proof (clarsimp simp: new)
      fix i c1 assume m: "(i, c1) \<in> set calls"
      then have "tc_ID c1 \<noteq> [] \<and> tc_OperationID c1 = [] \<and>
          (\<exists>d. begun i = Some d \<and> tcd_ID d = tc_ID c1 \<and> tcd_Name d = tc_Name c1 \<and> tcd_Index d = None)"
        using assms(1) by (auto simp: tracks_def)
      then show "(i = en_Index e \<longrightarrow> tc_ID c1 \<noteq> [] \<and> tc_OperationID c1 = [] \<and> tcd_ID d = tc_ID c1 \<and> tcd_Name d = tc_Name c1 \<and> tcd_Index d = None) \<and>
          (i \<noteq> en_Index e \<longrightarrow> tc_ID c1 \<noteq> [] \<and> tc_OperationID c1 = [] \<and>
             (\<exists>d. begun i = Some d \<and> tcd_ID d = tc_ID c1 \<and> tcd_Name d = tc_Name c1 \<and> tcd_Index d = None))"
        using d(1) by auto
    qed
    show "bs_order st' = map (callKey \<circ> snd) calls" "bs_idKeys st' = map_of (map (\<lambda>(i, c). (tc_ID c, callKey c)) calls)"
      using assms(1) st' by (simp_all add: tracks_def)
    have "distinct (map fst calls)" using assms(1) by (simp add: tracks_def)
    from map_of_updated [OF this c, of callKey ?f builderOf]
    show "bs_builders st' = map_of (map (\<lambda>(i, c). (callKey c, builderOf c)) (map ?g calls))"
      using assms(1) st' tracks_same_id [OF assms(1) c] by (simp add: tracks_def callKey_def)
  qed
qed

lemma tracks_events:
  "normalizeLoop (deliveredEvents es begun) (r, st) = Inr (r', st') \<Longrightarrow> tracks calls begun st \<Longrightarrow> blocksInOrder es calls \<Longrightarrow>
   \<exists>begun'. tracks (fold assemble es calls) begun' st'"
proof (induction es arbitrary: calls begun r st)
  case (Cons e es)
  obtain r1 st1 where first: "normalizeLoop (addedEvents e begun) (r, st) = Inr (r1, st1)"
    and later: "normalizeLoop (deliveredEvents es (begunCalls e begun)) (r1, st1) = Inr (r', st')"
    using Cons.prems(1) by (auto simp: normalizeLoop_append split: sum.splits)
  have "tracks (assemble e calls) (begunCalls e begun) st1"
  proof -
    consider "beginsCall e" | "extendsCall e" | "\<not> beginsCall e" "\<not> extendsCall e" by blast
    then show ?thesis
    proof cases
      case 1
      then show ?thesis using tracks_begin [OF Cons.prems(2) 1 _ _ _ first] Cons.prems(3) by simp
    next
      case 2
      then show ?thesis using tracks_extend [OF Cons.prems(2) 2 _ first] Cons.prems(3) by simp
    next
      case 3
      then show ?thesis using normalize_other [OF added_other(1) [OF 3] first] Cons.prems(2)
        by (simp add: added_other(2) assemble_def)
    qed
  qed
  then show ?case using Cons.IH [OF later] Cons.prems(3) by simp
qed auto

section \<open>From the wire to the response\<close>

lemma added_kinds:
  "ev \<in> set (addedEvents e begun) \<Longrightarrow> ev_Kind ev \<in> {EventTextDelta, EventThinkingDelta, EventToolCallDelta}"
  by (auto simp: addedEvents_def envelope_defs startState_def toolDeltaEvent_def Let_def split_beta split: if_splits)

lemma delivered_kinds:
  "ev \<in> set (deliveredEvents es begun) \<Longrightarrow> ev_Kind ev \<in> {EventTextDelta, EventThinkingDelta, EventToolCallDelta}"
  by (induction es arbitrary: begun) (auto dest: added_kinds)

lemma terminal_last:
  "list_all (\<lambda>ev. ev_Kind ev \<noteq> EventDone \<and> ev_Kind ev \<noteq> EventError) evs \<Longrightarrow> ev_Kind final = EventDone \<Longrightarrow>
   terminalLoop None i (evs @ [final]) = Inr (Some (i + length evs))"
  by (induction evs arbitrary: i) auto

lemma normalizeLoop_accepts:
  "list_all (\<lambda>ev. ev_Kind ev \<in> {EventTextDelta, EventThinkingDelta, EventToolCallDelta, EventDone}) evs \<Longrightarrow>
   \<exists>acc'. normalizeLoop evs acc = Inr acc'"
proof (induction evs arbitrary: acc)
  case (Cons e evs)
  obtain r st where acc: "acc = (r, st)" by fastforce
  have "\<exists>acc1. normalizeEvent e acc = Inr acc1"
    using Cons.prems acc by (cases "ev_Kind e") (simp_all add: normalizeEvent_def Let_def)
  then show ?case using Cons by auto
qed simp

lemma finalize_accepts:
  assumes "\<And>key. key \<in> set order \<Longrightarrow> \<exists>b. bs key = Some b \<and> buildable jv b"
    "length (nr_ToolCalls r) + length order \<le> MaxToolCallsPerResponse"
  shows "\<exists>r'. finalizeToolCalls jv r order bs = Inr r'"
  using assms
proof (induction order arbitrary: r)
  case (Cons key order)
  then obtain b where b: "bs key = Some b" "buildable jv b" by auto
  let ?r = "r\<lparr>nr_ToolCalls := nr_ToolCalls r @ [\<lparr>tc_ID = tb_ID b, tc_Name = tb_Name b, tc_Arguments = tb_Arguments b, tc_OperationID = []\<rparr>]\<rparr>"
  have "\<exists>r'. finalizeToolCalls jv ?r order bs = Inr r'" using Cons.prems by (intro Cons.IH) auto
  then show ?case using b Cons.prems(2) by (auto simp: buildable_def blank_def)
qed simp

lemma textDelta_added:
  "concat (map textDelta (addedEvents e begun)) =
     (if en_Type e = ''content_block_delta'' \<and> en_DeltaType e = ''text_delta'' then en_DeltaText e else [])"
  by (simp add: addedEvents_def envelope_defs startState_def toolDeltaEvent_def textDelta_def zeroEvent_def Let_def split_beta)

definition textOf :: "eventEnvelope list \<Rightarrow> string" where
  "textOf es = concat (map en_DeltaText (filter (\<lambda>e. en_Type e = ''content_block_delta'' \<and> en_DeltaType e = ''text_delta'') es))"

lemma textDelta_delivered: "concat (map textDelta (deliveredEvents es begun)) = textOf es"
  by (induction es arbitrary: begun) (simp_all add: textDelta_added textOf_def)

lemma tracks_start: "tracks [] Map.empty emptyBuilders"
  by (simp add: tracks_def emptyBuilders_def)

lemma builtCall_builderOf: "tc_OperationID c = [] \<Longrightarrow> builtCall (builderOf c) = c"
  by (simp add: builtCall_def builderOf_def)

lemma tracks_built:
  assumes "tracks calls begun st"
  shows "map (builtCall \<circ> the \<circ> bs_builders st) (bs_order st) = map snd calls"
proof -
  have "(builtCall \<circ> the \<circ> bs_builders st) (callKey c) = c" if "(i, c) \<in> set calls" for i c
    using tracks_entry(1) [OF assms that] assms that by (auto simp: tracks_def builtCall_builderOf)
  then show ?thesis using assms by (auto simp: tracks_def)
qed

lemma delivered_normalizes:
  assumes "blocksInOrder es []" "ev_Kind final = EventDone" "length (fold assemble es []) \<le> 1024"
    and "\<And>c. c \<in> snd ` set (fold assemble es []) \<Longrightarrow> \<not> blank (tc_ID c) \<and> (tc_Arguments c = [] \<or> jv (tc_Arguments c))"
  shows "\<exists>r. NormalizeEvents jv (deliveredEvents es Map.empty @ [final]) = Inr r \<and>
    nr_ToolCalls r = map snd (fold assemble es [])"
proof -
  let ?evs = "deliveredEvents es Map.empty"
  have kinds: "list_all (\<lambda>ev. ev_Kind ev \<in> {EventTextDelta, EventThinkingDelta, EventToolCallDelta}) ?evs"
    using delivered_kinds by (auto simp: list_all_iff)
  then have "list_all (\<lambda>ev. ev_Kind ev \<in> {EventTextDelta, EventThinkingDelta, EventToolCallDelta, EventDone}) ?evs"
    "list_all (\<lambda>ev. ev_Kind ev \<noteq> EventDone \<and> ev_Kind ev \<noteq> EventError) ?evs" by (auto simp: list_all_iff)
  then obtain r0 st where l: "normalizeLoop ?evs (zeroNormalized, emptyBuilders) = Inr (r0, st)"
    and t: "terminalLoop None 0 (?evs @ [final]) = Inr (Some (length ?evs))"
    using normalizeLoop_accepts terminal_last [OF _ assms(2), of ?evs 0] by fastforce
  obtain begun where tr: "tracks (fold assemble es []) begun st" using tracks_events [OF l tracks_start assms(1)] by blast
  obtain r1 where l1: "normalizeLoop (?evs @ [final]) (zeroNormalized, emptyBuilders) = Inr (r1, st)"
    using l assms(2) by (simp add: normalizeLoop_append normalizeEvent_def Let_def)
  have none: "nr_ToolCalls r1 = []" using normalizeLoop_text [OF l1] by (simp add: zeroNormalized_def)
  have order: "bs_order st = map (callKey \<circ> snd) (fold assemble es [])" using tr by (simp add: tracks_def)
  have ok: "\<exists>b. bs_builders st key = Some b \<and> buildable jv b" if k: "key \<in> set (bs_order st)" for key
  proof -
    obtain i c where c: "(i, c) \<in> set (fold assemble es [])" "key = callKey c" using k order by auto
    then show ?thesis using tracks_entry(1) [OF tr c(1)] assms(4) [of c] by (force simp: buildable_def builderOf_def)
  qed
  obtain r where f: "finalizeToolCalls jv r1 (bs_order st) (bs_builders st) = Inr r"
    using finalize_accepts [of "bs_order st" "bs_builders st" jv r1, OF ok] none order assms(3)
    by (auto simp: MaxToolCallsPerResponse_def)
  have "set (bs_order st) \<subseteq> dom (bs_builders st)" using ok by blast
  from finalize_calls [OF f this] have "nr_ToolCalls r = map (builtCall \<circ> the \<circ> bs_builders st) (bs_order st)" using none by simp
  then have "nr_ToolCalls r = map snd (fold assemble es [])" using tracks_built [OF tr] by simp
  moreover have "NormalizeEvents jv (?evs @ [final]) = Inr r"
    using l1 t f by (simp add: NormalizeEvents_def normalizeEvents_def validateTerminalSequence_def)
  ultimately show ?thesis by blast
qed

text \<open>
  C31. From the bytes of a response to the tool calls: when the server prints well-ordered events and closes the
  message, \<^verbatim>\<open>Recv\<close> hands on their events in order and without an error, ending in done, and normalizing them
  succeeds with exactly the calls and the text of the message. Every call has the ID and name its block began with
  and the fragments of its block joined in order, however the blocks are interleaved.
\<close>

theorem anthropic_response_assembled:
  assumes "list_all2 (carries unmarshal) frames es" "list_all ordinary es"
    and "carries unmarshal stopFrame stop" "en_Type stop = ''message_stop''"
    and "blocksInOrder es []" "length (fold assemble es []) \<le> 1024"
    and "\<And>c. c \<in> snd ` set (fold assemble es []) \<Longrightarrow> \<not> blank (tc_ID c) \<and> (tc_Arguments c = [] \<or> jv (tc_Arguments c))"
  shows "\<exists>events r. recvTimes unmarshal (length events)
        (startState \<lparr>bd_bytes = printedFrames frames @ envelopeFrame stopFrame @ rest, bd_end = ending\<rparr>) = map (\<lambda>e. (e, None)) events \<and>
    NormalizeEvents jv events = Inr r \<and> nr_ToolCalls r = map snd (fold assemble es []) \<and> nr_Text r = textOf es"
proof -
  let ?s = "startState \<lparr>bd_bytes = printedFrames frames @ envelopeFrame stopFrame @ rest, bd_end = ending\<rparr>"
  let ?final = "messageStopEvent (fold applyEnvelope es ?s)"
  let ?events = "deliveredEvents es Map.empty @ [?final]"
  have final: "ev_Kind ?final = EventDone" "textDelta ?final = []" by (simp_all add: messageStopEvent_def textDelta_def)
  have "recvTimes unmarshal (length ?events) ?s = map (\<lambda>e. (e, None)) ?events"
    using recvTimes_delivers [OF assms(1-4), of ?s rest ending] by (simp add: startState_def)
  moreover obtain r where r: "NormalizeEvents jv ?events = Inr r" "nr_ToolCalls r = map snd (fold assemble es [])"
    using delivered_normalizes [OF assms(5) final(1) assms(6,7)] by blast
  moreover have "nr_Text r = textOf es"
    using normalize_text [of jv ?events True r] r(1) final(2) textDelta_delivered [of es Map.empty]
    by (simp add: NormalizeEvents_def)
  ultimately show ?thesis by blast
qed

section \<open>Witnesses\<close>

theorem anthropic_request_paired_witness:
  "\<exists>system items. toAnthropicRequest exampleTurn = Inr (system, items) \<and> items \<noteq> [] \<and> pairedItems items"
proof -
  have v: "ValidateCompleteTurns exampleTurn = None" "list_all identified exampleTurn" by code_simp+
  have "\<not> isl (toAnthropicRequest exampleTurn)" "snd (projr (toAnthropicRequest exampleTurn)) \<noteq> []" by code_simp+
  then obtain system items where r: "toAnthropicRequest exampleTurn = Inr (system, items)" "items \<noteq> []"
    by (cases "toAnthropicRequest exampleTurn") auto
  then show ?thesis using anthropic_request_paired [OF v r(1)] by blast
qed

definition zeroEnvelope :: eventEnvelope where
  "zeroEnvelope = \<lparr>en_Type = [], en_Index = 0, en_MessageID = [], en_MessageModel = [], en_BlockType = [], en_BlockID = [],
     en_BlockName = [], en_BlockData = [], en_DeltaType = [], en_DeltaText = [], en_DeltaThinking = [], en_DeltaSignature = [],
     en_DeltaPartialJSON = [], en_DeltaStopReason = [], en_InputTokens = 0, en_CacheReadInputTokens = None,
     en_CacheCreationInputTokens = None, en_OutputTokens = 0, en_ErrorType = [], en_ErrorMessage = []\<rparr>"

definition demoBegin :: "int \<Rightarrow> string \<Rightarrow> eventEnvelope" where
  "demoBegin i callID = zeroEnvelope\<lparr>en_Type := ''content_block_start'', en_Index := i, en_BlockType := ''tool_use'',
     en_BlockID := callID, en_BlockName := ''f''\<rparr>"

definition demoFragment :: "int \<Rightarrow> string \<Rightarrow> eventEnvelope" where
  "demoFragment i part = zeroEnvelope\<lparr>en_Type := ''content_block_delta'', en_Index := i, en_DeltaType := ''input_json_delta'',
     en_DeltaPartialJSON := part\<rparr>"

definition demoUnmarshal :: "string \<Rightarrow> goError + eventEnvelope" where
  "demoUnmarshal s =
     (if s = ''b0'' then Inr (demoBegin 0 ''t'') else if s = ''b1'' then Inr (demoBegin 1 ''u'')
      else if s = ''f1'' then Inr (demoFragment 1 ''['') else if s = ''f0'' then Inr (demoFragment 0 ''1'')
      else if s = ''g1'' then Inr (demoFragment 1 '']'') else if s = ''stop'' then Inr (zeroEnvelope\<lparr>en_Type := ''message_stop''\<rparr>)
      else Inl (TextError ''syntax''))"

definition demoEnvelopes :: "eventEnvelope list" where
  "demoEnvelopes = [demoBegin 0 ''t'', demoBegin 1 ''u'', demoFragment 1 ''['', demoFragment 0 ''1'', demoFragment 1 '']'']"

definition demoFrames :: "(string \<times> string) list" where
  "demoFrames = [([], ''b0''), ([], ''b1''), ([], ''f1''), ([], ''f0''), ([], ''g1'')]"

lemma demo_carried: "list_all2 (carries demoUnmarshal) demoFrames demoEnvelopes"
proof -
  have "\<not> blank ''b0''" "\<not> blank ''b1''" "\<not> blank ''f1''" "\<not> blank ''f0''" "\<not> blank ''g1''" by code_simp+
  then show ?thesis
    by (simp add: demoFrames_def demoEnvelopes_def carries_def demoUnmarshal_def cleanText_def newline_def envelopeFrame_def
        printFrame_def eventLines_def optionalLine_def MaxSSELineBytes_def MaxSSEFrameBytes_def)
qed

lemma demo_calls: "map snd (fold assemble demoEnvelopes []) =
    [\<lparr>tc_ID = ''t'', tc_Name = ''f'', tc_Arguments = ''1'', tc_OperationID = []\<rparr>,
     \<lparr>tc_ID = ''u'', tc_Name = ''f'', tc_Arguments = ''[]'', tc_OperationID = []\<rparr>]"
  by code_simp

theorem anthropic_response_assembled_witness:
  "\<exists>events r. recvTimes demoUnmarshal (length events)
       (startState \<lparr>bd_bytes = printedFrames demoFrames @ envelopeFrame ([], ''stop''), bd_end = EOF\<rparr>) = map (\<lambda>e. (e, None)) events \<and>
     NormalizeEvents (\<lambda>_. True) events = Inr r \<and>
     nr_ToolCalls r = [\<lparr>tc_ID = ''t'', tc_Name = ''f'', tc_Arguments = ''1'', tc_OperationID = []\<rparr>,
       \<lparr>tc_ID = ''u'', tc_Name = ''f'', tc_Arguments = ''[]'', tc_OperationID = []\<rparr>]"
proof -
  have ordinary: "list_all ordinary demoEnvelopes" and order: "blocksInOrder demoEnvelopes []" by code_simp+
  have "\<not> blank ''stop''" by code_simp
  then have stop: "carries demoUnmarshal ([], ''stop'') (zeroEnvelope\<lparr>en_Type := ''message_stop''\<rparr>)"
    by (simp add: carries_def demoUnmarshal_def cleanText_def newline_def envelopeFrame_def
        printFrame_def eventLines_def optionalLine_def MaxSSELineBytes_def MaxSSEFrameBytes_def)
  have "length (fold assemble demoEnvelopes []) = length (map snd (fold assemble demoEnvelopes []))" by simp
  then have short: "length (fold assemble demoEnvelopes []) \<le> 1024" unfolding demo_calls by simp
  have "\<not> blank ''t''" "\<not> blank ''u''" by code_simp+
  then have ids: "\<not> blank (tc_ID c) \<and> (tc_Arguments c = [] \<or> (\<lambda>_. True) (tc_Arguments c))"
    if "c \<in> snd ` set (fold assemble demoEnvelopes [])" for c
    using that unfolding set_map [symmetric] demo_calls by auto
  show ?thesis
    using anthropic_response_assembled [OF demo_carried ordinary stop _ order short ids, of "[]" EOF]
    by (simp add: demo_calls) blast
qed

end
