(* ===== verification/Agent_Types.thy ===== *)
theory Agent_Types
  imports Provider
begin

text \<open>
  The data the agent loop produces and persists (\<^verbatim>\<open>src/agent\<close>): requests and budgets, steps and
  their traces, results and failures, output policies and continuations.

  A failure's unexported cause is not part of its serialised form; it is the error the loop
  returns beside the result, so \<open>AgentFailure\<close> has the two serialised fields only.
\<close>

record Budget =
  b_MaxTokens :: int
  b_MaxToolCalls :: int
  b_MaxSteps :: int
  b_MaxWallClock :: duration

record AgentRequest =
  rq_Prompt :: string
  rq_Budget :: "Budget option"

record OutputPolicy =
  op_Schema :: bytes
  op_Validate :: bool
  op_Repair :: bool
  op_MaxRepairAttempts :: int

datatype FailureKind = FailureKindBudgetExhausted | FailureKindToolUnavailable
  | FailureKindSchemaInvalid | FailureKindRepairFailed | FailureKindOutputBlocked
  | FailureKindContextBuildFailed | FailureKindEngineError | FailureKindStepAborted
  | FailureKindOther string

record AgentFailure =
  af_Kind :: FailureKind
  af_Reason :: string

record ModelCall =
  mc_Provider :: string
  mc_Model :: string
  mc_InputTokens :: int
  mc_CachedInputTokens :: int
  mc_CachedInputTokensReported :: bool
  mc_CacheWriteInputTokens :: int
  mc_CacheWriteInputTokensReported :: bool
  mc_OutputTokens :: int
  mc_ReasoningTokens :: int
  mc_TotalTokens :: int
  mc_StopReason :: StopReason

record ToolCallTrace =
  tt_ID :: string
  tt_Name :: string
  tt_Arguments :: bytes
  tt_Output :: bytes
  tt_Error :: string

record Observation =
  ob_Kind :: string
  ob_Message :: string

datatype StepDecision = StepDecisionContinue | StepDecisionFinish | StepDecisionFail
  | StepDecisionOther string

record BudgetUsage =
  bu_Tokens :: int
  bu_ToolCalls :: int
  bu_WallClock :: duration

record Step =
  s_Index :: int
  s_ModelCall :: "ModelCall option"
  s_ToolCalls :: "ToolCallTrace list"
  s_Observations :: "Observation list"
  s_Decision :: StepDecision
  s_BudgetUsed :: BudgetUsage

record Result =
  r_Text :: string
  r_Structured :: bytes
  r_Valid :: bool
  r_RepairCount :: int
  r_Failure :: "AgentFailure option"
  r_Steps :: "Step list"
  r_Usage :: Usage
  r_ToolCallsUsed :: int
  r_StopReason :: StopReason
  r_Messages :: "Message list"
  r_Thinking :: string

datatype ContinuationPhase = ContinuationReady | ContinuationModelComplete
  | ContinuationToolsComplete | ContinuationValidatingOutput | ContinuationOther string

record Continuation =
  c_SchemaVersion :: int
  c_Request :: AgentRequest
  c_OutputPolicy :: OutputPolicy
  c_Messages :: "Message list"
  c_Usage :: Usage
  c_Steps :: "Step list"
  c_ToolCallsUsed :: int
  c_RepairCount :: int
  c_ActiveElapsed :: duration
  c_NextOperationTurn :: int
  c_Phase :: ContinuationPhase

definition zeroResult :: Result where
  "zeroResult = \<lparr>r_Text = [], r_Structured = [], r_Valid = False, r_RepairCount = 0,
     r_Failure = None, r_Steps = [], r_Usage = zeroUsage, r_ToolCallsUsed = 0,
     r_StopReason = StopReasonOther [], r_Messages = [], r_Thinking = []\<rparr>"

definition zeroPolicy :: OutputPolicy where
  "zeroPolicy = \<lparr>op_Schema = [], op_Validate = False, op_Repair = False, op_MaxRepairAttempts = 0\<rparr>"

definition zeroContinuation :: Continuation where
  "zeroContinuation = \<lparr>c_SchemaVersion = 0, c_Request = \<lparr>rq_Prompt = [], rq_Budget = None\<rparr>,
     c_OutputPolicy = zeroPolicy, c_Messages = [], c_Usage = zeroUsage, c_Steps = [],
     c_ToolCallsUsed = 0, c_RepairCount = 0, c_ActiveElapsed = 0, c_NextOperationTurn = 0,
     c_Phase = ContinuationOther []\<rparr>"

end
