(* ===== verification/Agent_Continuation.thy ===== *)
theory Agent_Continuation
  imports Agent_Types Message_Turns
begin

text \<open>
  Validation of persisted agent state (\<^verbatim>\<open>src/agent/continuation.go\<close>). \<open>ValidateContinuation\<close> is
  translated with all its helpers; \<^verbatim>\<open>json.Valid\<close> is the argument \<open>jsonValid\<close>.

  Every failure of the code is \<^verbatim>\<open>continuationError(format, args...)\<close>; here it is the value
  \<open>InvalidContinuation format args\<close>, so that distinct failures stay distinct without
  rendering the message.
\<close>

section \<open>Errors and operation IDs\<close>

datatype continuationError = InvalidContinuation string "fmtArg list"

definition ContinuationSchemaVersion :: int where
  "ContinuationSchemaVersion = 1"

text \<open>The logical slot of a tool call, \<^verbatim>\<open>fmt.Sprintf("turn:%d:call:%d", turn, slot)\<close>.\<close>

definition toolOperationID :: "int \<Rightarrow> int \<Rightarrow> string" where
  "toolOperationID turn slot = ''turn:'' @ showInt turn @ '':call:'' @ showInt slot"

text \<open>
  The \<^verbatim>\<open>fmt.Sscanf\<close> of \<^verbatim>\<open>analyzeTranscript\<close> together with the comparison against the printed
  form of what it read, for non-negative numbers: a negative turn or slot is refused by the
  code right after.
\<close>

definition scanOperationID :: "string \<Rightarrow> (int \<times> int) option" where
  "scanOperationID s =
     (let turnDigits = takeWhile isDigit (drop 5 s);
          afterTurn = drop (length turnDigits) (drop 5 s);
          slotDigits = takeWhile isDigit (drop 6 afterTurn);
          turn = int (readNat turnDigits);
          slot = int (readNat slotDigits)
      in if turn \<le> maxInt \<and> slot \<le> maxInt \<and> toolOperationID turn slot = s
         then Some (turn, slot) else None)"

section \<open>Transcript analysis\<close>

record transcriptAnalysis =
  ta_pending :: bool
  ta_endsWithToolResults :: bool
  ta_pendingCalls :: "ToolCall list"
  ta_assistantIndices :: "nat list"
  ta_maxOperationTurn :: int

text \<open>The loop over the calls of one assistant message; \<open>seenIDs\<close> are the IDs met so far.\<close>

fun analyzeCalls ::
    "nat \<Rightarrow> nat \<Rightarrow> ToolCall list \<Rightarrow> string set \<Rightarrow> int \<Rightarrow> continuationError + int" where
  "analyzeCalls messageIndex callIndex [] seenIDs maxTurn = Inr maxTurn"
| "analyzeCalls messageIndex callIndex (call # calls) seenIDs maxTurn =
     (if tc_ID call = [] \<or> tc_Name call = [] then
        Inl (InvalidContinuation ''message %d has an unnamed tool call'' [ArgInt (int messageIndex)])
      else if tc_ID call \<in> seenIDs then
        Inl (InvalidContinuation ''message %d repeats tool call ID %q''
          [ArgInt (int messageIndex), ArgString (tc_ID call)])
      else if tc_OperationID call = [] then
        analyzeCalls messageIndex (Suc callIndex) calls (insert (tc_ID call) seenIDs) maxTurn
      else case scanOperationID (tc_OperationID call) of
        Some (turn, slot) \<Rightarrow>
          if turn < 0 \<or> slot \<noteq> int callIndex then
            Inl (InvalidContinuation ''message %d has invalid operation ID %q''
              [ArgInt (int messageIndex), ArgString (tc_OperationID call)])
          else analyzeCalls messageIndex (Suc callIndex) calls (insert (tc_ID call) seenIDs)
                 (max maxTurn turn)
      | None \<Rightarrow> Inl (InvalidContinuation ''message %d has invalid operation ID %q''
          [ArgInt (int messageIndex), ArgString (tc_OperationID call)]))"

fun analyzeLoop ::
    "nat \<Rightarrow> Message list \<Rightarrow> ToolCall list \<Rightarrow> nat \<Rightarrow> transcriptAnalysis
       \<Rightarrow> continuationError + transcriptAnalysis" where
  "analyzeLoop messageIndex [] pending pendingIndex analysis =
     Inr (analysis\<lparr>ta_pending := pending \<noteq> [], ta_pendingCalls := pending\<rparr>)"
| "analyzeLoop messageIndex (current # rest) pending pendingIndex analysis =
     (if pending \<noteq> [] then
        (if m_Role current \<noteq> RoleTool \<or> m_ToolResult current = None then
           Inl (InvalidContinuation ''message %d splits a tool result sequence''
             [ArgInt (int messageIndex)])
         else if tr_ToolCallID (the (m_ToolResult current)) \<noteq> tc_ID (pending ! pendingIndex) then
           Inl (InvalidContinuation ''message %d answers tool call %q with %q''
             [ArgInt (int messageIndex), ArgString (tc_ID (pending ! pendingIndex)),
              ArgString (tr_ToolCallID (the (m_ToolResult current)))])
         else if Suc pendingIndex = length pending then
           analyzeLoop (Suc messageIndex) rest [] 0 (analysis\<lparr>ta_endsWithToolResults := True\<rparr>)
         else
           analyzeLoop (Suc messageIndex) rest pending (Suc pendingIndex)
             (analysis\<lparr>ta_endsWithToolResults := True\<rparr>))
      else if m_Role current = RoleTool then
        Inl (InvalidContinuation ''message %d is an orphan tool result'' [ArgInt (int messageIndex)])
      else if m_Role current \<noteq> RoleAssistant then
        analyzeLoop (Suc messageIndex) rest [] 0 (analysis\<lparr>ta_endsWithToolResults := False\<rparr>)
      else
        let found = analysis\<lparr>ta_endsWithToolResults := False,
                      ta_assistantIndices := ta_assistantIndices analysis @ [messageIndex]\<rparr>
        in if m_ToolCalls current = [] then analyzeLoop (Suc messageIndex) rest [] 0 found
           else case analyzeCalls messageIndex 0 (m_ToolCalls current) {}
                       (ta_maxOperationTurn analysis) of
             Inl err \<Rightarrow> Inl err
           | Inr maxTurn \<Rightarrow>
               analyzeLoop (Suc messageIndex) rest (m_ToolCalls current) 0
                 (found\<lparr>ta_maxOperationTurn := maxTurn\<rparr>))"

definition analyzeTranscript :: "Message list \<Rightarrow> continuationError + transcriptAnalysis" where
  "analyzeTranscript messages =
     analyzeLoop 0 messages [] 0
       \<lparr>ta_pending = False, ta_endsWithToolResults = False, ta_pendingCalls = [],
        ta_assistantIndices = [], ta_maxOperationTurn = - 1\<rparr>"

section \<open>Scalars and usage\<close>

definition modelCallUsage :: "ModelCall \<Rightarrow> Usage" where
  "modelCallUsage call =
     \<lparr>u_InputTokens = mc_InputTokens call,
      u_CachedInputTokens = mc_CachedInputTokens call,
      u_CachedInputTokensReported = mc_CachedInputTokensReported call,
      u_CacheWriteInputTokens = mc_CacheWriteInputTokens call,
      u_CacheWriteInputTokensReported = mc_CacheWriteInputTokensReported call,
      u_OutputTokens = mc_OutputTokens call,
      u_ReasoningTokens = mc_ReasoningTokens call,
      u_TotalTokens = mc_TotalTokens call\<rparr>"

definition usageContains :: "Usage \<Rightarrow> Usage \<Rightarrow> bool" where
  "usageContains total0 minimum \<longleftrightarrow>
     u_InputTokens total0 \<ge> u_InputTokens minimum \<and>
     u_CachedInputTokens total0 \<ge> u_CachedInputTokens minimum \<and>
     (u_CachedInputTokensReported minimum \<longrightarrow> u_CachedInputTokensReported total0) \<and>
     u_CacheWriteInputTokens total0 \<ge> u_CacheWriteInputTokens minimum \<and>
     (u_CacheWriteInputTokensReported minimum \<longrightarrow> u_CacheWriteInputTokensReported total0) \<and>
     u_OutputTokens total0 \<ge> u_OutputTokens minimum \<and>
     u_ReasoningTokens total0 \<ge> u_ReasoningTokens minimum \<and>
     u_TotalTokens total0 \<ge> u_TotalTokens minimum"

definition validCompletedStepDecision :: "StepDecision \<Rightarrow> bool" where
  "validCompletedStepDecision decision \<longleftrightarrow>
     decision = StepDecisionContinue \<or> decision = StepDecisionFinish \<or> decision = StepDecisionFail"

definition validModelCallUsage :: "ModelCall \<Rightarrow> bool" where
  "validModelCallUsage call \<longleftrightarrow>
     \<not> (mc_InputTokens call < 0 \<or> mc_CachedInputTokens call < 0 \<or> mc_CacheWriteInputTokens call < 0
        \<or> mc_OutputTokens call < 0 \<or> mc_ReasoningTokens call < 0 \<or> mc_TotalTokens call < 0)
     \<and> mc_CachedInputTokens call \<le> mc_InputTokens call
     \<and> mc_CacheWriteInputTokens call \<le> mc_InputTokens call
     \<and> mc_ReasoningTokens call \<le> mc_OutputTokens call
     \<and> mc_TotalTokens call \<ge> wrap64 (mc_InputTokens call + mc_OutputTokens call)"

definition validateContinuationUsage :: "Usage \<Rightarrow> continuationError option" where
  "validateContinuationUsage usage =
     (if u_InputTokens usage < 0 \<or> u_CachedInputTokens usage < 0 \<or> u_CacheWriteInputTokens usage < 0
         \<or> u_OutputTokens usage < 0 \<or> u_ReasoningTokens usage < 0 \<or> u_TotalTokens usage < 0
      then Some (InvalidContinuation ''negative usage'' [])
      else if u_CachedInputTokens usage > u_InputTokens usage
         \<or> u_CacheWriteInputTokens usage > u_InputTokens usage
         \<or> u_ReasoningTokens usage > u_OutputTokens usage
         \<or> u_TotalTokens usage < wrap64 (u_InputTokens usage + u_OutputTokens usage)
      then Some (InvalidContinuation ''inconsistent usage'' [])
      else None)"

definition validateContinuationBudget :: "Budget option \<Rightarrow> continuationError option" where
  "validateContinuationBudget budget =
     (case budget of None \<Rightarrow> None
      | Some b \<Rightarrow>
          if b_MaxTokens b < 0 \<or> b_MaxToolCalls b < 0 \<or> b_MaxSteps b < 0 \<or> b_MaxWallClock b < 0
          then Some (InvalidContinuation ''negative request budget'' []) else None)"

definition validateContinuationOutputPolicy ::
    "(bytes \<Rightarrow> bool) \<Rightarrow> OutputPolicy \<Rightarrow> continuationError option" where
  "validateContinuationOutputPolicy jsonValid policy =
     (if op_MaxRepairAttempts policy < 0
      then Some (InvalidContinuation ''negative repair attempt limit'' [])
      else if op_Schema policy \<noteq> [] \<and> \<not> jsonValid (op_Schema policy)
      then Some (InvalidContinuation ''output schema is invalid JSON'' [])
      else None)"

text \<open>Two checks in sequence, the first error being the one returned.\<close>

definition firstError :: "'e option \<Rightarrow> 'e option \<Rightarrow> 'e option" where
  "firstError first second = (case first of Some err \<Rightarrow> Some err | None \<Rightarrow> second)"

definition validateContinuationScalars ::
    "(bytes \<Rightarrow> bool) \<Rightarrow> Continuation \<Rightarrow> continuationError option" where
  "validateContinuationScalars jsonValid c =
     (if c_ToolCallsUsed c < 0 \<or> c_RepairCount c < 0 \<or> c_ActiveElapsed c < 0
         \<or> c_NextOperationTurn c < 0
      then Some (InvalidContinuation ''negative counter or duration'' [])
      else firstError (validateContinuationBudget (rq_Budget (c_Request c)))
        (firstError (validateContinuationOutputPolicy jsonValid (c_OutputPolicy c))
          (validateContinuationUsage (c_Usage c))))"

section \<open>Phases and steps\<close>

definition validateContinuationPhaseTranscript ::
    "Continuation \<Rightarrow> transcriptAnalysis \<Rightarrow> continuationError option" where
  "validateContinuationPhaseTranscript c analysis =
     (case c_Phase c of
        ContinuationReady \<Rightarrow>
          if ta_pending analysis
          then Some (InvalidContinuation ''ready phase has pending tool calls'' []) else None
      | ContinuationModelComplete \<Rightarrow>
          if \<not> ta_pending analysis
          then Some (InvalidContinuation ''model_complete phase has no pending tool calls'' [])
          else None
      | ContinuationToolsComplete \<Rightarrow>
          if ta_pending analysis \<or> \<not> ta_endsWithToolResults analysis
          then Some (InvalidContinuation
                 ''tools_complete phase does not end with a complete tool turn'' [])
          else None
      | ContinuationValidatingOutput \<Rightarrow>
          if ta_pending analysis \<or> c_Messages c = []
          then Some (InvalidContinuation ''validating_output phase has incomplete output'' [])
          else if m_Role (last (c_Messages c)) \<noteq> RoleAssistant
                 \<or> m_ToolCalls (last (c_Messages c)) \<noteq> []
          then Some (InvalidContinuation
                 ''validating_output phase must end with assistant output'' [])
          else None
      | ContinuationOther phase \<Rightarrow>
          Some (InvalidContinuation ''unknown phase %q'' [ArgString phase]))"

fun validateTraces ::
    "nat \<Rightarrow> nat \<Rightarrow> ToolCallTrace list \<Rightarrow> ToolCall list \<Rightarrow> continuationError option" where
  "validateTraces stepIndex index (trace # traces) (call # calls) =
     (if tt_ID trace \<noteq> tc_ID call \<or> tt_Name trace \<noteq> tc_Name call
         \<or> tt_Arguments trace \<noteq> tc_Arguments call
      then Some (InvalidContinuation ''step %d tool trace %d does not match transcript''
             [ArgInt (int stepIndex), ArgInt (int index)])
      else validateTraces stepIndex (Suc index) traces calls)"
| "validateTraces stepIndex index _ _ = None"

definition validateStepToolCalls ::
    "nat \<Rightarrow> ToolCallTrace list \<Rightarrow> ToolCall list \<Rightarrow> continuationError option" where
  "validateStepToolCalls stepIndex traces calls =
     (if length traces \<noteq> length calls
      then Some (InvalidContinuation ''step %d has %d tool traces for %d calls''
             [ArgInt (int stepIndex), ArgInt (int (length traces)), ArgInt (int (length calls))])
      else validateTraces stepIndex 0 traces calls)"

definition validateContinuationStepBudget ::
    "Continuation \<Rightarrow> nat \<Rightarrow> Step \<Rightarrow> Message \<Rightarrow> bool \<Rightarrow> int \<Rightarrow> Usage \<Rightarrow> continuationError option" where
  "validateContinuationStepBudget c index step assistant pendingStep completedToolCalls cumulative =
     (let cumulativeTokens = u_TotalTokens cumulative;
          minimumTokens =
            (if index > 0
             then max cumulativeTokens
                    (wrap64 (bu_Tokens (s_BudgetUsed (c_Steps c ! (index - 1)))
                       + u_TotalTokens (modelCallUsage (the (s_ModelCall step)))))
             else cumulativeTokens)
      in if bu_ToolCalls (s_BudgetUsed step) \<noteq> completedToolCalls
         then Some (InvalidContinuation ''step %d tool-call budget snapshot is inconsistent''
                [ArgInt (int index)])
         else if pendingStep \<or> m_ToolCalls assistant = [] then
           (if bu_Tokens (s_BudgetUsed step) \<noteq> minimumTokens
            then Some (InvalidContinuation ''step %d token budget snapshot is inconsistent''
                   [ArgInt (int index)])
            else None)
         else if bu_Tokens (s_BudgetUsed step) < minimumTokens
         then Some (InvalidContinuation ''step %d token budget snapshot is below model usage''
                [ArgInt (int index)])
         else None)"

text \<open>The check that every call of a generated turn carries the ID of its slot.\<close>

fun checkOperationIDs :: "nat \<Rightarrow> int \<Rightarrow> nat \<Rightarrow> ToolCall list \<Rightarrow> continuationError option" where
  "checkOperationIDs index operationTurn callIndex [] = None"
| "checkOperationIDs index operationTurn callIndex (call # calls) =
     (if tc_OperationID call \<noteq> toolOperationID operationTurn (int callIndex)
      then Some (InvalidContinuation ''step %d tool call %d has operation ID %q, want %q''
             [ArgInt (int index), ArgInt (int callIndex), ArgString (tc_OperationID call),
              ArgString (toolOperationID operationTurn (int callIndex))])
      else checkOperationIDs index operationTurn (Suc callIndex) calls)"

definition validateContinuationStep ::
    "Continuation \<Rightarrow> nat \<Rightarrow> Step \<Rightarrow> Message \<Rightarrow> int \<Rightarrow> int \<Rightarrow> Usage \<Rightarrow> continuationError + (int \<times> Usage)" where
  "validateContinuationStep c index step assistant operationTurn completedToolCalls cumulative =
     (if s_Index step \<noteq> int index then
        Inl (InvalidContinuation ''step %d has index %d'' [ArgInt (int index), ArgInt (s_Index step)])
      else if bu_Tokens (s_BudgetUsed step) < 0 \<or> bu_ToolCalls (s_BudgetUsed step) < 0
          \<or> bu_WallClock (s_BudgetUsed step) < 0 then
        Inl (InvalidContinuation ''step %d has negative budget usage'' [ArgInt (int index)])
      else case s_ModelCall step of
        None \<Rightarrow> Inl (InvalidContinuation
          ''step %d has missing, negative, or inconsistent model usage'' [ArgInt (int index)])
      | Some modelCall \<Rightarrow>
          if \<not> validModelCallUsage modelCall then
            Inl (InvalidContinuation
              ''step %d has missing, negative, or inconsistent model usage'' [ArgInt (int index)])
          else if index + 1 < length (c_Steps c) \<and> s_Decision step \<noteq> StepDecisionContinue then
            Inl (InvalidContinuation ''step %d has terminal decision before a later step''
              [ArgInt (int index)])
          else case checkOperationIDs index operationTurn 0 (m_ToolCalls assistant) of
            Some err \<Rightarrow> Inl err
          | None \<Rightarrow>
              let pendingStep =
                    (c_Phase c = ContinuationModelComplete \<and> index + 1 = length (c_Steps c));
                  finalized =
                    (if pendingStep then
                       (if s_ToolCalls step \<noteq> [] \<or> s_Decision step \<noteq> StepDecisionContinue
                        then Some (InvalidContinuation ''model_complete step %d is already finalized''
                               [ArgInt (int index)])
                        else None)
                     else validateStepToolCalls index (s_ToolCalls step) (m_ToolCalls assistant));
                  completed =
                    (if pendingStep then completedToolCalls
                     else completedToolCalls + int (length (m_ToolCalls assistant)));
                  usage = UsageAdd cumulative (modelCallUsage modelCall)
              in case finalized of
                   Some err \<Rightarrow> Inl err
                 | None \<Rightarrow>
                     (case validateContinuationStepBudget c index step assistant pendingStep
                             completed usage of
                        Some err \<Rightarrow> Inl err
                      | None \<Rightarrow> Inr (completed, usage)))"

text \<open>
  The loop of \<^verbatim>\<open>validateContinuationSteps\<close>: \<open>assistants\<close> are the assistant messages of the
  generated turns, one per step, and \<open>firstTurn\<close> is the operation turn of step 0.
\<close>

fun validateStepsLoop ::
    "Continuation \<Rightarrow> int \<Rightarrow> nat \<Rightarrow> Step list \<Rightarrow> Message list \<Rightarrow> int \<Rightarrow> Usage
       \<Rightarrow> continuationError + (int \<times> Usage)" where
  "validateStepsLoop c firstTurn index (step # steps) (assistant # assistants) completed cumulative =
     (case validateContinuationStep c index step assistant (firstTurn + int index) completed cumulative of
        Inl err \<Rightarrow> Inl err
      | Inr (nextCompleted, nextUsage) \<Rightarrow>
          validateStepsLoop c firstTurn (Suc index) steps assistants nextCompleted nextUsage)"
| "validateStepsLoop c firstTurn index _ _ completed cumulative = Inr (completed, cumulative)"

definition validateContinuationSteps ::
    "Continuation \<Rightarrow> transcriptAnalysis \<Rightarrow> continuationError + (int \<times> Usage)" where
  "validateContinuationSteps c analysis =
     (let steps = length (c_Steps c); found = length (ta_assistantIndices analysis)
      in if c_NextOperationTurn c < int steps then
           Inl (InvalidContinuation ''next operation turn %d precedes %d completed model turns''
             [ArgInt (c_NextOperationTurn c), ArgInt (int steps)])
         else if found < steps then
           Inl (InvalidContinuation ''%d steps have only %d assistant turns''
             [ArgInt (int steps), ArgInt (int found)])
         else validateStepsLoop c (c_NextOperationTurn c - int steps) 0 (c_Steps c)
                (map (\<lambda>i. c_Messages c ! i) (drop (found - steps) (ta_assistantIndices analysis)))
                0 zeroUsage)"

definition validateContinuationTotals ::
    "Continuation \<Rightarrow> transcriptAnalysis \<Rightarrow> int \<Rightarrow> Usage \<Rightarrow> continuationError option" where
  "validateContinuationTotals c analysis completedToolCalls cumulative =
     (let expectedTokens =
            (if c_Steps c \<noteq> [] then bu_Tokens (s_BudgetUsed (last (c_Steps c))) else 0)
      in if c_ToolCallsUsed c \<noteq> completedToolCalls then
           Some (InvalidContinuation ''toolCallsUsed %d does not match completed execution count %d''
             [ArgInt (c_ToolCallsUsed c), ArgInt completedToolCalls])
         else if u_TotalTokens (c_Usage c) \<noteq> expectedTokens then
           Some (InvalidContinuation ''cumulative token usage does not match step budget'' [])
         else if \<not> usageContains (c_Usage c) cumulative then
           Some (InvalidContinuation ''cumulative usage is below model steps'' [])
         else if ta_maxOperationTurn analysis \<ge> c_NextOperationTurn c then
           Some (InvalidContinuation ''next operation turn %d does not follow transcript turn %d''
             [ArgInt (c_NextOperationTurn c), ArgInt (ta_maxOperationTurn analysis)])
         else None)"

definition validateContinuationPhaseSteps ::
    "Continuation \<Rightarrow> transcriptAnalysis \<Rightarrow> continuationError option" where
  "validateContinuationPhaseSteps c analysis =
     (case c_Phase c of
        ContinuationModelComplete \<Rightarrow>
          if c_Steps c = [] \<or> ta_pendingCalls analysis = []
          then Some (InvalidContinuation ''model_complete phase has no current model step'' [])
          else None
      | ContinuationToolsComplete \<Rightarrow>
          if c_Steps c = [] \<or> s_ToolCalls (last (c_Steps c)) = []
          then Some (InvalidContinuation ''tools_complete phase has no completed tool step'' [])
          else if \<not> validCompletedStepDecision (s_Decision (last (c_Steps c)))
          then Some (InvalidContinuation ''tools_complete phase has invalid decision %q''
                 [ArgString (case s_Decision (last (c_Steps c)) of
                    StepDecisionOther text \<Rightarrow> text | _ \<Rightarrow> [])])
          else None
      | ContinuationReady \<Rightarrow>
          if c_Steps c \<noteq> [] \<and> s_Decision (last (c_Steps c)) \<noteq> StepDecisionContinue
          then Some (InvalidContinuation ''ready phase does not follow a continue decision'' [])
          else None
      | ContinuationValidatingOutput \<Rightarrow>
          if c_Steps c = []
          then Some (InvalidContinuation ''validating_output phase has no current model step'' [])
          else if s_Decision (last (c_Steps c)) \<noteq> StepDecisionFinish
          then Some (InvalidContinuation
                 ''validating_output phase does not follow a finish decision'' [])
          else None
      | ContinuationOther _ \<Rightarrow> None)"

definition ValidateContinuation ::
    "(bytes \<Rightarrow> bool) \<Rightarrow> Continuation \<Rightarrow> continuationError option" where
  "ValidateContinuation jsonValid c =
     (if c_SchemaVersion c \<noteq> ContinuationSchemaVersion then
        Some (InvalidContinuation ''unsupported schema version %d'' [ArgInt (c_SchemaVersion c)])
      else case validateContinuationScalars jsonValid c of
        Some err \<Rightarrow> Some err
      | None \<Rightarrow>
          (case analyzeTranscript (c_Messages c) of
             Inl err \<Rightarrow> Some err
           | Inr analysis \<Rightarrow>
               (case validateContinuationPhaseTranscript c analysis of
                  Some err \<Rightarrow> Some err
                | None \<Rightarrow>
                    (case validateContinuationSteps c analysis of
                       Inl err \<Rightarrow> Some err
                     | Inr (completedToolCalls, cumulative) \<Rightarrow>
                         firstError (validateContinuationTotals c analysis completedToolCalls cumulative)
                           (validateContinuationPhaseSteps c analysis)))))"

end
