(* ===== verification/Agent_Stream.thy ===== *)
theory Agent_Stream
  imports Agent_Continuation Provider_Normalize
begin

text \<open>
  Draining one provider stream into an assistant message (\<^verbatim>\<open>collect\<close>, \<^verbatim>\<open>applyNormalized\<close> and
  \<^verbatim>\<open>providerEventSize\<close> of \<^verbatim>\<open>src/agent/agent.go\<close>), and the errors the agent loop can return.

  A stream is the list of what its polls will meet: whether the context is already done, what
  \<^verbatim>\<open>Recv\<close> returns, and how the per-event callbacks (\<^verbatim>\<open>onEvent\<close>, the hooks, the sink) end. A poll
  beyond the list finds a live context and \<^verbatim>\<open>io.EOF\<close>. A panic of \<^verbatim>\<open>Recv\<close> or of a callback, which
  \<^verbatim>\<open>collect\<close> recovers, is an outcome like the others.
\<close>

section \<open>Errors of the loop\<close>

datatype compactError =
    CompactHook goError
  | CompactTurns TurnError
  | CachePrefixRemoved
  | CachePrefixChanged nat

datatype loopError =
    ExternalError goError
  | PanicRecovered string
  | ProviderTurnLimit string int
  | NormalizeFailure normalizeError
  | BudgetExhausted string
  | ToolBusMissing
  | ToolNotFound string
  | StepAborted "goError option"
  | ObserveStepFailure int goError
  | BuildBoundaryFailure ContinuationPhase continuationError
  | ObserveBoundaryFailure ContinuationPhase goError
  | CompactFailure compactError
  | GuardrailInvalidResult string "fmtArg list"
  | GuardrailTripwire string string Message
  | GuardrailRetryLimit string Message
  | ContinuationFailure continuationError
  | JoinedErrors "loopError list"

section \<open>Collecting a stream\<close>

definition maxProviderTurnEvents :: int where
  "maxProviderTurnEvents = 65536"

definition maxProviderTurnBytes :: int where
  "maxProviderTurnBytes = 67108864"

datatype recvOutcome = RecvEvent Event | RecvEOF | RecvErr goError | RecvPanic string

datatype callbackOutcome = CallbackOk | CallbackErr goError | CallbackPanic string

record poll =
  po_CtxErr :: "goError option"
  po_Recv :: recvOutcome
  po_Callback :: callbackOutcome

text \<open>\<open>errorText\<close> renders an error as its \<^verbatim>\<open>Error\<close> method does.\<close>

definition providerEventSize :: "(goError \<Rightarrow> string) \<Rightarrow> Event \<Rightarrow> int" where
  "providerEventSize errorText event =
     int (length (ev_Text event) + length (ev_Thinking event) + length (ev_Signature event)
        + length (ev_RedactedThinking event) + length (ev_ProviderState event)
        + (case ev_ToolCall event of None \<Rightarrow> 0
           | Some call \<Rightarrow> length (tc_ID call) + length (tc_Name call) + length (tc_Arguments call))
        + (case ev_ToolCallDelta event of None \<Rightarrow> 0
           | Some delta \<Rightarrow> length (tcd_ID delta) + length (tcd_Name delta)
                            + length (tcd_ArgumentsDelta delta))
        + length (rm_ID (ev_Response event)) + length (rm_Model (ev_Response event))
        + sum_list (map (\<lambda>(key, val). length key + length val) (rm_Headers (ev_Response event)))
        + (case ev_Err event of None \<Rightarrow> 0 | Some err \<Rightarrow> length (errorText err)))"

definition assistantShell :: Message where
  "assistantShell = zeroMessage\<lparr>m_Role := RoleAssistant, m_Kind := KindStandard\<rparr>"

definition applyNormalized ::
    "(bytes \<Rightarrow> bool) \<Rightarrow> Message \<Rightarrow> Event list \<Rightarrow> bool
       \<Rightarrow> Message \<times> Usage \<times> StopReason \<times> normalizeError option" where
  "applyNormalized jsonValid assistant events requireTerminal =
     (case (if requireTerminal then NormalizeEvents jsonValid events
            else NormalizePartialEvents jsonValid events) of
        Inl err \<Rightarrow> (assistant, zeroUsage, StopReasonError, Some err)
      | Inr normalized \<Rightarrow>
          (SyncLegacyContent (assistant\<lparr>m_Content := nr_Content normalized,
             m_ToolCalls := nr_ToolCalls normalized, m_ProviderState := nr_ProviderState normalized,
             m_Response := nr_Response normalized\<rparr>),
           nr_Usage normalized, nr_StopReason normalized, None))"

text \<open>
  The turn as \<^verbatim>\<open>collect\<close> leaves it: the assistant message, its usage and stop reason, and the error.
  \<open>partialTurn\<close> normalizes what was received before a failure.
\<close>

type_synonym turnResult = "Message \<times> Usage \<times> StopReason \<times> loopError option"

definition partialTurn :: "(bytes \<Rightarrow> bool) \<Rightarrow> Event list \<Rightarrow> loopError \<Rightarrow> turnResult" where
  "partialTurn jsonValid events err =
     (case applyNormalized jsonValid assistantShell events False of
        (assistant, usage, stop, _) \<Rightarrow> (assistant, usage, stop, Some err))"

definition defaultStop :: "turnResult \<Rightarrow> turnResult" where
  "defaultStop turn =
     (case turn of (assistant, usage, stop, err) \<Rightarrow>
        (assistant, usage, if stop = StopReasonOther [] then StopReasonError else stop, err))"

definition panicTurn :: "(bytes \<Rightarrow> bool) \<Rightarrow> Event list \<Rightarrow> string \<Rightarrow> turnResult" where
  "panicTurn jsonValid events text =
     (case partialTurn jsonValid events (PanicRecovered text) of
        (assistant, usage, _, err) \<Rightarrow> (assistant, usage, StopReasonError, err))"

definition completeTurn :: "(bytes \<Rightarrow> bool) \<Rightarrow> Event list \<Rightarrow> turnResult" where
  "completeTurn jsonValid events =
     (case applyNormalized jsonValid assistantShell events True of
        (assistant, usage, stop, Some err) \<Rightarrow>
          (assistant, zeroUsage, StopReasonError, Some (NormalizeFailure err))
      | (assistant, usage, stop, None) \<Rightarrow> (assistant, usage, stop, None))"

fun collectLoop ::
    "(bytes \<Rightarrow> bool) \<Rightarrow> (goError \<Rightarrow> string) \<Rightarrow> poll list \<Rightarrow> Event list \<Rightarrow> bool \<Rightarrow> int \<Rightarrow> turnResult" where
  "collectLoop jsonValid errorText [] events sawTerminal eventBytes = completeTurn jsonValid events"
| "collectLoop jsonValid errorText (p # polls) events sawTerminal eventBytes =
     (if \<not> sawTerminal \<and> po_CtxErr p \<noteq> None then
        defaultStop (partialTurn jsonValid events (ExternalError (the (po_CtxErr p))))
      else case po_Recv p of
        RecvPanic text \<Rightarrow> panicTurn jsonValid events text
      | RecvEOF \<Rightarrow> completeTurn jsonValid events
      | RecvErr recvErr \<Rightarrow>
          if sawTerminal \<and> isContextError recvErr then completeTurn jsonValid events
          else defaultStop (partialTurn jsonValid events (ExternalError recvErr))
      | RecvEvent event \<Rightarrow>
          let seen = (sawTerminal \<or> ev_Kind event = EventDone);
              size = providerEventSize errorText event
          in if int (length events) \<ge> maxProviderTurnEvents then
               partialTurn jsonValid events
                 (ProviderTurnLimit ''more than %d events'' maxProviderTurnEvents)
             else if size > maxProviderTurnBytes - eventBytes then
               partialTurn jsonValid events
                 (ProviderTurnLimit ''more than %d bytes'' maxProviderTurnBytes)
             else case po_Callback p of
               CallbackOk \<Rightarrow>
                 collectLoop jsonValid errorText polls (events @ [event]) seen (eventBytes + size)
             | CallbackErr cbErr \<Rightarrow>
                 partialTurn jsonValid (events @ [event]) (ExternalError cbErr)
             | CallbackPanic text \<Rightarrow> panicTurn jsonValid (events @ [event]) text)"

definition collect :: "(bytes \<Rightarrow> bool) \<Rightarrow> (goError \<Rightarrow> string) \<Rightarrow> poll list \<Rightarrow> turnResult" where
  "collect jsonValid errorText polls = collectLoop jsonValid errorText polls [] False 0"

end
