(* ===== verification/Agent_Loop.thy ===== *)
theory Agent_Loop
  imports Agent_Stream
begin

text \<open>
  The bounded agent loop (\<^verbatim>\<open>RunMessages\<close> of \<^verbatim>\<open>src/agent/agent.go\<close>) with its budget rules, history
  compaction, boundary observation, tool dispatch and output guardrails, the hook chain
  (\<^verbatim>\<open>src/agent/hook.go\<close>) and the guardrail results (\<^verbatim>\<open>src/agent/output_guardrail.go\<close>).

  Code the loop only calls is an argument. Caller-supplied extensions (compactors, guardrails, step
  deciders and observers, boundary observers, hooks, sinks, tool drivers, the provider) are
  functions held by \<open>LoopInput\<close> and \<open>Engine\<close>; the first argument of each is the iteration that
  calls it, so an extension may answer differently every time. \<open>e_OpenStream\<close> stands for the assembly
  of the request beyond its operation ID and messages, the \<^verbatim>\<open>BeforeModelCall\<close> hooks, the check of the
  extra body, the interceptors and the driver.

  A panic of an extension is modelled where the code contains it close to its origin (the hook chain
  and \<open>collect\<close>); the recovery of any other panic by \<^verbatim>\<open>recoverRunMessagesPanic\<close> is not.
\<close>

section \<open>Data\<close>

datatype Mode = ModeSequential | ModeParallel | ModeOther string

datatype OutputGuardrailAction = OutputGuardrailActionAllow | OutputGuardrailActionReplace
  | OutputGuardrailActionRetry | OutputGuardrailActionBlock | OutputGuardrailActionOther string

record RetryPolicy =
  rp_IncludeRejectedOutput :: bool
  rp_RedactRejectedOutput :: bool
  rp_ReplacementContext :: "Message list"

record OutputGuardrailResult =
  og_Action :: OutputGuardrailAction
  og_Replacement :: "Message option"
  og_RetryMessages :: "Message list"
  og_RetryPolicy :: RetryPolicy
  og_Reason :: string

record OutputGuardrailInput =
  gi_Model :: string
  gi_Messages :: "Message list"
  gi_Output :: Message
  gi_Iteration :: int
  gi_MaxIterations :: int
  gi_UnlimitedIterations :: bool
  gi_Usage :: Usage
  gi_StopReason :: StopReason
  gi_Metadata :: strmap

record OutputGuardrail =
  gr_Name :: string
  gr_Check :: "int \<Rightarrow> OutputGuardrailInput \<Rightarrow> goError + OutputGuardrailResult"

record LoopInput =
  in_Model :: string
  in_Messages :: "Message list"
  in_Metadata :: strmap
  in_ToolMode :: Mode
  in_MaxIterations :: int
  in_UnlimitedIterations :: bool
  in_OperationTurn :: int
  in_Sink :: "(int \<Rightarrow> ToolResult \<Rightarrow> goError option) option"
  in_OutputGuardrails :: "OutputGuardrail option list"
  in_MaxTokens :: int
  in_MaxToolCalls :: int
  in_MaxSteps :: int
  in_ContextTokenTarget :: int
  in_StepDecider :: "(int \<Rightarrow> Step list \<Rightarrow> goError + StepDecision) option"
  in_StepObserver :: "(int \<Rightarrow> Step \<Rightarrow> goError option) option"
  in_Compact :: "(int \<Rightarrow> Message list \<Rightarrow> goError + Message list) option"
  in_CompactTo :: "(int \<Rightarrow> Message list \<Rightarrow> int \<Rightarrow> goError + Message list) option"
  in_continuationRequest :: AgentRequest
  in_continuationPolicy :: OutputPolicy
  in_repairCount :: int
  in_activeElapsed :: duration
  in_initialUsage :: Usage
  in_initialSteps :: "Step list"
  in_initialToolCallsUsed :: int

record LoopOutput =
  lo_Messages :: "Message list"
  lo_Usage :: Usage
  lo_StopReason :: StopReason
  lo_Iterations :: int
  lo_Thinking :: string
  lo_Steps :: "Step list"
  lo_ToolCallsUsed :: int
  lo_RepairCount :: int
  lo_ActiveElapsed :: duration
  lo_NextOperationTurn :: int

definition zeroOutput :: LoopOutput where
  "zeroOutput = \<lparr>lo_Messages = [], lo_Usage = zeroUsage, lo_StopReason = StopReasonOther [],
     lo_Iterations = 0, lo_Thinking = [], lo_Steps = [], lo_ToolCallsUsed = 0, lo_RepairCount = 0,
     lo_ActiveElapsed = 0, lo_NextOperationTurn = 0\<rparr>"

record StreamIdentity =
  si_Provider :: string
  si_Model :: string

text \<open>A hook answers with a value, an error or a panic; a nil hook is \<open>None\<close> in the chain.\<close>

datatype 'a hookOutcome = HookOk 'a | HookErr goError | HookPanic string

record Hook =
  hk_TransformContext :: "int \<Rightarrow> Message list \<Rightarrow> Message list option hookOutcome"
  hk_BeforeToolCall :: "int \<Rightarrow> ToolCall \<Rightarrow> ToolCall hookOutcome"
  hk_AfterToolCall :: "int \<Rightarrow> ToolResult \<Rightarrow> ToolResult hookOutcome"

text \<open>
  \<open>e_Tools\<close> gives for a registered tool name whether its definition is terminal; \<open>e_CtxErr\<close> is
  \<^verbatim>\<open>ctx.Err()\<close> at the head of an iteration (0) and before a dispatch (1); \<open>e_Elapsed\<close> is
  \<^verbatim>\<open>time.Since(segmentStarted)\<close>; \<open>e_ChildUsage\<close> is what the dispatched agent tools reported.
\<close>

record Engine =
  e_jsonValid :: "bytes \<Rightarrow> bool"
  e_errorText :: "goError \<Rightarrow> string"
  e_CtxErr :: "int \<Rightarrow> nat \<Rightarrow> goError option"
  e_OpenStream :: "int \<Rightarrow> string \<Rightarrow> Message list \<Rightarrow> goError + poll list \<times> StreamIdentity"
  e_Hooks :: "Hook option list"
  e_Tools :: "(string \<Rightarrow> bool option) option"
  e_ExecuteBatch :: "int \<Rightarrow> ToolCall list \<Rightarrow> Mode \<Rightarrow> ToolResult list \<times> goError option"
  e_ChildUsage :: "int \<Rightarrow> Usage"
  e_Boundaries :: "(int \<Rightarrow> Continuation \<Rightarrow> goError option) option"
  e_Elapsed :: "int \<Rightarrow> ContinuationPhase \<Rightarrow> duration"

section \<open>Hooks\<close>

definition guardHook :: "string \<Rightarrow> 'a hookOutcome \<Rightarrow> goError + 'a" where
  "guardHook stage outcome =
     (case outcome of HookOk v \<Rightarrow> Inr v | HookErr err \<Rightarrow> Inl err
      | HookPanic text \<Rightarrow> Inl (Wrapped (stage @ '': '' @ text) (SentinelError ''agent.ErrHookPanic'')))"

fun TransformContext :: "Hook option list \<Rightarrow> int \<Rightarrow> Message list \<Rightarrow> goError + Message list" where
  "TransformContext [] iteration current = Inr current"
| "TransformContext (None # hooks) iteration current = TransformContext hooks iteration current"
| "TransformContext (Some hook # hooks) iteration current =
     (case guardHook ''TransformContext'' (hk_TransformContext hook iteration current) of
        Inl err \<Rightarrow> Inl err
      | Inr next0 \<Rightarrow> TransformContext hooks iteration
          (case next0 of Some replaced \<Rightarrow> replaced | None \<Rightarrow> current))"

fun BeforeToolCall :: "Hook option list \<Rightarrow> int \<Rightarrow> ToolCall \<Rightarrow> goError + ToolCall" where
  "BeforeToolCall [] iteration call = Inr call"
| "BeforeToolCall (None # hooks) iteration call = BeforeToolCall hooks iteration call"
| "BeforeToolCall (Some hook # hooks) iteration call =
     (case guardHook ''BeforeToolCall'' (hk_BeforeToolCall hook iteration call) of
        Inl err \<Rightarrow> Inl err | Inr changed \<Rightarrow> BeforeToolCall hooks iteration changed)"

fun AfterToolCall :: "Hook option list \<Rightarrow> int \<Rightarrow> ToolResult \<Rightarrow> goError + ToolResult" where
  "AfterToolCall [] iteration result = Inr result"
| "AfterToolCall (None # hooks) iteration result = AfterToolCall hooks iteration result"
| "AfterToolCall (Some hook # hooks) iteration result =
     (case guardHook ''AfterToolCall'' (hk_AfterToolCall hook iteration result) of
        Inl err \<Rightarrow> Inl err | Inr changed \<Rightarrow> AfterToolCall hooks iteration changed)"

section \<open>Iteration and budget policy\<close>

definition normalizeIterationPolicy :: "LoopInput \<Rightarrow> LoopInput" where
  "normalizeIterationPolicy input =
     (if in_UnlimitedIterations input then input
      else if in_MaxIterations input \<le> 0 then input\<lparr>in_MaxIterations := 12\<rparr>
      else input)"

definition iterationAllowed :: "LoopInput \<Rightarrow> int \<Rightarrow> bool" where
  "iterationAllowed input iteration \<longleftrightarrow> in_UnlimitedIterations input \<or> iteration < in_MaxIterations input"

text \<open>
  \<^verbatim>\<open>budgetRemaining\<close>: the reduced input and the first exhausted dimension, the empty string when
  there is none.
\<close>

definition budgetRemaining :: "LoopInput \<Rightarrow> Usage \<Rightarrow> int \<Rightarrow> int \<Rightarrow> LoopInput \<times> string" where
  "budgetRemaining input usage toolCallsUsed steps =
     (let tokens = wrap64 (in_MaxTokens input - u_TotalTokens usage);
          toolCalls = in_MaxToolCalls input - toolCallsUsed;
          remainingSteps = in_MaxSteps input - steps
      in if in_MaxTokens input > 0 \<and> tokens \<le> 0 then (input, ''max tokens'')
         else if in_MaxToolCalls input > 0 \<and> toolCalls \<le> 0 then (input, ''max tool calls'')
         else if in_MaxSteps input > 0 \<and> remainingSteps \<le> 0 then (input, ''max steps'')
         else (input\<lparr>in_MaxTokens := (if in_MaxTokens input > 0 then tokens else in_MaxTokens input),
                 in_MaxToolCalls := (if in_MaxToolCalls input > 0 then toolCalls
                                     else in_MaxToolCalls input),
                 in_MaxSteps := (if in_MaxSteps input > 0 then remainingSteps
                                 else in_MaxSteps input)\<rparr>, []))"

definition dispatchExceedsToolBudget :: "LoopInput \<Rightarrow> int \<Rightarrow> int \<Rightarrow> bool" where
  "dispatchExceedsToolBudget input toolCallsUsed batch \<longleftrightarrow>
     in_MaxToolCalls input > 0 \<and> toolCallsUsed + batch > in_MaxToolCalls input"

definition preDispatchBudgetBlock :: "LoopInput \<Rightarrow> Usage \<Rightarrow> int \<Rightarrow> int \<Rightarrow> int \<Rightarrow> string" where
  "preDispatchBudgetBlock input usage toolCallsUsed steps batch =
     (let dimension = snd (budgetRemaining input usage toolCallsUsed steps)
      in if dimension \<noteq> [] then dimension
         else if dispatchExceedsToolBudget input toolCallsUsed batch then ''max tool calls''
         else [])"

section \<open>Outputs\<close>

definition loopErrorOutput ::
    "Message list \<Rightarrow> Usage \<Rightarrow> Step list \<Rightarrow> int \<Rightarrow> int \<Rightarrow> LoopOutput" where
  "loopErrorOutput current usage steps iterations toolCallsUsed =
     zeroOutput\<lparr>lo_Messages := current, lo_Usage := usage, lo_StopReason := StopReasonError,
       lo_Iterations := iterations, lo_Steps := steps, lo_ToolCallsUsed := toolCallsUsed\<rparr>"

definition budgetAbort ::
    "Message list \<Rightarrow> Usage \<Rightarrow> Step list \<Rightarrow> int \<Rightarrow> int \<Rightarrow> string \<Rightarrow> LoopOutput \<times> loopError option" where
  "budgetAbort current usage steps iterations toolCallsUsed dimension =
     (zeroOutput\<lparr>lo_Messages := current, lo_Usage := usage, lo_StopReason := StopReasonAborted,
        lo_Iterations := iterations, lo_Steps := steps, lo_ToolCallsUsed := toolCallsUsed\<rparr>,
      Some (BudgetExhausted dimension))"

definition errorsJoin :: "loopError option list \<Rightarrow> loopError option" where
  "errorsJoin errs =
     (let present = map the (filter (\<lambda>e. e \<noteq> None) errs)
      in if present = [] then None else Some (JoinedErrors present))"

section \<open>History\<close>

definition compactionBudgetHeadroomDivisor :: int where
  "compactionBudgetHeadroomDivisor = 5"

fun firstChanged :: "nat \<Rightarrow> Message list \<Rightarrow> Message list \<Rightarrow> nat option" where
  "firstChanged index (before # befores) (after # afters) =
     (if before \<noteq> after then Some index else firstChanged (Suc index) befores afters)"
| "firstChanged index _ _ = None"

definition validateCachePrefixPreserved :: "Message list \<Rightarrow> Message list \<Rightarrow> compactError option" where
  "validateCachePrefixPreserved before after =
     (case CachePrefixBoundary before of
        Inl err \<Rightarrow> Some (CompactTurns err)
      | Inr boundary \<Rightarrow>
          if boundary = 0 then None
          else if length after < boundary then Some CachePrefixRemoved
          else case firstChanged 0 (take boundary before) (take boundary after) of
            Some index \<Rightarrow> Some (CachePrefixChanged index)
          | None \<Rightarrow> None)"

definition cacheSafeCompactionInput :: "Message list \<Rightarrow> compactError + Message list" where
  "cacheSafeCompactionInput messages =
     (case CachePrefixBoundary messages of
        Inl err \<Rightarrow> Inl (CompactTurns err)
      | Inr boundary \<Rightarrow> Inr messages)"

definition maybeCompactHistory ::
    "LoopInput \<Rightarrow> int \<Rightarrow> Message list \<Rightarrow> Usage \<Rightarrow> loopError + Message list" where
  "maybeCompactHistory input iteration current usage =
     (if in_ContextTokenTarget input > 0 \<and> in_CompactTo input = None \<and> in_Compact input = None
      then Inr current
      else if \<not> in_ContextTokenTarget input > 0 \<and> (in_Compact input = None \<or> in_MaxTokens input \<le> 0)
      then Inr current
      else if \<not> in_ContextTokenTarget input > 0
              \<and> wrap64 (in_MaxTokens input - u_TotalTokens usage)
                  > in_MaxTokens input div compactionBudgetHeadroomDivisor
      then Inr current
      else case cacheSafeCompactionInput current of
        Inl err \<Rightarrow> Inl (CompactFailure err)
      | Inr compactionInput \<Rightarrow>
          (case (if in_ContextTokenTarget input > 0 \<and> in_CompactTo input \<noteq> None
                 then the (in_CompactTo input) iteration compactionInput (in_ContextTokenTarget input)
                 else the (in_Compact input) iteration compactionInput) of
             Inl err \<Rightarrow> Inl (CompactFailure (CompactHook err))
           | Inr compacted \<Rightarrow>
               (case ValidateCompleteTurns compacted of
                  Some err \<Rightarrow> Inl (CompactFailure (CompactTurns err))
                | None \<Rightarrow>
                    (case validateCachePrefixPreserved current compacted of
                       Some err \<Rightarrow> Inl (CompactFailure err)
                     | None \<Rightarrow> Inr compacted))))"

definition recordIncompleteTurn ::
    "Message list \<Rightarrow> Message \<Rightarrow> Usage \<Rightarrow> Usage \<Rightarrow> int \<Rightarrow> int \<Rightarrow> Message list \<times> Usage \<times> int" where
  "recordIncompleteTurn current assistant totalUsage usage iteration turnsRun =
     (if m_Text assistant = [] \<and> m_Thinking assistant = [] \<and> m_RedactedThinking assistant = []
         \<and> m_ToolCalls assistant = [] \<and> usage = zeroUsage
      then (current, totalUsage, turnsRun)
      else (current @ [assistant], UsageAdd totalUsage usage, iteration + 1))"

definition appendRetryContext ::
    "Message list \<Rightarrow> Message \<Rightarrow> Message list \<Rightarrow> RetryPolicy \<Rightarrow> Message list" where
  "appendRetryContext current assistant retryMessages retryPolicy =
     current
     @ (if rp_IncludeRejectedOutput retryPolicy \<and> (m_Text assistant \<noteq> [] \<or> m_Thinking assistant \<noteq> [])
        then [assistant] else [])
     @ rp_ReplacementContext retryPolicy @ retryMessages"

definition appendFinalAssistant :: "Message list \<Rightarrow> Message \<Rightarrow> Message list" where
  "appendFinalAssistant current finalOutput =
     (if m_Text finalOutput \<noteq> [] \<or> m_Thinking finalOutput \<noteq> [] then current @ [finalOutput]
      else current)"

text \<open>
  \<^verbatim>\<open>nextToolOperationTurn\<close> reads every operation ID with \<^verbatim>\<open>fmt.Sscanf\<close>: spaces and a sign may
  precede each number, anything may follow the second one, and a number outside the range of an
  \<^verbatim>\<open>int\<close> is an error. A line break where a number is expected is an error.
\<close>

definition scanInt :: "string \<Rightarrow> (int \<times> string) option" where
  "scanInt s =
     (let rest = dropSpaces (\<lambda>bytes. if bytes \<noteq> [] \<and> hd bytes = 10 then 0 else spaceWidth bytes) s;
          negative = (rest \<noteq> [] \<and> hd rest = CHR ''-'');
          unsigned = (if rest \<noteq> [] \<and> (hd rest = CHR ''-'' \<or> hd rest = CHR ''+'') then tl rest else rest);
          digits = takeWhile isDigit unsigned;
          number = (if negative then - int (readNat digits) else int (readNat digits))
      in if digits = [] \<or> \<not> int64 number then None
         else Some (number, drop (length digits) unsigned))"

definition scanTurnCall :: "string \<Rightarrow> (int \<times> int) option" where
  "scanTurnCall s =
     (if take 5 s \<noteq> ''turn:'' then None
      else case scanInt (drop 5 s) of
        None \<Rightarrow> None
      | Some (turn, rest) \<Rightarrow>
          if take 6 rest \<noteq> '':call:'' then None
          else case scanInt (drop 6 rest) of None \<Rightarrow> None | Some (slot, _) \<Rightarrow> Some (turn, slot))"

fun nextTurnOfCalls :: "ToolCall list \<Rightarrow> int \<Rightarrow> int" where
  "nextTurnOfCalls [] next0 = next0"
| "nextTurnOfCalls (call # calls) next0 =
     nextTurnOfCalls calls
       (case scanTurnCall (tc_OperationID call) of
          Some (turn, _) \<Rightarrow> if turn \<ge> next0 then wrap64 (turn + 1) else next0
        | None \<Rightarrow> next0)"

definition nextToolOperationTurn :: "Message list \<Rightarrow> int" where
  "nextToolOperationTurn messages = nextTurnOfCalls (concat (map m_ToolCalls messages)) 0"

end
