(* ===== verification/Agent_Run.thy ===== *)
theory Agent_Run
  imports Agent_Loop
begin

text \<open>
  The second half of the agent loop (\<^verbatim>\<open>src/agent/agent.go\<close>): output guardrails, boundaries, one model
  turn, one tool step, the finalization of steps, and \<^verbatim>\<open>RunMessages\<close> itself.

  The variables \<^verbatim>\<open>RunMessages\<close> shares with its helpers by pointer are the fields of \<open>loopState\<close>; the
  input is among them because the loop advances its operation turn. The loop may be configured without
  a bound, so \<open>runLoop\<close> takes fuel and answers \<open>None\<close> when it runs out.
\<close>

record loopState =
  st_input :: LoopInput
  st_current :: "Message list"
  st_usage :: Usage
  st_steps :: "Step list"
  st_toolCallsUsed :: int
  st_turnsRun :: int

section \<open>Output guardrails\<close>

definition normalizeOutputGuardrailResult ::
    "OutputGuardrailResult \<Rightarrow> loopError + OutputGuardrailResult" where
  "normalizeOutputGuardrailResult result0 =
     (let result = (if og_Action result0 = OutputGuardrailActionOther []
                    then result0\<lparr>og_Action := OutputGuardrailActionAllow\<rparr> else result0)
      in case og_Action result of
           OutputGuardrailActionAllow \<Rightarrow> Inr result
         | OutputGuardrailActionReplace \<Rightarrow>
             (case og_Replacement result of
                None \<Rightarrow> Inl (GuardrailInvalidResult ''replace requires replacement output'' [])
              | Some original \<Rightarrow>
                  let replacement = original
                        \<lparr>m_Role := (if m_Role original = RoleOther [] then RoleAssistant else m_Role original),
                         m_Kind := (if m_Kind original = KindOther [] then KindStandard else m_Kind original)\<rparr>
                  in if m_ToolCalls replacement \<noteq> [] \<or> m_ToolResult replacement \<noteq> None
                     then Inl (GuardrailInvalidResult
                            ''replace output must remain terminal assistant output'' [])
                     else Inr (result\<lparr>og_Replacement := Some replacement\<rparr>))
         | OutputGuardrailActionRetry \<Rightarrow>
             if og_RetryMessages result = []
             then Inl (GuardrailInvalidResult ''retry requires at least one retry message'' [])
             else Inr result
         | OutputGuardrailActionBlock \<Rightarrow> Inr result
         | OutputGuardrailActionOther action \<Rightarrow>
             Inl (GuardrailInvalidResult ''unknown action %q'' [ArgString action]))"

definition zeroRetryPolicy :: RetryPolicy where
  "zeroRetryPolicy = \<lparr>rp_IncludeRejectedOutput = False, rp_RedactRejectedOutput = False,
     rp_ReplacementContext = []\<rparr>"

text \<open>The loop of \<^verbatim>\<open>applyOutputGuardrails\<close>; \<open>iterations\<close> is the 1-based iteration it is given.\<close>

fun guardrailLoop ::
    "LoopInput \<Rightarrow> int \<Rightarrow> Message list \<Rightarrow> int \<Rightarrow> Usage \<Rightarrow> StopReason \<Rightarrow> OutputGuardrail option list \<Rightarrow> Message
       \<Rightarrow> loopError + Message \<times> Message list \<times> RetryPolicy" where
  "guardrailLoop input iteration current iterations usage stopReason [] candidate =
     Inr (candidate, [], zeroRetryPolicy)"
| "guardrailLoop input iteration current iterations usage stopReason (None # guardrails) candidate =
     guardrailLoop input iteration current iterations usage stopReason guardrails candidate"
| "guardrailLoop input iteration current iterations usage stopReason (Some guardrail # guardrails) candidate =
     (case gr_Check guardrail iteration
             \<lparr>gi_Model = in_Model input, gi_Messages = current, gi_Output = candidate,
              gi_Iteration = iterations, gi_MaxIterations = in_MaxIterations input,
              gi_UnlimitedIterations = in_UnlimitedIterations input, gi_Usage = usage,
              gi_StopReason = stopReason, gi_Metadata = in_Metadata input\<rparr> of
        Inl err \<Rightarrow> Inl (ExternalError err)
      | Inr result \<Rightarrow>
          (case normalizeOutputGuardrailResult result of
             Inl err \<Rightarrow> Inl err
           | Inr normalized \<Rightarrow>
               (case og_Action normalized of
                  OutputGuardrailActionReplace \<Rightarrow>
                    guardrailLoop input iteration current iterations usage stopReason guardrails
                      (the (og_Replacement normalized))
                | OutputGuardrailActionRetry \<Rightarrow>
                    if \<not> in_UnlimitedIterations input \<and> iterations \<ge> in_MaxIterations input
                    then Inl (GuardrailRetryLimit (gr_Name guardrail) candidate)
                    else Inr (candidate, og_RetryMessages normalized, og_RetryPolicy normalized)
                | OutputGuardrailActionBlock \<Rightarrow>
                    Inl (GuardrailTripwire (gr_Name guardrail) (og_Reason normalized) candidate)
                | _ \<Rightarrow>
                    guardrailLoop input iteration current iterations usage stopReason guardrails
                      candidate)))"

definition applyOutputGuardrails ::
    "LoopInput \<Rightarrow> int \<Rightarrow> Message list \<Rightarrow> Message \<Rightarrow> int \<Rightarrow> Usage \<Rightarrow> StopReason
       \<Rightarrow> loopError + Message \<times> Message list \<times> RetryPolicy" where
  "applyOutputGuardrails input iteration current assistant iterations usage stopReason =
     guardrailLoop input iteration current iterations usage stopReason (in_OutputGuardrails input) assistant"

section \<open>Observers and boundaries\<close>

definition observeFinalizedStep :: "LoopInput \<Rightarrow> int \<Rightarrow> Step list \<Rightarrow> loopError option" where
  "observeFinalizedStep input iteration steps =
     (case in_StepObserver input of
        None \<Rightarrow> None
      | Some observer \<Rightarrow>
          (case observer iteration (last steps) of
             Some err \<Rightarrow> Some (ObserveStepFailure (s_Index (last steps)) err)
           | None \<Rightarrow> None))"

definition buildContinuation ::
    "Engine \<Rightarrow> LoopInput \<Rightarrow> int \<Rightarrow> Message list \<Rightarrow> Usage \<Rightarrow> Step list \<Rightarrow> int \<Rightarrow> ContinuationPhase \<Rightarrow> Continuation" where
  "buildContinuation e input iteration messages usage steps toolCallsUsed phase =
     \<lparr>c_SchemaVersion = ContinuationSchemaVersion, c_Request = in_continuationRequest input,
      c_OutputPolicy = in_continuationPolicy input, c_Messages = messages, c_Usage = usage,
      c_Steps = steps, c_ToolCallsUsed = toolCallsUsed, c_RepairCount = in_repairCount input,
      c_ActiveElapsed = in_activeElapsed input + e_Elapsed e iteration phase,
      c_NextOperationTurn = in_OperationTurn input, c_Phase = phase\<rparr>"

definition observeBoundary ::
    "Engine \<Rightarrow> LoopInput \<Rightarrow> int \<Rightarrow> Message list \<Rightarrow> Usage \<Rightarrow> Step list \<Rightarrow> int \<Rightarrow> ContinuationPhase
       \<Rightarrow> loopError option" where
  "observeBoundary e input iteration messages usage steps toolCallsUsed phase =
     (case e_Boundaries e of
        None \<Rightarrow> None
      | Some observe \<Rightarrow>
          let continuation = buildContinuation e input iteration messages usage steps toolCallsUsed phase
          in case ValidateContinuation (e_jsonValid e) continuation of
               Some err \<Rightarrow> Some (BuildBoundaryFailure phase err)
             | None \<Rightarrow>
                 (case observe iteration continuation of
                    Some err \<Rightarrow> Some (ObserveBoundaryFailure phase err)
                  | None \<Rightarrow> None))"

text \<open>\<^verbatim>\<open>steps[len(steps)-1]\<close> is updated in place.\<close>

definition setLast :: "(Step \<Rightarrow> Step) \<Rightarrow> Step list \<Rightarrow> Step list" where
  "setLast f steps = butlast steps @ [f (last steps)]"

definition budgetUsed :: "Usage \<Rightarrow> int \<Rightarrow> BudgetUsage" where
  "budgetUsed usage toolCallsUsed =
     \<lparr>bu_Tokens = u_TotalTokens usage, bu_ToolCalls = toolCallsUsed, bu_WallClock = 0\<rparr>"

definition newModelCall :: "StreamIdentity \<Rightarrow> Usage \<Rightarrow> StopReason \<Rightarrow> ModelCall" where
  "newModelCall identity usage stopReason =
     \<lparr>mc_Provider = si_Provider identity, mc_Model = si_Model identity,
      mc_InputTokens = u_InputTokens usage, mc_CachedInputTokens = u_CachedInputTokens usage,
      mc_CachedInputTokensReported = u_CachedInputTokensReported usage,
      mc_CacheWriteInputTokens = u_CacheWriteInputTokens usage,
      mc_CacheWriteInputTokensReported = u_CacheWriteInputTokensReported usage,
      mc_OutputTokens = u_OutputTokens usage, mc_ReasoningTokens = u_ReasoningTokens usage,
      mc_TotalTokens = u_TotalTokens usage, mc_StopReason = stopReason\<rparr>"

definition newStep :: "int \<Rightarrow> ModelCall \<Rightarrow> StepDecision \<Rightarrow> Usage \<Rightarrow> int \<Rightarrow> Step" where
  "newStep iteration modelCall decision usage toolCallsUsed =
     \<lparr>s_Index = iteration, s_ModelCall = Some modelCall, s_ToolCalls = [], s_Observations = [],
      s_Decision = decision, s_BudgetUsed = budgetUsed usage toolCallsUsed\<rparr>"

section \<open>Turns without tool calls\<close>

text \<open>The five results of \<^verbatim>\<open>finalizeNoToolStep\<close>, in the order of the code.\<close>

type_synonym noToolResult = "Message list \<times> Step list \<times> LoopOutput \<times> bool \<times> loopError option"

definition finalizeNoToolStep ::
    "Engine \<Rightarrow> LoopInput \<Rightarrow> Message list \<Rightarrow> Message \<Rightarrow> ModelCall \<Rightarrow> Usage \<Rightarrow> Step list \<Rightarrow> StopReason \<Rightarrow> int
       \<Rightarrow> int \<Rightarrow> noToolResult" where
  "finalizeNoToolStep e input base assistant modelCall totalUsage steps0 stopReason iteration toolCallsUsed =
     (let current = appendFinalAssistant base assistant;
          steps = steps0 @ [newStep iteration modelCall StepDecisionFinish totalUsage toolCallsUsed];
          decide = (\<lambda>decision. setLast (\<lambda>step. step\<lparr>s_Decision := decision\<rparr>) steps);
          failed = (\<lambda>messages trace err.
            (messages, trace, loopErrorOutput messages totalUsage trace (iteration + 1) toolCallsUsed,
             False, Some err))
      in case observeBoundary e input iteration current totalUsage steps toolCallsUsed
                ContinuationValidatingOutput of
           Some boundaryErr \<Rightarrow> failed current steps boundaryErr
         | None \<Rightarrow>
             if in_MaxTokens input > 0 \<and> mc_TotalTokens modelCall = 0 then
               (case observeFinalizedStep input iteration (decide StepDecisionFail) of
                  Some observeErr \<Rightarrow> failed current (decide StepDecisionFail) observeErr
                | None \<Rightarrow>
                    let (out, budgetErr) = budgetAbort current totalUsage (decide StepDecisionFail)
                          (iteration + 1) toolCallsUsed ''max tokens''
                    in (current, decide StepDecisionFail, out, False, budgetErr))
             else case applyOutputGuardrails input iteration base assistant (iteration + 1) totalUsage
                         stopReason of
               Inl guardErr \<Rightarrow> failed current (decide StepDecisionFail) guardErr
             | Inr (finalOutput, retryMessages, retryPolicy) \<Rightarrow>
                 if retryMessages \<noteq> [] then
                   let retried = appendRetryContext base assistant retryMessages retryPolicy
                   in (case observeFinalizedStep input iteration (decide StepDecisionContinue) of
                         Some observeErr \<Rightarrow> failed retried (decide StepDecisionContinue) observeErr
                       | None \<Rightarrow> (retried, decide StepDecisionContinue, zeroOutput, True, None))
                 else
                   let final = appendFinalAssistant base finalOutput
                   in (case observeFinalizedStep input iteration steps of
                         Some observeErr \<Rightarrow> failed final steps observeErr
                       | None \<Rightarrow>
                           (final, steps,
                            zeroOutput\<lparr>lo_Messages := final, lo_Usage := totalUsage,
                              lo_StopReason := stopReason, lo_Iterations := iteration + 1,
                              lo_Thinking := m_Thinking finalOutput, lo_Steps := steps,
                              lo_ToolCallsUsed := toolCallsUsed\<rparr>, False, None)))"

section \<open>Turns with tool calls\<close>

text \<open>The traces pair calls and results by position; a call without a result has an empty trace.\<close>

fun toolCallTraces :: "ToolCall list \<Rightarrow> ToolResult list \<Rightarrow> ToolCallTrace list" where
  "toolCallTraces [] results = []"
| "toolCallTraces (call # calls) [] =
     \<lparr>tt_ID = tc_ID call, tt_Name = tc_Name call, tt_Arguments = tc_Arguments call, tt_Output = [],
      tt_Error = []\<rparr> # toolCallTraces calls []"
| "toolCallTraces (call # calls) (result # results) =
     \<lparr>tt_ID = tc_ID call, tt_Name = tc_Name call, tt_Arguments = tc_Arguments call,
      tt_Output = tr_Structured result,
      tt_Error = (if tr_IsError result then tr_Content result else [])\<rparr> # toolCallTraces calls results"

fun prepareLoop ::
    "Engine \<Rightarrow> (string \<Rightarrow> bool option) \<Rightarrow> int \<Rightarrow> ToolCall list \<Rightarrow> ToolCall list \<Rightarrow> bool
       \<Rightarrow> loopError + ToolCall list \<times> bool" where
  "prepareLoop e driver iteration [] prepared terminal0 = Inr (prepared, terminal0)"
| "prepareLoop e driver iteration (call # calls) prepared terminal0 =
     (case BeforeToolCall (e_Hooks e) iteration call of
        Inl err \<Rightarrow> Inl (ExternalError err)
      | Inr changed \<Rightarrow>
          let item = changed\<lparr>tc_OperationID := tc_OperationID call\<rparr>
          in case driver (tc_Name item) of
               None \<Rightarrow> Inl (ToolNotFound (tc_Name item))
             | Some isTerminal \<Rightarrow>
                 prepareLoop e driver iteration calls (prepared @ [item]) (terminal0 \<or> isTerminal))"

definition prepareToolCalls ::
    "Engine \<Rightarrow> int \<Rightarrow> ToolCall list \<Rightarrow> loopError + ToolCall list \<times> bool" where
  "prepareToolCalls e iteration calls =
     (case e_Tools e of None \<Rightarrow> Inl ToolBusMissing
      | Some driver \<Rightarrow> prepareLoop e driver iteration calls [] False)"

text \<open>The loop over the results of \<^verbatim>\<open>ExecuteBatch\<close>; the results blessed before a failing hook are kept.\<close>

fun afterLoop ::
    "Engine \<Rightarrow> int \<Rightarrow> ToolResult list \<Rightarrow> ToolCall list \<Rightarrow> ToolResult list \<Rightarrow> ToolResult list \<times> goError option" where
  "afterLoop e iteration [] prepared items = (items, None)"
| "afterLoop e iteration (result # results) prepared items =
     (let item = (case prepared of
                    [] \<Rightarrow> result
                  | call # _ \<Rightarrow>
                      result\<lparr>tr_ToolCallID := (if tr_ToolCallID result = [] then tc_ID call
                                               else tr_ToolCallID result),
                        tr_Name := (if tr_Name result = [] then tc_Name call else tr_Name result)\<rparr>)
      in case AfterToolCall (e_Hooks e) iteration item of
           Inl err \<Rightarrow> (items, Some err)
         | Inr blessed \<Rightarrow> afterLoop e iteration results (drop 1 prepared) (items @ [blessed]))"

definition dispatchPreparedTools ::
    "Engine \<Rightarrow> int \<Rightarrow> ToolCall list \<Rightarrow> Mode \<Rightarrow> ToolResult list \<times> loopError option" where
  "dispatchPreparedTools e iteration prepared mode =
     (let (results, batchErr) = e_ExecuteBatch e iteration prepared mode
      in case afterLoop e iteration results prepared [] of
           (items, Some err) \<Rightarrow> (items, Some (ExternalError err))
         | (items, None) \<Rightarrow> (items, map_option ExternalError batchErr))"

fun appendToolResults ::
    "LoopInput \<Rightarrow> int \<Rightarrow> Message list \<Rightarrow> ToolResult list \<Rightarrow> Message list \<times> loopError option" where
  "appendToolResults input iteration current [] = (current, None)"
| "appendToolResults input iteration current (result # results) =
     (let next0 = current @ [NewToolResult result]
      in case in_Sink input of
           None \<Rightarrow> appendToolResults input iteration next0 results
         | Some emit \<Rightarrow>
             (case emit iteration result of
                Some err \<Rightarrow> (next0, Some (ExternalError err))
              | None \<Rightarrow> appendToolResults input iteration next0 results))"

text \<open>
  \<^verbatim>\<open>stepDecisionOverride\<close>: the steps with the decision it writes, the output, whether to stop, and the
  error.
\<close>

definition stepDecisionOverride ::
    "LoopInput \<Rightarrow> int \<Rightarrow> Message list \<Rightarrow> Usage \<Rightarrow> Step list \<Rightarrow> string \<Rightarrow> int \<Rightarrow> int
       \<Rightarrow> Step list \<times> LoopOutput \<times> bool \<times> loopError option" where
  "stepDecisionOverride input iteration current usage steps thinking iterations toolCallsUsed =
     (case in_StepDecider input of
        None \<Rightarrow> (steps, zeroOutput, False, None)
      | Some decide \<Rightarrow>
          (case decide iteration steps of
             Inl decideErr \<Rightarrow>
               (steps, loopErrorOutput current usage steps iterations toolCallsUsed, True,
                Some (StepAborted (Some decideErr)))
           | Inr StepDecisionFinish \<Rightarrow>
               let finished = setLast (\<lambda>step. step\<lparr>s_Decision := StepDecisionFinish\<rparr>) steps
               in (finished,
                   zeroOutput\<lparr>lo_Messages := current, lo_Usage := usage,
                     lo_StopReason := StopReasonComplete, lo_Iterations := iterations,
                     lo_Thinking := thinking, lo_Steps := finished, lo_ToolCallsUsed := toolCallsUsed\<rparr>,
                   True, None)
           | Inr StepDecisionFail \<Rightarrow>
               let failed = setLast (\<lambda>step. step\<lparr>s_Decision := StepDecisionFail\<rparr>) steps
               in (failed, loopErrorOutput current usage failed iterations toolCallsUsed, True,
                   Some (StepAborted None))
           | Inr _ \<Rightarrow> (steps, zeroOutput, False, None)))"

text \<open>The results of \<^verbatim>\<open>finalizeToolStep\<close>: steps, output, stop, error.\<close>

definition finalizeToolStep ::
    "Engine \<Rightarrow> LoopInput \<Rightarrow> Message list \<Rightarrow> Usage \<Rightarrow> Step list \<Rightarrow> Message \<Rightarrow> ToolResult list \<Rightarrow> bool \<Rightarrow> int
       \<Rightarrow> int \<Rightarrow> Step list \<times> LoopOutput \<times> bool \<times> loopError option" where
  "finalizeToolStep e input current totalUsage steps0 assistant results isTerminal iteration toolCallsUsed =
     (let steps = setLast (\<lambda>step. step\<lparr>s_ToolCalls := toolCallTraces (m_ToolCalls assistant) results,
            s_BudgetUsed := budgetUsed totalUsage toolCallsUsed,
            s_Decision := (if isTerminal then StepDecisionFinish else StepDecisionContinue)\<rparr>) steps0;
          (decided, policyOut, stop, policyErr) =
            (if isTerminal then (steps, zeroOutput, True, None)
             else stepDecisionOverride input iteration current totalUsage steps (m_Thinking assistant)
                    (iteration + 1) toolCallsUsed);
          finalSteps = (if policyErr \<noteq> None
                        then setLast (\<lambda>step. step\<lparr>s_Decision := StepDecisionFail\<rparr>) decided
                        else decided);
          observeErr = observeFinalizedStep input iteration finalSteps;
          boundaryErr = (if observeErr = None
                         then observeBoundary e input iteration current totalUsage finalSteps
                                toolCallsUsed ContinuationToolsComplete
                         else None)
      in case errorsJoin [policyErr, observeErr, boundaryErr] of
           Some combined \<Rightarrow>
             (finalSteps, loopErrorOutput current totalUsage finalSteps (iteration + 1) toolCallsUsed,
              True, Some combined)
         | None \<Rightarrow>
             if isTerminal then
               (finalSteps,
                zeroOutput\<lparr>lo_Messages := current, lo_Usage := totalUsage,
                  lo_StopReason := StopReasonComplete, lo_Iterations := iteration + 1,
                  lo_Thinking := m_Thinking assistant, lo_Steps := finalSteps,
                  lo_ToolCallsUsed := toolCallsUsed\<rparr>, True, None)
             else if stop then (finalSteps, policyOut, True, None)
             else (finalSteps, zeroOutput, False, None))"

text \<open>\<open>assistantCalls\<close> writes the operation ID of every slot, counting from \<open>slot\<close>.\<close>

fun assistantCalls :: "int \<Rightarrow> nat \<Rightarrow> ToolCall list \<Rightarrow> ToolCall list" where
  "assistantCalls operationTurn slot [] = []"
| "assistantCalls operationTurn slot (call # calls) =
     call\<lparr>tc_OperationID := toolOperationID operationTurn (int slot)\<rparr>
       # assistantCalls operationTurn (Suc slot) calls"

text \<open>
  \<^verbatim>\<open>runToolStep\<close>: the state its pointer arguments leave, the output, whether the loop stops, and the
  error.
\<close>

definition runToolStep ::
    "Engine \<Rightarrow> loopState \<Rightarrow> Message \<Rightarrow> ModelCall \<Rightarrow> int \<Rightarrow> int
       \<Rightarrow> loopState \<times> LoopOutput \<times> bool \<times> loopError option" where
  "runToolStep e st0 assistant0 modelCall iteration operationTurn =
     (let input = st_input st0; usage = st_usage st0; used = st_toolCallsUsed st0;
          assistant = assistant0\<lparr>m_ToolCalls := assistantCalls operationTurn 0 (m_ToolCalls assistant0)\<rparr>;
          batch = int (length (m_ToolCalls assistant));
          st = st0\<lparr>st_current := st_current st0 @ [assistant],
                 st_steps := st_steps st0 @ [newStep iteration modelCall StepDecisionContinue usage used]\<rparr>;
          stopped = (\<lambda>s err. (s, loopErrorOutput (st_current s) (st_usage s) (st_steps s) (iteration + 1)
                                   (st_toolCallsUsed s), True, Some err));
          aborted = (\<lambda>dimension.
            let failedSteps = setLast (\<lambda>step. step\<lparr>s_Decision := StepDecisionFail\<rparr>) (st_steps st);
                s = st\<lparr>st_steps := failedSteps\<rparr>
            in case observeFinalizedStep input iteration failedSteps of
                 Some observeErr \<Rightarrow> stopped s observeErr
               | None \<Rightarrow>
                   let (out, err) = budgetAbort (st_current s) usage failedSteps (iteration + 1) used dimension
                   in (s, out, True, err))
      in case observeBoundary e input iteration (st_current st) usage (st_steps st) used
                ContinuationModelComplete of
           Some boundaryErr \<Rightarrow> stopped st boundaryErr
         | None \<Rightarrow>
             (case e_CtxErr e iteration 1 of
                Some ctxErr \<Rightarrow> stopped st (ExternalError ctxErr)
              | None \<Rightarrow>
                  if in_MaxTokens input > 0 \<and> mc_TotalTokens modelCall = 0 then aborted ''max tokens''
                  else
                    let dimension = preDispatchBudgetBlock input usage used (int (length (st_steps st))) batch
                    in if dimension \<noteq> [] then aborted dimension
                       else case prepareToolCalls e iteration (m_ToolCalls assistant) of
                         Inl prepErr \<Rightarrow> stopped st prepErr
                       | Inr (prepared, isTerminal) \<Rightarrow>
                           let charged = used + batch;
                               (results, dispatchErr) =
                                 dispatchPreparedTools e iteration prepared (in_ToolMode input);
                               total0 = UsageAdd usage (e_ChildUsage e iteration);
                               steps1 = setLast (\<lambda>step. step\<lparr>s_BudgetUsed := budgetUsed total0 charged\<rparr>)
                                          (st_steps st);
                               (messages, appendErr) =
                                 appendToolResults input iteration (st_current st) results;
                               s = st\<lparr>st_current := messages, st_usage := total0, st_steps := steps1,
                                     st_toolCallsUsed := charged\<rparr>
                           in (case errorsJoin [dispatchErr, appendErr] of
                                 Some executionErr \<Rightarrow> stopped s executionErr
                               | None \<Rightarrow>
                                   let (nextSteps, out, stop, err) =
                                         finalizeToolStep e input messages total0 steps1 assistant results
                                           isTerminal iteration charged
                                   in (s\<lparr>st_steps := nextSteps\<rparr>, out, stop, err))))"

section \<open>The loop\<close>

text \<open>
  \<^verbatim>\<open>runTurn\<close>: assistant message, usage, stop reason, identity, whether the stream was opened, error.
\<close>

definition runTurn ::
    "Engine \<Rightarrow> int \<Rightarrow> Message list \<Rightarrow> LoopInput
       \<Rightarrow> Message \<times> Usage \<times> StopReason \<times> StreamIdentity \<times> bool \<times> loopError option" where
  "runTurn e iteration current input =
     (let unopened = (\<lambda>err. (zeroMessage, zeroUsage, StopReasonError, \<lparr>si_Provider = [], si_Model = []\<rparr>,
                             False, Some (ExternalError err)))
      in case TransformContext (e_Hooks e) iteration current of
           Inl err \<Rightarrow> unopened err
         | Inr transformed \<Rightarrow>
             (case e_OpenStream e iteration (''turn:'' @ showInt (in_OperationTurn input) @ '':model'')
                     transformed of
                Inl err \<Rightarrow> unopened err
              | Inr (polls, identity) \<Rightarrow>
                  (case collect (e_jsonValid e) (e_errorText e) polls of
                     (assistant, usage, stop, collectErr) \<Rightarrow>
                       (assistant, usage, stop, identity, True, collectErr))))"

definition turnFailureStep ::
    "int \<Rightarrow> StreamIdentity \<Rightarrow> Usage \<Rightarrow> StopReason \<Rightarrow> StepDecision \<Rightarrow> Usage \<Rightarrow> int \<Rightarrow> Step" where
  "turnFailureStep iteration identity usage stopReason decision totalUsage toolCallsUsed =
     newStep iteration (newModelCall identity usage stopReason) decision totalUsage toolCallsUsed"

definition handleTurnFailure ::
    "loopState \<Rightarrow> int \<Rightarrow> Message \<Rightarrow> Usage \<Rightarrow> StopReason \<Rightarrow> StreamIdentity \<Rightarrow> bool \<Rightarrow> loopError
       \<Rightarrow> LoopOutput \<times> loopError option" where
  "handleTurnFailure st iteration assistant usage stopReason identity opened turnErr =
     (let (current, totalUsage, turnsRun0) =
            recordIncompleteTurn (st_current st) assistant (st_usage st) usage iteration (st_turnsRun st);
          steps = (if opened
                   then st_steps st @ [turnFailureStep iteration identity usage stopReason StepDecisionFail
                                         totalUsage (st_toolCallsUsed st)]
                   else st_steps st);
          turnsRun = (if opened then max turnsRun0 (iteration + 1) else turnsRun0);
          err = (if opened
                 then (case observeFinalizedStep (st_input st) iteration steps of
                         Some observeErr \<Rightarrow> JoinedErrors [turnErr, observeErr]
                       | None \<Rightarrow> turnErr)
                 else turnErr)
      in (loopErrorOutput current totalUsage steps turnsRun (st_toolCallsUsed st), Some err))"

text \<open>
  \<^verbatim>\<open>loopTurnPreamble\<close> and the preparation of the first turn: the history of the turn, or the output
  the loop returns.
\<close>

definition loopTurnPreamble ::
    "loopState \<Rightarrow> int \<Rightarrow> (LoopOutput \<times> loopError option) + Message list" where
  "loopTurnPreamble st iteration =
     (let input = st_input st; current = st_current st; usage = st_usage st; steps = st_steps st;
          dimension = snd (budgetRemaining input usage (st_toolCallsUsed st) (int (length steps)))
      in if dimension \<noteq> []
         then Inl (budgetAbort current usage steps iteration (st_toolCallsUsed st) dimension)
         else case maybeCompactHistory input iteration current usage of
           Inl compactErr \<Rightarrow>
             Inl (loopErrorOutput current usage steps iteration (st_toolCallsUsed st), Some compactErr)
         | Inr compacted \<Rightarrow> Inr compacted)"

definition prepareTurn :: "loopState \<Rightarrow> int \<Rightarrow> (LoopOutput \<times> loopError option) + Message list" where
  "prepareTurn st iteration =
     (if iteration > 0 then loopTurnPreamble st iteration
      else if in_ContextTokenTarget (st_input st) > 0 then
        (case maybeCompactHistory (st_input st) iteration (st_current st) (st_usage st) of
           Inl prepareErr \<Rightarrow>
             Inl (loopErrorOutput (st_current st) (st_usage st) (st_steps st) iteration
                    (st_toolCallsUsed st), Some prepareErr)
         | Inr prepared \<Rightarrow> Inr prepared)
      else Inr (st_current st))"

text \<open>
  One pass of the loop: \<open>Inl\<close> what \<^verbatim>\<open>RunMessages\<close> returns, with the operation turn reached, or \<open>Inr\<close>
  the state of the next pass.
\<close>

type_synonym loopReturn = "LoopOutput \<times> loopError option \<times> int"

definition loopBody :: "Engine \<Rightarrow> int \<Rightarrow> loopState \<Rightarrow> loopReturn + loopState" where
  "loopBody e iteration st0 =
     (let turn0 = in_OperationTurn (st_input st0);
          failedHere = (\<lambda>s err. Inl (loopErrorOutput (st_current s) (st_usage s) (st_steps s) iteration
                                       (st_toolCallsUsed s), Some err, turn0))
      in case e_CtxErr e iteration 0 of
           Some ctxErr \<Rightarrow> failedHere st0 (ExternalError ctxErr)
         | None \<Rightarrow>
             (case prepareTurn st0 iteration of
                Inl (out, err) \<Rightarrow> Inl (out, err, turn0)
              | Inr prepared \<Rightarrow>
                  let st = st0\<lparr>st_current := prepared\<rparr>
                  in case observeBoundary e (st_input st) iteration (st_current st) (st_usage st) (st_steps st)
                            (st_toolCallsUsed st) ContinuationReady of
                       Some boundaryErr \<Rightarrow> failedHere st boundaryErr
                     | None \<Rightarrow>
                         (case runTurn e iteration (st_current st) (st_input st) of
                            (assistant, usage, stopReason, identity, opened, Some turnErr) \<Rightarrow>
                              let (out, err) = handleTurnFailure st iteration assistant usage stopReason
                                                 identity opened turnErr
                              in Inl (out, err, turn0)
                          | (assistant, usage, stopReason, identity, opened, None) \<Rightarrow>
                              let input = (st_input st)\<lparr>in_OperationTurn := turn0 + 1\<rparr>;
                                  total0 = UsageAdd (st_usage st) usage;
                                  modelCall = newModelCall identity usage stopReason;
                                  s = st\<lparr>st_input := input, st_usage := total0,
                                         st_turnsRun := iteration + 1\<rparr>
                              in if m_ToolCalls assistant = [] then
                                   (case finalizeNoToolStep e input (st_current s) assistant modelCall total0
                                           (st_steps s) stopReason iteration (st_toolCallsUsed s) of
                                      (current, steps, out, retry, err) \<Rightarrow>
                                        if retry then Inr (s\<lparr>st_current := current, st_steps := steps\<rparr>)
                                        else Inl (out, err, turn0 + 1))
                                 else
                                   (case runToolStep e s assistant modelCall iteration turn0 of
                                      (s1, out, stop, err) \<Rightarrow>
                                        if stop then Inl (out, err, turn0 + 1) else Inr s1))))"

fun runLoop :: "nat \<Rightarrow> Engine \<Rightarrow> int \<Rightarrow> loopState \<Rightarrow> loopReturn option" where
  "runLoop fuel e iteration st =
     (if \<not> iterationAllowed (st_input st) iteration then
        Some (zeroOutput\<lparr>lo_Messages := st_current st, lo_Usage := st_usage st,
                lo_StopReason := StopReasonMaxTurns, lo_Iterations := in_MaxIterations (st_input st),
                lo_Steps := st_steps st, lo_ToolCallsUsed := st_toolCallsUsed st\<rparr>,
              None, in_OperationTurn (st_input st))
      else case fuel of
        0 \<Rightarrow> None
      | Suc fuel1 \<Rightarrow>
          (case loopBody e iteration st of
             Inl returned \<Rightarrow> Some returned
           | Inr next0 \<Rightarrow> runLoop fuel1 e (iteration + 1) next0))"

declare runLoop.simps [simp del]

definition initialState :: "LoopInput \<Rightarrow> loopState" where
  "initialState input0 =
     (let input1 = normalizeIterationPolicy input0;
          input2 = (if in_ToolMode input1 = ModeOther [] then input1\<lparr>in_ToolMode := ModeSequential\<rparr>
                    else input1);
          input = input2\<lparr>in_OperationTurn :=
                    max (in_OperationTurn input2) (nextToolOperationTurn (in_Messages input2))\<rparr>
      in \<lparr>st_input = input, st_current = in_Messages input, st_usage = in_initialUsage input,
          st_steps = in_initialSteps input, st_toolCallsUsed = in_initialToolCallsUsed input,
          st_turnsRun = int (length (in_initialSteps input))\<rparr>)"

text \<open>\<open>elapsed\<close> is the value \<^verbatim>\<open>time.Since\<close> has when the deferred function runs.\<close>

definition RunMessages ::
    "nat \<Rightarrow> Engine \<Rightarrow> duration \<Rightarrow> LoopInput \<Rightarrow> (LoopOutput \<times> loopError option) option" where
  "RunMessages fuel e elapsed input =
     map_option (\<lambda>(out, err, turn).
         (out\<lparr>lo_NextOperationTurn := turn, lo_ActiveElapsed := in_activeElapsed input + elapsed,
            lo_RepairCount := in_repairCount input\<rparr>, err))
       (runLoop fuel e (int (length (in_initialSteps input))) (initialState input))"

end
