(* ===== verification/Output_Policy.thy ===== *)
theory Output_Policy
  imports Json Agent_Types
begin

text \<open>
  Structured output (\<^verbatim>\<open>src/agent/output_policy.go\<close>): the supported subset of JSON Schema, the checks
  of a schema, the validation of a value and the comparison of JSON values.

  \<^verbatim>\<open>encoding/json\<close> is an argument: \<open>decodeAny\<close> is \<^verbatim>\<open>decodeJSONUseNumber\<close> into an \<^verbatim>\<open>any\<close> and
  \<open>decodeSchema\<close> the same into a \<^verbatim>\<open>*outputPolicySchema\<close> (\<open>None\<close> for the literal \<^verbatim>\<open>null\<close>). The
  members of a decoded object are an association list in the order in which the map is iterated.
\<close>

section \<open>Schemas\<close>

datatype outputPolicySchema = Schema
  (os_Type: string)
  (os_Properties: "(string \<times> outputPolicySchema) list")
  (os_Required: "string list")
  (os_Items: "outputPolicySchema option")
  (os_Enum: "bytes list")
  (os_AdditionalProperties: "bool option")

datatype schemaError =
    SchemaFailure string string "fmtArg list"
  | SchemaDecodeFailure string goError

definition propertyPath :: "string \<Rightarrow> string \<Rightarrow> string" where
  "propertyPath path property = (if path = ''$'' then ''$.'' @ property else path @ ''.'' @ property)"

definition supportedOutputPolicySchemaKeyword :: "string \<Rightarrow> bool" where
  "supportedOutputPolicySchemaKeyword keyword \<longleftrightarrow>
     keyword \<in> set [''type'', ''properties'', ''required'', ''items'', ''enum'', ''additionalProperties'',
       ''description'']"

definition supportedJSONSchemaType :: "string \<Rightarrow> bool" where
  "supportedJSONSchemaType schemaType \<longleftrightarrow>
     schemaType \<in> set [''object'', ''array'', ''string'', ''number'', ''integer'', ''boolean'']"

fun firstSome :: "('a \<Rightarrow> 'e option) \<Rightarrow> 'a list \<Rightarrow> 'e option" where
  "firstSome f [] = None"
| "firstSome f (x # xs) = (case f x of Some err \<Rightarrow> Some err | None \<Rightarrow> firstSome f xs)"

text \<open>Two checks in sequence.\<close>

definition orElse :: "'e option \<Rightarrow> 'e option \<Rightarrow> 'e option" where
  "orElse first second = (case first of Some err \<Rightarrow> Some err | None \<Rightarrow> second)"

lemma orElse_None [simp]: "orElse a b = None \<longleftrightarrow> a = None \<and> b = None"
  by (auto simp: orElse_def split: option.splits)

lemma map_of_size: "map_of members key = Some val \<Longrightarrow> size val < size (JObject members)"
  by (induction members) (auto split: if_splits)

text \<open>
  \<^verbatim>\<open>rejectUnsupportedOutputPolicySchemaKeywords\<close> on the document a raw message holds. A \<^verbatim>\<open>null\<close> under
  \<^verbatim>\<open>properties\<close> is the nil map.
\<close>

function (sequential) rejectUnsupportedKeywords :: "json \<Rightarrow> string \<Rightarrow> schemaError option"
and rejectUnsupportedProperties :: "(string \<times> json) list \<Rightarrow> string \<Rightarrow> schemaError option" where
  "rejectUnsupportedKeywords (JObject members) path =
     orElse (firstSome (\<lambda>(keyword, _). if supportedOutputPolicySchemaKeyword keyword then None
               else Some (SchemaFailure path ''unsupported schema keyword %q'' [ArgString keyword])) members)
      (orElse
        (case map_of members ''properties'' of
           Some (JObject properties) \<Rightarrow> rejectUnsupportedProperties properties path
         | Some JNull \<Rightarrow> None
         | None \<Rightarrow> None
         | Some _ \<Rightarrow> Some (SchemaFailure (path @ ''.properties'') ''invalid properties'' []))
        (case map_of members ''items'' of
           Some items \<Rightarrow> rejectUnsupportedKeywords items (path @ ''.items'')
         | None \<Rightarrow> None))"
| "rejectUnsupportedKeywords _ path = Some (SchemaFailure path ''schema must be a JSON object'' [])"
| "rejectUnsupportedProperties [] path = None"
| "rejectUnsupportedProperties ((name, property) # properties) path =
     orElse (rejectUnsupportedKeywords property (propertyPath path name))
       (rejectUnsupportedProperties properties path)"
  by pat_completeness auto
termination
  by (relation "measure (\<lambda>x. case x of Inl (val, _) \<Rightarrow> size val | Inr (members, _) \<Rightarrow> size (JObject members))")
    (auto dest: map_of_size)

fun validateOutputPolicySchema :: "outputPolicySchema \<Rightarrow> string \<Rightarrow> schemaError option"
and validateSchemaProperties :: "(string \<times> outputPolicySchema) list \<Rightarrow> string \<Rightarrow> schemaError option" where
  "validateOutputPolicySchema (Schema typ properties required items enum additional) path =
     (if typ \<noteq> [] \<and> \<not> supportedJSONSchemaType typ
      then Some (SchemaFailure path ''unsupported schema type %q'' [ArgString typ])
      else orElse (validateSchemaProperties properties path)
        (case items of Some item \<Rightarrow> validateOutputPolicySchema item (path @ ''.items'') | None \<Rightarrow> None))"
| "validateSchemaProperties [] path = None"
| "validateSchemaProperties ((name, property) # properties) path =
     orElse (validateOutputPolicySchema property (propertyPath path name))
       (validateSchemaProperties properties path)"

definition parseOutputPolicySchema ::
    "(bytes \<Rightarrow> goError + json) \<Rightarrow> (bytes \<Rightarrow> goError + outputPolicySchema option) \<Rightarrow> bytes
       \<Rightarrow> schemaError + outputPolicySchema" where
  "parseOutputPolicySchema decodeAny decodeSchema schemaRaw =
     (case decodeSchema schemaRaw of
        Inl err \<Rightarrow> Inl (SchemaDecodeFailure ''output schema is invalid JSON'' err)
      | Inr None \<Rightarrow> Inl (SchemaFailure [] ''output schema must be a JSON object'' [])
      | Inr (Some schema) \<Rightarrow>
          (case decodeAny schemaRaw of
             Inl err \<Rightarrow> Inl (SchemaDecodeFailure ''$: schema must be a JSON object'' err)
           | Inr document \<Rightarrow>
               (case rejectUnsupportedKeywords document ''$'' of
                  Some err \<Rightarrow> Inl err
                | None \<Rightarrow>
                    (case validateOutputPolicySchema schema ''$'' of
                       Some err \<Rightarrow> Inl err
                     | None \<Rightarrow> Inr schema))))"

section \<open>Numbers\<close>

text \<open>
  \<^verbatim>\<open>big.Rat.SetString\<close> on a JSON number: the mantissa and the power of ten, \<open>None\<close> when the exponent
  does not fit an \<^verbatim>\<open>int64\<close> or its absolute value, after the fraction is accounted for, exceeds a
  million. Zero is accepted with any exponent that fits.
\<close>

definition splitNumber :: "string \<Rightarrow> bool \<times> string \<times> string \<times> bool \<times> string" where
  "splitNumber s =
     (let negative = (s \<noteq> [] \<and> hd s = CHR ''-'');
          unsigned = (if negative then tl s else s);
          whole = takeWhile isDigit unsigned;
          rest = drop (length whole) unsigned;
          fraction = (if rest \<noteq> [] \<and> hd rest = CHR ''.'' then takeWhile isDigit (tl rest) else []);
          expPart = (if rest \<noteq> [] \<and> hd rest = CHR ''.'' then drop (Suc (length fraction)) rest else rest);
          expText = tl expPart;
          expNegative = (expText \<noteq> [] \<and> hd expText = CHR ''-'');
          expDigits = filter isDigit expText
      in (negative, whole, fraction, expNegative, expDigits))"

definition setString :: "string \<Rightarrow> (int \<times> int) option" where
  "setString s =
     (case splitNumber s of (negative, whole, fraction, expNegative, expDigits) \<Rightarrow>
        let magnitude = int (readNat (whole @ fraction));
            expo = (if expNegative then - int (readNat expDigits) else int (readNat expDigits));
            scale = expo - int (length fraction)
        in if \<not> int64 expo then None
           else if magnitude = 0 then Some (0, 0)
           else if \<bar>scale\<bar> > 1000000 then None
           else Some (if negative then - magnitude else magnitude, scale))"

definition validJSONNumber :: "string \<Rightarrow> bool" where
  "validJSONNumber number \<longleftrightarrow> setString number \<noteq> None"

definition integerJSONNumber :: "string \<Rightarrow> bool" where
  "integerJSONNumber number \<longleftrightarrow>
     (case setString number of None \<Rightarrow> False
      | Some (m, scale) \<Rightarrow> scale \<ge> 0 \<or> 10 ^ nat (- scale) dvd m)"

text \<open>\<open>m * 10 ^ s = n * 10 ^ t\<close>, compared after scaling to the smaller exponent.\<close>

definition equalJSONNumber :: "string \<Rightarrow> string \<Rightarrow> bool" where
  "equalJSONNumber left right \<longleftrightarrow>
     (case (setString left, setString right) of
        (Some (m, s), Some (n, t)) \<Rightarrow> m * 10 ^ nat (s - min s t) = n * 10 ^ nat (t - min s t)
      | _ \<Rightarrow> False)"

section \<open>Values\<close>

fun equalJSONValue :: "json \<Rightarrow> json \<Rightarrow> bool"
and equalJSONItems :: "json list \<Rightarrow> json list \<Rightarrow> bool"
and equalJSONMembers :: "(string \<times> json) list \<Rightarrow> (string \<times> json) list \<Rightarrow> bool" where
  "equalJSONValue JNull right \<longleftrightarrow> right = JNull"
| "equalJSONValue (JString left) right \<longleftrightarrow> (case right of JString r \<Rightarrow> left = r | _ \<Rightarrow> False)"
| "equalJSONValue (JBool left) right \<longleftrightarrow> (case right of JBool r \<Rightarrow> left = r | _ \<Rightarrow> False)"
| "equalJSONValue (JNumber left) right \<longleftrightarrow> (case right of JNumber r \<Rightarrow> equalJSONNumber left r | _ \<Rightarrow> False)"
| "equalJSONValue (JArray left) right \<longleftrightarrow>
     (case right of JArray r \<Rightarrow> length left = length r \<and> equalJSONItems left r | _ \<Rightarrow> False)"
| "equalJSONValue (JObject left) right \<longleftrightarrow>
     (case right of JObject r \<Rightarrow> length left = length r \<and> equalJSONMembers left r | _ \<Rightarrow> False)"
| "equalJSONItems [] rights \<longleftrightarrow> True"
| "equalJSONItems (left # lefts) rights \<longleftrightarrow>
     (case rights of [] \<Rightarrow> False | right # rest \<Rightarrow> equalJSONValue left right \<and> equalJSONItems lefts rest)"
| "equalJSONMembers [] rights \<longleftrightarrow> True"
| "equalJSONMembers ((key, left) # lefts) rights \<longleftrightarrow>
     (case map_of rights key of None \<Rightarrow> False
      | Some right \<Rightarrow> equalJSONValue left right \<and> equalJSONMembers lefts rights)"

fun valueMatchesEnum :: "(bytes \<Rightarrow> goError + json) \<Rightarrow> json \<Rightarrow> bytes list \<Rightarrow> goError + bool" where
  "valueMatchesEnum decodeAny val [] = Inr False"
| "valueMatchesEnum decodeAny val (raw # enum) =
     (case decodeAny raw of
        Inl err \<Rightarrow> Inl err
      | Inr expected \<Rightarrow> if equalJSONValue val expected then Inr True else valueMatchesEnum decodeAny val enum)"

section \<open>Validation\<close>

definition validateJSONType :: "json \<Rightarrow> string \<Rightarrow> string \<Rightarrow> schemaError option" where
  "validateJSONType val schemaType path =
     (if \<not> supportedJSONSchemaType schemaType
      then Some (SchemaFailure path ''unsupported schema type %q'' [ArgString schemaType])
      else if (case val of
                 JObject _ \<Rightarrow> schemaType = ''object''
               | JArray _ \<Rightarrow> schemaType = ''array''
               | JString _ \<Rightarrow> schemaType = ''string''
               | JNumber number \<Rightarrow> schemaType = ''number'' \<and> validJSONNumber number
                                  \<or> schemaType = ''integer'' \<and> integerJSONNumber number
               | JBool _ \<Rightarrow> schemaType = ''boolean''
               | JNull \<Rightarrow> False)
      then None
      else Some (SchemaFailure path ''expected %s'' [ArgString schemaType]))"

definition validateJSONEnum ::
    "(bytes \<Rightarrow> goError + json) \<Rightarrow> json \<Rightarrow> bytes list \<Rightarrow> string \<Rightarrow> schemaError option" where
  "validateJSONEnum decodeAny val enum path =
     (if enum = [] then None
      else case valueMatchesEnum decodeAny val enum of
        Inl err \<Rightarrow> Some (SchemaDecodeFailure (path @ '': invalid enum value'') err)
      | Inr True \<Rightarrow> None
      | Inr False \<Rightarrow> Some (SchemaFailure path ''value is not in enum'' []))"

definition validateRequiredProperties ::
    "(string \<times> json) list \<Rightarrow> string list \<Rightarrow> string \<Rightarrow> schemaError option" where
  "validateRequiredProperties object required path =
     firstSome (\<lambda>name. if map_of object name = None
        then Some (SchemaFailure path ''missing required property %q'' [ArgString name]) else None) required"

definition validateAdditionalProperties ::
    "(string \<times> json) list \<Rightarrow> (string \<times> outputPolicySchema) list \<Rightarrow> bool option \<Rightarrow> string \<Rightarrow> schemaError option" where
  "validateAdditionalProperties object properties additional path =
     (if additional \<noteq> Some False then None
      else firstSome (\<lambda>(name, _). if map_of properties name = None
             then Some (SchemaFailure path ''additional property %q is not allowed'' [ArgString name])
             else None) object)"

definition schemaRequiresObject :: "outputPolicySchema \<Rightarrow> bool" where
  "schemaRequiresObject schema \<longleftrightarrow> os_Type schema = ''object'' \<or> os_Properties schema \<noteq> []
     \<or> os_Required schema \<noteq> [] \<or> os_AdditionalProperties schema \<noteq> None"

function (sequential) validateJSONValue ::
    "(bytes \<Rightarrow> goError + json) \<Rightarrow> json \<Rightarrow> outputPolicySchema \<Rightarrow> string \<Rightarrow> schemaError option"
and validateDefinedProperties ::
    "(bytes \<Rightarrow> goError + json) \<Rightarrow> (string \<times> json) list \<Rightarrow> (string \<times> outputPolicySchema) list \<Rightarrow> string
       \<Rightarrow> schemaError option"
and validateArrayItems ::
    "(bytes \<Rightarrow> goError + json) \<Rightarrow> json list \<Rightarrow> nat \<Rightarrow> outputPolicySchema \<Rightarrow> string \<Rightarrow> schemaError option" where
  "validateJSONValue decodeAny val (Schema typ properties required items enum additional) path =
     orElse (if typ \<noteq> [] then validateJSONType val typ path else None)
      (orElse (validateJSONEnum decodeAny val enum path)
        (orElse
          (if \<not> schemaRequiresObject (Schema typ properties required items enum additional) then None
           else case val of
             JObject object \<Rightarrow>
               orElse (validateRequiredProperties object required path)
                 (orElse (validateDefinedProperties decodeAny object properties path)
                   (validateAdditionalProperties object properties additional path))
           | _ \<Rightarrow> Some (SchemaFailure path ''expected object'' []))
          (if typ \<noteq> ''array'' \<and> items = None then None
           else case val of
             JArray array0 \<Rightarrow>
               (case items of None \<Rightarrow> None
                | Some item \<Rightarrow> validateArrayItems decodeAny array0 0 item path)
           | _ \<Rightarrow> Some (SchemaFailure path ''expected array'' []))))"
| "validateDefinedProperties decodeAny object [] path = None"
| "validateDefinedProperties decodeAny object ((name, property) # properties) path =
     orElse (case map_of object name of
               None \<Rightarrow> None
             | Some val \<Rightarrow> validateJSONValue decodeAny val property (propertyPath path name))
       (validateDefinedProperties decodeAny object properties path)"
| "validateArrayItems decodeAny [] index item path = None"
| "validateArrayItems decodeAny (val # vals) index item path =
     orElse (validateJSONValue decodeAny val item (path @ ''['' @ showNat index @ '']''))
       (validateArrayItems decodeAny vals (Suc index) item path)"
  by pat_completeness auto
termination
  by (relation "measures [\<lambda>x. case x of Inl (_, _, schema, _) \<Rightarrow> size schema
        | Inr (Inl (_, _, properties, _)) \<Rightarrow> size_list (size_prod (\<lambda>x. 0) size) properties
        | Inr (Inr (_, _, _, item, _)) \<Rightarrow> size item,
      \<lambda>x. case x of Inl _ \<Rightarrow> 0 | Inr (Inl (_, _, properties, _)) \<Rightarrow> 1 + length properties
        | Inr (Inr (_, vals, _, _, _)) \<Rightarrow> 1 + length vals]") auto

definition validateStructuredOutputAgainstSchema ::
    "(bytes \<Rightarrow> goError + json) \<Rightarrow> outputPolicySchema \<Rightarrow> string \<Rightarrow> schemaError + bytes" where
  "validateStructuredOutputAgainstSchema decodeAny schema text =
     (case decodeAny text of
        Inl err \<Rightarrow> Inl (SchemaDecodeFailure ''agent terminal output is not valid JSON'' err)
      | Inr val \<Rightarrow>
          (case validateJSONValue decodeAny val schema ''$'' of Some err \<Rightarrow> Inl err | None \<Rightarrow> Inr text))"

definition ValidateJSON ::
    "(bytes \<Rightarrow> goError + json) \<Rightarrow> (bytes \<Rightarrow> goError + outputPolicySchema option) \<Rightarrow> bytes \<Rightarrow> bytes
       \<Rightarrow> schemaError option" where
  "ValidateJSON decodeAny decodeSchema schemaRaw payload =
     (if schemaRaw = [] then None
      else case parseOutputPolicySchema decodeAny decodeSchema schemaRaw of
        Inl err \<Rightarrow> Some err
      | Inr schema \<Rightarrow>
          (case validateStructuredOutputAgainstSchema decodeAny schema payload of
             Inl err \<Rightarrow> Some err | Inr _ \<Rightarrow> None))"

end
