(* ===== verification/Agent_Engine.thy ===== *)
theory Agent_Engine
  imports Agent_Run Output_Policy
begin

text \<open>
  The execution-level wrapper of the loop: results, failure classification, structured-output repair
  (\<^verbatim>\<open>src/agent/engine.go\<close>) and the resumption of a persisted continuation (\<^verbatim>\<open>src/agent/resume.go\<close>).

  The skill runtime, the context builder and the deadline of the run context are not modelled: the
  loop input is taken as \<^verbatim>\<open>run\<close> and \<^verbatim>\<open>resume\<close> build it from the engine's defaults, and the state of the
  run context is passed where the code asks for it. \<open>Services\<close> holds the JSON decoders and the
  renderings of errors, the error of the run context before a resumed loop starts and when a failure is
  classified, and the time the clock shows after each call of \<^verbatim>\<open>RunMessages\<close>.
\<close>

section \<open>Budgets and failures\<close>

record LoopPolicy =
  lp_MaxIterations :: int
  lp_UnlimitedIterations :: bool
  lp_Budget :: "Budget option"
  lp_ContextTokenTarget :: int

definition maxWallClock :: "LoopPolicy \<Rightarrow> AgentRequest \<Rightarrow> duration" where
  "maxWallClock policy request =
     (case rq_Budget request of
        Some budget \<Rightarrow> b_MaxWallClock budget
      | None \<Rightarrow> (case lp_Budget policy of Some budget \<Rightarrow> b_MaxWallClock budget | None \<Rightarrow> 0))"

definition budgetLimits :: "LoopPolicy \<Rightarrow> AgentRequest \<Rightarrow> int \<times> int \<times> int" where
  "budgetLimits policy request =
     (case rq_Budget request of
        Some budget \<Rightarrow> (b_MaxTokens budget, b_MaxToolCalls budget, b_MaxSteps budget)
      | None \<Rightarrow>
          (case lp_Budget policy of
             Some budget \<Rightarrow> (b_MaxTokens budget, b_MaxToolCalls budget, b_MaxSteps budget)
           | None \<Rightarrow> (0, 0, 0)))"

text \<open>
  The errors of a chain: \<open>leaves\<close> opens what \<^verbatim>\<open>errors.Join\<close> joined, \<open>wrapped\<close> is the foreign error a
  loop error wraps. \<open>isLoopSentinel\<close> is \<^verbatim>\<open>errors.Is\<close> against a sentinel of the Go code.
\<close>

fun leaves :: "loopError \<Rightarrow> loopError list" where
  "leaves (JoinedErrors errs) = concat (map leaves errs)"
| "leaves err = [err]"

fun wrapped :: "loopError \<Rightarrow> goError option" where
  "wrapped (ExternalError err) = Some err"
| "wrapped (NormalizeFailure (StreamEventError err)) = Some err"
| "wrapped (StepAborted cause) = cause"
| "wrapped (ObserveStepFailure _ err) = Some err"
| "wrapped (ObserveBoundaryFailure _ err) = Some err"
| "wrapped (CompactFailure (CompactHook err)) = Some err"
| "wrapped _ = None"

definition causedBy :: "(goError \<Rightarrow> bool) \<Rightarrow> loopError \<Rightarrow> bool" where
  "causedBy P err \<longleftrightarrow> list_ex (\<lambda>leaf. case wrapped leaf of Some cause \<Rightarrow> P cause | None \<Rightarrow> False) (leaves err)"

definition isLoopSentinel :: "string \<Rightarrow> (loopError \<Rightarrow> bool) \<Rightarrow> loopError \<Rightarrow> bool" where
  "isLoopSentinel name own err \<longleftrightarrow> list_ex own (leaves err) \<or> causedBy (isSentinel name) err"

fun ownBudget :: "loopError \<Rightarrow> bool" where
  "ownBudget (BudgetExhausted _) = True" | "ownBudget _ = False"

fun ownMissingTool :: "loopError \<Rightarrow> bool" where
  "ownMissingTool ToolBusMissing = True" | "ownMissingTool (ToolNotFound _) = True" | "ownMissingTool _ = False"

fun ownGuardrail :: "loopError \<Rightarrow> bool" where
  "ownGuardrail (GuardrailTripwire _ _ _) = True" | "ownGuardrail (GuardrailRetryLimit _ _) = True"
| "ownGuardrail _ = False"

fun ownAbort :: "loopError \<Rightarrow> bool" where
  "ownAbort (StepAborted _) = True" | "ownAbort _ = False"

definition loopErrorKind :: "goError option \<Rightarrow> loopError \<Rightarrow> bool \<Rightarrow> FailureKind" where
  "loopErrorKind ctxErr err budgetDriven =
     (if isLoopSentinel ''agent.ErrBudgetExhausted'' ownBudget err then FailureKindBudgetExhausted
      else if budgetDriven \<and> causedBy isDeadline err
              \<and> (case ctxErr of Some cause \<Rightarrow> isDeadline cause | None \<Rightarrow> False)
      then FailureKindBudgetExhausted
      else if isLoopSentinel ''agent.ErrToolBusMissing'' ownMissingTool err
              \<or> causedBy (isSentinel ''tool.ErrToolNotFound'') err
      then FailureKindToolUnavailable
      else if list_ex ownGuardrail (leaves err) then FailureKindOutputBlocked
      else if isLoopSentinel ''agent.ErrStepAborted'' ownAbort err then FailureKindStepAborted
      else FailureKindEngineError)"

record Services =
  sv_decodeAny :: "bytes \<Rightarrow> goError + json"
  sv_decodeSchema :: "bytes \<Rightarrow> goError + outputPolicySchema option"
  sv_render :: "loopError \<Rightarrow> string"
  sv_renderSchema :: "schemaError \<Rightarrow> string"
  sv_CtxErrAtStart :: "goError option"
  sv_CtxErr :: "goError option"
  sv_Elapsed :: "int \<Rightarrow> duration"

definition loopErrorFailure :: "Services \<Rightarrow> loopError \<Rightarrow> bool \<Rightarrow> AgentFailure" where
  "loopErrorFailure sv err budgetDriven =
     \<lparr>af_Kind = loopErrorKind (sv_CtxErr sv) err budgetDriven, af_Reason = sv_render sv err\<rparr>"

section \<open>Results\<close>

definition finalAssistantTextFromMessages :: "Message list \<Rightarrow> string" where
  "finalAssistantTextFromMessages messages =
     (case find (\<lambda>m. m_Role m = RoleAssistant \<and> \<not> blank (m_Text m)) (rev messages) of
        Some m \<Rightarrow> m_Text m | None \<Rightarrow> [])"

definition resultFromLoopOutput :: "LoopOutput \<Rightarrow> int \<Rightarrow> Result" where
  "resultFromLoopOutput output repairCount =
     zeroResult\<lparr>r_Text := finalAssistantTextFromMessages (lo_Messages output), r_Thinking := lo_Thinking output,
       r_Usage := lo_Usage output, r_StopReason := lo_StopReason output, r_Messages := lo_Messages output,
       r_Steps := lo_Steps output, r_ToolCallsUsed := lo_ToolCallsUsed output, r_Valid := True,
       r_RepairCount := repairCount\<rparr>"

text \<open>\<^verbatim>\<open>validateResultStructuredOutput\<close>: the updated result and the error.\<close>

definition validateResultStructuredOutput ::
    "Services \<Rightarrow> Result \<Rightarrow> outputPolicySchema \<Rightarrow> Result \<times> schemaError option" where
  "validateResultStructuredOutput sv result schema =
     (case validateStructuredOutputAgainstSchema (sv_decodeAny sv) schema (r_Text result) of
        Inl err \<Rightarrow> (result\<lparr>r_Valid := False, r_Structured := []\<rparr>, Some err)
      | Inr structured \<Rightarrow>
          (result\<lparr>r_Valid := True, r_Structured := structured, r_Failure := None\<rparr>, None))"

definition schemaInvalidFailure :: "Services \<Rightarrow> schemaError \<Rightarrow> AgentFailure" where
  "schemaInvalidFailure sv err = \<lparr>af_Kind = FailureKindSchemaInvalid, af_Reason = sv_renderSchema sv err\<rparr>"

definition repairInstructionMessage :: "Services \<Rightarrow> bytes \<Rightarrow> schemaError \<Rightarrow> Message" where
  "repairInstructionMessage sv schema validationErr =
     NewText RoleUser
       (''Repair the previous JSON output so it satisfies the required JSON Schema. '' @
        ''Return only the corrected JSON, with no prose.'' @ [CHR 0x0A, CHR 0x0A] @
        ''Validation error: '' @ sv_renderSchema sv validationErr @ [CHR 0x0A, CHR 0x0A] @
        ''JSON Schema:'' @ [CHR 0x0A] @ schema)"

definition repairFailed :: "Services \<Rightarrow> int \<Rightarrow> schemaError \<Rightarrow> AgentFailure" where
  "repairFailed sv attempts err =
     \<lparr>af_Kind = FailureKindRepairFailed,
      af_Reason = ''structured output repair failed after '' @ showInt attempts @ '' attempt(s): ''
                    @ sv_renderSchema sv err\<rparr>"

text \<open>
  The repair loop of \<^verbatim>\<open>validateAndRepairStructuredOutput\<close> with \<open>left\<close> attempts to go, the next one being
  number \<open>repairCount\<close>. \<open>None\<close> means that \<^verbatim>\<open>RunMessages\<close> ran out of the fuel it was given.
\<close>

definition repairInput :: "Services \<Rightarrow> LoopInput \<Rightarrow> bytes \<Rightarrow> LoopOutput \<Rightarrow> schemaError \<Rightarrow> int \<Rightarrow> LoopInput" where
  "repairInput sv input schemaRaw output validationErr repairCount =
     input\<lparr>in_Messages := lo_Messages output @ [repairInstructionMessage sv schemaRaw validationErr],
       in_OperationTurn := lo_NextOperationTurn output, in_initialUsage := lo_Usage output,
       in_initialSteps := lo_Steps output, in_initialToolCallsUsed := lo_ToolCallsUsed output,
       in_activeElapsed := lo_ActiveElapsed output, in_repairCount := repairCount\<rparr>"

fun repairLoop ::
    "nat \<Rightarrow> Engine \<Rightarrow> Services \<Rightarrow> LoopInput \<Rightarrow> OutputPolicy \<Rightarrow> outputPolicySchema \<Rightarrow> bool \<Rightarrow> nat \<Rightarrow> int
       \<Rightarrow> LoopOutput \<Rightarrow> Result \<Rightarrow> schemaError \<Rightarrow> Result option" where
  "repairLoop fuel e sv input policy schema budgetDriven 0 repairCount output result validationErr =
     Some (result\<lparr>r_Failure := Some (repairFailed sv (op_MaxRepairAttempts policy) validationErr)\<rparr>)"
| "repairLoop fuel e sv input policy schema budgetDriven (Suc left) repairCount output result validationErr =
     (let dimension = snd (budgetRemaining input (lo_Usage output) (lo_ToolCallsUsed output)
                            (int (length (lo_Steps output))))
      in if dimension \<noteq> [] then
           Some (result\<lparr>r_Usage := lo_Usage output, r_Steps := lo_Steps output,
             r_Messages := lo_Messages output, r_ToolCallsUsed := lo_ToolCallsUsed output,
             r_RepairCount := repairCount - 1,
             r_Failure := Some \<lparr>af_Kind = FailureKindBudgetExhausted,
               af_Reason = ''loop budget exhausted before repair attempt '' @ showInt repairCount @ '': '' @ dimension\<rparr>\<rparr>)
         else case RunMessages fuel e (sv_Elapsed sv repairCount)
                     (repairInput sv input (op_Schema policy) output validationErr repairCount) of
           None \<Rightarrow> None
         | Some (repairOutput, Some repairErr) \<Rightarrow>
             Some ((resultFromLoopOutput repairOutput repairCount)
               \<lparr>r_Failure := Some (loopErrorFailure sv repairErr budgetDriven)\<rparr>)
         | Some (repairOutput, None) \<Rightarrow>
             (case validateResultStructuredOutput sv (resultFromLoopOutput repairOutput repairCount) schema of
                (repaired, None) \<Rightarrow> Some repaired
              | (repaired, Some err) \<Rightarrow>
                  repairLoop fuel e sv input policy schema budgetDriven left (repairCount + 1) repairOutput
                    repaired err))"

definition validateAndRepairStructuredOutput ::
    "nat \<Rightarrow> Engine \<Rightarrow> Services \<Rightarrow> LoopInput \<Rightarrow> LoopOutput \<Rightarrow> Result \<Rightarrow> OutputPolicy \<Rightarrow> bool \<Rightarrow> Result option" where
  "validateAndRepairStructuredOutput fuel e sv input output result0 policy budgetDriven =
     (case parseOutputPolicySchema (sv_decodeAny sv) (sv_decodeSchema sv) (op_Schema policy) of
        Inl schemaErr \<Rightarrow>
          Some (result0\<lparr>r_Valid := False, r_Structured := [],
            r_Failure := Some (schemaInvalidFailure sv schemaErr)\<rparr>)
      | Inr schema \<Rightarrow>
          (case validateResultStructuredOutput sv result0 schema of
             (result, None) \<Rightarrow> Some result
           | (result, Some validationErr) \<Rightarrow>
               if \<not> op_Repair policy \<or> lo_RepairCount output \<ge> op_MaxRepairAttempts policy then
                 Some (result\<lparr>r_Failure := Some
                   (if op_Repair policy \<and> op_MaxRepairAttempts policy > 0
                    then repairFailed sv (lo_RepairCount output) validationErr
                    else schemaInvalidFailure sv validationErr)\<rparr>)
               else
                 repairLoop fuel e sv input policy schema budgetDriven
                   (nat (op_MaxRepairAttempts policy - lo_RepairCount output)) (lo_RepairCount output + 1)
                   output result validationErr))"

text \<open>The tail of \<^verbatim>\<open>run\<close>, from the call of \<^verbatim>\<open>RunMessages\<close> on.\<close>

definition runFrom :: "nat \<Rightarrow> Engine \<Rightarrow> Services \<Rightarrow> LoopInput \<Rightarrow> OutputPolicy \<Rightarrow> bool \<Rightarrow> Result option" where
  "runFrom fuel e sv input policy budgetDriven =
     (case RunMessages fuel e (sv_Elapsed sv 0) input of
        None \<Rightarrow> None
      | Some (output, Some runErr) \<Rightarrow>
          Some (zeroResult\<lparr>r_Messages := lo_Messages output, r_Usage := lo_Usage output,
            r_StopReason := lo_StopReason output, r_Thinking := lo_Thinking output,
            r_ToolCallsUsed := lo_ToolCallsUsed output, r_RepairCount := lo_RepairCount output,
            r_Steps := lo_Steps output, r_Failure := Some (loopErrorFailure sv runErr budgetDriven)\<rparr>)
      | Some (output, None) \<Rightarrow>
          let result = resultFromLoopOutput output 0
          in if \<not> op_Validate policy \<or> op_Schema policy = [] then Some result
             else validateAndRepairStructuredOutput fuel e sv input output result policy budgetDriven)"

section \<open>Resuming\<close>

definition continuationStopReason :: "Continuation \<Rightarrow> StopReason" where
  "continuationStopReason c =
     (if c_Steps c = [] then StopReasonOther []
      else
        let latest = last (c_Steps c);
            modelStop = (case s_ModelCall latest of None \<Rightarrow> StopReasonOther [] | Some call \<Rightarrow> mc_StopReason call)
        in if c_Phase c = ContinuationToolsComplete \<and> s_Decision latest = StepDecisionFinish
           then StopReasonComplete
           else if c_Phase c = ContinuationToolsComplete \<and> s_Decision latest = StepDecisionFail
           then StopReasonError
           else modelStop)"

definition continuationThinking :: "Message list \<Rightarrow> string" where
  "continuationThinking messages =
     (case find (\<lambda>m. m_Role m = RoleAssistant) (rev messages) of Some m \<Rightarrow> m_Thinking m | None \<Rightarrow> [])"

definition continuationOutput :: "Continuation \<Rightarrow> LoopOutput" where
  "continuationOutput c =
     \<lparr>lo_Messages = c_Messages c, lo_Usage = c_Usage c, lo_StopReason = continuationStopReason c,
      lo_Iterations = int (length (c_Steps c)), lo_Thinking = continuationThinking (c_Messages c),
      lo_Steps = c_Steps c, lo_ToolCallsUsed = c_ToolCallsUsed c, lo_RepairCount = c_RepairCount c,
      lo_ActiveElapsed = c_ActiveElapsed c, lo_NextOperationTurn = c_NextOperationTurn c\<rparr>"

definition decorateResumedOutput :: "LoopOutput \<Rightarrow> LoopInput \<Rightarrow> duration \<Rightarrow> LoopOutput" where
  "decorateResumedOutput output input elapsed =
     output\<lparr>lo_NextOperationTurn := in_OperationTurn input, lo_RepairCount := in_repairCount input,
       lo_ActiveElapsed := in_activeElapsed input + elapsed\<rparr>"

text \<open>
  The loop input \<^verbatim>\<open>resume\<close> builds: \<open>defaults\<close> carries what it copies from the engine (models, ceilings,
  extensions), the rest comes from the continuation.
\<close>

definition resumeInput :: "LoopInput \<Rightarrow> Continuation \<Rightarrow> LoopInput" where
  "resumeInput defaults c =
     defaults\<lparr>in_Messages := c_Messages c, in_OperationTurn := c_NextOperationTurn c,
       in_continuationRequest := c_Request c, in_continuationPolicy := c_OutputPolicy c,
       in_repairCount := c_RepairCount c, in_activeElapsed := c_ActiveElapsed c,
       in_initialUsage := c_Usage c, in_initialSteps := c_Steps c,
       in_initialToolCallsUsed := c_ToolCallsUsed c\<rparr>"

definition continueFrom :: "LoopInput \<Rightarrow> Message list \<Rightarrow> Usage \<Rightarrow> Step list \<Rightarrow> int \<Rightarrow> LoopInput" where
  "continueFrom input messages usage steps toolCallsUsed =
     input\<lparr>in_Messages := messages, in_initialUsage := usage, in_initialSteps := steps,
       in_initialToolCallsUsed := toolCallsUsed\<rparr>"

text \<open>
  \<^verbatim>\<open>resumeModelComplete\<close> repeats the tool step of the last model call. The scan of the operation ID
  leaves the turn 0 when it fails; a valid continuation has an ID that scans.
\<close>

definition resumeModelComplete ::
    "nat \<Rightarrow> Engine \<Rightarrow> duration \<Rightarrow> LoopInput \<Rightarrow> Continuation \<Rightarrow> (LoopOutput \<times> loopError option) option" where
  "resumeModelComplete fuel e elapsed input c =
     (let assistant = last (c_Messages c);
          latest = last (c_Steps c);
          operationTurn = (case scanTurnCall (tc_OperationID (hd (m_ToolCalls assistant))) of
                             Some (turn, _) \<Rightarrow> turn | None \<Rightarrow> 0);
          st = \<lparr>st_input = input, st_current = butlast (c_Messages c), st_usage = c_Usage c,
                st_steps = butlast (c_Steps c), st_toolCallsUsed = c_ToolCallsUsed c,
                st_turnsRun = s_Index latest\<rparr>
      in case runToolStep e st assistant (the (s_ModelCall latest)) (s_Index latest) operationTurn of
           (s, out, stop, err) \<Rightarrow>
             if stop \<or> err \<noteq> None then Some (decorateResumedOutput out input elapsed, err)
             else RunMessages fuel e elapsed
                    (continueFrom input (st_current s) (st_usage s) (st_steps s) (st_toolCallsUsed s)))"

definition resumeToolsComplete ::
    "nat \<Rightarrow> Engine \<Rightarrow> duration \<Rightarrow> LoopInput \<Rightarrow> Continuation \<Rightarrow> (LoopOutput \<times> loopError option) option" where
  "resumeToolsComplete fuel e elapsed input c =
     (let decorated = decorateResumedOutput (continuationOutput c) input elapsed
      in case s_Decision (last (c_Steps c)) of
           StepDecisionContinue \<Rightarrow> RunMessages fuel e elapsed input
         | StepDecisionFinish \<Rightarrow> Some (decorated, None)
         | StepDecisionFail \<Rightarrow> Some (decorated, Some (StepAborted None))
         | StepDecisionOther text \<Rightarrow>
             if text = [] then RunMessages fuel e elapsed input
             else Some (decorated, Some (ContinuationFailure
               (InvalidContinuation ''tools_complete phase has decision %q'' [ArgString text]))))"

definition resumeValidatingOutput ::
    "nat \<Rightarrow> Engine \<Rightarrow> duration \<Rightarrow> LoopInput \<Rightarrow> Continuation \<Rightarrow> (LoopOutput \<times> loopError option) option" where
  "resumeValidatingOutput fuel e elapsed input c =
     (let latest = last (c_Steps c); modelCall = the (s_ModelCall latest)
      in case finalizeNoToolStep e input (butlast (c_Messages c)) (last (c_Messages c)) modelCall (c_Usage c)
                (butlast (c_Steps c)) (mc_StopReason modelCall) (s_Index latest) (c_ToolCallsUsed c) of
           (current, finalizedSteps, out, retry, err) \<Rightarrow>
             if err \<noteq> None \<or> \<not> retry then Some (decorateResumedOutput out input elapsed, err)
             else RunMessages fuel e elapsed
                    (continueFrom input current (c_Usage c) finalizedSteps (c_ToolCallsUsed c)))"

definition resumeLoop ::
    "nat \<Rightarrow> Engine \<Rightarrow> duration \<Rightarrow> LoopInput \<Rightarrow> Continuation \<Rightarrow> (LoopOutput \<times> loopError option) option" where
  "resumeLoop fuel e elapsed input c =
     (case c_Phase c of
        ContinuationReady \<Rightarrow> RunMessages fuel e elapsed input
      | ContinuationModelComplete \<Rightarrow> resumeModelComplete fuel e elapsed input c
      | ContinuationToolsComplete \<Rightarrow> resumeToolsComplete fuel e elapsed input c
      | ContinuationValidatingOutput \<Rightarrow> resumeValidatingOutput fuel e elapsed input c
      | ContinuationOther phase \<Rightarrow>
          Some (decorateResumedOutput (continuationOutput c) input elapsed,
                Some (ContinuationFailure (InvalidContinuation ''unknown phase %q'' [ArgString phase]))))"

definition continuationResult :: "Continuation \<Rightarrow> Result" where
  "continuationResult c = resultFromLoopOutput (continuationOutput c) (c_RepairCount c)"

definition resume ::
    "nat \<Rightarrow> Engine \<Rightarrow> Services \<Rightarrow> LoopInput \<Rightarrow> Continuation \<Rightarrow> bool \<Rightarrow> Result option" where
  "resume fuel e sv defaults c budgetDriven =
     (case ValidateContinuation (e_jsonValid e) c of
        Some err \<Rightarrow>
          Some (zeroResult\<lparr>r_Failure := Some \<lparr>af_Kind = FailureKindEngineError,
            af_Reason = sv_render sv (ContinuationFailure err)\<rparr>\<rparr>)
      | None \<Rightarrow>
          let input = resumeInput defaults c
          in (case sv_CtxErrAtStart sv of
                Some ctxErr \<Rightarrow>
                  Some ((continuationResult c)
                    \<lparr>r_Failure := Some (loopErrorFailure (sv\<lparr>sv_CtxErr := Some ctxErr\<rparr>)
                       (ExternalError ctxErr) budgetDriven)\<rparr>)
              | None \<Rightarrow>
                  (case resumeLoop fuel e (sv_Elapsed sv 0) input c of
                     None \<Rightarrow> None
                   | Some (output, Some runErr) \<Rightarrow>
                       Some ((resultFromLoopOutput output (lo_RepairCount output))
                         \<lparr>r_Failure := Some (loopErrorFailure sv runErr budgetDriven)\<rparr>)
                   | Some (output, None) \<Rightarrow>
                       let result = resultFromLoopOutput output (lo_RepairCount output);
                           policy = c_OutputPolicy c
                       in if \<not> op_Validate policy \<or> op_Schema policy = [] then Some result
                          else validateAndRepairStructuredOutput fuel e sv input output result policy
                                 budgetDriven)))"

end
