(* ===== verification/Agent_Run_Laws.thy ===== *)
theory Agent_Run_Laws
  imports Agent_Run Message_Turns
begin

text \<open>
  Laws of the agent loop: what a pass that goes on has done to the state, what a pass that ends the
  loop returns, and the proof rule \<open>loop_rule\<close> with its first instance, the accounting of steps,
  iterations and tool calls.
\<close>

section \<open>Steps\<close>

lemma setLast_snoc [simp]: "setLast f (steps @ [step]) = steps @ [f step]"
  by (simp add: setLast_def)

lemma errorsJoin_None: "errorsJoin errs = None \<longleftrightarrow> list_all (\<lambda>err. err = None) errs"
  by (auto simp: errorsJoin_def Let_def filter_empty_conv list_all_iff)

lemma appendToolResults_ok:
  "appendToolResults input i current results = (messages, None) \<Longrightarrow>
   messages = current @ map NewToolResult results"
  by (induction input i current results rule: appendToolResults.induct)
    (auto simp: Let_def split: option.splits)

lemma length_assistantCalls [simp]: "length (assistantCalls t slot calls) = length calls"
  by (induction t slot calls rule: assistantCalls.induct) auto

lemma stepDecisionOverride_continue:
  assumes "stepDecisionOverride input i current usage (steps @ [step]) thinking n used = (steps', out, False, err)"
  shows "err = None \<and> steps' = steps @ [step]"
  using assms
  by (auto simp: stepDecisionOverride_def Let_def split: option.splits sum.splits StepDecision.splits)

lemma finalizeToolStep_continue:
  assumes "finalizeToolStep e input current usage (steps @ [step]) a results term0 i used
    = (steps', out, False, err)"
  shows "\<not> term0 \<and> err = None \<and>
    steps' = steps @ [step\<lparr>s_ToolCalls := toolCallTraces (m_ToolCalls a) results,
                           s_BudgetUsed := budgetUsed usage used, s_Decision := StepDecisionContinue\<rparr>]"
  using assms
  by (auto simp: finalizeToolStep_def Let_def errorsJoin_None split: prod.splits option.splits if_splits
      dest: stepDecisionOverride_continue)

text \<open>What a tool step that lets the loop go on has done.\<close>

lemma runToolStep_continue:
  assumes "runToolStep e st a modelCall i turn = (st', out, False, err)"
  obtains prepared results where
    "st_input st' = st_input st" "st_turnsRun st' = st_turnsRun st" "err = None"
    "preDispatchBudgetBlock (st_input st) (st_usage st) (st_toolCallsUsed st)
       (int (length (st_steps st)) + 1) (int (length (m_ToolCalls a))) = []"
    "st_toolCallsUsed st' = st_toolCallsUsed st + int (length (m_ToolCalls a))"
    "prepareToolCalls e i (assistantCalls turn 0 (m_ToolCalls a)) = Inr (prepared, False)"
    "dispatchPreparedTools e i prepared (in_ToolMode (st_input st)) = (results, None)"
    "st_usage st' = UsageAdd (st_usage st) (e_ChildUsage e i)"
    "st_current st' = st_current st @ [a\<lparr>m_ToolCalls := assistantCalls turn 0 (m_ToolCalls a)\<rparr>]
       @ map NewToolResult results"
    "st_steps st' = st_steps st @ [\<lparr>s_Index = i, s_ModelCall = Some modelCall,
       s_ToolCalls = toolCallTraces (assistantCalls turn 0 (m_ToolCalls a)) results, s_Observations = [],
       s_Decision = StepDecisionContinue, s_BudgetUsed = budgetUsed (st_usage st') (st_toolCallsUsed st')\<rparr>]"
  using assms
  by (auto simp: runToolStep_def Let_def newStep_def errorsJoin_None budgetAbort_def add.commute
      split: prod.splits option.splits sum.splits if_splits
      dest!: finalizeToolStep_continue appendToolResults_ok)

text \<open>What a turn without tool calls has done when the loop goes on: a guardrail asked for a retry.\<close>

lemma finalizeNoToolStep_continue:
  assumes "finalizeNoToolStep e input base a modelCall usage steps stop i used = (current, steps', out, True, err)"
  obtains retryMessages policy where "err = None"
    "current = appendRetryContext base a retryMessages policy" "retryMessages \<noteq> []"
    "steps' = steps @ [newStep i modelCall StepDecisionContinue usage used]"
  using assms
  by (auto simp: finalizeNoToolStep_def Let_def newStep_def budgetAbort_def
      split: prod.splits option.splits sum.splits if_splits)

lemma loopBody_continue:
  assumes "loopBody e i st = Inr st'"
  obtains prepared a usage stop identity opened where
    "prepareTurn st i = Inr prepared"
    "runTurn e i prepared (st_input st) = (a, usage, stop, identity, opened, None)"
    "st_input st' = (st_input st)\<lparr>in_OperationTurn := in_OperationTurn (st_input st) + 1\<rparr>"
    "st_turnsRun st' = i + 1"
    "m_ToolCalls a = [] \<and>
       (\<exists>retryMessages policy. retryMessages \<noteq> [] \<and>
          st_current st' = appendRetryContext prepared a retryMessages policy \<and>
          st_toolCallsUsed st' = st_toolCallsUsed st \<and> st_usage st' = UsageAdd (st_usage st) usage \<and>
          st_steps st' = st_steps st @ [newStep i (newModelCall identity usage stop) StepDecisionContinue
             (st_usage st') (st_toolCallsUsed st')])
     \<or> m_ToolCalls a \<noteq> [] \<and>
       (\<exists>out err. runToolStep e (st\<lparr>st_current := prepared,
            st_input := (st_input st)\<lparr>in_OperationTurn := in_OperationTurn (st_input st) + 1\<rparr>,
            st_usage := UsageAdd (st_usage st) usage, st_turnsRun := i + 1\<rparr>) a
            (newModelCall identity usage stop) i (in_OperationTurn (st_input st)) = (st', out, False, err))"
proof -
  obtain prepared where p: "prepareTurn st i = Inr prepared"
    using assms by (auto simp: loopBody_def Let_def split: option.splits sum.splits)
  obtain a usage stop identity opened err where r: "runTurn e i prepared (st_input st) = (a, usage, stop, identity, opened, err)"
    by (metis prod_cases6)
  have err: "err = None" using assms p r by (auto simp: loopBody_def Let_def split: option.splits prod.splits)
  let ?s = "st\<lparr>st_current := prepared, st_input := (st_input st)\<lparr>in_OperationTurn := in_OperationTurn (st_input st) + 1\<rparr>,
            st_usage := UsageAdd (st_usage st) usage, st_turnsRun := i + 1\<rparr>"
  show thesis
  proof (cases "m_ToolCalls a = []")
    case True
    then obtain current steps out err2 where
      f: "finalizeNoToolStep e (st_input ?s) prepared a (newModelCall identity usage stop) (st_usage ?s)
        (st_steps st) stop i (st_toolCallsUsed st) = (current, steps, out, True, err2)"
      and s': "st' = ?s\<lparr>st_current := current, st_steps := steps\<rparr>"
      using assms p r err
      by (auto simp: loopBody_def Let_def split: option.splits prod.splits if_splits)
    obtain retryMessages policy where "current = appendRetryContext prepared a retryMessages policy" "retryMessages \<noteq> []"
      "steps = st_steps st @ [newStep i (newModelCall identity usage stop) StepDecisionContinue (st_usage ?s) (st_toolCallsUsed st)]"
      using finalizeNoToolStep_continue [OF f] by blast
    then show thesis using that [OF p] r err True s' by auto
  next
    case False
    then obtain out err2 where t: "runToolStep e ?s a (newModelCall identity usage stop) i (in_OperationTurn (st_input st)) = (st', out, False, err2)"
      using assms p r err
      by (auto simp: loopBody_def Let_def split: option.splits prod.splits if_splits)
    have "st_input st' = st_input ?s" "st_turnsRun st' = i + 1"
      using runToolStep_continue [OF t] by auto
    then show thesis using that [OF p] r err False t by auto
  qed
qed

text \<open>Every pass that goes on appends exactly one step, with the index of the pass and the decision to continue.\<close>

lemma loopBody_steps:
  assumes "loopBody e i st = Inr st'"
  shows "\<exists>step. st_steps st' = st_steps st @ [step] \<and> s_Index step = i \<and> s_Decision step = StepDecisionContinue
    \<and> s_BudgetUsed step = budgetUsed (st_usage st') (st_toolCallsUsed st')"
  using assms
proof (cases rule: loopBody_continue)
  case (1 prepared a usage stop identity opened)
  from 1(5) show ?thesis
    by (auto simp: newStep_def elim!: runToolStep_continue)
qed

lemma loopBody_input:
  assumes "loopBody e i st = Inr st'"
  shows "st_input st' = (st_input st)\<lparr>in_OperationTurn := in_OperationTurn (st_input st) + 1\<rparr>"
    and "st_turnsRun st' = i + 1"
  using assms by (auto elim: loopBody_continue)

section \<open>What the loop returns\<close>

lemma finalizeNoToolStep_return:
  assumes "finalizeNoToolStep e input base a modelCall usage steps stop i used = (current, steps', out, False, err)"
  shows "lo_Messages out = current \<and> lo_Usage out = usage \<and> lo_Steps out = steps' \<and> lo_ToolCallsUsed out = used
    \<and> lo_Iterations out = i + 1 \<and> (\<exists>decision. steps' = steps @ [newStep i modelCall decision usage used])"
  using assms
  by (auto simp: finalizeNoToolStep_def Let_def newStep_def budgetAbort_def loopErrorOutput_def zeroOutput_def
      split: prod.splits option.splits sum.splits if_splits)

lemma stepDecisionOverride_return:
  assumes "stepDecisionOverride input i current usage (steps @ [step]) thinking n used = (steps', out, stop, err)"
  shows "(\<exists>decision. steps' = steps @ [step\<lparr>s_Decision := decision\<rparr>]) \<and>
    (stop \<longrightarrow> lo_Messages out = current \<and> lo_Usage out = usage \<and> lo_Steps out = steps'
      \<and> lo_ToolCallsUsed out = used \<and> lo_Iterations out = n)"
proof -
  have same: "\<exists>decision. step = step\<lparr>s_Decision := decision\<rparr>" by (rule exI [of _ "s_Decision step"]) simp
  show ?thesis
    using assms same
    by (auto simp: stepDecisionOverride_def Let_def loopErrorOutput_def zeroOutput_def
        split: option.splits sum.splits StepDecision.splits)
qed

lemma finalizeToolStep_return:
  assumes "finalizeToolStep e input current usage (steps @ [step]) a results term0 i used = (steps', out, True, err)"
  shows "lo_Messages out = current \<and> lo_Usage out = usage \<and> lo_Steps out = steps' \<and> lo_ToolCallsUsed out = used
    \<and> lo_Iterations out = i + 1 \<and>
    (\<exists>decision. steps' = steps @ [step\<lparr>s_ToolCalls := toolCallTraces (m_ToolCalls a) results,
                           s_BudgetUsed := budgetUsed usage used, s_Decision := decision\<rparr>])"
proof -
  let ?step = "step\<lparr>s_ToolCalls := toolCallTraces (m_ToolCalls a) results, s_BudgetUsed := budgetUsed usage used,
     s_Decision := (if term0 then StepDecisionFinish else StepDecisionContinue)\<rparr>"
  obtain decided policyOut stop policyErr where
    d: "(if term0 then (steps @ [?step], zeroOutput, True, None)
        else stepDecisionOverride input i current usage (steps @ [?step]) (m_Thinking a) (i + 1) used)
      = (decided, policyOut, stop, policyErr)"
    by (metis prod_cases4)
  obtain decision where dec: "decided = steps @ [?step\<lparr>s_Decision := decision\<rparr>]"
    using d by (auto split: if_splits dest!: stepDecisionOverride_return)
  have out: "\<not> term0 \<Longrightarrow> stop \<Longrightarrow> lo_Messages policyOut = current \<and> lo_Usage policyOut = usage
      \<and> lo_Steps policyOut = decided \<and> lo_ToolCallsUsed policyOut = used \<and> lo_Iterations policyOut = i + 1"
    using d by (auto dest!: stepDecisionOverride_return)
  show ?thesis
    using assms d dec out
    by (auto simp: finalizeToolStep_def Let_def loopErrorOutput_def zeroOutput_def errorsJoin_None
        split: prod.splits option.splits if_splits)
qed

lemma runToolStep_return:
  assumes "runToolStep e st a modelCall i turn = (st', out, True, err)"
  shows "lo_Messages out = st_current st' \<and> lo_Usage out = st_usage st' \<and> lo_Steps out = st_steps st'
    \<and> lo_ToolCallsUsed out = st_toolCallsUsed st' \<and> lo_Iterations out = i + 1
    \<and> (\<exists>step. st_steps st' = st_steps st @ [step] \<and> s_Index step = i)
    \<and> (st_toolCallsUsed st' = st_toolCallsUsed st \<or>
       st_toolCallsUsed st' = st_toolCallsUsed st + int (length (m_ToolCalls a)) \<and>
       preDispatchBudgetBlock (st_input st) (st_usage st) (st_toolCallsUsed st)
         (int (length (st_steps st)) + 1) (int (length (m_ToolCalls a))) = [])"
  using assms
  by (auto simp: runToolStep_def Let_def newStep_def budgetAbort_def loopErrorOutput_def zeroOutput_def add.commute
      split: prod.splits option.splits sum.splits if_splits dest!: finalizeToolStep_return)


lemma block_dispatch: "preDispatchBudgetBlock input usage used steps batch = [] \<Longrightarrow> \<not> dispatchExceedsToolBudget input used batch"
  by (auto simp: preDispatchBudgetBlock_def Let_def split: if_splits)

text \<open>What a pass that ends the loop returns: the trace it was given, extended by at most its own step.\<close>

lemma loopBody_return:
  assumes "loopBody e i st = Inl (out, err, turn)" "st_turnsRun st = i"
  shows "\<exists>more. lo_Steps out = st_steps st @ more \<and> length more \<le> 1 \<and> list_all (\<lambda>step. s_Index step = i) more
    \<and> (more = [] \<or> (\<exists>prepared. prepareTurn st i = Inr prepared))
    \<and> lo_Iterations out \<in> {i, i + 1} \<and> turn \<in> {in_OperationTurn (st_input st), in_OperationTurn (st_input st) + 1}
    \<and> (lo_ToolCallsUsed out = st_toolCallsUsed st \<or>
       (\<exists>batch \<ge> 0. lo_ToolCallsUsed out = st_toolCallsUsed st + batch
          \<and> \<not> dispatchExceedsToolBudget (st_input st) (st_toolCallsUsed st) batch))"
proof -
  have prep: "lo_Steps o' = st_steps st \<and> lo_Iterations o' = i \<and> lo_ToolCallsUsed o' = st_toolCallsUsed st"
    if "prepareTurn st i = Inl (o', err')" for o' err'
    using that by (auto simp: prepareTurn_def loopTurnPreamble_def Let_def budgetAbort_def loopErrorOutput_def
        zeroOutput_def split: if_splits sum.splits)
  have fail: "(lo_Steps o' = st_steps st \<or> (\<exists>step. lo_Steps o' = st_steps st @ [step] \<and> s_Index step = i))
      \<and> lo_Iterations o' \<in> {i, i + 1} \<and> lo_ToolCallsUsed o' = st_toolCallsUsed st"
    if "handleTurnFailure (st\<lparr>st_current := c\<rparr>) i a u stop ident opened te = (o', err')" for c a u stop ident opened te o' err'
    using that assms(2)
    by (auto simp: handleTurnFailure_def Let_def recordIncompleteTurn_def turnFailureStep_def newStep_def
        loopErrorOutput_def zeroOutput_def max_def split: if_splits prod.splits)
  have early: "?thesis" if "lo_Steps out = st_steps st" "lo_Iterations out = i"
      "lo_ToolCallsUsed out = st_toolCallsUsed st" "turn = in_OperationTurn (st_input st)"
    using that by (intro exI [of _ "[]"]) auto
  show ?thesis
  proof (cases "\<exists>prepared. prepareTurn st i = Inr prepared")
    case False
    then show ?thesis
      using assms(1) prep early
      by (auto simp: loopBody_def Let_def loopErrorOutput_def zeroOutput_def split: option.splits sum.splits)
  next
    case True
    then obtain prepared where p: "prepareTurn st i = Inr prepared" by blast
    obtain a usage stop identity opened terr where r: "runTurn e i prepared (st_input st) = (a, usage, stop, identity, opened, terr)"
      by (metis prod_cases6)
    let ?s = "st\<lparr>st_current := prepared, st_input := (st_input st)\<lparr>in_OperationTurn := in_OperationTurn (st_input st) + 1\<rparr>,
            st_usage := UsageAdd (st_usage st) usage, st_turnsRun := i + 1\<rparr>"
    consider (stopped) "lo_Steps out = st_steps st" "lo_Iterations out = i" "lo_ToolCallsUsed out = st_toolCallsUsed st"
        "turn = in_OperationTurn (st_input st)"
      | (failed) te where "turn = in_OperationTurn (st_input st)"
          "handleTurnFailure (st\<lparr>st_current := prepared\<rparr>) i a usage stop identity opened te = (out, err)"
      | (final) current steps where "turn = in_OperationTurn (st_input st) + 1"
          "finalizeNoToolStep e (st_input ?s) prepared a (newModelCall identity usage stop) (st_usage ?s)
             (st_steps st) stop i (st_toolCallsUsed st) = (current, steps, out, False, err)"
      | (tools) s1 where "turn = in_OperationTurn (st_input st) + 1"
          "runToolStep e ?s a (newModelCall identity usage stop) i (in_OperationTurn (st_input st)) = (s1, out, True, err)"
      using assms(1) p r
      by (auto simp: loopBody_def Let_def loopErrorOutput_def zeroOutput_def
          split: option.splits prod.splits if_splits)
    then show ?thesis
    proof cases
      case stopped
      then show ?thesis by (rule early)
    next
      case failed
      then show ?thesis using fail [OF failed(2)] p by (auto intro: exI [of _ "[]"])
    next
      case final
      then show ?thesis using finalizeNoToolStep_return [OF final(2)] p by (auto simp: newStep_def)
    next
      case tools
      show ?thesis
        using runToolStep_return [OF tools(2)] tools(1) p
        by (auto dest!: block_dispatch simp: dispatchExceedsToolBudget_def)
    qed
  qed
qed

section \<open>Invariants of the loop\<close>

text \<open>The return value of a loop that has used up its iterations.\<close>

definition maxTurnsReturn :: "loopState \<Rightarrow> loopReturn" where
  "maxTurnsReturn st =
     (zeroOutput\<lparr>lo_Messages := st_current st, lo_Usage := st_usage st, lo_StopReason := StopReasonMaxTurns,
        lo_Iterations := in_MaxIterations (st_input st), lo_Steps := st_steps st,
        lo_ToolCallsUsed := st_toolCallsUsed st\<rparr>, None, in_OperationTurn (st_input st))"

text \<open>
  The proof rule of the loop: an invariant every pass keeps, and a postcondition that each of the two
  ways out of the loop establishes from it.
\<close>

locale loop_rule =
  fixes e :: Engine and Inv :: "int \<Rightarrow> loopState \<Rightarrow> bool" and Post :: "loopReturn \<Rightarrow> bool"
  assumes keeps: "Inv i st \<Longrightarrow> iterationAllowed (st_input st) i \<Longrightarrow> loopBody e i st = Inr st' \<Longrightarrow> Inv (i + 1) st'"
    and returns: "Inv i st \<Longrightarrow> iterationAllowed (st_input st) i \<Longrightarrow> loopBody e i st = Inl r \<Longrightarrow> Post r"
    and exhausts: "Inv i st \<Longrightarrow> \<not> iterationAllowed (st_input st) i \<Longrightarrow> Post (maxTurnsReturn st)"
begin

lemma run_post: "runLoop fuel e i st = Some r \<Longrightarrow> Inv i st \<Longrightarrow> Post r"
proof (induction fuel arbitrary: i st)
  case 0
  then show ?case using exhausts by (auto simp: runLoop.simps maxTurnsReturn_def split: if_splits)
next
  case (Suc fuel)
  show ?case
  proof (cases "iterationAllowed (st_input st) i")
    case False
    then show ?thesis using Suc.prems exhausts by (auto simp: runLoop.simps maxTurnsReturn_def)
  next
    case True
    then show ?thesis
      using Suc.prems Suc.IH keeps returns by (auto simp: runLoop.simps split: sum.splits)
  qed
qed

end

text \<open>The parameters of the loop that never change, and the counters that go with the trace.\<close>

definition sameLimits :: "LoopInput \<Rightarrow> LoopInput \<Rightarrow> bool" where
  "sameLimits input input' \<longleftrightarrow> (\<exists>turn. input' = input\<lparr>in_OperationTurn := turn\<rparr>)"

definition accounted :: "LoopInput \<Rightarrow> nat \<Rightarrow> int \<Rightarrow> loopState \<Rightarrow> bool" where
  "accounted input initial i st \<longleftrightarrow>
     sameLimits input (st_input st) \<and> i = int (length (st_steps st)) \<and> st_turnsRun st = i \<and>
     map s_Index (st_steps st) = map int [0..<length (st_steps st)] \<and>
     initial \<le> length (st_steps st) \<and>
     (in_UnlimitedIterations input \<or> i \<le> max (int initial) (in_MaxIterations input)) \<and>
     (in_MaxSteps input > 0 \<longrightarrow> int (length (st_steps st)) \<le> max (int initial) (in_MaxSteps input)) \<and>
     (in_MaxToolCalls input > 0 \<longrightarrow> st_toolCallsUsed st \<le> in_MaxToolCalls input)"

definition accountedReturn :: "LoopInput \<Rightarrow> nat \<Rightarrow> loopReturn \<Rightarrow> bool" where
  "accountedReturn input initial r \<longleftrightarrow>
     (case r of (out, err, turn) \<Rightarrow>
        map s_Index (lo_Steps out) = map int [0..<length (lo_Steps out)] \<and>
        (in_UnlimitedIterations input
          \<or> int (length (lo_Steps out)) \<le> max (int initial) (in_MaxIterations input)
            \<and> lo_Iterations out \<le> max (int initial) (in_MaxIterations input)) \<and>
        (in_MaxSteps input > 0 \<longrightarrow> int (length (lo_Steps out)) \<le> max (int initial) (in_MaxSteps input)) \<and>
        (in_MaxToolCalls input > 0 \<longrightarrow> lo_ToolCallsUsed out \<le> in_MaxToolCalls input))"

lemma sameLimits_fields:
  assumes "sameLimits input input'"
  shows "in_MaxSteps input' = in_MaxSteps input" "in_MaxIterations input' = in_MaxIterations input"
    "in_UnlimitedIterations input' = in_UnlimitedIterations input"
    "in_MaxToolCalls input' = in_MaxToolCalls input" "in_MaxTokens input' = in_MaxTokens input"
  using assms by (auto simp: sameLimits_def)

lemma prepareTurn_steps:
  assumes "prepareTurn st i = Inr prepared" "i > 0"
  shows "snd (budgetRemaining (st_input st) (st_usage st) (st_toolCallsUsed st) (int (length (st_steps st)))) = []"
  using assms by (auto simp: prepareTurn_def loopTurnPreamble_def Let_def split: if_splits)

lemma budget_none:
  assumes "snd (budgetRemaining input usage used steps) = []"
  shows "in_MaxSteps input > 0 \<Longrightarrow> steps < in_MaxSteps input"
    and "in_MaxToolCalls input > 0 \<Longrightarrow> used < in_MaxToolCalls input"
    and "in_MaxTokens input > 0 \<Longrightarrow> wrap64 (in_MaxTokens input - u_TotalTokens usage) > 0"
  using assms by (auto simp: budgetRemaining_def Let_def split: if_splits)

text \<open>One more step stays within the ceilings.\<close>

lemma accounted_room:
  assumes "accounted input initial i st" "iterationAllowed (st_input st) i" "prepareTurn st i = Inr prepared"
  shows "in_UnlimitedIterations input \<or> i + 1 \<le> max (int initial) (in_MaxIterations input)"
    and "in_MaxSteps input > 0 \<Longrightarrow> i + 1 \<le> max (int initial) (in_MaxSteps input)"
proof -
  have lim: "sameLimits input (st_input st)" and i: "i = int (length (st_steps st))"
    using assms(1) by (simp_all add: accounted_def)
  note same = sameLimits_fields [OF lim]
  show "in_UnlimitedIterations input \<or> i + 1 \<le> max (int initial) (in_MaxIterations input)"
    using assms(2) same by (auto simp: iterationAllowed_def)
  show "in_MaxSteps input > 0 \<Longrightarrow> i + 1 \<le> max (int initial) (in_MaxSteps input)"
    using budget_none(1) [OF prepareTurn_steps [OF assms(3)]] same i by (cases "i > 0") auto
qed

lemma indexes_snoc:
  "map s_Index steps = map int [0..<length steps] \<Longrightarrow> s_Index step = int (length steps) \<Longrightarrow>
   map s_Index (steps @ [step]) = map int [0..<length (steps @ [step])]"
  by simp

lemma accounted_keeps:
  assumes "accounted input initial i st" "iterationAllowed (st_input st) i" "loopBody e i st = Inr st'"
  shows "accounted input initial (i + 1) st'"
  using assms(3)
proof (cases rule: loopBody_continue)
  case (1 prepared a usage stop identity opened)
  note room = accounted_room [OF assms(1,2) 1(1)]
  obtain step where step: "st_steps st' = st_steps st @ [step]" "s_Index step = i"
    using loopBody_steps [OF assms(3)] by blast
  have lim: "sameLimits input (st_input st)" using assms(1) by (simp add: accounted_def)
  have used: "in_MaxToolCalls input > 0 \<Longrightarrow> st_toolCallsUsed st' \<le> in_MaxToolCalls input"
    using 1(5) assms(1) sameLimits_fields [OF lim]
    by (auto simp: accounted_def dispatchExceedsToolBudget_def elim!: runToolStep_continue dest!: block_dispatch)
  have "sameLimits input (st_input st')" using lim 1(3) by (auto simp: sameLimits_def)
  then show ?thesis
    using assms(1) step room used 1(4) by (auto simp: accounted_def)
qed

lemma accounted_returns:
  assumes "accounted input initial i st" "iterationAllowed (st_input st) i" "loopBody e i st = Inl r"
  shows "accountedReturn input initial r"
proof -
  obtain out err turn where r: "r = (out, err, turn)" by (cases r) auto
  have lim: "sameLimits input (st_input st)" and idx: "map s_Index (st_steps st) = map int [0..<length (st_steps st)]"
    and i: "i = int (length (st_steps st))" and turns: "st_turnsRun st = i"
    and used: "in_MaxToolCalls input > 0 \<Longrightarrow> st_toolCallsUsed st \<le> in_MaxToolCalls input"
    using assms(1) by (simp_all add: accounted_def)
  note same = sameLimits_fields [OF lim]
  have allowed: "in_UnlimitedIterations input \<or> i < in_MaxIterations input"
    using assms(2) same by (simp add: iterationAllowed_def)
  obtain more where more: "lo_Steps out = st_steps st @ more" "length more \<le> 1" "list_all (\<lambda>step. s_Index step = i) more"
    "more = [] \<or> (\<exists>prepared. prepareTurn st i = Inr prepared)" and iter: "lo_Iterations out \<in> {i, i + 1}"
    and calls: "lo_ToolCallsUsed out = st_toolCallsUsed st \<or> (\<exists>batch \<ge> 0. lo_ToolCallsUsed out = st_toolCallsUsed st + batch
          \<and> \<not> dispatchExceedsToolBudget (st_input st) (st_toolCallsUsed st) batch)"
    using loopBody_return [OF assms(3) [unfolded r] turns] by blast
  have "map s_Index (lo_Steps out) = map int [0..<length (lo_Steps out)]"
    using more(1-3) idx i by (cases more) auto
  moreover have "in_MaxSteps input > 0 \<Longrightarrow> int (length (lo_Steps out)) \<le> max (int initial) (in_MaxSteps input)"
  proof (cases "more = []")
    case True
    then show "in_MaxSteps input > 0 \<Longrightarrow> ?thesis" using more(1) assms(1) by (simp add: accounted_def)
  next
    case False
    then obtain prepared where "prepareTurn st i = Inr prepared" using more(4) by blast
    then show "in_MaxSteps input > 0 \<Longrightarrow> ?thesis"
      using accounted_room(2) [OF assms(1,2)] more(1,2) i by fastforce
  qed
  moreover have "int (length (lo_Steps out)) \<le> i + 1" using more(1,2) i by simp
  moreover have "in_MaxToolCalls input > 0 \<Longrightarrow> lo_ToolCallsUsed out \<le> in_MaxToolCalls input"
    using calls used same by (auto simp: dispatchExceedsToolBudget_def)
  ultimately show ?thesis using iter allowed by (auto simp: accountedReturn_def r)
qed

lemma accounted_exhausts:
  assumes "accounted input initial i st" "\<not> iterationAllowed (st_input st) i"
  shows "accountedReturn input initial (maxTurnsReturn st)"
  using assms sameLimits_fields [of input "st_input st"]
  by (auto simp: accounted_def accountedReturn_def maxTurnsReturn_def zeroOutput_def iterationAllowed_def)

interpretation accounting: loop_rule e "accounted input initial" "accountedReturn input initial"
  for e input initial
  by unfold_locales (auto intro: accounted_keeps accounted_returns accounted_exhausts)


section \<open>Termination\<close>

text \<open>A pass goes on only below the step ceiling, and each pass adds one step.\<close>

lemma runLoop_returns_iterations:
  "sameLimits input (st_input st) \<Longrightarrow> \<not> in_UnlimitedIterations input \<Longrightarrow>
   nat (in_MaxIterations input - i) \<le> fuel \<Longrightarrow> \<exists>r. runLoop fuel e i st = Some r"
proof (induction fuel arbitrary: i st)
  case 0
  then show ?case
    using sameLimits_fields [OF 0(1)] by (simp add: runLoop.simps iterationAllowed_def)
next
  case (Suc fuel)
  show ?case
  proof (cases "loopBody e i st")
    case (Inr st')
    have "sameLimits input (st_input st')"
      using Suc.prems(1) loopBody_input(1) [OF Inr] by (auto simp: sameLimits_def)
    moreover have "nat (in_MaxIterations input - (i + 1)) \<le> fuel" using Suc.prems(3) by linarith
    ultimately obtain r where "runLoop fuel e (i + 1) st' = Some r" using Suc.IH [of st' "i + 1"] Suc.prems(2) by blast
    then show ?thesis using Inr by (cases r) (simp add: runLoop.simps [of "Suc fuel"])
  qed (auto simp: runLoop.simps [of "Suc fuel"])
qed

lemma runLoop_returns_steps:
  "sameLimits input (st_input st) \<Longrightarrow> i = int (length (st_steps st)) \<Longrightarrow> in_MaxSteps input > 0 \<Longrightarrow>
   nat (in_MaxSteps input - i) < fuel \<Longrightarrow> \<exists>r. runLoop fuel e i st = Some r"
proof (induction fuel arbitrary: i st)
  case (Suc fuel)
  show ?case
  proof (cases "loopBody e i st")
    case (Inr st')
    obtain prepared where p: "prepareTurn st i = Inr prepared" using Inr by (auto elim: loopBody_continue)
    have "i < in_MaxSteps input"
      using budget_none(1) [OF prepareTurn_steps [OF p]] Suc.prems(2,3) sameLimits_fields [OF Suc.prems(1)]
      by (cases "i > 0") auto
    moreover have "sameLimits input (st_input st')"
      using Suc.prems(1) loopBody_input(1) [OF Inr] by (auto simp: sameLimits_def)
    moreover have "i + 1 = int (length (st_steps st'))" using loopBody_steps [OF Inr] Suc.prems(2) by auto
    moreover have "nat (in_MaxSteps input - (i + 1)) < fuel" using Suc.prems(4) calculation(1) by linarith
    ultimately obtain r where "runLoop fuel e (i + 1) st' = Some r"
      using Suc.IH [of st' "i + 1"] Suc.prems(3) by blast
    then show ?thesis using Inr by (cases r) (simp add: runLoop.simps [of "Suc fuel"])
  qed (auto simp: runLoop.simps [of "Suc fuel"])
qed simp

text \<open>The state in which the loop starts.\<close>

lemma initialState_simps:
  "st_current (initialState input) = in_Messages input" "st_usage (initialState input) = in_initialUsage input"
  "st_steps (initialState input) = in_initialSteps input"
  "st_toolCallsUsed (initialState input) = in_initialToolCallsUsed input"
  "st_turnsRun (initialState input) = int (length (in_initialSteps input))"
  "in_MaxSteps (st_input (initialState input)) = in_MaxSteps input"
  "in_MaxToolCalls (st_input (initialState input)) = in_MaxToolCalls input"
  "in_MaxTokens (st_input (initialState input)) = in_MaxTokens input"
  "in_UnlimitedIterations (st_input (initialState input)) = in_UnlimitedIterations input"
  "in_MaxIterations (st_input (initialState input)) = in_MaxIterations (normalizeIterationPolicy input)"
  "in_OperationTurn (st_input (initialState input))
     = max (in_OperationTurn input) (nextToolOperationTurn (in_Messages input))"
  by (simp_all add: initialState_def normalizeIterationPolicy_def Let_def)

lemma sameLimits_refl [simp]: "sameLimits input input"
  unfolding sameLimits_def by (rule exI [of _ "in_OperationTurn input"]) simp

section \<open>Compaction\<close>

lemma firstChanged_None:
  "firstChanged n xs ys = None \<Longrightarrow> length xs = length ys \<Longrightarrow> xs = ys"
proof (induction n xs ys rule: firstChanged.induct)
  case (1 n x xs y ys)
  then show ?case by (simp split: if_splits)
qed auto

lemma compaction_keeps_prefix:
  assumes "validateCachePrefixPreserved before after = None"
  shows "\<exists>b. CachePrefixBoundary before = Inr b \<and> take b after = take b before"
proof (cases "CachePrefixBoundary before")
  case (Inr b)
  show ?thesis
  proof (cases "b = 0")
    case False
    have "b \<le> length before"
      using Inr cacheLoop_cut [of before 0 "lastCacheBoundary 0 before 0"] lastCacheBoundary_bounds [of 0 0 before]
      by (auto simp: CachePrefixBoundary_def valid_iff cleanCut_def Let_def split: option.splits if_splits)
    then show ?thesis
      using assms Inr False firstChanged_None [of 0 "take b before" "take b after"]
      by (auto simp: validateCachePrefixPreserved_def split: option.splits if_splits)
  qed (use Inr in simp)
qed (use assms in \<open>simp add: validateCachePrefixPreserved_def\<close>)

text \<open>The cache prefix contains every marked message.\<close>

lemma cachePrefix_complete:
  assumes "CachePrefixBoundary messages = Inr b"
  shows "b \<le> length messages \<and> ValidateCompleteTurns (take b messages) = None"
proof -
  have "ValidateCompleteTurns messages = None" using assms by (simp add: CachePrefixBoundary_def split: option.splits)
  from CachePrefixBoundary_least [OF this] show ?thesis using assms by auto
qed

lemma cacheBoundary_covers:
  assumes "CachePrefixBoundary messages = Inr b" "k < length messages" "m_CacheBoundary (messages ! k)"
  shows "k < b"
proof -
  have "k < lastCacheBoundary 0 messages 0" using lastCacheBoundary_covers [of 0 0 k messages] assms(2,3) by simp
  moreover have "validHistory messages" "b = cacheLoop (lastCacheBoundary 0 messages 0) 0 messages"
    using assms(1) calculation by (auto simp: CachePrefixBoundary_def Let_def valid_iff split: option.splits if_splits)
  ultimately show ?thesis
    using cacheLoop_cut [of messages 0 "lastCacheBoundary 0 messages 0"] lastCacheBoundary_bounds [of 0 0 messages]
    by simp
qed

end
