(* ===== verification/Agent_Turn.thy ===== *)
theory Agent_Turn
  imports Agent_Run_Laws Provider_Normalize_Laws
begin

text \<open>
  What a successful model turn hands to the loop (\<^verbatim>\<open>collect\<close> and \<^verbatim>\<open>runTurn\<close> of \<^verbatim>\<open>src/agent/agent.go\<close>): an assistant
  message whose tool calls have distinct, non-empty IDs, whatever the provider streamed.
\<close>

section \<open>Provider turns\<close>

text \<open>An assistant message whose calls can be answered: what a successful model turn delivers.\<close>

definition answerable :: "Message \<Rightarrow> bool" where
  "answerable msg \<longleftrightarrow> m_Role msg = RoleAssistant \<and> m_ToolResult msg = None
     \<and> distinct (map tc_ID (m_ToolCalls msg)) \<and> list_all (\<lambda>call. tc_ID call \<noteq> []) (m_ToolCalls msg)"

lemma SyncLegacyContent_keeps [simp]:
  "m_Role (SyncLegacyContent msg) = m_Role msg" "m_ToolResult (SyncLegacyContent msg) = m_ToolResult msg"
  "m_ToolCalls (SyncLegacyContent msg) = m_ToolCalls msg"
  by (simp_all add: SyncLegacyContent_def Let_def split: prod.splits)

lemma completeTurn_answerable:
  assumes "completeTurn jv events = (a, usage, stop, None)"
  shows "answerable a"
proof -
  obtain normalized where n: "NormalizeEvents jv events = Inr normalized"
    and a: "a = SyncLegacyContent (assistantShell\<lparr>m_Content := nr_Content normalized,
      m_ToolCalls := nr_ToolCalls normalized, m_ProviderState := nr_ProviderState normalized,
      m_Response := nr_Response normalized\<rparr>)"
    using assms by (auto simp: completeTurn_def applyNormalized_def split: sum.splits)
  have "distinct (map tc_ID (nr_ToolCalls normalized)) \<and> list_all (\<lambda>call. \<not> blank (tc_ID call)) (nr_ToolCalls normalized)"
    using normalizeEvents_calls [OF n [unfolded NormalizeEvents_def]] by (auto simp: list_all_iff)
  then show ?thesis
    unfolding a answerable_def
    by (auto simp: assistantShell_def zeroMessage_def list_all_iff dest: not_blank_nonempty)
qed

lemma partialTurn_fails [simp]:
  "partialTurn jv events err \<noteq> (a, usage, stop, None)" "defaultStop (partialTurn jv events err) \<noteq> (a, usage, stop, None)"
  "panicTurn jv events reason \<noteq> (a, usage, stop, None)"
  by (auto simp: partialTurn_def defaultStop_def panicTurn_def split: prod.splits)

lemma collectLoop_answerable:
  "collectLoop jv errorText polls events seen n = (a, usage, stop, None) \<Longrightarrow> answerable a"
proof (induction jv errorText polls events seen n rule: collectLoop.induct)
  case (2 jv errorText p polls events seen n)
  then show ?case
    by (auto simp: Let_def completeTurn_answerable split: if_splits recvOutcome.splits callbackOutcome.splits)
qed (simp add: completeTurn_answerable)

lemma runTurn_answerable:
  assumes "runTurn e i current input = (a, usage, stop, identity, opened, None)"
  shows "answerable a"
  using assms collectLoop_answerable
  by (fastforce simp: runTurn_def Let_def collect_def split: sum.splits prod.splits)

end
