(* ===== verification/Agent_Resume_Laws.thy ===== *)
theory Agent_Resume_Laws
  imports Agent_Engine Agent_Turn
begin

text \<open>
  Why a run can be continued from any boundary it persisted. The loop reads its operation IDs back from
  the transcript; a later segment of a run (\<open>segment\<close>: other initial counters, a clock that goes on) answers
  as the first one would; the states a run passes through (\<open>reaches\<close>), the continuations it hands to the
  boundary observer in each of them (\<open>boundaryOf\<close>), and what \<^verbatim>\<open>resumeLoop\<close> does with each.
\<close>



section \<open>Segments of one run\<close>

lemmas deepCong = option.case_cong sum.case_cong prod.case_cong if_cong

definition rebase :: "LoopInput \<Rightarrow> LoopInput \<Rightarrow> LoopInput" where
  "rebase base input =
     input\<lparr>in_Messages := in_Messages base, in_activeElapsed := in_activeElapsed base,
       in_initialUsage := in_initialUsage base, in_initialSteps := in_initialSteps base,
       in_initialToolCallsUsed := in_initialToolCallsUsed base\<rparr>"

definition rebaseState :: "LoopInput \<Rightarrow> loopState \<Rightarrow> loopState" where
  "rebaseState base st = st\<lparr>st_input := rebase base (st_input st)\<rparr>"

lemma rebase_fields [simp]:
  "in_Model (rebase base input) = in_Model input" "in_Metadata (rebase base input) = in_Metadata input"
  "in_ToolMode (rebase base input) = in_ToolMode input"
  "in_MaxIterations (rebase base input) = in_MaxIterations input"
  "in_UnlimitedIterations (rebase base input) = in_UnlimitedIterations input"
  "in_OperationTurn (rebase base input) = in_OperationTurn input" "in_Sink (rebase base input) = in_Sink input"
  "in_OutputGuardrails (rebase base input) = in_OutputGuardrails input"
  "in_MaxTokens (rebase base input) = in_MaxTokens input"
  "in_MaxToolCalls (rebase base input) = in_MaxToolCalls input"
  "in_MaxSteps (rebase base input) = in_MaxSteps input"
  "in_ContextTokenTarget (rebase base input) = in_ContextTokenTarget input"
  "in_StepDecider (rebase base input) = in_StepDecider input"
  "in_StepObserver (rebase base input) = in_StepObserver input"
  "in_Compact (rebase base input) = in_Compact input" "in_CompactTo (rebase base input) = in_CompactTo input"
  "in_continuationRequest (rebase base input) = in_continuationRequest input"
  "in_continuationPolicy (rebase base input) = in_continuationPolicy input"
  "in_repairCount (rebase base input) = in_repairCount input"
  "in_activeElapsed (rebase base input) = in_activeElapsed base"
  by (simp_all add: rebase_def)

lemma rebase_turn: "(rebase base input)\<lparr>in_OperationTurn := t\<rparr> = rebase base (input\<lparr>in_OperationTurn := t\<rparr>)"
  by (simp add: rebase_def)

lemma rebaseState_fields [simp]:
  "st_input (rebaseState base st) = rebase base (st_input st)" "st_current (rebaseState base st) = st_current st"
  "st_usage (rebaseState base st) = st_usage st" "st_steps (rebaseState base st) = st_steps st"
  "st_toolCallsUsed (rebaseState base st) = st_toolCallsUsed st" "st_turnsRun (rebaseState base st) = st_turnsRun st"
  by (simp_all add: rebaseState_def)

lemma rebaseState_updates [simp]:
  "(rebaseState base st)\<lparr>st_current := c\<rparr> = rebaseState base (st\<lparr>st_current := c\<rparr>)"
  "(rebaseState base st)\<lparr>st_usage := u\<rparr> = rebaseState base (st\<lparr>st_usage := u\<rparr>)"
  "(rebaseState base st)\<lparr>st_steps := s\<rparr> = rebaseState base (st\<lparr>st_steps := s\<rparr>)"
  "(rebaseState base st)\<lparr>st_toolCallsUsed := t\<rparr> = rebaseState base (st\<lparr>st_toolCallsUsed := t\<rparr>)"
  "(rebaseState base st)\<lparr>st_turnsRun := r\<rparr> = rebaseState base (st\<lparr>st_turnsRun := r\<rparr>)"
  "(rebaseState base st)\<lparr>st_input := rebase base input\<rparr> = rebaseState base (st\<lparr>st_input := input\<rparr>)"
  by (simp_all add: rebaseState_def)

lemma case_map_prod: "(case map_prod f g p of (x, y) \<Rightarrow> h x y) = (case p of (x, y) \<Rightarrow> h (f x) (g y))"
  by (cases p) simp

text \<open>Extensions see neither the segment's own fields nor the clock.\<close>

lemma guardrailLoop_rebase [simp]:
  "guardrailLoop (rebase base input) i current n usage stop gs a = guardrailLoop input i current n usage stop gs a"
  by (induction input i current n usage stop gs a rule: guardrailLoop.induct) (auto split: sum.splits OutputGuardrailAction.splits)

lemma appendToolResults_rebase [simp]:
  "appendToolResults (rebase base input) i current results = appendToolResults input i current results"
  by (induction input i current results rule: appendToolResults.induct) (simp_all add: Let_def split: option.splits)

lemma prepareLoop_clock [simp]:
  "prepareLoop (e\<lparr>e_Elapsed := E\<rparr>) driver i calls prepared t = prepareLoop e driver i calls prepared t"
  by (induction e driver i calls prepared t rule: prepareLoop.induct) (simp_all add: Let_def split: option.splits sum.splits)

lemma afterLoop_clock [simp]:
  "afterLoop (e\<lparr>e_Elapsed := E\<rparr>) i results prepared items = afterLoop e i results prepared items"
  by (induction e i results prepared items rule: afterLoop.induct) (simp_all add: Let_def split: option.splits sum.splits)

lemma budgetRemaining_rebase [simp]:
  "snd (budgetRemaining (rebase base input) usage used steps) = snd (budgetRemaining input usage used steps)"
  by (simp add: budgetRemaining_def Let_def)

lemma rebase_helpers [simp]:
  "observeFinalizedStep (rebase base input) i steps = observeFinalizedStep input i steps"
  "applyOutputGuardrails (rebase base input) i current a n usage stop = applyOutputGuardrails input i current a n usage stop"
  "stepDecisionOverride (rebase base input) i current usage steps thinking n used
     = stepDecisionOverride input i current usage steps thinking n used"
  "preDispatchBudgetBlock (rebase base input) usage used n batch = preDispatchBudgetBlock input usage used n batch"
  "maybeCompactHistory (rebase base input) i current usage = maybeCompactHistory input i current usage"
  "iterationAllowed (rebase base input) i = iterationAllowed input i"
  by (simp_all add: observeFinalizedStep_def applyOutputGuardrails_def stepDecisionOverride_def
      preDispatchBudgetBlock_def dispatchExceedsToolBudget_def maybeCompactHistory_def iterationAllowed_def cong: deepCong)

lemma clock_helpers [simp]:
  "prepareToolCalls (e\<lparr>e_Elapsed := E\<rparr>) i calls = prepareToolCalls e i calls"
  "dispatchPreparedTools (e\<lparr>e_Elapsed := E\<rparr>) i prepared mode = dispatchPreparedTools e i prepared mode"
  by (simp_all add: prepareToolCalls_def dispatchPreparedTools_def cong: deepCong)

lemma prepareTurn_rebase [simp]: "prepareTurn (rebaseState base st) i = prepareTurn st i"
  by (simp add: prepareTurn_def loopTurnPreamble_def Let_def cong: deepCong)

lemma runTurn_rebase [simp]: "runTurn (e\<lparr>e_Elapsed := E\<rparr>) i current (rebase base input) = runTurn e i current input"
  by (simp add: runTurn_def cong: deepCong)

lemma handleTurnFailure_rebase [simp]:
  "handleTurnFailure (rebaseState base st) i a usage stop identity opened err = handleTurnFailure st i a usage stop identity opened err"
  by (simp add: handleTurnFailure_def Let_def cong: deepCong)

text \<open>
  A later segment of a run: another input that carries the run's counters, and a clock that goes on
  where the earlier one stopped. Every part of the loop answers as it did.
\<close>

locale segment =
  fixes e :: Engine and clock :: "int \<Rightarrow> ContinuationPhase \<Rightarrow> duration" and base :: LoopInput and spent :: duration
  assumes clock_goes_on: "in_activeElapsed base + clock i phase = spent + e_Elapsed e i phase"
begin

lemma boundary_same:
  "in_activeElapsed input = spent \<Longrightarrow>
   observeBoundary (e\<lparr>e_Elapsed := clock\<rparr>) (rebase base input) i messages usage steps used phase
     = observeBoundary e input i messages usage steps used phase"
  by (simp add: observeBoundary_def buildContinuation_def clock_goes_on cong: deepCong)

lemma finalizeNoToolStep_same:
  "in_activeElapsed input = spent \<Longrightarrow>
   finalizeNoToolStep (e\<lparr>e_Elapsed := clock\<rparr>) (rebase base input) current a modelCall usage steps stop i used
     = finalizeNoToolStep e input current a modelCall usage steps stop i used"
  by (simp add: finalizeNoToolStep_def boundary_same Let_def cong: deepCong)

lemma finalizeToolStep_same:
  "in_activeElapsed input = spent \<Longrightarrow>
   finalizeToolStep (e\<lparr>e_Elapsed := clock\<rparr>) (rebase base input) current usage steps a results term0 i used
     = finalizeToolStep e input current usage steps a results term0 i used"
  by (simp add: finalizeToolStep_def boundary_same Let_def cong: deepCong)

lemma runToolStep_same:
  assumes "in_activeElapsed (st_input st) = spent"
  shows "runToolStep (e\<lparr>e_Elapsed := clock\<rparr>) (rebaseState base st) a modelCall i turn
     = map_prod (rebaseState base) id (runToolStep e st a modelCall i turn)"
  using assms
  by (simp add: runToolStep_def Let_def boundary_same finalizeToolStep_same
      if_distrib [of "map_prod (rebaseState base) id"] option.case_distrib [of "map_prod (rebaseState base) id"]
      sum.case_distrib [of "map_prod (rebaseState base) id"] prod.case_distrib [of "map_prod (rebaseState base) id"]
      cong: deepCong)

lemma loopBody_same:
  assumes "in_activeElapsed (st_input st) = spent"
  shows "loopBody (e\<lparr>e_Elapsed := clock\<rparr>) i (rebaseState base st) = map_sum id (rebaseState base) (loopBody e i st)"
  using assms
  by (simp add: loopBody_def Let_def rebase_turn case_map_prod boundary_same finalizeNoToolStep_same runToolStep_same
      if_distrib [of "map_sum id (rebaseState base)"] option.case_distrib [of "map_sum id (rebaseState base)"]
      sum.case_distrib [of "map_sum id (rebaseState base)"] prod.case_distrib [of "map_sum id (rebaseState base)"]
      cong: deepCong)

lemma runLoop_same:
  assumes "in_activeElapsed (st_input st) = spent"
  shows "runLoop fuel (e\<lparr>e_Elapsed := clock\<rparr>) i (rebaseState base st) = runLoop fuel e i st"
  using assms
proof (induction fuel arbitrary: i st)
  case 0
  then show ?case by (simp add: runLoop.simps)
next
  case (Suc fuel)
  have "in_activeElapsed (st_input st') = spent" if "loopBody e i st = Inr st'" for st'
    using loopBody_input(1) [OF that] Suc.prems by simp
  then show ?case
    using Suc by (simp add: runLoop.simps [of "Suc fuel"] loopBody_same split: sum.split)
qed

end



section \<open>Operation IDs\<close>

lemma takeWhile_digits: "list_all isDigit xs \<Longrightarrow> \<not> isDigit y \<Longrightarrow> takeWhile isDigit (xs @ y # ys) = xs"
  by (induction xs) auto

lemma takeWhile_digits_all: "list_all isDigit xs \<Longrightarrow> takeWhile isDigit xs = xs"
  by (induction xs) auto

lemma colon_not_digit [simp]: "\<not> isDigit CHR '':''"
  by (simp add: isDigit_def)

lemma showInt_nonneg: "0 \<le> i \<Longrightarrow> showInt i = showNat (nat i)"
  by (simp add: showInt_def)

text \<open>A printed number is read back, whatever follows it up to the next non-digit.\<close>

lemma digit_start:
  assumes "isDigit c"
  shows "spaceWidth (of_char c # rest) = 0" "c \<noteq> CHR ''-''" "c \<noteq> CHR ''+''" "of_char c \<noteq> (10 :: nat)"
  using assms by (auto simp: isDigit_def asciiSpace_def wideSpace_def split: list.splits)

lemma scanInt_showNat:
  assumes "int n \<le> maxInt" "rest = [] \<or> \<not> isDigit (hd rest)"
  shows "scanInt (showNat n @ rest) = Some (int n, rest)"
proof -
  obtain c cs where s: "showNat n = c # cs" by (cases "showNat n") auto
  have d: "list_all isDigit (showNat n)" by (rule showNat_digits)
  then have c: "isDigit c" using s by simp
  have drop: "dropSpaces (\<lambda>bytes. if bytes \<noteq> [] \<and> hd bytes = 10 then 0 else spaceWidth bytes) (showNat n @ rest)
      = showNat n @ rest"
    using digit_start [OF c] by (intro dropSpaces_step) (simp add: s)
  have tw: "takeWhile isDigit (showNat n @ rest) = showNat n"
    using assms(2) d takeWhile_digits [OF d] takeWhile_digits_all [OF d] by (cases rest) auto
  have "int64 (int n)" using assms(1) by (simp add: int64_def)
  then show ?thesis
    using digit_start(2,3) [OF c] by (simp add: scanInt_def Let_def drop tw) (simp add: s)
qed

lemma scanTurnCall_toolOperationID:
  assumes "0 \<le> turn" "turn \<le> maxInt" "0 \<le> slot" "slot \<le> maxInt"
  shows "scanTurnCall (toolOperationID turn slot) = Some (turn, slot)"
proof -
  have t: "scanInt (showNat (nat turn) @ '':call:'' @ showNat (nat slot))
      = Some (turn, '':call:'' @ showNat (nat slot))"
    using scanInt_showNat [of "nat turn" "'':call:'' @ showNat (nat slot)"] assms by simp
  have s: "scanInt (showNat (nat slot)) = Some (slot, [])"
    using scanInt_showNat [of "nat slot" "[]"] assms by simp
  show ?thesis using assms t s by (simp add: scanTurnCall_def toolOperationID_def showInt_nonneg)
qed

lemma scanOperationID_Some:
  assumes "scanOperationID s = Some (turn, slot)"
  shows "s = toolOperationID turn slot" "0 \<le> turn" "turn \<le> maxInt" "0 \<le> slot" "slot \<le> maxInt"
  using assms by (auto simp: scanOperationID_def Let_def split: if_splits)

section \<open>The transcript of a valid continuation\<close>

lemma analyzeCalls_max:
  "analyzeCalls k j calls seen m = Inr m' \<Longrightarrow> m \<le> m' \<and>
     (\<forall>call \<in> set calls. tc_OperationID call = [] \<or>
        (\<exists>turn slot. scanOperationID (tc_OperationID call) = Some (turn, slot) \<and> turn \<le> m'))"
proof (induction k j calls seen m rule: analyzeCalls.induct)
  case (2 k j call calls seen m)
  show ?case
  proof (cases "tc_OperationID call = []")
    case True
    then show ?thesis using 2(1) 2(3) by (auto split: if_splits)
  next
    case False
    then obtain turn slot where sc: "scanOperationID (tc_OperationID call) = Some (turn, slot)"
      "analyzeCalls k (Suc j) calls (insert (tc_ID call) seen) (max m turn) = Inr m'"
      using 2(3) by (auto split: if_splits option.splits prod.splits)
    then show ?thesis using 2(2) [of "(turn, slot)" turn slot] 2(3) False by (auto split: if_splits)
  qed
qed simp

lemma analyzeLoop_max:
  "analyzeLoop k msgs pending pi an = Inr an' \<Longrightarrow> ta_maxOperationTurn an \<le> ta_maxOperationTurn an' \<and>
     (\<forall>m \<in> set msgs. m_Role m = RoleAssistant \<longrightarrow> (\<forall>call \<in> set (m_ToolCalls m). tc_OperationID call = [] \<or>
        (\<exists>turn slot. scanOperationID (tc_OperationID call) = Some (turn, slot) \<and> turn \<le> ta_maxOperationTurn an')))"
proof (induction k msgs pending pi an rule: analyzeLoop.induct)
  case (2 k current rest pending pi an)
  show ?case
  proof (cases "pending = []")
    case False
    then show ?thesis using 2(1,2) 2(6) by (auto split: if_splits)
  next
    case True
    show ?thesis
    proof (cases "m_Role current = RoleAssistant \<and> m_ToolCalls current \<noteq> []")
      case False
      then show ?thesis using 2(3,4) 2(6) True by (auto simp: Let_def split: if_splits)
    next
      case called: True
      then obtain mt where mt: "analyzeCalls k 0 (m_ToolCalls current) {} (ta_maxOperationTurn an) = Inr mt"
        using 2(6) True by (auto simp: Let_def split: if_splits sum.splits)
      show ?thesis using 2(5) [OF _ _ _ refl _ mt] 2(6) True called mt analyzeCalls_max [OF mt]
        by (fastforce simp: Let_def)
    qed
  qed
qed auto


lemma nextTurnOfCalls_bound:
  assumes "n \<le> bound" "bound \<le> maxInt" "0 \<le> n"
    "\<And>call. call \<in> set calls \<Longrightarrow> tc_OperationID call = [] \<or>
       (\<exists>turn slot. scanOperationID (tc_OperationID call) = Some (turn, slot) \<and> turn < bound)"
  shows "nextTurnOfCalls calls n \<le> bound"
  using assms
proof (induction calls n rule: nextTurnOfCalls.induct)
  case (2 call calls n)
  let ?n = "case scanTurnCall (tc_OperationID call) of
          Some (turn, _) \<Rightarrow> if turn \<ge> n then wrap64 (turn + 1) else n | None \<Rightarrow> n"
  have "?n \<le> bound \<and> 0 \<le> ?n"
  proof (cases "tc_OperationID call = []")
    case True
    then show ?thesis using 2(2,4) by (simp add: scanTurnCall_def)
  next
    case False
    then obtain turn slot where t: "scanOperationID (tc_OperationID call) = Some (turn, slot)" "turn < bound"
      using 2(5) [of call] by auto
    note s = scanOperationID_Some [OF t(1)]
    have "scanTurnCall (tc_OperationID call) = Some (turn, slot)"
      using scanTurnCall_toolOperationID s by metis
    moreover have "wrap64 (turn + 1) = turn + 1"
      using s(2) t(2) 2(3) by (intro wrap64_in_range) (auto simp: int64_def)
    ultimately show ?thesis using t(2) s(2) 2(2,4) by simp
  qed
  then show ?case using 2(1) 2(3) 2(5) by simp
qed simp

text \<open>The operation turn of a valid continuation is not below what a scan of its history finds.\<close>

lemma nextToolOperationTurn_valid:
  assumes "ValidateContinuation jsonValid c = None" "c_NextOperationTurn c \<le> maxInt"
    and "\<And>m. m \<in> set (c_Messages c) \<Longrightarrow> m_ToolCalls m \<noteq> [] \<Longrightarrow> m_Role m = RoleAssistant"
  shows "nextToolOperationTurn (c_Messages c) \<le> c_NextOperationTurn c"
proof -
  obtain an completed cumulative where an: "analyzeTranscript (c_Messages c) = Inr an"
    and tot: "validateContinuationTotals c an completed cumulative = None"
    and sc: "validateContinuationScalars jsonValid c = None"
    using assms(1) by (auto simp: ValidateContinuation_def firstError_def split: if_splits option.splits sum.splits prod.splits)
  have below: "ta_maxOperationTurn an < c_NextOperationTurn c"
    using tot by (auto simp: validateContinuationTotals_def Let_def split: if_splits)
  have pos: "0 \<le> c_NextOperationTurn c" using sc by (auto simp: validateContinuationScalars_def split: if_splits)
  have "tc_OperationID call = [] \<or> (\<exists>turn slot. scanOperationID (tc_OperationID call) = Some (turn, slot) \<and> turn < c_NextOperationTurn c)"
    if call: "call \<in> set (concat (map m_ToolCalls (c_Messages c)))" for call
  proof -
    obtain m where m: "m \<in> set (c_Messages c)" "call \<in> set (m_ToolCalls m)" using call by auto
    then have "m_Role m = RoleAssistant" using assms(3) by fastforce
    then show ?thesis
      using analyzeLoop_max [OF an [unfolded analyzeTranscript_def]] m below by fastforce
  qed
  then show ?thesis
    unfolding nextToolOperationTurn_def using assms(2) pos by (intro nextTurnOfCalls_bound) auto
qed

section \<open>Reachable states of a run\<close>

inductive reaches :: "Engine \<Rightarrow> LoopInput \<Rightarrow> int \<Rightarrow> loopState \<Rightarrow> bool" for e input where
  start: "reaches e input (int (length (in_initialSteps input))) (initialState input)"
| pass: "reaches e input i st \<Longrightarrow> iterationAllowed (st_input st) i \<Longrightarrow> loopBody e i st = Inr st'
    \<Longrightarrow> reaches e input (i + 1) st'"

lemma reaches_inv:
  assumes "reaches e input i st"
  shows "sameLimits (st_input (initialState input)) (st_input st)" "i = int (length (st_steps st))" "st_turnsRun st = i"
  using assms
proof (induction rule: reaches.induct)
  case start
  show "sameLimits (st_input (initialState input)) (st_input (initialState input))"
    "int (length (in_initialSteps input)) = int (length (st_steps (initialState input)))"
    "st_turnsRun (initialState input) = int (length (in_initialSteps input))"
    by (simp_all add: initialState_simps)
next
  case (pass i st st')
  show "sameLimits (st_input (initialState input)) (st_input st')"
    using pass(4) loopBody_input(1) [OF pass(3)] by (auto simp: sameLimits_def)
  show "i + 1 = int (length (st_steps st'))" using loopBody_steps [OF pass(3)] pass(5) by auto
  show "st_turnsRun st' = i + 1" using loopBody_input(2) [OF pass(3)] .
qed

text \<open>The rest of a run from a reachable state is the run.\<close>

lemma runLoop_pass:
  assumes "iterationAllowed (st_input st) i" "loopBody e i st = Inr st'"
  shows "runLoop (Suc fuel) e i st = runLoop fuel e (i + 1) st'"
  using assms by (simp add: runLoop.simps [of "Suc fuel"])

lemma reaches_run:
  assumes "reaches e input i st"
  shows "\<exists>k. \<forall>fuel. runLoop (k + fuel) e (int (length (in_initialSteps input))) (initialState input) = runLoop fuel e i st"
  using assms
proof (induction rule: reaches.induct)
  case start
  show ?case by (rule exI [of _ 0]) simp
next
  case (pass i st st')
  then obtain k where k: "\<And>fuel. runLoop (k + fuel) e (int (length (in_initialSteps input))) (initialState input) = runLoop fuel e i st"
    by blast
  show ?case
    using k [of "Suc fuel" for fuel] runLoop_pass [OF pass(2,3)] by (intro exI [of _ "Suc k"]) simp
qed


section \<open>Boundaries\<close>

definition turnDone ::
    "Engine \<Rightarrow> int \<Rightarrow> loopState \<Rightarrow> Message list \<Rightarrow> Message \<Rightarrow> Usage \<Rightarrow> StopReason \<Rightarrow> StreamIdentity \<Rightarrow> bool" where
  "turnDone e i st prepared a usage stop identity \<longleftrightarrow>
     iterationAllowed (st_input st) i \<and> e_CtxErr e i 0 = None \<and> prepareTurn st i = Inr prepared \<and>
     observeBoundary e (st_input st) i prepared (st_usage st) (st_steps st) (st_toolCallsUsed st) ContinuationReady = None \<and>
     (\<exists>opened. runTurn e i prepared (st_input st) = (a, usage, stop, identity, opened, None))"

definition afterTurn :: "loopState \<Rightarrow> int \<Rightarrow> Message list \<Rightarrow> Usage \<Rightarrow> loopState" where
  "afterTurn st i prepared usage =
     st\<lparr>st_current := prepared, st_input := (st_input st)\<lparr>in_OperationTurn := in_OperationTurn (st_input st) + 1\<rparr>,
        st_usage := UsageAdd (st_usage st) usage, st_turnsRun := i + 1\<rparr>"

definition boundaryAt :: "Engine \<Rightarrow> int \<Rightarrow> loopState \<Rightarrow> Message list \<Rightarrow> Step list \<Rightarrow> ContinuationPhase \<Rightarrow> Continuation" where
  "boundaryAt e i s added steps phase =
     buildContinuation e (st_input s) i (st_current s @ added) (st_usage s) (st_steps s @ steps) (st_toolCallsUsed s) phase"

definition stamped :: "int \<Rightarrow> Message \<Rightarrow> Message" where
  "stamped turn a = a\<lparr>m_ToolCalls := assistantCalls turn 0 (m_ToolCalls a)\<rparr>"

inductive boundaryOf :: "Engine \<Rightarrow> int \<Rightarrow> loopState \<Rightarrow> Continuation \<Rightarrow> bool" for e i st where
  ready: "iterationAllowed (st_input st) i \<Longrightarrow> e_CtxErr e i 0 = None \<Longrightarrow> prepareTurn st i = Inr prepared \<Longrightarrow>
     prepareTurn (st\<lparr>st_current := prepared\<rparr>) i = Inr prepared \<Longrightarrow>
     boundaryOf e i st (boundaryAt e i (st\<lparr>st_current := prepared\<rparr>) [] [] ContinuationReady)"
| model_complete: "turnDone e i st prepared a usage stop identity \<Longrightarrow> m_ToolCalls a \<noteq> [] \<Longrightarrow>
     s = afterTurn st i prepared usage \<Longrightarrow>
     boundaryOf e i st (boundaryAt e i s [stamped (in_OperationTurn (st_input st)) a]
       [newStep i (newModelCall identity usage stop) StepDecisionContinue (st_usage s) (st_toolCallsUsed s)]
       ContinuationModelComplete)"
| tools_complete: "iterationAllowed (st_input st) i \<Longrightarrow> loopBody e i st = Inr s \<Longrightarrow>
     boundaryOf e i st (boundaryAt e i s [] [] ContinuationToolsComplete)"
| tools_finished: "turnDone e i st prepared a usage stop identity \<Longrightarrow> m_ToolCalls a \<noteq> [] \<Longrightarrow>
     runToolStep e (afterTurn st i prepared usage) a (newModelCall identity usage stop) i (in_OperationTurn (st_input st)) = (s, out, True, None) \<Longrightarrow>
     boundaryOf e i st (boundaryAt e i s [] [] ContinuationToolsComplete)"
| validating: "turnDone e i st prepared a usage stop identity \<Longrightarrow> m_ToolCalls a = [] \<Longrightarrow>
     m_Text a \<noteq> [] \<or> m_Thinking a \<noteq> [] \<Longrightarrow> s = afterTurn st i prepared usage \<Longrightarrow>
     finalizeNoToolStep e (st_input s) prepared a (newModelCall identity usage stop) (st_usage s) (st_steps s) stop i
       (st_toolCallsUsed s) = (current, steps, out, retry, err) \<Longrightarrow>
     retry \<longrightarrow> nextToolOperationTurn current \<le> in_OperationTurn (st_input s) \<Longrightarrow>
     boundaryOf e i st (boundaryAt e i s [a]
       [newStep i (newModelCall identity usage stop) StepDecisionFinish (st_usage s) (st_toolCallsUsed s)]
       ContinuationValidatingOutput)"

lemma boundaryAt_fields [simp]:
  "c_Messages (boundaryAt e i s added steps phase) = st_current s @ added"
  "c_Usage (boundaryAt e i s added steps phase) = st_usage s"
  "c_Steps (boundaryAt e i s added steps phase) = st_steps s @ steps"
  "c_ToolCallsUsed (boundaryAt e i s added steps phase) = st_toolCallsUsed s"
  "c_Phase (boundaryAt e i s added steps phase) = phase"
  "c_NextOperationTurn (boundaryAt e i s added steps phase) = in_OperationTurn (st_input s)"
  "c_Request (boundaryAt e i s added steps phase) = in_continuationRequest (st_input s)"
  "c_OutputPolicy (boundaryAt e i s added steps phase) = in_continuationPolicy (st_input s)"
  "c_RepairCount (boundaryAt e i s added steps phase) = in_repairCount (st_input s)"
  by (simp_all add: boundaryAt_def buildContinuation_def)

section \<open>Resuming\<close>

definition resumedEngine :: "Engine \<Rightarrow> LoopInput \<Rightarrow> Continuation \<Rightarrow> Engine" where
  "resumedEngine e input c =
     e\<lparr>e_Elapsed := \<lambda>j phase. in_activeElapsed input + e_Elapsed e j phase - c_ActiveElapsed c\<rparr>"

interpretation resumed: segment e "\<lambda>j phase. in_activeElapsed input + e_Elapsed e j phase - c_ActiveElapsed c"
  "resumeInput input c" "in_activeElapsed input" for e input c
  by unfold_locales (simp add: resumeInput_def)

definition explicitInput :: "LoopInput \<Rightarrow> bool" where
  "explicitInput input \<longleftrightarrow> in_ToolMode input \<noteq> ModeOther [] \<and> (in_UnlimitedIterations input \<or> in_MaxIterations input > 0)"

lemma initial_input:
  assumes "explicitInput input"
  shows "st_input (initialState input)
    = input\<lparr>in_OperationTurn := max (in_OperationTurn input) (nextToolOperationTurn (in_Messages input))\<rparr>"
  using assms by (auto simp: initialState_def Let_def explicitInput_def normalizeIterationPolicy_def)

lemma sameLimits_input:
  assumes "explicitInput input" "sameLimits (st_input (initialState input)) (st_input st)"
  shows "st_input st = input\<lparr>in_OperationTurn := in_OperationTurn (st_input st)\<rparr>"
  using assms by (auto simp: sameLimits_def initial_input)

text \<open>The loop input of a resumed run restores the state of the boundary.\<close>

lemma initialState_segment:
  assumes "explicitInput input" "st_input s = input\<lparr>in_OperationTurn := in_OperationTurn (st_input s)\<rparr>"
    "nextToolOperationTurn (st_current s) \<le> in_OperationTurn (st_input s)"
    "st_turnsRun s = int (length (st_steps s))"
    "next0 = (rebase base (st_input s))\<lparr>in_Messages := st_current s, in_initialUsage := st_usage s,
       in_initialSteps := st_steps s, in_initialToolCallsUsed := st_toolCallsUsed s\<rparr>"
  shows "initialState next0 = rebaseState next0 s"
proof -
  have turn: "max (in_OperationTurn (st_input s)) (nextToolOperationTurn (st_current s)) = in_OperationTurn (st_input s)"
    using assms(3) by simp
  have mode: "in_ToolMode (st_input s) = in_ToolMode input"
     "in_UnlimitedIterations (st_input s) = in_UnlimitedIterations input"
     "in_MaxIterations (st_input s) = in_MaxIterations input"
    by (subst assms(2), simp)+
  have "explicitInput next0" using assms(1) mode by (simp add: assms(5) explicitInput_def)
  then have "st_input (initialState next0) = rebase next0 (st_input s)"
    using turn by (simp add: initial_input) (simp add: assms(5) rebase_def)
  then show ?thesis
    using assms(4) by (intro loopState.equality) (simp_all add: initialState_simps assms(5))
qed


text \<open>The deferred function of \<^verbatim>\<open>RunMessages\<close>.\<close>

definition closeRun :: "LoopInput \<Rightarrow> duration \<Rightarrow> loopReturn \<Rightarrow> LoopOutput \<times> loopError option" where
  "closeRun input elapsed r =
     (case r of (out, err, turn) \<Rightarrow>
        (out\<lparr>lo_NextOperationTurn := turn, lo_ActiveElapsed := in_activeElapsed input + elapsed,
           lo_RepairCount := in_repairCount input\<rparr>, err))"

lemma RunMessages_closeRun:
  "RunMessages fuel e elapsed input
     = map_option (closeRun input elapsed) (runLoop fuel e (int (length (in_initialSteps input))) (initialState input))"
  unfolding RunMessages_def closeRun_def ..

text \<open>A run that resumes in the state \<open>s\<close> with the budget and the clock of an earlier segment.\<close>

definition segmentInput :: "LoopInput \<Rightarrow> Continuation \<Rightarrow> loopState \<Rightarrow> LoopInput" where
  "segmentInput input c s = continueFrom (resumeInput input c) (st_current s) (st_usage s) (st_steps s) (st_toolCallsUsed s)"

definition follows :: "LoopInput \<Rightarrow> Continuation \<Rightarrow> loopState \<Rightarrow> bool" where
  "follows input c s \<longleftrightarrow>
     explicitInput input \<and> st_input s = input\<lparr>in_OperationTurn := c_NextOperationTurn c\<rparr> \<and>
     c_Request c = in_continuationRequest input \<and> c_OutputPolicy c = in_continuationPolicy input \<and>
     c_RepairCount c = in_repairCount input"

lemma segmentInput_rebase:
  assumes "follows input c s"
  shows "rebase (segmentInput input c s) (st_input s) = segmentInput input c s"
    and "rebase (resumeInput input c) (st_input s) = resumeInput input c"
  using assms by (auto simp: follows_def segmentInput_def rebase_def continueFrom_def resumeInput_def)

lemma RunMessages_segment:
  assumes "follows input c s" "nextToolOperationTurn (st_current s) \<le> c_NextOperationTurn c"
    "st_turnsRun s = int (length (st_steps s))"
  shows "RunMessages fuel (resumedEngine e input c) (elapsed + in_activeElapsed input - c_ActiveElapsed c)
      (segmentInput input c s) = map_option (closeRun input elapsed) (runLoop fuel e (int (length (st_steps s))) s)"
proof -
  let ?next = "segmentInput input c s"
  have spent: "in_activeElapsed ?next = c_ActiveElapsed c" "in_repairCount ?next = in_repairCount input"
    "in_initialSteps ?next = st_steps s"
    using assms(1) by (simp_all add: segmentInput_def continueFrom_def resumeInput_def follows_def)
  have "?next = (rebase ?next (st_input s))\<lparr>in_Messages := st_current s, in_initialUsage := st_usage s,
       in_initialSteps := st_steps s, in_initialToolCallsUsed := st_toolCallsUsed s\<rparr>"
    using segmentInput_rebase(1) [OF assms(1)] by (simp add: segmentInput_def continueFrom_def)
  then have start: "initialState ?next = rebaseState ?next s"
    using assms by (intro initialState_segment [of input]) (auto simp: follows_def)
  have "segment e (\<lambda>j phase. in_activeElapsed input + e_Elapsed e j phase - c_ActiveElapsed c) ?next (in_activeElapsed input)"
    by unfold_locales (simp add: spent)
  moreover have "in_activeElapsed (st_input s) = in_activeElapsed input" using assms(1) by (simp add: follows_def)
  ultimately have "runLoop fuel (resumedEngine e input c) (int (length (st_steps s))) (initialState ?next)
      = runLoop fuel e (int (length (st_steps s))) s"
    unfolding start resumedEngine_def by (rule segment.runLoop_same)
  moreover have "closeRun ?next (elapsed + in_activeElapsed input - c_ActiveElapsed c) = closeRun input elapsed"
    by (rule ext) (simp add: closeRun_def spent add.commute)
  ultimately show ?thesis by (simp add: RunMessages_closeRun spent)
qed

lemma reaches_RunMessages:
  assumes "reaches e input i st"
  shows "\<exists>k. \<forall>fuel. RunMessages (k + fuel) e elapsed input = map_option (closeRun input elapsed) (runLoop fuel e i st)"
proof -
  obtain k where "\<And>fuel. runLoop (k + fuel) e (int (length (in_initialSteps input))) (initialState input) = runLoop fuel e i st"
    using reaches_run [OF assms] by blast
  then show ?thesis by (intro exI [of _ k]) (simp add: RunMessages_closeRun)
qed

lemma segmentInput_self:
  "c_Messages c = st_current s \<Longrightarrow> c_Usage c = st_usage s \<Longrightarrow> c_Steps c = st_steps s \<Longrightarrow>
   c_ToolCallsUsed c = st_toolCallsUsed s \<Longrightarrow> segmentInput input c s = resumeInput input c"
  by (simp add: segmentInput_def continueFrom_def resumeInput_def)

text \<open>Boundaries that are resumed by running the loop again.\<close>

lemma resume_running:
  assumes "follows input c s" "nextToolOperationTurn (st_current s) \<le> c_NextOperationTurn c"
    "st_turnsRun s = int (length (st_steps s))"
    "c_Messages c = st_current s" "c_Usage c = st_usage s" "c_Steps c = st_steps s" "c_ToolCallsUsed c = st_toolCallsUsed s"
    "c_Phase c = ContinuationReady
     \<or> c_Phase c = ContinuationToolsComplete \<and> s_Decision (last (c_Steps c)) = StepDecisionContinue"
  shows "resumeLoop fuel (resumedEngine e input c) (elapsed + in_activeElapsed input - c_ActiveElapsed c) (resumeInput input c) c
     = map_option (closeRun input elapsed) (runLoop fuel e (int (length (st_steps s))) s)"
  using RunMessages_segment [OF assms(1-3), of fuel e elapsed] assms(8)
  by (auto simp: segmentInput_self [OF assms(4-7)] resumeLoop_def resumeToolsComplete_def Let_def)

text \<open>Preparing a turn twice changes nothing when the first preparation is stable.\<close>

lemma runLoop_prepared:
  assumes "iterationAllowed (st_input st) i" "e_CtxErr e i 0 = None" "prepareTurn st i = Inr prepared"
    "prepareTurn (st\<lparr>st_current := prepared\<rparr>) i = Inr prepared"
  shows "runLoop fuel e i (st\<lparr>st_current := prepared\<rparr>) = runLoop fuel e i st"
proof -
  have "loopBody e i (st\<lparr>st_current := prepared\<rparr>) = loopBody e i st"
    using assms(2-4) by (simp add: loopBody_def Let_def)
  then show ?thesis using assms(1) by (simp add: runLoop.simps split: nat.split)
qed

lemma nextToolOperationTurn_results:
  "nextToolOperationTurn (messages @ map NewToolResult results) = nextToolOperationTurn messages"
proof -
  have none: "concat (map (m_ToolCalls \<circ> NewToolResult) results) = []"
    by (induction results) (simp_all add: NewToolResult_def Let_def zeroMessage_def)
  show ?thesis unfolding nextToolOperationTurn_def map_append concat_append map_map none append_Nil2 ..
qed

lemma assistantCalls_again [simp]: "assistantCalls turn slot (assistantCalls turn slot calls) = assistantCalls turn slot calls"
  by (induction turn slot calls rule: assistantCalls.induct) auto

lemma stamped_again: "stamped turn (stamped turn a) = stamped turn a"
  by (simp add: stamped_def)

lemma runToolStep_stamped: "runToolStep e st (stamped turn a) modelCall i turn = runToolStep e st a modelCall i turn"
  by (simp add: runToolStep_def stamped_def Let_def)

lemma runToolStep_turnsRun:
  "runToolStep e (st\<lparr>st_turnsRun := n\<rparr>) a modelCall i turn
     = map_prod (\<lambda>s. s\<lparr>st_turnsRun := n\<rparr>) id (runToolStep e st a modelCall i turn)"
  by (cases st) (simp add: runToolStep_def Let_def
      if_distrib [of "map_prod (\<lambda>s. s\<lparr>st_turnsRun := n\<rparr>) id"] option.case_distrib [of "map_prod (\<lambda>s. s\<lparr>st_turnsRun := n\<rparr>) id"]
      sum.case_distrib [of "map_prod (\<lambda>s. s\<lparr>st_turnsRun := n\<rparr>) id"] prod.case_distrib [of "map_prod (\<lambda>s. s\<lparr>st_turnsRun := n\<rparr>) id"]
      cong: deepCong)

lemma loopBody_turnDone:
  assumes "turnDone e i st prepared a usage stop identity"
  shows "loopBody e i st =
    (let s = afterTurn st i prepared usage; modelCall = newModelCall identity usage stop; turn = in_OperationTurn (st_input s)
     in if m_ToolCalls a = [] then
          (case finalizeNoToolStep e (st_input s) prepared a modelCall (st_usage s) (st_steps s) stop i (st_toolCallsUsed s) of
             (current, steps, out, retry, err) \<Rightarrow>
               if retry then Inr (s\<lparr>st_current := current, st_steps := steps\<rparr>) else Inl (out, err, turn))
        else (case runToolStep e s a modelCall i (turn - 1) of
                (s1, out, stop, err) \<Rightarrow> if stop then Inl (out, err, turn) else Inr s1))"
  using assms by (auto simp: turnDone_def loopBody_def afterTurn_def Let_def split: prod.split)


text \<open>A crash after the model call: the tool step is repeated with the operation IDs it had.\<close>

lemma runToolStep_resumed:
  assumes "follows input c s"
  shows "runToolStep (resumedEngine e input c)
      \<lparr>st_input = resumeInput input c, st_current = st_current s, st_usage = st_usage s, st_steps = st_steps s,
       st_toolCallsUsed = st_toolCallsUsed s, st_turnsRun = n\<rparr> (stamped turn a) modelCall i turn
    = map_prod (\<lambda>s. (rebaseState (resumeInput input c) s)\<lparr>st_turnsRun := n\<rparr>) id (runToolStep e s a modelCall i turn)"
proof -
  have "\<lparr>st_input = resumeInput input c, st_current = st_current s, st_usage = st_usage s, st_steps = st_steps s,
       st_toolCallsUsed = st_toolCallsUsed s, st_turnsRun = n\<rparr> = (rebaseState (resumeInput input c) s)\<lparr>st_turnsRun := n\<rparr>"
    using segmentInput_rebase(2) [OF assms] by (intro loopState.equality) simp_all
  moreover have "in_activeElapsed (st_input s) = in_activeElapsed input" using assms by (simp add: follows_def)
  ultimately show ?thesis
    unfolding resumedEngine_def runToolStep_stamped
    by (simp only: runToolStep_turnsRun resumed.runToolStep_same) (simp add: prod.map_comp comp_def id_def)
qed

lemma resume_model_complete:
  assumes "follows input c s" "nextToolOperationTurn (c_Messages c) \<le> c_NextOperationTurn c"
    "st_turnsRun s = i + 1" "i = int (length (st_steps s))"
    "c = boundaryAt e i s [stamped turn a] [newStep i modelCall StepDecisionContinue u t] ContinuationModelComplete"
    "m_ToolCalls a \<noteq> []" "c_NextOperationTurn c = turn + 1" "0 \<le> turn" "turn \<le> maxInt"
  shows "resumeLoop fuel (resumedEngine e input c) (elapsed + in_activeElapsed input - c_ActiveElapsed c) (resumeInput input c) c
     = map_option (closeRun input elapsed)
         (case runToolStep e s a modelCall i turn of
            (s1, out, stop, err) \<Rightarrow> if stop then Some (out, err, turn + 1) else runLoop fuel e (i + 1) s1)"
proof -
  let ?e = "resumedEngine e input c" and ?el = "elapsed + in_activeElapsed input - c_ActiveElapsed c"
    and ?in = "resumeInput input c"
  obtain call calls where calls: "m_ToolCalls a = call # calls" using assms(6) by (cases "m_ToolCalls a") auto
  have scan: "scanTurnCall (tc_OperationID (hd (m_ToolCalls (stamped turn a)))) = Some (turn, 0)"
    using scanTurnCall_toolOperationID [of turn 0] assms(8,9) by (simp add: stamped_def calls maxInt_def)
  obtain s1 out stop err where step: "runToolStep e s a modelCall i turn = (s1, out, stop, err)" by (metis prod_cases4)
  have msgs: "c_Messages c = st_current s @ [stamped turn a]" "c_Steps c = st_steps s @ [newStep i modelCall StepDecisionContinue u t]"
    "c_Usage c = st_usage s" "c_ToolCallsUsed c = st_toolCallsUsed s" "c_Phase c = ContinuationModelComplete"
    by (simp_all add: assms(5))
  have resumed: "resumeLoop fuel ?e ?el ?in c =
      (if stop \<or> err \<noteq> None then Some (decorateResumedOutput out ?in ?el, err)
       else RunMessages fuel ?e ?el (segmentInput input c s1))"
    using scan msgs runToolStep_resumed [OF assms(1), of e i turn a modelCall i, unfolded step]
    by (simp add: resumeLoop_def resumeModelComplete_def Let_def newStep_def segmentInput_def)
  show ?thesis
  proof (cases stop)
    case True
    have "decorateResumedOutput out ?in ?el = fst (closeRun input elapsed (out, err, turn + 1))"
      using assms(1,7) by (simp add: decorateResumedOutput_def closeRun_def resumeInput_def follows_def)
    then show ?thesis using True by (simp add: resumed step closeRun_def)
  next
    case False
    then have "runToolStep e s a modelCall i turn = (s1, out, False, err)" using step by simp
    then obtain results where err: "err = None" and s1: "st_input s1 = st_input s" "st_turnsRun s1 = i + 1"
        "int (length (st_steps s1)) = i + 1" and cur: "st_current s1 = (st_current s @ [stamped turn a]) @ map NewToolResult results"
      by (rule runToolStep_continue) (use assms(3,4) that in \<open>simp add: stamped_def\<close>)
    have "nextToolOperationTurn (st_current s1) \<le> c_NextOperationTurn c"
      using assms(2) by (simp only: cur nextToolOperationTurn_results msgs(1))
    moreover have "follows input c s1" using assms(1) s1(1) by (simp add: follows_def)
    ultimately show ?thesis
      using RunMessages_segment [of input c s1 fuel e elapsed] s1 False err by (simp add: resumed step)
  qed
qed


lemma resume_validating:
  assumes "follows input c s"
    "c = boundaryAt e i s [a] [newStep i modelCall StepDecisionFinish u t] ContinuationValidatingOutput"
    "mc_StopReason modelCall = stop"
    "finalizeNoToolStep e (st_input s) (st_current s) a modelCall (st_usage s) (st_steps s) stop i
       (st_toolCallsUsed s) = (current, steps, out, retry, err)"
    "retry \<longrightarrow> nextToolOperationTurn current \<le> c_NextOperationTurn c"
    "st_turnsRun s = i + 1" "i = int (length (st_steps s))"
  shows "resumeLoop fuel (resumedEngine e input c) (elapsed + in_activeElapsed input - c_ActiveElapsed c) (resumeInput input c) c
     = map_option (closeRun input elapsed)
         (if retry then runLoop fuel e (i + 1) (s\<lparr>st_current := current, st_steps := steps\<rparr>)
          else Some (out, err, c_NextOperationTurn c))"
proof -
  let ?e = "resumedEngine e input c" and ?el = "elapsed + in_activeElapsed input - c_ActiveElapsed c"
    and ?in = "resumeInput input c" and ?s = "s\<lparr>st_current := current, st_steps := steps\<rparr>"
  have spent: "in_activeElapsed (st_input s) = in_activeElapsed input" using assms(1) by (simp add: follows_def)
  have "finalizeNoToolStep ?e ?in (st_current s) a modelCall (st_usage s)
      (st_steps s) stop i (st_toolCallsUsed s) = (current, steps, out, retry, err)"
    using resumed.finalizeNoToolStep_same [OF spent] segmentInput_rebase(2) [OF assms(1)] assms(4)
    unfolding resumedEngine_def by metis
  moreover have "c_Messages c = st_current s @ [a]" "c_Usage c = st_usage s" "c_ToolCallsUsed c = st_toolCallsUsed s"
    "c_Steps c = st_steps s @ [newStep i modelCall StepDecisionFinish u t]" "c_Phase c = ContinuationValidatingOutput"
    by (simp_all add: assms(2))
  ultimately have resumed: "resumeLoop fuel ?e ?el ?in c =
      (if err \<noteq> None \<or> \<not> retry then Some (decorateResumedOutput out ?in ?el, err) else RunMessages fuel ?e ?el (segmentInput input c ?s))"
    using assms(3) by (simp add: resumeLoop_def resumeValidatingOutput_def Let_def newStep_def segmentInput_def)
  show ?thesis
  proof (cases retry)
    case True
    have "err = None" "steps = st_steps s @ [newStep i modelCall StepDecisionContinue (st_usage s) (st_toolCallsUsed s)]"
      by (rule finalizeNoToolStep_continue [OF assms(4) [unfolded True [THEN eqTrueI]]], simp)+
    moreover have "follows input c ?s" using assms(1) by (simp add: follows_def)
    ultimately show ?thesis
      using RunMessages_segment [of input c ?s fuel e elapsed] assms(5-7) True by (simp add: resumed add.commute)
  next
    case False
    have "decorateResumedOutput out ?in ?el = fst (closeRun input elapsed (out, err, c_NextOperationTurn c))"
      using assms(1) by (simp add: decorateResumedOutput_def closeRun_def resumeInput_def follows_def)
    then show ?thesis using False by (simp add: resumed closeRun_def)
  qed
qed

text \<open>A crash after a tool step that ends the run: the output is rebuilt from the continuation.\<close>

lemma finalizeToolStep_finished:
  assumes "finalizeToolStep e input current usage (steps @ [step]) a results term0 i used = (steps', out, True, None)"
  shows "out = zeroOutput\<lparr>lo_Messages := current, lo_Usage := usage, lo_StopReason := StopReasonComplete, lo_Iterations := i + 1,
      lo_Thinking := m_Thinking a, lo_Steps := steps', lo_ToolCallsUsed := used\<rparr>
    \<and> length steps' = Suc (length steps) \<and> s_Decision (last steps') = StepDecisionFinish"
  using assms
  by (auto simp: finalizeToolStep_def stepDecisionOverride_def Let_def errorsJoin_None
      split: prod.splits option.splits sum.splits if_splits StepDecision.splits)

lemma runToolStep_finished:
  assumes "runToolStep e st a modelCall i turn = (s, out, True, None)"
  obtains results where "st_input s = st_input st" "length (st_steps s) = Suc (length (st_steps st))"
    "s_Decision (last (st_steps s)) = StepDecisionFinish"
    "st_current s = (st_current st @ [stamped turn a]) @ map NewToolResult results"
    "out = zeroOutput\<lparr>lo_Messages := st_current s, lo_Usage := st_usage s, lo_StopReason := StopReasonComplete, lo_Iterations := i + 1,
      lo_Thinking := m_Thinking a, lo_Steps := st_steps s, lo_ToolCallsUsed := st_toolCallsUsed s\<rparr>"
  using assms
  by (auto simp: runToolStep_def Let_def newStep_def errorsJoin_None budgetAbort_def stamped_def
      split: prod.splits option.splits sum.splits if_splits
      dest!: finalizeToolStep_finished appendToolResults_ok)

lemma continuationThinking_results:
  "m_Role a = RoleAssistant \<Longrightarrow> continuationThinking ((messages @ [a]) @ map NewToolResult results) = m_Thinking a"
proof (induction results rule: rev_induct)
  case (snoc result results)
  then show ?case by (simp add: continuationThinking_def NewToolResult_def Let_def zeroMessage_def)
qed (simp add: continuationThinking_def)

lemma resume_finished:
  assumes "follows input c s" "c = boundaryAt e i s [] [] ContinuationToolsComplete" "s_Decision (last (st_steps s)) = StepDecisionFinish"
    "st_steps s \<noteq> []" "int (length (st_steps s)) = i + 1" "continuationThinking (st_current s) = thinking"
    "out = zeroOutput\<lparr>lo_Messages := st_current s, lo_Usage := st_usage s, lo_StopReason := StopReasonComplete, lo_Iterations := i + 1,
      lo_Thinking := thinking, lo_Steps := st_steps s, lo_ToolCallsUsed := st_toolCallsUsed s\<rparr>"
  shows "resumeLoop fuel (resumedEngine e input c) (elapsed + in_activeElapsed input - c_ActiveElapsed c) (resumeInput input c) c
     = Some (closeRun input elapsed (out, None, c_NextOperationTurn c))"
proof -
  have c: "c_Messages c = st_current s" "c_Usage c = st_usage s" "c_ToolCallsUsed c = st_toolCallsUsed s"
    "c_Steps c = st_steps s" "c_Phase c = ContinuationToolsComplete"
    by (simp_all add: assms(2))
  then have "continuationStopReason c = StopReasonComplete" using assms(3,4) by (simp add: continuationStopReason_def Let_def)
  then have "decorateResumedOutput (continuationOutput c) (resumeInput input c) (elapsed + in_activeElapsed input - c_ActiveElapsed c)
      = fst (closeRun input elapsed (out, None, c_NextOperationTurn c))"
    using assms(1,5,6) c
    by (simp add: decorateResumedOutput_def closeRun_def resumeInput_def follows_def continuationOutput_def assms(7) zeroOutput_def)
  then show ?thesis using c assms(3) by (simp add: resumeLoop_def resumeToolsComplete_def Let_def closeRun_def)
qed

section \<open>Crash and resume\<close>

lemma follows_boundary:
  assumes "explicitInput input" "st_input s = input\<lparr>in_OperationTurn := in_OperationTurn (st_input s)\<rparr>"
  shows "follows input (boundaryAt e i s added steps phase) s"
proof -
  have "in_continuationRequest (st_input s) = in_continuationRequest input"
    "in_continuationPolicy (st_input s) = in_continuationPolicy input" "in_repairCount (st_input s) = in_repairCount input"
    by (subst assms(2), simp)+
  then show ?thesis using assms by (simp add: follows_def)
qed

lemma valid_turn_follows_steps:
  "ValidateContinuation jsonValid c = None \<Longrightarrow> int (length (c_Steps c)) \<le> c_NextOperationTurn c"
  by (auto simp: ValidateContinuation_def validateContinuationSteps_def Let_def
      split: if_splits option.splits sum.splits prod.splits)

lemma advanced_input:
  assumes "st_input st = input\<lparr>in_OperationTurn := in_OperationTurn (st_input st)\<rparr>"
    "st_input s = (st_input st)\<lparr>in_OperationTurn := in_OperationTurn (st_input st) + 1\<rparr>"
  shows "st_input s = input\<lparr>in_OperationTurn := in_OperationTurn (st_input s)\<rparr>"
  unfolding assms(2) by (subst assms(1)) simp

text \<open>The rest of the run after a boundary: what is resumed is the original run from the pass on.\<close>

lemma resume_boundary:
  assumes st: "explicitInput input" "st_input st = input\<lparr>in_OperationTurn := in_OperationTurn (st_input st)\<rparr>"
      "i = int (length (st_steps st))" "st_turnsRun st = i"
    and c: "boundaryOf e i st c" "ValidateContinuation (e_jsonValid e) c = None" "c_NextOperationTurn c \<le> maxInt"
      "nextToolOperationTurn (c_Messages c) \<le> c_NextOperationTurn c"
  shows "\<exists>n. \<forall>fuel. resumeLoop fuel (resumedEngine e input c) (elapsed + in_activeElapsed input - c_ActiveElapsed c)
      (resumeInput input c) c = map_option (closeRun input elapsed) (runLoop (n + fuel) e i st)"
  using c(1)
proof cases
  case (ready prepared)
  let ?s = "st\<lparr>st_current := prepared\<rparr>"
  have "follows input c ?s" unfolding ready(1) using st(1,2) by (intro follows_boundary) simp_all
  then show ?thesis
    using resume_running [of input c ?s _ e elapsed] runLoop_prepared [OF ready(2-5)] c(4) st(3,4)
    by (intro exI [of _ 0]) (simp add: ready(1))
next
  case (model_complete prepared a usage stop identity s)
  let ?turn = "in_OperationTurn (st_input st)" and ?mc = "newModelCall identity usage stop"
  have s: "st_input s = (st_input st)\<lparr>in_OperationTurn := ?turn + 1\<rparr>" "st_current s = prepared" "st_steps s = st_steps st"
    "st_turnsRun s = i + 1"
    by (simp_all add: model_complete(4) afterTurn_def)
  have fol: "follows input c s" unfolding model_complete(1) using follows_boundary [OF st(1) advanced_input [OF st(2) s(1)]] .
  have turn: "c_NextOperationTurn c = ?turn + 1" "0 \<le> ?turn" "?turn \<le> maxInt"
    using valid_turn_follows_steps [OF c(2)] c(3) by (simp_all add: model_complete(1) s)
  have allowed: "iterationAllowed (st_input st) i" using model_complete(2) by (simp add: turnDone_def)
  have "loopBody e i st = (case runToolStep e s a ?mc i ?turn of
      (s1, out, stop, err) \<Rightarrow> if stop then Inl (out, err, ?turn + 1) else Inr s1)"
    using loopBody_turnDone [OF model_complete(2)] model_complete(3)
    by (simp add: Let_def s model_complete(4) [symmetric] split: prod.split)
  then have "runLoop (Suc fuel) e i st = (case runToolStep e s a ?mc i ?turn of
      (s1, out, stop, err) \<Rightarrow> if stop then Some (out, err, ?turn + 1) else runLoop fuel e (i + 1) s1)" for fuel
    using allowed by (simp add: runLoop.simps [of "Suc fuel"] split: prod.split)
  then show ?thesis
    using resume_model_complete [OF fol c(4) s(4) _ model_complete(1) model_complete(3) turn, of _ elapsed] st(3) s(3)
    by (intro exI [of _ 1]) simp
next
  case (tools_complete s)
  note body = tools_complete(3)
  have s: "st_input s = (st_input st)\<lparr>in_OperationTurn := in_OperationTurn (st_input st) + 1\<rparr>" "st_turnsRun s = i + 1"
    using loopBody_input [OF body] .
  obtain step where step: "st_steps s = st_steps st @ [step]" "s_Decision step = StepDecisionContinue"
    using loopBody_steps [OF body] by blast
  have fol: "follows input c s" unfolding tools_complete(1) using follows_boundary [OF st(1) advanced_input [OF st(2) s(1)]] .
  have "int (length (st_steps s)) = i + 1" using step(1) st(3) by simp
  then show ?thesis
    using resume_running [OF fol, of _ e elapsed] c(4) s(2) step runLoop_pass [OF tools_complete(2) body]
    by (intro exI [of _ 1]) (simp add: tools_complete(1) add.commute)
next
  case (tools_finished prepared a usage stop identity s out)
  let ?turn = "in_OperationTurn (st_input st)" and ?s0 = "afterTurn st i prepared usage"
  have s0: "st_input ?s0 = (st_input st)\<lparr>in_OperationTurn := ?turn + 1\<rparr>" "st_steps ?s0 = st_steps st"
    by (simp_all add: afterTurn_def)
  obtain results where f: "st_input s = st_input ?s0" "length (st_steps s) = Suc (length (st_steps ?s0))"
    "s_Decision (last (st_steps s)) = StepDecisionFinish"
    "st_current s = (st_current ?s0 @ [stamped ?turn a]) @ map NewToolResult results"
    "out = zeroOutput\<lparr>lo_Messages := st_current s, lo_Usage := st_usage s, lo_StopReason := StopReasonComplete, lo_Iterations := i + 1,
      lo_Thinking := m_Thinking a, lo_Steps := st_steps s, lo_ToolCallsUsed := st_toolCallsUsed s\<rparr>"
    by (rule runToolStep_finished [OF tools_finished(4)])
  have input: "st_input s = (st_input st)\<lparr>in_OperationTurn := ?turn + 1\<rparr>" using f(1) s0(1) by simp
  have fol: "follows input c s" unfolding tools_finished(1) using follows_boundary [OF st(1) advanced_input [OF st(2) input]] .
  have "m_Role (stamped ?turn a) = RoleAssistant" "m_Thinking (stamped ?turn a) = m_Thinking a"
    using runTurn_answerable tools_finished(2) by (auto simp: turnDone_def answerable_def stamped_def)
  then have thinking: "continuationThinking (st_current s) = m_Thinking a" unfolding f(4) by (simp only: continuationThinking_results)
  have steps: "st_steps s \<noteq> []" "int (length (st_steps s)) = i + 1" using f(2) s0(2) st(3) by auto
  have "loopBody e i st = Inl (out, None, ?turn + 1)"
    using loopBody_turnDone [OF tools_finished(2)] tools_finished(3,4) by (simp add: Let_def s0(1))
  moreover have "iterationAllowed (st_input st) i" using tools_finished(2) by (simp add: turnDone_def)
  ultimately have "runLoop (Suc fuel) e i st = Some (out, None, ?turn + 1)" for fuel
    by (simp add: runLoop.simps [of "Suc fuel"])
  then show ?thesis
    using resume_finished [OF fol tools_finished(1) f(3) steps thinking f(5), of _ elapsed] input
    by (intro exI [of _ 1]) (simp add: tools_finished(1))
next
  case (validating prepared a usage stop identity s current steps out retry err)
  let ?turn = "in_OperationTurn (st_input st)"
  have s: "st_input s = (st_input st)\<lparr>in_OperationTurn := ?turn + 1\<rparr>" "st_current s = prepared" "st_steps s = st_steps st" "st_turnsRun s = i + 1"
    by (simp_all add: validating(5) afterTurn_def)
  have fol: "follows input c s" unfolding validating(1) using follows_boundary [OF st(1) advanced_input [OF st(2) s(1)]] .
  have turn: "c_NextOperationTurn c = ?turn + 1" by (simp add: validating(1) s(1))
  have "loopBody e i st = (if retry then Inr (s\<lparr>st_current := current, st_steps := steps\<rparr>) else Inl (out, err, ?turn + 1))"
    using loopBody_turnDone [OF validating(2)] validating(3,6) by (simp add: Let_def s validating(5) [symmetric])
  moreover have "iterationAllowed (st_input st) i" using validating(2) by (simp add: turnDone_def)
  ultimately have "runLoop (Suc fuel) e i st =
      (if retry then runLoop fuel e (i + 1) (s\<lparr>st_current := current, st_steps := steps\<rparr>) else Some (out, err, ?turn + 1))" for fuel
    by (simp add: runLoop.simps [of "Suc fuel"])
  moreover have "retry \<longrightarrow> nextToolOperationTurn current \<le> c_NextOperationTurn c" using validating(7) turn s(1) by simp
  ultimately show ?thesis
    using resume_validating [OF fol validating(1), of stop current steps out retry err _ elapsed] validating(6) s st(3) turn
    by (intro exI [of _ 1]) (simp add: newModelCall_def)
qed

section \<open>Defaulted inputs\<close>

text \<open>The input with the defaults \<^verbatim>\<open>RunMessages\<close> fills in.\<close>

definition explicitOf :: "LoopInput \<Rightarrow> LoopInput" where
  "explicitOf input =
     (let normalized = normalizeIterationPolicy input
      in if in_ToolMode normalized = ModeOther [] then normalized\<lparr>in_ToolMode := ModeSequential\<rparr> else normalized)"

lemma explicitOf_explicit: "explicitInput (explicitOf input)"
  by (simp add: explicitInput_def explicitOf_def Let_def normalizeIterationPolicy_def)

lemma explicitOf_fields [simp]:
  "in_initialSteps (explicitOf input) = in_initialSteps input" "in_activeElapsed (explicitOf input) = in_activeElapsed input"
  "in_repairCount (explicitOf input) = in_repairCount input" "in_OperationTurn (explicitOf input) = in_OperationTurn input"
  by (simp_all add: explicitOf_def Let_def normalizeIterationPolicy_def)

lemma initialState_explicit [simp]: "initialState (explicitOf input) = initialState input"
  by (simp add: initialState_def explicitOf_def normalizeIterationPolicy_def Let_def)

lemma RunMessages_explicit [simp]: "RunMessages fuel e elapsed (explicitOf input) = RunMessages fuel e elapsed input"
  by (simp add: RunMessages_def)

lemma reaches_explicit: "reaches e input i st \<Longrightarrow> reaches e (explicitOf input) i st"
proof (induction rule: reaches.induct)
  case start
  show ?case using reaches.start [of e "explicitOf input"] by simp
qed (rule reaches.pass)

lemma resumeInput_explicit: "resumeInput (explicitOf input) c = explicitOf (resumeInput input c)"
  by (simp add: resumeInput_def explicitOf_def normalizeIterationPolicy_def Let_def)

lemma resumedEngine_explicit [simp]: "resumedEngine e (explicitOf input) c = resumedEngine e input c"
  by (simp add: resumedEngine_def)

lemma resumeLoop_explicit:
  assumes "c_Phase c = ContinuationReady \<or> c_Phase c = ContinuationToolsComplete"
  shows "resumeLoop fuel e elapsed (explicitOf input) c = resumeLoop fuel e elapsed input c"
  using assms
  by (cases "s_Decision (last (c_Steps c))") (auto simp: resumeLoop_def resumeToolsComplete_def Let_def decorateResumedOutput_def)

end
