(* ===== verification/Output_Policy_Laws.thy ===== *)
theory Output_Policy_Laws
  imports Complex_Main Output_Policy
begin

text \<open>
  What structured-output validation accepts: the values of JSON numbers as rationals, the equality of JSON
  values, the types of the supported subset of JSON Schema and the predicate \<open>conforms\<close>, all without a
  function of the validator, and the equivalence of the validator with them.
\<close>

section \<open>Numbers\<close>

text \<open>The rational a JSON number stands for; \<open>None\<close> where \<^verbatim>\<open>big.Rat.SetString\<close> gives up on the exponent.\<close>

definition numberValue :: "string \<Rightarrow> rat option" where
  "numberValue s = map_option (\<lambda>(m, scale). of_int m * 10 powi scale) (setString s)"

text \<open>The text of a JSON number: sign, digits, fraction and exponent.\<close>

definition numberText :: "bool \<Rightarrow> string \<Rightarrow> string \<Rightarrow> (char \<times> string \<times> string) option \<Rightarrow> string" where
  "numberText negative whole fraction exponent =
     (if negative then ''-'' else []) @ whole @ (if fraction = [] then [] else ''.'' @ fraction)
     @ (case exponent of None \<Rightarrow> [] | Some (e, sign, digits) \<Rightarrow> e # sign @ digits)"

lemma takeWhile_isDigit: "list_all isDigit xs \<Longrightarrow> ys = [] \<or> \<not> isDigit (hd ys) \<Longrightarrow> takeWhile isDigit (xs @ ys) = xs"
  by (induction xs) (auto simp: takeWhile_eq_Nil_iff)

lemma splitNumber_text:
  assumes "list_all isDigit whole" "whole \<noteq> []" "list_all isDigit fraction"
    and "case exponent of None \<Rightarrow> True | Some (e, sign, digits) \<Rightarrow> e \<in> {CHR ''e'', CHR ''E''} \<and> sign \<in> {[], ''+'', ''-''} \<and> list_all isDigit digits \<and> digits \<noteq> []"
  shows "splitNumber (numberText negative whole fraction exponent) =
    (negative, whole, fraction, (case exponent of None \<Rightarrow> False | Some (e, sign, digits) \<Rightarrow> sign = ''-''),
     (case exponent of None \<Rightarrow> [] | Some (e, sign, digits) \<Rightarrow> digits))"
proof -
  let ?exp = "case exponent of None \<Rightarrow> [] | Some (e, sign, digits) \<Rightarrow> e # sign @ digits"
  let ?rest = "(if fraction = [] then [] else ''.'' @ fraction) @ ?exp"
  obtain c cs where w: "whole = c # cs" "isDigit c" using assms(1,2) by (cases whole) auto
  have minus: "c \<noteq> CHR ''-''" using w(2) by (auto simp: isDigit_def)
  have exp: "?exp = [] \<or> \<not> isDigit (hd ?exp)" "?exp = [] \<or> hd ?exp \<noteq> CHR ''.''"
    using assms(4) by (auto simp: isDigit_def split: option.splits)
  then have "?rest = [] \<or> \<not> isDigit (hd ?rest)" by (auto simp: isDigit_def)
  then have whole: "takeWhile isDigit (whole @ ?rest) = whole" by (rule takeWhile_isDigit [OF assms(1)])
  have frac: "takeWhile isDigit (fraction @ ?exp) = fraction" by (rule takeWhile_isDigit [OF assms(3) exp(1)])
  have digits: "filter isDigit digits = digits" if "list_all isDigit digits" for digits
    using that by (simp add: list_all_iff)
  have unsigned: "(if negative then tl (numberText negative whole fraction exponent) else numberText negative whole fraction exponent) = whole @ ?rest"
    "(numberText negative whole fraction exponent \<noteq> [] \<and> hd (numberText negative whole fraction exponent) = CHR ''-'') = negative"
    using minus w(1) by (simp_all add: numberText_def)
  have nondigit: "\<not> isDigit CHR ''-''" "\<not> isDigit CHR ''+''" by (simp_all add: isDigit_def)
  have expNegative: "(sign @ digits \<noteq> [] \<and> hd (sign @ digits) = CHR ''-'') = (sign = ''-'')"
    if "sign \<in> {[], ''+'', ''-''}" "list_all isDigit digits" for sign digits
    using that by (cases digits) (auto simp: isDigit_def)
  have rest: "drop (length whole) (whole @ ?rest) = ?rest" by simp
  have fraction: "(if ?rest \<noteq> [] \<and> hd ?rest = CHR ''.'' then takeWhile isDigit (tl ?rest) else []) = fraction"
    using exp(2) frac by (cases "fraction = []") auto
  have expPart: "(if ?rest \<noteq> [] \<and> hd ?rest = CHR ''.'' then drop (Suc (length fraction)) ?rest else ?rest) = ?exp"
    using exp(2) by (cases "fraction = []") auto
  have split: "splitNumber (numberText negative whole fraction exponent) = (negative, whole, fraction,
      (tl ?exp \<noteq> [] \<and> hd (tl ?exp) = CHR ''-''), filter isDigit (tl ?exp))"
    unfolding splitNumber_def Let_def unsigned whole rest fraction expPart ..
  show ?thesis
  proof (cases exponent)
    case (Some exponent0)
    obtain e sign digits where e: "exponent = Some (e, sign, digits)" using Some by (cases exponent0) simp
    have sign: "sign \<in> {[], ''+'', ''-''}" and d: "list_all isDigit digits" using assms(4) by (auto simp: e)
    have "filter isDigit (sign @ digits) = digits" using sign digits [OF d] nondigit by auto
    then show ?thesis unfolding split using expNegative [OF sign d] by (simp add: e)
  qed (use split in simp)
qed

lemma scaled_power: "k \<le> s \<Longrightarrow> (of_int m * 10 powi s :: rat) = of_int (m * 10 ^ nat (s - k)) * 10 powi k"
  by (simp add: power_int_add flip: power_int_of_nat) (simp flip: power_int_add)

lemma integer_scaled: "(of_int m * 10 powi scale :: rat) \<in> \<int> \<longleftrightarrow> scale \<ge> 0 \<or> 10 ^ nat (- scale) dvd m"
proof (cases "scale \<ge> 0")
  case True
  then have "(of_int m * 10 powi scale :: rat) = of_int (m * 10 ^ nat scale)" using scaled_power [of 0 scale m] by (simp only: diff_zero power_int_0_right mult_1_right)
  then have "(of_int m * 10 powi scale :: rat) \<in> \<int>" by (simp only: Ints_of_int)
  then show ?thesis using True by blast
next
  case False
  have split: "(of_int m * 10 powi scale :: rat) = of_int m / of_int (10 ^ nat (- scale))"
    using False by (simp add: power_int_def divide_simps)
  show ?thesis
  proof
    assume "(of_int m * 10 powi scale :: rat) \<in> \<int>"
    then obtain k where "(of_int m / of_int (10 ^ nat (- scale)) :: rat) = of_int k" unfolding split by (elim Ints_cases)
    then have "(of_int m :: rat) = of_int (k * 10 ^ nat (- scale))" by (simp add: divide_simps)
    then show "scale \<ge> 0 \<or> 10 ^ nat (- scale) dvd m" unfolding of_int_eq_iff by simp
  next
    assume "scale \<ge> 0 \<or> 10 ^ nat (- scale) dvd m"
    then obtain k where "m = 10 ^ nat (- scale) * k" using False by auto
    then show "(of_int m * 10 powi scale :: rat) \<in> \<int>" unfolding split by simp
  qed
qed

text \<open>The value of a number is the one its text denotes, for every exponent within the limits.\<close>

lemma numberValue_text:
  assumes "list_all isDigit whole" "whole \<noteq> []" "list_all isDigit fraction"
    and "case exponent of None \<Rightarrow> expo = 0
      | Some (e, sign, digits) \<Rightarrow> e \<in> {CHR ''e'', CHR ''E''} \<and> sign \<in> {[], ''+'', ''-''} \<and> list_all isDigit digits \<and> digits \<noteq> []
          \<and> expo = (if sign = ''-'' then - int (readNat digits) else int (readNat digits))"
    and "\<bar>expo\<bar> \<le> 1000000" "\<bar>expo - int (length fraction)\<bar> \<le> 1000000"
  shows "numberValue (numberText negative whole fraction exponent) =
    Some ((if negative then - 1 else 1) * of_nat (readNat (whole @ fraction)) * 10 powi (expo - int (length fraction)))"
proof -
  have "int64 expo" using assms(5) unfolding int64_def maxInt_def by auto
  moreover have "splitNumber (numberText negative whole fraction exponent) =
    (negative, whole, fraction, (case exponent of None \<Rightarrow> False | Some (e, sign, digits) \<Rightarrow> sign = ''-''),
     (case exponent of None \<Rightarrow> [] | Some (e, sign, digits) \<Rightarrow> digits))"
    using assms(4) by (intro splitNumber_text assms(1-3)) (auto split: option.splits)
  moreover have "(if (case exponent of None \<Rightarrow> False | Some (e, sign, digits) \<Rightarrow> sign = ''-'')
      then - int (readNat (case exponent of None \<Rightarrow> [] | Some (e, sign, digits) \<Rightarrow> digits))
      else int (readNat (case exponent of None \<Rightarrow> [] | Some (e, sign, digits) \<Rightarrow> digits))) = expo"
    using assms(4) by (auto simp: readNat_def split: option.splits)
  ultimately show ?thesis
    using assms(6) by (auto simp: numberValue_def setString_def Let_def)
qed

lemma validJSONNumber_value: "validJSONNumber n \<longleftrightarrow> (\<exists>q. numberValue n = Some q)"
  by (auto simp: validJSONNumber_def numberValue_def)

lemma integerJSONNumber_value: "integerJSONNumber n \<longleftrightarrow> (\<exists>q \<in> \<int>. numberValue n = Some q)"
  by (auto simp: integerJSONNumber_def numberValue_def integer_scaled split: option.splits)

lemma equalJSONNumber_value: "equalJSONNumber a b \<longleftrightarrow> (\<exists>q. numberValue a = Some q \<and> numberValue b = Some q)"
proof -
  have "(m * 10 ^ nat (s - min s t) = n * 10 ^ nat (t - min s t)) \<longleftrightarrow> (of_int n * 10 powi t :: rat) = of_int m * 10 powi s" for m n s t :: int
  proof -
    have "(of_int n * 10 powi t :: rat) = of_int m * 10 powi s \<longleftrightarrow>
        (of_int (n * 10 ^ nat (t - min s t)) * 10 powi min s t :: rat) = of_int (m * 10 ^ nat (s - min s t)) * 10 powi min s t"
      unfolding scaled_power [OF min.cobounded2 [of s t], of n] scaled_power [OF min.cobounded1 [of s t], of m] ..
    also have "\<dots> \<longleftrightarrow> n * 10 ^ nat (t - min s t) = m * 10 ^ nat (s - min s t)"
      unfolding mult_cancel_right of_int_eq_iff by simp
    finally show ?thesis by auto
  qed
  then show ?thesis by (auto simp: equalJSONNumber_def numberValue_def split: option.splits)
qed

section \<open>Equality of values\<close>

inductive sameJSON :: "json \<Rightarrow> json \<Rightarrow> bool" where
  same_null: "sameJSON JNull JNull"
| same_string: "sameJSON (JString s) (JString s)"
| same_bool: "sameJSON (JBool b) (JBool b)"
| same_number: "numberValue a = Some q \<Longrightarrow> numberValue b = Some q \<Longrightarrow> sameJSON (JNumber a) (JNumber b)"
| same_array: "length ls = length rs \<Longrightarrow> (\<forall>k < length ls. sameJSON (ls ! k) (rs ! k)) \<Longrightarrow> sameJSON (JArray ls) (JArray rs)"
| same_object: "length ls = length rs \<Longrightarrow>
    (\<forall>(key, left) \<in> set ls. \<exists>right. map_of rs key = Some right \<and> sameJSON left right) \<Longrightarrow> sameJSON (JObject ls) (JObject rs)"

inductive_simps sameJSON_simps: "sameJSON JNull r" "sameJSON (JString s) r" "sameJSON (JBool b) r" "sameJSON (JNumber n) r"
  "sameJSON (JArray ls) r" "sameJSON (JObject ls) r"

lemma equalJSONItems_iff: "equalJSONItems ls rs \<longleftrightarrow> (length ls \<le> length rs \<and> list_all2 equalJSONValue ls (take (length ls) rs))"
  by (induction ls arbitrary: rs) (auto split: list.splits simp: list_all2_Cons1)

lemma equalJSONMembers_iff:
  "equalJSONMembers ls rs \<longleftrightarrow> (\<forall>(key, left) \<in> set ls. \<exists>right. map_of rs key = Some right \<and> equalJSONValue left right)"
  by (induction ls) (auto split: option.splits)

lemma equalJSONValue_same: "equalJSONValue left right \<longleftrightarrow> sameJSON left right"
proof (induction left arbitrary: right)
  case (JArray ls)
  then show ?case
    by (auto simp: sameJSON_simps equalJSONItems_iff list_all2_conv_all_nth split: json.split)
next
  case (JObject ls)
  have "equalJSONValue v r \<longleftrightarrow> sameJSON v r" if "(key, v) \<in> set ls" for key v r
    using JObject [OF that, of v r] by simp
  then have "(\<forall>(key, left) \<in> set ls. \<exists>right. map_of rs key = Some right \<and> equalJSONValue left right) \<longleftrightarrow>
      (\<forall>(key, left) \<in> set ls. \<exists>right. map_of rs key = Some right \<and> sameJSON left right)" for rs
    by (fastforce intro!: ball_cong)
  then show ?case by (auto simp: sameJSON_simps equalJSONMembers_iff split: json.split)
qed (auto simp: sameJSON_simps equalJSONNumber_value split: json.split)

lemma equalJSONNumber_sym: "equalJSONNumber a b \<Longrightarrow> equalJSONNumber b a"
  by (auto simp: equalJSONNumber_def min.commute split: option.splits)

lemma same_keys:
  assumes "length ls = length rs" "distinct (map fst ls)" "distinct (map fst rs)" "fst ` set ls \<subseteq> fst ` set rs"
  shows "fst ` set ls = fst ` set rs"
  using assms by (metis List.finite_set card_subset_eq distinct_card length_map list.set_map)

lemma equalJSONValue_sym:
  "equalJSONValue left right \<Longrightarrow> uniqueMembers left \<Longrightarrow> uniqueMembers right \<Longrightarrow> equalJSONValue right left"
proof (induction left arbitrary: right)
  case (JArray ls)
  then obtain rs where r: "right = JArray rs" "length ls = length rs" "list_all2 equalJSONValue ls rs"
    by (auto simp: equalJSONItems_iff split: json.splits)
  have "list_all2 equalJSONValue rs ls"
    using r(2,3) JArray.IH JArray.prems(2,3) r(1)
    by (auto simp: list_all2_conv_all_nth list_all_length)
  then show ?case using r by (simp add: equalJSONItems_iff)
next
  case (JObject ls)
  then obtain rs where r: "right = JObject rs" "length ls = length rs" "equalJSONMembers ls rs"
    by (auto split: json.splits)
  have d: "distinct (map fst ls)" "distinct (map fst rs)" using JObject.prems(2,3) r(1) by auto
  have keys: "fst ` set ls = fst ` set rs"
  proof (rule same_keys [OF r(2) d])
    show "fst ` set ls \<subseteq> fst ` set rs"
      using r(3) by (force simp: equalJSONMembers_iff dest: map_of_SomeD)
  qed
  have "\<exists>left. map_of ls key = Some left \<and> equalJSONValue right' left" if kr: "(key, right') \<in> set rs" for key right'
  proof -
    have "key \<in> fst ` set ls" using kr keys by force
    then obtain left where l: "(key, left) \<in> set ls" by auto
    then obtain right where "map_of rs key = Some right" "equalJSONValue left right"
      using r(3) unfolding equalJSONMembers_iff by fast
    then have "equalJSONValue left right'" using kr d(2) by (simp add: map_of_is_SomeI)
    moreover have "uniqueMembers left" "uniqueMembers right'"
      using l kr JObject.prems(2,3) r(1) by (auto simp: list_all_iff)
    ultimately have "equalJSONValue right' left" using JObject.IH [OF l, of left right'] by simp
    then show ?thesis using l d(1) by auto
  qed
  then show ?case using r by (auto simp: equalJSONMembers_iff)
qed (auto split: json.splits intro: equalJSONNumber_sym)

section \<open>Types and values\<close>

definition hasType :: "json \<Rightarrow> string \<Rightarrow> bool" where
  "hasType val typ \<longleftrightarrow>
     typ = ''object'' \<and> (\<exists>members. val = JObject members) \<or> typ = ''array'' \<and> (\<exists>vals. val = JArray vals)
     \<or> typ = ''string'' \<and> (\<exists>s. val = JString s) \<or> typ = ''boolean'' \<and> (\<exists>b. val = JBool b)
     \<or> typ = ''number'' \<and> (\<exists>n q. val = JNumber n \<and> numberValue n = Some q)
     \<or> typ = ''integer'' \<and> (\<exists>n q. val = JNumber n \<and> numberValue n = Some q \<and> q \<in> \<int>)"

text \<open>A value is listed when it equals an entry; the entries before it must decode.\<close>

definition inEnum :: "(bytes \<Rightarrow> goError + json) \<Rightarrow> json \<Rightarrow> bytes list \<Rightarrow> bool" where
  "inEnum decodeAny val enum \<longleftrightarrow>
     (\<exists>k expected. k < length enum \<and> decodeAny (enum ! k) = Inr expected \<and> sameJSON val expected
        \<and> (\<forall>j < k. \<exists>other. decodeAny (enum ! j) = Inr other))"

text \<open>
  What the validated subset of JSON Schema means, without paths, errors and iteration order.
\<close>

inductive conforms :: "(bytes \<Rightarrow> goError + json) \<Rightarrow> json \<Rightarrow> outputPolicySchema \<Rightarrow> bool" for decodeAny where
  conformsI:
  "(typ \<noteq> [] \<longrightarrow> hasType val typ) \<Longrightarrow>
   (enum \<noteq> [] \<longrightarrow> inEnum decodeAny val enum) \<Longrightarrow>
   (typ = ''object'' \<or> properties \<noteq> [] \<or> required \<noteq> [] \<or> additional \<noteq> None \<longrightarrow>
      (\<exists>object. val = JObject object \<and> set required \<subseteq> fst ` set object
         \<and> (additional = Some False \<longrightarrow> fst ` set object \<subseteq> fst ` set properties))) \<Longrightarrow>
   (\<forall>object. val = JObject object \<longrightarrow> (\<forall>(name, property) \<in> set properties. \<forall>member.
      map_of object name = Some member \<longrightarrow> conforms decodeAny member property)) \<Longrightarrow>
   (typ = ''array'' \<or> items \<noteq> None \<longrightarrow> (\<exists>vals. val = JArray vals)) \<Longrightarrow>
   (\<forall>vals item. val = JArray vals \<longrightarrow> items = Some item \<longrightarrow> (\<forall>v \<in> set vals. conforms decodeAny v item)) \<Longrightarrow>
   conforms decodeAny val (Schema typ properties required items enum additional)"

inductive_simps conforms_simps: "conforms decodeAny val (Schema typ properties required items enum additional)"

lemma firstSome_None [simp]: "firstSome f xs = None \<longleftrightarrow> (\<forall>x \<in> set xs. f x = None)"
  by (induction xs) (auto split: option.splits)

lemma validateJSONType_None: "validateJSONType val typ path = None \<longleftrightarrow> hasType val typ"
  by (cases val) (auto simp: validateJSONType_def hasType_def supportedJSONSchemaType_def validJSONNumber_value
    integerJSONNumber_value)

lemma inEnum_Cons:
  "inEnum decodeAny val (raw # enum) \<longleftrightarrow>
     (\<exists>expected. decodeAny raw = Inr expected \<and> (sameJSON val expected \<or> inEnum decodeAny val enum))" (is "?l = ?r")
proof
  assume ?l
  then obtain k expected where k: "k < Suc (length enum)" "decodeAny ((raw # enum) ! k) = Inr expected" "sameJSON val expected"
    "\<forall>j < k. \<exists>other. decodeAny ((raw # enum) ! j) = Inr other" unfolding inEnum_def by auto
  show ?r
  proof (cases k)
    case 0
    then show ?thesis using k by auto
  next
    case (Suc m)
    then have "inEnum decodeAny val enum" using k unfolding inEnum_def by (intro exI [of _ m] exI [of _ expected]) auto
    then show ?thesis using k(4) Suc by auto
  qed
next
  assume ?r
  then obtain first where first: "decodeAny raw = Inr first" "sameJSON val first \<or> inEnum decodeAny val enum" by blast
  from first(2) show ?l
  proof
    assume "sameJSON val first"
    then show ?thesis using first(1) unfolding inEnum_def by (intro exI [of _ 0]) auto
  next
    assume "inEnum decodeAny val enum"
    then obtain k expected where "k < length enum" "decodeAny (enum ! k) = Inr expected" "sameJSON val expected"
      "\<forall>j < k. \<exists>other. decodeAny (enum ! j) = Inr other" unfolding inEnum_def by blast
    then show ?thesis using first(1) unfolding inEnum_def
      by (intro exI [of _ "Suc k"] exI [of _ expected]) (auto simp: nth_Cons split: nat.split)
  qed
qed

lemma valueMatchesEnum_True: "valueMatchesEnum decodeAny val enum = Inr True \<longleftrightarrow> inEnum decodeAny val enum"
proof (induction enum)
  case Nil
  show ?case by (simp add: inEnum_def)
next
  case (Cons raw enum)
  then show ?case by (auto simp: inEnum_Cons equalJSONValue_same split: sum.splits)
qed

lemma validateJSONEnum_None:
  "validateJSONEnum decodeAny val enum path = None \<longleftrightarrow> (enum \<noteq> [] \<longrightarrow> inEnum decodeAny val enum)"
  by (auto simp: validateJSONEnum_def simp flip: valueMatchesEnum_True split: sum.splits bool.splits)

lemma required_None:
  "validateRequiredProperties object required path = None \<longleftrightarrow> set required \<subseteq> fst ` set object"
  by (auto simp: validateRequiredProperties_def map_of_eq_None_iff)

lemma additional_None:
  "validateAdditionalProperties object properties additional path = None \<longleftrightarrow>
     (additional = Some False \<longrightarrow> fst ` set object \<subseteq> fst ` set properties)"
  by (force simp: validateAdditionalProperties_def map_of_eq_None_iff split: prod.splits)

lemma validate_None_iff:
  "validateJSONValue decodeAny val schema path = None \<longleftrightarrow> conforms decodeAny val schema"
  "validateDefinedProperties decodeAny object properties path = None \<longleftrightarrow>
     (\<forall>(name, property) \<in> set properties. \<forall>member. map_of object name = Some member \<longrightarrow> conforms decodeAny member property)"
  "validateArrayItems decodeAny vals index item path = None \<longleftrightarrow> (\<forall>v \<in> set vals. conforms decodeAny v item)"
proof (induction decodeAny val schema path and decodeAny object properties path and decodeAny vals index item path
    rule: validateJSONValue_validateDefinedProperties_validateArrayItems.induct)
  case (1 decodeAny val ty properties required items enum additional path)
  show ?case
  proof (cases val)
    case (JObject object)
    then show ?thesis
      using 1(1) [of object]
      by (auto simp: conforms_simps validateJSONType_None validateJSONEnum_None required_None
          additional_None schemaRequiresObject_def)
  next
    case (JArray vals)
    then show ?thesis
      using 1(2) [of vals]
      by (auto simp: conforms_simps validateJSONType_None validateJSONEnum_None
          schemaRequiresObject_def split: option.splits)
  qed (auto simp: conforms_simps validateJSONType_None validateJSONEnum_None schemaRequiresObject_def)
qed (auto split: option.splits)

section \<open>Supported schemas\<close>

text \<open>A schema is accepted when every type it names, at any depth, is supported.\<close>

fun typesSupported :: "outputPolicySchema \<Rightarrow> bool" where
  "typesSupported (Schema typ properties required items enum additional) \<longleftrightarrow>
     typ \<in> {[], ''object'', ''array'', ''string'', ''number'', ''integer'', ''boolean''} \<and> list_all (\<lambda>property. typesSupported (snd property)) properties
     \<and> (case items of None \<Rightarrow> True | Some item \<Rightarrow> typesSupported item)"

lemma validateOutputPolicySchema_None:
  "validateOutputPolicySchema schema path = None \<longleftrightarrow> typesSupported schema"
  "validateSchemaProperties properties path = None \<longleftrightarrow> list_all (\<lambda>property. typesSupported (snd property)) properties"
  by (induction schema path and properties path rule: validateOutputPolicySchema_validateSchemaProperties.induct)
    (auto simp: supportedJSONSchemaType_def split: option.splits)

text \<open>The document of a schema uses the supported keywords only, in it and in the schemas below it.\<close>

inductive keywordsSupported :: "json \<Rightarrow> bool" where
  keywordsI:
  "fst ` set members \<subseteq> {''type'', ''properties'', ''required'', ''items'', ''enum'', ''additionalProperties'', ''description''} \<Longrightarrow>
   (\<forall>val. map_of members ''properties'' = Some val \<longrightarrow>
      val = JNull \<or> (\<exists>properties. val = JObject properties \<and> (\<forall>(name, property) \<in> set properties. keywordsSupported property))) \<Longrightarrow>
   (\<forall>item. map_of members ''items'' = Some item \<longrightarrow> keywordsSupported item) \<Longrightarrow>
   keywordsSupported (JObject members)"

inductive_simps keywordsSupported_simps [simp]: "keywordsSupported (JObject members)" "keywordsSupported JNull"
  "keywordsSupported (JBool b)" "keywordsSupported (JNumber n)" "keywordsSupported (JString s)" "keywordsSupported (JArray vals)"

lemma keys_within:
  "(\<forall>x \<in> set members. (case x of (key, _) \<Rightarrow> if key \<in> K then None else Some (f key)) = None) \<longleftrightarrow> fst ` set members \<subseteq> K"
  by (force simp: split_beta split: if_splits)

lemma rejectUnsupported_None:
  "rejectUnsupportedKeywords document path = None \<longleftrightarrow> keywordsSupported document"
  "rejectUnsupportedProperties properties path = None \<longleftrightarrow> (\<forall>(name, property) \<in> set properties. keywordsSupported property)"
proof (induction document path and properties path rule: rejectUnsupportedKeywords_rejectUnsupportedProperties.induct)
  case (1 members path)
  have keys: "(\<forall>x \<in> set members. (case x of (keyword, _) \<Rightarrow> if supportedOutputPolicySchemaKeyword keyword then None
        else Some (SchemaFailure path ''unsupported schema keyword %q'' [ArgString keyword])) = None) \<longleftrightarrow>
      fst ` set members \<subseteq> {''type'', ''properties'', ''required'', ''items'', ''enum'', ''additionalProperties'', ''description''}"
    unfolding supportedOutputPolicySchemaKeyword_def list.set by (rule keys_within)
  have properties: "(case map_of members ''properties'' of
      Some (JObject properties) \<Rightarrow> rejectUnsupportedProperties properties path | Some JNull \<Rightarrow> None | None \<Rightarrow> None
    | Some _ \<Rightarrow> Some (SchemaFailure (path @ ''.properties'') ''invalid properties'' [])) = None \<longleftrightarrow>
    (\<forall>val. map_of members ''properties'' = Some val \<longrightarrow>
      val = JNull \<or> (\<exists>properties. val = JObject properties \<and> (\<forall>(name, property) \<in> set properties. keywordsSupported property)))"
    using 1(1) by (cases "map_of members ''properties''") (simp_all split: json.split)
  have items: "(case map_of members ''items'' of
      Some items \<Rightarrow> rejectUnsupportedKeywords items (path @ ''.items'') | None \<Rightarrow> None) = None \<longleftrightarrow>
    (\<forall>item. map_of members ''items'' = Some item \<longrightarrow> keywordsSupported item)"
    using 1(2) by (cases "map_of members ''items''") simp_all
  show ?case
    unfolding rejectUnsupportedKeywords.simps(1) orElse_None firstSome_None keys properties items keywordsSupported_simps(1) ..
qed auto

section \<open>Properties\<close>

text \<open>
  C39. What \<^verbatim>\<open>ValidateJSON\<close> accepts. It answers nil exactly when the schema is empty, or the schema decodes to
  an object whose document uses only the supported keywords and types and the payload decodes to a value that
  conforms to it. Conformance is defined on its own: types by the shape of the value (an integer is a number
  whose rational value is whole), enum entries by equality of JSON values (numbers by their rational value,
  the one that decimal notation denotes by \<open>numberValue_text\<close>, objects whatever the order of their
  members), required, defined and additional members, and array items.
\<close>

theorem ValidateJSON_accepts:
  "ValidateJSON decodeAny decodeSchema schemaRaw payload = None \<longleftrightarrow> schemaRaw = [] \<or>
    (\<exists>schema document val. decodeSchema schemaRaw = Inr (Some schema) \<and> decodeAny schemaRaw = Inr document
       \<and> keywordsSupported document \<and> typesSupported schema
       \<and> decodeAny payload = Inr val \<and> conforms decodeAny val schema)"
  by (auto simp: ValidateJSON_def parseOutputPolicySchema_def validateStructuredOutputAgainstSchema_def
      rejectUnsupported_None(1) [symmetric, where path = "''$''"]
      validate_None_iff(1) [symmetric, where path = "''$''"] validateOutputPolicySchema_None(1) [symmetric, where path = "''$''"]
      split: sum.splits option.splits)

text \<open>A schema that asks for an object with an integer member, and the decoders that know it.\<close>

definition demoSchema :: outputPolicySchema where
  "demoSchema = Schema ''object'' [(''n'', Schema ''integer'' [] [] None [] None)] [''n''] None [] (Some False)"

definition demoDecodeAny :: "bytes \<Rightarrow> goError + json" where
  "demoDecodeAny raw =
     (if raw = ''S'' then Inr (JObject [(''type'', JString ''object''),
        (''properties'', JObject [(''n'', JObject [(''type'', JString ''integer'')])]),
        (''required'', JArray [JString ''n'']), (''additionalProperties'', JBool False)])
      else if raw = ''V'' then Inr (JObject [(''n'', JNumber ''3e0'')])
      else if raw = ''W'' then Inr (JObject [(''n'', JNumber ''3.5'')])
      else Inl (TextError ''invalid''))"

definition demoDecodeSchema :: "bytes \<Rightarrow> goError + outputPolicySchema option" where
  "demoDecodeSchema raw = (if raw = ''S'' then Inr (Some demoSchema) else Inl (TextError ''invalid''))"

lemma ValidateJSON_accepts_witness:
  "(\<exists>val. demoDecodeAny ''V'' = Inr val \<and> conforms demoDecodeAny val demoSchema)
   \<and> ValidateJSON demoDecodeAny demoDecodeSchema ''S'' ''W'' \<noteq> None"
proof -
  have "ValidateJSON demoDecodeAny demoDecodeSchema ''S'' ''V'' = None" by code_simp
  then have "\<exists>val. demoDecodeAny ''V'' = Inr val \<and> conforms demoDecodeAny val demoSchema"
    using ValidateJSON_accepts [of demoDecodeAny demoDecodeSchema "''S''" "''V''"]
    by (auto simp: demoDecodeSchema_def)
  moreover have "ValidateJSON demoDecodeAny demoDecodeSchema ''S'' ''W'' \<noteq> None" by code_simp
  ultimately show ?thesis by blast
qed

end
