(* ===== verification/Agent_Engine_Laws.thy ===== *)
theory Agent_Engine_Laws
  imports Agent_Resume_Laws Output_Policy_Laws
begin

text \<open>
  Laws of the execution-level wrapper: when a result is accepted by the output policy, how many repair
  attempts are made, that every attempt returns, and what happens to a repair attempt when a boundary
  observer is installed.
\<close>

section \<open>Repair\<close>

lemma ready_needs_continue:
  assumes "c_Phase c = ContinuationReady" "c_Steps c \<noteq> []" "s_Decision (last (c_Steps c)) \<noteq> StepDecisionContinue"
  shows "ValidateContinuation jsonValid c \<noteq> None"
  using assms by (auto simp: ValidateContinuation_def firstError_def validateContinuationPhaseSteps_def
      split: if_splits option.splits sum.splits prod.splits)

lemma finalizeNoToolStep_finish:
  assumes "finalizeNoToolStep e input base a modelCall usage steps stop i used = (current, steps', out, False, None)"
  shows "lo_Steps out \<noteq> [] \<and> s_Decision (last (lo_Steps out)) = StepDecisionFinish"
  using assms
  by (auto simp: finalizeNoToolStep_def Let_def newStep_def budgetAbort_def zeroOutput_def
      split: prod.splits option.splits sum.splits if_splits)

lemma stepDecisionOverride_finish:
  assumes "stepDecisionOverride input i current usage (steps @ [step]) thinking n used = (steps', out, True, None)"
  shows "lo_Steps out = steps' \<and> steps' \<noteq> [] \<and> s_Decision (last steps') = StepDecisionFinish"
  using assms
  by (auto simp: stepDecisionOverride_def Let_def zeroOutput_def split: option.splits sum.splits StepDecision.splits)

lemma finalizeToolStep_finish:
  assumes "finalizeToolStep e input current usage (steps @ [step]) a results term0 i used = (steps', out, True, None)"
  shows "lo_Steps out \<noteq> [] \<and> s_Decision (last (lo_Steps out)) = StepDecisionFinish"
  using assms
  by (auto simp: finalizeToolStep_def Let_def errorsJoin_None zeroOutput_def split: prod.splits option.splits if_splits
      dest!: stepDecisionOverride_finish)

lemma runToolStep_finish:
  assumes "runToolStep e st a modelCall i turn = (st', out, True, None)"
  shows "lo_Steps out \<noteq> [] \<and> s_Decision (last (lo_Steps out)) = StepDecisionFinish"
  using assms
  by (auto simp: runToolStep_def Let_def newStep_def budgetAbort_def split: prod.splits option.splits sum.splits if_splits
      dest!: finalizeToolStep_finish)

text \<open>A pass that ends the loop without an error leaves a finished step.\<close>

lemma finished_last:
  assumes "loopBody e i st = Inl (out, None, turn)"
  shows "lo_Steps out \<noteq> [] \<and> s_Decision (last (lo_Steps out)) = StepDecisionFinish"
  using assms
  by (auto simp: loopBody_def Let_def prepareTurn_def loopTurnPreamble_def handleTurnFailure_def budgetAbort_def
      split: prod.splits option.splits sum.splits if_splits
      dest!: runToolStep_finish finalizeNoToolStep_finish)

lemma prepareTurn_failed:
  assumes "prepareTurn st i = Inl (out, err)"
  shows "err \<noteq> None \<and> lo_Steps out = st_steps st \<and> lo_Usage out = st_usage st"
  using assms by (auto simp: prepareTurn_def loopTurnPreamble_def Let_def budgetAbort_def loopErrorOutput_def
        zeroOutput_def split: if_splits sum.splits)

text \<open>A run that starts after a finished step stops at its first boundary, or at its ceiling.\<close>

lemma ready_refused:
  assumes "e_Boundaries e = Some observe" "steps \<noteq> []" "s_Decision (last steps) = StepDecisionFinish"
  shows "observeBoundary e input i prepared usage steps used ContinuationReady \<noteq> None"
  using assms ready_needs_continue [of "buildContinuation e input i prepared usage steps used ContinuationReady"]
  by (auto simp: observeBoundary_def buildContinuation_def Let_def split: option.split)

lemma observeBoundary_model [simp]:
  "observeBoundary (e\<lparr>e_OpenStream := model\<rparr>) input i prepared usage steps used phase = observeBoundary e input i prepared usage steps used phase"
  by (simp add: observeBoundary_def buildContinuation_def cong: deepCong)

lemma loopBody_refused:
  assumes "\<And>prepared. observeBoundary e (st_input st) i prepared (st_usage st) (st_steps st) (st_toolCallsUsed st) ContinuationReady = Some (err prepared)"
  shows "loopBody e i st =
    (case e_CtxErr e i 0 of
       Some ctxErr \<Rightarrow> Inl (loopErrorOutput (st_current st) (st_usage st) (st_steps st) i (st_toolCallsUsed st), Some (ExternalError ctxErr), in_OperationTurn (st_input st))
     | None \<Rightarrow>
         (case prepareTurn st i of
            Inl (out, failed) \<Rightarrow> Inl (out, failed, in_OperationTurn (st_input st))
          | Inr prepared \<Rightarrow> Inl (loopErrorOutput prepared (st_usage st) (st_steps st) i (st_toolCallsUsed st), Some (err prepared), in_OperationTurn (st_input st))))"
  using assms by (simp add: loopBody_def Let_def cong: deepCong)

text \<open>Such a run never asks the model: it is the same for every model.\<close>

lemma finished_ignores_model:
  assumes "e_Boundaries e = Some observe" "in_initialSteps input \<noteq> []"
    "s_Decision (last (in_initialSteps input)) = StepDecisionFinish"
  shows "RunMessages (Suc fuel) (e\<lparr>e_OpenStream := model\<rparr>) elapsed input = RunMessages (Suc fuel) e elapsed input"
proof -
  let ?i = "int (length (in_initialSteps input))" and ?st = "initialState input"
  define err where "err prepared = the (observeBoundary e (st_input ?st) ?i prepared (st_usage ?st) (st_steps ?st) (st_toolCallsUsed ?st) ContinuationReady)" for prepared
  have refused: "observeBoundary e (st_input ?st) ?i prepared (st_usage ?st) (st_steps ?st) (st_toolCallsUsed ?st) ContinuationReady = Some (err prepared)" for prepared
    using ready_refused [OF assms, of "st_input ?st" ?i prepared "st_usage ?st" "st_toolCallsUsed ?st"] by (auto simp: err_def initialState_simps)
  have body: "loopBody e ?i ?st = loopBody (e\<lparr>e_OpenStream := model\<rparr>) ?i ?st"
    unfolding loopBody_refused [of e, OF refused] loopBody_refused [of "e\<lparr>e_OpenStream := model\<rparr>", unfolded observeBoundary_model, OF refused] by simp
  have "\<exists>returned. loopBody e ?i ?st = Inl returned"
    unfolding loopBody_refused [of e, OF refused] by (auto split: option.split sum.split)
  then show ?thesis using body by (auto simp: RunMessages_closeRun runLoop.simps [of "Suc fuel"])
qed

lemma finished_never_runs:
  assumes "e_Boundaries e = Some observe" "in_initialSteps input \<noteq> []"
    "s_Decision (last (in_initialSteps input)) = StepDecisionFinish"
  shows "\<exists>out err. RunMessages (Suc fuel) e elapsed input = Some (out, err) \<and> lo_Steps out = in_initialSteps input \<and>
    lo_Usage out = in_initialUsage input \<and> (err = None \<longrightarrow> lo_Messages out = in_Messages input)"
proof -
  let ?st = "initialState input"
  have fails: "observeBoundary e (st_input ?st) i prepared usage (in_initialSteps input) used ContinuationReady \<noteq> None" for i prepared usage used
    by (rule ready_refused [OF assms])
  show ?thesis
  proof (cases "iterationAllowed (st_input ?st) (int (length (in_initialSteps input)))")
    case False
    then show ?thesis by (simp add: RunMessages_closeRun runLoop.simps closeRun_def initialState_simps zeroOutput_def)
  next
    case True
    have "\<exists>out err turn. loopBody e (int (length (in_initialSteps input))) ?st = Inl (out, Some err, turn)
        \<and> lo_Steps out = in_initialSteps input \<and> lo_Usage out = in_initialUsage input"
    proof (cases "e_CtxErr e (int (length (in_initialSteps input))) 0")
      case None
      show ?thesis
      proof (cases "prepareTurn ?st (int (length (in_initialSteps input)))")
        case (Inl failed)
        then show ?thesis
          using None prepareTurn_failed [of ?st "int (length (in_initialSteps input))" "fst failed" "snd failed"]
          by (cases failed) (auto simp: loopBody_def Let_def initialState_simps)
      next
        case (Inr prepared)
        then show ?thesis
          using None fails [of "int (length (in_initialSteps input))" prepared "in_initialUsage input" "in_initialToolCallsUsed input"]
          by (auto simp: loopBody_def Let_def initialState_simps loopErrorOutput_def zeroOutput_def)
      qed
    qed (simp add: loopBody_def Let_def initialState_simps loopErrorOutput_def zeroOutput_def)
    then show ?thesis using True by (auto simp: RunMessages_closeRun runLoop.simps closeRun_def)
  qed
qed


lemma finalText_instruction:
  "finalAssistantTextFromMessages (messages @ [repairInstructionMessage sv schema err]) = finalAssistantTextFromMessages messages"
  by (simp add: finalAssistantTextFromMessages_def repairInstructionMessage_def NewText_def)

lemma validate_Some:
  "validateResultStructuredOutput sv result schema = (result', Some err) \<longleftrightarrow>
   validateStructuredOutputAgainstSchema (sv_decodeAny sv) schema (r_Text result) = Inl err
     \<and> result' = result\<lparr>r_Valid := False, r_Structured := []\<rparr>"
  by (auto simp: validateResultStructuredOutput_def split: sum.splits)

text \<open>Repair attempts after a finished step, with a boundary observer installed.\<close>

lemma repairLoop_stuck:
  assumes "e_Boundaries e = Some observe"
  shows "lo_Steps out0 \<noteq> [] \<Longrightarrow> s_Decision (last (lo_Steps out0)) = StepDecisionFinish \<Longrightarrow>
    validateStructuredOutputAgainstSchema (sv_decodeAny sv) schema (finalAssistantTextFromMessages (lo_Messages out0)) = Inl err \<Longrightarrow>
    r_Steps result = lo_Steps out0 \<Longrightarrow> r_Usage result = lo_Usage out0 \<Longrightarrow>
    \<exists>final. (\<forall>model. repairLoop (Suc fuel) (e\<lparr>e_OpenStream := model\<rparr>) sv input policy schema budgetDriven left n out0 result verr = Some final)
      \<and> r_Failure final \<noteq> None \<and> r_Steps final = lo_Steps out0 \<and> r_Usage final = lo_Usage out0"
proof (induction left arbitrary: n out0 result verr)
  case (Suc left)
  let ?input = "repairInput sv input (op_Schema policy) out0 verr n"
  have inp: "in_initialSteps ?input = lo_Steps out0" "in_initialUsage ?input = lo_Usage out0"
     "in_Messages ?input = lo_Messages out0 @ [repairInstructionMessage sv (op_Schema policy) verr]"
    by (simp_all add: repairInput_def)
  obtain out err' where run: "RunMessages (Suc fuel) e (sv_Elapsed sv n) ?input = Some (out, err')" 
    and out: "lo_Steps out = lo_Steps out0" "lo_Usage out = lo_Usage out0"
      "err' = None \<Longrightarrow> lo_Messages out = lo_Messages out0 @ [repairInstructionMessage sv (op_Schema policy) verr]"
    using finished_never_runs [OF assms, of ?input fuel "sv_Elapsed sv n"] Suc.prems(1,2) inp by auto
  then have run: "RunMessages (Suc fuel) (e\<lparr>e_OpenStream := model\<rparr>) (sv_Elapsed sv n) ?input = Some (out, err')" for model
    using finished_ignores_model [OF assms, of ?input fuel model "sv_Elapsed sv n"] Suc.prems(1,2) inp by simp
  show ?case
  proof (cases "snd (budgetRemaining input (lo_Usage out0) (lo_ToolCallsUsed out0) (int (length (lo_Steps out0)))) = []")
    case False
    then show ?thesis using Suc.prems by (simp add: Let_def)
  next
    case budget: True
    show ?thesis
    proof (cases err')
      case (Some e0)
      then show ?thesis using run out budget by (simp add: Let_def resultFromLoopOutput_def)
    next
      case None
      let ?result = "resultFromLoopOutput out n"
      have same: "finalAssistantTextFromMessages (lo_Messages out) = finalAssistantTextFromMessages (lo_Messages out0)"
        using out(3) [OF None] by (simp add: finalText_instruction)
      have "validateResultStructuredOutput sv ?result schema = (?result\<lparr>r_Valid := False, r_Structured := []\<rparr>, Some err)"
        using Suc.prems(3) same by (simp add: validate_Some resultFromLoopOutput_def)
      moreover have "\<exists>final. (\<forall>model. repairLoop (Suc fuel) (e\<lparr>e_OpenStream := model\<rparr>) sv input policy schema budgetDriven left (n + 1) out
          (?result\<lparr>r_Valid := False, r_Structured := []\<rparr>) err = Some final)
          \<and> r_Failure final \<noteq> None \<and> r_Steps final = lo_Steps out \<and> r_Usage final = lo_Usage out"
        using Suc.prems out same by (intro Suc.IH) (simp_all add: resultFromLoopOutput_def)
      ultimately show ?thesis using run budget None out by (simp add: Let_def)
    qed
  qed
qed simp



section \<open>Structured output\<close>

definition acceptedResult :: "Services \<Rightarrow> outputPolicySchema \<Rightarrow> Result \<Rightarrow> bool" where
  "acceptedResult sv schema result \<longleftrightarrow>
     r_Valid result \<and> r_Structured result = r_Text result \<and>
     (\<exists>val. sv_decodeAny sv (r_Text result) = Inr val \<and> conforms (sv_decodeAny sv) val schema)"

lemma validate_None:
  assumes "validateResultStructuredOutput sv result schema = (result', None)"
  shows "acceptedResult sv schema result' \<and> r_RepairCount result' = r_RepairCount result"
  using assms
  by (auto simp: validateResultStructuredOutput_def validateStructuredOutputAgainstSchema_def acceptedResult_def
      validate_None_iff(1) split: sum.splits option.splits)

lemma repairLoop_sound:
  "repairLoop fuel e sv input policy schema budgetDriven left n out0 result verr = Some final \<Longrightarrow> r_Failure final = None \<Longrightarrow>
   acceptedResult sv schema final \<and> n \<le> r_RepairCount final \<and> r_RepairCount final < n + int left"
proof (induction left arbitrary: n out0 result verr)
  case (Suc left)
  from Suc.prems obtain out where run: "RunMessages fuel e (sv_Elapsed sv n) (repairInput sv input (op_Schema policy) out0 verr n) = Some (out, None)"
    and next0: "(case validateResultStructuredOutput sv (resultFromLoopOutput out n) schema of
                (repaired, None) \<Rightarrow> Some repaired
              | (repaired, Some err) \<Rightarrow> repairLoop fuel e sv input policy schema budgetDriven left (n + 1) out repaired err) = Some final"
    by (auto simp: Let_def split: if_splits option.splits)
  show ?case
  proof (cases "validateResultStructuredOutput sv (resultFromLoopOutput out n) schema")
    case (Pair repaired err)
    show ?thesis
    proof (cases err)
      case None
      then show ?thesis using next0 Pair validate_None [of sv "resultFromLoopOutput out n" schema repaired]
        by (simp add: resultFromLoopOutput_def)
    next
      case (Some err0)
      then show ?thesis using next0 Pair Suc.IH [of "n + 1" out repaired err0] Suc.prems(2) by simp
    qed
  qed
qed auto

lemma validateAndRepair_sound:
  assumes "validateAndRepairStructuredOutput fuel e sv input output result0 policy budgetDriven = Some result"
    "r_Failure result = None" "0 \<le> lo_RepairCount output"
  shows "\<exists>schema. parseOutputPolicySchema (sv_decodeAny sv) (sv_decodeSchema sv) (op_Schema policy) = Inr schema
    \<and> acceptedResult sv schema result
    \<and> (r_RepairCount result = r_RepairCount result0
       \<or> lo_RepairCount output < r_RepairCount result \<and> r_RepairCount result \<le> op_MaxRepairAttempts policy)"
proof (cases "parseOutputPolicySchema (sv_decodeAny sv) (sv_decodeSchema sv) (op_Schema policy)")
  case (Inr schema)
  obtain r err where v: "validateResultStructuredOutput sv result0 schema = (r, err)" by fastforce
  show ?thesis
  proof (cases err)
    case None
    then show ?thesis
      using assms(1) Inr v validate_None [of sv result0 schema r] by (simp add: validateAndRepairStructuredOutput_def)
  next
    case (Some verr)
    then have more: "op_Repair policy" "lo_RepairCount output < op_MaxRepairAttempts policy"
      and loop: "repairLoop fuel e sv input policy schema budgetDriven
                   (nat (op_MaxRepairAttempts policy - lo_RepairCount output)) (lo_RepairCount output + 1) output r verr = Some result"
      using assms(1,2) Inr v by (auto simp: validateAndRepairStructuredOutput_def split: if_splits)
    show ?thesis using repairLoop_sound [OF loop assms(2)] Inr more by auto
  qed
qed (use assms in \<open>auto simp: validateAndRepairStructuredOutput_def\<close>)

section \<open>Every run returns a result\<close>

lemma RunMessages_returns:
  assumes "\<not> in_UnlimitedIterations input" "nat (in_MaxIterations (normalizeIterationPolicy input)) \<le> fuel"
  shows "\<exists>out err. RunMessages fuel e elapsed input = Some (out, err)"
proof -
  let ?st = "initialState input"
  have "\<exists>r. runLoop fuel e (int (length (in_initialSteps input))) ?st = Some r"
    using assms runLoop_returns_iterations [of "st_input ?st" ?st "int (length (in_initialSteps input))" fuel e]
    by (simp add: initialState_simps)
  then show ?thesis by (auto simp: RunMessages_def)
qed

lemma repairLoop_returns:
  assumes "\<not> in_UnlimitedIterations input" "nat (in_MaxIterations (normalizeIterationPolicy input)) \<le> fuel"
  shows "\<exists>final. repairLoop fuel e sv input policy schema budgetDriven left n out0 result verr = Some final"
proof (induction left arbitrary: n out0 result verr)
  case (Suc left)
  obtain out err where "RunMessages fuel e (sv_Elapsed sv n) (repairInput sv input (op_Schema policy) out0 verr n) = Some (out, err)"
    using RunMessages_returns [of "repairInput sv input (op_Schema policy) out0 verr n" fuel e "sv_Elapsed sv n"] assms
    by (auto simp: repairInput_def normalizeIterationPolicy_def split: if_splits)
  then show ?case using Suc by (auto simp: Let_def split: option.split prod.split)
qed simp


end
