(* ===== verification/Agent_Run_Properties.thy ===== *)
theory Agent_Run_Properties
  imports Agent_Run_Laws
begin

text \<open>
  What the bounded agent loop guarantees: it returns, it stays within its ceilings, its trace is
  numbered without gaps, and compaction never hands the provider a broken history.
\<close>

section \<open>A concrete engine\<close>

text \<open>An engine whose provider asks for one tool call in the first turn and answers in the second.\<close>

definition demoPoll :: "Event \<Rightarrow> poll" where
  "demoPoll event = \<lparr>po_CtxErr = None, po_Recv = RecvEvent event, po_Callback = CallbackOk\<rparr>"

definition demoPolls :: "int \<Rightarrow> poll list" where
  "demoPolls i = map demoPoll
     (if i = 0 then
        [zeroEvent\<lparr>ev_Kind := EventToolCall, ev_ToolCall := Some \<lparr>tc_ID = ''c1'', tc_Name = ''f'',
           tc_Arguments = [], tc_OperationID = []\<rparr>\<rparr>,
         zeroEvent\<lparr>ev_Kind := EventDone, ev_StopReason := StopReasonToolUse\<rparr>]
      else
        [zeroEvent\<lparr>ev_Kind := EventTextDelta, ev_Text := ''ok''\<rparr>,
         zeroEvent\<lparr>ev_Kind := EventDone, ev_StopReason := StopReasonComplete\<rparr>])"

definition demoEngine :: Engine where
  "demoEngine = \<lparr>e_jsonValid = (\<lambda>_. True), e_errorText = (\<lambda>_. []), e_CtxErr = (\<lambda>_ _. None),
     e_OpenStream = (\<lambda>i _ _. Inr (demoPolls i, \<lparr>si_Provider = ''p'', si_Model = ''m''\<rparr>)), e_Hooks = [],
     e_Tools = Some (\<lambda>name. if name = ''f'' then Some False else None),
     e_ExecuteBatch = (\<lambda>_ calls _. (map (\<lambda>call. zeroToolResult\<lparr>tr_ToolCallID := tc_ID call,
        tr_Name := tc_Name call, tr_Content := ''done''\<rparr>) calls, None)),
     e_ChildUsage = (\<lambda>_. zeroUsage), e_Boundaries = Some (\<lambda>_ _. None), e_Elapsed = (\<lambda>_ _. 1)\<rparr>"

definition demoInput :: LoopInput where
  "demoInput = \<lparr>in_Model = ''m'', in_Messages = [NewText RoleUser ''hi''], in_Metadata = [],
     in_ToolMode = ModeOther [], in_MaxIterations = 0, in_UnlimitedIterations = False, in_OperationTurn = 0,
     in_Sink = None, in_OutputGuardrails = [], in_MaxTokens = 0, in_MaxToolCalls = 2, in_MaxSteps = 3,
     in_ContextTokenTarget = 0, in_StepDecider = None, in_StepObserver = None, in_Compact = None,
     in_CompactTo = None, in_continuationRequest = \<lparr>rq_Prompt = [], rq_Budget = None\<rparr>,
     in_continuationPolicy = zeroPolicy, in_repairCount = 0, in_activeElapsed = 0,
     in_initialUsage = zeroUsage, in_initialSteps = [], in_initialToolCallsUsed = 0\<rparr>"

definition demoRun :: "LoopOutput \<times> loopError option" where
  "demoRun = the (RunMessages 12 demoEngine 0 demoInput)"

section \<open>Termination\<close>

text \<open>
  C7. The loop returns. With an iteration ceiling (the default of 12 when none is given) it needs at most
  as many passes as remain below the ceiling; a run without iteration ceiling still ends when a step
  ceiling is set. This holds for every provider, tool, hook, guardrail, decider and observer.
\<close>

theorem agent_loop_terminates:
  assumes "\<not> in_UnlimitedIterations input
      \<and> nat (in_MaxIterations (normalizeIterationPolicy input) - int (length (in_initialSteps input))) \<le> fuel
    \<or> in_MaxSteps input > 0 \<and> nat (in_MaxSteps input) < fuel"
  shows "\<exists>out err. RunMessages fuel e elapsed input = Some (out, err)"
proof -
  let ?st = "initialState input"
  have "\<exists>r. runLoop fuel e (int (length (in_initialSteps input))) ?st = Some r"
    using assms runLoop_returns_iterations [of "st_input ?st" ?st "int (length (in_initialSteps input))" fuel e]
      runLoop_returns_steps [of "st_input ?st" ?st "int (length (in_initialSteps input))" fuel e]
    by (auto simp: initialState_simps)
  then show ?thesis by (auto simp: RunMessages_def)
qed

lemma demoRun_returns: "RunMessages 12 demoEngine 0 demoInput = Some demoRun"
proof -
  have "\<exists>r. runLoop 12 demoEngine 0 (initialState demoInput) = Some r"
    using runLoop_returns_iterations [of "st_input (initialState demoInput)" "initialState demoInput" 0 12 demoEngine]
    by (simp add: initialState_simps demoInput_def normalizeIterationPolicy_def)
  then show ?thesis by (auto simp: demoRun_def RunMessages_def demoInput_def)
qed

lemma agent_loop_terminates_witness: "\<exists>out err. RunMessages 12 demoEngine 0 demoInput = Some (out, err)"
  by (rule agent_loop_terminates) (simp add: demoInput_def normalizeIterationPolicy_def)

section \<open>Ceilings\<close>

text \<open>
  C8. A run stays within its ceilings and numbers its steps without gaps, whatever the provider and the
  tools do, and also when it ends in an error: the tool calls charged never exceed \<^verbatim>\<open>MaxToolCalls\<close>, the
  steps never exceed \<^verbatim>\<open>MaxSteps\<close> or the iteration ceiling (unless the resumed trace already did), and the
  steps carry the indexes 0, 1, 2, \<open>\<dots>\<close> in order.
\<close>

theorem agent_run_within_ceilings:
  assumes "RunMessages fuel e elapsed input = Some (out, err)"
    and "map s_Index (in_initialSteps input) = map int [0..<length (in_initialSteps input)]"
    and "in_initialToolCallsUsed input \<le> max 0 (in_MaxToolCalls input)"
  shows "map s_Index (lo_Steps out) = map int [0..<length (lo_Steps out)]
    \<and> (in_UnlimitedIterations input
        \<or> max (int (length (lo_Steps out))) (lo_Iterations out)
            \<le> max (int (length (in_initialSteps input))) (in_MaxIterations (normalizeIterationPolicy input)))
    \<and> (in_MaxSteps input \<le> 0 \<or> int (length (lo_Steps out)) \<le> max (int (length (in_initialSteps input))) (in_MaxSteps input))
    \<and> (in_MaxToolCalls input \<le> 0 \<or> lo_ToolCallsUsed out \<le> in_MaxToolCalls input)"
proof -
  let ?st = "initialState input" and ?n = "length (in_initialSteps input)"
  obtain out0 turn where run: "runLoop fuel e (int ?n) ?st = Some (out0, err, turn)"
    and out: "lo_Steps out = lo_Steps out0" "lo_Iterations out = lo_Iterations out0"
      "lo_ToolCallsUsed out = lo_ToolCallsUsed out0"
    using assms(1) by (auto simp: RunMessages_def)
  have "accounted (st_input ?st) ?n (int ?n) ?st"
    using assms(2,3) by (auto simp: accounted_def initialState_simps)
  then have "accountedReturn (st_input ?st) ?n (out0, err, turn)" by (rule accounting.run_post [OF run])
  then show ?thesis by (auto simp: accountedReturn_def initialState_simps out)
qed

lemma agent_run_within_ceilings_witness:
  "map s_Index (lo_Steps (fst demoRun)) = map int [0..<length (lo_Steps (fst demoRun))]
   \<and> lo_ToolCallsUsed (fst demoRun) \<le> 2 \<and> length (lo_Steps (fst demoRun)) = 2"
proof -
  have "RunMessages 12 demoEngine 0 demoInput = Some (fst demoRun, snd demoRun)" by (simp add: demoRun_returns)
  note within = agent_run_within_ceilings [OF this]
  have "length (lo_Steps (fst demoRun)) = 2" by code_simp
  with within show ?thesis by (simp add: demoInput_def)
qed

section \<open>Compaction\<close>

text \<open>
  C38. Compaction cannot corrupt the history. The history the next turn is driven with is either the
  running one, untouched, or one that consists of complete tool turns and begins with the cached prefix, message
  for message: a prefix of complete turns that reaches beyond every message the caller marked as a cache
  boundary. In particular nothing before a marked message is changed, moved or dropped.
\<close>

theorem compaction_safe:
  assumes "maybeCompactHistory input i current usage = Inr history"
  shows "history = current
    \<or> ValidateCompleteTurns history = None
      \<and> (\<exists>b \<le> length current. take b history = take b current \<and> ValidateCompleteTurns (take b current) = None
           \<and> (\<forall>k < length current. m_CacheBoundary (current ! k) \<longrightarrow> k < b))
      \<and> (\<forall>k < length current. m_CacheBoundary (current ! k) \<longrightarrow> take (Suc k) history = take (Suc k) current)"
proof (cases "history = current")
  case False
  then have v: "ValidateCompleteTurns history = None" and p: "validateCachePrefixPreserved current history = None"
    using assms by (auto simp: maybeCompactHistory_def split: if_splits sum.splits option.splits)
  obtain b where b: "CachePrefixBoundary current = Inr b" "take b history = take b current"
    using compaction_keeps_prefix [OF p] by blast
  have covers: "k < b" if "k < length current" "m_CacheBoundary (current ! k)" for k
    by (rule cacheBoundary_covers [OF b(1) that])
  have "take (Suc k) history = take (Suc k) current" if "k < length current" "m_CacheBoundary (current ! k)" for k
    using arg_cong [OF b(2), of "take (Suc k)"] covers [OF that] by (simp add: min_absorb1)
  then show ?thesis using v b(2) covers cachePrefix_complete [OF b(1)] by blast
qed simp

definition markedHistory :: "Message list" where
  "markedHistory = [NewText RoleSystem ''s'', (NewText RoleUser ''a'')\<lparr>m_CacheBoundary := True\<rparr>, NewText RoleUser ''b'']"

definition trimInput :: LoopInput where
  "trimInput = demoInput\<lparr>in_ContextTokenTarget := 10, in_Compact := Some (\<lambda>_ history. Inr (take 2 history))\<rparr>"

lemma compaction_safe_witness:
  "maybeCompactHistory trimInput 0 markedHistory zeroUsage = Inr (take 2 markedHistory)
   \<and> ValidateCompleteTurns (take 2 markedHistory) = None \<and> take 2 (take 2 markedHistory) = take 2 markedHistory"
proof -
  have c: "maybeCompactHistory trimInput 0 markedHistory zeroUsage = Inr (take 2 markedHistory)" by code_simp
  have "take 2 markedHistory \<noteq> markedHistory" "m_CacheBoundary (markedHistory ! 1)" "length markedHistory = 3"
    by (simp_all add: markedHistory_def)
  then show ?thesis using compaction_safe [OF c] c by (auto simp: numeral_2_eq_2)
qed

end
