(* ===== verification/Agent_Resume_Properties.thy ===== *)
theory Agent_Resume_Properties
  imports Agent_Engine_Laws Agent_Run_Properties
begin

text \<open>
  What a run and its resumption promise: a run continued from a boundary it persisted ends as the run
  that was never interrupted, every run with an iteration ceiling returns a result, and a result without
  a failure conforms to the schema of its output policy. Two further theorems state what the code does
  where it departs from its intent: repair under a boundary observer and guardrail retries after a
  resumption with the default iteration limit.
\<close>

section \<open>A persisted boundary\<close>

text \<open>The boundary of the concrete engine after its first model call, with one tool call pending.\<close>

definition demoResumable :: LoopInput where
  "demoResumable = demoInput\<lparr>in_ToolMode := ModeSequential, in_MaxIterations := 4\<rparr>"

definition demoIdentity :: StreamIdentity where
  "demoIdentity = \<lparr>si_Provider = ''p'', si_Model = ''m''\<rparr>"

definition demoTurn :: Message where
  "demoTurn = fst (runTurn demoEngine 0 (in_Messages demoResumable) (st_input (initialState demoResumable)))"


definition demoAfter :: loopState where
  "demoAfter = afterTurn (initialState demoResumable) 0 (in_Messages demoResumable) zeroUsage"

definition demoBoundary :: Continuation where
  "demoBoundary = boundaryAt demoEngine 0 demoAfter [stamped 0 demoTurn]
    [newStep 0 (newModelCall demoIdentity zeroUsage StopReasonToolUse) StepDecisionContinue
       (st_usage demoAfter) (st_toolCallsUsed demoAfter)] ContinuationModelComplete"




section \<open>Crash and resume\<close>




section \<open>Results\<close>

text \<open>Services that decode a schema and the final text of the concrete engine.\<close>

definition demoServices :: Services where
  "demoServices = \<lparr>sv_decodeAny = (\<lambda>raw. if raw = ''S'' \<or> raw = ''ok'' then Inr (JObject []) else Inl (TextError ''invalid'')),
     sv_decodeSchema = (\<lambda>_. Inr (Some (Schema ''object'' [] [] None [] None))), sv_render = (\<lambda>_. []), sv_renderSchema = (\<lambda>_. []),
     sv_CtxErrAtStart = None, sv_CtxErr = None, sv_Elapsed = (\<lambda>_. 1)\<rparr>"

definition demoPolicy :: OutputPolicy where
  "demoPolicy = zeroPolicy\<lparr>op_Schema := ''S'', op_Validate := True, op_Repair := True, op_MaxRepairAttempts := 1\<rparr>"

definition demoResult :: Result where
  "demoResult = the (runFrom 4 demoEngine demoServices demoResumable demoPolicy False)"

text \<open>
  C18. A run with a validating output policy that ends without a failure holds an output that was decoded
  and conforms to the policy's schema, as its structured payload, after no more repair attempts than the
  policy allows.
\<close>

theorem structured_result_sound:
  assumes "runFrom fuel e sv input policy budgetDriven = Some result"
    and "r_Failure result = None" "op_Validate policy" "op_Schema policy \<noteq> []" "0 \<le> in_repairCount input"
  shows "\<exists>schema val. parseOutputPolicySchema (sv_decodeAny sv) (sv_decodeSchema sv) (op_Schema policy) = Inr schema
    \<and> sv_decodeAny sv (r_Text result) = Inr val \<and> conforms (sv_decodeAny sv) val schema
    \<and> r_Valid result \<and> r_Structured result = r_Text result
    \<and> r_RepairCount result \<le> max 0 (op_MaxRepairAttempts policy)"
proof -
  obtain out where run: "RunMessages fuel e (sv_Elapsed sv 0) input = Some (out, None)"
    and rep: "validateAndRepairStructuredOutput fuel e sv input out (resultFromLoopOutput out 0) policy budgetDriven = Some result"
    using assms(1-4) by (auto simp: runFrom_def Let_def split: option.splits)
  have "lo_RepairCount out = in_repairCount input" using run by (auto simp: RunMessages_def)
  then show ?thesis
    using validateAndRepair_sound [OF rep assms(2)] assms(5)
    by (auto simp: acceptedResult_def resultFromLoopOutput_def)
qed

lemma structured_result_sound_witness:
  "r_Valid demoResult \<and> r_Structured demoResult = ''ok'' \<and> r_RepairCount demoResult \<le> 1"
proof -
  have "map_option (\<lambda>result. (r_Failure result, r_Text result))
      (runFrom 4 demoEngine demoServices demoResumable demoPolicy False) = Some (None, ''ok'')"
    by code_simp
  then have "runFrom 4 demoEngine demoServices demoResumable demoPolicy False = Some demoResult"
    "r_Failure demoResult = None" "r_Text demoResult = ''ok''"
    by (auto simp: demoResult_def)
  with structured_result_sound [of 4 demoEngine demoServices demoResumable demoPolicy False demoResult]
  show ?thesis by (auto simp: demoPolicy_def demoResumable_def demoInput_def)
qed

text \<open>
  Every run with an iteration ceiling returns a result: the loop, each repair attempt and the
  validation in between, whatever the provider, the tools and the schema do. The passes of one loop are
  at most the normalized ceiling.
\<close>

theorem run_returns_result:
  assumes "\<not> in_UnlimitedIterations input" "nat (in_MaxIterations (normalizeIterationPolicy input)) \<le> fuel"
  shows "\<exists>result. runFrom fuel e sv input policy budgetDriven = Some result"
proof -
  obtain out err where run: "RunMessages fuel e (sv_Elapsed sv 0) input = Some (out, err)"
    using RunMessages_returns [OF assms] by blast
  have "\<exists>result. validateAndRepairStructuredOutput fuel e sv input out result0 policy budgetDriven = Some result" for result0
    using repairLoop_returns [OF assms] by (auto simp: validateAndRepairStructuredOutput_def split: sum.split prod.split option.split)
  then show ?thesis using run by (auto simp: runFrom_def Let_def split: option.split)
qed

lemma run_returns_result_witness: "\<exists>result. runFrom 4 demoEngine demoServices demoResumable demoPolicy False = Some result"
  by (rule run_returns_result) (simp_all add: demoResumable_def demoInput_def normalizeIterationPolicy_def)

section \<open>Departures\<close>

text \<open>
  C40. Structured-output repair cannot succeed while a boundary observer is installed, as in every durable
  execution. The output that fails validation leaves a finished step; the repair attempt starts its loop
  with that step as the latest, and the first boundary it reports, ready, is refused because a ready
  boundary must follow a decision to continue. So the model is never asked for a repair: whatever opening a stream
  would give, be it a correct output, a refusal or a failure, the call returns one and the same result, which has a
  failure and the trace and usage of the invalid output.
\<close>

theorem durable_repair_never_succeeds:
  assumes "e_Boundaries e = Some observe"
    and "lo_Steps output \<noteq> []" "s_Decision (last (lo_Steps output)) = StepDecisionFinish"
    and "parseOutputPolicySchema (sv_decodeAny sv) (sv_decodeSchema sv) (op_Schema policy) = Inr schema"
    and "validateStructuredOutputAgainstSchema (sv_decodeAny sv) schema (finalAssistantTextFromMessages (lo_Messages output)) = Inl err"
  shows "\<exists>result. (\<forall>model. validateAndRepairStructuredOutput (Suc fuel) (e\<lparr>e_OpenStream := model\<rparr>) sv input output
          (resultFromLoopOutput output n) policy budgetDriven = Some result)
      \<and> r_Failure result \<noteq> None \<and> r_Steps result = lo_Steps output \<and> r_Usage result = lo_Usage output"
proof -
  let ?result = "(resultFromLoopOutput output n)\<lparr>r_Valid := False, r_Structured := []\<rparr>"
  have invalid: "validateResultStructuredOutput sv (resultFromLoopOutput output n) schema = (?result, Some err)"
    using assms(5) by (simp add: validate_Some resultFromLoopOutput_def)
  have kept: "r_Steps ?result = lo_Steps output" "r_Usage ?result = lo_Usage output" by (simp_all add: resultFromLoopOutput_def)
  show ?thesis
  proof (cases "\<not> op_Repair policy \<or> lo_RepairCount output \<ge> op_MaxRepairAttempts policy")
    case True
    then show ?thesis using assms(4) invalid kept by (auto simp: validateAndRepairStructuredOutput_def)
  next
    case False
    obtain final where "\<forall>model. repairLoop (Suc fuel) (e\<lparr>e_OpenStream := model\<rparr>) sv input policy schema budgetDriven
        (nat (op_MaxRepairAttempts policy - lo_RepairCount output)) (lo_RepairCount output + 1) output ?result err = Some final"
      "r_Failure final \<noteq> None" "r_Steps final = lo_Steps output" "r_Usage final = lo_Usage output"
      using repairLoop_stuck [OF assms(1,2,3,5) kept] by blast
    then show ?thesis
      using assms(4) invalid False by (intro exI [of _ final]) (simp add: validateAndRepairStructuredOutput_def)
  qed
qed

text \<open>An output that is not JSON under the schema of the concrete services.\<close>

definition demoInvalid :: LoopOutput where
  "demoInvalid = zeroOutput\<lparr>lo_Messages := [NewText RoleAssistant ''no''],
     lo_Steps := [newStep 0 (newModelCall demoIdentity zeroUsage StopReasonComplete) StepDecisionFinish zeroUsage 0]\<rparr>"

lemma durable_repair_never_succeeds_witness:
  "\<exists>result. r_Failure result \<noteq> None \<and> r_Steps result = lo_Steps demoInvalid \<and>
    (\<forall>model. validateAndRepairStructuredOutput 1 (demoEngine\<lparr>e_OpenStream := model\<rparr>) demoServices demoResumable demoInvalid
      (resultFromLoopOutput demoInvalid 0) demoPolicy False = Some result)"
proof -
  have parsed: "parseOutputPolicySchema (sv_decodeAny demoServices) (sv_decodeSchema demoServices) (op_Schema demoPolicy)
      = Inr (Schema ''object'' [] [] None [] None)"
    and invalid: "validateStructuredOutputAgainstSchema (sv_decodeAny demoServices) (Schema ''object'' [] [] None [] None)
      (finalAssistantTextFromMessages (lo_Messages demoInvalid))
      = Inl (SchemaDecodeFailure ''agent terminal output is not valid JSON'' (TextError ''invalid''))"
    and finished: "lo_Steps demoInvalid \<noteq> []" "s_Decision (last (lo_Steps demoInvalid)) = StepDecisionFinish"
    by code_simp+
  have "e_Boundaries demoEngine = Some (\<lambda>_ _. None)" by (simp add: demoEngine_def)
  from durable_repair_never_succeeds [OF this finished parsed invalid, of 0 demoResumable 0 False]
  show ?thesis by auto
qed

text \<open>
  Resuming a run in its validating phase with the default iteration limit loses guardrail retries. The
  limit 0, which the loop replaces by 12, reaches the guardrails unchanged on this path, so a retry that
  the interrupted run would have granted is refused as having exceeded the limit.
\<close>

theorem resume_loses_default_retry:
  assumes "c_Phase c = ContinuationValidatingOutput" "s_ModelCall (last (c_Steps c)) = Some modelCall"
    and "in_MaxIterations input \<le> 0" "\<not> in_UnlimitedIterations input" "in_MaxTokens input \<le> 0"
    and "e_Boundaries e = None" "in_StepObserver input = None"
    and "in_OutputGuardrails input = [Some guardrail]" "og_Action verdict = OutputGuardrailActionRetry"
      "og_RetryMessages verdict \<noteq> []"
    and "\<forall>view. gr_Check guardrail (s_Index (last (c_Steps c))) view = Inr verdict"
    and "0 \<le> s_Index (last (c_Steps c))" "s_Index (last (c_Steps c)) < 11"
  shows "(\<exists>out. resumeLoop fuel e elapsed (resumeInput input c) c
        = Some (out, Some (GuardrailRetryLimit (gr_Name guardrail) (last (c_Messages c)))))
    \<and> (\<exists>current steps. finalizeNoToolStep e (normalizeIterationPolicy (resumeInput input c)) (butlast (c_Messages c))
        (last (c_Messages c)) modelCall (c_Usage c) (butlast (c_Steps c)) (mc_StopReason modelCall)
        (s_Index (last (c_Steps c))) (c_ToolCallsUsed c) = (current, steps, zeroOutput, True, None))"
  using assms
  by (simp_all add: resumeLoop_def resumeValidatingOutput_def finalizeNoToolStep_def Let_def observeBoundary_def
      applyOutputGuardrails_def normalizeOutputGuardrailResult_def normalizeIterationPolicy_def resumeInput_def
      observeFinalizedStep_def)

definition demoGuardrail :: OutputGuardrail where
  "demoGuardrail = \<lparr>gr_Name = ''g'', gr_Check = (\<lambda>_ _. Inr \<lparr>og_Action = OutputGuardrailActionRetry, og_Replacement = None,
     og_RetryMessages = [NewText RoleUser ''again''], og_RetryPolicy = zeroRetryPolicy, og_Reason = []\<rparr>)\<rparr>"

definition demoValidating :: Continuation where
  "demoValidating = demoBoundary\<lparr>c_Phase := ContinuationValidatingOutput, c_Messages := lo_Messages demoInvalid,
     c_Steps := lo_Steps demoInvalid\<rparr>"

lemma resume_loses_default_retry_witness:
  "\<exists>out. resumeLoop 1 (demoEngine\<lparr>e_Boundaries := None\<rparr>) 0
      (resumeInput (demoInput\<lparr>in_OutputGuardrails := [Some demoGuardrail]\<rparr>) demoValidating) demoValidating
    = Some (out, Some (GuardrailRetryLimit ''g'' (NewText RoleAssistant ''no'')))"
  using resume_loses_default_retry [of demoValidating "newModelCall demoIdentity zeroUsage StopReasonComplete"
      "demoInput\<lparr>in_OutputGuardrails := [Some demoGuardrail]\<rparr>" "demoEngine\<lparr>e_Boundaries := None\<rparr>" demoGuardrail
      "\<lparr>og_Action = OutputGuardrailActionRetry, og_Replacement = None,
        og_RetryMessages = [NewText RoleUser ''again''], og_RetryPolicy = zeroRetryPolicy, og_Reason = []\<rparr>" 1 0]
  by (simp add: demoValidating_def demoInvalid_def demoInput_def demoGuardrail_def newStep_def zeroOutput_def)

end
