(* ===== verification/Tool_Bus_Laws.thy ===== *)
theory Tool_Bus_Laws
  imports Tool_Bus
begin

text \<open>
  Laws of the tool bus: the well-formedness of every registry that can be built, what executing one call
  guarantees, and the accounting of sequential batches.
\<close>

section \<open>The registry\<close>

definition wfEntry :: "(string \<times> int) list \<Rightarrow> string \<times> busEntry \<Rightarrow> bool" where
  "wfEntry limiters named \<longleftrightarrow>
     (case named of (name, entry) \<Rightarrow>
        name \<noteq> [] \<and> td_Name (be_definition entry) = name \<and> td_Name (dr_Definition (be_driver entry)) = name \<and>
        av_err (be_validation entry) = None \<and>
        (case concurrencySpec (be_definition entry) of
           Inl _ \<Rightarrow> False
         | Inr (key, capacity) \<Rightarrow> if key = [] then capacity = 0 else map_of limiters key = Some capacity))"

definition wfBus :: "Bus \<Rightarrow> bool" where
  "wfBus bus \<longleftrightarrow>
     distinct (map fst (bus_entries bus)) \<and> list_all (wfEntry (bus_limiters bus)) (bus_entries bus) \<and>
     distinct (map fst (bus_limiters bus)) \<and> list_all (\<lambda>(key, capacity). key \<noteq> [] \<and> capacity > 0) (bus_limiters bus)"

lemma wfBus_empty [simp]: "wfBus emptyBus"
  by (simp add: wfBus_def emptyBus_def)

lemma wfBus_err [simp]: "wfBus (bus\<lparr>bus_err := err\<rparr>) = wfBus bus"
  by (simp add: wfBus_def)

lemma concurrencySpec_capacity:
  assumes "concurrencySpec d = Inr (key, capacity)" "td_Name d \<noteq> []"
  shows "if key = [] then capacity = 0 else capacity > 0"
  using assms by (auto simp: concurrencySpec_def Let_def split: if_splits ToolConcurrencyMode.splits)

lemma wfEntry_more_limiters:
  assumes "wfEntry limiters named" "key \<notin> fst ` set limiters"
  shows "wfEntry ((key, capacity) # limiters) named"
proof -
  have "map_of limiters key = None" using assms(2) by (simp add: map_of_eq_None_iff)
  then show ?thesis using assms(1) by (auto simp: wfEntry_def split: prod.splits sum.splits if_splits)
qed

lemma Register_wf:
  assumes "wfBus bus"
  shows "wfBus (fst (Register compile bus driver))"
proof (cases "snd (Register compile bus driver)")
  case (Some err)
  then have "fst (Register compile bus driver) = bus"
    by (auto simp: Register_def Let_def split: option.splits sum.splits if_splits prod.splits)
  then show ?thesis using assms by simp
next
  case None
  then obtain d key capacity where d: "driver = Some d" "td_Name (dr_Definition d) \<noteq> []"
    "av_err (compileArgumentValidation compile (dr_Definition d)) = None"
    and spec: "concurrencySpec (dr_Definition d) = Inr (key, capacity)"
    and fresh: "map_of (bus_entries bus) (td_Name (dr_Definition d)) = None"
    and lim: "key = [] \<or> map_of (bus_limiters bus) key = None \<or> map_of (bus_limiters bus) key = Some capacity"
    by (auto simp: Register_def Let_def split: option.splits sum.splits if_splits prod.splits)
  let ?limiters = "if key \<noteq> [] \<and> map_of (bus_limiters bus) key = None then (key, capacity) # bus_limiters bus else bus_limiters bus"
  have bus: "fst (Register compile bus driver) = bus\<lparr>bus_limiters := ?limiters,
     bus_entries := (td_Name (dr_Definition d), \<lparr>be_driver = d, be_definition = dr_Definition d,
        be_validation = compileArgumentValidation compile (dr_Definition d)\<rparr>) # bus_entries bus\<rparr>"
    using d spec fresh lim by (auto simp: Register_def Let_def)
  have cap: "if key = [] then capacity = 0 else capacity > 0" using concurrencySpec_capacity [OF spec d(2)] .
  have entry: "wfEntry ?limiters (td_Name (dr_Definition d), \<lparr>be_driver = d, be_definition = dr_Definition d,
        be_validation = compileArgumentValidation compile (dr_Definition d)\<rparr>)"
    using d spec lim cap by (auto simp: wfEntry_def)
  have old: "list_all (wfEntry ?limiters) (bus_entries bus)"
    using assms wfEntry_more_limiters [of "bus_limiters bus" _ key capacity]
    by (auto simp: wfBus_def list_all_iff map_of_eq_None_iff)
  show ?thesis
    using assms entry old cap fresh unfolding bus by (auto simp: wfBus_def map_of_eq_None_iff)
qed

lemma registerAll_wf: "wfBus bus \<Longrightarrow> wfBus (registerAll compile bus drivers)"
proof (induction compile bus drivers rule: registerAll.induct)
  case (2 compile bus driver drivers)
  obtain bus1 err where r: "Register compile bus driver = (bus1, err)" by fastforce
  then have "wfBus bus1" using Register_wf [OF 2(3), of compile driver] by simp
  then show ?case using 2(1,2) r by (cases err) auto
qed simp

lemma mapEntries_wf:
  assumes "mapEntries mapper entries err = (mapped, err')"
  shows "map fst mapped = map fst entries \<and> (list_all (wfEntry limiters) entries \<longrightarrow> list_all (wfEntry limiters) mapped)"
  using assms
proof (induction mapper entries err arbitrary: mapped err' rule: mapEntries.induct)
  case (2 mapper name entry entries err)
  have keep: "wfEntry limiters (name, entry\<lparr>be_driver := d\<rparr>)" if "wfEntry limiters (name, entry)" "td_Name (dr_Definition d) = name" for d
    using that by (simp add: wfEntry_def)
  show ?case
  proof (cases "mapper (be_definition entry) (be_driver entry)")
    case None
    then show ?thesis using 2(1) [OF None] 2(4) by (auto split: prod.splits)
  next
    case (Some d)
    show ?thesis
    proof (cases "td_Name (dr_Definition d) = name")
      case True
      then show ?thesis using 2(3) [OF Some] 2(4) Some keep by (auto split: prod.splits)
    next
      case False
      then show ?thesis using 2(2) [OF Some] 2(4) Some by (auto split: prod.splits)
    qed
  qed
qed simp

lemma subsetLoop_wf:
  assumes "wfBus bus" "wfBus chosen" "bus_limiters chosen = bus_limiters bus" "fst ` set (bus_entries chosen) \<subseteq> seen"
  shows "wfBus (subsetLoop bus names seen chosen)"
  using assms
proof (induction bus names seen chosen rule: subsetLoop.induct)
  case (2 bus name names seen chosen)
  show ?case
  proof (cases "name \<in> seen")
    case False
    show ?thesis
    proof (cases "map_of (bus_entries bus) name")
      case (Some entry)
      have "wfEntry (bus_limiters bus) (name, entry)"
        using 2(3) map_of_SomeD [OF Some] by (auto simp: wfBus_def list_all_iff)
      then have "wfBus (chosen\<lparr>bus_entries := bus_entries chosen @ [(name, entry)]\<rparr>)"
        using 2(4-6) False by (auto simp: wfBus_def)
      then show ?thesis using 2(2-6) False Some by auto
    qed (use 2(2-6) False in auto)
  qed (use 2(1,3-6) in auto)
qed simp

text \<open>Every bus the package can build.\<close>

inductive busBuilt :: "compiler \<Rightarrow> Bus \<Rightarrow> bool" for compile where
  new: "busBuilt compile (NewBus compile drivers)"
| register: "busBuilt compile bus \<Longrightarrow> busBuilt compile (fst (Register compile bus driver))"
| clone: "busBuilt compile bus \<Longrightarrow> busBuilt compile (Clone (Some bus))"
| mapped: "busBuilt compile bus \<Longrightarrow> busBuilt compile (MapDrivers mapper (Some bus))"
| subset: "busBuilt compile bus \<Longrightarrow> busBuilt compile (Subset (Some bus) names)"

lemma busBuilt_wf: "busBuilt compile bus \<Longrightarrow> wfBus bus"
proof (induction rule: busBuilt.induct)
  case (mapped bus mapper)
  then show ?case
  proof (cases mapper)
    case (Some f)
    obtain entries err where "mapEntries f (bus_entries bus) (bus_err bus) = (entries, err)" by fastforce
    then show ?thesis
      using mapEntries_wf [of f "bus_entries bus" "bus_err bus" entries err "bus_limiters bus"] mapped(2) Some
      by (simp add: MapDrivers_def wfBus_def)
  qed (simp add: MapDrivers_def Clone_def)
next
  case (subset bus names)
  then have "wfBus \<lparr>bus_entries = [], bus_limiters = bus_limiters bus, bus_err = bus_err bus\<rparr>" by (simp add: wfBus_def)
  then show ?case using subset subsetLoop_wf [of bus _ "{}" names] by (simp add: Subset_def)
qed (simp_all add: NewBus_def registerAll_wf Register_wf Clone_def)

section \<open>Executing one call\<close>

lemma Execute_cases:
  obtains (refused) err where "Execute bus env call = ([], Returned zeroToolResult (Some err))"
  | (rejected) err where "Execute bus env call = ([], Returned (SyncLegacyToolContent (zeroToolResult\<lparr>tr_ToolCallID := tc_ID call,
       tr_Name := tc_Name call, tr_Content := tc_Name call @ '' rejected: '' @ en_errorText env err, tr_IsError := True\<rparr>)) None)"
  | (run) entry where "map_of (bus_entries bus) (tc_Name call) = Some entry"
      "Execute bus env call = chainFrom (en_marshal env) 0 (case en_interceptor env of None \<Rightarrow> [] | Some i \<Rightarrow> [i])
         (terminalExecute (en_sink env) (dr_Execute (be_driver entry))) call"
proof -
  have chain: "(case ChainInterceptors (en_marshal env) [en_interceptor env] of None \<Rightarrow> terminal call | Some chain \<Rightarrow> chain terminal call)
      = chainFrom (en_marshal env) 0 (case en_interceptor env of None \<Rightarrow> [] | Some i \<Rightarrow> [i]) terminal call" for terminal
    by (auto simp: ChainInterceptors_def split: option.split)
  show thesis
  proof (cases "bus_err bus = None \<and> map_of (bus_entries bus) (tc_Name call) \<noteq> None")
    case False
    then have "\<exists>err. Execute bus env call = ([], Returned zeroToolResult (Some err))"
      by (cases "bus_err bus") (auto simp: Execute_def Validate_def Let_def)
    then show thesis using refused by blast
  next
    case True
    then obtain entry where e: "map_of (bus_entries bus) (tc_Name call) = Some entry" "bus_err bus = None" by auto
    show thesis
    proof (cases "av_err (be_validation entry)")
      case (Some err)
      then show thesis using refused e by (simp add: Execute_def Validate_def Let_def)
    next
      case valid: None
      show thesis
      proof (cases "validateArguments (en_parse env) (en_errorText env) (be_validation entry) (tc_Arguments call)")
        case (Some err)
        then show thesis using rejected e valid by (simp add: Execute_def Validate_def Let_def)
      next
        case ok: None
        show thesis
        proof (cases "let key = (case concurrencySpec (be_definition entry) of Inl _ \<Rightarrow> [] | Inr (k, _) \<Rightarrow> k)
            in if map_of (bus_limiters bus) key = None then None else en_acquire env key")
          case (Some err)
          then show thesis using refused e valid ok by (simp add: Execute_def Validate_def Let_def)
        next
          case None
          then show thesis using run e valid ok chain by (simp add: Execute_def Validate_def Let_def)
        qed
      qed
    qed
  qed
qed

lemma Execute_reached:
  assumes "Execute bus env call = (reached, outcome)"
  shows "length reached \<le> 1"
    and "\<forall>c \<in> set reached. tc_OperationID c = tc_OperationID call \<and> en_marshal env c = en_marshal env call"
proof -
  have "length reached \<le> 1 \<and> (\<forall>c \<in> set reached. tc_OperationID c = tc_OperationID call \<and> en_marshal env c = en_marshal env call)"
  proof (cases bus env call rule: Execute_cases)
    case (run entry)
    let ?stage = "chainFrom (en_marshal env) 0 (case en_interceptor env of None \<Rightarrow> [] | Some i \<Rightarrow> [i])
         (terminalExecute (en_sink env) (dr_Execute (be_driver entry)))"
    have stage: "guarded_stage (en_marshal env) ?stage" by (rule chainFrom_stage)
    have ran: "?stage call = (reached, outcome)" using run(2) assms by simp
    show ?thesis using guarded_stage.once [OF stage ran] guarded_stage.unchanged [OF stage ran] by blast
  qed (use assms in auto)
  then show "length reached \<le> 1"
    "\<forall>c \<in> set reached. tc_OperationID c = tc_OperationID call \<and> en_marshal env c = en_marshal env call" by blast+
qed

text \<open>Without an interceptor the result of a call carries its identity.\<close>

lemma toolUpdateExecute_identity:
  assumes "toolUpdateExecute sink run call = (st, Returned result err)"
  shows "tr_ToolCallID result = tc_ID call \<and> tr_Name result = tc_Name call"
  using assms normalizeUpdatedResult_ok(1,2)
  by (fastforce simp: toolUpdateExecute_def finish_def split: execOutcome.splits prod.splits)

lemma Execute_identity:
  assumes "Execute bus env call = (reached, Returned result None)" "en_interceptor env = None"
  shows "tr_ToolCallID result = tc_ID call \<and> tr_Name result = tc_Name call"
proof (cases bus env call rule: Execute_cases)
  case (run entry)
  then have "snd (toolUpdateExecute (en_sink env) (dr_Execute (be_driver entry) call) call) = Returned result None"
    using assms by (simp add: terminalExecute_def)
  then show ?thesis using toolUpdateExecute_identity by (metis prod.collapse)
qed (use assms in \<open>auto simp: SyncLegacyToolContent_def\<close>)

end
