(* ===== verification/Tool_Parallel.thy ===== *)
theory Tool_Parallel
  imports Tool_Bus_Laws
begin

text \<open>
  Parallel batches (\<^verbatim>\<open>executeParallel\<close> of \<^verbatim>\<open>src/tool/tool.go\<close>) as a step relation. A dispatcher hands the
  indexes of the calls, in order, to a pool of at most 32 workers over an unbuffered channel; a worker
  checks the context, waits for the permit of the tool's concurrency group, runs the tool and writes the
  slot of its index; the context may be cancelled at any moment, after which the dispatcher marks
  everything it has not handed out. All interleavings of these atomic actions are runs of the relation.

  \<open>exec index waited\<close> is \<open>Execute\<close> on the call of the index when waiting for the permit ends with \<open>waited\<close>,
  and \<open>limit index\<close> the group of its tool with its capacity. Permits of the same group that other batches
  hold only remove interleavings, so they need not appear.
\<close>

section \<open>The pool\<close>

text \<open>
  The state of a slot: not handed out, handed to a worker, past the context check and waiting for its
  permit, holding the permit with the tool running, or written.
\<close>

datatype slot = Idle | Received | Waiting | Holding | Written "ToolResult \<times> goError option"

record pool =
  pl_slots :: "slot list"
  pl_next :: nat
  pl_checked :: bool
  pl_stopped :: bool
  pl_cancelled :: "goError option"
  pl_executed :: "nat list"

definition workerCount :: "nat \<Rightarrow> nat" where
  "workerCount calls = min DefaultBatchConcurrency calls"

definition busy :: "slot \<Rightarrow> bool" where
  "busy slot \<longleftrightarrow> slot = Received \<or> slot = Waiting \<or> slot = Holding"

definition inFlight :: "pool \<Rightarrow> nat" where
  "inFlight p = length (filter busy (pl_slots p))"

definition startPool :: "nat \<Rightarrow> pool" where
  "startPool calls = \<lparr>pl_slots = replicate calls Idle, pl_next = 0, pl_checked = False, pl_stopped = False,
     pl_cancelled = None, pl_executed = []\<rparr>"

text \<open>What a worker writes: the outcome of \<open>Execute\<close>, or the recovered panic with the zero result.\<close>

definition writtenBy :: "execOutcome \<Rightarrow> ToolResult \<times> goError option" where
  "writtenBy outcome =
     (case outcome of Returned result err \<Rightarrow> (result, err)
      | Panicked reason \<Rightarrow> (zeroToolResult, Some (Wrapped reason (SentinelError ''tool.ErrToolPanic''))))"

definition skippedFor :: "goError \<Rightarrow> ToolResult \<times> goError option" where
  "skippedFor err = (zeroToolResult, Some (JoinError [notExecuted, err]))"

type_synonym slotExec = "nat \<Rightarrow> goError option \<Rightarrow> ToolCall list \<times> execOutcome"
type_synonym slotLimit = "nat \<Rightarrow> (string \<times> nat) option"

text \<open>The slots of a group that hold its permit.\<close>

definition holders :: "slotLimit \<Rightarrow> string \<Rightarrow> slot list \<Rightarrow> nat list" where
  "holders limit key slots = filter (\<lambda>i. slots ! i = Holding \<and> map_option fst (limit i) = Some key) [0..<length slots]"

definition permitFree :: "slotLimit \<Rightarrow> pool \<Rightarrow> nat \<Rightarrow> bool" where
  "permitFree limit p i =
     (case limit i of None \<Rightarrow> True | Some (key, capacity) \<Rightarrow> length (holders limit key (pl_slots p)) < capacity)"

definition writeSlot :: "pool \<Rightarrow> nat \<Rightarrow> ToolCall list \<times> execOutcome \<Rightarrow> pool" where
  "writeSlot p i answer =
     p\<lparr>pl_slots := (pl_slots p)[i := Written (writtenBy (snd answer))],
       pl_executed := (if fst answer = [] then pl_executed p else pl_executed p @ [i])\<rparr>"

inductive poolStep :: "slotExec \<Rightarrow> slotLimit \<Rightarrow> pool \<Rightarrow> pool \<Rightarrow> bool" for exec limit where
  cancel: "pl_cancelled p = None \<Longrightarrow> poolStep exec limit p (p\<lparr>pl_cancelled := Some err\<rparr>)"
| check: "\<not> pl_stopped p \<Longrightarrow> \<not> pl_checked p \<Longrightarrow> pl_next p < length (pl_slots p) \<Longrightarrow> pl_cancelled p = None \<Longrightarrow>
    poolStep exec limit p (p\<lparr>pl_checked := True\<rparr>)"
| send: "\<not> pl_stopped p \<Longrightarrow> pl_checked p \<Longrightarrow> pl_next p < length (pl_slots p) \<Longrightarrow>
    inFlight p < workerCount (length (pl_slots p)) \<Longrightarrow>
    poolStep exec limit p (p\<lparr>pl_slots := (pl_slots p)[pl_next p := Received], pl_next := Suc (pl_next p),
      pl_checked := False\<rparr>)"
| stop: "\<not> pl_stopped p \<Longrightarrow> pl_next p < length (pl_slots p) \<Longrightarrow> pl_cancelled p = Some err \<Longrightarrow>
    poolStep exec limit p (p\<lparr>pl_slots := take (pl_next p) (pl_slots p)
        @ replicate (length (pl_slots p) - pl_next p) (Written (skippedFor err)), pl_stopped := True\<rparr>)"
| begin_work: "i < length (pl_slots p) \<Longrightarrow> pl_slots p ! i = Received \<Longrightarrow> pl_cancelled p = None \<Longrightarrow>
    poolStep exec limit p (p\<lparr>pl_slots := (pl_slots p)[i := Waiting]\<rparr>)"
| skip: "i < length (pl_slots p) \<Longrightarrow> pl_slots p ! i = Received \<Longrightarrow> pl_cancelled p = Some err \<Longrightarrow>
    poolStep exec limit p (p\<lparr>pl_slots := (pl_slots p)[i := Written (skippedFor err)]\<rparr>)"
| acquire: "i < length (pl_slots p) \<Longrightarrow> pl_slots p ! i = Waiting \<Longrightarrow> permitFree limit p i \<Longrightarrow>
    poolStep exec limit p (p\<lparr>pl_slots := (pl_slots p)[i := Holding]\<rparr>)"
| denied: "i < length (pl_slots p) \<Longrightarrow> pl_slots p ! i = Waiting \<Longrightarrow> limit i \<noteq> None \<Longrightarrow>
    poolStep exec limit p (writeSlot p i (exec i (Some err)))"
| refused: "i < length (pl_slots p) \<Longrightarrow> pl_slots p ! i = Waiting \<Longrightarrow> fst (exec i None) = [] \<Longrightarrow>
    poolStep exec limit p (writeSlot p i (exec i None))"
| complete: "i < length (pl_slots p) \<Longrightarrow> pl_slots p ! i = Holding \<Longrightarrow>
    poolStep exec limit p (writeSlot p i (exec i None))"

inductive_cases poolStepE: "poolStep exec limit p p'"

inductive poolRun :: "slotExec \<Rightarrow> slotLimit \<Rightarrow> nat \<Rightarrow> pool \<Rightarrow> bool" for exec limit calls where
  start: "poolRun exec limit calls (startPool calls)"
| step: "poolRun exec limit calls p \<Longrightarrow> poolStep exec limit p p' \<Longrightarrow> poolRun exec limit calls p'"

text \<open>The workers are done and the dispatcher has left its loop.\<close>

definition finished :: "pool \<Rightarrow> bool" where
  "finished p \<longleftrightarrow> (pl_stopped p \<or> pl_next p = length (pl_slots p)) \<and> list_all (\<lambda>s. \<not> busy s) (pl_slots p)"

section \<open>Collecting the results\<close>

fun writtenOf :: "slot \<Rightarrow> ToolResult \<times> goError option" where
  "writtenOf (Written w) = w"
| "writtenOf _ = (zeroToolResult, None)"

text \<open>
  The loop after \<^verbatim>\<open>workers.Wait\<close>. The identity of a result is filled in only in the copies that are
  returned beside failures; without failures the slots are returned as they are.
\<close>

definition fillIdentity :: "ToolCall \<Rightarrow> ToolResult \<Rightarrow> ToolResult" where
  "fillIdentity call result =
     result\<lparr>tr_ToolCallID := (if tr_ToolCallID result = [] then tc_ID call else tr_ToolCallID result),
            tr_Name := (if tr_Name result = [] then tc_Name call else tr_Name result)\<rparr>"

definition collectParallel :: "ToolCall list \<Rightarrow> (ToolResult \<times> goError option) list \<Rightarrow> batchOutcome" where
  "collectParallel calls written =
     (let failures = map (\<lambda>(call, (_, err)). (tc_ID call, the err))
                       (filter (\<lambda>(_, (_, err)). err \<noteq> None) (zip calls written));
          succeeded = map (\<lambda>(call, (result, _)). fillIdentity call result)
                        (filter (\<lambda>(_, (_, err)). err = None) (zip calls written))
      in if failures \<noteq> [] then Batch succeeded failures else Batch (map fst written) [])"

text \<open>The tool of a call and the permit it needs.\<close>

definition callLimit :: "Bus \<Rightarrow> ToolCall list \<Rightarrow> slotLimit" where
  "callLimit bus calls i =
     (case map_of (bus_entries bus) (tc_Name (calls ! i)) of
        None \<Rightarrow> None
      | Some entry \<Rightarrow>
          let key = (case concurrencySpec (be_definition entry) of Inl _ \<Rightarrow> [] | Inr (k, _) \<Rightarrow> k)
          in map_option (\<lambda>capacity. (key, nat capacity)) (map_of (bus_limiters bus) key))"

definition callExec :: "Bus \<Rightarrow> Env \<Rightarrow> ToolCall list \<Rightarrow> slotExec" where
  "callExec bus env calls i waited = Execute bus (env\<lparr>en_acquire := \<lambda>_. waited\<rparr>) (calls ! i)"

text \<open>
  \<^verbatim>\<open>ExecuteBatch\<close>: a batch that may run in parallel has the outcomes of the finished runs of its pool.
\<close>

inductive ExecuteBatch :: "Bus \<Rightarrow> Env \<Rightarrow> ToolCall list \<Rightarrow> bool \<Rightarrow> batchOutcome \<Rightarrow> bool" for bus env calls where
  too_many: "int (length calls) > MaxBatchCalls \<Longrightarrow>
    ExecuteBatch bus env calls parallel (BatchRefused (SentinelError ''tool.ErrTooManyToolCalls''))"
| sequential: "int (length calls) \<le> MaxBatchCalls \<Longrightarrow> \<not> parallel \<or> requiresSequential bus calls \<Longrightarrow>
    ExecuteBatch bus env calls parallel (snd (executeSequential (Execute bus env) calls [] []))"
| in_parallel: "int (length calls) \<le> MaxBatchCalls \<Longrightarrow> parallel \<Longrightarrow> \<not> requiresSequential bus calls \<Longrightarrow>
    poolRun (callExec bus env calls) (callLimit bus calls) (length calls) p \<Longrightarrow> finished p \<Longrightarrow>
    ExecuteBatch bus env calls parallel (collectParallel calls (map writtenOf (pl_slots p)))"

section \<open>The invariant\<close>

definition slotAnswered :: "slotExec \<Rightarrow> nat list \<Rightarrow> nat \<Rightarrow> slot \<Rightarrow> bool" where
  "slotAnswered exec executed i slot \<longleftrightarrow>
     (case slot of
        Written w \<Rightarrow>
          (\<exists>err. w = skippedFor err \<and> i \<notin> set executed)
          \<or> (\<exists>waited. w = writtenBy (snd (exec i waited)) \<and> (i \<in> set executed \<longleftrightarrow> fst (exec i waited) \<noteq> []))
      | _ \<Rightarrow> i \<notin> set executed)"

definition poolInv :: "slotExec \<Rightarrow> slotLimit \<Rightarrow> nat \<Rightarrow> pool \<Rightarrow> bool" where
  "poolInv exec limit calls p \<longleftrightarrow>
     length (pl_slots p) = calls \<and> pl_next p \<le> calls \<and> inFlight p \<le> workerCount calls \<and>
     distinct (pl_executed p) \<and> set (pl_executed p) \<subseteq> {..<calls} \<and>
     (\<forall>i < calls. slotAnswered exec (pl_executed p) i (pl_slots p ! i)) \<and>
     (\<forall>i < calls. pl_slots p ! i = Idle \<longleftrightarrow> \<not> pl_stopped p \<and> pl_next p \<le> i) \<and>
     (\<forall>i < calls. pl_stopped p \<and> pl_next p \<le> i \<longrightarrow> \<not> busy (pl_slots p ! i)) \<and>
     (\<forall>key capacity i. i < calls \<and> pl_slots p ! i = Holding \<and> limit i = Some (key, capacity) \<longrightarrow>
        length (holders limit key (pl_slots p)) \<le> capacity)"

lemma inFlight_update:
  assumes "i < length (pl_slots p)"
  shows "length (filter busy ((pl_slots p)[i := s])) + (if busy (pl_slots p ! i) then 1 else 0)
    = inFlight p + (if busy s then 1 else 0)"
  using length_filter_update [OF assms, of busy s] by (simp add: inFlight_def)

lemma busy_simps [simp]: "\<not> busy Idle" "busy Received" "busy Waiting" "busy Holding" "\<not> busy (Written w)"
  by (simp_all add: busy_def)

lemma length_holders: "length (holders limit key slots)
    = card {i. i < length slots \<and> slots ! i = Holding \<and> map_option fst (limit i) = Some key}"
proof -
  have "set (holders limit key slots) = {i. i < length slots \<and> slots ! i = Holding \<and> map_option fst (limit i) = Some key}"
    by (auto simp: holders_def)
  moreover have "distinct (holders limit key slots)" by (simp add: holders_def)
  ultimately show ?thesis by (metis distinct_card)
qed

lemma holders_mono:
  assumes "length slots' = length slots" "\<And>j. j < length slots \<Longrightarrow> slots' ! j = Holding \<Longrightarrow> slots ! j = Holding"
  shows "length (holders limit key slots') \<le> length (holders limit key slots)"
  unfolding length_holders using assms by (intro card_mono) auto

lemma holders_acquire:
  "i < length slots \<Longrightarrow> length (holders limit key (slots[i := Holding])) \<le> Suc (length (holders limit key slots))"
proof -
  assume i: "i < length slots"
  have "{j. j < length (slots[i := Holding]) \<and> slots[i := Holding] ! j = Holding \<and> map_option fst (limit j) = Some key}
      \<subseteq> insert i {j. j < length slots \<and> slots ! j = Holding \<and> map_option fst (limit j) = Some key}"
    by (auto simp: nth_list_update split: if_splits)
  then have "card {j. j < length (slots[i := Holding]) \<and> slots[i := Holding] ! j = Holding \<and> map_option fst (limit j) = Some key}
      \<le> card (insert i {j. j < length slots \<and> slots ! j = Holding \<and> map_option fst (limit j) = Some key})"
    by (intro card_mono) auto
  also have "\<dots> \<le> Suc (card {j. j < length slots \<and> slots ! j = Holding \<and> map_option fst (limit j) = Some key})"
    by (simp add: card_insert_if)
  finally show ?thesis unfolding length_holders .
qed

lemma poolInv_length: "poolInv exec limit calls p \<Longrightarrow> length (pl_slots p) = calls"
  by (simp add: poolInv_def)

lemma poolInv_permits:
  "poolInv exec limit calls p \<Longrightarrow> i < calls \<Longrightarrow> pl_slots p ! i = Holding \<Longrightarrow> limit i = Some (key, capacity) \<Longrightarrow>
   length (holders limit key (pl_slots p)) \<le> capacity"
  unfolding poolInv_def by blast

lemma poolInv_permits_less:
  assumes "poolInv exec limit calls p" "length slots = calls"
    "\<And>j. j < calls \<Longrightarrow> slots ! j = Holding \<Longrightarrow> pl_slots p ! j = Holding"
    "j < calls" "slots ! j = Holding" "limit j = Some (key, capacity)"
  shows "length (holders limit key slots) \<le> capacity"
proof -
  have "length (holders limit key slots) \<le> length (holders limit key (pl_slots p))"
    using assms(2,3) poolInv_length [OF assms(1)] by (intro holders_mono) auto
  also have "\<dots> \<le> capacity" using poolInv_permits [OF assms(1,4) _ assms(6)] assms(3-5) by blast
  finally show ?thesis .
qed

lemma poolInv_start: "poolInv exec limit calls (startPool calls)"
  by (auto simp: poolInv_def startPool_def inFlight_def slotAnswered_def)

text \<open>
  A worker's write to its own slot keeps the invariant when the new content is answered and no permit is
  taken.
\<close>

lemma poolInv_write:
  assumes inv: "poolInv exec limit calls p" and i: "i < calls" "busy (pl_slots p ! i)"
    and s: "s \<noteq> Idle" "s \<noteq> Holding"
    and ex: "executed = pl_executed p \<or> executed = pl_executed p @ [i] \<and> i \<notin> set (pl_executed p)"
    and answered: "slotAnswered exec executed i s"
  shows "poolInv exec limit calls (p\<lparr>pl_slots := (pl_slots p)[i := s], pl_executed := executed\<rparr>)"
proof -
  have len: "length (pl_slots p) = calls" using inv by (simp add: poolInv_def)
  have fly: "length (filter busy ((pl_slots p)[i := s])) \<le> workerCount calls"
    using inFlight_update [of i p s] inv i len by (auto simp: poolInv_def split: if_splits)
  have hold: "length (holders limit key ((pl_slots p)[i := s])) \<le> capacity"
    if "j < calls" "(pl_slots p)[i := s] ! j = Holding" "limit j = Some (key, capacity)" for key capacity j
  proof (rule poolInv_permits_less [OF inv _ _ that])
    show "\<And>j. j < calls \<Longrightarrow> (pl_slots p)[i := s] ! j = Holding \<Longrightarrow> pl_slots p ! j = Holding"
      using s(2) i(1) len by (auto simp: nth_list_update split: if_splits)
  qed (simp add: len)
  have other: "slotAnswered exec executed j (pl_slots p ! j)" if "j < calls" "j \<noteq> i" for j
  proof -
    have "j \<in> set executed \<longleftrightarrow> j \<in> set (pl_executed p)" using ex that(2) by auto
    moreover have "slotAnswered exec (pl_executed p) j (pl_slots p ! j)" using inv that(1) by (simp add: poolInv_def)
    ultimately show ?thesis by (cases "pl_slots p ! j") (simp_all add: slotAnswered_def)
  qed
  have "pl_slots p ! i \<noteq> Idle" using i(2) by auto
  then show ?thesis
    using inv i s ex answered other fly hold len
    unfolding poolInv_def
    by (auto simp: nth_list_update inFlight_def split: if_splits)
qed


text \<open>Permits of one group have one capacity.\<close>

locale pool_limits =
  fixes exec :: slotExec and limit :: slotLimit
  assumes one_capacity: "limit i = Some (key, capacity) \<Longrightarrow> limit j = Some (key, capacity') \<Longrightarrow> capacity = capacity'"
begin

lemma keeps_cancel: "poolInv exec limit calls p \<Longrightarrow> poolInv exec limit calls (p\<lparr>pl_cancelled := err\<rparr>)"
  and keeps_check: "poolInv exec limit calls p \<Longrightarrow> poolInv exec limit calls (p\<lparr>pl_checked := flag\<rparr>)"
  by (simp_all add: poolInv_def inFlight_def)

lemma keeps_send:
  assumes "poolInv exec limit calls p" "\<not> pl_stopped p" "pl_next p < calls" "inFlight p < workerCount calls"
  shows "poolInv exec limit calls (p\<lparr>pl_slots := (pl_slots p)[pl_next p := Received], pl_next := Suc (pl_next p), pl_checked := False\<rparr>)"
proof -
  let ?i = "pl_next p"
  have len: "length (pl_slots p) = calls" and idle: "pl_slots p ! ?i = Idle" using assms by (auto simp: poolInv_def)
  have fly: "length (filter busy ((pl_slots p)[?i := Received])) \<le> workerCount calls"
    using inFlight_update [of ?i p Received] assms(3,4) len idle by simp
  have hold: "length (holders limit key ((pl_slots p)[?i := Received])) \<le> capacity"
    if "j < calls" "(pl_slots p)[?i := Received] ! j = Holding" "limit j = Some (key, capacity)" for key capacity j
  proof (rule poolInv_permits_less [OF assms(1) _ _ that])
    show "\<And>j. j < calls \<Longrightarrow> (pl_slots p)[?i := Received] ! j = Holding \<Longrightarrow> pl_slots p ! j = Holding"
      using assms(3) len by (auto simp: nth_list_update split: if_splits)
  qed (simp add: len)
  have "slotAnswered exec (pl_executed p) ?i Received"
    using assms(1,3) idle by (auto simp: poolInv_def slotAnswered_def dest!: spec [of _ ?i])
  then show ?thesis
    using assms len fly hold unfolding poolInv_def
    by (auto simp: nth_list_update inFlight_def less_Suc_eq_le split: if_splits)
qed

lemma keeps_stop:
  assumes "poolInv exec limit calls p" "\<not> pl_stopped p" "pl_next p < calls"
  shows "poolInv exec limit calls (p\<lparr>pl_slots := take (pl_next p) (pl_slots p)
        @ replicate (length (pl_slots p) - pl_next p) (Written (skippedFor err)), pl_stopped := True\<rparr>)"
proof -
  let ?slots = "take (pl_next p) (pl_slots p) @ replicate (length (pl_slots p) - pl_next p) (Written (skippedFor err))"
  have len: "length (pl_slots p) = calls" using assms(1) by (simp add: poolInv_def)
  have nth: "?slots ! j = (if j < pl_next p then pl_slots p ! j else Written (skippedFor err))" if "j < calls" for j
    using that assms(3) len by (auto simp: nth_append)
  have "filter busy (replicate n (Written w)) = []" for n w by (induction n) auto
  moreover have "length (filter busy (take n xs)) \<le> length (filter busy xs)" for n xs
    by (metis append_take_drop_id filter_append length_append le_add1)
  ultimately have "length (filter busy ?slots) \<le> inFlight p" by (simp add: inFlight_def)
  moreover have "length (holders limit key ?slots) \<le> capacity"
    if "j < calls" "?slots ! j = Holding" "limit j = Some (key, capacity)" for key capacity j
  proof (rule poolInv_permits_less [OF assms(1) _ _ that])
    show "\<And>j. j < calls \<Longrightarrow> ?slots ! j = Holding \<Longrightarrow> pl_slots p ! j = Holding" using nth by (auto split: if_splits)
  qed (use assms(3) len in simp)
  moreover have "slotAnswered exec (pl_executed p) j (Written (skippedFor err))" if "pl_next p \<le> j" "j < calls" for j
  proof -
    have "pl_slots p ! j = Idle" "slotAnswered exec (pl_executed p) j (pl_slots p ! j)"
      using assms that by (auto simp: poolInv_def)
    then show ?thesis by (auto simp: slotAnswered_def)
  qed
  ultimately show ?thesis
    using assms len nth unfolding poolInv_def
    by (auto simp: inFlight_def split: if_splits)
qed

lemma keeps_acquire:
  assumes "poolInv exec limit calls p" "i < calls" "pl_slots p ! i = Waiting" "permitFree limit p i"
  shows "poolInv exec limit calls (p\<lparr>pl_slots := (pl_slots p)[i := Holding]\<rparr>)"
proof -
  have len: "length (pl_slots p) = calls" using assms(1) by (simp add: poolInv_def)
  have fly: "length (filter busy ((pl_slots p)[i := Holding])) \<le> workerCount calls"
    using inFlight_update [of i p Holding] assms len by (simp add: poolInv_def)
  have hold: "length (holders limit key ((pl_slots p)[i := Holding])) \<le> capacity"
    if j: "j < calls" "(pl_slots p)[i := Holding] ! j = Holding" "limit j = Some (key, capacity)" for key capacity j
  proof (cases "map_option fst (limit i) = Some key")
    case True
    then obtain c where c: "limit i = Some (key, c)" by auto
    then have "c = capacity" using one_capacity j(3) by blast
    then show ?thesis using assms(2,4) len c holders_acquire [of i "pl_slots p" limit key] by (simp add: permitFree_def)
  next
    case False
    then have "j \<noteq> i" using j(3) by auto
    then have "length (holders limit key (pl_slots p)) \<le> capacity"
      using poolInv_permits [OF assms(1) j(1) _ j(3)] j(2) by simp
    moreover have "holders limit key ((pl_slots p)[i := Holding]) = holders limit key (pl_slots p)"
      using False assms(2) len by (auto simp: holders_def nth_list_update intro!: filter_cong)
    ultimately show ?thesis by simp
  qed
  have "slotAnswered exec (pl_executed p) i Holding"
    using assms(1-3) by (auto simp: poolInv_def slotAnswered_def dest!: spec [of _ i])
  then show ?thesis
    using assms len fly hold unfolding poolInv_def
    by (auto simp: nth_list_update inFlight_def split: if_splits)
qed

lemma keeps_written:
  assumes "poolInv exec limit calls p" "i < calls" "busy (pl_slots p ! i)"
  shows "poolInv exec limit calls (writeSlot p i (exec i waited))"
    and "poolInv exec limit calls (p\<lparr>pl_slots := (pl_slots p)[i := Written (skippedFor err)]\<rparr>)"
    and "poolInv exec limit calls (p\<lparr>pl_slots := (pl_slots p)[i := Waiting]\<rparr>)"
proof -
  have fresh: "i \<notin> set (pl_executed p)"
    using assms by (auto simp: poolInv_def slotAnswered_def busy_def dest!: spec [of _ i] split: slot.splits)
  show "poolInv exec limit calls (writeSlot p i (exec i waited))"
    unfolding writeSlot_def using fresh
    by (intro poolInv_write [OF assms]) (auto simp: slotAnswered_def)
  show "poolInv exec limit calls (p\<lparr>pl_slots := (pl_slots p)[i := Written (skippedFor err)]\<rparr>)"
    using poolInv_write [OF assms, of "Written (skippedFor err)" "pl_executed p"] fresh by (auto simp: slotAnswered_def)
  show "poolInv exec limit calls (p\<lparr>pl_slots := (pl_slots p)[i := Waiting]\<rparr>)"
    using poolInv_write [OF assms, of Waiting "pl_executed p"] fresh by (auto simp: slotAnswered_def)
qed

lemma keeps_step: "poolStep exec limit p p' \<Longrightarrow> poolInv exec limit calls p \<Longrightarrow> poolInv exec limit calls p'"
proof (induction rule: poolStep.induct)
  case (cancel p err)
  then show ?case by (simp add: keeps_cancel)
next
  case (check p)
  then show ?case by (simp add: keeps_check)
next
  case (send p)
  then show ?case using keeps_send [of calls p] poolInv_length [of exec limit calls p] by simp
next
  case (stop p err)
  then show ?case using keeps_stop [of calls p err] poolInv_length [of exec limit calls p] by simp
next
  case (acquire i p)
  then show ?case using keeps_acquire [of calls p i] poolInv_length [of exec limit calls p] by simp
next
  case (begin_work i p)
  then show ?case using keeps_written(3) [of calls p i] poolInv_length [of exec limit calls p] by simp
next
  case (skip i p err)
  then show ?case using keeps_written(2) [of calls p i err] poolInv_length [of exec limit calls p] by simp
qed (use keeps_written(1) poolInv_length in \<open>metis busy_simps\<close>)+

lemma run_inv: "poolRun exec limit calls p \<Longrightarrow> poolInv exec limit calls p"
  by (induction rule: poolRun.induct) (auto intro: poolInv_start keeps_step)

end

interpretation calls_pool: pool_limits "callExec bus env calls" "callLimit bus calls" for bus env calls
  by unfold_locales (auto simp: callLimit_def Let_def split: option.splits)

end
