(* ===== verification/Tool_Properties.thy ===== *)
theory Tool_Properties
  imports Tool_Parallel
begin

text \<open>
  What the tool bus guarantees: a sound registry, complete accounting of sequential batches, and for
  parallel batches safety under every interleaving and cancellation, progress to the end, and agreement
  with the sequential order of execution.
\<close>

section \<open>Progress\<close>








section \<open>The registry\<close>

text \<open>
  Every registry the package can build, by construction, registration, cloning, mapping of drivers or
  selection of a subset, in any order and with any failures on the way, is sound: tool names are unique
  and those of their definitions and drivers, only tools with a valid schema are registered, the listing
  is sorted by name, and a tool declared sequential or exclusive belongs to a concurrency group with a
  single permit, shared by all tools of the group.
\<close>

theorem bus_registry_sound:
  assumes "busBuilt compile bus"
  shows "wfBus bus \<and> sorted (map td_Name (Definitions bus)) \<and> distinct (map td_Name (Definitions bus))
    \<and> list_all (\<lambda>(name, entry). td_Concurrency (be_definition entry) \<in> {ConcurrencySequential, ConcurrencyExclusive} \<longrightarrow>
        (\<exists>key. concurrencySpec (be_definition entry) = Inr (key, 1) \<and> map_of (bus_limiters bus) key = Some 1)) (bus_entries bus)"
proof -
  have wf: "wfBus bus" by (rule busBuilt_wf [OF assms])
  have names: "map td_Name (map (be_definition \<circ> snd) (bus_entries bus)) = map fst (bus_entries bus)"
    using wf by (auto simp: wfBus_def list_all_iff wfEntry_def)
  then have "distinct (map td_Name (map (be_definition \<circ> snd) (bus_entries bus)))" using wf by (simp only: wfBus_def)
  then have "distinct (map td_Name (Definitions bus))"
    unfolding Definitions_def by (metis mset_map mset_eq_imp_distinct_iff mset_sort)
  moreover have "\<exists>key. concurrencySpec (be_definition entry) = Inr (key, 1) \<and> map_of (bus_limiters bus) key = Some 1"
    if "(name, entry) \<in> set (bus_entries bus)"
      "td_Concurrency (be_definition entry) \<in> {ConcurrencySequential, ConcurrencyExclusive}" for name entry
  proof -
    have entry: "wfEntry (bus_limiters bus) (name, entry)" using wf that(1) by (auto simp: wfBus_def list_all_iff)
    then obtain key capacity where spec: "concurrencySpec (be_definition entry) = Inr (key, capacity)"
      by (auto simp: wfEntry_def split: sum.splits)
    have "capacity = 1" using spec that(2) by (auto simp: concurrencySpec_def Let_def split: if_splits)
    then show ?thesis using entry spec by (auto simp: wfEntry_def split: if_splits)
  qed
  ultimately show ?thesis using wf by (auto simp: Definitions_def list_all_iff)
qed

text \<open>Two tools of one group, the second refused because its limit differs.\<close>

definition demoTool :: "string \<Rightarrow> ToolConcurrencyMode \<Rightarrow> int \<Rightarrow> Driver" where
  "demoTool name mode capacity =
     \<lparr>dr_Definition = \<lparr>td_Name = name, td_Description = [], td_InputSchema = JSONSchema ''object'' [] [] [] None [] None,
        td_Terminal = False, td_Timeout = 0, td_Concurrency = mode, td_ConcurrencyGroup = ''g'', td_MaxConcurrency = capacity\<rparr>,
      dr_Execute = (\<lambda>_. demoStreaming)\<rparr>"

definition demoBus :: Bus where
  "demoBus = NewBus (\<lambda>_. Inr (\<lambda>_. None))
     [Some (demoTool ''f'' ConcurrencyExclusive 0), Some (demoTool ''h'' ConcurrencyParallel 2)]"

lemma bus_registry_sound_witness:
  "map td_Name (Definitions demoBus) = [''f''] \<and> map_of (bus_limiters demoBus) ''g'' = Some 1 \<and> bus_err demoBus \<noteq> None
   \<and> wfBus demoBus"
proof -
  have "busBuilt (\<lambda>_. Inr (\<lambda>_. None)) demoBus" unfolding demoBus_def by (rule busBuilt.new)
  from bus_registry_sound [OF this] have "wfBus demoBus" by blast
  moreover have "map td_Name (Definitions demoBus) = [''f'']" "map_of (bus_limiters demoBus) ''g'' = Some 1" "bus_err demoBus \<noteq> None"
    by code_simp+
  ultimately show ?thesis by blast
qed

section \<open>Sequential batches\<close>

lemma executeSequential_accounts:
  assumes "executeSequential execute calls executed0 results0 = (executed, Batch results failures)"
  shows "\<exists>fresh more0. results = results0 @ fresh \<and> executed = executed0 @ more0
    \<and> length fresh + length failures = length calls \<and> map fst failures = map tc_ID (drop (length fresh) calls)
    \<and> list_all (\<lambda>(_, err). isSentinel ''tool.ErrNotExecuted'' err) (drop 1 failures)
    \<and> more0 = concat (map (fst \<circ> execute) (take (length fresh + 1) calls))
    \<and> map (\<lambda>result. Returned result None) fresh = map (snd \<circ> execute) (take (length fresh) calls)"
  using assms
proof (induction execute calls executed0 results0 arbitrary: executed results failures rule: executeSequential.induct)
  case (2 execute call calls executed0 results0)
  obtain reached outcome where e: "execute call = (reached, outcome)" by fastforce
  show ?case
  proof (cases outcome)
    case (Panicked reason)
    then show ?thesis using 2(2) e by simp
  next
    case (Returned result err)
    show ?thesis
    proof (cases err)
      case (Some err0)
      then show ?thesis using 2(2) e Returned by (auto simp: comp_def list_all_iff)
    next
      case None
      have "executeSequential execute calls (executed0 @ reached) (results0 @ [result]) = (executed, Batch results failures)"
        using 2(2) e Returned None by simp
      from 2(1) [OF e [symmetric] Returned None this] obtain fresh more0
        where "results = (results0 @ [result]) @ fresh" "executed = (executed0 @ reached) @ more0"
          "length fresh + length failures = length calls" "map fst failures = map tc_ID (drop (length fresh) calls)"
          "list_all (\<lambda>(_, err). isSentinel ''tool.ErrNotExecuted'' err) (drop 1 failures)"
          "more0 = concat (map (fst \<circ> execute) (take (length fresh + 1) calls))"
          "map (\<lambda>result. Returned result None) fresh = map (snd \<circ> execute) (take (length fresh) calls)"
        by blast
      then show ?thesis
        using e Returned None by (intro exI [of _ "result # fresh"] exI [of _ "reached @ more0"]) (simp add: comp_def)
    qed
  qed
qed simp

lemma concat_short:
  assumes "\<And>x. x \<in> set xs \<Longrightarrow> length (f x) \<le> 1"
  shows "length (concat (map f xs)) \<le> length xs"
  using assms by (induction xs) (auto intro: add_le_mono [of _ 1, simplified])

text \<open>
  A sequential batch accounts for every call exactly once and in order: the results are those of the
  calls before the first failure, the failures name the remaining calls in order, every failure after the
  first one proves that its tool was not executed, and the drivers were reached at most once per call and
  only by the calls up to the first failure.
\<close>

theorem sequential_batch_accounts:
  assumes "executeSequential (Execute bus env) calls [] [] = (executed, Batch results failures)"
  shows "length results + length failures = length calls
    \<and> map (\<lambda>result. Returned result None) results = map (snd \<circ> Execute bus env) (take (length results) calls)
    \<and> map fst failures = map tc_ID (drop (length results) calls)
    \<and> set (map fst (drop 1 failures)) \<subseteq> fst (NotExecutedCallIDs failures)
    \<and> executed = concat (map (fst \<circ> Execute bus env) (take (length results + 1) calls))
    \<and> length executed \<le> length results + 1"
proof -
  have rest: "length results + length failures = length calls" "map fst failures = map tc_ID (drop (length results) calls)"
    "list_all (\<lambda>(_, err). isSentinel ''tool.ErrNotExecuted'' err) (drop 1 failures)"
    "executed = concat (map (fst \<circ> Execute bus env) (take (length results + 1) calls))"
    "map (\<lambda>result. Returned result None) results = map (snd \<circ> Execute bus env) (take (length results) calls)"
    using executeSequential_accounts [OF assms] by simp_all
  have "length (fst (Execute bus env call)) \<le> 1" for call using Execute_reached(1) by (metis prod.collapse)
  then have "length executed \<le> length (take (length results + 1) calls)"
    unfolding rest(4) by (intro concat_short) simp
  moreover have "set (map fst (drop 1 failures)) \<subseteq> fst (NotExecutedCallIDs failures)"
    using rest(3) set_drop_subset [of 1 failures] by (auto simp: NotExecutedCallIDs_def list_all_iff)
  ultimately show ?thesis using rest by auto
qed

definition demoEnv :: Env where
  "demoEnv = \<lparr>en_parse = (\<lambda>_. Inr (JObject [], None)), en_errorText = (\<lambda>_. []), en_marshal = demoMarshal,
     en_acquire = (\<lambda>_. None), en_interceptor = None, en_sink = None\<rparr>"

definition demoBatch :: "ToolCall list" where
  "demoBatch = [demoCall, demoCall\<lparr>tc_ID := ''c2'', tc_Name := ''missing''\<rparr>, demoCall\<lparr>tc_ID := ''c3''\<rparr>]"

definition soloBus :: Bus where
  "soloBus = NewBus (\<lambda>_. Inr (\<lambda>_. None)) [Some (demoTool ''f'' ConcurrencyParallel 0)]"

definition demoSequential :: "ToolCall list \<times> batchOutcome" where
  "demoSequential = executeSequential (Execute soloBus demoEnv) demoBatch [] []"

lemma sequential_batch_accounts_witness:
  "\<exists>results failures. demoSequential = ([demoCall], Batch results failures) \<and> length results = 1
     \<and> map fst failures = [''c2'', ''c3''] \<and> ''c3'' \<in> fst (NotExecutedCallIDs failures)"
proof -
  have "fst demoSequential = [demoCall]" "(case snd demoSequential of Batch results failures \<Rightarrow> length results = 1 | _ \<Rightarrow> False)"
    by code_simp+
  moreover obtain results failures where "snd demoSequential = Batch results failures" "length results = 1"
    using calculation(2) by (cases "snd demoSequential") auto
  ultimately have d: "demoSequential = ([demoCall], Batch results failures)" "length results = 1" by (simp_all add: prod_eq_iff)
  have names: "map fst failures = [''c2'', ''c3'']" and proven: "set (map fst (drop 1 failures)) \<subseteq> fst (NotExecutedCallIDs failures)"
    using sequential_batch_accounts [OF d(1) [unfolded demoSequential_def]] d(2) by (simp_all add: demoBatch_def)
  have "''c3'' \<in> set (map fst (drop 1 failures))" using names by (simp flip: drop_map)
  then have "''c3'' \<in> fst (NotExecutedCallIDs failures)" by (rule subsetD [OF proven])
  then show ?thesis using d names by (intro exI [of _ results] exI [of _ failures]) simp
qed

section \<open>Parallel batches\<close>

lemma finished_slot:
  assumes "poolInv exec limit n p" "finished p" "i < n"
  shows "\<exists>w. pl_slots p ! i = Written w"
proof -
  have "\<not> busy (pl_slots p ! i)" "pl_slots p ! i \<noteq> Idle"
    using assms by (auto simp: finished_def poolInv_def list_all_length)
  then show ?thesis by (cases "pl_slots p ! i") (auto simp: busy_def)
qed

text \<open>
  C9. Whatever the interleaving of the workers, the dispatcher and a cancellation, a parallel batch is safe
  at every moment: at most 32 calls are in flight, a concurrency group never has more holders than
  permits (so the tools of an exclusive group never overlap), and no call is executed twice. When the
  batch has finished, every call has its own outcome: that of its execution, or a skip that proves the
  tool was not executed, in which case it was not.
\<close>

theorem parallel_batch_safe:
  assumes "poolRun (callExec bus env calls) (callLimit bus calls) (length calls) p"
  shows "inFlight p \<le> 32 \<and> distinct (pl_executed p)
    \<and> (\<forall>i key capacity. i < length calls \<and> pl_slots p ! i = Holding \<and> callLimit bus calls i = Some (key, capacity)
          \<longrightarrow> length (holders (callLimit bus calls) key (pl_slots p)) \<le> capacity)
    \<and> (finished p \<longrightarrow> (\<forall>i < length calls. \<exists>w. pl_slots p ! i = Written w
          \<and> ((\<exists>err. w = skippedFor err \<and> i \<notin> set (pl_executed p))
             \<or> (\<exists>waited. w = writtenBy (snd (callExec bus env calls i waited))
                  \<and> (i \<in> set (pl_executed p) \<longleftrightarrow> fst (callExec bus env calls i waited) \<noteq> [])))))"
proof -
  have inv: "poolInv (callExec bus env calls) (callLimit bus calls) (length calls) p"
    by (rule calls_pool.run_inv [OF assms])
  have "inFlight p \<le> 32" using inv by (simp add: poolInv_def workerCount_def DefaultBatchConcurrency_def)
  moreover have "\<exists>w. pl_slots p ! i = Written w
          \<and> ((\<exists>err. w = skippedFor err \<and> i \<notin> set (pl_executed p))
             \<or> (\<exists>waited. w = writtenBy (snd (callExec bus env calls i waited))
                  \<and> (i \<in> set (pl_executed p) \<longleftrightarrow> fst (callExec bus env calls i waited) \<noteq> [])))"
    if "finished p" "i < length calls" for i
  proof -
    obtain w where "pl_slots p ! i = Written w" using finished_slot [OF inv \<open>finished p\<close> \<open>i < length calls\<close>] by blast
    moreover have "slotAnswered (callExec bus env calls) (pl_executed p) i (pl_slots p ! i)"
      using inv that(2) by (simp add: poolInv_def)
    ultimately show ?thesis by (simp add: slotAnswered_def)
  qed
  moreover have "\<forall>i key capacity. i < length calls \<and> pl_slots p ! i = Holding \<and> callLimit bus calls i = Some (key, capacity)
          \<longrightarrow> length (holders (callLimit bus calls) key (pl_slots p)) \<le> capacity"
    using poolInv_permits [OF inv] by blast
  moreover have "distinct (pl_executed p)" using inv by (simp add: poolInv_def)
  ultimately show ?thesis by blast
qed

text \<open>A run of the pool to its end, for a batch of one call.\<close>

definition demoPool :: pool where
  "demoPool = writeSlot ((startPool 1)\<lparr>pl_slots := [Holding], pl_next := 1\<rparr>) 0 (callExec soloBus demoEnv [demoCall] 0 None)"

lemma demoPool_free: "callLimit soloBus [demoCall] i = None"
proof -
  have "bus_limiters soloBus = []" by code_simp
  then show ?thesis by (simp add: callLimit_def Let_def split: option.split)
qed

lemma demoPool_run: "poolRun (callExec soloBus demoEnv [demoCall]) (callLimit soloBus [demoCall]) (length [demoCall]) demoPool"
proof -
  let ?exec = "callExec soloBus demoEnv [demoCall]" and ?limit = "callLimit soloBus [demoCall]"
  let ?p1 = "(startPool 1)\<lparr>pl_checked := True\<rparr>"
  let ?p2 = "(startPool 1)\<lparr>pl_slots := [Received], pl_next := 1\<rparr>"
  let ?p3 = "(startPool 1)\<lparr>pl_slots := [Waiting], pl_next := 1\<rparr>"
  let ?p4 = "(startPool 1)\<lparr>pl_slots := [Holding], pl_next := 1\<rparr>"
  have "poolStep ?exec ?limit (startPool 1) ?p1" by (rule poolStep.check) (simp_all add: startPool_def)
  from poolRun.step [OF poolRun.start this] have run: "poolRun ?exec ?limit 1 ?p1" .
  have "poolStep ?exec ?limit ?p1 ?p2"
    using poolStep.send [of ?p1 ?exec ?limit]
    by (simp add: startPool_def workerCount_def DefaultBatchConcurrency_def inFlight_def)
  from poolRun.step [OF run this] have run: "poolRun ?exec ?limit 1 ?p2" .
  have "poolStep ?exec ?limit ?p2 ?p3" using poolStep.begin_work [of 0 ?p2 ?exec ?limit] by (simp add: startPool_def)
  from poolRun.step [OF run this] have run: "poolRun ?exec ?limit 1 ?p3" .
  have "poolStep ?exec ?limit ?p3 ?p4"
    using poolStep.acquire [of 0 ?p3 ?limit ?exec] by (simp add: startPool_def permitFree_def demoPool_free)
  from poolRun.step [OF run this] have run: "poolRun ?exec ?limit 1 ?p4" .
  have "poolStep ?exec ?limit ?p4 demoPool" unfolding demoPool_def by (rule poolStep.complete) (simp_all add: startPool_def)
  from poolRun.step [OF run this] show ?thesis by simp
qed

lemma demoPool_end: "finished demoPool" "pl_cancelled demoPool = None" "pl_executed demoPool = [0]"
  by code_simp+

lemma parallel_batch_safe_witness:
  "inFlight demoPool \<le> 32 \<and> pl_executed demoPool = [0] \<and> (\<exists>w. pl_slots demoPool ! 0 = Written w)"
  using parallel_batch_safe [OF demoPool_run] demoPool_end by auto



section \<open>Parallel and sequential execution agree\<close>

text \<open>Without a cancellation a slot holds the outcome of its call, or the refusal of the permit it waited for.\<close>

lemma uncancelled_written:
  "poolRun exec limit calls p \<Longrightarrow> pl_cancelled p = None \<Longrightarrow>
   \<not> pl_stopped p \<and> (\<forall>i < length (pl_slots p). \<forall>w. pl_slots p ! i = Written w \<longrightarrow>
     w = writtenBy (snd (exec i None)) \<or> limit i \<noteq> None \<and> (\<exists>err. w = writtenBy (snd (exec i (Some err)))))"
proof (induction rule: poolRun.induct)
  case start
  then show ?case by (simp add: startPool_def)
next
  case (step p p')
  from step(2) show ?case
  proof cases
    case (cancel err)
    then show ?thesis using step.prems by simp
  next
    case (stop err)
    then show ?thesis using step.prems by simp
  next
    case (skip i err)
    then show ?thesis using step.prems by simp
  next
    case (denied i err)
    have "limit k \<noteq> None \<and> (\<exists>err. w = writtenBy (snd (exec k (Some err))))"
      if "pl_slots p' ! k = Written w" "k = i" "k < length (pl_slots p')" for k w
      using that denied by (auto simp: writeSlot_def)
    then show ?thesis using step.IH step.prems denied by (auto simp: nth_list_update writeSlot_def)
  qed (use step.IH step.prems in \<open>auto simp: nth_list_update writeSlot_def\<close>)
qed

lemma callExec_waited:
  "callExec bus env calls i (Some err) = callExec bus env calls i None
   \<or> callLimit bus calls i \<noteq> None \<and> snd (callExec bus env calls i (Some err)) = Returned zeroToolResult (Some (JoinError [notExecuted, err]))"
proof -
  have "validateArguments (en_parse (env\<lparr>en_acquire := a\<rparr>)) = validateArguments (en_parse env)" for a by simp
  then show ?thesis
    by (auto simp: callExec_def callLimit_def Execute_def Let_def cong: option.case_cong split: option.split)
qed

lemma written_waited:
  "writtenBy (snd (callExec bus env calls i (Some err))) = writtenBy (snd (callExec bus env calls i None))
   \<or> callLimit bus calls i \<noteq> None \<and> writtenBy (snd (callExec bus env calls i (Some err))) = (zeroToolResult, Some (JoinError [notExecuted, err]))"
  using callExec_waited [of bus env calls i err] by (auto simp: writtenBy_def)

lemma callExec_free:
  assumes "\<forall>key. en_acquire env key = None"
  shows "callExec bus env calls i None = Execute bus env (calls ! i)"
proof -
  have "env\<lparr>en_acquire := \<lambda>_. None\<rparr> = env" using assms by (intro Env.equality) auto
  then show ?thesis by (simp add: callExec_def)
qed

lemma executeSequential_all:
  assumes "length results = length calls" "\<forall>i < length calls. snd (execute (calls ! i)) = Returned (results ! i) None"
  shows "snd (executeSequential execute calls executed0 results0) = Batch (results0 @ results) []"
  using assms
proof (induction calls arbitrary: results executed0 results0)
  case (Cons call calls)
  then obtain result rest where r: "results = result # rest" by (cases results) auto
  have "snd (execute call) = Returned result None" using Cons.prems(2) r by auto
  moreover have "snd (executeSequential execute calls executed1 (results0 @ [result])) = Batch ((results0 @ [result]) @ rest) []" for executed1
    using Cons.prems r by (intro Cons.IH) auto
  ultimately show ?case using r by (simp add: split_beta)
qed simp

lemma collectParallel_all:
  assumes "collectParallel calls written = Batch results []" "length written = length calls"
  shows "results = map fst written \<and> (\<forall>i < length calls. snd (written ! i) = None)"
proof -
  have none: "filter (\<lambda>(_, (_, err)). err \<noteq> None) (zip calls written) = []" and res: "results = map fst written"
    using assms(1) by (auto simp: collectParallel_def Let_def split: if_splits)
  have "snd (written ! i) = None" if i: "i < length calls" for i
  proof -
    have "(calls ! i, written ! i) \<in> set (zip calls written)" using i assms(2) by (auto simp: set_zip)
    then show ?thesis using none by (cases "written ! i") (auto simp: filter_empty_conv)
  qed
  then show ?thesis using res by blast
qed

lemma collectParallel_succeeds:
  assumes "length written = length calls" "\<forall>i < length calls. snd (written ! i) = None"
  shows "collectParallel calls written = Batch (map fst written) []"
proof -
  have "snd (snd x) = None" if "x \<in> set (zip calls written)" for x
    using that assms by (auto simp: set_zip)
  then have "filter (\<lambda>(_, (_, err)). err \<noteq> None) (zip calls written) = []" by (force simp: filter_empty_conv)
  then show ?thesis by (simp add: collectParallel_def)
qed

text \<open>
  C36. Running a batch in parallel changes nothing but the time it takes, for tools that answer each call on its
  own, with bounded concurrency groups or without. Under every schedule, cancelled or not, a parallel batch that
  reports no failure returns exactly the results of running its calls one after another. And when the batch is not
  cancelled, each slot holds what its call gives on its own, or, for a tool of a bounded group only, the
  error that the wait for its permit was refused; so if no wait was refused, a batch whose calls all succeed in
  sequence succeeds in parallel with the same results in the same order.
\<close>

theorem parallel_equals_sequential:
  assumes "poolRun (callExec bus env calls) (callLimit bus calls) (length calls) p" "finished p"
    and "\<forall>key. en_acquire env key = None"
  shows "(\<forall>results. collectParallel calls (map writtenOf (pl_slots p)) = Batch results [] \<longrightarrow>
        snd (executeSequential (Execute bus env) calls [] []) = Batch results [])
    \<and> (pl_cancelled p = None \<longrightarrow> (\<forall>i < length calls.
        writtenOf (pl_slots p ! i) = writtenBy (snd (Execute bus env (calls ! i)))
        \<or> callLimit bus calls i \<noteq> None \<and> (\<exists>err. writtenOf (pl_slots p ! i) = (zeroToolResult, Some (JoinError [notExecuted, err])))))
    \<and> (\<forall>results. pl_cancelled p = None
        \<and> (\<forall>i < length calls. \<forall>err. writtenOf (pl_slots p ! i) \<noteq> (zeroToolResult, Some (JoinError [notExecuted, err])))
        \<and> snd (executeSequential (Execute bus env) calls [] []) = Batch results [] \<longrightarrow>
        collectParallel calls (map writtenOf (pl_slots p)) = Batch results [])"
proof -
  have inv: "poolInv (callExec bus env calls) (callLimit bus calls) (length calls) p"
    by (rule calls_pool.run_inv [OF assms(1)])
  note len = poolInv_length [OF inv]
  note free = callExec_free [OF assms(3)]
  have sound: "snd (executeSequential (Execute bus env) calls [] []) = Batch results []"
    if "collectParallel calls (map writtenOf (pl_slots p)) = Batch results []" for results
  proof -
    have all: "results = map fst (map writtenOf (pl_slots p))" "\<forall>i < length calls. snd (writtenOf (pl_slots p ! i)) = None"
      using collectParallel_all [OF that] len by auto
    have "snd (Execute bus env (calls ! i)) = Returned (results ! i) None" if i: "i < length calls" for i
    proof -
      obtain w where w: "pl_slots p ! i = Written w" using finished_slot [OF inv assms(2) i] by blast
      have none: "snd w = None" using all(2) i w by auto
      have "slotAnswered (callExec bus env calls) (pl_executed p) i (pl_slots p ! i)" using inv i by (simp add: poolInv_def)
      then obtain waited where waited: "w = writtenBy (snd (callExec bus env calls i waited))"
        using w none by (auto simp: slotAnswered_def skippedFor_def)
      have "w = writtenBy (snd (callExec bus env calls i None))"
      proof (cases waited)
        case (Some err)
        then show ?thesis using written_waited [of bus env calls i err] waited none by auto
      qed (use waited in simp)
      then have "writtenBy (snd (Execute bus env (calls ! i))) = (fst w, None)" using none free by (simp add: prod_eq_iff)
      moreover have "results ! i = fst w" using all(1) i len w by simp
      ultimately show ?thesis by (auto simp: writtenBy_def split: execOutcome.splits)
    qed
    then show ?thesis using executeSequential_all [of results calls "Execute bus env" "[]" "[]"] all(1) len by simp
  qed
  have slot: "writtenOf (pl_slots p ! i) = writtenBy (snd (Execute bus env (calls ! i)))
      \<or> callLimit bus calls i \<noteq> None \<and> (\<exists>err. writtenOf (pl_slots p ! i) = (zeroToolResult, Some (JoinError [notExecuted, err])))"
    if "pl_cancelled p = None" and i: "i < length calls" for i
  proof -
    obtain w where w: "pl_slots p ! i = Written w" using finished_slot [OF inv assms(2) i] by blast
    have "w = writtenBy (snd (callExec bus env calls i None))
        \<or> callLimit bus calls i \<noteq> None \<and> (\<exists>err. w = writtenBy (snd (callExec bus env calls i (Some err))))"
      using uncancelled_written [OF assms(1) that(1)] w i unfolding len by blast
    then have "w = writtenBy (snd (callExec bus env calls i None))
        \<or> callLimit bus calls i \<noteq> None \<and> (\<exists>err. w = (zeroToolResult, Some (JoinError [notExecuted, err])))"
      using written_waited [of bus env calls i] by metis
    then show ?thesis using w free by simp
  qed
  have complete: "collectParallel calls (map writtenOf (pl_slots p)) = Batch results []"
    if u: "pl_cancelled p = None" and r: "\<forall>i < length calls. \<forall>err. writtenOf (pl_slots p ! i) \<noteq> (zeroToolResult, Some (JoinError [notExecuted, err]))"
      and s: "snd (executeSequential (Execute bus env) calls [] []) = Batch results []" for results
  proof -
    have "executeSequential (Execute bus env) calls [] [] = (fst (executeSequential (Execute bus env) calls [] []), Batch results [])"
      using s by (simp add: prod_eq_iff)
    from executeSequential_accounts [OF this] have n: "length results = length calls"
      and same: "map (\<lambda>result. Returned result None) results = map (snd \<circ> Execute bus env) calls" by auto
    have "writtenOf (pl_slots p ! i) = (results ! i, None)" if i: "i < length calls" for i
    proof -
      have "snd (Execute bus env (calls ! i)) = Returned (results ! i) None"
        using arg_cong [OF same, of "\<lambda>xs. xs ! i"] i n by simp
      then show ?thesis using slot [OF u i] r i by (auto simp: writtenBy_def)
    qed
    then have "map writtenOf (pl_slots p) = map (\<lambda>result. (result, None)) results"
      using n len by (intro nth_equalityI) simp_all
    then show ?thesis using collectParallel_succeeds [of "map (\<lambda>result. (result, None)) results" calls] n by (simp add: comp_def)
  qed
  show ?thesis using sound slot complete by blast
qed

text \<open>
  Two calls of a tool whose group has one permit, both handed to a worker before either has run: the second call
  takes the permit first.
\<close>

definition groupBus :: Bus where
  "groupBus = NewBus (\<lambda>_. Inr (\<lambda>_. None)) [Some (demoTool ''f'' ConcurrencyParallel 1)]"

definition pairCalls :: "ToolCall list" where
  "pairCalls = [demoCall, demoCall\<lparr>tc_ID := ''c2''\<rparr>]"

definition pairAt :: "slot \<Rightarrow> slot \<Rightarrow> nat \<Rightarrow> bool \<Rightarrow> nat list \<Rightarrow> pool" where
  "pairAt first second sent checked executed =
     \<lparr>pl_slots = [first, second], pl_next = sent, pl_checked = checked, pl_stopped = False, pl_cancelled = None, pl_executed = executed\<rparr>"

definition pairWritten :: "nat \<Rightarrow> slot" where
  "pairWritten i = Written (writtenBy (snd (callExec groupBus demoEnv pairCalls i None)))"

definition pairPool :: pool where
  "pairPool = pairAt (pairWritten 0) (pairWritten 1) 2 False [1, 0]"

lemma pair_limits: "callLimit groupBus pairCalls 0 = Some (''g'', 1)" "callLimit groupBus pairCalls 1 = Some (''g'', 1)"
  by code_simp+

lemma pair_reached: "fst (callExec groupBus demoEnv pairCalls 0 None) \<noteq> []" "fst (callExec groupBus demoEnv pairCalls 1 None) \<noteq> []"
  by code_simp+

lemma pair_permit: "permitFree (callLimit groupBus pairCalls) (pairAt first second sent checked executed) i"
  if "first \<noteq> Holding" "second \<noteq> Holding" "i < 2"
proof -
  have "holders (callLimit groupBus pairCalls) ''g'' [first, second] = []"
    using that by (auto simp: holders_def filter_empty_conv less_Suc_eq nth_Cons')
  then show ?thesis using that pair_limits by (auto simp: permitFree_def pairAt_def less_2_cases_iff)
qed

lemma pairPool_run: "poolRun (callExec groupBus demoEnv pairCalls) (callLimit groupBus pairCalls) (length pairCalls) pairPool"
proof -
  let ?exec = "callExec groupBus demoEnv pairCalls" and ?limit = "callLimit groupBus pairCalls"
  have start: "startPool (length pairCalls) = pairAt Idle Idle 0 False []"
    by (simp add: startPool_def pairAt_def pairCalls_def numeral_2_eq_2)
  have s1: "poolStep ?exec ?limit (pairAt Idle Idle 0 False []) (pairAt Idle Idle 0 True [])"
    using poolStep.check [of "pairAt Idle Idle 0 False []" ?exec ?limit] by (simp add: pairAt_def)
  have s2: "poolStep ?exec ?limit (pairAt Idle Idle 0 True []) (pairAt Received Idle 1 False [])"
    using poolStep.send [of "pairAt Idle Idle 0 True []" ?exec ?limit]
    by (simp add: pairAt_def workerCount_def DefaultBatchConcurrency_def inFlight_def busy_def)
  have s3: "poolStep ?exec ?limit (pairAt Received Idle 1 False []) (pairAt Received Idle 1 True [])"
    using poolStep.check [of "pairAt Received Idle 1 False []" ?exec ?limit] by (simp add: pairAt_def)
  have s4: "poolStep ?exec ?limit (pairAt Received Idle 1 True []) (pairAt Received Received 2 False [])"
    using poolStep.send [of "pairAt Received Idle 1 True []" ?exec ?limit]
    by (simp add: pairAt_def workerCount_def DefaultBatchConcurrency_def inFlight_def busy_def numeral_2_eq_2)
  have s5: "poolStep ?exec ?limit (pairAt Received Received 2 False []) (pairAt Waiting Received 2 False [])"
    using poolStep.begin_work [of 0 "pairAt Received Received 2 False []" ?exec ?limit] by (simp add: pairAt_def)
  have s6: "poolStep ?exec ?limit (pairAt Waiting Received 2 False []) (pairAt Waiting Waiting 2 False [])"
    using poolStep.begin_work [of 1 "pairAt Waiting Received 2 False []" ?exec ?limit] by (simp add: pairAt_def)
  have s7: "poolStep ?exec ?limit (pairAt Waiting Waiting 2 False []) (pairAt Waiting Holding 2 False [])"
    using poolStep.acquire [of 1 "pairAt Waiting Waiting 2 False []" ?limit ?exec] pair_permit by (simp add: pairAt_def)
  have s8: "poolStep ?exec ?limit (pairAt Waiting Holding 2 False []) (pairAt Waiting (pairWritten 1) 2 False [1])"
    using poolStep.complete [of 1 "pairAt Waiting Holding 2 False []" ?exec ?limit] pair_reached
    by (simp add: pairAt_def writeSlot_def pairWritten_def)
  have s9: "poolStep ?exec ?limit (pairAt Waiting (pairWritten 1) 2 False [1]) (pairAt Holding (pairWritten 1) 2 False [1])"
    using poolStep.acquire [of 0 "pairAt Waiting (pairWritten 1) 2 False [1]" ?limit ?exec] pair_permit
    by (simp add: pairAt_def pairWritten_def)
  have s10: "poolStep ?exec ?limit (pairAt Holding (pairWritten 1) 2 False [1]) pairPool"
    using poolStep.complete [of 0 "pairAt Holding (pairWritten 1) 2 False [1]" ?exec ?limit] pair_reached
    by (simp add: pairAt_def writeSlot_def pairWritten_def pairPool_def)
  show ?thesis
    by (rule poolRun.step [OF _ s10], rule poolRun.step [OF _ s9], rule poolRun.step [OF _ s8], rule poolRun.step [OF _ s7],
        rule poolRun.step [OF _ s6], rule poolRun.step [OF _ s5], rule poolRun.step [OF _ s4], rule poolRun.step [OF _ s3],
        rule poolRun.step [OF _ s2], rule poolRun.step [OF _ s1], unfold start [symmetric], rule poolRun.start)
qed

lemma parallel_equals_sequential_witness:
  "\<exists>first second. snd (executeSequential (Execute groupBus demoEnv) pairCalls [] []) = Batch [first, second] []
     \<and> tr_ToolCallID first = ''c1'' \<and> tr_ToolCallID second = ''c2'' \<and> pl_executed pairPool = [1, 0]"
proof -
  have "case collectParallel pairCalls (map writtenOf (pl_slots pairPool)) of
      Batch [first, second] [] \<Rightarrow> tr_ToolCallID first = ''c1'' \<and> tr_ToolCallID second = ''c2'' | _ \<Rightarrow> False"
    by code_simp
  then obtain first second where "collectParallel pairCalls (map writtenOf (pl_slots pairPool)) = Batch [first, second] []"
    "tr_ToolCallID first = ''c1''" "tr_ToolCallID second = ''c2''"
    by (auto split: batchOutcome.splits list.splits)
  moreover have "finished pairPool" "\<forall>key. en_acquire demoEnv key = None" "pl_executed pairPool = [1, 0]"
    by (simp_all add: finished_def pairPool_def pairAt_def pairWritten_def busy_def demoEnv_def)
  ultimately show ?thesis using parallel_equals_sequential [OF pairPool_run] by blast
qed

end
