(* ===== verification/Agent_History.thy ===== *)
theory Agent_History
  imports Agent_Resume_Properties Tool_Properties
begin

text \<open>
  The composition of the agent loop with the provider stream, the tool bus and the history contract: the
  loop, with its tools dispatched to a bus, keeps the transcript complete. \<open>batch_contract\<close> is what the loop
  relies on in the bus; it is proved for \<open>ExecuteBatch\<close> of every bus.
\<close>

section \<open>Hooks and guardrails\<close>

text \<open>Hooks that keep the identity of calls and results, and guardrails whose messages are plain.\<close>

definition keepsIdentity :: "Hook option \<Rightarrow> bool" where
  "keepsIdentity hook \<longleftrightarrow>
     (case hook of None \<Rightarrow> True
      | Some h \<Rightarrow> (\<forall>i call call'. hk_BeforeToolCall h i call = HookOk call' \<longrightarrow> tc_ID call' = tc_ID call)
          \<and> (\<forall>i result result'. hk_AfterToolCall h i result = HookOk result' \<longrightarrow> tr_ToolCallID result' = tr_ToolCallID result))"

definition plainGuardrail :: "OutputGuardrail option \<Rightarrow> bool" where
  "plainGuardrail guardrail \<longleftrightarrow>
     (case guardrail of None \<Rightarrow> True
      | Some g \<Rightarrow> \<forall>i input result. gr_Check g i input = Inr result \<longrightarrow>
          list_all plainMessage (rp_ReplacementContext (og_RetryPolicy result) @ og_RetryMessages result)
          \<and> (case og_Replacement result of None \<Rightarrow> True | Some replacement \<Rightarrow> m_Role replacement \<noteq> RoleTool))"

lemma BeforeToolCall_identity:
  "BeforeToolCall hooks i call = Inr call' \<Longrightarrow> list_all keepsIdentity hooks \<Longrightarrow> tc_ID call' = tc_ID call"
  by (induction hooks i call rule: BeforeToolCall.induct)
    (auto simp: keepsIdentity_def guardHook_def split: sum.splits hookOutcome.splits)

lemma AfterToolCall_identity:
  "AfterToolCall hooks i result = Inr result' \<Longrightarrow> list_all keepsIdentity hooks \<Longrightarrow>
   tr_ToolCallID result' = tr_ToolCallID result"
  by (induction hooks i result rule: AfterToolCall.induct)
    (auto simp: keepsIdentity_def guardHook_def split: sum.splits hookOutcome.splits)

lemma prepareLoop_identity:
  "prepareLoop e driver i calls prepared term0 = Inr (prepared', term1) \<Longrightarrow> list_all keepsIdentity (e_Hooks e) \<Longrightarrow>
   map tc_ID prepared' = map tc_ID prepared @ map tc_ID calls"
  by (induction e driver i calls prepared term0 rule: prepareLoop.induct)
    (auto simp: Let_def dest: BeforeToolCall_identity split: sum.splits option.splits)

lemma afterLoop_identity:
  "afterLoop e i results prepared items = (items', None) \<Longrightarrow> list_all keepsIdentity (e_Hooks e) \<Longrightarrow>
   map tr_ToolCallID results = map tc_ID prepared \<Longrightarrow>
   map tr_ToolCallID items' = map tr_ToolCallID items @ map tc_ID prepared"
proof (induction results arbitrary: prepared items)
  case (Cons result results)
  then obtain call calls where p: "prepared = call # calls" by (cases prepared) auto
  then show ?case
    using Cons.prems Cons.IH [of calls]
    by (auto simp: Let_def dest!: AfterToolCall_identity split: sum.splits)
qed simp

lemma normalizeResult_plain:
  assumes "normalizeOutputGuardrailResult result = Inr normalized"
    and "list_all plainMessage (rp_ReplacementContext (og_RetryPolicy result) @ og_RetryMessages result)"
    and "case og_Replacement result of None \<Rightarrow> True | Some replacement \<Rightarrow> m_Role replacement \<noteq> RoleTool"
  shows "list_all plainMessage (rp_ReplacementContext (og_RetryPolicy normalized) @ og_RetryMessages normalized)
    \<and> (og_Action normalized = OutputGuardrailActionReplace \<longrightarrow> plainMessage (the (og_Replacement normalized)))"
proof (cases "og_Action result")
  case OutputGuardrailActionReplace
  then show ?thesis
    using assms
    by (cases "og_Replacement result")
      (auto simp: normalizeOutputGuardrailResult_def plainMessage_def Let_def split: if_splits)
qed (use assms in \<open>auto simp: normalizeOutputGuardrailResult_def Let_def split: if_splits\<close>)

lemma guardrailLoop_plain:
  "guardrailLoop input i current n usage stop guardrails candidate = Inr (final, retryMessages, policy) \<Longrightarrow>
   list_all plainGuardrail guardrails \<Longrightarrow> plainMessage candidate \<Longrightarrow>
   plainMessage final \<and> list_all plainMessage (rp_ReplacementContext policy @ retryMessages)"
proof (induction guardrails arbitrary: candidate)
  case (Cons guardrail guardrails)
  show ?case
  proof (cases guardrail)
    case None
    then show ?thesis using Cons by simp
  next
    case (Some g)
    let ?gin = "\<lparr>gi_Model = in_Model input, gi_Messages = current, gi_Output = candidate, gi_Iteration = n,
      gi_MaxIterations = in_MaxIterations input, gi_UnlimitedIterations = in_UnlimitedIterations input, gi_Usage = usage,
      gi_StopReason = stop, gi_Metadata = in_Metadata input\<rparr>"
    obtain result where c: "gr_Check g i ?gin = Inr result" using Cons.prems(1) Some by (cases "gr_Check g i ?gin") auto
    obtain normalized where norm: "normalizeOutputGuardrailResult result = Inr normalized"
      using Cons.prems(1) Some c by (cases "normalizeOutputGuardrailResult result") auto
    have plain: "list_all plainMessage (rp_ReplacementContext (og_RetryPolicy normalized) @ og_RetryMessages normalized)"
      "og_Action normalized = OutputGuardrailActionReplace \<Longrightarrow> plainMessage (the (og_Replacement normalized))"
      using normalizeResult_plain [OF norm] Cons.prems(2) Some c unfolding plainGuardrail_def by auto
    show ?thesis
      using Cons.prems plain Cons.IH [of candidate] Cons.IH [of "the (og_Replacement normalized)"]
      by (cases "og_Action normalized") (auto simp: Some c norm split: if_splits)
  qed
qed (auto simp: zeroRetryPolicy_def)

section \<open>One pass\<close>

lemma plain_append: "validHistory messages \<Longrightarrow> list_all plainMessage more_messages \<Longrightarrow> validHistory (messages @ more_messages)"
proof (induction more_messages arbitrary: messages)
  case (Cons msg more_messages)
  then have "validHistory (messages @ [msg])" by (intro validHistory_append) (auto intro: validHistory.intros)
  then show ?case using Cons by fastforce
qed simp

lemma assistantCalls_IDs [simp]: "map tc_ID (assistantCalls turn slot calls) = map tc_ID calls"
  by (induction turn slot calls rule: assistantCalls.induct) auto

lemma NewToolResult_fields [simp]:
  "m_Role (NewToolResult result) = RoleTool" "m_ToolCalls (NewToolResult result) = []"
  "m_ToolResult (NewToolResult result) = Some (SyncLegacyToolContent result)"
  "tr_ToolCallID (SyncLegacyToolContent result) = tr_ToolCallID result"
  by (simp_all add: NewToolResult_def SyncLegacyToolContent_def zeroMessage_def Let_def)

lemma given_IDs: "list_all (\<lambda>call. tc_ID call \<noteq> []) calls \<longleftrightarrow> [] \<notin> set (map tc_ID calls)"
  by (induction calls) auto

lemma answered_append:
  assumes "validHistory messages" "answerable a" "m_ToolCalls a \<noteq> []" "map tr_ToolCallID results = map tc_ID (m_ToolCalls a)"
  shows "validHistory (messages @ [a\<lparr>m_ToolCalls := assistantCalls turn 0 (m_ToolCalls a)\<rparr>] @ map NewToolResult results)"
proof -
  define calls where "calls = assistantCalls turn 0 (m_ToolCalls a)"
  have same: "map tc_ID calls = map tc_ID (m_ToolCalls a)" by (simp add: calls_def)
  have a: "m_Role a = RoleAssistant" "m_ToolResult a = None" "distinct (map tc_ID calls)" "[] \<notin> set (map tc_ID calls)"
    using assms(2) unfolding answerable_def given_IDs same by simp_all
  have ids: "map tr_ToolCallID results = map tc_ID calls" using assms(4) same by simp
  have len: "length results = length calls" using ids by (metis length_map)
  moreover have "tc_ID (calls ! k) = tr_ToolCallID (results ! k)" if k: "k < length calls" for k
    using arg_cong [OF ids, of "\<lambda>xs. xs ! k"] k len by simp
  ultimately have "list_all2 answers calls (map (resultOf \<circ> NewToolResult) results)"
    by (simp add: list_all2_conv_all_nth answers_def)
  moreover have "calls \<noteq> []" using same assms(3) by (metis map_is_Nil_conv)
  ultimately have "answeredTurn (a\<lparr>m_ToolCalls := calls\<rparr>) (map NewToolResult results)"
    using a unfolding answeredTurn_def
    by (auto simp: resultMessage_def list_all_iff intro: distinct_filter)
  moreover have "[] \<notin> set (map tr_ToolCallID results)" using a(4) ids by simp
  then have "list_all identified (map NewToolResult results)"
    by (induction results) (auto simp: identified_def)
  moreover have "identified (a\<lparr>m_ToolCalls := calls\<rparr>)" using a(2,4) by (auto simp: identified_def given_IDs)
  ultimately have "validTurn (a\<lparr>m_ToolCalls := calls\<rparr>) (map NewToolResult results)" by (intro answeredTurn_valid)
  from validHistory_append [OF assms(1) vh_turn [OF this vh_Nil]] show ?thesis by (simp add: calls_def)
qed

lemma finalizeNoToolStep_history:
  assumes "finalizeNoToolStep e input base a modelCall usage steps stop i used = (current, steps', out, retry, None)"
    and "validHistory base" "plainMessage a" "list_all plainGuardrail (in_OutputGuardrails input)"
  shows "validHistory current"
proof -
  obtain final retryMessages policy where
    g: "guardrailLoop input i base (i + 1) usage stop (in_OutputGuardrails input) a = Inr (final, retryMessages, policy)"
    and c: "current = (if retryMessages \<noteq> [] then appendRetryContext base a retryMessages policy else appendFinalAssistant base final)"
    using assms(1)
    by (auto simp: finalizeNoToolStep_def applyOutputGuardrails_def Let_def budgetAbort_def
        split: prod.splits option.splits sum.splits if_splits)
  have "plainMessage final" "list_all plainMessage (rp_ReplacementContext policy @ retryMessages)"
    using guardrailLoop_plain [OF g assms(4,3)] by simp_all
  then show ?thesis
    unfolding c appendRetryContext_def appendFinalAssistant_def using assms(2,3) by (auto intro!: plain_append)
qed

lemma runToolStep_stop:
  assumes "runToolStep e st a modelCall i turn = (st', out, True, None)"
  obtains prepared results isTerminal where
    "prepareToolCalls e i (assistantCalls turn 0 (m_ToolCalls a)) = Inr (prepared, isTerminal)"
    "dispatchPreparedTools e i prepared (in_ToolMode (st_input st)) = (results, None)"
    "lo_Messages out = st_current st @ [a\<lparr>m_ToolCalls := assistantCalls turn 0 (m_ToolCalls a)\<rparr>]
       @ map NewToolResult results"
  using assms
  by (auto simp: runToolStep_def Let_def newStep_def errorsJoin_None budgetAbort_def
      split: prod.splits option.splits sum.splits if_splits
      dest!: finalizeToolStep_return appendToolResults_ok)

lemma loopBody_retry:
  assumes "loopBody e i st = Inr st'" "prepareTurn st i = Inr prepared"
    and "runTurn e i prepared (st_input st) = (a, usage, stop, identity, opened, None)" "m_ToolCalls a = []"
  shows "\<exists>input modelCall usage0 steps used out. in_OutputGuardrails input = in_OutputGuardrails (st_input st)
    \<and> finalizeNoToolStep e input prepared a modelCall usage0 steps stop i used = (st_current st', st_steps st', out, True, None)"
proof -
  let ?input = "(st_input st)\<lparr>in_OperationTurn := in_OperationTurn (st_input st) + 1\<rparr>"
  obtain out err where f: "finalizeNoToolStep e ?input prepared a (newModelCall identity usage stop) (UsageAdd (st_usage st) usage)
      (st_steps st) stop i (st_toolCallsUsed st) = (st_current st', st_steps st', out, True, err)"
    using assms by (auto simp: loopBody_def Let_def split: option.splits prod.splits if_splits)
  moreover have "err = None" using finalizeNoToolStep_continue [OF f] by blast
  moreover have "in_OutputGuardrails ?input = in_OutputGuardrails (st_input st)" by simp
  ultimately show ?thesis by blast
qed

lemma loopBody_finish:
  assumes "loopBody e i st = Inl (out, None, turn)"
  shows "\<exists>prepared a usage stop identity opened. prepareTurn st i = Inr prepared
    \<and> runTurn e i prepared (st_input st) = (a, usage, stop, identity, opened, None)
    \<and> (m_ToolCalls a = [] \<and> (\<exists>input modelCall usage0 steps used steps'. in_OutputGuardrails input = in_OutputGuardrails (st_input st)
            \<and> finalizeNoToolStep e input prepared a modelCall usage0 steps stop i used = (lo_Messages out, steps', out, False, None))
        \<or> m_ToolCalls a \<noteq> [] \<and> (\<exists>s modelCall turn s'. st_current s = prepared \<and> runToolStep e s a modelCall i turn = (s', out, True, None)))"
proof -
  obtain prepared where p: "prepareTurn st i = Inr prepared"
    using assms
    by (auto simp: loopBody_def prepareTurn_def loopTurnPreamble_def budgetAbort_def Let_def
        split: option.splits sum.splits if_splits)
  obtain a usage stop identity opened err where t: "runTurn e i prepared (st_input st) = (a, usage, stop, identity, opened, err)"
    by (metis prod_cases6)
  have err: "err = None" using assms p t by (auto simp: loopBody_def handleTurnFailure_def Let_def split: option.splits prod.splits)
  let ?input = "(st_input st)\<lparr>in_OperationTurn := in_OperationTurn (st_input st) + 1\<rparr>"
  let ?s = "st\<lparr>st_current := prepared, st_input := ?input, st_usage := UsageAdd (st_usage st) usage, st_turnsRun := i + 1\<rparr>"
  show ?thesis
  proof (cases "m_ToolCalls a = []")
    case True
    obtain current steps' where f: "finalizeNoToolStep e ?input prepared a (newModelCall identity usage stop) (UsageAdd (st_usage st) usage)
        (st_steps st) stop i (st_toolCallsUsed st) = (current, steps', out, False, None)"
      using assms p t err True by (auto simp: loopBody_def Let_def split: option.splits prod.splits if_splits)
    moreover have "current = lo_Messages out" using finalizeNoToolStep_return [OF f] by simp
    moreover have "in_OutputGuardrails ?input = in_OutputGuardrails (st_input st)" by simp
    ultimately have "\<exists>input modelCall usage0 steps used steps'. in_OutputGuardrails input = in_OutputGuardrails (st_input st)
        \<and> finalizeNoToolStep e input prepared a modelCall usage0 steps stop i used = (lo_Messages out, steps', out, False, None)"
      by blast
    then show ?thesis using p t err True by blast
  next
    case False
    then have "\<exists>s'. runToolStep e ?s a (newModelCall identity usage stop) i (in_OperationTurn (st_input st)) = (s', out, True, None)"
      using assms p t err by (auto simp: loopBody_def Let_def split: option.splits prod.splits if_splits)
    moreover have "st_current ?s = prepared" by simp
    ultimately show ?thesis using p t err False by blast
  qed
qed

lemma prepareTurn_history:
  assumes "prepareTurn st i = Inr prepared" "validHistory (st_current st)"
  shows "validHistory prepared"
  using assms
  by (auto simp: prepareTurn_def loopTurnPreamble_def maybeCompactHistory_def Let_def valid_iff
      split: if_splits sum.splits option.splits)

section \<open>The loop on a tool bus\<close>

text \<open>
  An engine dispatches to a batch executor: what its \<^verbatim>\<open>ExecuteBatch\<close> returns without an error is an outcome
  of the executor without failures, and its hooks keep the identity of calls and results.
\<close>

definition dispatchesTo :: "(int \<Rightarrow> ToolCall list \<Rightarrow> bool \<Rightarrow> batchOutcome \<Rightarrow> bool) \<Rightarrow> Engine \<Rightarrow> bool" where
  "dispatchesTo batch e \<longleftrightarrow> list_all keepsIdentity (e_Hooks e) \<and>
     (\<forall>i calls mode results. e_ExecuteBatch e i calls mode = (results, None) \<longrightarrow>
        batch i calls (mode = ModeParallel) (Batch results []))"

definition historyInv ::
    "(int \<Rightarrow> ToolCall list \<Rightarrow> bool \<Rightarrow> batchOutcome \<Rightarrow> bool) \<Rightarrow> Engine \<Rightarrow> int \<Rightarrow> loopState \<Rightarrow> bool" where
  "historyInv batch e i st \<longleftrightarrow> dispatchesTo batch e \<and> list_all plainGuardrail (in_OutputGuardrails (st_input st))
     \<and> validHistory (st_current st)"

definition historyPost :: "loopReturn \<Rightarrow> bool" where
  "historyPost r \<longleftrightarrow> (case r of (out, err, _) \<Rightarrow> err = None \<longrightarrow> validHistory (lo_Messages out))"

locale batch_contract =
  fixes batch :: "int \<Rightarrow> ToolCall list \<Rightarrow> bool \<Rightarrow> batchOutcome \<Rightarrow> bool"
  assumes answered: "batch i calls parallel (Batch results []) \<Longrightarrow> map tr_ToolCallID results = map tc_ID calls"
begin

lemma dispatch_identity:
  assumes "dispatchesTo batch e" "prepareToolCalls e i calls = Inr (prepared, isTerminal)"
    and "dispatchPreparedTools e i prepared mode = (results, None)"
  shows "map tr_ToolCallID results = map tc_ID calls"
proof -
  have hooks: "list_all keepsIdentity (e_Hooks e)" using assms(1) by (simp add: dispatchesTo_def)
  obtain driver where "prepareLoop e driver i calls [] False = Inr (prepared, isTerminal)"
    using assms(2) by (auto simp: prepareToolCalls_def split: option.splits)
  from prepareLoop_identity [OF this hooks] have prepared: "map tc_ID prepared = map tc_ID calls" by simp
  obtain raw where raw: "e_ExecuteBatch e i prepared mode = (raw, None)" "afterLoop e i raw prepared [] = (results, None)"
    using assms(3) by (auto simp: dispatchPreparedTools_def split: prod.splits option.splits)
  have "batch i prepared (mode = ModeParallel) (Batch raw [])" using assms(1) raw(1) by (simp add: dispatchesTo_def)
  from afterLoop_identity [OF raw(2) hooks answered [OF this]] show ?thesis using prepared by simp
qed

lemma pass_history:
  assumes "historyInv batch e i st" "loopBody e i st = Inr st'"
  shows "historyInv batch e (i + 1) st'"
  using assms(2)
proof (cases rule: loopBody_continue)
  case (1 prepared a usage stop identity opened)
  have inv: "dispatchesTo batch e" "list_all plainGuardrail (in_OutputGuardrails (st_input st))"
    using assms(1) by (simp_all add: historyInv_def)
  have prepared: "validHistory prepared" using prepareTurn_history [OF 1(1)] assms(1) by (simp add: historyInv_def)
  note a = runTurn_answerable [OF 1(2)]
  have "validHistory (st_current st')"
  proof (cases "m_ToolCalls a = []")
    case True
    then have "plainMessage a" using a by (simp add: plainMessage_def answerable_def)
    moreover obtain input steps modelCall usage0 used out where "in_OutputGuardrails input = in_OutputGuardrails (st_input st)"
      "finalizeNoToolStep e input prepared a modelCall usage0 steps stop i used = (st_current st', st_steps st', out, True, None)"
      using loopBody_retry [OF assms(2) 1(1,2) True] by blast
    ultimately show ?thesis using finalizeNoToolStep_history prepared inv(2) by metis
  next
    case False
    define s where "s = st\<lparr>st_current := prepared,
      st_input := (st_input st)\<lparr>in_OperationTurn := in_OperationTurn (st_input st) + 1\<rparr>,
      st_usage := UsageAdd (st_usage st) usage, st_turnsRun := i + 1\<rparr>"
    have current: "st_current s = prepared" by (simp add: s_def)
    obtain out err where
      "runToolStep e s a (newModelCall identity usage stop) i (in_OperationTurn (st_input st)) = (st', out, False, err)"
      using 1(5) False unfolding s_def by blast
    then show ?thesis
    proof (cases rule: runToolStep_continue)
      case t: (1 calls results)
      have "map tr_ToolCallID results = map tc_ID (m_ToolCalls a)" using dispatch_identity [OF inv(1) t(6,7)] by simp
      from answered_append [OF prepared a False this] show ?thesis using t(9) current by simp
    qed
  qed
  then show ?thesis using inv 1(3) by (simp add: historyInv_def)
qed

lemma return_history:
  assumes "historyInv batch e i st" "loopBody e i st = Inl r"
  shows "historyPost r"
proof -
  obtain out err turn where r: "r = (out, err, turn)" by (cases r)
  have inv: "dispatchesTo batch e" "list_all plainGuardrail (in_OutputGuardrails (st_input st))"
    using assms(1) by (simp_all add: historyInv_def)
  have "validHistory (lo_Messages out)" if none: "err = None"
  proof -
    from loopBody_finish [OF assms(2) [unfolded r none]] obtain prepared a usage stop identity opened where
      p: "prepareTurn st i = Inr prepared" and t: "runTurn e i prepared (st_input st) = (a, usage, stop, identity, opened, None)"
      and ends: "m_ToolCalls a = [] \<and> (\<exists>input modelCall usage0 steps used steps'. in_OutputGuardrails input = in_OutputGuardrails (st_input st)
            \<and> finalizeNoToolStep e input prepared a modelCall usage0 steps stop i used = (lo_Messages out, steps', out, False, None))
        \<or> m_ToolCalls a \<noteq> [] \<and> (\<exists>s modelCall turn s'. st_current s = prepared \<and> runToolStep e s a modelCall i turn = (s', out, True, None))"
      by blast
    have prepared: "validHistory prepared" using prepareTurn_history [OF p] assms(1) by (simp add: historyInv_def)
    note a = runTurn_answerable [OF t]
    from ends show ?thesis
    proof
      assume *: "m_ToolCalls a = [] \<and> (\<exists>input modelCall usage0 steps used steps'. in_OutputGuardrails input = in_OutputGuardrails (st_input st)
            \<and> finalizeNoToolStep e input prepared a modelCall usage0 steps stop i used = (lo_Messages out, steps', out, False, None))"
      then have "plainMessage a" using a by (simp add: plainMessage_def answerable_def)
      then show ?thesis using * finalizeNoToolStep_history prepared inv(2) by metis
    next
      assume *: "m_ToolCalls a \<noteq> [] \<and> (\<exists>s modelCall turn s'. st_current s = prepared \<and> runToolStep e s a modelCall i turn = (s', out, True, None))"
      then obtain s modelCall turn s' where s: "st_current s = prepared" "runToolStep e s a modelCall i turn = (s', out, True, None)"
        by blast
      from s(2) show ?thesis
      proof (cases rule: runToolStep_stop)
        case (1 calls results isTerminal)
        have "map tr_ToolCallID results = map tc_ID (m_ToolCalls a)" using dispatch_identity [OF inv(1) 1(1,2)] by simp
        from answered_append [OF prepared a _ this] show ?thesis using 1(3) s(1) * by simp
      qed
    qed
  qed
  then show ?thesis by (simp add: historyPost_def r)
qed

lemma exhausted_history: "historyInv batch e i st \<Longrightarrow> historyPost (maxTurnsReturn st)"
  by (simp add: historyInv_def historyPost_def maxTurnsReturn_def zeroOutput_def)

end

sublocale batch_contract \<subseteq> transcript: loop_rule e "historyInv batch e" historyPost for e
  by unfold_locales (auto intro: pass_history return_history exhausted_history)

section \<open>The bus keeps the contract\<close>

lemma writtenBy_identity:
  assumes "writtenBy (snd (callExec bus env calls i waited)) = (result, None)" "en_interceptor env = None"
  shows "tr_ToolCallID result = tc_ID (calls ! i)"
proof -
  have "snd (Execute bus (env\<lparr>en_acquire := \<lambda>_. waited\<rparr>) (calls ! i)) = Returned result None"
    using assms(1) by (auto simp: writtenBy_def callExec_def split: execOutcome.splits)
  moreover have "en_interceptor (env\<lparr>en_acquire := \<lambda>_. waited\<rparr>) = None" using assms(2) by simp
  ultimately show ?thesis using Execute_identity by (metis prod.collapse)
qed

lemma parallel_identity:
  assumes "poolRun (callExec bus env calls) (callLimit bus calls) (length calls) p" "finished p" "en_interceptor env = None"
    and "collectParallel calls (map writtenOf (pl_slots p)) = Batch results []"
  shows "map tr_ToolCallID results = map tc_ID calls"
proof -
  have inv: "poolInv (callExec bus env calls) (callLimit bus calls) (length calls) p"
    by (rule calls_pool.run_inv [OF assms(1)])
  note len = poolInv_length [OF inv]
  have results: "results = map fst (map writtenOf (pl_slots p))"
    and ok: "\<And>i. i < length calls \<Longrightarrow> snd (writtenOf (pl_slots p ! i)) = None"
    using collectParallel_all [OF assms(4)] len by simp_all
  have "tr_ToolCallID (fst (writtenOf (pl_slots p ! i))) = tc_ID (calls ! i)" if i: "i < length calls" for i
  proof -
    obtain w where w: "pl_slots p ! i = Written w" using finished_slot [OF inv assms(2) i] by blast
    have "slotAnswered (callExec bus env calls) (pl_executed p) i (pl_slots p ! i)" using inv i by (simp add: poolInv_def)
    moreover have "w \<noteq> skippedFor err" for err using ok [OF i] w by (auto simp: skippedFor_def)
    ultimately obtain waited where "w = writtenBy (snd (callExec bus env calls i waited))"
      using w by (auto simp: slotAnswered_def)
    then have "writtenBy (snd (callExec bus env calls i waited)) = (fst w, None)" using ok [OF i] w by (simp add: prod_eq_iff)
    from writtenBy_identity [OF this assms(3)] show ?thesis using w by simp
  qed
  then show ?thesis unfolding results using len by (intro nth_equalityI) simp_all
qed

lemma sequential_identity:
  assumes "snd (executeSequential (Execute bus env) calls [] []) = Batch results []" "en_interceptor env = None"
  shows "map tr_ToolCallID results = map tc_ID calls"
proof -
  have "executeSequential (Execute bus env) calls [] [] = (fst (executeSequential (Execute bus env) calls [] []), Batch results [])"
    using assms(1) by (metis prod.collapse)
  from executeSequential_accounts [OF this] have len: "length results = length calls"
    and same: "map (\<lambda>result. Returned result None) results = map (snd \<circ> Execute bus env) calls"
    by auto
  have "tr_ToolCallID (results ! i) = tc_ID (calls ! i)" if i: "i < length calls" for i
  proof -
    have "snd (Execute bus env (calls ! i)) = Returned (results ! i) None"
      using arg_cong [OF same, of "\<lambda>xs. xs ! i"] i len by simp
    then show ?thesis using Execute_identity [OF _ assms(2)] by (metis prod.collapse)
  qed
  then show ?thesis using len by (intro nth_equalityI) simp_all
qed

text \<open>The outcomes of a bus whose calls pass no interceptor, in either mode and under every schedule.\<close>

interpretation bus_batches: batch_contract "\<lambda>i. ExecuteBatch bus ((env i)\<lparr>en_interceptor := None\<rparr>)" for bus env
proof unfold_locales
  fix i calls parallel results
  assume "ExecuteBatch bus ((env i)\<lparr>en_interceptor := None\<rparr>) calls parallel (Batch results [])"
  then show "map tr_ToolCallID results = map tc_ID calls"
    by cases (auto intro: parallel_identity sequential_identity)
qed

section \<open>The transcript stays complete\<close>

lemma reaches_history:
  assumes "reaches e input i st" "historyInv (\<lambda>i. ExecuteBatch bus ((env i)\<lparr>en_interceptor := None\<rparr>)) e
    (int (length (in_initialSteps input))) (initialState input)"
  shows "historyInv (\<lambda>i. ExecuteBatch bus ((env i)\<lparr>en_interceptor := None\<rparr>)) e i st"
  using assms by (induction rule: reaches.induct) (auto intro: bus_batches.pass_history)

lemma initialState_guardrails [simp]: "in_OutputGuardrails (st_input (initialState input)) = in_OutputGuardrails input"
  by (simp add: initialState_def normalizeIterationPolicy_def Let_def)

text \<open>
  C6. The transcript of a run is complete at every turn boundary, as long as extensions do not break it. On a tool bus
  without interceptors, in sequential or parallel mode and under every schedule of the batch, with hooks that keep the
  IDs of calls and results (\<open>keepsIdentity\<close>) and guardrails whose retry messages carry no tool calls or results
  and whose replacement is not a tool message (\<open>plainGuardrail\<close>), a run that starts from a history
  \<^verbatim>\<open>ValidateCompleteTurns\<close> accepts reaches only states whose history it accepts, whatever the provider
  streams, however tools behave and whatever a compactor returns; and a run that returns without an error
  returns such a history.
\<close>

theorem history_always_complete:
  assumes "\<forall>i calls mode results. e_ExecuteBatch e i calls mode = (results, None) \<longrightarrow>
      ExecuteBatch bus ((env i)\<lparr>en_interceptor := None\<rparr>) calls (mode = ModeParallel) (Batch results [])"
    and "list_all keepsIdentity (e_Hooks e)" "list_all plainGuardrail (in_OutputGuardrails input)"
    and "ValidateCompleteTurns (in_Messages input) = None"
  shows "(\<forall>i st. reaches e input i st \<longrightarrow> ValidateCompleteTurns (st_current st) = None)
    \<and> (\<forall>fuel elapsed out. RunMessages fuel e elapsed input = Some (out, None) \<longrightarrow>
        ValidateCompleteTurns (lo_Messages out) = None)"
proof (intro conjI allI impI)
  let ?batch = "\<lambda>i. ExecuteBatch bus ((env i)\<lparr>en_interceptor := None\<rparr>)"
  have init: "historyInv ?batch e (int (length (in_initialSteps input))) (initialState input)"
    using assms by (simp add: historyInv_def dispatchesTo_def valid_iff initialState_simps)
  show "ValidateCompleteTurns (st_current st) = None" if "reaches e input i st" for i st
    using reaches_history [OF that init] by (simp add: historyInv_def valid_iff)
  show "ValidateCompleteTurns (lo_Messages out) = None"
    if returned: "RunMessages fuel e elapsed input = Some (out, None)" for fuel elapsed out
  proof -
    obtain out0 turn where "runLoop fuel e (int (length (in_initialSteps input))) (initialState input) = Some (out0, None, turn)"
      and out: "lo_Messages out = lo_Messages out0"
      using returned by (auto simp: RunMessages_def)
    from bus_batches.transcript.run_post [OF this(1) init] show ?thesis
      by (simp add: historyPost_def valid_iff out)
  qed
qed

text \<open>The demonstration run with its tool on a bus: one call, answered by the streaming tool, then the final text.\<close>

definition batchReply :: "batchOutcome \<Rightarrow> ToolResult list \<times> goError option" where
  "batchReply outcome =
     (case outcome of
        Batch results failures \<Rightarrow> (results, if failures = [] then None else Some (JoinError (map snd failures)))
      | BatchRefused err \<Rightarrow> ([], Some err)
      | BatchPanicked reason \<Rightarrow> ([], Some (TextError reason)))"

definition busEngine :: Engine where
  "busEngine = demoEngine\<lparr>e_Boundaries := None, e_ExecuteBatch := \<lambda>_ calls mode.
     if mode = ModeParallel \<or> int (length calls) > MaxBatchCalls then ([], Some ContextCanceled)
     else batchReply (snd (executeSequential (Execute soloBus demoEnv) calls [] []))\<rparr>"

definition busRun :: "LoopOutput \<times> loopError option" where
  "busRun = the (RunMessages 12 busEngine 0 demoInput)"

lemma busEngine_dispatches: "dispatchesTo (\<lambda>i. ExecuteBatch soloBus (demoEnv\<lparr>en_interceptor := None\<rparr>)) busEngine"
proof -
  have env: "demoEnv\<lparr>en_interceptor := None\<rparr> = demoEnv" by (simp add: demoEnv_def)
  have "snd (executeSequential (Execute soloBus demoEnv) calls [] []) = Batch results []"
    if "batchReply (snd (executeSequential (Execute soloBus demoEnv) calls [] [])) = (results, None)" for calls results
    using that by (auto simp: batchReply_def split: batchOutcome.splits if_splits)
  then show ?thesis
    using ExecuteBatch.sequential [of _ False soloBus demoEnv]
    unfolding dispatchesTo_def env by (fastforce simp: busEngine_def demoEngine_def split: if_splits)
qed

lemma returned_output: "(case r of (out, None) \<Rightarrow> P out | _ \<Rightarrow> False) \<Longrightarrow> snd r = None \<and> P (fst r)"
  by (cases r) (auto split: option.splits)

lemma history_always_complete_witness:
  "ValidateCompleteTurns (lo_Messages (fst busRun)) = None
   \<and> map m_Role (lo_Messages (fst busRun)) = [RoleUser, RoleAssistant, RoleTool, RoleAssistant]"
proof -
  have ran: "case busRun of (out, None) \<Rightarrow> map m_Role (lo_Messages out) = [RoleUser, RoleAssistant, RoleTool, RoleAssistant]
      | _ \<Rightarrow> False"
    by code_simp
  have "snd busRun = None"
    "map m_Role (lo_Messages (fst busRun)) = [RoleUser, RoleAssistant, RoleTool, RoleAssistant]"
    using returned_output [OF ran] by blast+
  moreover have "RunMessages 12 busEngine 0 demoInput = Some (fst busRun, snd busRun)"
  proof -
    have "\<exists>r. runLoop 12 busEngine 0 (initialState demoInput) = Some r"
      using runLoop_returns_iterations [of "st_input (initialState demoInput)" "initialState demoInput" 0 12 busEngine]
      by (simp add: initialState_simps demoInput_def normalizeIterationPolicy_def)
    then show ?thesis by (auto simp: busRun_def RunMessages_def demoInput_def)
  qed
  moreover have "list_all plainGuardrail (in_OutputGuardrails demoInput)" "ValidateCompleteTurns (in_Messages demoInput) = None"
    by (simp add: demoInput_def) code_simp
  ultimately show ?thesis
    using history_always_complete [of busEngine soloBus "\<lambda>_. demoEnv" demoInput] busEngine_dispatches [unfolded dispatchesTo_def] by metis
qed

end
