(* ===== verification/Durable_Types.thy ===== *)
theory Durable_Types
  imports Agent_Continuation Json
begin

text \<open>
  The durable contract (\<^verbatim>\<open>src/durable/backend.go\<close>, \<^verbatim>\<open>errors.go\<close>, \<^verbatim>\<open>hash.go\<close>): executions, leases,
  checkpoints, effect attempts, the requests and results of a backend, the error values and
  the canonical hashes.

  JSON encoding and SHA-256 are the fields of the argument \<open>Codec\<close>: \<open>js_marshalSpec\<close>,
  \<open>js_marshalResult\<close> and \<open>js_marshalWire\<close> are \<^verbatim>\<open>json.Marshal\<close> at the three types that are hashed,
  \<open>js_parse\<close> reads a text that holds exactly one JSON value, \<open>js_print\<close> is \<^verbatim>\<open>json.Marshal\<close> of
  the value decoded from it with \<^verbatim>\<open>UseNumber\<close>, \<open>js_valid\<close> is \<^verbatim>\<open>json.Valid\<close>, and the \<open>js_clone\<close> fields are the encode-decode copies (\<^verbatim>\<open>cloneJSON\<close>) taken of
  the values of a request before they are stored.
\<close>

section \<open>Data\<close>

type_synonym ExecutionID = string
type_synonym ClaimID = "128 word"

datatype ExecutionStatus = ExecutionStatusRunning | ExecutionStatusSuspended
  | ExecutionStatusCompleted | ExecutionStatusFailed | ExecutionStatusOther string

record ExecutionSpec =
  es_Request :: AgentRequest
  es_OutputPolicy :: OutputPolicy

record Checkpoint =
  ck_Sequence :: uint64
  ck_Continuation :: Continuation
  ck_ContinuationHash :: hash

record Lease =
  l_OwnerID :: string
  l_ClaimID :: ClaimID
  l_Token :: uint64
  l_ExpiresAt :: instant

record LeaseRef =
  lr_OwnerID :: string
  lr_Token :: uint64

record Execution =
  e_ID :: ExecutionID
  e_Spec :: ExecutionSpec
  e_SpecHash :: hash
  e_Status :: ExecutionStatus
  e_Version :: uint64
  e_Lease :: "Lease option"
  e_Checkpoint :: "Checkpoint option"
  e_Result :: "Result option"
  e_ResultHash :: hash

datatype AttemptKind = AttemptKindModel | AttemptKindTool | AttemptKindOther string

datatype AttemptStatus = AttemptStatusRunning | AttemptStatusSucceeded | AttemptStatusFailed
  | AttemptStatusUnknown | AttemptStatusAbandoned | AttemptStatusOther string

datatype AttemptDecision = AttemptDecisionExecute | AttemptDecisionReplay | AttemptDecisionReconcile

record FailureRecord =
  fr_Code :: string
  fr_Message :: string

record Attempt =
  a_ExecutionID :: ExecutionID
  a_OperationID :: string
  a_Kind :: AttemptKind
  a_Number :: int
  a_InputHash :: hash
  a_Status :: AttemptStatus
  a_Lease :: "LeaseRef option"
  a_Version :: uint64
  a_Payload :: bytes
  a_Failure :: "FailureRecord option"

record AttemptStart =
  as_Attempt :: Attempt
  as_Decision :: AttemptDecision

record StartResult =
  sr_Execution :: Execution
  sr_Created :: bool
  sr_Reconcile :: "Attempt list"

record ResumeResult =
  rr_Execution :: Execution
  rr_Reconcile :: "Attempt list"

record ReleaseResult =
  rl_Execution :: Execution
  rl_Reconcile :: "Attempt list"

datatype ReconcileResolution = ReconcileResolutionSucceed | ReconcileResolutionFail
  | ReconcileResolutionRetry | ReconcileResolutionOther string

section \<open>Requests\<close>

record StartExecutionRequest =
  sx_ExecutionID :: ExecutionID
  sx_OwnerID :: string
  sx_ClaimID :: ClaimID
  sx_LeaseTTL :: duration
  sx_Spec :: ExecutionSpec
  sx_SpecHash :: hash

record ResumeExecutionRequest =
  rx_ExecutionID :: ExecutionID
  rx_OwnerID :: string
  rx_ClaimID :: ClaimID
  rx_LeaseTTL :: duration

record RenewExecutionRequest =
  nx_ExecutionID :: ExecutionID
  nx_Lease :: LeaseRef
  nx_LeaseTTL :: duration

record SaveCheckpointRequest =
  cx_ExecutionID :: ExecutionID
  cx_Lease :: LeaseRef
  cx_ExpectedVersion :: uint64
  cx_Checkpoint :: Checkpoint

record SuspendExecutionRequest =
  px_ExecutionID :: ExecutionID
  px_Lease :: LeaseRef
  px_ExpectedVersion :: uint64

record FinishExecutionRequest =
  fx_ExecutionID :: ExecutionID
  fx_Lease :: LeaseRef
  fx_ExpectedVersion :: uint64
  fx_Result :: Result
  fx_ResultHash :: hash

record ReleaseExecutionRequest =
  lx_ExecutionID :: ExecutionID
  lx_Lease :: LeaseRef

record StartAttemptRequest =
  sa_ExecutionID :: ExecutionID
  sa_Lease :: LeaseRef
  sa_OperationID :: string
  sa_Kind :: AttemptKind
  sa_InputHash :: hash

record FinishAttemptRequest =
  fa_ExecutionID :: ExecutionID
  fa_Lease :: LeaseRef
  fa_OperationID :: string
  fa_AttemptNumber :: int
  fa_ExpectedAttemptVersion :: uint64
  fa_Payload :: bytes
  fa_Failure :: "FailureRecord option"

text \<open>\<^verbatim>\<open>MarkAttemptUnknownRequest\<close> has the fields of \<^verbatim>\<open>FinishAttemptRequest\<close>.\<close>

type_synonym MarkAttemptUnknownRequest = FinishAttemptRequest

record ReconcileAttemptRequest =
  ra_ExecutionID :: ExecutionID
  ra_OperationID :: string
  ra_AttemptNumber :: int
  ra_ExpectedAttemptVersion :: uint64
  ra_Resolution :: ReconcileResolution
  ra_Payload :: bytes
  ra_Failure :: "FailureRecord option"

section \<open>Errors\<close>

text \<open>
  The sentinels of \<^verbatim>\<open>errors.go\<close> and the wrappers the code puts around them. \<open>ContextError\<close> is
  what \<^verbatim>\<open>ctx.Err()\<close> returned, \<open>Annotated\<close> a sentinel with a fixed text (\<^verbatim>\<open>fmt.Errorf\<close> with
  \<^verbatim>\<open>%w\<close>), \<open>JoinedContinuation\<close> the \<^verbatim>\<open>errors.Join\<close> of \<^verbatim>\<open>ValidateCheckpoint\<close>.
\<close>

datatype durableError =
    ErrInvalidArgument | ErrNotFound | ErrConflict | ErrBusy | ErrLeaseLost | ErrCorruptCheckpoint
  | ErrReconcileRequired | ErrResumeTargetMismatch | ErrNotActive | ErrSuspended | ErrClosed
  | ContextError goError
  | Annotated string durableError
  | JoinedContinuation durableError continuationError
  | ExecutionError ExecutionID durableError
  | AttemptError ExecutionID string int durableError

text \<open>\<^verbatim>\<open>errors.Is\<close> for a sentinel: the error at the end of the chain of wrappers.\<close>

fun sentinelOf :: "durableError \<Rightarrow> durableError" where
  "sentinelOf (Annotated _ err) = sentinelOf err"
| "sentinelOf (JoinedContinuation err _) = sentinelOf err"
| "sentinelOf (ExecutionError _ err) = sentinelOf err"
| "sentinelOf (AttemptError _ _ _ err) = sentinelOf err"
| "sentinelOf err = err"

section \<open>Hashes\<close>

record Codec =
  js_valid :: "bytes \<Rightarrow> bool"
  js_marshalSpec :: "ExecutionSpec \<Rightarrow> bytes option"
  js_marshalResult :: "Result \<Rightarrow> bytes option"
  js_marshalWire :: "Continuation \<Rightarrow> bytes option"
  js_parse :: "bytes \<Rightarrow> json option"
  js_print :: "json \<Rightarrow> bytes"
  js_sha256 :: "bytes \<Rightarrow> hash"
  js_cloneSpec :: "ExecutionSpec \<Rightarrow> ExecutionSpec"
  js_cloneContinuation :: "Continuation \<Rightarrow> Continuation"
  js_cloneResult :: "Result \<Rightarrow> Result"

text \<open>\<^verbatim>\<open>canonicalJSONHash\<close> of a value that has been marshalled; \<open>None\<close> is its error.\<close>

definition canonicalJSONHash :: "Codec \<Rightarrow> bytes option \<Rightarrow> hash option" where
  "canonicalJSONHash codec encoded =
     (case encoded of None \<Rightarrow> None
      | Some document \<Rightarrow>
          (case js_parse codec document of None \<Rightarrow> None
           | Some decoded \<Rightarrow> Some (js_sha256 codec (js_print codec decoded))))"

definition HashExecutionSpec :: "Codec \<Rightarrow> ExecutionSpec \<Rightarrow> hash option" where
  "HashExecutionSpec codec spec = canonicalJSONHash codec (js_marshalSpec codec spec)"

definition HashResult :: "Codec \<Rightarrow> Result \<Rightarrow> hash option" where
  "HashResult codec result = canonicalJSONHash codec (js_marshalResult codec result)"

definition canonicalizeContinuationDocument :: "Codec \<Rightarrow> bytes \<Rightarrow> bytes option" where
  "canonicalizeContinuationDocument codec document =
     (case js_parse codec document of
        None \<Rightarrow> None
      | Some decoded \<Rightarrow>
          if validateContinuationJSONDocument decoded then Some (js_print codec decoded) else None)"

definition EncodeContinuation :: "Codec \<Rightarrow> Continuation \<Rightarrow> continuationError + bytes" where
  "EncodeContinuation codec c =
     (case ValidateContinuation (js_valid codec) c of
        Some err \<Rightarrow> Inl err
      | None \<Rightarrow>
          (case js_marshalWire codec c of
             None \<Rightarrow> Inl (InvalidContinuation ''encode schema v1: %v'' [])
           | Some encoded \<Rightarrow>
               (case canonicalizeContinuationDocument codec encoded of
                  None \<Rightarrow> Inl (InvalidContinuation ''canonicalize schema v1: %v'' [])
                | Some canonical \<Rightarrow> Inr canonical)))"

definition HashContinuation :: "Codec \<Rightarrow> Continuation \<Rightarrow> continuationError + hash" where
  "HashContinuation codec c =
     (case EncodeContinuation codec c of
        Inl err \<Rightarrow> Inl err
      | Inr encoded \<Rightarrow> Inr (js_sha256 codec encoded))"

definition ValidateCheckpoint :: "Codec \<Rightarrow> Checkpoint \<Rightarrow> durableError option" where
  "ValidateCheckpoint codec checkpoint =
     (if ck_Sequence checkpoint = 0
      then Some (Annotated ''checkpoint sequence is zero'' ErrCorruptCheckpoint)
      else case HashContinuation codec (ck_Continuation checkpoint) of
        Inl err \<Rightarrow> Some (JoinedContinuation ErrCorruptCheckpoint err)
      | Inr computed \<Rightarrow>
          if computed \<noteq> ck_ContinuationHash checkpoint
          then Some (Annotated ''continuation hash mismatch'' ErrCorruptCheckpoint)
          else None)"

end
