(* ===== verification/Test_Backend.thy ===== *)
theory Test_Backend
  imports Durable_Types
begin

text \<open>
  The repository's \<^verbatim>\<open>durable.Backend\<close> implementation
  (\<^verbatim>\<open>src/durable/internal/testbackend\<close>): the store, its twelve operations, and the clock.

  Every operation runs under the store's mutex, so it is one function on the store: it takes
  the codec, the value of \<^verbatim>\<open>ctx.Err()\<close> (read once on every path) and the wall clock reading,
  and returns the reply with the new store. \<open>Inl\<close> is a returned error.
\<close>

section \<open>State\<close>

record claimRecord =
  cr_mode :: string
  cr_ownerID :: string
  cr_leaseTTL :: duration
  cr_specHash :: hash
  cr_token :: uint64
  cr_start :: "StartResult option"
  cr_resume :: "ResumeResult option"

type_synonym leaseKey = "string \<times> uint64"
type_synonym suspendKey = "leaseKey \<times> uint64"
type_synonym finishKey = "leaseKey \<times> uint64 \<times> hash"

text \<open>
  The attempt map is iterated over by the code, so it is an association list in the order of
  one iteration.
\<close>

record executionRecord =
  er_execution :: Execution
  er_attempts :: "(string \<times> Attempt list) list"
  er_claims :: "ClaimID \<rightharpoonup> claimRecord"
  er_releases :: "leaseKey \<rightharpoonup> ReleaseResult"
  er_suspends :: "suspendKey \<rightharpoonup> Execution"
  er_finishes :: "finishKey \<rightharpoonup> Execution"
  er_nextToken :: uint64

record store =
  st_offset :: duration
  st_executions :: "ExecutionID \<rightharpoonup> executionRecord"

type_synonym 'a reply = "durableError + 'a"

section \<open>Store helpers\<close>

definition New :: store where
  "New = \<lparr>st_offset = 0, st_executions = Map.empty\<rparr>"

definition Advance :: "duration \<Rightarrow> store \<Rightarrow> store" where
  "Advance amount s = s\<lparr>st_offset := st_offset s + amount\<rparr>"

definition trustedNow :: "instant \<Rightarrow> store \<Rightarrow> instant" where
  "trustedNow clock s = clock + st_offset s"

definition withRecord ::
    "durableError option \<Rightarrow> instant \<Rightarrow> ExecutionID \<Rightarrow> string
       \<Rightarrow> (executionRecord \<Rightarrow> instant \<Rightarrow> 'a reply \<times> executionRecord) \<Rightarrow> store \<Rightarrow> 'a reply \<times> store" where
  "withRecord ctxErr clock executionID operationID call s =
     (case ctxErr of
        Some err \<Rightarrow> (Inl err, s)
      | None \<Rightarrow>
          (case st_executions s executionID of
             None \<Rightarrow>
               (if operationID \<noteq> [] then (Inl (AttemptError executionID operationID 0 ErrNotFound), s)
                else (Inl (ExecutionError executionID ErrNotFound), s))
           | Some rec \<Rightarrow>
               (let (reply, rec') = call rec (trustedNow clock s)
                in (reply, s\<lparr>st_executions := (st_executions s)(executionID \<mapsto> rec')\<rparr>))))"

definition validExecutionID :: "ExecutionID \<Rightarrow> bool" where
  "validExecutionID executionID \<longleftrightarrow> trimSpace executionID \<noteq> []"

definition validLeaseInput :: "string \<Rightarrow> ClaimID \<Rightarrow> duration \<Rightarrow> bool" where
  "validLeaseInput ownerID claimID ttl \<longleftrightarrow> trimSpace ownerID \<noteq> [] \<and> claimID \<noteq> 0 \<and> ttl > 0"

definition leaseMatches :: "Lease option \<Rightarrow> LeaseRef \<Rightarrow> bool" where
  "leaseMatches lease reference =
     (case lease of None \<Rightarrow> False
      | Some l \<Rightarrow> l_OwnerID l = lr_OwnerID reference \<and> l_Token l = lr_Token reference)"

definition leaseActive :: "Lease option \<Rightarrow> instant \<Rightarrow> bool" where
  "leaseActive lease now = (case lease of None \<Rightarrow> False | Some l \<Rightarrow> now < l_ExpiresAt l)"

definition requireActiveLease ::
    "executionRecord \<Rightarrow> ExecutionID \<Rightarrow> LeaseRef \<Rightarrow> instant \<Rightarrow> durableError option" where
  "requireActiveLease rec executionID reference now =
     (if \<not> leaseMatches (e_Lease (er_execution rec)) reference
         \<or> \<not> leaseActive (e_Lease (er_execution rec)) now
      then Some (ExecutionError executionID ErrLeaseLost) else None)"

definition terminal :: "ExecutionStatus \<Rightarrow> bool" where
  "terminal status \<longleftrightarrow> status = ExecutionStatusCompleted \<or> status = ExecutionStatusFailed"

definition contextOrValidation :: "durableError option \<Rightarrow> durableError \<Rightarrow> durableError" where
  "contextOrValidation ctxErr err = (case ctxErr of Some ctx \<Rightarrow> ctx | None \<Rightarrow> err)"

definition sortAttempts :: "Attempt list \<Rightarrow> Attempt list" where
  "sortAttempts attempts = sort_key (\<lambda>attempt. (a_OperationID attempt, a_Number attempt)) attempts"

text \<open>The body of the loop of \<^verbatim>\<open>reconcileRunning\<close>: which attempts it changes, and how.\<close>

definition orphaned :: "uint64 \<Rightarrow> Attempt \<Rightarrow> bool" where
  "orphaned token attempt \<longleftrightarrow>
     \<not> (a_Status attempt \<noteq> AttemptStatusRunning
        \<or> (case a_Lease attempt of None \<Rightarrow> True
           | Some lease \<Rightarrow> token \<noteq> 0 \<and> lr_Token lease \<noteq> token))"

definition makeUnknown :: "Attempt \<Rightarrow> Attempt" where
  "makeUnknown attempt =
     attempt\<lparr>a_Status := AttemptStatusUnknown, a_Lease := None, a_Version := a_Version attempt + 1\<rparr>"

definition reconcileRunning :: "executionRecord \<Rightarrow> uint64 \<Rightarrow> Attempt list \<times> executionRecord" where
  "reconcileRunning rec token =
     (let change = (\<lambda>attempt. if orphaned token attempt then makeUnknown attempt else attempt)
      in (sortAttempts
            (concat (map (\<lambda>(operationID, attempts). map makeUnknown (filter (orphaned token) attempts))
               (er_attempts rec))),
          rec\<lparr>er_attempts :=
            map (\<lambda>(operationID, attempts). (operationID, map change attempts)) (er_attempts rec)\<rparr>))"

definition reconcileForClaim :: "executionRecord \<Rightarrow> Attempt list \<times> executionRecord" where
  "reconcileForClaim rec =
     (let rec' = snd (reconcileRunning rec 0)
      in (sortAttempts
            (concat (map (\<lambda>(operationID, attempts).
               filter (\<lambda>attempt. a_Status attempt = AttemptStatusUnknown) attempts) (er_attempts rec'))),
          rec'))"

definition slotOf :: "executionRecord \<Rightarrow> string \<Rightarrow> Attempt list" where
  "slotOf rec operationID = (case map_of (er_attempts rec) operationID of None \<Rightarrow> [] | Some as \<Rightarrow> as)"

definition setSlot :: "string \<Rightarrow> Attempt list \<Rightarrow> executionRecord \<Rightarrow> executionRecord" where
  "setSlot operationID attempts rec =
     rec\<lparr>er_attempts := AList.update operationID attempts (er_attempts rec)\<rparr>"

text \<open>
  \<^verbatim>\<open>attemptByNumber\<close> returns a pointer into the slot; here it is the position of the attempt,
  through which \<open>updateAttempt\<close> writes.
\<close>

fun attemptIndex :: "int \<Rightarrow> Attempt list \<Rightarrow> nat option" where
  "attemptIndex number [] = None"
| "attemptIndex number (attempt # attempts) =
     (if a_Number attempt = number then Some 0
      else map_option Suc (attemptIndex number attempts))"

definition attemptByNumber :: "executionRecord \<Rightarrow> string \<Rightarrow> int \<Rightarrow> (nat \<times> Attempt) option" where
  "attemptByNumber rec operationID number =
     (case attemptIndex number (slotOf rec operationID) of
        None \<Rightarrow> None
      | Some index \<Rightarrow> Some (index, slotOf rec operationID ! index))"

definition updateAttempt :: "string \<Rightarrow> nat \<Rightarrow> Attempt \<Rightarrow> executionRecord \<Rightarrow> executionRecord" where
  "updateAttempt operationID index attempt rec =
     setSlot operationID ((slotOf rec operationID)[index := attempt]) rec"

definition validateAttemptIdentity :: "ExecutionID \<Rightarrow> string \<Rightarrow> int \<Rightarrow> durableError option" where
  "validateAttemptIdentity executionID operationID number =
     (if \<not> validExecutionID executionID \<or> trimSpace operationID = [] \<or> number < 1
      then Some (AttemptError executionID operationID number ErrInvalidArgument) else None)"

section \<open>Claims\<close>

text \<open>
  What \<^verbatim>\<open>claimForStart\<close> and \<^verbatim>\<open>ResumeExecution\<close> do once a claim is granted, up to the claim
  record: running attempts become uncertain, the token advances and the lease is replaced.
\<close>

definition grantLease ::
    "executionRecord \<Rightarrow> string \<Rightarrow> ClaimID \<Rightarrow> duration \<Rightarrow> instant \<Rightarrow> Attempt list \<times> executionRecord" where
  "grantLease rec ownerID claimID ttl now =
     (let (reconcile, rec1) = reconcileForClaim rec;
          token = er_nextToken rec1 + 1
      in (reconcile,
          rec1\<lparr>er_nextToken := token,
               er_execution := (er_execution rec1)
                 \<lparr>e_Status := ExecutionStatusRunning,
                  e_Lease := Some \<lparr>l_OwnerID = ownerID, l_ClaimID = claimID, l_Token = token,
                                   l_ExpiresAt = now + ttl\<rparr>\<rparr>\<rparr>))"

definition claimForStart ::
    "executionRecord \<Rightarrow> StartExecutionRequest \<Rightarrow> instant \<Rightarrow> StartResult reply \<times> executionRecord" where
  "claimForStart rec q now =
     (let lease = e_Lease (er_execution rec);
          settled =
            (case er_claims rec (sx_ClaimID q) of
               Some prior \<Rightarrow>
                 if cr_mode prior \<noteq> ''start'' \<or> cr_ownerID prior \<noteq> sx_OwnerID q
                    \<or> cr_leaseTTL prior \<noteq> sx_LeaseTTL q \<or> cr_specHash prior \<noteq> sx_SpecHash q
                 then Some (Inl (ExecutionError (sx_ExecutionID q) ErrConflict))
                 else if er_nextToken rec > cr_token prior
                 then Some (Inl (ExecutionError (sx_ExecutionID q) ErrLeaseLost))
                 else if leaseActive lease now \<and> l_ClaimID (the lease) = sx_ClaimID q
                         \<and> cr_start prior \<noteq> None
                 then Some (Inr (the (cr_start prior)))
                 else None
             | None \<Rightarrow> None)
      in case settled of
           Some reply \<Rightarrow> (reply, rec)
         | None \<Rightarrow>
             if leaseActive lease now
             then (Inl (ExecutionError (sx_ExecutionID q) ErrBusy), rec)
             else
               let (reconcile, rec1) = grantLease rec (sx_OwnerID q) (sx_ClaimID q) (sx_LeaseTTL q) now;
                   result = \<lparr>sr_Execution = er_execution rec1, sr_Created = False,
                             sr_Reconcile = reconcile\<rparr>
               in (Inr result,
                   rec1\<lparr>er_claims := (er_claims rec1)(sx_ClaimID q \<mapsto>
                     \<lparr>cr_mode = ''start'', cr_ownerID = sx_OwnerID q, cr_leaseTTL = sx_LeaseTTL q,
                      cr_specHash = sx_SpecHash q, cr_token = er_nextToken rec1,
                      cr_start = Some result, cr_resume = None\<rparr>)\<rparr>))"

text \<open>The record \<^verbatim>\<open>StartExecution\<close> creates for an execution it has not seen.\<close>

definition newExecution :: "Codec \<Rightarrow> StartExecutionRequest \<Rightarrow> instant \<Rightarrow> executionRecord" where
  "newExecution codec q now =
     \<lparr>er_execution =
        \<lparr>e_ID = sx_ExecutionID q, e_Spec = js_cloneSpec codec (sx_Spec q),
         e_SpecHash = sx_SpecHash q, e_Status = ExecutionStatusRunning, e_Version = 1,
         e_Lease = Some \<lparr>l_OwnerID = sx_OwnerID q, l_ClaimID = sx_ClaimID q, l_Token = 1,
                          l_ExpiresAt = now + sx_LeaseTTL q\<rparr>,
         e_Checkpoint = None, e_Result = None, e_ResultHash = 0\<rparr>,
      er_attempts = [], er_claims = Map.empty, er_releases = Map.empty,
      er_suspends = Map.empty, er_finishes = Map.empty, er_nextToken = 1\<rparr>"

definition StartExecution ::
    "Codec \<Rightarrow> durableError option \<Rightarrow> instant \<Rightarrow> StartExecutionRequest \<Rightarrow> store
       \<Rightarrow> StartResult reply \<times> store" where
  "StartExecution codec ctxErr clock q s =
     (let executionID = sx_ExecutionID q; now = trustedNow clock s
      in case ctxErr of
        Some err \<Rightarrow> (Inl err, s)
      | None \<Rightarrow>
          if \<not> validExecutionID executionID
             \<or> \<not> validLeaseInput (sx_OwnerID q) (sx_ClaimID q) (sx_LeaseTTL q)
          then (Inl (ExecutionError executionID ErrInvalidArgument), s)
          else case HashExecutionSpec codec (sx_Spec q) of
            None \<Rightarrow> (Inl (ExecutionError executionID
                      (Annotated ''hash execution spec'' ErrInvalidArgument)), s)
          | Some computed \<Rightarrow>
              if computed \<noteq> sx_SpecHash q then (Inl (ExecutionError executionID ErrConflict), s)
              else case st_executions s executionID of
                Some rec \<Rightarrow>
                  if e_SpecHash (er_execution rec) \<noteq> sx_SpecHash q
                  then (Inl (ExecutionError executionID ErrConflict), s)
                  else if terminal (e_Status (er_execution rec))
                  then (Inr \<lparr>sr_Execution = er_execution rec, sr_Created = False,
                             sr_Reconcile = []\<rparr>, s)
                  else let (reply, rec') = claimForStart rec q now
                       in (reply, s\<lparr>st_executions := (st_executions s)(executionID \<mapsto> rec')\<rparr>)
              | None \<Rightarrow>
                  let rec = newExecution codec q now;
                      result = \<lparr>sr_Execution = er_execution rec, sr_Created = True,
                                sr_Reconcile = []\<rparr>;
                      rec' = rec\<lparr>er_claims := (er_claims rec)(sx_ClaimID q \<mapsto>
                        \<lparr>cr_mode = ''start'', cr_ownerID = sx_OwnerID q, cr_leaseTTL = sx_LeaseTTL q,
                         cr_specHash = sx_SpecHash q, cr_token = er_nextToken rec,
                         cr_start = Some result, cr_resume = None\<rparr>)\<rparr>
                  in (Inr result, s\<lparr>st_executions := (st_executions s)(executionID \<mapsto> rec')\<rparr>))"

definition resumeBody ::
    "ResumeExecutionRequest \<Rightarrow> executionRecord \<Rightarrow> instant \<Rightarrow> ResumeResult reply \<times> executionRecord" where
  "resumeBody q rec now =
     (let lease = e_Lease (er_execution rec);
          settled =
            (case er_claims rec (rx_ClaimID q) of
               Some prior \<Rightarrow>
                 if cr_mode prior \<noteq> ''resume'' \<or> cr_ownerID prior \<noteq> rx_OwnerID q
                    \<or> cr_leaseTTL prior \<noteq> rx_LeaseTTL q
                 then Some (Inl (ExecutionError (rx_ExecutionID q) ErrConflict))
                 else if er_nextToken rec > cr_token prior
                 then Some (Inl (ExecutionError (rx_ExecutionID q) ErrLeaseLost))
                 else if leaseActive lease now \<and> l_ClaimID (the lease) = rx_ClaimID q
                         \<and> cr_resume prior \<noteq> None
                 then Some (Inr (the (cr_resume prior)))
                 else None
             | None \<Rightarrow> None)
      in if terminal (e_Status (er_execution rec))
         then (Inr \<lparr>rr_Execution = er_execution rec, rr_Reconcile = []\<rparr>, rec)
         else case settled of
           Some reply \<Rightarrow> (reply, rec)
         | None \<Rightarrow>
             if leaseActive lease now
             then (Inl (ExecutionError (rx_ExecutionID q) ErrBusy), rec)
             else
               let (reconcile, rec1) = grantLease rec (rx_OwnerID q) (rx_ClaimID q) (rx_LeaseTTL q) now;
                   result = \<lparr>rr_Execution = er_execution rec1, rr_Reconcile = reconcile\<rparr>
               in (Inr result,
                   rec1\<lparr>er_claims := (er_claims rec1)(rx_ClaimID q \<mapsto>
                     \<lparr>cr_mode = ''resume'', cr_ownerID = rx_OwnerID q, cr_leaseTTL = rx_LeaseTTL q,
                      cr_specHash = 0, cr_token = er_nextToken rec1,
                      cr_start = None, cr_resume = Some result\<rparr>)\<rparr>))"

definition ResumeExecution ::
    "durableError option \<Rightarrow> instant \<Rightarrow> ResumeExecutionRequest \<Rightarrow> store \<Rightarrow> ResumeResult reply \<times> store" where
  "ResumeExecution ctxErr clock q s =
     (if \<not> validExecutionID (rx_ExecutionID q)
         \<or> \<not> validLeaseInput (rx_OwnerID q) (rx_ClaimID q) (rx_LeaseTTL q)
      then (Inl (contextOrValidation ctxErr (ExecutionError (rx_ExecutionID q) ErrInvalidArgument)), s)
      else withRecord ctxErr clock (rx_ExecutionID q) [] (resumeBody q) s)"

section \<open>Execution operations\<close>

definition LoadExecution ::
    "Codec \<Rightarrow> durableError option \<Rightarrow> instant \<Rightarrow> ExecutionID \<Rightarrow> store \<Rightarrow> Execution reply \<times> store" where
  "LoadExecution codec ctxErr clock executionID s =
     (if \<not> validExecutionID executionID
      then (Inl (contextOrValidation ctxErr (ExecutionError executionID ErrInvalidArgument)), s)
      else withRecord ctxErr clock executionID []
        (\<lambda>rec now.
           (case e_Checkpoint (er_execution rec) of
              Some checkpoint \<Rightarrow>
                (case ValidateCheckpoint codec checkpoint of
                   Some err \<Rightarrow> Inl (ExecutionError executionID err)
                 | None \<Rightarrow> Inr (er_execution rec))
            | None \<Rightarrow> Inr (er_execution rec), rec)) s)"

definition invalidLeaseRef :: "ExecutionID \<Rightarrow> LeaseRef \<Rightarrow> bool" where
  "invalidLeaseRef executionID lease \<longleftrightarrow>
     \<not> validExecutionID executionID \<or> lr_OwnerID lease = [] \<or> lr_Token lease = 0"

definition renewBody ::
    "RenewExecutionRequest \<Rightarrow> executionRecord \<Rightarrow> instant \<Rightarrow> Lease reply \<times> executionRecord" where
  "renewBody q rec now =
     (case requireActiveLease rec (nx_ExecutionID q) (nx_Lease q) now of
        Some err \<Rightarrow> (Inl err, rec)
      | None \<Rightarrow>
          let lease = (the (e_Lease (er_execution rec)))\<lparr>l_ExpiresAt := now + nx_LeaseTTL q\<rparr>
          in (Inr lease, rec\<lparr>er_execution := (er_execution rec)\<lparr>e_Lease := Some lease\<rparr>\<rparr>))"

definition RenewExecution ::
    "durableError option \<Rightarrow> instant \<Rightarrow> RenewExecutionRequest \<Rightarrow> store \<Rightarrow> Lease reply \<times> store" where
  "RenewExecution ctxErr clock q s =
     (if invalidLeaseRef (nx_ExecutionID q) (nx_Lease q) \<or> nx_LeaseTTL q \<le> 0
      then (Inl (contextOrValidation ctxErr (ExecutionError (nx_ExecutionID q) ErrInvalidArgument)), s)
      else withRecord ctxErr clock (nx_ExecutionID q) [] (renewBody q) s)"

definition saveBody ::
    "Codec \<Rightarrow> SaveCheckpointRequest \<Rightarrow> executionRecord \<Rightarrow> instant \<Rightarrow> Execution reply \<times> executionRecord" where
  "saveBody codec q rec now =
     (let execution = er_execution rec;
          replace =
            (if e_Version execution \<noteq> cx_ExpectedVersion q
             then (Inl (ExecutionError (cx_ExecutionID q) ErrConflict), rec)
             else let checkpoint = (cx_Checkpoint q)\<lparr>ck_Continuation :=
                        js_cloneContinuation codec (ck_Continuation (cx_Checkpoint q))\<rparr>;
                      saved = execution\<lparr>e_Checkpoint := Some checkpoint,
                                        e_Version := e_Version execution + 1\<rparr>
                  in (Inr saved, rec\<lparr>er_execution := saved\<rparr>))
      in case requireActiveLease rec (cx_ExecutionID q) (cx_Lease q) now of
           Some err \<Rightarrow> (Inl err, rec)
         | None \<Rightarrow>
             (case e_Checkpoint execution of
                Some current \<Rightarrow>
                  if ck_Sequence current = ck_Sequence (cx_Checkpoint q) then
                    (if ck_ContinuationHash current \<noteq> ck_ContinuationHash (cx_Checkpoint q)
                     then (Inl (ExecutionError (cx_ExecutionID q) ErrConflict), rec)
                     else (Inr execution, rec))
                  else if ck_Sequence (cx_Checkpoint q) < ck_Sequence current
                  then (Inl (ExecutionError (cx_ExecutionID q) ErrConflict), rec)
                  else replace
              | None \<Rightarrow> replace))"

definition SaveCheckpoint ::
    "Codec \<Rightarrow> durableError option \<Rightarrow> instant \<Rightarrow> SaveCheckpointRequest \<Rightarrow> store
       \<Rightarrow> Execution reply \<times> store" where
  "SaveCheckpoint codec ctxErr clock q s =
     (if invalidLeaseRef (cx_ExecutionID q) (cx_Lease q)
      then (Inl (contextOrValidation ctxErr (ExecutionError (cx_ExecutionID q) ErrInvalidArgument)), s)
      else case ValidateCheckpoint codec (cx_Checkpoint q) of
        Some err \<Rightarrow> (Inl (contextOrValidation ctxErr (ExecutionError (cx_ExecutionID q) err)), s)
      | None \<Rightarrow> withRecord ctxErr clock (cx_ExecutionID q) [] (saveBody codec q) s)"

definition suspendBody ::
    "SuspendExecutionRequest \<Rightarrow> executionRecord \<Rightarrow> instant \<Rightarrow> Execution reply \<times> executionRecord" where
  "suspendBody q rec now =
     (let key = ((lr_OwnerID (px_Lease q), lr_Token (px_Lease q)), px_ExpectedVersion q)
      in if er_nextToken rec > lr_Token (px_Lease q)
         then (Inl (ExecutionError (px_ExecutionID q) ErrLeaseLost), rec)
         else case er_suspends rec key of
           Some prior \<Rightarrow> (Inr prior, rec)
         | None \<Rightarrow>
             (case requireActiveLease rec (px_ExecutionID q) (px_Lease q) now of
                Some err \<Rightarrow> (Inl err, rec)
              | None \<Rightarrow>
                  if e_Version (er_execution rec) \<noteq> px_ExpectedVersion q
                  then (Inl (ExecutionError (px_ExecutionID q) ErrConflict), rec)
                  else
                    let rec1 = snd (reconcileRunning rec (lr_Token (px_Lease q)));
                        suspended = (er_execution rec1)
                          \<lparr>e_Status := ExecutionStatusSuspended, e_Lease := None,
                           e_Version := e_Version (er_execution rec1) + 1\<rparr>
                    in (Inr suspended,
                        rec1\<lparr>er_execution := suspended,
                             er_suspends := (er_suspends rec1)(key \<mapsto> suspended)\<rparr>)))"

definition SuspendExecution ::
    "durableError option \<Rightarrow> instant \<Rightarrow> SuspendExecutionRequest \<Rightarrow> store \<Rightarrow> Execution reply \<times> store" where
  "SuspendExecution ctxErr clock q s =
     (if invalidLeaseRef (px_ExecutionID q) (px_Lease q)
      then (Inl (contextOrValidation ctxErr (ExecutionError (px_ExecutionID q) ErrInvalidArgument)), s)
      else withRecord ctxErr clock (px_ExecutionID q) [] (suspendBody q) s)"

definition hasUncertainAttempts :: "executionRecord \<Rightarrow> bool" where
  "hasUncertainAttempts rec \<longleftrightarrow>
     list_ex (\<lambda>(operationID, attempts).
       list_ex (\<lambda>attempt. a_Status attempt = AttemptStatusRunning
                        \<or> a_Status attempt = AttemptStatusUnknown) attempts) (er_attempts rec)"

definition finishBody ::
    "Codec \<Rightarrow> FinishExecutionRequest \<Rightarrow> executionRecord \<Rightarrow> instant \<Rightarrow> Execution reply \<times> executionRecord" where
  "finishBody codec q rec now =
     (let key = ((lr_OwnerID (fx_Lease q), lr_Token (fx_Lease q)), fx_ExpectedVersion q, fx_ResultHash q)
      in if er_nextToken rec > lr_Token (fx_Lease q)
         then (Inl (ExecutionError (fx_ExecutionID q) ErrLeaseLost), rec)
         else case er_finishes rec key of
           Some prior \<Rightarrow> (Inr prior, rec)
         | None \<Rightarrow>
             if terminal (e_Status (er_execution rec))
             then (Inl (ExecutionError (fx_ExecutionID q) ErrConflict), rec)
             else case requireActiveLease rec (fx_ExecutionID q) (fx_Lease q) now of
               Some err \<Rightarrow> (Inl err, rec)
             | None \<Rightarrow>
                 if e_Version (er_execution rec) \<noteq> fx_ExpectedVersion q
                 then (Inl (ExecutionError (fx_ExecutionID q) ErrConflict), rec)
                 else if hasUncertainAttempts rec
                 then (Inl (ExecutionError (fx_ExecutionID q) ErrReconcileRequired), rec)
                 else
                   let finished = (er_execution rec)
                         \<lparr>e_Result := Some (js_cloneResult codec (fx_Result q)),
                          e_ResultHash := fx_ResultHash q,
                          e_Status := (if r_Failure (fx_Result q) \<noteq> None
                                       then ExecutionStatusFailed else ExecutionStatusCompleted),
                          e_Lease := None,
                          e_Version := e_Version (er_execution rec) + 1\<rparr>
                   in (Inr finished,
                       rec\<lparr>er_execution := finished,
                           er_finishes := (er_finishes rec)(key \<mapsto> finished)\<rparr>))"

definition FinishExecution ::
    "Codec \<Rightarrow> durableError option \<Rightarrow> instant \<Rightarrow> FinishExecutionRequest \<Rightarrow> store
       \<Rightarrow> Execution reply \<times> store" where
  "FinishExecution codec ctxErr clock q s =
     (if invalidLeaseRef (fx_ExecutionID q) (fx_Lease q)
      then (Inl (contextOrValidation ctxErr (ExecutionError (fx_ExecutionID q) ErrInvalidArgument)), s)
      else case HashResult codec (fx_Result q) of
        None \<Rightarrow> (Inl (contextOrValidation ctxErr
                  (ExecutionError (fx_ExecutionID q) ErrInvalidArgument)), s)
      | Some computed \<Rightarrow>
          if computed \<noteq> fx_ResultHash q
          then (Inl (contextOrValidation ctxErr (ExecutionError (fx_ExecutionID q) ErrConflict)), s)
          else withRecord ctxErr clock (fx_ExecutionID q) [] (finishBody codec q) s)"

definition releaseBody ::
    "ReleaseExecutionRequest \<Rightarrow> executionRecord \<Rightarrow> instant \<Rightarrow> ReleaseResult reply \<times> executionRecord" where
  "releaseBody q rec now =
     (let key = (lr_OwnerID (lx_Lease q), lr_Token (lx_Lease q))
      in if er_nextToken rec > lr_Token (lx_Lease q)
         then (Inl (ExecutionError (lx_ExecutionID q) ErrLeaseLost), rec)
         else case er_releases rec key of
           Some prior \<Rightarrow> (Inr prior, rec)
         | None \<Rightarrow>
             if \<not> leaseMatches (e_Lease (er_execution rec)) (lx_Lease q)
             then (Inl (ExecutionError (lx_ExecutionID q) ErrLeaseLost), rec)
             else
               let (reconcile, rec1) = reconcileRunning rec (lr_Token (lx_Lease q));
                   released = (er_execution rec1)\<lparr>e_Lease := None\<rparr>;
                   result = \<lparr>rl_Execution = released, rl_Reconcile = reconcile\<rparr>
               in (Inr result,
                   rec1\<lparr>er_execution := released,
                        er_releases := (er_releases rec1)(key \<mapsto> result)\<rparr>))"

definition ReleaseExecution ::
    "durableError option \<Rightarrow> instant \<Rightarrow> ReleaseExecutionRequest \<Rightarrow> store \<Rightarrow> ReleaseResult reply \<times> store" where
  "ReleaseExecution ctxErr clock q s =
     (if invalidLeaseRef (lx_ExecutionID q) (lx_Lease q)
      then (Inl (contextOrValidation ctxErr (ExecutionError (lx_ExecutionID q) ErrInvalidArgument)), s)
      else withRecord ctxErr clock (lx_ExecutionID q) [] (releaseBody q) s)"

section \<open>Attempt operations\<close>

definition newAttempt :: "StartAttemptRequest \<Rightarrow> int \<Rightarrow> Attempt" where
  "newAttempt q number =
     \<lparr>a_ExecutionID = sa_ExecutionID q, a_OperationID = sa_OperationID q, a_Kind = sa_Kind q,
      a_Number = number, a_InputHash = sa_InputHash q, a_Status = AttemptStatusRunning,
      a_Lease = Some (sa_Lease q), a_Version = 1, a_Payload = [], a_Failure = None\<rparr>"

definition startAttemptBody ::
    "StartAttemptRequest \<Rightarrow> executionRecord \<Rightarrow> instant \<Rightarrow> AttemptStart reply \<times> executionRecord" where
  "startAttemptBody q rec now =
     (let operation = sa_OperationID q;
          attempts = slotOf rec operation;
          latest = last attempts;
          failed = (\<lambda>number err. Inl (AttemptError (sa_ExecutionID q) operation number err))
      in if requireActiveLease rec (sa_ExecutionID q) (sa_Lease q) now \<noteq> None
         then (failed 0 ErrLeaseLost, rec)
         else if attempts = [] then
           let attempt = newAttempt q 1
           in (Inr \<lparr>as_Attempt = attempt, as_Decision = AttemptDecisionExecute\<rparr>,
               setSlot operation [attempt] rec)
         else if a_Kind latest \<noteq> sa_Kind q \<or> a_InputHash latest \<noteq> sa_InputHash q
         then (failed (a_Number latest) ErrConflict, rec)
         else case a_Status latest of
           AttemptStatusSucceeded \<Rightarrow>
             (Inr \<lparr>as_Attempt = latest, as_Decision = AttemptDecisionReplay\<rparr>, rec)
         | AttemptStatusFailed \<Rightarrow>
             (Inr \<lparr>as_Attempt = latest, as_Decision = AttemptDecisionReplay\<rparr>, rec)
         | AttemptStatusUnknown \<Rightarrow>
             (Inr \<lparr>as_Attempt = latest, as_Decision = AttemptDecisionReconcile\<rparr>, rec)
         | AttemptStatusRunning \<Rightarrow>
             if a_Lease latest = Some (sa_Lease q)
             then (Inr \<lparr>as_Attempt = latest, as_Decision = AttemptDecisionExecute\<rparr>, rec)
             else let changed = makeUnknown latest
                  in (Inr \<lparr>as_Attempt = changed, as_Decision = AttemptDecisionReconcile\<rparr>,
                      setSlot operation (attempts[length attempts - 1 := changed]) rec)
         | AttemptStatusAbandoned \<Rightarrow>
             let attempt = newAttempt q (a_Number latest + 1)
             in (Inr \<lparr>as_Attempt = attempt, as_Decision = AttemptDecisionExecute\<rparr>,
                 setSlot operation (attempts @ [attempt]) rec)
         | AttemptStatusOther _ \<Rightarrow> (failed (a_Number latest) ErrConflict, rec))"

definition StartAttempt ::
    "durableError option \<Rightarrow> instant \<Rightarrow> StartAttemptRequest \<Rightarrow> store \<Rightarrow> AttemptStart reply \<times> store" where
  "StartAttempt ctxErr clock q s =
     (if invalidLeaseRef (sa_ExecutionID q) (sa_Lease q) \<or> sa_OperationID q = [] \<or> sa_InputHash q = 0
         \<or> (sa_Kind q \<noteq> AttemptKindModel \<and> sa_Kind q \<noteq> AttemptKindTool)
      then (Inl (contextOrValidation ctxErr
              (AttemptError (sa_ExecutionID q) (sa_OperationID q) 0 ErrInvalidArgument)), s)
      else withRecord ctxErr clock (sa_ExecutionID q) (sa_OperationID q) (startAttemptBody q) s)"

definition validateAttemptMutation ::
    "ExecutionID \<Rightarrow> LeaseRef \<Rightarrow> string \<Rightarrow> int \<Rightarrow> uint64 \<Rightarrow> durableError option" where
  "validateAttemptMutation executionID lease operationID number version =
     (case validateAttemptIdentity executionID operationID number of
        Some err \<Rightarrow> Some err
      | None \<Rightarrow>
          if lr_OwnerID lease = [] \<or> lr_Token lease = 0 \<or> version = 0
          then Some (AttemptError executionID operationID number ErrInvalidArgument) else None)"

definition finishAttemptBody ::
    "FinishAttemptRequest \<Rightarrow> executionRecord \<Rightarrow> instant \<Rightarrow> Attempt reply \<times> executionRecord" where
  "finishAttemptBody q rec now =
     (let failed = (\<lambda>err. Inl (AttemptError (fa_ExecutionID q) (fa_OperationID q) (fa_AttemptNumber q) err))
      in if requireActiveLease rec (fa_ExecutionID q) (fa_Lease q) now \<noteq> None
         then (failed ErrLeaseLost, rec)
         else case attemptByNumber rec (fa_OperationID q) (fa_AttemptNumber q) of
           None \<Rightarrow> (failed ErrNotFound, rec)
         | Some (index, attempt) \<Rightarrow>
             if a_Status attempt = AttemptStatusSucceeded \<or> a_Status attempt = AttemptStatusFailed then
               (if a_Version attempt = fa_ExpectedAttemptVersion q + 1
                   \<and> a_Payload attempt = fa_Payload q \<and> a_Failure attempt = fa_Failure q
                then (Inr attempt, rec) else (failed ErrConflict, rec))
             else if a_Status attempt \<noteq> AttemptStatusRunning
                  \<or> a_Version attempt \<noteq> fa_ExpectedAttemptVersion q
                  \<or> a_Lease attempt \<noteq> Some (fa_Lease q)
             then (failed ErrConflict, rec)
             else
               let settled = attempt
                     \<lparr>a_Status := (if fa_Failure q \<noteq> None then AttemptStatusFailed
                                   else AttemptStatusSucceeded),
                      a_Lease := None, a_Payload := fa_Payload q, a_Failure := fa_Failure q,
                      a_Version := a_Version attempt + 1\<rparr>
               in (Inr settled, updateAttempt (fa_OperationID q) index settled rec))"

definition FinishAttempt ::
    "durableError option \<Rightarrow> instant \<Rightarrow> FinishAttemptRequest \<Rightarrow> store \<Rightarrow> Attempt reply \<times> store" where
  "FinishAttempt ctxErr clock q s =
     (case validateAttemptMutation (fa_ExecutionID q) (fa_Lease q) (fa_OperationID q)
             (fa_AttemptNumber q) (fa_ExpectedAttemptVersion q) of
        Some err \<Rightarrow> (Inl (contextOrValidation ctxErr err), s)
      | None \<Rightarrow> withRecord ctxErr clock (fa_ExecutionID q) (fa_OperationID q) (finishAttemptBody q) s)"

definition markUnknownBody ::
    "MarkAttemptUnknownRequest \<Rightarrow> executionRecord \<Rightarrow> instant \<Rightarrow> Attempt reply \<times> executionRecord" where
  "markUnknownBody q rec now =
     (let failed = (\<lambda>err. Inl (AttemptError (fa_ExecutionID q) (fa_OperationID q) (fa_AttemptNumber q) err))
      in if requireActiveLease rec (fa_ExecutionID q) (fa_Lease q) now \<noteq> None
         then (failed ErrLeaseLost, rec)
         else case attemptByNumber rec (fa_OperationID q) (fa_AttemptNumber q) of
           None \<Rightarrow> (failed ErrNotFound, rec)
         | Some (index, attempt) \<Rightarrow>
             if a_Status attempt = AttemptStatusUnknown then
               (if a_Version attempt = fa_ExpectedAttemptVersion q + 1
                   \<and> a_Payload attempt = fa_Payload q \<and> a_Failure attempt = fa_Failure q
                then (Inr attempt, rec) else (failed ErrConflict, rec))
             else if a_Status attempt \<noteq> AttemptStatusRunning
                  \<or> a_Version attempt \<noteq> fa_ExpectedAttemptVersion q
                  \<or> a_Lease attempt \<noteq> Some (fa_Lease q)
             then (failed ErrConflict, rec)
             else
               let settled = attempt
                     \<lparr>a_Status := AttemptStatusUnknown, a_Lease := None, a_Payload := fa_Payload q,
                      a_Failure := fa_Failure q, a_Version := a_Version attempt + 1\<rparr>
               in (Inr settled, updateAttempt (fa_OperationID q) index settled rec))"

definition MarkAttemptUnknown ::
    "durableError option \<Rightarrow> instant \<Rightarrow> MarkAttemptUnknownRequest \<Rightarrow> store \<Rightarrow> Attempt reply \<times> store" where
  "MarkAttemptUnknown ctxErr clock q s =
     (case validateAttemptMutation (fa_ExecutionID q) (fa_Lease q) (fa_OperationID q)
             (fa_AttemptNumber q) (fa_ExpectedAttemptVersion q) of
        Some err \<Rightarrow> (Inl (contextOrValidation ctxErr err), s)
      | None \<Rightarrow> withRecord ctxErr clock (fa_ExecutionID q) (fa_OperationID q) (markUnknownBody q) s)"

definition validateReconcileRequest :: "ReconcileAttemptRequest \<Rightarrow> durableError option" where
  "validateReconcileRequest q =
     (let invalid = Some (AttemptError (ra_ExecutionID q) (ra_OperationID q) (ra_AttemptNumber q)
                      ErrInvalidArgument)
      in case validateAttemptIdentity (ra_ExecutionID q) (ra_OperationID q) (ra_AttemptNumber q) of
           Some err \<Rightarrow> Some err
         | None \<Rightarrow>
             if ra_ExpectedAttemptVersion q = 0 then invalid
             else case ra_Resolution q of
               ReconcileResolutionSucceed \<Rightarrow>
                 if ra_Payload q = [] \<or> ra_Failure q \<noteq> None then invalid else None
             | ReconcileResolutionFail \<Rightarrow> if ra_Failure q = None then invalid else None
             | ReconcileResolutionRetry \<Rightarrow>
                 if ra_Payload q \<noteq> [] \<or> ra_Failure q \<noteq> None then invalid else None
             | ReconcileResolutionOther _ \<Rightarrow> invalid)"

definition reconcileExact :: "Attempt \<Rightarrow> ReconcileAttemptRequest \<Rightarrow> bool" where
  "reconcileExact attempt q \<longleftrightarrow>
     a_Version attempt = ra_ExpectedAttemptVersion q + 1 \<and>
     (case ra_Resolution q of
        ReconcileResolutionSucceed \<Rightarrow>
          a_Status attempt = AttemptStatusSucceeded \<and> a_Payload attempt = ra_Payload q
          \<and> a_Failure attempt = None
      | ReconcileResolutionFail \<Rightarrow>
          a_Status attempt = AttemptStatusFailed \<and> a_Payload attempt = ra_Payload q
          \<and> a_Failure attempt = ra_Failure q
      | ReconcileResolutionRetry \<Rightarrow>
          a_Status attempt = AttemptStatusAbandoned \<and> a_Payload attempt = []
          \<and> a_Failure attempt = None
      | ReconcileResolutionOther _ \<Rightarrow> False)"

text \<open>The switch of \<^verbatim>\<open>ReconcileAttempt\<close> on the resolution.\<close>

definition resolveAttempt :: "ReconcileAttemptRequest \<Rightarrow> Attempt \<Rightarrow> Attempt" where
  "resolveAttempt q attempt =
     (let resolved =
        (case ra_Resolution q of
           ReconcileResolutionSucceed \<Rightarrow>
             attempt\<lparr>a_Status := AttemptStatusSucceeded, a_Payload := ra_Payload q, a_Failure := None\<rparr>
         | ReconcileResolutionFail \<Rightarrow>
             attempt\<lparr>a_Status := AttemptStatusFailed, a_Payload := ra_Payload q,
                     a_Failure := ra_Failure q\<rparr>
         | ReconcileResolutionRetry \<Rightarrow>
             attempt\<lparr>a_Status := AttemptStatusAbandoned, a_Payload := [], a_Failure := None\<rparr>
         | ReconcileResolutionOther _ \<Rightarrow> attempt)
      in resolved\<lparr>a_Lease := None, a_Version := a_Version attempt + 1\<rparr>)"

definition reconcileBody ::
    "ReconcileAttemptRequest \<Rightarrow> executionRecord \<Rightarrow> instant \<Rightarrow> Attempt reply \<times> executionRecord" where
  "reconcileBody q rec now =
     (let failed = (\<lambda>err. Inl (AttemptError (ra_ExecutionID q) (ra_OperationID q) (ra_AttemptNumber q) err))
      in if leaseActive (e_Lease (er_execution rec)) now then (failed ErrBusy, rec)
         else case attemptByNumber rec (ra_OperationID q) (ra_AttemptNumber q) of
           None \<Rightarrow> (failed ErrNotFound, rec)
         | Some (index, attempt) \<Rightarrow>
             if reconcileExact attempt q then (Inr attempt, rec)
             else if a_Status attempt \<noteq> AttemptStatusUnknown
                  \<or> a_Version attempt \<noteq> ra_ExpectedAttemptVersion q
             then (failed ErrConflict, rec)
             else
               let resolved = resolveAttempt q attempt
               in (Inr resolved, updateAttempt (ra_OperationID q) index resolved rec))"

definition ReconcileAttempt ::
    "durableError option \<Rightarrow> instant \<Rightarrow> ReconcileAttemptRequest \<Rightarrow> store \<Rightarrow> Attempt reply \<times> store" where
  "ReconcileAttempt ctxErr clock q s =
     (case validateReconcileRequest q of
        Some err \<Rightarrow> (Inl (contextOrValidation ctxErr err), s)
      | None \<Rightarrow> withRecord ctxErr clock (ra_ExecutionID q) (ra_OperationID q) (reconcileBody q) s)"

section \<open>Commands and histories\<close>

text \<open>
  One call of the backend, with the context error and the wall clock it observes, and the
  store after a sequence of calls. Concurrent callers are interleavings of such sequences,
  since every call holds the mutex from its first to its last access to the store.
\<close>

datatype command =
    CmdStart StartExecutionRequest
  | CmdResume ResumeExecutionRequest
  | CmdLoad ExecutionID
  | CmdRenew RenewExecutionRequest
  | CmdSave SaveCheckpointRequest
  | CmdSuspend SuspendExecutionRequest
  | CmdFinish FinishExecutionRequest
  | CmdRelease ReleaseExecutionRequest
  | CmdStartAttempt StartAttemptRequest
  | CmdFinishAttempt FinishAttemptRequest
  | CmdMarkUnknown MarkAttemptUnknownRequest
  | CmdReconcile ReconcileAttemptRequest
  | CmdAdvance duration

type_synonym call = "durableError option \<times> instant \<times> command"

fun execute :: "Codec \<Rightarrow> call \<Rightarrow> store \<Rightarrow> store" where
  "execute codec (ctxErr, clock, CmdStart q) s = snd (StartExecution codec ctxErr clock q s)"
| "execute codec (ctxErr, clock, CmdResume q) s = snd (ResumeExecution ctxErr clock q s)"
| "execute codec (ctxErr, clock, CmdLoad i) s = snd (LoadExecution codec ctxErr clock i s)"
| "execute codec (ctxErr, clock, CmdRenew q) s = snd (RenewExecution ctxErr clock q s)"
| "execute codec (ctxErr, clock, CmdSave q) s = snd (SaveCheckpoint codec ctxErr clock q s)"
| "execute codec (ctxErr, clock, CmdSuspend q) s = snd (SuspendExecution ctxErr clock q s)"
| "execute codec (ctxErr, clock, CmdFinish q) s = snd (FinishExecution codec ctxErr clock q s)"
| "execute codec (ctxErr, clock, CmdRelease q) s = snd (ReleaseExecution ctxErr clock q s)"
| "execute codec (ctxErr, clock, CmdStartAttempt q) s = snd (StartAttempt ctxErr clock q s)"
| "execute codec (ctxErr, clock, CmdFinishAttempt q) s = snd (FinishAttempt ctxErr clock q s)"
| "execute codec (ctxErr, clock, CmdMarkUnknown q) s = snd (MarkAttemptUnknown ctxErr clock q s)"
| "execute codec (ctxErr, clock, CmdReconcile q) s = snd (ReconcileAttempt ctxErr clock q s)"
| "execute codec (ctxErr, clock, CmdAdvance amount) s = Advance amount s"

text \<open>
  The error of a call, \<open>None\<close> when it succeeds; the execution a command names; and the lease
  reference of a command that the code fences.
\<close>

definition errorOf :: "'a reply \<Rightarrow> durableError option" where
  "errorOf reply = (case reply of Inl err \<Rightarrow> Some err | Inr _ \<Rightarrow> None)"

fun replyError :: "Codec \<Rightarrow> call \<Rightarrow> store \<Rightarrow> durableError option" where
  "replyError codec (ctxErr, clock, CmdStart q) s = errorOf (fst (StartExecution codec ctxErr clock q s))"
| "replyError codec (ctxErr, clock, CmdResume q) s = errorOf (fst (ResumeExecution ctxErr clock q s))"
| "replyError codec (ctxErr, clock, CmdLoad i) s = errorOf (fst (LoadExecution codec ctxErr clock i s))"
| "replyError codec (ctxErr, clock, CmdRenew q) s = errorOf (fst (RenewExecution ctxErr clock q s))"
| "replyError codec (ctxErr, clock, CmdSave q) s = errorOf (fst (SaveCheckpoint codec ctxErr clock q s))"
| "replyError codec (ctxErr, clock, CmdSuspend q) s = errorOf (fst (SuspendExecution ctxErr clock q s))"
| "replyError codec (ctxErr, clock, CmdFinish q) s = errorOf (fst (FinishExecution codec ctxErr clock q s))"
| "replyError codec (ctxErr, clock, CmdRelease q) s = errorOf (fst (ReleaseExecution ctxErr clock q s))"
| "replyError codec (ctxErr, clock, CmdStartAttempt q) s = errorOf (fst (StartAttempt ctxErr clock q s))"
| "replyError codec (ctxErr, clock, CmdFinishAttempt q) s = errorOf (fst (FinishAttempt ctxErr clock q s))"
| "replyError codec (ctxErr, clock, CmdMarkUnknown q) s = errorOf (fst (MarkAttemptUnknown ctxErr clock q s))"
| "replyError codec (ctxErr, clock, CmdReconcile q) s = errorOf (fst (ReconcileAttempt ctxErr clock q s))"
| "replyError codec (ctxErr, clock, CmdAdvance amount) s = None"

fun targetOf :: "command \<Rightarrow> ExecutionID option" where
  "targetOf (CmdStart q) = Some (sx_ExecutionID q)"
| "targetOf (CmdResume q) = Some (rx_ExecutionID q)"
| "targetOf (CmdLoad i) = Some i"
| "targetOf (CmdRenew q) = Some (nx_ExecutionID q)"
| "targetOf (CmdSave q) = Some (cx_ExecutionID q)"
| "targetOf (CmdSuspend q) = Some (px_ExecutionID q)"
| "targetOf (CmdFinish q) = Some (fx_ExecutionID q)"
| "targetOf (CmdRelease q) = Some (lx_ExecutionID q)"
| "targetOf (CmdStartAttempt q) = Some (sa_ExecutionID q)"
| "targetOf (CmdFinishAttempt q) = Some (fa_ExecutionID q)"
| "targetOf (CmdMarkUnknown q) = Some (fa_ExecutionID q)"
| "targetOf (CmdReconcile q) = Some (ra_ExecutionID q)"
| "targetOf (CmdAdvance amount) = None"

fun fenceOf :: "command \<Rightarrow> LeaseRef option" where
  "fenceOf (CmdRenew q) = Some (nx_Lease q)"
| "fenceOf (CmdSave q) = Some (cx_Lease q)"
| "fenceOf (CmdSuspend q) = Some (px_Lease q)"
| "fenceOf (CmdFinish q) = Some (fx_Lease q)"
| "fenceOf (CmdRelease q) = Some (lx_Lease q)"
| "fenceOf (CmdStartAttempt q) = Some (sa_Lease q)"
| "fenceOf (CmdFinishAttempt q) = Some (fa_Lease q)"
| "fenceOf (CmdMarkUnknown q) = Some (fa_Lease q)"
| "fenceOf _ = None"

definition history :: "Codec \<Rightarrow> call list \<Rightarrow> store \<Rightarrow> store" where
  "history codec calls s = fold (execute codec) calls s"

end
