(* ===== verification/Backend_Invariant.thy ===== *)
theory Backend_Invariant
  imports Test_Backend
begin

text \<open>
  The invariant of the backend's store and what every operation keeps.

  \<open>wfRecord\<close> is the invariant of one execution record, \<open>recStep\<close> relates a record before and
  after an operation (immutable identity, checkpoints that only move forward, closed attempts
  and finished results that stay), and \<open>lifecycle\<close> is the abstract state machine of an execution
  that the records refine. The locale \<open>record_operation\<close> is the contract of an operation on one
  record; it is interpreted on the body of each of the ten operations that run inside
  \<^verbatim>\<open>withRecord\<close>, and its lemmas lift the contract to the store.
\<close>

section \<open>Well-formed records\<close>

definition refOf :: "Lease \<Rightarrow> LeaseRef" where
  "refOf lease = \<lparr>lr_OwnerID = l_OwnerID lease, lr_Token = l_Token lease\<rparr>"

definition settledStatus :: "AttemptStatus \<Rightarrow> bool" where
  "settledStatus status \<longleftrightarrow> status = AttemptStatusSucceeded \<or> status = AttemptStatusFailed"

definition uncertainStatus :: "AttemptStatus \<Rightarrow> bool" where
  "uncertainStatus status \<longleftrightarrow> status = AttemptStatusRunning \<or> status = AttemptStatusUnknown"

definition wfAttempt :: "ExecutionID \<Rightarrow> string \<Rightarrow> Lease option \<Rightarrow> Attempt \<Rightarrow> bool" where
  "wfAttempt executionID operation lease attempt \<longleftrightarrow>
     a_ExecutionID attempt = executionID \<and> a_OperationID attempt = operation \<and>
     (\<forall>text. a_Status attempt \<noteq> AttemptStatusOther text) \<and>
     (if a_Status attempt = AttemptStatusRunning
      then a_Lease attempt \<noteq> None \<and> a_Lease attempt = map_option refOf lease
      else a_Lease attempt = None)"

definition wfSlot :: "ExecutionID \<Rightarrow> Lease option \<Rightarrow> string \<Rightarrow> Attempt list \<Rightarrow> bool" where
  "wfSlot executionID lease operation attempts \<longleftrightarrow>
     attempts \<noteq> [] \<and>
     map a_Number attempts = map (\<lambda>i. int i + 1) [0..<length attempts] \<and>
     list_all (\<lambda>attempt. a_Status attempt = AttemptStatusAbandoned) (butlast attempts) \<and>
     list_all (wfAttempt executionID operation lease) attempts"

definition wfRecord :: "ExecutionID \<Rightarrow> executionRecord \<Rightarrow> bool" where
  "wfRecord executionID rec \<longleftrightarrow>
     (let e = er_execution rec in
      e_ID e = executionID \<and>
      (\<forall>text. e_Status e \<noteq> ExecutionStatusOther text) \<and>
      distinct (map fst (er_attempts rec)) \<and>
      list_all (\<lambda>(operation, attempts). wfSlot executionID (e_Lease e) operation attempts) (er_attempts rec) \<and>
      (\<forall>lease. e_Lease e = Some lease \<longrightarrow>
         l_Token lease = er_nextToken rec \<and> e_Status e = ExecutionStatusRunning \<and>
         (\<exists>prior. er_claims rec (l_ClaimID lease) = Some prior \<and> cr_token prior = er_nextToken rec
                 \<and> cr_ownerID prior = l_OwnerID lease)) \<and>
      (terminal (e_Status e) \<longleftrightarrow> e_Result e \<noteq> None) \<and>
      (terminal (e_Status e) \<longrightarrow> e_Lease e = None \<and> \<not> hasUncertainAttempts rec) \<and>
      (\<not> terminal (e_Status e) \<longrightarrow> er_finishes rec = Map.empty) \<and>
      ran (er_finishes rec) \<subseteq> {e})"

definition wfStore :: "store \<Rightarrow> bool" where
  "wfStore s \<longleftrightarrow> (\<forall>executionID rec. st_executions s executionID = Some rec \<longrightarrow> wfRecord executionID rec)"

section \<open>Lookup and update of slots\<close>

abbreviation attemptsOf :: "executionRecord \<Rightarrow> string \<Rightarrow> Attempt list option" where
  "attemptsOf rec \<equiv> map_of (er_attempts rec)"

lemma slotOf_alt: "slotOf rec operation = (case attemptsOf rec operation of None \<Rightarrow> [] | Some as \<Rightarrow> as)"
  by (simp add: slotOf_def)

lemma slotOf_setSlot [simp]:
  "slotOf (setSlot operation attempts rec) other = (if other = operation then attempts else slotOf rec other)"
  by (simp add: slotOf_def setSlot_def update_conv')

lemma setSlot_fields [simp]:
  "er_execution (setSlot operation attempts rec) = er_execution rec"
  "er_claims (setSlot operation attempts rec) = er_claims rec"
  "er_releases (setSlot operation attempts rec) = er_releases rec"
  "er_suspends (setSlot operation attempts rec) = er_suspends rec"
  "er_finishes (setSlot operation attempts rec) = er_finishes rec"
  "er_nextToken (setSlot operation attempts rec) = er_nextToken rec"
  by (simp_all add: setSlot_def)

text \<open>The invariant speaks of slots; on distinct keys that is the same as of map entries.\<close>

definition allSlots :: "(string \<Rightarrow> Attempt list \<Rightarrow> bool) \<Rightarrow> executionRecord \<Rightarrow> bool" where
  "allSlots P rec \<longleftrightarrow> list_all (\<lambda>(operation, attempts). P operation attempts) (er_attempts rec)"

lemma allSlots_slotOf:
  assumes "distinct (map fst (er_attempts rec))"
  shows "allSlots P rec \<longleftrightarrow> (\<forall>operation attempts. attemptsOf rec operation = Some attempts \<longrightarrow> P operation attempts)"
  using assms by (auto simp: allSlots_def list_all_iff map_of_eq_Some_iff)

lemma distinct_setSlot:
  "distinct (map fst (er_attempts rec)) \<Longrightarrow> distinct (map fst (er_attempts (setSlot operation attempts rec)))"
  by (simp add: setSlot_def distinct_update)

lemma allSlots_setSlot:
  assumes "distinct (map fst (er_attempts rec))" and "allSlots P rec" and "P operation attempts"
  shows "allSlots P (setSlot operation attempts rec)"
proof -
  have "attemptsOf (setSlot operation attempts rec) = (attemptsOf rec)(operation \<mapsto> attempts)"
    by (simp add: setSlot_def update_conv')
  then show ?thesis
    using assms(2,3) allSlots_slotOf [OF assms(1)] allSlots_slotOf [OF distinct_setSlot [OF assms(1)]]
    by auto
qed

lemma hasUncertain_iff:
  "hasUncertainAttempts rec \<longleftrightarrow>
     \<not> allSlots (\<lambda>_ attempts. list_all (\<lambda>attempt. \<not> uncertainStatus (a_Status attempt)) attempts) rec"
  by (auto simp: hasUncertainAttempts_def allSlots_def uncertainStatus_def list_all_iff list_ex_iff)

lemma wfRecordI:
  assumes "e_ID (er_execution rec) = executionID"
    and "\<And>text. e_Status (er_execution rec) \<noteq> ExecutionStatusOther text"
    and "distinct (map fst (er_attempts rec))"
    and "allSlots (wfSlot executionID (e_Lease (er_execution rec))) rec"
    and "\<And>lease. e_Lease (er_execution rec) = Some lease \<Longrightarrow>
         l_Token lease = er_nextToken rec \<and> e_Status (er_execution rec) = ExecutionStatusRunning \<and>
         (\<exists>prior. er_claims rec (l_ClaimID lease) = Some prior \<and> cr_token prior = er_nextToken rec
                 \<and> cr_ownerID prior = l_OwnerID lease)"
    and "terminal (e_Status (er_execution rec)) \<longleftrightarrow> e_Result (er_execution rec) \<noteq> None"
    and "terminal (e_Status (er_execution rec)) \<Longrightarrow>
      e_Lease (er_execution rec) = None \<and> \<not> hasUncertainAttempts rec"
    and "\<not> terminal (e_Status (er_execution rec)) \<Longrightarrow> er_finishes rec = Map.empty"
    and "ran (er_finishes rec) \<subseteq> {er_execution rec}"
  shows "wfRecord executionID rec"
  using assms unfolding wfRecord_def allSlots_def Let_def by blast

lemma wfRecordD:
  assumes "wfRecord executionID rec"
  shows wf_id: "e_ID (er_execution rec) = executionID"
    and wf_status: "\<And>text. e_Status (er_execution rec) \<noteq> ExecutionStatusOther text"
    and wf_distinct: "distinct (map fst (er_attempts rec))"
    and wf_slots: "allSlots (wfSlot executionID (e_Lease (er_execution rec))) rec"
    and wf_lease: "\<And>lease. e_Lease (er_execution rec) = Some lease \<Longrightarrow>
         l_Token lease = er_nextToken rec \<and> e_Status (er_execution rec) = ExecutionStatusRunning \<and>
         (\<exists>prior. er_claims rec (l_ClaimID lease) = Some prior \<and> cr_token prior = er_nextToken rec
                 \<and> cr_ownerID prior = l_OwnerID lease)"
    and wf_result: "terminal (e_Status (er_execution rec)) \<longleftrightarrow> e_Result (er_execution rec) \<noteq> None"
    and wf_terminal: "terminal (e_Status (er_execution rec)) \<Longrightarrow>
      e_Lease (er_execution rec) = None \<and> \<not> hasUncertainAttempts rec"
    and wf_unfinished: "\<not> terminal (e_Status (er_execution rec)) \<Longrightarrow> er_finishes rec = Map.empty"
    and wf_finishes: "ran (er_finishes rec) \<subseteq> {er_execution rec}"
  using assms unfolding wfRecord_def allSlots_def Let_def by blast+

lemma wf_slot:
  "wfRecord executionID rec \<Longrightarrow> slotOf rec operation \<noteq> [] \<Longrightarrow>
   wfSlot executionID (e_Lease (er_execution rec)) operation (slotOf rec operation)"
  using allSlots_slotOf [OF wf_distinct, of executionID rec] wf_slots [of executionID rec]
  by (auto simp: slotOf_def split: option.splits)


section \<open>Slots\<close>

lemma wfSlot_last_only:
  assumes "wfSlot i l opn as" and "k < length as" and "a_Status (as ! k) \<noteq> AttemptStatusAbandoned"
  shows "k = length as - 1"
proof (rule ccontr)
  assume "k \<noteq> length as - 1"
  then have "k < length (butlast as)" using assms(2) by simp
  then have "a_Status (butlast as ! k) = AttemptStatusAbandoned"
    using assms(1) by (auto simp: wfSlot_def list_all_length)
  then show False using assms(3) \<open>k < length (butlast as)\<close> by (simp add: nth_butlast)
qed

lemma wfSlot_replace:
  assumes "wfSlot i l opn as" and "k < length as" and "a_Status (as ! k) \<noteq> AttemptStatusAbandoned"
    and "a_Number a = a_Number (as ! k)" and "wfAttempt i opn l a"
  shows "wfSlot i l opn (as[k := a])"
proof -
  have k: "k = length as - 1" using assms(1-3) by (rule wfSlot_last_only)
  have "butlast (as[k := a]) = butlast as" using k by (metis butlast_list_update)
  moreover have "map a_Number (as[k := a]) = map a_Number as"
    using assms(2,4) by (simp add: map_update list_update_same_conv)
  moreover have "list_all (wfAttempt i opn l) (as[k := a])"
    using assms(1,5) set_update_subset_insert [of as k a] by (auto simp: wfSlot_def list_all_iff)
  ultimately show ?thesis using assms(1) by (simp add: wfSlot_def)
qed

lemma wfSlot_append:
  assumes "wfSlot i l opn as" and "a_Status (last as) = AttemptStatusAbandoned"
    and "a_Number a = a_Number (last as) + 1" and "wfAttempt i opn l a"
  shows "wfSlot i l opn (as @ [a])"
proof -
  have ne: "as \<noteq> []" using assms(1) by (simp add: wfSlot_def)
  have "a_Number (last as) = last (map a_Number as)" using ne by (simp add: last_map)
  also have "\<dots> = last (map (\<lambda>i. int i + 1) [0..<length as])" using assms(1) by (simp add: wfSlot_def)
  also have "\<dots> = int (length as)" using ne by (cases as) (simp_all add: last_map)
  finally have "a_Number a = int (length as) + 1" using assms(3) by simp
  moreover have "list_all (\<lambda>a. a_Status a = AttemptStatusAbandoned) as"
    using assms(1,2) ne by (cases as rule: rev_cases) (auto simp: wfSlot_def)
  ultimately show ?thesis using assms by (simp add: wfSlot_def)
qed

lemma wfSlot_single: "wfAttempt i opn l a \<Longrightarrow> a_Number a = 1 \<Longrightarrow> wfSlot i l opn [a]"
  by (simp add: wfSlot_def)

lemma makeUnknown_fields [simp]:
  "a_ExecutionID (makeUnknown a) = a_ExecutionID a" "a_OperationID (makeUnknown a) = a_OperationID a"
  "a_Number (makeUnknown a) = a_Number a" "a_Status (makeUnknown a) = AttemptStatusUnknown"
  "a_Lease (makeUnknown a) = None" "a_Kind (makeUnknown a) = a_Kind a"
  "a_InputHash (makeUnknown a) = a_InputHash a" "a_Payload (makeUnknown a) = a_Payload a"
  "a_Failure (makeUnknown a) = a_Failure a" "a_Version (makeUnknown a) = a_Version a + 1"
  by (simp_all add: makeUnknown_def)

text \<open>
  Under the invariant a running attempt carries the current lease, so the code's condition on
  its token selects all running attempts.
\<close>

lemma orphaned_running:
  assumes "wfAttempt i opn l a" and "token = 0 \<or> (\<exists>lease. l = Some lease \<and> l_Token lease = token)"
  shows "orphaned token a \<longleftrightarrow> a_Status a = AttemptStatusRunning"
  using assms by (cases l) (auto simp: orphaned_def wfAttempt_def refOf_def split: option.splits if_splits)

definition dropRunning :: "Attempt \<Rightarrow> Attempt" where
  "dropRunning a = (if a_Status a = AttemptStatusRunning then makeUnknown a else a)"

lemma dropRunning_fields [simp]:
  "a_Number (dropRunning a) = a_Number a" "a_OperationID (dropRunning a) = a_OperationID a"
  "a_Status (dropRunning a) \<noteq> AttemptStatusRunning"
  "a_Status (dropRunning a) = AttemptStatusAbandoned \<longleftrightarrow> a_Status a = AttemptStatusAbandoned"
  by (simp_all add: dropRunning_def)

lemma wfAttempt_dropRunning: "wfAttempt i opn l a \<Longrightarrow> wfAttempt i opn l' (dropRunning a)"
  by (auto simp: wfAttempt_def dropRunning_def)

lemma wfSlot_dropRunning:
  assumes "wfSlot i l opn as"
  shows "wfSlot i l' opn (map dropRunning as)"
proof -
  have "map a_Number (map dropRunning as) = map a_Number as" by simp
  then show ?thesis
    using assms unfolding wfSlot_def length_map
    by (auto simp: list_all_iff map_butlast [symmetric] simp del: map_map intro: wfAttempt_dropRunning)
qed

lemma reconcileRunning_wf:
  assumes "wfRecord i rec"
    and "token = 0 \<or> (\<exists>lease. e_Lease (er_execution rec) = Some lease \<and> l_Token lease = token)"
  shows "snd (reconcileRunning rec token) =
     rec\<lparr>er_attempts := map (\<lambda>(opn, as). (opn, map dropRunning as)) (er_attempts rec)\<rparr>"
    and "fst (reconcileRunning rec token) =
     sortAttempts (concat (map (\<lambda>(opn, as). map makeUnknown
        (filter (\<lambda>a. a_Status a = AttemptStatusRunning) as)) (er_attempts rec)))"
proof -
  have o: "orphaned token a \<longleftrightarrow> a_Status a = AttemptStatusRunning"
    if "(opn, as) \<in> set (er_attempts rec)" "a \<in> set as" for opn as a
  proof (rule orphaned_running [OF _ assms(2)])
    show "wfAttempt i opn (e_Lease (er_execution rec)) a"
      using wf_slots [OF assms(1)] that by (auto simp: allSlots_def wfSlot_def list_all_iff)
  qed
  then have "map (\<lambda>a. if orphaned token a then makeUnknown a else a) as = map dropRunning as"
    "filter (orphaned token) as = filter (\<lambda>a. a_Status a = AttemptStatusRunning) as"
    if "(opn, as) \<in> set (er_attempts rec)" for opn as
    using that by (auto simp: dropRunning_def intro: filter_cong)
  then have "map (\<lambda>(opn, as). (opn, map (\<lambda>a. if orphaned token a then makeUnknown a else a) as)) (er_attempts rec)
      = map (\<lambda>(opn, as). (opn, map dropRunning as)) (er_attempts rec)"
    "map (\<lambda>(opn, as). map makeUnknown (filter (orphaned token) as)) (er_attempts rec)
      = map (\<lambda>(opn, as). map makeUnknown (filter (\<lambda>a. a_Status a = AttemptStatusRunning) as)) (er_attempts rec)"
    by auto
  then show "snd (reconcileRunning rec token) =
     rec\<lparr>er_attempts := map (\<lambda>(opn, as). (opn, map dropRunning as)) (er_attempts rec)\<rparr>"
    "fst (reconcileRunning rec token) =
     sortAttempts (concat (map (\<lambda>(opn, as). map makeUnknown
        (filter (\<lambda>a. a_Status a = AttemptStatusRunning) as)) (er_attempts rec)))"
    by (simp_all add: reconcileRunning_def Let_def del: map_eq_conv)
qed

abbreviation dropAllRunning :: "executionRecord \<Rightarrow> executionRecord" where
  "dropAllRunning rec \<equiv> rec\<lparr>er_attempts := map (\<lambda>(opn, as). (opn, map dropRunning as)) (er_attempts rec)\<rparr>"

lemma slotOf_dropAll: "slotOf (dropAllRunning rec) opn = map dropRunning (slotOf rec opn)"
  by (simp add: slotOf_def map_of_map split: option.splits)

lemma dropAll_distinct: "map fst (er_attempts (dropAllRunning rec)) = map fst (er_attempts rec)"
  by (simp add: o_def split_def)

lemma dropAll_allSlots:
  "allSlots P (dropAllRunning rec) \<longleftrightarrow> allSlots (\<lambda>opn as. P opn (map dropRunning as)) rec"
  by (auto simp: allSlots_def list_all_iff)

lemma allSlots_mono: "allSlots P rec \<Longrightarrow> (\<And>opn as. P opn as \<Longrightarrow> Q opn as) \<Longrightarrow> allSlots Q rec"
  by (auto simp: allSlots_def list_all_iff)

lemma dropAll_wfSlots:
  "wfRecord i rec \<Longrightarrow> allSlots (wfSlot i l') (dropAllRunning rec)"
  using wf_slots [of i rec] by (auto simp: dropAll_allSlots intro: allSlots_mono wfSlot_dropRunning)


section \<open>What every operation keeps\<close>

text \<open>
  How one attempt may change: it keeps its identity, its lease is at most given up, only a running or
  unknown attempt changes at all, and an attempt that has stopped running does not run again.
\<close>

definition evolves :: "Attempt \<Rightarrow> Attempt \<Rightarrow> bool" where
  "evolves a b \<longleftrightarrow> a_Number b = a_Number a \<and> a_Kind b = a_Kind a \<and> a_InputHash b = a_InputHash a
     \<and> (a_Lease b = a_Lease a \<or> a_Lease b = None)
     \<and> (\<not> uncertainStatus (a_Status a) \<longrightarrow> b = a)
     \<and> (a_Status b = AttemptStatusRunning \<longrightarrow> a_Status a = AttemptStatusRunning)"

definition attemptsKept :: "executionRecord \<Rightarrow> executionRecord \<Rightarrow> bool" where
  "attemptsKept rec rec' \<longleftrightarrow> (\<forall>opn. \<forall>a \<in> set (slotOf rec opn). \<exists>b \<in> set (slotOf rec' opn). evolves a b)"

lemma evolves_refl [simp]: "evolves a a"
  by (simp add: evolves_def)

lemma evolves_trans:
  assumes "evolves a b" "evolves b c"
  shows "evolves a c"
proof (cases "uncertainStatus (a_Status a)")
  case True
  have "a_Number c = a_Number a" "a_Kind c = a_Kind a" "a_InputHash c = a_InputHash a"
    "a_Lease c = a_Lease a \<or> a_Lease c = None" "a_Status c = AttemptStatusRunning \<longrightarrow> a_Status a = AttemptStatusRunning"
    using assms unfolding evolves_def by metis+
  then show ?thesis using True unfolding evolves_def by blast
next
  case False
  then have "b = a" using assms(1) unfolding evolves_def by blast
  then show ?thesis using assms(2) by simp
qed

lemma evolves_dropRunning [simp]: "evolves a (dropRunning a)"
  by (simp add: evolves_def dropRunning_def uncertainStatus_def)

definition checkpointMono :: "Checkpoint option \<Rightarrow> Checkpoint option \<Rightarrow> bool" where
  "checkpointMono before after = (case before of None \<Rightarrow> True
     | Some old \<Rightarrow> (case after of None \<Rightarrow> False
        | Some new \<Rightarrow> new = old \<or> ck_Sequence old < ck_Sequence new))"

definition recStep :: "executionRecord \<Rightarrow> executionRecord \<Rightarrow> bool" where
  "recStep rec rec' \<longleftrightarrow>
     e_ID (er_execution rec') = e_ID (er_execution rec) \<and>
     e_Spec (er_execution rec') = e_Spec (er_execution rec) \<and>
     e_SpecHash (er_execution rec') = e_SpecHash (er_execution rec) \<and>
     checkpointMono (e_Checkpoint (er_execution rec)) (e_Checkpoint (er_execution rec')) \<and>
     attemptsKept rec rec' \<and>
     er_finishes rec \<subseteq>\<^sub>m er_finishes rec' \<and>
     (terminal (e_Status (er_execution rec)) \<longrightarrow> rec' = rec)"

lemma checkpointMono_refl [simp]: "checkpointMono c c"
  by (simp add: checkpointMono_def split: option.splits)

lemma checkpointMono_trans: "checkpointMono a b \<Longrightarrow> checkpointMono b c \<Longrightarrow> checkpointMono a c"
  by (auto simp: checkpointMono_def split: option.splits)

lemma attemptsKept_refl [simp]: "attemptsKept rec rec"
  unfolding attemptsKept_def using evolves_refl by blast

lemma attemptsKept_trans: "attemptsKept a b \<Longrightarrow> attemptsKept b c \<Longrightarrow> attemptsKept a c"
  unfolding attemptsKept_def using evolves_trans by meson

lemma recStep_refl [simp]: "recStep rec rec"
  by (simp add: recStep_def)

lemma recStep_trans: "recStep a b \<Longrightarrow> recStep b c \<Longrightarrow> recStep a c"
  by (auto simp: recStep_def intro: checkpointMono_trans map_le_trans attemptsKept_trans)

lemma attemptsKept_dropAll [simp]: "attemptsKept rec (dropAllRunning rec)"
  unfolding attemptsKept_def slotOf_dropAll using evolves_dropRunning by fastforce

lemma attemptsKept_execution [simp]:
  "attemptsKept rec (rec'\<lparr>er_execution := e\<rparr>) \<longleftrightarrow> attemptsKept rec rec'"
  "attemptsKept rec (rec'\<lparr>er_claims := c\<rparr>) \<longleftrightarrow> attemptsKept rec rec'"
  "attemptsKept rec (rec'\<lparr>er_releases := r\<rparr>) \<longleftrightarrow> attemptsKept rec rec'"
  "attemptsKept rec (rec'\<lparr>er_suspends := p\<rparr>) \<longleftrightarrow> attemptsKept rec rec'"
  "attemptsKept rec (rec'\<lparr>er_finishes := f\<rparr>) \<longleftrightarrow> attemptsKept rec rec'"
  "attemptsKept rec (rec'\<lparr>er_nextToken := t\<rparr>) \<longleftrightarrow> attemptsKept rec rec'"
  by (simp_all add: attemptsKept_def slotOf_def)

lemma attemptsKept_setSlot:
  assumes "\<And>a. a \<in> set (slotOf rec opn) \<Longrightarrow> \<exists>b \<in> set as. evolves a b"
  shows "attemptsKept rec (setSlot opn as rec)"
  unfolding attemptsKept_def using assms evolves_refl by (metis slotOf_setSlot)

lemma evolves_update:
  assumes "k < length as" and "evolves (as ! k) b" and "x \<in> set as"
  shows "\<exists>y \<in> set (as[k := b]). evolves x y"
proof -
  obtain j where j: "j < length as" "as ! j = x" using assms(3) by (auto simp: in_set_conv_nth)
  have "as[k := b] ! j \<in> set (as[k := b])" using j(1) by simp
  moreover have "evolves x (as[k := b] ! j)" using j assms(2) by (cases "j = k") auto
  ultimately show ?thesis by blast
qed

lemma withRecord_found:
  assumes "st_executions s i = Some rec"
  shows "withRecord None clock i opn call s =
    (fst (call rec (trustedNow clock s)),
     s\<lparr>st_executions := (st_executions s)(i \<mapsto> snd (call rec (trustedNow clock s)))\<rparr>)"
  using assms by (simp add: withRecord_def split_def Let_def)

lemma withRecord_not_found:
  assumes "ctxErr \<noteq> None \<or> st_executions s i = None"
  shows "snd (withRecord ctxErr clock i opn call s) = s"
    and "\<exists>err. fst (withRecord ctxErr clock i opn call s) = Inl err"
  using assms by (auto simp: withRecord_def split: option.splits)

lemma withRecord_cases:
  obtains (blocked) err where "withRecord ctxErr clock i opn call s = (Inl err, s)"
    "ctxErr \<noteq> None \<or> st_executions s i = None"
  | (found) rec where "ctxErr = None" "st_executions s i = Some rec"
    "withRecord ctxErr clock i opn call s =
      (fst (call rec (trustedNow clock s)),
       s\<lparr>st_executions := (st_executions s)(i \<mapsto> snd (call rec (trustedNow clock s)))\<rparr>)"
proof (cases "ctxErr \<noteq> None \<or> st_executions s i = None")
  case True
  then show ?thesis using withRecord_not_found [OF True, of clock opn call] blocked by (metis prod.collapse)
next
  case False
  then show ?thesis using found withRecord_found by fastforce
qed

text \<open>
  The abstract lifecycle of one execution: who holds it, its status, version and last token.
\<close>

record lifecycleState =
  lc_holder :: "LeaseRef option"
  lc_status :: ExecutionStatus
  lc_version :: uint64
  lc_token :: uint64

inductive lifecycle :: "lifecycleState \<Rightarrow> lifecycleState \<Rightarrow> bool" where
  lc_stay: "lifecycle a a"
| lc_claim: "\<not> terminal (lc_status a) \<Longrightarrow> lr_Token ref = lc_token a + 1 \<Longrightarrow>
    lifecycle a (a\<lparr>lc_holder := Some ref, lc_status := ExecutionStatusRunning, lc_token := lc_token a + 1\<rparr>)"
| lc_checkpoint: "lc_holder a \<noteq> None \<Longrightarrow> lifecycle a (a\<lparr>lc_version := lc_version a + 1\<rparr>)"
| lc_suspend: "lc_holder a \<noteq> None \<Longrightarrow>
    lifecycle a (a\<lparr>lc_holder := None, lc_status := ExecutionStatusSuspended, lc_version := lc_version a + 1\<rparr>)"
| lc_release: "lc_holder a \<noteq> None \<Longrightarrow> lifecycle a (a\<lparr>lc_holder := None\<rparr>)"
| lc_finish: "lc_holder a \<noteq> None \<Longrightarrow> terminal status \<Longrightarrow>
    lifecycle a (a\<lparr>lc_holder := None, lc_status := status, lc_version := lc_version a + 1\<rparr>)"

definition lifecycleOf :: "executionRecord \<Rightarrow> lifecycleState" where
  "lifecycleOf rec = \<lparr>lc_holder = map_option refOf (e_Lease (er_execution rec)),
     lc_status = e_Status (er_execution rec), lc_version = e_Version (er_execution rec),
     lc_token = er_nextToken rec\<rparr>"

lemma lifecycleOf_setSlot [simp]: "lifecycleOf (setSlot opn as rec) = lifecycleOf rec"
  by (simp add: lifecycleOf_def)

text \<open>
  The contract of one fenced operation of the backend, stated for its body: \<open>idOf\<close> is the
  execution a request names.
\<close>

locale record_operation =
  fixes idOf :: "'q \<Rightarrow> ExecutionID"
    and body :: "'q \<Rightarrow> executionRecord \<Rightarrow> instant \<Rightarrow> 'a reply \<times> executionRecord"
  assumes body_wf: "wfRecord (idOf q) rec \<Longrightarrow> wfRecord (idOf q) (snd (body q rec now))"
    and body_step: "wfRecord (idOf q) rec \<Longrightarrow> recStep rec (snd (body q rec now))"
    and body_lifecycle: "wfRecord (idOf q) rec \<Longrightarrow> lifecycle (lifecycleOf rec) (lifecycleOf (snd (body q rec now)))"
    and body_error: "fst (body q rec now) = Inl err \<Longrightarrow> snd (body q rec now) = rec"
begin

lemma withRecord_wf:
  assumes "wfStore s"
  shows "wfStore (snd (withRecord ctxErr clock (idOf q) opn (body q) s))"
proof (cases rule: withRecord_cases [of ctxErr clock "idOf q" opn "body q" s])
  case (found rec)
  have "wfRecord (idOf q) (snd (body q rec (trustedNow clock s)))"
    using assms found(2) by (intro body_wf) (simp add: wfStore_def)
  then show ?thesis using assms unfolding found(3) by (simp add: wfStore_def)
qed (use assms in simp)

lemma withRecord_error:
  assumes "fst (withRecord ctxErr clock (idOf q) opn (body q) s) = Inl err"
  shows "snd (withRecord ctxErr clock (idOf q) opn (body q) s) = s"
proof (cases rule: withRecord_cases [of ctxErr clock "idOf q" opn "body q" s])
  case (found rec)
  have "snd (body q rec (trustedNow clock s)) = rec"
    using assms unfolding found(3) by (auto intro: body_error)
  then show ?thesis using found(2) unfolding found(3) by (simp add: fun_upd_idem)
qed simp

lemma withRecord_step:
  assumes "wfStore s" and "st_executions s i = Some rec"
  shows "\<exists>rec'. st_executions (snd (withRecord ctxErr clock (idOf q) opn (body q) s)) i = Some rec'
     \<and> recStep rec rec'"
proof (cases rule: withRecord_cases [of ctxErr clock "idOf q" opn "body q" s])
  case (found rec0)
  then show ?thesis
    using assms body_step [of q rec0 "trustedNow clock s"] by (auto simp: wfStore_def)
qed (use assms in simp)

lemma withRecord_lifecycle:
  assumes "wfStore s" and "st_executions s i = Some rec"
  shows "\<exists>rec'. st_executions (snd (withRecord ctxErr clock (idOf q) opn (body q) s)) i = Some rec'
     \<and> lifecycle (lifecycleOf rec) (lifecycleOf rec')"
proof (cases rule: withRecord_cases [of ctxErr clock "idOf q" opn "body q" s])
  case (found rec0)
  then show ?thesis
    using assms body_lifecycle [of q rec0 "trustedNow clock s"] by (auto simp: wfStore_def intro: lc_stay)
qed (use assms in \<open>auto intro: lc_stay\<close>)

lemma withRecord_frame:
  assumes "i \<noteq> idOf q"
  shows "st_executions (snd (withRecord ctxErr clock (idOf q) opn (body q) s)) i = st_executions s i"
  by (cases rule: withRecord_cases [of ctxErr clock "idOf q" opn "body q" s]) (use assms in auto)

end

section \<open>The operations\<close>

lemma requireActive_None:
  "requireActiveLease rec i ref now = None \<longleftrightarrow>
     (\<exists>lease. e_Lease (er_execution rec) = Some lease \<and> refOf lease = ref \<and> now < l_ExpiresAt lease)"
  by (cases ref) (auto simp: requireActiveLease_def leaseMatches_def leaseActive_def refOf_def split: option.splits)

lemma requireActive_cases:
  obtains (lost) err where "requireActiveLease rec i ref now = Some err"
  | (active) lease where "requireActiveLease rec i ref now = None"
    "e_Lease (er_execution rec) = Some lease" "refOf lease = ref" "now < l_ExpiresAt lease"
  using requireActive_None by (metis not_Some_eq)

lemma wfSlot_ref_cong:
  "map_option refOf l = map_option refOf l' \<Longrightarrow> wfSlot i l = wfSlot i l'"
  by (intro ext) (simp add: wfSlot_def wfAttempt_def cong: list.pred_cong)

lemma lease_not_terminal:
  "wfRecord i rec \<Longrightarrow> e_Lease (er_execution rec) = Some lease \<Longrightarrow>
   \<not> terminal (e_Status (er_execution rec)) \<and> e_Status (er_execution rec) = ExecutionStatusRunning"
  using wf_lease wf_terminal by fastforce

lemma not_terminal_running [simp]: "\<not> terminal ExecutionStatusRunning" "\<not> terminal ExecutionStatusSuspended"
  "terminal ExecutionStatusCompleted" "terminal ExecutionStatusFailed"
  by (simp_all add: terminal_def)

lemma allSlots_fields [simp]:
  "allSlots P (rec\<lparr>er_execution := e\<rparr>) = allSlots P rec"
  "allSlots P (rec\<lparr>er_claims := c\<rparr>) = allSlots P rec"
  "allSlots P (rec\<lparr>er_releases := r\<rparr>) = allSlots P rec"
  "allSlots P (rec\<lparr>er_suspends := p\<rparr>) = allSlots P rec"
  "allSlots P (rec\<lparr>er_finishes := f\<rparr>) = allSlots P rec"
  "allSlots P (rec\<lparr>er_nextToken := t\<rparr>) = allSlots P rec"
  by (simp_all add: allSlots_def)

lemma hasUncertain_fields [simp]:
  "hasUncertainAttempts (rec\<lparr>er_execution := e\<rparr>) = hasUncertainAttempts rec"
  "hasUncertainAttempts (rec\<lparr>er_finishes := f\<rparr>) = hasUncertainAttempts rec"
  by (simp_all add: hasUncertainAttempts_def)

lemma allSlots_mono2:
  "allSlots P rec \<Longrightarrow> allSlots Q rec \<Longrightarrow> (\<And>opn as. P opn as \<Longrightarrow> Q opn as \<Longrightarrow> R opn as) \<Longrightarrow> allSlots R rec"
  unfolding allSlots_def list_all_iff split_def by blast

text \<open>A changed slot, and a lease given up, keep the invariant.\<close>

lemma wfRecord_setSlot:
  assumes "wfRecord i rec" and "\<not> terminal (e_Status (er_execution rec))"
    and "wfSlot i (e_Lease (er_execution rec)) opn as"
  shows "wfRecord i (setSlot opn as rec)"
proof (rule wfRecordI)
  show "allSlots (wfSlot i (e_Lease (er_execution (setSlot opn as rec)))) (setSlot opn as rec)"
    using allSlots_setSlot [OF wf_distinct [OF assms(1)] wf_slots [OF assms(1)] assms(3)] by simp
qed (use assms(2) wfRecordD [OF assms(1)] in \<open>auto intro: distinct_setSlot\<close>)

lemma wfRecord_dropLease:
  assumes "wfRecord i rec" and "\<not> terminal (e_Status (er_execution rec))"
    and "status = ExecutionStatusRunning \<or> status = ExecutionStatusSuspended"
    and "e_Status e = status" "e_ID e = i" "e_Lease e = None" "e_Result e = e_Result (er_execution rec)"
  shows "wfRecord i ((dropAllRunning rec)\<lparr>er_execution := e, er_suspends := p, er_releases := r\<rparr>)"
proof (rule wfRecordI)
  show "allSlots (wfSlot i (e_Lease (er_execution ((dropAllRunning rec)\<lparr>er_execution := e, er_suspends := p, er_releases := r\<rparr>))))
     ((dropAllRunning rec)\<lparr>er_execution := e, er_suspends := p, er_releases := r\<rparr>)"
    using dropAll_wfSlots [OF assms(1)] by simp
qed (use assms wfRecordD [OF assms(1)] in \<open>auto simp: o_def split_def\<close>)

interpretation renew: record_operation nx_ExecutionID renewBody
proof
  fix q :: RenewExecutionRequest and rec now err
  let ?i = "nx_ExecutionID q"
  show "wfRecord ?i (snd (renewBody q rec now))" if wf: "wfRecord ?i rec"
  proof (cases rule: requireActive_cases [of rec ?i "nx_Lease q" now])
    case (active lease)
    let ?l = "lease\<lparr>l_ExpiresAt := now + nx_LeaseTTL q\<rparr>"
    have "wfSlot ?i (Some ?l) = wfSlot ?i (Some lease)" by (rule wfSlot_ref_cong) (simp add: refOf_def)
    with active wf show ?thesis
      using wfRecordD [OF wf] by (intro wfRecordI) (auto simp: renewBody_def Let_def)
  qed (use wf in \<open>simp add: renewBody_def\<close>)
  show "recStep rec (snd (renewBody q rec now))" if wf: "wfRecord ?i rec"
    by (cases rule: requireActive_cases [of rec ?i "nx_Lease q" now])
      (use lease_not_terminal [OF wf] in \<open>auto simp: renewBody_def Let_def recStep_def\<close>)
  show "lifecycle (lifecycleOf rec) (lifecycleOf (snd (renewBody q rec now)))" if wf: "wfRecord ?i rec"
    by (cases rule: requireActive_cases [of rec ?i "nx_Lease q" now])
      (auto simp: renewBody_def Let_def lifecycleOf_def refOf_def lc_stay)
  show "snd (renewBody q rec now) = rec" if "fst (renewBody q rec now) = Inl err"
    using that by (auto simp: renewBody_def Let_def split: option.splits)
qed


interpretation save: record_operation cx_ExecutionID "saveBody codec" for codec
proof
  fix q :: SaveCheckpointRequest and rec now err
  let ?i = "cx_ExecutionID q"
  show "wfRecord ?i (snd (saveBody codec q rec now))" if wf: "wfRecord ?i rec"
  proof (cases rule: requireActive_cases [of rec ?i "cx_Lease q" now])
    case (active lease)
    have "wfRecord ?i (rec\<lparr>er_execution := (er_execution rec)\<lparr>e_Checkpoint := c, e_Version := v\<rparr>\<rparr>)" for c v
      using wfRecordD [OF wf] lease_not_terminal [OF wf active(2)] by (intro wfRecordI) auto
    then show ?thesis using wf by (auto simp: saveBody_def Let_def split: option.splits)
  qed (use wf in \<open>auto simp: saveBody_def Let_def\<close>)
  show "recStep rec (snd (saveBody codec q rec now))" if wf: "wfRecord ?i rec"
  proof (cases rule: requireActive_cases [of rec ?i "cx_Lease q" now])
    case (active lease)
    then show ?thesis using lease_not_terminal [OF wf]
      by (auto simp: saveBody_def Let_def recStep_def checkpointMono_def split: option.splits)
  qed (simp add: saveBody_def Let_def)
  show "lifecycle (lifecycleOf rec) (lifecycleOf (snd (saveBody codec q rec now)))" if wf: "wfRecord ?i rec"
  proof (cases rule: requireActive_cases [of rec ?i "cx_Lease q" now])
    case (active lease)
    then show ?thesis using lc_checkpoint [of "lifecycleOf rec"]
      by (auto simp: saveBody_def Let_def lifecycleOf_def lc_stay split: option.splits)
  qed (simp add: saveBody_def Let_def lc_stay)
  show "snd (saveBody codec q rec now) = rec" if "fst (saveBody codec q rec now) = Inl err"
    using that by (auto simp: saveBody_def Let_def split: option.splits if_splits)
qed

lemma reconcile_current:
  assumes "wfRecord i rec" and "leaseMatches (e_Lease (er_execution rec)) ref"
  shows "snd (reconcileRunning rec (lr_Token ref)) = dropAllRunning rec"
  using assms(2) by (intro reconcileRunning_wf(1) [OF assms(1)]) (auto simp: leaseMatches_def split: option.splits)

lemma refOf_matches: "leaseMatches (Some lease) (refOf lease)"
  by (simp add: leaseMatches_def refOf_def)

lemma recStep_dropAll:
  assumes "\<not> terminal (e_Status (er_execution rec))"
    and "e_ID e = e_ID (er_execution rec)" "e_Spec e = e_Spec (er_execution rec)"
      "e_SpecHash e = e_SpecHash (er_execution rec)" "e_Checkpoint e = e_Checkpoint (er_execution rec)"
  shows "recStep rec ((dropAllRunning rec)\<lparr>er_execution := e, er_suspends := p, er_releases := r\<rparr>)"
  using assms by (simp add: recStep_def)

interpretation suspend: record_operation px_ExecutionID suspendBody
proof
  fix q :: SuspendExecutionRequest and rec now err
  let ?i = "px_ExecutionID q" and ?t = "lr_Token (px_Lease q)"
  let ?key = "((lr_OwnerID (px_Lease q), ?t), px_ExpectedVersion q)"
  have shape: "snd (suspendBody q rec now) = rec \<or>
      (\<exists>lease. e_Lease (er_execution rec) = Some lease) \<and>
      (\<exists>e p. snd (suspendBody q rec now) = (dropAllRunning rec)\<lparr>er_execution := e, er_suspends := p\<rparr> \<and>
         e = (er_execution rec)\<lparr>e_Status := ExecutionStatusSuspended, e_Lease := None, e_Version := e_Version (er_execution rec) + 1\<rparr>)"
    if wf: "wfRecord ?i rec"
  proof (cases rule: requireActive_cases [of rec ?i "px_Lease q" now])
    case (active lease)
    have "snd (reconcileRunning rec ?t) = dropAllRunning rec"
      using active refOf_matches [of lease] by (intro reconcile_current [OF wf]) simp
    with active show ?thesis
      by (auto simp: suspendBody_def Let_def split: option.splits)
  qed (auto simp: suspendBody_def Let_def split: option.splits)
  show "wfRecord ?i (snd (suspendBody q rec now))" if wf: "wfRecord ?i rec"
    using shape [OF wf]
  proof (elim disjE conjE exE)
    fix lease e p
    assume a: "e_Lease (er_execution rec) = Some lease"
      "snd (suspendBody q rec now) = (dropAllRunning rec)\<lparr>er_execution := e, er_suspends := p\<rparr>"
      "e = (er_execution rec)\<lparr>e_Status := ExecutionStatusSuspended, e_Lease := None, e_Version := e_Version (er_execution rec) + 1\<rparr>"
    show ?thesis
      using wfRecord_dropLease [OF wf, where status = ExecutionStatusSuspended and e = e and p = p and r = "er_releases rec"]
        lease_not_terminal [OF wf a(1)] wf_id [OF wf] a(2,3) by simp
  qed (use wf in simp)
  show "recStep rec (snd (suspendBody q rec now))" if wf: "wfRecord ?i rec"
    using shape [OF wf] lease_not_terminal [OF wf]
    by (auto simp: recStep_def)
  show "lifecycle (lifecycleOf rec) (lifecycleOf (snd (suspendBody q rec now)))" if wf: "wfRecord ?i rec"
    using shape [OF wf] lc_suspend [of "lifecycleOf rec"] by (auto simp: lifecycleOf_def lc_stay)
  show "snd (suspendBody q rec now) = rec" if "fst (suspendBody q rec now) = Inl err"
    using that by (auto simp: suspendBody_def Let_def split: option.splits if_splits)
qed

interpretation release: record_operation lx_ExecutionID releaseBody
proof
  fix q :: ReleaseExecutionRequest and rec now err
  let ?i = "lx_ExecutionID q" and ?t = "lr_Token (lx_Lease q)"
  have shape: "snd (releaseBody q rec now) = rec \<or>
      (\<exists>lease. e_Lease (er_execution rec) = Some lease) \<and>
      (\<exists>e r. snd (releaseBody q rec now) = (dropAllRunning rec)\<lparr>er_execution := e, er_releases := r\<rparr> \<and>
         e = (er_execution rec)\<lparr>e_Lease := None\<rparr>)"
    if wf: "wfRecord ?i rec"
  proof (cases "leaseMatches (e_Lease (er_execution rec)) (lx_Lease q)")
    case True
    then obtain lease where "e_Lease (er_execution rec) = Some lease"
      by (auto simp: leaseMatches_def split: option.splits)
    with True reconcile_current [OF wf True] show ?thesis
      by (auto simp: releaseBody_def Let_def split_def split: option.splits)
  qed (auto simp: releaseBody_def Let_def split: option.splits)
  show "wfRecord ?i (snd (releaseBody q rec now))" if wf: "wfRecord ?i rec"
    using shape [OF wf]
  proof (elim disjE conjE exE)
    fix lease e r
    assume a: "e_Lease (er_execution rec) = Some lease"
      "snd (releaseBody q rec now) = (dropAllRunning rec)\<lparr>er_execution := e, er_releases := r\<rparr>"
      "e = (er_execution rec)\<lparr>e_Lease := None\<rparr>"
    show ?thesis
      using wfRecord_dropLease [OF wf, where status = ExecutionStatusRunning and e = e and p = "er_suspends rec" and r = r]
        lease_not_terminal [OF wf a(1)] wf_id [OF wf] a(2,3) by simp
  qed (use wf in simp)
  show "recStep rec (snd (releaseBody q rec now))" if wf: "wfRecord ?i rec"
    using shape [OF wf] lease_not_terminal [OF wf]
    by (auto simp: recStep_def)
  show "lifecycle (lifecycleOf rec) (lifecycleOf (snd (releaseBody q rec now)))" if wf: "wfRecord ?i rec"
    using shape [OF wf] lc_release [of "lifecycleOf rec"] by (auto simp: lifecycleOf_def lc_stay)
  show "snd (releaseBody q rec now) = rec" if "fst (releaseBody q rec now) = Inl err"
    using that by (auto simp: releaseBody_def Let_def split_def split: option.splits if_splits)
qed

interpretation finish: record_operation fx_ExecutionID "finishBody codec" for codec
proof
  fix q :: FinishExecutionRequest and rec now err
  let ?i = "fx_ExecutionID q"
  show "wfRecord ?i (snd (finishBody codec q rec now))" if wf: "wfRecord ?i rec"
  proof (cases rule: requireActive_cases [of rec ?i "fx_Lease q" now])
    case (active lease)
    have "wfRecord ?i (rec\<lparr>er_execution := e, er_finishes := f\<rparr>)"
      if e: "e_ID e = ?i" "e_Status e = ExecutionStatusFailed \<or> e_Status e = ExecutionStatusCompleted"
        "e_Lease e = None" "e_Result e = Some r" "\<not> hasUncertainAttempts rec" "ran f \<subseteq> {e}" for e f r
    proof (rule wfRecordI)
      have "wfSlot ?i None opn as"
        if "wfSlot ?i (e_Lease (er_execution rec)) opn as" "list_all (\<lambda>a. \<not> uncertainStatus (a_Status a)) as" for opn as
        using that by (auto simp: wfSlot_def list_all_iff wfAttempt_def uncertainStatus_def)
      then have "allSlots (wfSlot ?i None) rec"
        using wf_slots [OF wf] e(5) unfolding hasUncertain_iff by (blast intro: allSlots_mono2)
      then show "allSlots (wfSlot ?i (e_Lease (er_execution (rec\<lparr>er_execution := e, er_finishes := f\<rparr>)))) (rec\<lparr>er_execution := e, er_finishes := f\<rparr>)"
        using e by simp
    qed (use e wfRecordD [OF wf] in auto)
    then show ?thesis
      using active wf wf_id [OF wf] wf_unfinished [OF wf] lease_not_terminal [OF wf active(2)]
      by (auto simp: finishBody_def Let_def split: option.splits)
  qed (use wf in \<open>auto simp: finishBody_def Let_def split: option.splits\<close>)
  show "recStep rec (snd (finishBody codec q rec now))" if wf: "wfRecord ?i rec"
    by (auto simp: finishBody_def Let_def recStep_def map_le_def split: option.splits)
  show "lifecycle (lifecycleOf rec) (lifecycleOf (snd (finishBody codec q rec now)))" if wf: "wfRecord ?i rec"
  proof (cases rule: requireActive_cases [of rec ?i "fx_Lease q" now])
    case (active lease)
    then show ?thesis using lc_finish [of "lifecycleOf rec" ExecutionStatusFailed]
        lc_finish [of "lifecycleOf rec" ExecutionStatusCompleted]
      by (auto simp: finishBody_def Let_def lifecycleOf_def lc_stay split: option.splits)
  qed (auto simp: finishBody_def Let_def lc_stay split: option.splits)
  show "snd (finishBody codec q rec now) = rec" if "fst (finishBody codec q rec now) = Inl err"
    using that by (auto simp: finishBody_def Let_def split: option.splits if_splits)
qed


text \<open>Granting a lease.\<close>

lemma reconcileForClaim_wf:
  assumes "wfRecord i rec"
  shows "reconcileForClaim rec =
    (sortAttempts (concat (map (\<lambda>(opn, as). filter (\<lambda>a. a_Status a = AttemptStatusUnknown) as)
       (er_attempts (dropAllRunning rec)))), dropAllRunning rec)"
  using reconcileRunning_wf(1) [OF assms, of 0] by (simp add: reconcileForClaim_def Let_def)

lemma grantLease_wf:
  assumes "wfRecord i rec" and "grantLease rec owner claim ttl now = (reconcile, rec1)"
  shows "rec1 = (dropAllRunning rec)\<lparr>er_nextToken := er_nextToken rec + 1,
      er_execution := (er_execution rec)\<lparr>e_Status := ExecutionStatusRunning,
        e_Lease := Some \<lparr>l_OwnerID = owner, l_ClaimID = claim, l_Token = er_nextToken rec + 1, l_ExpiresAt = now + ttl\<rparr>\<rparr>\<rparr>"
    and "reconcile = fst (reconcileForClaim rec)"
  using assms(2) by (auto simp: grantLease_def reconcileForClaim_wf [OF assms(1)] Let_def)

lemma granted_wf:
  assumes wf: "wfRecord i rec" and nt: "\<not> terminal (e_Status (er_execution rec))"
    and g: "grantLease rec owner claim ttl now = (reconcile, rec1)"
    and c: "cr_token prior = er_nextToken rec1" "cr_ownerID prior = owner"
  shows "wfRecord i (rec1\<lparr>er_claims := (er_claims rec1)(claim \<mapsto> prior)\<rparr>)"
    and "recStep rec (rec1\<lparr>er_claims := (er_claims rec1)(claim \<mapsto> prior)\<rparr>)"
    and "lifecycle (lifecycleOf rec) (lifecycleOf (rec1\<lparr>er_claims := (er_claims rec1)(claim \<mapsto> prior)\<rparr>))"
proof -
  note rec1 = grantLease_wf(1) [OF wf g]
  show "wfRecord i (rec1\<lparr>er_claims := (er_claims rec1)(claim \<mapsto> prior)\<rparr>)"
  proof (rule wfRecordI)
    show "allSlots (wfSlot i (e_Lease (er_execution (rec1\<lparr>er_claims := (er_claims rec1)(claim \<mapsto> prior)\<rparr>))))
       (rec1\<lparr>er_claims := (er_claims rec1)(claim \<mapsto> prior)\<rparr>)"
      using dropAll_wfSlots [OF wf] by (simp add: rec1)
  qed (use wfRecordD [OF wf] nt c in \<open>auto simp: rec1 o_def split_def\<close>)
  show "recStep rec (rec1\<lparr>er_claims := (er_claims rec1)(claim \<mapsto> prior)\<rparr>)"
    using nt by (simp add: rec1 recStep_def)
  show "lifecycle (lifecycleOf rec) (lifecycleOf (rec1\<lparr>er_claims := (er_claims rec1)(claim \<mapsto> prior)\<rparr>))"
    using nt lc_claim [of "lifecycleOf rec" "\<lparr>lr_OwnerID = owner, lr_Token = er_nextToken rec + 1\<rparr>"]
    by (simp add: rec1 lifecycleOf_def refOf_def)
qed

interpretation resume: record_operation rx_ExecutionID resumeBody
proof
  fix q :: ResumeExecutionRequest and rec now err
  let ?i = "rx_ExecutionID q"
  have "snd (resumeBody q rec now) = rec \<or>
      wfRecord ?i (snd (resumeBody q rec now)) \<and> recStep rec (snd (resumeBody q rec now))
      \<and> lifecycle (lifecycleOf rec) (lifecycleOf (snd (resumeBody q rec now)))"
    if wf: "wfRecord ?i rec"
  proof (cases "terminal (e_Status (er_execution rec))")
    case False
    note granted = granted_wf [OF wf False]
    show ?thesis
      by (auto simp: resumeBody_def Let_def False split: option.splits prod.splits intro!: granted)
  qed (simp add: resumeBody_def)
  then show "wfRecord ?i (snd (resumeBody q rec now))" "recStep rec (snd (resumeBody q rec now))"
    "lifecycle (lifecycleOf rec) (lifecycleOf (snd (resumeBody q rec now)))"
    if "wfRecord ?i rec" using that by (metis, metis recStep_refl, metis lc_stay)
  show "snd (resumeBody q rec now) = rec" if "fst (resumeBody q rec now) = Inl err"
    using that by (auto simp: resumeBody_def Let_def split: option.splits if_splits prod.splits)
qed

lemma claimForStart_keeps:
  assumes "wfRecord (sx_ExecutionID q) rec" and "\<not> terminal (e_Status (er_execution rec))"
  shows "wfRecord (sx_ExecutionID q) (snd (claimForStart rec q now))"
    and "recStep rec (snd (claimForStart rec q now))"
    and "lifecycle (lifecycleOf rec) (lifecycleOf (snd (claimForStart rec q now)))"
proof -
  note granted = granted_wf [OF assms]
  have "snd (claimForStart rec q now) = rec \<or>
      wfRecord (sx_ExecutionID q) (snd (claimForStart rec q now)) \<and> recStep rec (snd (claimForStart rec q now))
      \<and> lifecycle (lifecycleOf rec) (lifecycleOf (snd (claimForStart rec q now)))"
    by (auto simp: claimForStart_def Let_def assms(2) split: option.splits prod.splits intro!: granted)
  then show "wfRecord (sx_ExecutionID q) (snd (claimForStart rec q now))"
    "recStep rec (snd (claimForStart rec q now))"
    "lifecycle (lifecycleOf rec) (lifecycleOf (snd (claimForStart rec q now)))"
    using assms(1) by (metis, metis recStep_refl, metis lc_stay)
qed

lemma claimForStart_error:
  "fst (claimForStart rec q now) = Inl err \<Longrightarrow> snd (claimForStart rec q now) = rec"
  by (auto simp: claimForStart_def Let_def split: option.splits if_splits prod.splits)

text \<open>Attempts.\<close>

lemma attemptIndex_Some:
  "attemptIndex number as = Some k \<Longrightarrow> k < length as \<and> a_Number (as ! k) = number"
  by (induction number as arbitrary: k rule: attemptIndex.induct) (auto split: if_splits)

lemma attemptByNumber_Some:
  assumes "attemptByNumber rec opn number = Some (k, a)"
  shows "k < length (slotOf rec opn)" "a = slotOf rec opn ! k" "a_Number a = number"
  using assms attemptIndex_Some [of number "slotOf rec opn" k]
  by (auto simp: attemptByNumber_def split: option.splits)

lemma updateAttempt_keeps:
  assumes wf: "wfRecord i rec" and nt: "\<not> terminal (e_Status (er_execution rec))"
    and found: "attemptByNumber rec opn number = Some (k, a)"
    and unc: "uncertainStatus (a_Status a)"
    and new: "a_Number b = number" "a_ExecutionID b = a_ExecutionID a" "a_OperationID b = a_OperationID a"
      "a_Kind b = a_Kind a" "a_InputHash b = a_InputHash a"
      "a_Lease b = None" "a_Status b \<noteq> AttemptStatusRunning" "\<And>text. a_Status b \<noteq> AttemptStatusOther text"
  shows "wfRecord i (updateAttempt opn k b rec)" and "recStep rec (updateAttempt opn k b rec)"
    and "lifecycle (lifecycleOf rec) (lifecycleOf (updateAttempt opn k b rec))"
proof -
  note f = attemptByNumber_Some [OF found]
  have ws: "wfSlot i (e_Lease (er_execution rec)) opn (slotOf rec opn)"
    using f(1) by (intro wf_slot [OF wf]) auto
  then have "wfAttempt i opn (e_Lease (er_execution rec)) a"
    using f(1,2) by (auto simp: wfSlot_def list_all_length)
  then have "wfAttempt i opn (e_Lease (er_execution rec)) b" using new by (auto simp: wfAttempt_def)
  then have "wfSlot i (e_Lease (er_execution rec)) opn ((slotOf rec opn)[k := b])"
    using unc f new(1) by (intro wfSlot_replace [OF ws f(1)]) (auto simp: uncertainStatus_def)
  then show "wfRecord i (updateAttempt opn k b rec)"
    unfolding updateAttempt_def by (rule wfRecord_setSlot [OF wf nt])
  show "recStep rec (updateAttempt opn k b rec)"
  proof -
    have "evolves (slotOf rec opn ! k) b" using unc new f(2,3) by (simp add: evolves_def)
    then show ?thesis
      using nt evolves_update [OF f(1)] by (auto simp: recStep_def updateAttempt_def intro!: attemptsKept_setSlot)
  qed
  show "lifecycle (lifecycleOf rec) (lifecycleOf (updateAttempt opn k b rec))"
    by (simp add: updateAttempt_def lc_stay)
qed

interpretation finishAttempt: record_operation fa_ExecutionID finishAttemptBody
proof
  fix q :: FinishAttemptRequest and rec now err
  let ?i = "fa_ExecutionID q"
  have "snd (finishAttemptBody q rec now) = rec \<or>
      wfRecord ?i (snd (finishAttemptBody q rec now)) \<and> recStep rec (snd (finishAttemptBody q rec now))
      \<and> lifecycle (lifecycleOf rec) (lifecycleOf (snd (finishAttemptBody q rec now)))"
    if wf: "wfRecord ?i rec"
  proof (cases rule: requireActive_cases [of rec ?i "fa_Lease q" now])
    case (active lease)
    note upd = updateAttempt_keeps [OF wf conjunct1 [OF lease_not_terminal [OF wf active(2)]]]
    from active(1) show ?thesis
      by (auto simp: finishAttemptBody_def Let_def uncertainStatus_def dest: attemptByNumber_Some(3)
          split: option.splits intro!: upd)
  qed (auto simp: finishAttemptBody_def Let_def)
  then show "wfRecord ?i (snd (finishAttemptBody q rec now))" "recStep rec (snd (finishAttemptBody q rec now))"
    "lifecycle (lifecycleOf rec) (lifecycleOf (snd (finishAttemptBody q rec now)))"
    if "wfRecord ?i rec" using that by (metis, metis recStep_refl, metis lc_stay)
  show "snd (finishAttemptBody q rec now) = rec" if "fst (finishAttemptBody q rec now) = Inl err"
    using that by (auto simp: finishAttemptBody_def Let_def split: option.splits if_splits)
qed

interpretation markUnknown: record_operation fa_ExecutionID markUnknownBody
proof
  fix q :: FinishAttemptRequest and rec now err
  let ?i = "fa_ExecutionID q"
  have "snd (markUnknownBody q rec now) = rec \<or>
      wfRecord ?i (snd (markUnknownBody q rec now)) \<and> recStep rec (snd (markUnknownBody q rec now))
      \<and> lifecycle (lifecycleOf rec) (lifecycleOf (snd (markUnknownBody q rec now)))"
    if wf: "wfRecord ?i rec"
  proof (cases rule: requireActive_cases [of rec ?i "fa_Lease q" now])
    case (active lease)
    note upd = updateAttempt_keeps [OF wf conjunct1 [OF lease_not_terminal [OF wf active(2)]]]
    from active(1) show ?thesis
      by (auto simp: markUnknownBody_def Let_def uncertainStatus_def dest: attemptByNumber_Some(3)
          split: option.splits intro!: upd)
  qed (auto simp: markUnknownBody_def Let_def)
  then show "wfRecord ?i (snd (markUnknownBody q rec now))" "recStep rec (snd (markUnknownBody q rec now))"
    "lifecycle (lifecycleOf rec) (lifecycleOf (snd (markUnknownBody q rec now)))"
    if "wfRecord ?i rec" using that by (metis, metis recStep_refl, metis lc_stay)
  show "snd (markUnknownBody q rec now) = rec" if "fst (markUnknownBody q rec now) = Inl err"
    using that by (auto simp: markUnknownBody_def Let_def split: option.splits if_splits)
qed


lemma found_uncertain:
  assumes "attemptByNumber rec opn number = Some (k, a)" and "uncertainStatus (a_Status a)"
  shows "hasUncertainAttempts rec"
proof -
  note f = attemptByNumber_Some [OF assms(1)]
  then obtain as where as: "attemptsOf rec opn = Some as" "a \<in> set as"
    by (auto simp: slotOf_def split: option.splits)
  then have "(opn, as) \<in> set (er_attempts rec)" by (auto dest: map_of_SomeD)
  then show ?thesis using as(2) assms(2)
    by (auto simp: hasUncertainAttempts_def uncertainStatus_def list_ex_iff)
qed

interpretation reconcile: record_operation ra_ExecutionID reconcileBody
proof
  fix q :: ReconcileAttemptRequest and rec now err
  let ?i = "ra_ExecutionID q"
  have "snd (reconcileBody q rec now) = rec \<or>
      wfRecord ?i (snd (reconcileBody q rec now)) \<and> recStep rec (snd (reconcileBody q rec now))
      \<and> lifecycle (lifecycleOf rec) (lifecycleOf (snd (reconcileBody q rec now)))"
    if wf: "wfRecord ?i rec"
  proof (cases "attemptByNumber rec (ra_OperationID q) (ra_AttemptNumber q)")
    case (Some found)
    obtain k a where ka: "found = (k, a)" by (cases found)
    show ?thesis
    proof (cases "a_Status a = AttemptStatusUnknown")
      case True
      then have unc: "uncertainStatus (a_Status a)" by (simp add: uncertainStatus_def)
      have nt: "\<not> terminal (e_Status (er_execution rec))"
        using found_uncertain [OF Some [unfolded ka] unc] wf_terminal [OF wf] by blast
      have "wfRecord ?i (updateAttempt (ra_OperationID q) k (resolveAttempt q a) rec)"
        "recStep rec (updateAttempt (ra_OperationID q) k (resolveAttempt q a) rec)"
        "lifecycle (lifecycleOf rec) (lifecycleOf (updateAttempt (ra_OperationID q) k (resolveAttempt q a) rec))"
        by (rule updateAttempt_keeps [OF wf nt Some [unfolded ka] unc];
            use True attemptByNumber_Some(3) [OF Some [unfolded ka]] in
              \<open>auto simp: resolveAttempt_def Let_def split: ReconcileResolution.splits\<close>)+
      then show ?thesis using Some ka by (auto simp: reconcileBody_def Let_def)
    qed (use Some ka in \<open>auto simp: reconcileBody_def Let_def\<close>)
  qed (auto simp: reconcileBody_def Let_def)
  then show "wfRecord ?i (snd (reconcileBody q rec now))" "recStep rec (snd (reconcileBody q rec now))"
    "lifecycle (lifecycleOf rec) (lifecycleOf (snd (reconcileBody q rec now)))"
    if "wfRecord ?i rec" using that by (metis, metis recStep_refl, metis lc_stay)
  show "snd (reconcileBody q rec now) = rec" if "fst (reconcileBody q rec now) = Inl err"
    using that by (auto simp: reconcileBody_def Let_def split: option.splits if_splits)
qed

lemma last_running_lease:
  assumes "wfSlot i l opn as" and "a_Status (last as) = AttemptStatusRunning"
  shows "a_Lease (last as) = map_option refOf l"
proof -
  have "last as \<in> set as" using assms(1) by (simp add: wfSlot_def)
  then show ?thesis using assms by (auto simp: wfSlot_def wfAttempt_def list_all_iff)
qed

interpretation startAttempt: record_operation sa_ExecutionID startAttemptBody
proof
  fix q :: StartAttemptRequest and rec now err
  let ?i = "sa_ExecutionID q" and ?as = "slotOf rec (sa_OperationID q)" and ?l = "e_Lease (er_execution rec)"
  have "snd (startAttemptBody q rec now) = rec \<or>
      wfRecord ?i (snd (startAttemptBody q rec now)) \<and> recStep rec (snd (startAttemptBody q rec now))
      \<and> lifecycle (lifecycleOf rec) (lifecycleOf (snd (startAttemptBody q rec now)))"
    if wf: "wfRecord ?i rec"
  proof (cases rule: requireActive_cases [of rec ?i "sa_Lease q" now])
    case (active lease)
    have nt: "\<not> terminal (e_Status (er_execution rec))" using lease_not_terminal [OF wf active(2)] by simp
    have new: "wfAttempt ?i (sa_OperationID q) ?l (newAttempt q n)" for n
      using active by (simp add: wfAttempt_def newAttempt_def)
    have keep: "wfRecord ?i (setSlot (sa_OperationID q) as rec) \<and> recStep rec (setSlot (sa_OperationID q) as rec)"
      if "wfSlot ?i ?l (sa_OperationID q) as" "set ?as \<subseteq> set as" for as
    proof -
      have "attemptsKept rec (setSlot (sa_OperationID q) as rec)"
        using that(2) evolves_refl by (intro attemptsKept_setSlot) blast
      then show ?thesis using nt that(1) by (simp add: recStep_def wfRecord_setSlot [OF wf nt])
    qed
    show ?thesis
    proof (cases "?as = []")
      case True
      have "wfSlot ?i ?l (sa_OperationID q) [newAttempt q 1]"
        by (rule wfSlot_single [OF new]) (simp add: newAttempt_def)
      then show ?thesis using keep True active(1) by (simp add: startAttemptBody_def Let_def lc_stay)
    next
      case False
      note ws = wf_slot [OF wf False]
      let ?grown = "setSlot (sa_OperationID q) (?as @ [newAttempt q (a_Number (last ?as) + 1)]) rec"
      have "wfRecord ?i ?grown \<and> recStep rec ?grown" if "a_Status (last ?as) = AttemptStatusAbandoned"
        by (rule keep [OF wfSlot_append [OF ws that _ new]]) (auto simp: newAttempt_def)
      moreover have "a_Lease (last ?as) = Some (sa_Lease q)" if "a_Status (last ?as) = AttemptStatusRunning"
        using last_running_lease [OF ws that] active by simp
      ultimately show ?thesis using active(1) False
        by (auto simp: startAttemptBody_def Let_def lc_stay split: AttemptStatus.splits)
    qed
  qed (auto simp: startAttemptBody_def Let_def)
  then show "wfRecord ?i (snd (startAttemptBody q rec now))" "recStep rec (snd (startAttemptBody q rec now))"
    "lifecycle (lifecycleOf rec) (lifecycleOf (snd (startAttemptBody q rec now)))"
    if "wfRecord ?i rec" using that by (metis, metis recStep_refl, metis lc_stay)
  show "snd (startAttemptBody q rec now) = rec" if "fst (startAttemptBody q rec now) = Inl err"
    using that by (auto simp: startAttemptBody_def Let_def split: option.splits if_splits AttemptStatus.splits)
qed

text \<open>A new execution is well formed.\<close>

lemma newExecution_wf:
  assumes "cr_token prior = 1" and "cr_ownerID prior = sx_OwnerID q"
  shows "wfRecord (sx_ExecutionID q) ((newExecution codec q now)\<lparr>er_claims := (er_claims (newExecution codec q now))(sx_ClaimID q \<mapsto> prior)\<rparr>)"
  using assms by (intro wfRecordI) (auto simp: newExecution_def allSlots_def)

section \<open>Every command\<close>

lemma lifecycle_refl [simp]: "lifecycle a a"
  by (rule lc_stay)

lemma StartExecution_keeps:
  assumes "wfStore s"
  shows "wfStore (snd (StartExecution codec ctxErr clock q s))"
    and "st_executions s i = Some rec \<Longrightarrow>
      \<exists>rec'. st_executions (snd (StartExecution codec ctxErr clock q s)) i = Some rec' \<and> recStep rec rec'
        \<and> lifecycle (lifecycleOf rec) (lifecycleOf rec')"
    and "fst (StartExecution codec ctxErr clock q s) = Inl err \<Longrightarrow> snd (StartExecution codec ctxErr clock q s) = s"
    and "i \<noteq> sx_ExecutionID q \<Longrightarrow>
      st_executions (snd (StartExecution codec ctxErr clock q s)) i = st_executions s i"
proof -
  have wf: "wfRecord (sx_ExecutionID q) r" if "st_executions s (sx_ExecutionID q) = Some r" for r
    using assms that by (simp add: wfStore_def)
  show "wfStore (snd (StartExecution codec ctxErr clock q s))"
    using assms claimForStart_keeps(1) [OF wf] newExecution_wf
    by (auto simp: StartExecution_def Let_def wfStore_def newExecution_def split_def split: option.splits)
  show "\<exists>rec'. st_executions (snd (StartExecution codec ctxErr clock q s)) i = Some rec' \<and> recStep rec rec'
        \<and> lifecycle (lifecycleOf rec) (lifecycleOf rec')" if "st_executions s i = Some rec"
    using that claimForStart_keeps(2,3) [OF wf]
    by (auto simp: StartExecution_def Let_def split_def split: option.splits)
  show "snd (StartExecution codec ctxErr clock q s) = s"
    if "fst (StartExecution codec ctxErr clock q s) = Inl err"
    using that claimForStart_error
    by (auto simp: StartExecution_def Let_def split_def fun_upd_idem split: option.splits if_splits)
  show "st_executions (snd (StartExecution codec ctxErr clock q s)) i = st_executions s i"
    if "i \<noteq> sx_ExecutionID q"
    using that by (auto simp: StartExecution_def Let_def split_def split: option.splits)
qed

lemmas operation_keeps_wf =
  resume.withRecord_wf renew.withRecord_wf save.withRecord_wf suspend.withRecord_wf
  finish.withRecord_wf release.withRecord_wf startAttempt.withRecord_wf
  finishAttempt.withRecord_wf markUnknown.withRecord_wf reconcile.withRecord_wf

lemmas operation_steps =
  resume.withRecord_step renew.withRecord_step save.withRecord_step suspend.withRecord_step
  finish.withRecord_step release.withRecord_step startAttempt.withRecord_step
  finishAttempt.withRecord_step markUnknown.withRecord_step reconcile.withRecord_step

lemmas operation_lifecycles =
  resume.withRecord_lifecycle renew.withRecord_lifecycle save.withRecord_lifecycle
  suspend.withRecord_lifecycle finish.withRecord_lifecycle release.withRecord_lifecycle
  startAttempt.withRecord_lifecycle finishAttempt.withRecord_lifecycle
  markUnknown.withRecord_lifecycle reconcile.withRecord_lifecycle

lemmas operation_errors =
  resume.withRecord_error renew.withRecord_error save.withRecord_error suspend.withRecord_error
  finish.withRecord_error release.withRecord_error startAttempt.withRecord_error
  finishAttempt.withRecord_error markUnknown.withRecord_error reconcile.withRecord_error

lemmas operation_frames =
  resume.withRecord_frame renew.withRecord_frame save.withRecord_frame suspend.withRecord_frame
  finish.withRecord_frame release.withRecord_frame startAttempt.withRecord_frame
  finishAttempt.withRecord_frame markUnknown.withRecord_frame reconcile.withRecord_frame

lemmas operation_defs =
  ResumeExecution_def RenewExecution_def SaveCheckpoint_def SuspendExecution_def
  FinishExecution_def ReleaseExecution_def StartAttempt_def FinishAttempt_def
  MarkAttemptUnknown_def ReconcileAttempt_def

lemma LoadExecution_unchanged [simp]: "snd (LoadExecution codec ctxErr clock i s) = s"
  by (auto simp: LoadExecution_def withRecord_def Let_def fun_upd_idem split: option.splits)

lemma Advance_executions [simp]: "st_executions (Advance amount s) = st_executions s"
  by (simp add: Advance_def)

lemma execute_wf:
  assumes "wfStore s"
  shows "wfStore (execute codec call s)"
proof (cases call)
  case (fields ctxErr clock cmd)
  have "wfStore (Advance x s)" for x using assms by (simp add: wfStore_def)
  then show ?thesis using assms unfolding fields
    by (cases cmd)
      (auto simp: operation_defs StartExecution_keeps operation_keeps_wf split: option.splits)
qed

lemma execute_step:
  assumes "wfStore s" and "st_executions s i = Some rec"
  shows "\<exists>rec'. st_executions (execute codec call s) i = Some rec' \<and> recStep rec rec'"
proof (cases call)
  case (fields ctxErr clock cmd)
  have "\<exists>rec'. st_executions (snd (StartExecution codec ctxErr clock q s)) i = Some rec' \<and> recStep rec rec'" for q
    using StartExecution_keeps(2) [OF assms] by blast
  then show ?thesis using assms(2) unfolding fields
    by (cases cmd)
      (auto simp: operation_defs operation_steps [OF assms] split: option.splits)
qed

lemma execute_lifecycle:
  assumes "wfStore s" and "st_executions s i = Some rec"
  shows "\<exists>rec'. st_executions (execute codec call s) i = Some rec'
    \<and> lifecycle (lifecycleOf rec) (lifecycleOf rec')"
proof (cases call)
  case (fields ctxErr clock cmd)
  have "\<exists>rec'. st_executions (snd (StartExecution codec ctxErr clock q s)) i = Some rec'
      \<and> lifecycle (lifecycleOf rec) (lifecycleOf rec')" for q
    using StartExecution_keeps(2) [OF assms] by blast
  then show ?thesis using assms(2) unfolding fields
    by (cases cmd)
      (auto simp: operation_defs operation_lifecycles [OF assms] split: option.splits)
qed

lemma errorOf_Some [simp]: "errorOf reply = Some err \<longleftrightarrow> reply = Inl err"
  by (auto simp: errorOf_def split: sum.splits)

lemma execute_error:
  assumes "wfStore s" and "replyError codec call s = Some err"
  shows "execute codec call s = s"
proof (cases call)
  case (fields ctxErr clock cmd)
  show ?thesis using assms(2) StartExecution_keeps(3) [OF assms(1)] unfolding fields
    by (cases cmd)
      (auto simp: operation_defs operation_errors split: option.splits if_splits)
qed

lemma execute_frame:
  assumes "wfStore s" and "targetOf cmd \<noteq> Some i"
  shows "st_executions (execute codec (ctxErr, clock, cmd) s) i = st_executions s i"
  using assms(2) StartExecution_keeps(4) [OF assms(1)]
  by (cases cmd) (auto simp: operation_defs operation_frames split: option.splits)

lemma wfStore_New [simp]: "wfStore New"
  by (simp add: wfStore_def New_def)

lemma history_Nil [simp]: "history codec [] s = s"
  and history_Cons [simp]: "history codec (call # calls) s = history codec calls (execute codec call s)"
  by (simp_all add: history_def)

lemma history_wf: "wfStore s \<Longrightarrow> wfStore (history codec calls s)"
  by (induction calls arbitrary: s) (auto intro: execute_wf)

lemma history_step:
  assumes "wfStore s" and "st_executions s i = Some rec"
  shows "\<exists>rec'. st_executions (history codec calls s) i = Some rec' \<and> recStep rec rec'"
  using assms
proof (induction calls arbitrary: s rec)
  case (Cons call calls)
  obtain rec1 where 1: "st_executions (execute codec call s) i = Some rec1" "recStep rec rec1"
    using execute_step [OF Cons.prems] by blast
  obtain rec2 where "st_executions (history codec calls (execute codec call s)) i = Some rec2" "recStep rec1 rec2"
    using Cons.IH [OF execute_wf [OF Cons.prems(1)] 1(1)] by blast
  then show ?case using 1(2) recStep_trans by auto
qed simp

end
