(* ===== verification/Backend_Properties.thy ===== *)
theory Backend_Properties
  imports Backend_Invariant
begin

text \<open>
  What the backend guarantees over whole histories of calls: fencing, exclusive leases,
  replay of repeated calls, and that finished work stays finished.
\<close>

section \<open>Lemmas\<close>

lemma reachable_wf [simp]: "wfStore (history codec calls New)"
  by (rule history_wf) simp

lemma reachable_record:
  "st_executions (history codec calls New) i = Some rec \<Longrightarrow> wfRecord i rec"
  using reachable_wf [of codec calls] by (simp add: wfStore_def)

text \<open>A lease reference whose token is behind the record's token matches no lease.\<close>

lemma stale_not_current:
  assumes "wfRecord i rec" and "lr_Token ref < er_nextToken rec"
  shows "requireActiveLease rec j ref now = Some (ExecutionError j ErrLeaseLost)"
  using assms(2) wf_lease [OF assms(1)]
  by (auto simp: requireActiveLease_def leaseMatches_def split: option.splits)

lemma stale_blocked:
  assumes "wfStore s" and "fenceOf cmd = Some ref" and "targetOf cmd = Some i"
    and "st_executions s i = Some rec" and "lr_Token ref < er_nextToken rec"
  shows "\<exists>err. replyError codec (ctxErr, clock, cmd) s = Some err"
proof -
  have wf: "wfRecord i rec" using assms(1,4) by (simp add: wfStore_def)
  have req: "requireActiveLease rec j ref now = Some (ExecutionError j ErrLeaseLost)" for j now
    by (rule stale_not_current [OF wf assms(5)])
  show ?thesis
    using assms(2-5) req
    by (cases ctxErr; cases cmd)
      (auto simp: operation_defs withRecord_def renewBody_def saveBody_def suspendBody_def
        finishBody_def releaseBody_def startAttemptBody_def finishAttemptBody_def markUnknownBody_def
        Let_def errorOf_def split: option.splits)
qed

lemma claim_blocked:
  assumes "wfStore s" and "st_executions s i = Some rec"
    and "e_Lease (er_execution rec) = Some lease" and "trustedNow clock s < l_ExpiresAt lease"
    and "cmd = CmdStart q \<and> sx_ExecutionID q = i \<and> sx_ClaimID q \<noteq> l_ClaimID lease \<or>
         cmd = CmdResume r \<and> rx_ExecutionID r = i \<and> rx_ClaimID r \<noteq> l_ClaimID lease"
  shows "\<exists>err. replyError codec (ctxErr, clock, cmd) s = Some err"
proof -
  have wf: "wfRecord i rec" using assms(1,2) by (simp add: wfStore_def)
  have nt: "\<not> terminal (e_Status (er_execution rec))" using lease_not_terminal [OF wf assms(3)] by simp
  have act: "leaseActive (Some lease) (trustedNow clock s)" using assms(4) by (simp add: leaseActive_def)
  show ?thesis
    using assms(2,3,5) nt act
    by (cases ctxErr)
      (auto simp: StartExecution_def ResumeExecution_def withRecord_def claimForStart_def resumeBody_def
        Let_def errorOf_def split_def split: option.splits)
qed

text \<open>Tokens move by at most one per call.\<close>

lemma lifecycle_token: "lifecycle a b \<Longrightarrow> lc_token b = lc_token a \<or> lc_token b = lc_token a + 1"
  by (induction rule: lifecycle.induct) auto


lemma created_token:
  assumes "st_executions s i = None" and "st_executions (execute codec call s) i = Some rec" and "wfStore s"
  shows "er_nextToken rec = 1"
proof (cases call)
  case (fields ctxErr clock cmd)
  have None_kept: "st_executions (snd (withRecord ctxErr clock j opn body s)) i = None" for j opn and body :: "executionRecord \<Rightarrow> instant \<Rightarrow> 'b reply \<times> executionRecord"
    using assms(1) by (cases rule: withRecord_cases [of ctxErr clock j opn body s]) auto
  show ?thesis using assms(1,2) unfolding fields
    by (cases cmd)
      (auto simp: operation_defs None_kept StartExecution_def newExecution_def Let_def split_def
        split: option.splits if_splits)
qed

lemma execute_token:
  assumes "wfStore s" and "st_executions s i = Some rec" and "st_executions (execute codec call s) i = Some rec'"
    and "unat (er_nextToken rec) + 1 < 2 ^ 64"
  shows "er_nextToken rec \<le> er_nextToken rec' \<and> unat (er_nextToken rec') \<le> unat (er_nextToken rec) + 1"
proof -
  have "er_nextToken rec' = er_nextToken rec \<or> er_nextToken rec' = er_nextToken rec + 1"
    using execute_lifecycle [OF assms(1,2), of codec call] assms(3)
    by (auto dest!: lifecycle_token simp: lifecycleOf_def)
  then show ?thesis
    using assms(4) word_plus_one_gt [of "er_nextToken rec"] by (auto simp: less_imp_le)
qed

lemma history_token:
  assumes "wfStore s" and "st_executions s i = Some rec" and "st_executions (history codec calls s) i = Some rec'"
    and "unat (er_nextToken rec) + length calls < 2 ^ 64"
  shows "er_nextToken rec \<le> er_nextToken rec'"
  using assms
proof (induction calls arbitrary: s rec)
  case (Cons call calls)
  obtain rec1 where 1: "st_executions (execute codec call s) i = Some rec1"
    using execute_step [OF Cons.prems(1,2)] by blast
  have t: "er_nextToken rec \<le> er_nextToken rec1" "unat (er_nextToken rec1) \<le> unat (er_nextToken rec) + 1"
    using execute_token [OF Cons.prems(1,2) 1] Cons.prems(4) by auto
  have "er_nextToken rec1 \<le> er_nextToken rec'"
    using Cons.prems(3,4) t(2) by (intro Cons.IH [OF execute_wf [OF Cons.prems(1)] 1]) auto
  with t(1) show ?case by (rule order_trans)
qed simp

lemma history_append: "history codec (a @ b) s = history codec b (history codec a s)"
  by (simp add: history_def)

lemma reachable_token:
  assumes "st_executions (history codec calls New) i = Some rec" and "length calls < 2 ^ 64"
  shows "unat (er_nextToken rec) \<le> length calls"
  using assms
proof (induction calls arbitrary: rec rule: rev_induct)
  case (snoc call calls)
  let ?s = "history codec calls New"
  have e: "st_executions (execute codec call ?s) i = Some rec" using snoc.prems(1) by (simp add: history_append)
  show ?case
  proof (cases "st_executions ?s i")
    case None
    then show ?thesis using created_token [OF None e reachable_wf] by simp
  next
    case (Some rec0)
    have "unat (er_nextToken rec0) \<le> length calls" using snoc.IH [OF Some] snoc.prems(2) by simp
    then show ?thesis using execute_token [OF reachable_wf Some e] snoc.prems(2) by auto
  qed
qed (simp add: New_def)

text \<open>Repeating a claim, a finish.\<close>

lemma leaseActive_Some: "leaseActive lease now \<Longrightarrow> \<exists>l. lease = Some l"
  by (auto simp: leaseActive_def split: option.splits)

lemma resumeBody_Inr:
  assumes "resumeBody q rec now = (Inr result, rec')"
  obtains (final) "terminal (e_Status (er_execution rec))" "rec' = rec"
      "result = \<lparr>rr_Execution = er_execution rec, rr_Reconcile = []\<rparr>"
  | (replay) prior where "\<not> terminal (e_Status (er_execution rec))" "rec' = rec"
      "er_claims rec (rx_ClaimID q) = Some prior" "cr_mode prior = ''resume''"
      "cr_ownerID prior = rx_OwnerID q" "cr_leaseTTL prior = rx_LeaseTTL q"
      "\<not> cr_token prior < er_nextToken rec" "leaseActive (e_Lease (er_execution rec)) now"
      "l_ClaimID (the (e_Lease (er_execution rec))) = rx_ClaimID q" "cr_resume prior = Some result"
  | (granted) reconcile rec1 where "\<not> terminal (e_Status (er_execution rec))"
      "\<not> leaseActive (e_Lease (er_execution rec)) now"
      "grantLease rec (rx_OwnerID q) (rx_ClaimID q) (rx_LeaseTTL q) now = (reconcile, rec1)"
      "result = \<lparr>rr_Execution = er_execution rec1, rr_Reconcile = reconcile\<rparr>"
      "rec' = rec1\<lparr>er_claims := (er_claims rec1)(rx_ClaimID q \<mapsto>
         \<lparr>cr_mode = ''resume'', cr_ownerID = rx_OwnerID q, cr_leaseTTL = rx_LeaseTTL q, cr_specHash = 0,
          cr_token = er_nextToken rec1, cr_start = None, cr_resume = Some result\<rparr>)\<rparr>"
  using assms by (auto simp: resumeBody_def Let_def split: option.splits if_splits prod.splits)

lemma resumeBody_replay:
  assumes wf: "wfRecord i rec" and r: "resumeBody q rec now = (Inr result, rec')"
    and act: "leaseActive (e_Lease (er_execution rec')) now' \<or> terminal (e_Status (er_execution rec'))"
  shows "resumeBody q rec' now' = (Inr result, rec')"
  using r
proof (cases rule: resumeBody_Inr)
  case (granted reconcile rec1)
  note rec1 = grantLease_wf(1) [OF wf granted(3)]
  have "leaseActive (e_Lease (er_execution rec1)) now'" using act granted(5) by (simp add: rec1)
  then show ?thesis using granted by (simp add: resumeBody_def Let_def rec1)
qed (use act in \<open>auto simp: resumeBody_def Let_def\<close>)

lemma claimForStart_Inr:
  assumes "claimForStart rec q now = (Inr result, rec')"
  obtains (replay) prior where "rec' = rec"
      "er_claims rec (sx_ClaimID q) = Some prior" "cr_mode prior = ''start''"
      "cr_ownerID prior = sx_OwnerID q" "cr_leaseTTL prior = sx_LeaseTTL q" "cr_specHash prior = sx_SpecHash q"
      "\<not> cr_token prior < er_nextToken rec" "leaseActive (e_Lease (er_execution rec)) now"
      "l_ClaimID (the (e_Lease (er_execution rec))) = sx_ClaimID q" "cr_start prior = Some result"
  | (granted) reconcile rec1 where "\<not> leaseActive (e_Lease (er_execution rec)) now"
      "grantLease rec (sx_OwnerID q) (sx_ClaimID q) (sx_LeaseTTL q) now = (reconcile, rec1)"
      "result = \<lparr>sr_Execution = er_execution rec1, sr_Created = False, sr_Reconcile = reconcile\<rparr>"
      "rec' = rec1\<lparr>er_claims := (er_claims rec1)(sx_ClaimID q \<mapsto>
         \<lparr>cr_mode = ''start'', cr_ownerID = sx_OwnerID q, cr_leaseTTL = sx_LeaseTTL q, cr_specHash = sx_SpecHash q,
          cr_token = er_nextToken rec1, cr_start = Some result, cr_resume = None\<rparr>)\<rparr>"
  using assms by (auto simp: claimForStart_def Let_def split: option.splits if_splits prod.splits)

lemma claimForStart_replay:
  assumes wf: "wfRecord i rec" and r: "claimForStart rec q now = (Inr result, rec')"
    and act: "leaseActive (e_Lease (er_execution rec')) now'"
  shows "claimForStart rec' q now' = (Inr result, rec')"
  using r
proof (cases rule: claimForStart_Inr)
  case (granted reconcile rec1)
  note rec1 = grantLease_wf(1) [OF wf granted(2)]
  have "leaseActive (e_Lease (er_execution rec1)) now'" using act granted(4) by simp
  then show ?thesis using granted by (simp add: claimForStart_def Let_def rec1)
qed (use act in \<open>auto simp: claimForStart_def Let_def\<close>)

text \<open>The attempts a claim reports.\<close>

abbreviation attemptKey :: "Attempt \<Rightarrow> string \<times> int" where
  "attemptKey a \<equiv> (a_OperationID a, a_Number a)"

definition allAttempts :: "executionRecord \<Rightarrow> Attempt list" where
  "allAttempts rec = concat (map snd (er_attempts rec))"

lemma allAttempts_slots:
  "distinct (map fst (er_attempts rec)) \<Longrightarrow> a \<in> set (allAttempts rec) \<longleftrightarrow> (\<exists>opn. a \<in> set (slotOf rec opn))"
  by (force simp: allAttempts_def slotOf_def split: option.splits)

lemma wfSlot_keys:
  assumes "wfSlot i l opn as"
  shows "distinct (map attemptKey as)" and "\<forall>a \<in> set as. a_OperationID a = opn"
proof -
  have "distinct (map (\<lambda>i. int i + 1) [0..<length as])" by (simp add: distinct_map inj_on_def)
  then have "distinct (map a_Number as)" using assms by (simp add: wfSlot_def)
  then show "distinct (map attemptKey as)" by (auto simp: distinct_map inj_on_def)
  show "\<forall>a \<in> set as. a_OperationID a = opn" using assms by (auto simp: wfSlot_def wfAttempt_def list_all_iff)
qed

lemma wfSlots_keys:
  assumes "distinct (map fst al)" and "\<forall>(opn, as) \<in> set al. wfSlot i l opn as"
  shows "distinct (map attemptKey (concat (map snd al)))"
  using assms
proof (induction al)
  case (Cons entry al)
  obtain opn as where e: "entry = (opn, as)" by (cases entry)
  have "wfSlot i l opn as" using Cons.prems(2) e by auto
  note k = wfSlot_keys [OF this]
  have "a_OperationID b \<noteq> opn" if b: "b \<in> set (concat (map snd al))" for b
  proof -
    obtain opn' as' where "(opn', as') \<in> set al" "b \<in> set as'" using b by auto
    moreover from this have "a_OperationID b = opn'" using Cons.prems(2) wfSlot_keys(2) by fastforce
    ultimately show ?thesis using Cons.prems(1) e by (auto simp: image_iff)
  qed
  then show ?case using Cons k e by auto
qed simp

lemma wf_keys: "wfRecord i rec \<Longrightarrow> distinct (map attemptKey (allAttempts rec))"
  unfolding allAttempts_def using wf_slots [of i rec] wf_distinct [of i rec]
  by (intro wfSlots_keys) (auto simp: allSlots_def list_all_iff)


lemma concat_filter_entries:
  "concat (map (\<lambda>(opn, as). filter P as) al) = filter P (concat (map snd al))"
  by (induction al) auto

lemma reconcileForClaim_unknown:
  assumes "wfRecord i rec"
  shows "fst (reconcileForClaim rec) =
    sortAttempts (filter (\<lambda>a. a_Status a = AttemptStatusUnknown) (allAttempts (dropAllRunning rec)))"
  unfolding reconcileForClaim_wf [OF assms] allAttempts_def concat_filter_entries by simp

lemma dropAll_no_running:
  "a \<in> set (allAttempts (dropAllRunning rec)) \<Longrightarrow> a_Status a \<noteq> AttemptStatusRunning"
  by (auto simp: allAttempts_def)

lemma sorted_unique:
  assumes "sorted (map f xs)" and "mset xs = mset ys" and "distinct (map f ys)"
  shows "xs = sort_key f ys"
proof -
  have "inj_on f (set xs)" using assms(2,3) by (metis distinct_map mset_eq_setD)
  then have "sort_key f xs = sort_key f ys" using assms(2) by (rule sort_key_mset_eq [rotated])
  then show ?thesis using assms(1) by (metis sorted_sort_id sort_key_id_if_sorted)
qed


lemma reconcile_perm:
  assumes wf: "wfRecord i rec" and al: "mset al = mset (er_attempts rec)"
  shows "fst (reconcileForClaim (rec\<lparr>er_attempts := al\<rparr>)) = fst (reconcileForClaim rec)"
proof -
  let ?r = "rec\<lparr>er_attempts := al\<rparr>"
  have set: "set al = set (er_attempts rec)" using al by (metis mset_eq_setD)
  have "mset (map fst al) = mset (map fst (er_attempts rec))" using al by simp
  then have "distinct (map fst al)" using wf_distinct [OF wf] mset_eq_imp_distinct_iff by blast
  then have wf': "wfRecord i ?r"
    using wfRecordD [OF wf] set by (intro wfRecordI) (auto simp: allSlots_def list_all_iff hasUncertainAttempts_def list_ex_iff)
  have "mset (concat (map g al)) = mset (concat (map g (er_attempts rec)))" for g :: "string \<times> Attempt list \<Rightarrow> Attempt list"
    using al by (simp add: mset_concat sum_mset_sum_list [symmetric])
  then have m: "mset (filter P (allAttempts (dropAllRunning ?r))) = mset (filter P (allAttempts (dropAllRunning rec)))" for P
    by (simp add: allAttempts_def)
  have d: "distinct (map attemptKey (allAttempts (dropAllRunning ?r)))"
  proof -
    have "map attemptKey (allAttempts (dropAllRunning ?r)) = map attemptKey (allAttempts ?r)"
      by (simp add: allAttempts_def map_concat o_def split_def)
    then show ?thesis using wf_keys [OF wf'] by simp
  qed
  show ?thesis
    unfolding reconcileForClaim_unknown [OF wf] reconcileForClaim_unknown [OF wf'] sortAttempts_def
    using d by (intro sort_key_mset_eq [OF m]) (auto simp: distinct_map inj_on_def)
qed

text \<open>A successful finish, and what it leaves behind.\<close>

lemma finishBody_Inr:
  assumes wf: "wfRecord i rec" and f: "finishBody codec q rec now = (Inr e, rec')"
  shows "er_execution rec' = e \<and> terminal (e_Status e) \<and>
    er_finishes rec' ((lr_OwnerID (fx_Lease q), lr_Token (fx_Lease q)), fx_ExpectedVersion q, fx_ResultHash q) = Some e
    \<and> \<not> lr_Token (fx_Lease q) < er_nextToken rec'"
proof (cases "er_finishes rec ((lr_OwnerID (fx_Lease q), lr_Token (fx_Lease q)), fx_ExpectedVersion q, fx_ResultHash q)")
  case None
  then show ?thesis using f by (auto simp: finishBody_def Let_def split: if_splits option.splits)
next
  case (Some d)
  then have "d = e" "rec' = rec" "\<not> lr_Token (fx_Lease q) < er_nextToken rec"
    using f by (auto simp: finishBody_def Let_def split: if_splits)
  moreover have "d = er_execution rec" using wf_finishes [OF wf] ranI [of "er_finishes rec", OF Some] by blast
  moreover have "terminal (e_Status (er_execution rec))" using wf_unfinished [OF wf] Some by force
  ultimately show ?thesis using Some by simp
qed

lemma finishBody_replay:
  assumes "er_finishes rec ((lr_OwnerID (fx_Lease q), lr_Token (fx_Lease q)), fx_ExpectedVersion q, fx_ResultHash q) = Some e"
    and "\<not> lr_Token (fx_Lease q) < er_nextToken rec"
  shows "finishBody codec q rec now = (Inr e, rec)"
  using assms by (simp add: finishBody_def Let_def)

lemma FinishExecution_Inr:
  assumes "wfStore s" and "FinishExecution codec ctxErr clock q s = (Inr e, s')"
  obtains rec rec' where "st_executions s (fx_ExecutionID q) = Some rec" "wfRecord (fx_ExecutionID q) rec"
    "finishBody codec q rec (trustedNow clock s) = (Inr e, rec')"
    "s' = s\<lparr>st_executions := (st_executions s)(fx_ExecutionID q \<mapsto> rec')\<rparr>" "ctxErr = None"
    "\<not> invalidLeaseRef (fx_ExecutionID q) (fx_Lease q)" "HashResult codec (fx_Result q) = Some (fx_ResultHash q)"
proof -
  have w: "withRecord ctxErr clock (fx_ExecutionID q) [] (finishBody codec q) s = (Inr e, s')"
    and v: "\<not> invalidLeaseRef (fx_ExecutionID q) (fx_Lease q)" "HashResult codec (fx_Result q) = Some (fx_ResultHash q)"
    using assms(2) by (auto simp: FinishExecution_def split: if_splits option.splits)
  show thesis
  proof (cases rule: withRecord_cases [of ctxErr clock "fx_ExecutionID q" "[]" "finishBody codec q" s])
    case (found rec)
    then show thesis using w v assms(1) by (intro that) (auto simp: wfStore_def prod_eq_iff)
  qed (use w in simp)
qed

lemma FinishExecution_found:
  assumes "st_executions s (fx_ExecutionID q) = Some rec"
    and "\<not> invalidLeaseRef (fx_ExecutionID q) (fx_Lease q)" "HashResult codec (fx_Result q) = Some (fx_ResultHash q)"
    and "finishBody codec q rec (trustedNow clock s) = (Inr e, rec)"
  shows "FinishExecution codec None clock q s = (Inr e, s)"
  using assms by (simp add: FinishExecution_def withRecord_found fun_upd_idem)

text \<open>Starting an attempt.\<close>

lemma wfSlot_closed_prefix:
  assumes "wfSlot i l opn as" and "a \<in> set as" and "a \<noteq> last as"
  shows "a_Status a = AttemptStatusAbandoned"
proof -
  have "a \<in> set (butlast as)" using assms(1-3) by (cases as rule: rev_cases) (auto simp: wfSlot_def)
  then show ?thesis using assms(1) by (auto simp: wfSlot_def list_all_iff)
qed

lemma startAttemptBody_execute:
  assumes wf: "wfRecord i rec"
    and x: "startAttemptBody q rec now = (Inr started, rec')" "as_Decision started = AttemptDecisionExecute"
    and a: "a \<in> set (slotOf rec (sa_OperationID q))"
  shows "a_Status a = AttemptStatusAbandoned \<or> a_Status a = AttemptStatusRunning \<and> a_Lease a = Some (sa_Lease q)"
proof -
  have ne: "slotOf rec (sa_OperationID q) \<noteq> []" using a by auto
  note ws = wf_slot [OF wf ne]
  show ?thesis
  proof (cases "a = last (slotOf rec (sa_OperationID q))")
    case True
    then show ?thesis using x ne
      by (auto simp: startAttemptBody_def Let_def split: if_splits AttemptStatus.splits)
  qed (use wfSlot_closed_prefix [OF ws a] in simp)
qed

section \<open>A small history\<close>

text \<open>
  A codec and a history to evaluate the operations on: an execution is started by owner
  \<open>o\<close>, runs a model effect, loses its lease while a tool effect is running, and is resumed by
  owner \<open>p\<close>.
\<close>

definition demoCodec :: Codec where
  "demoCodec = \<lparr>js_valid = (\<lambda>_. True), js_marshalSpec = (\<lambda>_. Some ''s''),
     js_marshalResult = (\<lambda>_. Some ''r''), js_marshalWire = (\<lambda>_. Some ''w''),
     js_parse = (\<lambda>_. Some (JObject [])), js_print = (\<lambda>_. ''{}''), js_sha256 = (\<lambda>_. 7),
     js_cloneSpec = (\<lambda>x. x), js_cloneContinuation = (\<lambda>x. x), js_cloneResult = (\<lambda>x. x)\<rparr>"

definition demoStart :: StartExecutionRequest where
  "demoStart = \<lparr>sx_ExecutionID = ''x'', sx_OwnerID = ''o'', sx_ClaimID = 1, sx_LeaseTTL = 10,
     sx_Spec = \<lparr>es_Request = \<lparr>rq_Prompt = ''go'', rq_Budget = None\<rparr>, es_OutputPolicy = zeroPolicy\<rparr>,
     sx_SpecHash = 7\<rparr>"

definition demoRef :: LeaseRef where
  "demoRef = \<lparr>lr_OwnerID = ''o'', lr_Token = 1\<rparr>"

definition demoModel :: StartAttemptRequest where
  "demoModel = \<lparr>sa_ExecutionID = ''x'', sa_Lease = demoRef, sa_OperationID = ''m'',
     sa_Kind = AttemptKindModel, sa_InputHash = 5\<rparr>"

definition demoModelDone :: FinishAttemptRequest where
  "demoModelDone = \<lparr>fa_ExecutionID = ''x'', fa_Lease = demoRef, fa_OperationID = ''m'',
     fa_AttemptNumber = 1, fa_ExpectedAttemptVersion = 1, fa_Payload = ''p'', fa_Failure = None\<rparr>"

definition demoResume :: ResumeExecutionRequest where
  "demoResume = \<lparr>rx_ExecutionID = ''x'', rx_OwnerID = ''p'', rx_ClaimID = 2, rx_LeaseTTL = 10\<rparr>"

definition demoFinish :: FinishExecutionRequest where
  "demoFinish = \<lparr>fx_ExecutionID = ''x'', fx_Lease = demoRef, fx_ExpectedVersion = 1,
     fx_Result = zeroResult, fx_ResultHash = 7\<rparr>"

definition demoSettled :: "call list" where
  "demoSettled = [(None, 0, CmdStart demoStart), (None, 1, CmdStartAttempt demoModel),
     (None, 2, CmdFinishAttempt demoModelDone)]"

definition demoRunning :: "call list" where
  "demoRunning = demoSettled @
     [(None, 3, CmdStartAttempt (demoModel\<lparr>sa_OperationID := ''t'', sa_Kind := AttemptKindTool\<rparr>))]"

definition demoCrashed :: "call list" where
  "demoCrashed = demoRunning @ [(None, 20, CmdResume demoResume)]"

definition demoFinished :: "call list" where
  "demoFinished = demoSettled @ [(None, 4, CmdFinish demoFinish)]"

abbreviation demoRecord :: "call list \<Rightarrow> executionRecord" where
  "demoRecord calls \<equiv> the (st_executions (history demoCodec calls New) ''x'')"

section \<open>Properties\<close>

text \<open>
  C1. Every store that calls of the backend can produce, in any order and from any number of
  callers, satisfies the invariant: attempt slots are numbered from one with only the last
  attempt open, a running attempt carries the current lease, a lease carries the latest token
  and belongs to a running execution, and a terminal execution has a result, no lease and no
  uncertain attempt.
\<close>

theorem backend_invariant: "wfStore (history codec calls New)"
  by simp

text \<open>
  A call that returns an error changes nothing: the store after it is the store before it.
\<close>

theorem failed_call_changes_nothing:
  assumes "replyError codec call (history codec calls New) = Some err"
  shows "execute codec call (history codec calls New) = history codec calls New"
  using assms by (rule execute_error [OF reachable_wf])

text \<open>
  C2. Fencing: once a newer claim has advanced an execution's token past the token of a lease
  reference, every fenced command with that reference fails and changes nothing, then and
  after any later calls, as long as fewer than \<open>2 ^ 64\<close> calls are made in total.
\<close>

theorem stale_lease_fenced_forever:
  assumes "st_executions (history codec calls New) i = Some rec"
    and "lr_Token ref < er_nextToken rec"
    and "fenceOf cmd = Some ref" and "targetOf cmd = Some i"
    and "length calls + length later < 2 ^ 64"
  shows "(\<exists>err. replyError codec (ctxErr, clock, cmd) (history codec (calls @ later) New) = Some err)
    \<and> execute codec (ctxErr, clock, cmd) (history codec (calls @ later) New) = history codec (calls @ later) New"
proof -
  let ?s = "history codec calls New"
  obtain rec' where r: "st_executions (history codec later ?s) i = Some rec'"
    using history_step [OF reachable_wf assms(1)] by blast
  have "unat (er_nextToken rec) + length later < 2 ^ 64"
    using reachable_token [OF assms(1)] assms(5) by simp
  then have "lr_Token ref < er_nextToken rec'"
    using history_token [OF reachable_wf assms(1) r] assms(2) by simp
  moreover have "st_executions (history codec (calls @ later) New) i = Some rec'"
    using r by (simp add: history_append)
  ultimately obtain err where
    "replyError codec (ctxErr, clock, cmd) (history codec (calls @ later) New) = Some err"
    using stale_blocked [OF reachable_wf assms(3,4)] by blast
  then show ?thesis using execute_error [OF reachable_wf] by blast
qed

lemma stale_lease_fenced_forever_witness:
  "execute demoCodec (None, 21, CmdFinishAttempt (demoModelDone\<lparr>fa_OperationID := ''t''\<rparr>))
     (history demoCodec (demoCrashed @ []) New) = history demoCodec (demoCrashed @ []) New"
proof (rule conjunct2 [OF stale_lease_fenced_forever])
  show "st_executions (history demoCodec demoCrashed New) ''x'' = Some (demoRecord demoCrashed)"
    by (subst option.collapse) (code_simp, rule refl)
  show "lr_Token demoRef < er_nextToken (demoRecord demoCrashed)" by code_simp
  show "fenceOf (CmdFinishAttempt (demoModelDone\<lparr>fa_OperationID := ''t''\<rparr>)) = Some demoRef"
    by (simp add: demoModelDone_def)
  show "targetOf (CmdFinishAttempt (demoModelDone\<lparr>fa_OperationID := ''t''\<rparr>)) = Some ''x''"
    by (simp add: demoModelDone_def)
  show "length demoCrashed + length ([] :: call list) < 2 ^ 64" by (simp add: demoCrashed_def demoRunning_def demoSettled_def)
qed

text \<open>
  Exclusive leases: while a lease is unexpired on the backend's clock, a start or resume
  claim with another claim ID fails, so the holder, the token and the attempts stay as they are.
\<close>

theorem active_lease_excludes_claims:
  assumes "st_executions (history codec calls New) i = Some rec"
    and "e_Lease (er_execution rec) = Some lease"
    and "trustedNow clock (history codec calls New) < l_ExpiresAt lease"
    and "cmd = CmdStart q \<and> sx_ExecutionID q = i \<and> sx_ClaimID q \<noteq> l_ClaimID lease \<or>
         cmd = CmdResume r \<and> rx_ExecutionID r = i \<and> rx_ClaimID r \<noteq> l_ClaimID lease"
  shows "(\<exists>err. replyError codec (ctxErr, clock, cmd) (history codec calls New) = Some err)
    \<and> execute codec (ctxErr, clock, cmd) (history codec calls New) = history codec calls New"
proof -
  obtain err where "replyError codec (ctxErr, clock, cmd) (history codec calls New) = Some err"
    using claim_blocked [OF reachable_wf assms] by blast
  then show ?thesis using execute_error [OF reachable_wf] by blast
qed

text \<open>
  A terminal execution never changes again: whatever calls follow, its whole record
  (result, status, version, attempts and replay tables) stays as it was.
\<close>

theorem terminal_execution_immutable:
  assumes "st_executions (history codec calls New) i = Some rec"
    and "terminal (e_Status (er_execution rec))"
  shows "st_executions (history codec (calls @ later) New) i = Some rec"
  using history_step [OF reachable_wf assms(1), of codec later] assms(2)
  by (auto simp: recStep_def history_append)

text \<open>
  An attempt that has succeeded, failed or been abandoned is never altered or removed:
  after any later calls the same record of it is in the same slot.
\<close>

theorem closed_attempt_immutable:
  assumes "st_executions (history codec calls New) i = Some rec"
    and "attempt \<in> set (slotOf rec operation)"
    and "a_Status attempt \<noteq> AttemptStatusRunning" and "a_Status attempt \<noteq> AttemptStatusUnknown"
  shows "\<exists>rec'. st_executions (history codec (calls @ later) New) i = Some rec'
    \<and> attempt \<in> set (slotOf rec' operation)"
  using history_step [OF reachable_wf assms(1), of codec later] assms(2-4)
  unfolding history_append recStep_def attemptsKept_def evolves_def uncertainStatus_def by metis

text \<open>
  Checkpoints only move forward: after any later calls an execution that had a checkpoint
  has that checkpoint or one with a larger sequence number.
\<close>

theorem checkpoint_never_moves_back:
  assumes "st_executions (history codec calls New) i = Some rec"
    and "e_Checkpoint (er_execution rec) = Some checkpoint"
  shows "\<exists>rec' checkpoint'. st_executions (history codec (calls @ later) New) i = Some rec'
    \<and> e_Checkpoint (er_execution rec') = Some checkpoint'
    \<and> (checkpoint' = checkpoint \<or> ck_Sequence checkpoint < ck_Sequence checkpoint')"
  using history_step [OF reachable_wf assms(1), of codec later] assms(2)
  by (auto simp: recStep_def checkpointMono_def history_append split: option.splits)

text \<open>
  C16. Refinement: every call moves each execution along the abstract lifecycle (claim,
  checkpoint, suspend, release, finish) or leaves it where it is. A claim needs a non-terminal
  execution and takes the next token; every other move needs a holder.
\<close>

theorem backend_refines_lifecycle:
  assumes "st_executions (history codec calls New) i = Some rec"
  shows "\<exists>rec'. st_executions (execute codec call (history codec calls New)) i = Some rec'
    \<and> lifecycle (lifecycleOf rec) (lifecycleOf rec')"
  by (rule execute_lifecycle [OF reachable_wf assms])

lemma backend_refines_lifecycle_witness:
  "\<exists>rec'. st_executions (execute demoCodec (None, 4, CmdFinish demoFinish) (history demoCodec demoSettled New)) ''x'' = Some rec'
    \<and> lifecycle (lifecycleOf (demoRecord demoSettled)) (lifecycleOf rec')"
proof (rule backend_refines_lifecycle)
  show "st_executions (history demoCodec demoSettled New) ''x'' = Some (demoRecord demoSettled)"
    by (subst option.collapse) (code_simp, rule refl)
qed

text \<open>
  C4. A successful \<^verbatim>\<open>FinishExecution\<close> stores a terminal execution with a result, no lease and no
  running or unknown attempt, and it is idempotent for good: the same request repeated at any
  time after any other calls returns the same execution and changes nothing.
\<close>

theorem finish_settles_and_replays:
  assumes "FinishExecution codec ctxErr clock q (history codec calls New) = (Inr e, s')"
  shows "(\<exists>rec. st_executions s' (fx_ExecutionID q) = Some rec \<and> er_execution rec = e
      \<and> terminal (e_Status e) \<and> e_Result e \<noteq> None \<and> e_Lease e = None \<and> \<not> hasUncertainAttempts rec)
    \<and> FinishExecution codec None clock' q (history codec later s') = (Inr e, history codec later s')"
proof -
  let ?s = "history codec calls New"
  obtain rec rec' where r: "st_executions ?s (fx_ExecutionID q) = Some rec" "wfRecord (fx_ExecutionID q) rec"
    "finishBody codec q rec (trustedNow clock ?s) = (Inr e, rec')"
    "s' = ?s\<lparr>st_executions := (st_executions ?s)(fx_ExecutionID q \<mapsto> rec')\<rparr>" "ctxErr = None"
    "\<not> invalidLeaseRef (fx_ExecutionID q) (fx_Lease q)" "HashResult codec (fx_Result q) = Some (fx_ResultHash q)"
    by (rule FinishExecution_Inr [OF reachable_wf assms])
  note f = finishBody_Inr [OF r(2,3)]
  have wf': "wfRecord (fx_ExecutionID q) rec'" using finish.body_wf [OF r(2), of codec "trustedNow clock ?s"] r(3) by simp
  have st': "st_executions s' (fx_ExecutionID q) = Some rec'" by (simp add: r(4))
  have "s' = execute codec (None, clock, CmdFinish q) ?s" using assms r(5) by simp
  then have "wfStore s'" by (simp add: execute_wf del: execute.simps)
  then have "st_executions (history codec later s') (fx_ExecutionID q) = Some rec'"
    using history_step [OF _ st', of codec later] f by (auto simp: recStep_def)
  then have "FinishExecution codec None clock' q (history codec later s') = (Inr e, history codec later s')"
    using f r(6,7) by (intro FinishExecution_found finishBody_replay) auto
  then show ?thesis using st' f wf_result [OF wf'] wf_terminal [OF wf'] by auto
qed

lemma finish_settles_and_replays_witness:
  "FinishExecution demoCodec None 99 demoFinish (history demoCodec [(None, 5, CmdResume demoResume)] (history demoCodec demoFinished New))
     = (Inr (er_execution (demoRecord demoFinished)),
        history demoCodec [(None, 5, CmdResume demoResume)] (history demoCodec demoFinished New))"
proof (rule conjunct2 [OF finish_settles_and_replays])
  have "fst (FinishExecution demoCodec None 4 demoFinish (history demoCodec demoSettled New))
      = Inr (er_execution (demoRecord demoFinished))" by code_simp
  moreover have "snd (FinishExecution demoCodec None 4 demoFinish (history demoCodec demoSettled New))
      = history demoCodec demoFinished New" by (simp add: demoFinished_def history_append)
  ultimately show "FinishExecution demoCodec None 4 demoFinish (history demoCodec demoSettled New)
      = (Inr (er_execution (demoRecord demoFinished)), history demoCodec demoFinished New)"
    by (simp add: prod_eq_iff)
qed

text \<open>
  C3. No effect is executed twice: \<^verbatim>\<open>StartAttempt\<close> answers \<^verbatim>\<open>execute\<close> only when every earlier
  attempt of the slot has been abandoned, except for an attempt the same lease already has
  running, and the attempt it returns is running under the caller's lease.
\<close>

theorem start_attempt_executes_once:
  assumes "st_executions (history codec calls New) (sa_ExecutionID q) = Some rec"
    and "StartAttempt ctxErr clock q (history codec calls New) = (Inr started, s')"
    and "as_Decision started = AttemptDecisionExecute"
  shows "(\<forall>attempt \<in> set (slotOf rec (sa_OperationID q)).
      a_Status attempt = AttemptStatusAbandoned \<or>
      a_Status attempt = AttemptStatusRunning \<and> a_Lease attempt = Some (sa_Lease q))
    \<and> a_Status (as_Attempt started) = AttemptStatusRunning
    \<and> a_Lease (as_Attempt started) = Some (sa_Lease q)"
proof -
  let ?s = "history codec calls New"
  have wf: "wfRecord (sa_ExecutionID q) rec" using assms(1) by (rule reachable_record)
  have "fst (withRecord ctxErr clock (sa_ExecutionID q) (sa_OperationID q) (startAttemptBody q) ?s) = Inr started"
    using assms(2) by (auto simp: StartAttempt_def split: if_splits)
  then obtain rec' where b: "startAttemptBody q rec (trustedNow clock ?s) = (Inr started, rec')"
    using assms(1) by (auto simp: withRecord_def Let_def split: option.splits prod.splits if_splits)
  have "a_Status (as_Attempt started) = AttemptStatusRunning \<and> a_Lease (as_Attempt started) = Some (sa_Lease q)"
    using b assms(3)
    by (auto simp: startAttemptBody_def Let_def newAttempt_def split: if_splits AttemptStatus.splits)
  then show ?thesis using startAttemptBody_execute [OF wf b assms(3)] by blast
qed

lemma start_attempt_executes_once_witness:
  "a_Lease (as_Attempt \<lparr>as_Attempt = newAttempt demoModel 1, as_Decision = AttemptDecisionExecute\<rparr>) = Some demoRef"
proof -
  let ?s = "history demoCodec [(None, 0, CmdStart demoStart)] New"
  have r: "st_executions ?s (sa_ExecutionID demoModel) = Some (demoRecord [(None, 0, CmdStart demoStart)])"
    by (subst option.collapse) (code_simp, simp add: demoModel_def)
  have "fst (StartAttempt None 1 demoModel ?s) = Inr \<lparr>as_Attempt = newAttempt demoModel 1, as_Decision = AttemptDecisionExecute\<rparr>"
    by code_simp
  then have e: "StartAttempt None 1 demoModel ?s =
      (Inr \<lparr>as_Attempt = newAttempt demoModel 1, as_Decision = AttemptDecisionExecute\<rparr>, snd (StartAttempt None 1 demoModel ?s))"
    by (simp add: prod_eq_iff)
  show ?thesis using start_attempt_executes_once [OF r e] by (simp add: demoModel_def)
qed

text \<open>
  Exact replay of a claim: after \<^verbatim>\<open>ResumeExecution\<close> succeeds, the same request sent again while
  its lease is unexpired (or the execution is terminal) returns the same result, including the
  attempts to reconcile, and changes nothing.
\<close>

theorem resume_claim_replays:
  assumes "ResumeExecution ctxErr clock q (history codec calls New) = (Inr result, s')"
    and "st_executions s' (rx_ExecutionID q) = Some rec'"
    and "leaseActive (e_Lease (er_execution rec')) (trustedNow clock' s')
         \<or> terminal (e_Status (er_execution rec'))"
  shows "ResumeExecution None clock' q s' = (Inr result, s')"
proof -
  let ?s = "history codec calls New" and ?i = "rx_ExecutionID q"
  have v: "validExecutionID ?i" "validLeaseInput (rx_OwnerID q) (rx_ClaimID q) (rx_LeaseTTL q)"
    and w: "withRecord ctxErr clock ?i [] (resumeBody q) ?s = (Inr result, s')"
    using assms(1) by (auto simp: ResumeExecution_def split: if_splits)
  show ?thesis
  proof (cases rule: withRecord_cases [of ctxErr clock ?i "[]" "resumeBody q" ?s])
    case (found rec)
    have b: "resumeBody q rec (trustedNow clock ?s) = (Inr result, rec')" "s' = ?s\<lparr>st_executions := (st_executions ?s)(?i \<mapsto> rec')\<rparr>"
      using w found assms(2) by (auto simp: prod_eq_iff)
    have "resumeBody q rec' (trustedNow clock' s') = (Inr result, rec')"
      by (rule resumeBody_replay [OF reachable_record [OF found(2)] b(1) assms(3)])
    then show ?thesis using v assms(2) by (simp add: ResumeExecution_def withRecord_found fun_upd_idem)
  qed (use w in simp)
qed

text \<open>
  A claim that takes an execution over leaves no attempt running and reports exactly the
  unknown attempts of the new state, each once, ordered by operation and number, whatever
  order the attempt map is iterated in: any list with the same entries gives the same report,
  and it is the only sorted arrangement of those attempts.
\<close>

theorem claim_reports_uncertain_attempts:
  assumes "st_executions (history codec calls New) i = Some rec"
  shows "let (reconcile, rec') = grantLease rec owner claim ttl now in
      (\<forall>attempt \<in> set (allAttempts rec'). a_Status attempt \<noteq> AttemptStatusRunning)
    \<and> set reconcile = {attempt \<in> set (allAttempts rec'). a_Status attempt = AttemptStatusUnknown}
    \<and> distinct reconcile \<and> sorted (map attemptKey reconcile)
    \<and> (\<forall>entries. mset entries = mset (er_attempts rec) \<longrightarrow>
         fst (grantLease (rec\<lparr>er_attempts := entries\<rparr>) owner claim ttl now) = reconcile)
    \<and> (\<forall>other. mset other = mset reconcile \<and> sorted (map attemptKey other) \<longrightarrow> other = reconcile)"
proof -
  have wf: "wfRecord i rec" using assms by (rule reachable_record)
  obtain reconcile rec' where g: "grantLease rec owner claim ttl now = (reconcile, rec')"
    by (cases "grantLease rec owner claim ttl now")
  note rec' = grantLease_wf(1) [OF wf g]
  have all: "allAttempts rec' = allAttempts (dropAllRunning rec)" by (simp add: rec' allAttempts_def)
  have rc: "reconcile = sortAttempts (filter (\<lambda>a. a_Status a = AttemptStatusUnknown) (allAttempts rec'))"
    using grantLease_wf(2) [OF wf g] reconcileForClaim_unknown [OF wf] all by simp
  have keys: "map attemptKey (allAttempts rec') = map attemptKey (allAttempts rec)"
    unfolding all by (simp add: allAttempts_def map_concat o_def split_def)
  have d: "distinct (map attemptKey (allAttempts rec'))" unfolding keys by (rule wf_keys [OF wf])
  have dr: "distinct (map attemptKey reconcile)"
    using distinct_map_filter [OF d] by (simp add: rc sortAttempts_def distinct_map)
  have perm: "fst (grantLease (rec\<lparr>er_attempts := entries\<rparr>) owner claim ttl now) = reconcile"
    if "mset entries = mset (er_attempts rec)" for entries
    using reconcile_perm [OF wf that] grantLease_wf(2) [OF wf g] by (simp add: grantLease_def split_def Let_def)
  have uniq: "other = reconcile" if "mset other = mset reconcile" "sorted (map attemptKey other)" for other
  proof -
    have "other = sort_key attemptKey reconcile" by (rule sorted_unique [OF that(2,1) dr])
    also have "\<dots> = reconcile" by (simp add: rc sortAttempts_def sort_key_id_if_sorted)
    finally show ?thesis .
  qed
  have "distinct reconcile" using dr by (simp add: distinct_map)
  then show ?thesis
    using dropAll_no_running perm uniq by (auto simp: g rc sortAttempts_def all)
qed

end
