(* ===== verification/Durable_Codec.thy ===== *)
theory Durable_Codec
  imports Test_Backend Tool_Interceptor Provider_Normalize
begin

text \<open>
  The errors of the durable runtime (\<^verbatim>\<open>src/durable/runtime.go\<close>, \<^verbatim>\<open>errors.go\<close>) and the envelopes in which it
  records the effects of an execution (\<^verbatim>\<open>src/durable/codec.go\<close>). The JSON codec is the argument \<open>EffectCodec\<close>.
\<close>

section \<open>Errors\<close>

datatype backendFault = Answered durableError | Transport goError

record ResumeTarget =
  rt_CheckpointSequence :: uint64
  rt_Phase :: ContinuationPhase
  rt_OperationID :: string

text \<open>
  \<open>EffectError\<close> is an error of the provider, the tool, the codec or a plain text; \<open>EventsInvalid\<close> one of the
  provider's normalization; \<open>FailureError\<close> an \<^verbatim>\<open>agent.AgentFailure\<close> with its cause; \<open>OfExecution\<close> and \<open>OfAttempt\<close>
  are \<^verbatim>\<open>ExecutionError\<close> and \<^verbatim>\<open>AttemptError\<close> around an error of the runtime; \<open>RuntimeJoin\<close> is the result of
  \<^verbatim>\<open>errors.Join\<close>.
\<close>

datatype runtimeError =
    BackendCallError string backendFault
  | RuntimeCallError string runtimeError
  | DurableError durableError
  | OfExecution ExecutionID runtimeError
  | OfAttempt ExecutionID string int runtimeError
  | ReconcileRequired Execution "Attempt list"
  | ResumeTargetError ExecutionID ResumeTarget ResumeTarget "string list"
  | FailureError AgentFailure "runtimeError option"
  | EffectError goError
  | EventsInvalid normalizeError
  | RuntimeJoin "runtimeError list"

fun joinErrors :: "runtimeError option list \<Rightarrow> runtimeError option" where
  "joinErrors errs =
     (let present = map the (filter (\<lambda>e. e \<noteq> None) errs) in if present = [] then None else Some (RuntimeJoin present))"

definition backendOperationError :: "string \<Rightarrow> backendFault \<Rightarrow> runtimeError" where
  "backendOperationError operation fault = BackendCallError operation fault"

definition runtimeOperationError :: "string \<Rightarrow> runtimeError \<Rightarrow> runtimeError" where
  "runtimeOperationError operation err = RuntimeCallError operation err"

definition executionRuntimeError :: "ExecutionID \<Rightarrow> durableError \<Rightarrow> runtimeError" where
  "executionRuntimeError executionID err = DurableError (ExecutionError executionID err)"

definition attemptRuntimeError :: "ExecutionID \<Rightarrow> string \<Rightarrow> int \<Rightarrow> durableError \<Rightarrow> runtimeError" where
  "attemptRuntimeError executionID operationID number err = DurableError (AttemptError executionID operationID number err)"

text \<open>\<^verbatim>\<open>errors.Is\<close> on the errors of the runtime, for any test of the underlying Go error.\<close>

fun goCause :: "durableError \<Rightarrow> goError option" where
  "goCause (ContextError err) = Some err"
| "goCause (Annotated _ err) = goCause err"
| "goCause (JoinedContinuation err _) = goCause err"
| "goCause (ExecutionError _ err) = goCause err"
| "goCause (AttemptError _ _ _ err) = goCause err"
| "goCause _ = None"

fun isGo :: "(goError \<Rightarrow> bool) \<Rightarrow> runtimeError \<Rightarrow> bool" where
  "isGo P (BackendCallError _ (Transport err)) \<longleftrightarrow> P err"
| "isGo P (BackendCallError _ (Answered err)) \<longleftrightarrow> (case goCause err of None \<Rightarrow> False | Some cause \<Rightarrow> P cause)"
| "isGo P (RuntimeCallError _ err) \<longleftrightarrow> isGo P err"
| "isGo P (DurableError err) \<longleftrightarrow> (case goCause err of None \<Rightarrow> False | Some cause \<Rightarrow> P cause)"
| "isGo P (OfExecution _ err) \<longleftrightarrow> isGo P err"
| "isGo P (OfAttempt _ _ _ err) \<longleftrightarrow> isGo P err"
| "isGo P (ReconcileRequired _ _) \<longleftrightarrow> False"
| "isGo P (ResumeTargetError _ _ _ _) \<longleftrightarrow> False"
| "isGo P (FailureError _ cause) \<longleftrightarrow> (case cause of None \<Rightarrow> False | Some err \<Rightarrow> isGo P err)"
| "isGo P (EffectError err) \<longleftrightarrow> P err"
| "isGo P (EventsInvalid (StreamEventError err)) \<longleftrightarrow> P err"
| "isGo P (EventsInvalid _) \<longleftrightarrow> False"
| "isGo P (RuntimeJoin errs) \<longleftrightarrow> list_ex (isGo P) errs"

fun isDurable :: "durableError \<Rightarrow> runtimeError \<Rightarrow> bool" where
  "isDurable sentinel (BackendCallError _ (Answered err)) \<longleftrightarrow> sentinelOf err = sentinel"
| "isDurable sentinel (RuntimeCallError _ err) \<longleftrightarrow> isDurable sentinel err"
| "isDurable sentinel (DurableError err) \<longleftrightarrow> sentinelOf err = sentinel"
| "isDurable sentinel (OfExecution _ err) \<longleftrightarrow> isDurable sentinel err"
| "isDurable sentinel (OfAttempt _ _ _ err) \<longleftrightarrow> isDurable sentinel err"
| "isDurable sentinel (ReconcileRequired _ _) \<longleftrightarrow> sentinel = ErrReconcileRequired"
| "isDurable sentinel (ResumeTargetError _ _ _ _) \<longleftrightarrow> sentinel = ErrResumeTargetMismatch"
| "isDurable sentinel (FailureError _ cause) \<longleftrightarrow> (case cause of None \<Rightarrow> False | Some err \<Rightarrow> isDurable sentinel err)"
| "isDurable sentinel (RuntimeJoin errs) \<longleftrightarrow> list_ex (isDurable sentinel) errs"
| "isDurable sentinel _ \<longleftrightarrow> False"

fun isCanceled :: "goError \<Rightarrow> bool" where
  "isCanceled ContextCanceled = True"
| "isCanceled (PartialStreamError cause) = isCanceled cause"
| "isCanceled (Wrapped _ cause) = isCanceled cause"
| "isCanceled (UrlError (Some cause)) = isCanceled cause"
| "isCanceled (NetOpError (Some cause)) = isCanceled cause"
| "isCanceled (JoinError causes) = list_ex isCanceled causes"
| "isCanceled _ = False"

section \<open>Envelopes\<close>

definition attemptEnvelopeVersion :: int where
  "attemptEnvelopeVersion = 1"

record storedProviderEvent =
  se_Event :: Event
  se_Failure :: "FailureRecord option"

record modelAttemptEnvelope =
  me_Version :: int
  me_Events :: "storedProviderEvent list"
  me_Failure :: "FailureRecord option"

record toolAttemptEnvelope =
  te_Version :: int
  te_Result :: ToolResult
  te_Failure :: "FailureRecord option"

text \<open>
  The codec: \<^verbatim>\<open>json.Marshal\<close> and \<^verbatim>\<open>json.Unmarshal\<close> of the two envelopes and of what is hashed of a tool call,
  and the \<^verbatim>\<open>Error\<close> method.
\<close>

record EffectCodec =
  ec_codec :: Codec
  ec_marshalToolInput :: "string \<Rightarrow> bytes \<Rightarrow> bytes option"
  ec_marshalTool :: "toolAttemptEnvelope \<Rightarrow> goError + bytes"
  ec_unmarshalTool :: "bytes \<Rightarrow> goError + toolAttemptEnvelope"
  ec_marshalModel :: "modelAttemptEnvelope \<Rightarrow> goError + bytes"
  ec_unmarshalModel :: "bytes \<Rightarrow> goError + modelAttemptEnvelope"
  ec_errorText :: "runtimeError \<Rightarrow> string"

definition failureFromError :: "EffectCodec \<Rightarrow> runtimeError \<Rightarrow> FailureRecord" where
  "failureFromError ec err =
     \<lparr>fr_Code = (if isGo (isSentinel ''provider.ErrNotStarted'') err then ''provider_not_started''
                 else if isGo (isSentinel ''tool.ErrNotExecuted'') err then ''tool_not_executed''
                 else if isGo isCanceled err then ''context_canceled''
                 else if isGo isDeadline err then ''deadline_exceeded''
                 else ''error''),
      fr_Message = ec_errorText ec err\<rparr>"

text \<open>\<^verbatim>\<open>recordedFailureError\<close> with its \<^verbatim>\<open>Error\<close> and \<^verbatim>\<open>Unwrap\<close> methods, as the Go error it is.\<close>

definition recordedFailureError :: "FailureRecord \<Rightarrow> goError" where
  "recordedFailureError failure =
     (let text0 = (if fr_Message failure \<noteq> [] then fr_Message failure else fr_Code failure)
      in if fr_Code failure = ''provider_not_started'' then Wrapped text0 (SentinelError ''provider.ErrNotStarted'')
         else if fr_Code failure = ''tool_not_executed'' then Wrapped text0 (SentinelError ''tool.ErrNotExecuted'')
         else if fr_Code failure = ''context_canceled'' then Wrapped text0 ContextCanceled
         else if fr_Code failure = ''deadline_exceeded'' then Wrapped text0 ContextDeadlineExceeded
         else TextError text0)"

definition modelEnvelope :: "EffectCodec \<Rightarrow> Event list \<Rightarrow> FailureRecord option \<Rightarrow> modelAttemptEnvelope" where
  "modelEnvelope ec events failure =
     \<lparr>me_Version = attemptEnvelopeVersion,
      me_Events = map (\<lambda>event. \<lparr>se_Event = event\<lparr>ev_Err := None\<rparr>,
        se_Failure = map_option (failureFromError ec \<circ> EffectError) (ev_Err event)\<rparr>) events,
      me_Failure = failure\<rparr>"

definition encodeModelAttempt :: "EffectCodec \<Rightarrow> Event list \<Rightarrow> FailureRecord option \<Rightarrow> runtimeError + bytes" where
  "encodeModelAttempt ec events failure =
     map_sum (EffectError \<circ> Wrapped ''encode model attempt'') id (ec_marshalModel ec (modelEnvelope ec events failure))"

definition decodeModelAttempt :: "EffectCodec \<Rightarrow> bytes \<Rightarrow> runtimeError + Event list \<times> FailureRecord option" where
  "decodeModelAttempt ec payload =
     (case ec_unmarshalModel ec payload of
        Inl err \<Rightarrow> Inl (EffectError (Wrapped ''decode model attempt'' err))
      | Inr envelope \<Rightarrow>
          if me_Version envelope \<noteq> attemptEnvelopeVersion
          then Inl (EffectError (TextError ''unsupported model attempt envelope version''))
          else Inr (map (\<lambda>stored. case se_Failure stored of
                             None \<Rightarrow> se_Event stored
                           | Some failure \<Rightarrow> (se_Event stored)\<lparr>ev_Err := Some (recordedFailureError failure)\<rparr>)
                      (me_Events envelope), me_Failure envelope))"

definition encodeToolAttempt :: "EffectCodec \<Rightarrow> ToolResult \<Rightarrow> FailureRecord option \<Rightarrow> runtimeError + bytes" where
  "encodeToolAttempt ec result failure =
     map_sum (EffectError \<circ> Wrapped ''encode tool attempt'') id
       (ec_marshalTool ec \<lparr>te_Version = attemptEnvelopeVersion, te_Result = result, te_Failure = failure\<rparr>)"

definition decodeToolAttempt :: "EffectCodec \<Rightarrow> bytes \<Rightarrow> runtimeError + ToolResult \<times> FailureRecord option" where
  "decodeToolAttempt ec payload =
     (case ec_unmarshalTool ec payload of
        Inl err \<Rightarrow> Inl (EffectError (Wrapped ''decode tool attempt'' err))
      | Inr envelope \<Rightarrow>
          if te_Version envelope \<noteq> attemptEnvelopeVersion
          then Inl (EffectError (TextError ''unsupported tool attempt envelope version''))
          else Inr (te_Result envelope, te_Failure envelope))"

definition validateSuccessfulModelEvents :: "EffectCodec \<Rightarrow> Event list \<Rightarrow> runtimeError option" where
  "validateSuccessfulModelEvents ec events =
     (if events = [] \<or> ev_Kind (last events) \<noteq> EventDone
      then Some (EffectError (TextError ''successful model reconciliation requires a final done event''))
      else case NormalizeEvents (js_valid (ec_codec ec)) events of Inl err \<Rightarrow> Some (EventsInvalid err) | Inr _ \<Rightarrow> None)"

text \<open>The loop of \<^verbatim>\<open>validateFailedModelEvents\<close>: the index and kind of the first terminal event.\<close>

fun firstTerminal :: "nat \<Rightarrow> Event list \<Rightarrow> (nat \<times> Event) option" where
  "firstTerminal index [] = None"
| "firstTerminal index (event # events) =
     (if ev_Kind event \<noteq> EventDone \<and> ev_Kind event \<noteq> EventError then firstTerminal (Suc index) events
      else Some (index, event))"

definition validateFailedModelEvents :: "EffectCodec \<Rightarrow> Event list \<Rightarrow> runtimeError option" where
  "validateFailedModelEvents ec events =
     (let partial = (\<lambda>prefix. case NormalizePartialEvents (js_valid (ec_codec ec)) prefix of
                      Inl err \<Rightarrow> Some (EventsInvalid err) | Inr _ \<Rightarrow> None)
      in if events = [] then None
         else case firstTerminal 0 events of
           None \<Rightarrow> partial events
         | Some (index, event) \<Rightarrow>
             if index \<noteq> length events - 1 then Some (EffectError (SentinelError ''provider.ErrEventAfterTerminal''))
             else if ev_Kind event = EventDone
             then Some (EffectError (TextError ''failed model reconciliation cannot contain a done event''))
             else partial (take index events))"

end
