(* ===== verification/Durable_Effects.thy ===== *)
theory Durable_Effects
  imports Durable_Codec
begin

text \<open>
  How the durable runtime wraps the effects of an execution: the state of one active execution
  (\<^verbatim>\<open>src/durable/active.go\<close>), the tool and model interceptors and the recorded model stream
  (\<^verbatim>\<open>src/durable/interceptor.go\<close>).

  The backend is the modelled store. A call reaches it over a \<open>wire\<close>: the context error and the clock it
  observes, an error that keeps it from reaching the backend at all, and an error that loses the reply of
  a call the backend has carried out. What other callers do to the backend while an effect runs is a list
  of calls, \<open>meanwhile\<close>; \<open>drift\<close> is what heartbeats and stop requests have done to the active execution by
  the time the effect is settled.
\<close>

section \<open>Calls of the backend\<close>

record wire =
  wi_ctxErr :: "durableError option"
  wi_clock :: instant
  wi_down :: "goError option"
  wi_lost :: "goError option"

definition callBackend ::
    "wire \<Rightarrow> (durableError option \<Rightarrow> instant \<Rightarrow> store \<Rightarrow> 'a reply \<times> store) \<Rightarrow> store \<Rightarrow> (backendFault + 'a) \<times> store" where
  "callBackend w operation s =
     (case wi_down w of
        Some err \<Rightarrow> (Inl (Transport err), s)
      | None \<Rightarrow>
          (case operation (wi_ctxErr w) (wi_clock w) s of
             (reply, s1) \<Rightarrow>
               (case wi_lost w of
                  Some err \<Rightarrow> (Inl (Transport err), s1)
                | None \<Rightarrow> (map_sum Answered id reply, s1))))"

section \<open>An active execution\<close>

text \<open>
  \<open>ac_callerErr\<close> is \<^verbatim>\<open>callerCtx.Err()\<close>, \<open>ac_cause\<close> the cause of the execution's own context once it is done,
  \<open>ac_effects\<close> the count of the wait group.
\<close>

record activeExecution =
  ac_id :: ExecutionID
  ac_callerErr :: "goError option"
  ac_cause :: "runtimeError option"
  ac_execution :: Execution
  ac_stopping :: bool
  ac_stopCause :: "runtimeError option"
  ac_suspendRequested :: bool
  ac_heartbeatErr :: "runtimeError option"
  ac_controlErr :: "runtimeError option"
  ac_effects :: nat

definition zeroExecution :: Execution where
  "zeroExecution = \<lparr>e_ID = [], e_Spec = \<lparr>es_Request = \<lparr>rq_Prompt = [], rq_Budget = None\<rparr>, es_OutputPolicy = zeroPolicy\<rparr>,
     e_SpecHash = 0, e_Status = ExecutionStatusOther [], e_Version = 0, e_Lease = None, e_Checkpoint = None,
     e_Result = None, e_ResultHash = 0\<rparr>"

definition newActiveExecution :: "goError option \<Rightarrow> ExecutionID \<Rightarrow> activeExecution" where
  "newActiveExecution callerErr executionID =
     \<lparr>ac_id = executionID, ac_callerErr = callerErr, ac_cause = map_option EffectError callerErr,
      ac_execution = zeroExecution, ac_stopping = False, ac_stopCause = None, ac_suspendRequested = False,
      ac_heartbeatErr = None, ac_controlErr = None, ac_effects = 0\<rparr>"

definition setExecution :: "Execution \<Rightarrow> activeExecution \<Rightarrow> activeExecution" where
  "setExecution execution active = active\<lparr>ac_execution := execution\<rparr>"

definition updateLease :: "Lease \<Rightarrow> activeExecution \<Rightarrow> activeExecution" where
  "updateLease lease active =
     (case e_Lease (ac_execution active) of
        None \<Rightarrow> active
      | Some held \<Rightarrow>
          if l_OwnerID held = l_OwnerID lease \<and> l_Token held = l_Token lease
          then active\<lparr>ac_execution := (ac_execution active)\<lparr>e_Lease := Some lease\<rparr>\<rparr> else active)"

definition cancelCause :: "runtimeError \<Rightarrow> activeExecution \<Rightarrow> activeExecution" where
  "cancelCause cause active = active\<lparr>ac_cause := (case ac_cause active of None \<Rightarrow> Some cause | Some first \<Rightarrow> Some first)\<rparr>"

definition beginEffect :: "activeExecution \<Rightarrow> runtimeError option \<times> activeExecution" where
  "beginEffect active =
     (if ac_stopping active
      then (Some (case ac_stopCause active of Some cause \<Rightarrow> cause | None \<Rightarrow> EffectError ContextCanceled), active)
      else case ac_cause active of
        Some cause \<Rightarrow> (Some cause, active)
      | None \<Rightarrow> (None, active\<lparr>ac_effects := ac_effects active + 1\<rparr>))"

definition endEffect :: "activeExecution \<Rightarrow> activeExecution" where
  "endEffect active = active\<lparr>ac_effects := ac_effects active - 1\<rparr>"

definition requestStop :: "runtimeError \<Rightarrow> activeExecution \<Rightarrow> activeExecution \<times> bool" where
  "requestStop cause active =
     (if ac_stopCause active \<noteq> None then (active, False)
      else (cancelCause cause (active\<lparr>ac_stopping := True, ac_stopCause := Some cause\<rparr>), True))"

definition requestSuspend :: "activeExecution \<Rightarrow> runtimeError option \<times> activeExecution" where
  "requestSuspend active =
     (if ac_suspendRequested active \<or> ac_stopCause active \<noteq> None
      then (Some (executionRuntimeError (ac_id active) ErrBusy), active)
      else (None, cancelCause (DurableError ErrSuspended)
              (active\<lparr>ac_suspendRequested := True, ac_stopping := True, ac_stopCause := Some (DurableError ErrSuspended)\<rparr>)))"

definition recordHeartbeatError :: "runtimeError \<Rightarrow> activeExecution \<Rightarrow> activeExecution" where
  "recordHeartbeatError err active =
     cancelCause err
       (let noted = (if ac_heartbeatErr active = None then active\<lparr>ac_heartbeatErr := Some err\<rparr> else active)
        in if ac_stopCause noted = None then noted\<lparr>ac_stopping := True, ac_stopCause := Some err\<rparr> else noted)"

definition stopNewEffects :: "activeExecution \<Rightarrow> activeExecution" where
  "stopNewEffects active = active\<lparr>ac_stopping := True\<rparr>"

definition leaseReference :: "Lease \<Rightarrow> LeaseRef" where
  "leaseReference lease = \<lparr>lr_OwnerID = l_OwnerID lease, lr_Token = l_Token lease\<rparr>"

text \<open>One tick of the heartbeat; the flag tells whether it goes on.\<close>

definition heartbeatTick :: "wire \<Rightarrow> duration \<Rightarrow> activeExecution \<Rightarrow> store \<Rightarrow> activeExecution \<times> store \<times> bool" where
  "heartbeatTick w leaseTTL active s =
     (case e_Lease (ac_execution active) of
        None \<Rightarrow> (active, s, False)
      | Some lease \<Rightarrow>
          (case callBackend w (\<lambda>ctxErr clock. RenewExecution ctxErr clock
                  \<lparr>nx_ExecutionID = ac_id active, nx_Lease = leaseReference lease, nx_LeaseTTL = leaseTTL\<rparr>) s of
             (Inl fault, s1) \<Rightarrow> (recordHeartbeatError (backendOperationError ''renew execution'' fault) active, s1, False)
           | (Inr renewed, s1) \<Rightarrow> (updateLease renewed active, s1, True)))"

definition reconcileError :: "activeExecution \<Rightarrow> Attempt list \<Rightarrow> runtimeError" where
  "reconcileError active attempts = ReconcileRequired (ac_execution active) attempts"

section \<open>Starting and settling an attempt\<close>

definition settleRequest ::
    "activeExecution \<Rightarrow> Lease \<Rightarrow> Attempt \<Rightarrow> bytes \<Rightarrow> FailureRecord option \<Rightarrow> FinishAttemptRequest" where
  "settleRequest active lease attempt payload failure =
     \<lparr>fa_ExecutionID = ac_id active, fa_Lease = leaseReference lease, fa_OperationID = a_OperationID attempt,
      fa_AttemptNumber = a_Number attempt, fa_ExpectedAttemptVersion = a_Version attempt, fa_Payload = payload,
      fa_Failure = failure\<rparr>"

definition startRequest :: "activeExecution \<Rightarrow> Lease \<Rightarrow> string \<Rightarrow> AttemptKind \<Rightarrow> hash \<Rightarrow> StartAttemptRequest" where
  "startRequest active lease operationID kind inputHash =
     \<lparr>sa_ExecutionID = ac_id active, sa_Lease = leaseReference lease, sa_OperationID = operationID, sa_Kind = kind,
      sa_InputHash = inputHash\<rparr>"

definition finishAttempt ::
    "wire \<Rightarrow> activeExecution \<Rightarrow> Attempt \<Rightarrow> bytes \<Rightarrow> FailureRecord option \<Rightarrow> store \<Rightarrow> runtimeError option \<times> store" where
  "finishAttempt w active attempt payload failure s =
     (case e_Lease (ac_execution active) of
        None \<Rightarrow> (Some (executionRuntimeError (ac_id active) ErrLeaseLost), s)
      | Some lease \<Rightarrow>
          (case callBackend w (\<lambda>ctxErr clock. FinishAttempt ctxErr clock (settleRequest active lease attempt payload failure)) s of
             (Inl fault, s1) \<Rightarrow> (Some (backendOperationError ''finish attempt'' fault), s1)
           | (Inr _, s1) \<Rightarrow> (None, s1)))"

definition markAttemptUnknown ::
    "wire \<Rightarrow> activeExecution \<Rightarrow> Attempt \<Rightarrow> bytes \<Rightarrow> FailureRecord option \<Rightarrow> store
       \<Rightarrow> (runtimeError + Attempt) \<times> store" where
  "markAttemptUnknown w active attempt payload failure s =
     (case e_Lease (ac_execution active) of
        None \<Rightarrow> (Inl (executionRuntimeError (ac_id active) ErrLeaseLost), s)
      | Some lease \<Rightarrow>
          (case callBackend w (\<lambda>ctxErr clock. MarkAttemptUnknown ctxErr clock (settleRequest active lease attempt payload failure)) s of
             (Inl fault, s1) \<Rightarrow> (Inl (backendOperationError ''mark attempt unknown'' fault), s1)
           | (Inr unknown, s1) \<Rightarrow> (Inr unknown, s1)))"

section \<open>The tool interceptor\<close>

definition toolInputHash :: "EffectCodec \<Rightarrow> ToolCall \<Rightarrow> hash option" where
  "toolInputHash ec call = canonicalJSONHash (ec_codec ec) (ec_marshalToolInput ec (tc_Name call) (tc_Arguments call))"

definition panicRecovered :: "string \<Rightarrow> string \<Rightarrow> runtimeError" where
  "panicRecovered operation reason =
     runtimeOperationError operation (EffectError (Wrapped reason (SentinelError ''agent.ErrPanicRecovered'')))"

text \<open>\<^verbatim>\<open>executeToolDriver\<close>: a panic of the driver is recovered.\<close>

definition executeToolDriver :: "execOutcome \<Rightarrow> ToolResult \<times> runtimeError option" where
  "executeToolDriver outcome =
     (case outcome of
        Returned result err \<Rightarrow> (result, map_option EffectError err)
      | Panicked reason \<Rightarrow> (zeroToolResult, Some (panicRecovered ''execute tool'' reason)))"

text \<open>
  What an intercepted call leaves: the attempt under which the driver ran, if it did, the active execution, the store,
  the calls that reached the driver, the answer.
\<close>

record toolRun =
  tn_attempt :: "Attempt option"
  tn_active :: activeExecution
  tn_store :: store
  tn_reached :: "ToolCall list"
  tn_result :: ToolResult
  tn_err :: "runtimeError option"

text \<open>Everything after the driver has returned.\<close>

definition toolAttemptSettle ::
    "EffectCodec \<Rightarrow> wire \<Rightarrow> activeExecution \<Rightarrow> Attempt \<Rightarrow> execOutcome \<Rightarrow> store \<Rightarrow> ToolResult \<times> runtimeError option \<times> store" where
  "toolAttemptSettle ec w active attempt outcome s =
     (let (result, executeErr) = executeToolDriver outcome;
          failure = map_option (failureFromError ec) executeErr;
          encoded = encodeToolAttempt ec result failure;
          encodeErr = (case encoded of Inl err \<Rightarrow> Some err | Inr _ \<Rightarrow> None);
          payload = (case encoded of Inl _ \<Rightarrow> [] | Inr bytes \<Rightarrow> bytes)
      in if executeErr = None \<and> encodeErr = None
         then (case finishAttempt w active attempt payload None s of (err, s1) \<Rightarrow> (result, err, s1))
         else if executeErr \<noteq> None \<and> isGo (isSentinel ''tool.ErrNotExecuted'') (the executeErr) \<and> encodeErr = None
         then (case finishAttempt w active attempt payload failure s of (err, s1) \<Rightarrow> (result, joinErrors [executeErr, err], s1))
         else (case markAttemptUnknown w active attempt payload failure s of
                 (Inl unknownErr, s1) \<Rightarrow> (result, joinErrors [executeErr, encodeErr, Some unknownErr], s1)
               | (Inr unknown, s1) \<Rightarrow>
                   (result, joinErrors [executeErr, encodeErr, Some (reconcileError active [unknown])], s1)))"

definition toolAttemptExecute ::
    "EffectCodec \<Rightarrow> wire \<Rightarrow> wire \<Rightarrow> call list \<Rightarrow> (activeExecution \<Rightarrow> activeExecution) \<Rightarrow> (ToolCall \<Rightarrow> execOutcome)
       \<Rightarrow> activeExecution \<Rightarrow> ToolCall \<Rightarrow> store \<Rightarrow> toolRun" where
  "toolAttemptExecute ec w1 w2 meanwhile drift nextd active0 call s =
     (case beginEffect active0 of
        (Some err, active) \<Rightarrow>
          \<lparr>tn_attempt = None, tn_active = active, tn_store = s, tn_reached = [], tn_result = zeroToolResult, tn_err = Some err\<rparr>
      | (None, active) \<Rightarrow>
          let ended = (\<lambda>a s1 result err. \<lparr>tn_attempt = None, tn_active = endEffect a, tn_store = s1, tn_reached = [], tn_result = result, tn_err = err\<rparr>)
          in if tc_OperationID call = []
             then ended active s zeroToolResult (Some (attemptRuntimeError (ac_id active) (tc_OperationID call) 0 ErrInvalidArgument))
             else case toolInputHash ec call of
               None \<Rightarrow> ended active s zeroToolResult (Some (runtimeOperationError ''hash tool call'' (EffectError (TextError ''canonical JSON''))))
             | Some inputHash \<Rightarrow>
                 (case e_Lease (ac_execution active) of
                    None \<Rightarrow> ended active s zeroToolResult (Some (executionRuntimeError (ac_id active) ErrLeaseLost))
                  | Some lease \<Rightarrow>
                      (case callBackend w1 (\<lambda>ctxErr clock. StartAttempt ctxErr clock
                              (startRequest active lease (tc_OperationID call) AttemptKindTool inputHash)) s of
                         (Inl fault, s1) \<Rightarrow> ended active s1 zeroToolResult (Some (backendOperationError ''start tool attempt'' fault))
                       | (Inr started, s1) \<Rightarrow>
                           (case as_Decision started of
                              AttemptDecisionReplay \<Rightarrow>
                                (case decodeToolAttempt ec (a_Payload (as_Attempt started)) of
                                   Inl decodeErr \<Rightarrow> ended active s1 zeroToolResult (Some (runtimeOperationError ''replay tool attempt'' decodeErr))
                                 | Inr (result, failure) \<Rightarrow> ended active s1 result (map_option (EffectError \<circ> recordedFailureError) failure))
                            | AttemptDecisionReconcile \<Rightarrow>
                                ended active s1 zeroToolResult (Some (reconcileError active [as_Attempt started]))
                            | AttemptDecisionExecute \<Rightarrow>
                                let later = drift active
                                in (case toolAttemptSettle ec w2 later (as_Attempt started) (nextd call)
                                            (history (ec_codec ec) meanwhile s1) of
                                      (result, err, s2) \<Rightarrow>
                                        \<lparr>tn_attempt = Some (as_Attempt started), tn_active = endEffect later, tn_store = s2, tn_reached = [call], tn_result = result, tn_err = err\<rparr>)))))"

section \<open>The model interceptor\<close>

text \<open>What the interceptor reads of a provider request: its operation ID and \<^verbatim>\<open>json.Marshal\<close> of it.\<close>

record ProviderRequest =
  pq_OperationID :: string
  pq_encoded :: "bytes option"

datatype openOutcome = Opened | OpenedNil | OpenError goError | OpenPanic string

text \<open>
  A stream under the durable wrapper, whose underlying stream is asked one \<^verbatim>\<open>Recv\<close> at a time, or the replay
  of recorded events followed by an error or the end.
\<close>

record durableModelStream =
  ds_attempt :: Attempt
  ds_events :: "Event list"
  ds_settled :: bool
  ds_closed :: bool
  ds_closeErr :: "runtimeError option"
  ds_ended :: bool

datatype modelStream = LiveStream durableModelStream | ReplayStream "Event list" "goError option"

record streamOpen =
  so_active :: activeExecution
  so_store :: store
  so_reached :: "ProviderRequest list"
  so_result :: "runtimeError + modelStream"

definition replayModelAttempt :: "EffectCodec \<Rightarrow> Attempt \<Rightarrow> runtimeError + modelStream" where
  "replayModelAttempt ec attempt =
     (let refuse = (\<lambda>text0. Inl (EffectError (TextError text0)))
      in case decodeModelAttempt ec (a_Payload attempt) of
           Inl err \<Rightarrow> Inl err
         | Inr (events, failure) \<Rightarrow>
             (case a_Status attempt of
                AttemptStatusSucceeded \<Rightarrow>
                  if failure \<noteq> None then refuse ''succeeded model attempt contains failure''
                  else (case validateSuccessfulModelEvents ec events of
                          Some err \<Rightarrow> Inl err
                        | None \<Rightarrow> Inr (ReplayStream events None))
              | AttemptStatusFailed \<Rightarrow>
                  (case failure of
                     None \<Rightarrow> refuse ''failed model attempt omits failure''
                   | Some recorded \<Rightarrow>
                       (case validateFailedModelEvents ec events of
                          Some err \<Rightarrow> Inl err
                        | None \<Rightarrow>
                            if events = [] then Inl (EffectError (recordedFailureError recorded))
                            else if ev_Kind (last events) \<noteq> EventError
                            then Inr (ReplayStream events (Some (recordedFailureError recorded)))
                            else Inr (ReplayStream events None)))
              | _ \<Rightarrow> refuse ''cannot replay model attempt status''))"

text \<open>The attempt of a stream that could not be opened, or that was nil, becomes unknown.\<close>

definition abandonOpen ::
    "EffectCodec \<Rightarrow> wire \<Rightarrow> activeExecution \<Rightarrow> Attempt \<Rightarrow> runtimeError \<Rightarrow> FailureRecord \<Rightarrow> store
       \<Rightarrow> (runtimeError + modelStream) \<times> store" where
  "abandonOpen ec w active attempt streamErr failure s =
     (let encoded = encodeModelAttempt ec [] (Some failure);
          encodeErr = (case encoded of Inl err \<Rightarrow> Some err | Inr _ \<Rightarrow> None);
          payload = (case encoded of Inl _ \<Rightarrow> [] | Inr bytes \<Rightarrow> bytes)
      in case markAttemptUnknown w active attempt payload (Some failure) s of
           (Inl settleErr, s1) \<Rightarrow> (Inl (the (joinErrors [Some streamErr, encodeErr, Some settleErr])), s1)
         | (Inr unknown, s1) \<Rightarrow>
             (Inl (the (joinErrors [Some streamErr, encodeErr, Some (reconcileError active [unknown])])), s1))"

definition modelAttemptOpen ::
    "EffectCodec \<Rightarrow> wire \<Rightarrow> activeExecution \<Rightarrow> Attempt \<Rightarrow> openOutcome \<Rightarrow> store \<Rightarrow> (runtimeError + modelStream) \<times> store" where
  "modelAttemptOpen ec w active attempt outcome s =
     (case outcome of
        Opened \<Rightarrow>
          (Inr (LiveStream \<lparr>ds_attempt = attempt, ds_events = [], ds_settled = False, ds_closed = False,
             ds_closeErr = None, ds_ended = False\<rparr>), s)
      | OpenedNil \<Rightarrow>
          abandonOpen ec w active attempt (EffectError (TextError ''provider returned a nil stream''))
            \<lparr>fr_Code = ''nil_stream'', fr_Message = ''provider returned a nil stream''\<rparr> s
      | OpenPanic reason \<Rightarrow>
          (let err = panicRecovered ''open model stream'' reason in abandonOpen ec w active attempt err (failureFromError ec err) s)
      | OpenError streamErr \<Rightarrow>
          (let err = EffectError streamErr; failure = failureFromError ec err
           in if isSentinel ''provider.ErrNotStarted'' streamErr
              then (case encodeModelAttempt ec [] (Some failure) of
                      Inl encodeErr \<Rightarrow> (Inl (the (joinErrors [Some err, Some encodeErr])), s)
                    | Inr payload \<Rightarrow>
                        (case finishAttempt w active attempt payload (Some failure) s of
                           (settleErr, s1) \<Rightarrow> (Inl (the (joinErrors [Some err, settleErr])), s1)))
              else abandonOpen ec w active attempt err failure s))"

definition modelAttemptStream ::
    "EffectCodec \<Rightarrow> wire \<Rightarrow> wire \<Rightarrow> call list \<Rightarrow> (activeExecution \<Rightarrow> activeExecution) \<Rightarrow> (ProviderRequest \<Rightarrow> openOutcome)
       \<Rightarrow> activeExecution \<Rightarrow> ProviderRequest \<Rightarrow> store \<Rightarrow> streamOpen" where
  "modelAttemptStream ec w1 w2 meanwhile drift nextd active0 request s =
     (case beginEffect active0 of
        (Some err, active) \<Rightarrow> \<lparr>so_active = active, so_store = s, so_reached = [], so_result = Inl err\<rparr>
      | (None, active) \<Rightarrow>
          let ended = (\<lambda>s1 result. \<lparr>so_active = endEffect active, so_store = s1, so_reached = [], so_result = result\<rparr>)
          in if pq_OperationID request = []
             then ended s (Inl (attemptRuntimeError (ac_id active) (pq_OperationID request) 0 ErrInvalidArgument))
             else case canonicalJSONHash (ec_codec ec) (pq_encoded request) of
               None \<Rightarrow> ended s (Inl (runtimeOperationError ''hash model request'' (EffectError (TextError ''canonical JSON''))))
             | Some inputHash \<Rightarrow>
                 (case e_Lease (ac_execution active) of
                    None \<Rightarrow> ended s (Inl (executionRuntimeError (ac_id active) ErrLeaseLost))
                  | Some lease \<Rightarrow>
                      (case callBackend w1 (\<lambda>ctxErr clock. StartAttempt ctxErr clock
                              (startRequest active lease (pq_OperationID request) AttemptKindModel inputHash)) s of
                         (Inl fault, s1) \<Rightarrow> ended s1 (Inl (backendOperationError ''start model attempt'' fault))
                       | (Inr started, s1) \<Rightarrow>
                           (case as_Decision started of
                              AttemptDecisionReplay \<Rightarrow>
                                ended s1 (map_sum (runtimeOperationError ''replay model attempt'') id (replayModelAttempt ec (as_Attempt started)))
                            | AttemptDecisionReconcile \<Rightarrow> ended s1 (Inl (reconcileError active [as_Attempt started]))
                            | AttemptDecisionExecute \<Rightarrow>
                                let later = drift active
                                in (case modelAttemptOpen ec w2 later (as_Attempt started) (nextd request)
                                            (history (ec_codec ec) meanwhile s1) of
                                      (result, s2) \<Rightarrow>
                                        \<lparr>so_active = (if nextd request = Opened then later else endEffect later), so_store = s2,
                                         so_reached = [request], so_result = result\<rparr>)))))"

section \<open>The recorded stream\<close>

datatype rawRecv = RawRecv Event "goError option" | RawPanic string

definition receiveModelEvent :: "rawRecv \<Rightarrow> Event \<times> runtimeError option" where
  "receiveModelEvent raw =
     (case raw of
        RawRecv event err \<Rightarrow> (event, map_option EffectError err)
      | RawPanic reason \<Rightarrow> (zeroEvent, Some (panicRecovered ''receive model stream'' reason)))"

record streamStep =
  sp_event :: Event
  sp_err :: "runtimeError option"
  sp_stream :: durableModelStream
  sp_active :: activeExecution
  sp_store :: store

text \<open>\<^verbatim>\<open>finishEffect\<close> and the flag \<^verbatim>\<open>settled\<close>.\<close>

definition settledStream :: "durableModelStream \<Rightarrow> durableModelStream" where
  "settledStream stream = stream\<lparr>ds_settled := True, ds_ended := True\<rparr>"

definition finishEffect :: "durableModelStream \<Rightarrow> activeExecution \<Rightarrow> activeExecution" where
  "finishEffect stream active = (if ds_ended stream then active else endEffect active)"

text \<open>The two ways \<^verbatim>\<open>Recv\<close> settles the attempt: by a terminal event, and by an error of the underlying stream.\<close>

definition recordTerminal ::
    "EffectCodec \<Rightarrow> wire \<Rightarrow> activeExecution \<Rightarrow> durableModelStream \<Rightarrow> runtimeError option \<Rightarrow> FailureRecord option
       \<Rightarrow> Event \<Rightarrow> runtimeError option \<Rightarrow> store \<Rightarrow> Event \<times> runtimeError option \<times> store" where
  "recordTerminal ec w active stream validationErr failure event recvErr s =
     (case encodeModelAttempt ec (ds_events stream) failure of
        Inl encodeErr \<Rightarrow>
          (case markAttemptUnknown w active (ds_attempt stream) [] (Some (failureFromError ec encodeErr)) s of
             (Inl unknownErr, s1) \<Rightarrow> (zeroEvent, joinErrors [validationErr, Some encodeErr, Some unknownErr], s1)
           | (Inr unknown, s1) \<Rightarrow>
               (zeroEvent, joinErrors [validationErr, Some encodeErr, Some (reconcileError active [unknown])], s1))
      | Inr payload \<Rightarrow>
          (case finishAttempt w active (ds_attempt stream) payload failure s of
             (Some settleErr, s1) \<Rightarrow> (zeroEvent, Some settleErr, s1)
           | (None, s1) \<Rightarrow>
               (case validationErr of
                  Some err \<Rightarrow> (zeroEvent, Some err, s1)
                | None \<Rightarrow> (event, recvErr, s1))))"

definition settleTerminal ::
    "EffectCodec \<Rightarrow> wire \<Rightarrow> activeExecution \<Rightarrow> durableModelStream \<Rightarrow> Event \<Rightarrow> runtimeError option \<Rightarrow> store
       \<Rightarrow> Event \<times> runtimeError option \<times> store" where
  "settleTerminal ec w active stream event recvErr s =
     (let validationErr = (if ev_Kind event = EventDone then validateSuccessfulModelEvents ec (ds_events stream)
                           else validateFailedModelEvents ec (ds_events stream));
          eventFailure = (if ev_Kind event = EventDone then None
                          else case ev_Err event of
                            Some err \<Rightarrow> Some (failureFromError ec (EffectError err))
                          | None \<Rightarrow> Some \<lparr>fr_Code = ''provider_error'', fr_Message = ''provider returned an error event''\<rparr>);
          failure = (case validationErr of Some err \<Rightarrow> Some (failureFromError ec err) | None \<Rightarrow> eventFailure)
      in recordTerminal ec w active stream validationErr failure event recvErr s)"

definition settleBroken ::
    "EffectCodec \<Rightarrow> wire \<Rightarrow> activeExecution \<Rightarrow> durableModelStream \<Rightarrow> Event \<Rightarrow> runtimeError \<Rightarrow> store
       \<Rightarrow> Event \<times> runtimeError option \<times> store" where
  "settleBroken ec w active stream event err s =
     (let failure = failureFromError ec err;
          encoded = encodeModelAttempt ec (ds_events stream) (Some failure);
          encodeErr = (case encoded of Inl e \<Rightarrow> Some e | Inr _ \<Rightarrow> None);
          payload = (case encoded of Inl _ \<Rightarrow> [] | Inr bytes \<Rightarrow> bytes)
      in case markAttemptUnknown w active (ds_attempt stream) payload (Some failure) s of
           (Inl unknownErr, s1) \<Rightarrow> (event, joinErrors [Some err, encodeErr, Some unknownErr], s1)
         | (Inr unknown, s1) \<Rightarrow> (event, joinErrors [Some err, encodeErr, Some (reconcileError active [unknown])], s1))"

definition durableRecv ::
    "EffectCodec \<Rightarrow> wire \<Rightarrow> rawRecv \<Rightarrow> activeExecution \<Rightarrow> durableModelStream \<Rightarrow> store \<Rightarrow> streamStep" where
  "durableRecv ec w raw active stream0 s =
     (if ds_closed stream0 then
        \<lparr>sp_event = zeroEvent, sp_err = Some (EffectError (SentinelError ''io.ErrClosedPipe'')), sp_stream = stream0,
         sp_active = active, sp_store = s\<rparr>
      else case receiveModelEvent raw of
        (event, recvErr) \<Rightarrow>
          if ds_settled stream0 then
            \<lparr>sp_event = event, sp_err = recvErr, sp_stream = stream0, sp_active = active, sp_store = s\<rparr>
          else
            let stream = (if ev_Kind event \<noteq> EventOther [] then stream0\<lparr>ds_events := ds_events stream0 @ [event]\<rparr> else stream0);
                reply = (\<lambda>(event1, err, s1). \<lparr>sp_event = event1, sp_err = err, sp_stream = settledStream stream,
                           sp_active = finishEffect stream active, sp_store = s1\<rparr>)
            in if ev_Kind event = EventDone \<or> ev_Kind event = EventError
               then reply (settleTerminal ec w active stream event recvErr s)
               else case recvErr of
                 Some err \<Rightarrow> reply (settleBroken ec w active stream event err s)
               | None \<Rightarrow> \<lparr>sp_event = event, sp_err = None, sp_stream = stream, sp_active = active, sp_store = s\<rparr>)"

text \<open>\<^verbatim>\<open>Close\<close>; \<open>nextErr\<close> is what closing the underlying stream returns.\<close>

definition durableClose ::
    "EffectCodec \<Rightarrow> wire \<Rightarrow> goError option \<Rightarrow> activeExecution \<Rightarrow> durableModelStream \<Rightarrow> store
       \<Rightarrow> runtimeError option \<times> durableModelStream \<times> activeExecution \<times> store" where
  "durableClose ec w nextErr active stream s =
     (if ds_closed stream then (ds_closeErr stream, stream, active, s)
      else
        let closeErr = map_option EffectError nextErr;
            closed = (\<lambda>err str act s1. (err, str\<lparr>ds_closed := True, ds_closeErr := err\<rparr>, act, s1))
        in if ds_settled stream then closed closeErr stream active s
           else
             let failure = (case closeErr of
                   Some err \<Rightarrow> failureFromError ec err
                 | None \<Rightarrow> \<lparr>fr_Code = ''stream_closed'', fr_Message = ''provider stream closed before a terminal event''\<rparr>);
                 encoded = encodeModelAttempt ec (ds_events stream) (Some failure);
                 encodeErr = (case encoded of Inl e \<Rightarrow> Some e | Inr _ \<Rightarrow> None);
                 payload = (case encoded of Inl _ \<Rightarrow> [] | Inr bytes \<Rightarrow> bytes)
             in (case markAttemptUnknown w active (ds_attempt stream) payload (Some failure) s of
                   (Inl unknownErr, s1) \<Rightarrow>
                     closed (joinErrors [closeErr, encodeErr, Some unknownErr]) (settledStream stream) (finishEffect stream active) s1
                 | (Inr unknown, s1) \<Rightarrow>
                     closed (joinErrors [closeErr, encodeErr, Some (reconcileError active [unknown])]) (settledStream stream)
                       (finishEffect stream active) s1))"

end
