(* ===== verification/Durable_Runtime.thy ===== *)
theory Durable_Runtime
  imports Durable_Effects Agent_Loop
begin

text \<open>
  The durable runtime (\<^verbatim>\<open>src/durable/runtime.go\<close>, \<^verbatim>\<open>boundary.go\<close>, \<^verbatim>\<open>resume_target.go\<close>, \<^verbatim>\<open>reconcile.go\<close>): how an
  execution is claimed, run, checkpointed, suspended, released and finished, and how an operator settles an
  uncertain attempt.

  The engine is the caller's: while it runs, the runtime sees the effects that pass its interceptors, the
  boundaries the engine reports, the ticks of the heartbeat, requests to stop, and what other callers do to the
  backend. A run is any sequence of these steps, \<open>runStep\<close>, followed by the engine's result. Clones are the
  values themselves: HOL values are not shared.
\<close>

section \<open>The runtime\<close>

record Options =
  ot_OwnerID :: string
  ot_LeaseTTL :: duration
  ot_SettlementTimeout :: duration

record pendingClaim =
  pc_mode :: string
  pc_specHash :: hash
  pc_claimID :: ClaimID
  pc_expires :: instant

record Runtime =
  rn_ownerID :: string
  rn_leaseTTL :: duration
  rn_settlementTimeout :: duration
  rn_active :: "ExecutionID \<rightharpoonup> activeExecution"
  rn_pendingClaims :: "ExecutionID \<rightharpoonup> pendingClaim"
  rn_closed :: bool
  rn_closeErrors :: "runtimeError list"

definition defaultLeaseTTL :: duration where
  "defaultLeaseTTL = 30 * 1000000000"

definition defaultSettlementTimeout :: duration where
  "defaultSettlementTimeout = 5 * 1000000000"

text \<open>\<open>generated\<close> is what \<^verbatim>\<open>randomOwnerID\<close> returns.\<close>

definition NewRuntime :: "bool \<Rightarrow> goError + string \<Rightarrow> Options \<Rightarrow> runtimeError + Runtime" where
  "NewRuntime nilBackend generated options =
     (let invalid = (\<lambda>text0. Inl (DurableError (Annotated text0 ErrInvalidArgument)));
          build = (\<lambda>ownerID. Inr \<lparr>rn_ownerID = ownerID,
            rn_leaseTTL = (if ot_LeaseTTL options = 0 then defaultLeaseTTL else ot_LeaseTTL options),
            rn_settlementTimeout = (if ot_SettlementTimeout options = 0 then defaultSettlementTimeout else ot_SettlementTimeout options),
            rn_active = Map.empty, rn_pendingClaims = Map.empty, rn_closed = False, rn_closeErrors = []\<rparr>)
      in if nilBackend then invalid ''nil backend''
         else if ot_LeaseTTL options < 0 \<or> ot_SettlementTimeout options < 0 then invalid ''negative duration''
         else if ot_OwnerID options \<noteq> [] \<and> blank (ot_OwnerID options) then invalid ''owner ID is blank''
         else if ot_OwnerID options \<noteq> [] then build (ot_OwnerID options)
         else case generated of
           Inl err \<Rightarrow> Inl (EffectError (Wrapped ''generate owner ID'' err))
         | Inr ownerID \<Rightarrow> build ownerID)"

definition enter :: "goError option \<Rightarrow> ExecutionID \<Rightarrow> Runtime \<Rightarrow> (runtimeError + activeExecution) \<times> Runtime" where
  "enter callerErr executionID rt =
     (if rn_closed rt then (Inl (executionRuntimeError executionID ErrClosed), rt)
      else if rn_active rt executionID \<noteq> None then (Inl (executionRuntimeError executionID ErrBusy), rt)
      else let active = newActiveExecution callerErr executionID
           in (Inr active, rt\<lparr>rn_active := (rn_active rt)(executionID \<mapsto> active)\<rparr>))"

definition leave :: "activeExecution \<Rightarrow> runtimeError option \<Rightarrow> Runtime \<Rightarrow> Runtime" where
  "leave active controlErr rt =
     (let left = rt\<lparr>rn_active := (rn_active rt)(ac_id active := None)\<rparr>
      in if ac_stopCause active \<noteq> None \<and> isDurable ErrClosed (the (ac_stopCause active)) \<and> controlErr \<noteq> None
         then left\<lparr>rn_closeErrors := rn_closeErrors left @ [the controlErr]\<rparr> else left)"

text \<open>\<open>generated\<close> is what \<^verbatim>\<open>randomClaimID\<close> returns.\<close>

definition claimIDOf ::
    "instant \<Rightarrow> goError + ClaimID \<Rightarrow> ExecutionID \<Rightarrow> string \<Rightarrow> hash \<Rightarrow> Runtime \<Rightarrow> (runtimeError + ClaimID) \<times> Runtime" where
  "claimIDOf now generated executionID mode specHash rt =
     (let fresh = (\<lambda>rt1. case generated of
            Inl err \<Rightarrow> (Inl (EffectError (Wrapped ''generate claim ID'' err)), rt1)
          | Inr claimID \<Rightarrow>
              (Inr claimID, rt1\<lparr>rn_pendingClaims := (rn_pendingClaims rt1)(executionID \<mapsto>
                 \<lparr>pc_mode = mode, pc_specHash = specHash, pc_claimID = claimID, pc_expires = now + rn_leaseTTL rt1\<rparr>)\<rparr>))
      in case rn_pendingClaims rt executionID of
           Some prior \<Rightarrow>
             if now < pc_expires prior \<and> pc_mode prior = mode \<and> pc_specHash prior = specHash
             then (Inr (pc_claimID prior), rt)
             else fresh (rt\<lparr>rn_pendingClaims := (rn_pendingClaims rt)(executionID := None)\<rparr>)
         | None \<Rightarrow> fresh rt)"

fun faultIs :: "durableError \<Rightarrow> backendFault \<Rightarrow> bool" where
  "faultIs sentinel (Answered err) \<longleftrightarrow> sentinelOf err = sentinel"
| "faultIs sentinel (Transport err) \<longleftrightarrow> False"

definition definitiveClaimError :: "backendFault \<Rightarrow> bool" where
  "definitiveClaimError fault \<longleftrightarrow>
     list_ex (\<lambda>sentinel. faultIs sentinel fault)
       [ErrInvalidArgument, ErrNotFound, ErrConflict, ErrBusy, ErrLeaseLost, ErrCorruptCheckpoint, ErrReconcileRequired]"

definition resolveClaim :: "ExecutionID \<Rightarrow> backendFault option \<Rightarrow> Runtime \<Rightarrow> Runtime" where
  "resolveClaim executionID fault rt =
     (if fault \<noteq> None \<and> \<not> definitiveClaimError (the fault) then rt
      else rt\<lparr>rn_pendingClaims := (rn_pendingClaims rt)(executionID := None)\<rparr>)"

definition backendExecutionOperationError :: "string \<Rightarrow> ExecutionID \<Rightarrow> backendFault \<Rightarrow> runtimeError" where
  "backendExecutionOperationError operation executionID fault =
     (if faultIs ErrCorruptCheckpoint fault then OfExecution executionID (backendOperationError operation fault)
      else backendOperationError operation fault)"

fun isOperation :: "runtimeError \<Rightarrow> bool" where
  "isOperation (BackendCallError _ _) \<longleftrightarrow> True"
| "isOperation (RuntimeCallError _ _) \<longleftrightarrow> True"
| "isOperation (OfExecution _ err) \<longleftrightarrow> isOperation err"
| "isOperation (OfAttempt _ _ _ err) \<longleftrightarrow> isOperation err"
| "isOperation (FailureError _ cause) \<longleftrightarrow> (case cause of None \<Rightarrow> False | Some err \<Rightarrow> isOperation err)"
| "isOperation (RuntimeJoin errs) \<longleftrightarrow> list_ex isOperation errs"
| "isOperation _ \<longleftrightarrow> False"

definition isRuntimeInfrastructure :: "runtimeError \<Rightarrow> bool" where
  "isRuntimeInfrastructure err \<longleftrightarrow>
     isOperation err \<or>
     list_ex (\<lambda>sentinel. isDurable sentinel err)
       [ErrInvalidArgument, ErrNotFound, ErrConflict, ErrBusy, ErrLeaseLost, ErrCorruptCheckpoint, ErrReconcileRequired,
        ErrResumeTargetMismatch, ErrNotActive, ErrSuspended, ErrClosed]"

section \<open>Validation\<close>

definition validateRuntimeCall :: "bool \<Rightarrow> ExecutionID \<Rightarrow> runtimeError option" where
  "validateRuntimeCall nilContext executionID =
     (if nilContext \<or> blank executionID then Some (executionRuntimeError executionID ErrInvalidArgument) else None)"

definition validateExecutionSpec :: "Codec \<Rightarrow> ExecutionSpec \<Rightarrow> durableError option" where
  "validateExecutionSpec codec spec =
     (case rq_Budget (es_Request spec) of
        Some budget \<Rightarrow>
          if b_MaxTokens budget < 0 \<or> b_MaxToolCalls budget < 0 \<or> b_MaxSteps budget < 0 \<or> b_MaxWallClock budget < 0
          then Some ErrInvalidArgument
          else if op_MaxRepairAttempts (es_OutputPolicy spec) < 0
                  \<or> (op_Schema (es_OutputPolicy spec) \<noteq> [] \<and> \<not> js_valid codec (op_Schema (es_OutputPolicy spec)))
          then Some ErrInvalidArgument else None
      | None \<Rightarrow>
          if op_MaxRepairAttempts (es_OutputPolicy spec) < 0
             \<or> (op_Schema (es_OutputPolicy spec) \<noteq> [] \<and> \<not> js_valid codec (op_Schema (es_OutputPolicy spec)))
          then Some ErrInvalidArgument else None)"

definition claimedExecutionConflict :: "ExecutionID \<Rightarrow> string \<Rightarrow> runtimeError" where
  "claimedExecutionConflict executionID reason = executionRuntimeError executionID (Annotated reason ErrConflict)"

definition terminalExecution :: "ExecutionStatus \<Rightarrow> bool" where
  "terminalExecution status \<longleftrightarrow> status = ExecutionStatusCompleted \<or> status = ExecutionStatusFailed"

definition validateClaimedExecutionStatus :: "Codec \<Rightarrow> Execution \<Rightarrow> ExecutionID \<Rightarrow> string \<Rightarrow> runtimeError option" where
  "validateClaimedExecutionStatus codec execution executionID ownerID =
     (let conflict = (\<lambda>reason. Some (claimedExecutionConflict executionID reason));
          finished =
            (case e_Result execution of
               None \<Rightarrow> conflict ''terminal execution has an invalid lease or result''
             | Some result \<Rightarrow>
                 if e_Lease execution \<noteq> None then conflict ''terminal execution has an invalid lease or result''
                 else if HashResult codec result \<noteq> Some (e_ResultHash execution) then conflict ''terminal result hash mismatch''
                 else if (e_Status execution = ExecutionStatusCompleted) \<noteq> (r_Failure result = None)
                 then conflict ''terminal status disagrees with Agent result'' else None)
      in case e_Status execution of
           ExecutionStatusRunning \<Rightarrow>
             (case e_Lease execution of
                None \<Rightarrow> conflict ''backend returned an invalid claimed lease''
              | Some lease \<Rightarrow>
                  if l_OwnerID lease \<noteq> ownerID \<or> l_Token lease = 0 \<or> l_ClaimID lease = 0
                  then conflict ''backend returned an invalid claimed lease''
                  else if e_Result execution \<noteq> None then conflict ''running execution contains a terminal result'' else None)
         | ExecutionStatusCompleted \<Rightarrow> finished
         | ExecutionStatusFailed \<Rightarrow> finished
         | _ \<Rightarrow> conflict ''backend returned invalid claimed status'')"

definition validateExecutionCheckpoint :: "Codec \<Rightarrow> Execution \<Rightarrow> ExecutionID \<Rightarrow> runtimeError option" where
  "validateExecutionCheckpoint codec execution executionID =
     (case e_Checkpoint execution of
        None \<Rightarrow> None
      | Some checkpoint \<Rightarrow> map_option (executionRuntimeError executionID) (ValidateCheckpoint codec checkpoint))"

definition validateClaimedExecution :: "Codec \<Rightarrow> Execution \<Rightarrow> ExecutionID \<Rightarrow> string \<Rightarrow> runtimeError option" where
  "validateClaimedExecution codec execution executionID ownerID =
     (let conflict = (\<lambda>reason. Some (claimedExecutionConflict executionID reason))
      in if e_ID execution \<noteq> executionID then conflict ''backend returned a different execution ID''
         else if e_Version execution = 0 then conflict ''backend returned a zero execution version''
         else if validateExecutionSpec codec (e_Spec execution) \<noteq> None then conflict ''backend returned an invalid execution spec''
         else if HashExecutionSpec codec (e_Spec execution) \<noteq> Some (e_SpecHash execution) then conflict ''execution spec hash mismatch''
         else case validateClaimedExecutionStatus codec execution executionID ownerID of
           Some err \<Rightarrow> Some err
         | None \<Rightarrow> validateExecutionCheckpoint codec execution executionID)"

section \<open>Resume targets\<close>

definition emptyTarget :: "ResumeTarget \<Rightarrow> bool" where
  "emptyTarget target \<longleftrightarrow> rt_CheckpointSequence target = 0 \<and> rt_Phase target = ContinuationOther [] \<and> rt_OperationID target = []"

definition zeroTarget :: ResumeTarget where
  "zeroTarget = \<lparr>rt_CheckpointSequence = 0, rt_Phase = ContinuationOther [], rt_OperationID = []\<rparr>"

text \<open>\<^verbatim>\<open>fmt.Sprintf("turn:%d:model", turn)\<close>.\<close>

definition modelOperationID :: "int \<Rightarrow> string" where
  "modelOperationID turn = ''turn:'' @ showInt turn @ '':model''"

definition pendingOperationIDs :: "Continuation \<Rightarrow> string list" where
  "pendingOperationIDs continuation =
     (case c_Phase continuation of
        ContinuationReady \<Rightarrow> [modelOperationID (c_NextOperationTurn continuation)]
      | ContinuationModelComplete \<Rightarrow>
          (case find (\<lambda>m. m_ToolCalls m \<noteq> []) (rev (c_Messages continuation)) of
             Some m \<Rightarrow> map tc_OperationID (m_ToolCalls m)
           | None \<Rightarrow> [])
      | _ \<Rightarrow> [])"

definition resumeTargetMismatch :: "Execution \<Rightarrow> ResumeTarget \<Rightarrow> runtimeError option" where
  "resumeTargetMismatch execution expected =
     (if emptyTarget expected then None
      else
        let available = (case e_Checkpoint execution of None \<Rightarrow> [] | Some ck \<Rightarrow> pendingOperationIDs (ck_Continuation ck));
            actual = (case e_Checkpoint execution of
              None \<Rightarrow> zeroTarget
            | Some ck \<Rightarrow>
                \<lparr>rt_CheckpointSequence = ck_Sequence ck, rt_Phase = c_Phase (ck_Continuation ck),
                 rt_OperationID = (if length available = 1 then available ! 0
                   else if rt_OperationID expected \<noteq> [] \<and> List.member available (rt_OperationID expected) then rt_OperationID expected
                   else [])\<rparr>)
        in if (rt_CheckpointSequence expected \<noteq> 0 \<and> rt_CheckpointSequence expected \<noteq> rt_CheckpointSequence actual)
              \<or> (rt_Phase expected \<noteq> ContinuationOther [] \<and> rt_Phase expected \<noteq> rt_Phase actual)
              \<or> (rt_OperationID expected \<noteq> [] \<and> \<not> List.member available (rt_OperationID expected))
           then Some (ResumeTargetError (e_ID execution) expected actual available)
           else None)"

section \<open>Checkpoints\<close>

definition ObserveBoundary ::
    "Codec \<Rightarrow> wire \<Rightarrow> Continuation \<Rightarrow> activeExecution \<Rightarrow> store \<Rightarrow> runtimeError option \<times> activeExecution \<times> store" where
  "ObserveBoundary codec w continuation active s =
     (case ac_stopCause active of
        Some cause \<Rightarrow> (Some cause, active, s)
      | None \<Rightarrow>
          (case HashContinuation codec continuation of
             Inl err \<Rightarrow> (Some (runtimeOperationError ''hash continuation'' (EffectError (TextError ''continuation''))), active, s)
           | Inr hash \<Rightarrow>
               (case e_Lease (ac_execution active) of
                  None \<Rightarrow> (Some (executionRuntimeError (ac_id active) ErrLeaseLost), active, s)
                | Some lease \<Rightarrow>
                    let sequence = (case e_Checkpoint (ac_execution active) of None \<Rightarrow> 1 | Some ck \<Rightarrow> ck_Sequence ck + 1)
                    in if e_Checkpoint (ac_execution active) \<noteq> None \<and> sequence = 0
                       then (Some (executionRuntimeError (ac_id active) ErrConflict), active, s)
                       else (case callBackend w (\<lambda>ctxErr clock. SaveCheckpoint codec ctxErr clock
                                     \<lparr>cx_ExecutionID = ac_id active, cx_Lease = leaseReference lease,
                                      cx_ExpectedVersion = e_Version (ac_execution active),
                                      cx_Checkpoint = \<lparr>ck_Sequence = sequence, ck_Continuation = continuation, ck_ContinuationHash = hash\<rparr>\<rparr>) s of
                               (Inl fault, s1) \<Rightarrow> (Some (backendExecutionOperationError ''save checkpoint'' (ac_id active) fault), active, s1)
                             | (Inr saved, s1) \<Rightarrow> (None, setExecution saved active, s1)))))"

section \<open>A run of the engine\<close>

datatype controlEvent =
    CtlStop runtimeError | CtlSuspend | CtlCancelled goError | CtlRenewed Lease | CtlHeartbeatFailed runtimeError

definition applyControl :: "controlEvent \<Rightarrow> activeExecution \<Rightarrow> activeExecution" where
  "applyControl event active =
     (case event of
        CtlStop cause \<Rightarrow> fst (requestStop cause active)
      | CtlSuspend \<Rightarrow> snd (requestSuspend active)
      | CtlCancelled err \<Rightarrow> cancelCause (EffectError err) (active\<lparr>ac_callerErr := Some err\<rparr>)
      | CtlRenewed lease \<Rightarrow> updateLease lease active
      | CtlHeartbeatFailed err \<Rightarrow> recordHeartbeatError err active)"

datatype runStep =
    RunTool wire wire "call list" "controlEvent list" "ToolCall \<Rightarrow> execOutcome" ToolCall
  | RunModel wire wire "call list" "controlEvent list" "ProviderRequest \<Rightarrow> openOutcome" ProviderRequest
  | RunRecv nat wire rawRecv
  | RunCloseStream nat wire "goError option"
  | RunBoundary wire Continuation
  | RunHeartbeat wire duration
  | RunControl controlEvent
  | RunOthers "call list"

record runState =
  rs_active :: activeExecution
  rs_store :: store
  rs_streams :: "durableModelStream list"

definition runStepOf :: "EffectCodec \<Rightarrow> runStep \<Rightarrow> runState \<Rightarrow> runState" where
  "runStepOf ec step st =
     (case step of
        RunTool w1 w2 meanwhile controls nextd call \<Rightarrow>
          let run = toolAttemptExecute ec w1 w2 meanwhile (fold applyControl controls) nextd (rs_active st) call (rs_store st)
          in st\<lparr>rs_active := tn_active run, rs_store := tn_store run\<rparr>
      | RunModel w1 w2 meanwhile controls nextd request \<Rightarrow>
          let run = modelAttemptStream ec w1 w2 meanwhile (fold applyControl controls) nextd (rs_active st) request (rs_store st)
          in st\<lparr>rs_active := so_active run, rs_store := so_store run,
               rs_streams := (case so_result run of Inr (LiveStream stream) \<Rightarrow> rs_streams st @ [stream] | _ \<Rightarrow> rs_streams st)\<rparr>
      | RunRecv index w raw \<Rightarrow>
          if index < length (rs_streams st)
          then let received = durableRecv ec w raw (rs_active st) (rs_streams st ! index) (rs_store st)
               in st\<lparr>rs_active := sp_active received, rs_store := sp_store received,
                    rs_streams := (rs_streams st)[index := sp_stream received]\<rparr>
          else st
      | RunCloseStream index w nextErr \<Rightarrow>
          if index < length (rs_streams st)
          then (case durableClose ec w nextErr (rs_active st) (rs_streams st ! index) (rs_store st) of
                  (err, stream, active, s) \<Rightarrow>
                    st\<lparr>rs_active := active, rs_store := s, rs_streams := (rs_streams st)[index := stream]\<rparr>)
          else st
      | RunBoundary w continuation \<Rightarrow>
          (case ObserveBoundary (ec_codec ec) w continuation (rs_active st) (rs_store st) of
             (err, active, s) \<Rightarrow> st\<lparr>rs_active := active, rs_store := s\<rparr>)
      | RunHeartbeat w leaseTTL \<Rightarrow>
          (case heartbeatTick w leaseTTL (rs_active st) (rs_store st) of
             (active, s, goesOn) \<Rightarrow> st\<lparr>rs_active := active, rs_store := s\<rparr>)
      | RunControl event \<Rightarrow> st\<lparr>rs_active := applyControl event (rs_active st)\<rparr>
      | RunOthers calls \<Rightarrow> st\<lparr>rs_store := history (ec_codec ec) calls (rs_store st)\<rparr>)"

definition runSteps :: "EffectCodec \<Rightarrow> runStep list \<Rightarrow> runState \<Rightarrow> runState" where
  "runSteps ec steps st = fold (runStepOf ec) steps st"

section \<open>Settling an execution\<close>

text \<open>
  What the settling calls meet: whether the effects still under way end in time (\<^verbatim>\<open>waitEffects\<close>, once in
  \<^verbatim>\<open>complete\<close>, once in \<^verbatim>\<open>suspend\<close>, once in \<^verbatim>\<open>release\<close>), and the wires of the calls.
\<close>

record settleWorld =
  sw_waitComplete :: "goError option"
  sw_waitSuspend :: "goError option"
  sw_waitRelease :: "goError option"
  sw_finish :: wire
  sw_suspend :: wire
  sw_release :: wire

definition releaseActive :: "settleWorld \<Rightarrow> activeExecution \<Rightarrow> store \<Rightarrow> runtimeError option \<times> activeExecution \<times> store" where
  "releaseActive world active0 s =
     (let active = stopNewEffects active0
      in case sw_waitRelease world of
           Some err \<Rightarrow> (Some (EffectError (Wrapped ''wait for effect settlement'' err)), active, s)
         | None \<Rightarrow>
             (case e_Lease (ac_execution active) of
                None \<Rightarrow> (None, active, s)
              | Some lease \<Rightarrow>
                  (case callBackend (sw_release world) (\<lambda>ctxErr clock. ReleaseExecution ctxErr clock
                          \<lparr>lx_ExecutionID = ac_id active, lx_Lease = leaseReference lease\<rparr>) s of
                     (Inl fault, s1) \<Rightarrow> (Some (backendOperationError ''release execution'' fault), active, s1)
                   | (Inr released, s1) \<Rightarrow>
                       (if rl_Reconcile released \<noteq> [] then Some (ReconcileRequired (rl_Execution released) (rl_Reconcile released)) else None,
                        setExecution (rl_Execution released) active, s1))))"

definition suspendActive :: "settleWorld \<Rightarrow> activeExecution \<Rightarrow> store \<Rightarrow> runtimeError option \<times> activeExecution \<times> store" where
  "suspendActive world active s =
     (case sw_waitSuspend world of
        Some err \<Rightarrow>
          (case releaseActive world active s of
             (releaseErr, active1, s1) \<Rightarrow> (joinErrors [Some (EffectError err), releaseErr], active1, s1))
      | None \<Rightarrow>
          (case e_Lease (ac_execution active) of
             None \<Rightarrow> (Some (executionRuntimeError (ac_id active) ErrLeaseLost), active, s)
           | Some lease \<Rightarrow>
               (case callBackend (sw_suspend world) (\<lambda>ctxErr clock. SuspendExecution ctxErr clock
                       \<lparr>px_ExecutionID = ac_id active, px_Lease = leaseReference lease,
                        px_ExpectedVersion = e_Version (ac_execution active)\<rparr>) s of
                  (Inl fault, s1) \<Rightarrow>
                    (case releaseActive world active s1 of
                       (releaseErr, active2, s2) \<Rightarrow>
                         (joinErrors [Some (backendOperationError ''suspend execution'' fault), releaseErr], active2, s2))
                | (Inr suspended, s1) \<Rightarrow> (None, setExecution suspended active, s1))))"

text \<open>The result of the engine with the cause its failure wraps.\<close>

record engineOutcome =
  eo_result :: Result
  eo_cause :: "runtimeError option"

text \<open>What a call of the runtime returns, its control error, and what it leaves.\<close>

record runReturn =
  rr_result :: Result
  rr_err :: "runtimeError option"
  rr_control :: "runtimeError option"
  rr_active :: activeExecution
  rr_store :: store

text \<open>Release the lease and report \<open>err\<close> together with what the release says.\<close>

definition releaseWith :: "settleWorld \<Rightarrow> runtimeError \<Rightarrow> Result \<Rightarrow> activeExecution \<Rightarrow> store \<Rightarrow> runReturn" where
  "releaseWith world err result active s =
     (case releaseActive world active s of
        (cleanupErr, active1, s1) \<Rightarrow>
          \<lparr>rr_result = result, rr_err = joinErrors [Some err, cleanupErr], rr_control = cleanupErr, rr_active = active1, rr_store = s1\<rparr>)"

definition complete :: "Codec \<Rightarrow> settleWorld \<Rightarrow> engineOutcome \<Rightarrow> activeExecution \<Rightarrow> store \<Rightarrow> runReturn" where
  "complete codec world outcome active0 s =
     (let active = stopNewEffects active0; result = eo_result outcome
      in case ac_stopCause active of
           Some stopCause \<Rightarrow>
             if isDurable ErrSuspended stopCause
             then (case suspendActive world active s of
                     (cleanupErr, active1, s1) \<Rightarrow>
                       \<lparr>rr_result = result, rr_err = joinErrors [Some (DurableError ErrSuspended), cleanupErr], rr_control = cleanupErr,
                        rr_active = active1, rr_store = s1\<rparr>)
             else if isDurable ErrClosed stopCause then releaseWith world (DurableError ErrClosed) result active s
             else releaseWith world stopCause result active s
         | None \<Rightarrow>
             (case ac_heartbeatErr active of
                Some heartbeatErr \<Rightarrow> releaseWith world heartbeatErr result active s
              | None \<Rightarrow>
                  (case ac_callerErr active of
                     Some callerErr \<Rightarrow> releaseWith world (EffectError callerErr) result active s
                   | None \<Rightarrow>
                       if r_Failure result \<noteq> None \<and> eo_cause outcome \<noteq> None \<and> isRuntimeInfrastructure (the (eo_cause outcome))
                       then releaseWith world (FailureError (the (r_Failure result)) (eo_cause outcome)) result active s
                       else case sw_waitComplete world of
                         Some err \<Rightarrow> releaseWith world (EffectError (Wrapped ''wait for effect settlement'' err)) result active s
                       | None \<Rightarrow>
                           (case e_Lease (ac_execution active) of
                              None \<Rightarrow>
                                (let err = executionRuntimeError (ac_id active) ErrLeaseLost
                                 in \<lparr>rr_result = result, rr_err = Some err, rr_control = Some err, rr_active = active, rr_store = s\<rparr>)
                            | Some lease \<Rightarrow>
                                (case HashResult codec result of
                                   None \<Rightarrow> releaseWith world (EffectError (Wrapped ''hash terminal result'' (TextError ''canonical JSON''))) result active s
                                 | Some resultHash \<Rightarrow>
                                     (case callBackend (sw_finish world) (\<lambda>ctxErr clock. FinishExecution codec ctxErr clock
                                             \<lparr>fx_ExecutionID = ac_id active, fx_Lease = leaseReference lease,
                                              fx_ExpectedVersion = e_Version (ac_execution active), fx_Result = result,
                                              fx_ResultHash = resultHash\<rparr>) s of
                                        (Inl fault, s1) \<Rightarrow> releaseWith world (backendOperationError ''finish execution'' fault) result active s1
                                      | (Inr finished, s1) \<Rightarrow>
                                          \<lparr>rr_result = result, rr_err = None, rr_control = None,
                                           rr_active = setExecution finished active, rr_store = s1\<rparr>))))))"

section \<open>Running a claimed execution\<close>

record runWorld =
  rw_steps :: "runStep list"
  rw_outcome :: engineOutcome
  rw_settle :: settleWorld

definition runClaimed ::
    "EffectCodec \<Rightarrow> runWorld \<Rightarrow> Execution \<Rightarrow> Attempt list \<Rightarrow> ResumeTarget \<Rightarrow> activeExecution \<Rightarrow> store \<Rightarrow> runReturn" where
  "runClaimed ec world execution reconcile target active s =
     (let codec = ec_codec ec;
          refused = (\<lambda>err. \<lparr>rr_result = zeroResult, rr_err = Some err, rr_control = Some err, rr_active = active, rr_store = s\<rparr>)
      in if terminalExecution (e_Status execution) then
           (case e_Result execution of
              None \<Rightarrow> refused (executionRuntimeError (e_ID execution) ErrConflict)
            | Some result \<Rightarrow>
                if HashResult codec result \<noteq> Some (e_ResultHash execution)
                then refused (executionRuntimeError (e_ID execution) ErrConflict)
                else case resumeTargetMismatch execution target of
                  Some targetErr \<Rightarrow> refused targetErr
                | None \<Rightarrow> \<lparr>rr_result = result, rr_err = None, rr_control = None, rr_active = active, rr_store = s\<rparr>)
         else if e_Lease execution = None then refused (executionRuntimeError (e_ID execution) ErrLeaseLost)
         else if reconcile \<noteq> [] then
           releaseWith (rw_settle world) (ReconcileRequired execution reconcile) zeroResult active s
         else case resumeTargetMismatch execution target of
           Some targetErr \<Rightarrow> releaseWith (rw_settle world) targetErr zeroResult active s
         | None \<Rightarrow>
             let ran = runSteps ec (rw_steps world) \<lparr>rs_active = active, rs_store = s, rs_streams = []\<rparr>
             in complete codec (rw_settle world) (rw_outcome world) (rs_active ran) (rs_store ran))"

definition rejectInvalidClaim :: "wire \<Rightarrow> Execution \<Rightarrow> runtimeError \<Rightarrow> store \<Rightarrow> runtimeError \<times> store" where
  "rejectInvalidClaim w execution validationErr s =
     (case e_Lease execution of
        None \<Rightarrow> (validationErr, s)
      | Some lease \<Rightarrow>
          (case callBackend w (\<lambda>ctxErr clock. ReleaseExecution ctxErr clock
                  \<lparr>lx_ExecutionID = e_ID execution, lx_Lease = leaseReference lease\<rparr>) s of
             (Inl fault, s1) \<Rightarrow> (the (joinErrors [Some validationErr, Some (backendOperationError ''release invalid claim'' fault)]), s1)
           | (Inr released, s1) \<Rightarrow> (the (joinErrors [Some validationErr, None]), s1)))"

section \<open>Start and resume\<close>

text \<open>
  What one call meets: the state of its context, the clock and the random source of \<^verbatim>\<open>claimID\<close>, the wires of the
  claim and of the release of an invalid claim, the run, and what other calls do to the runtime before it leaves.
\<close>

record callWorld =
  cw_nilContext :: bool
  cw_callerErr :: "goError option"
  cw_now :: instant
  cw_generated :: "goError + ClaimID"
  cw_claim :: wire
  cw_reject :: wire
  cw_run :: runWorld
  cw_later :: "Runtime \<Rightarrow> Runtime"

text \<open>What the caller gets, and what is left of the runtime and the backend.\<close>

record callReturn =
  cl_result :: Result
  cl_err :: "runtimeError option"
  cl_runtime :: Runtime
  cl_store :: store

text \<open>The part of \<^verbatim>\<open>start\<close> and \<^verbatim>\<open>resume\<close> from the claim on, for the reply of the claiming call.\<close>

definition runReply ::
    "EffectCodec \<Rightarrow> callWorld \<Rightarrow> string \<Rightarrow> ExecutionID \<Rightarrow> ResumeTarget \<Rightarrow> activeExecution \<Rightarrow> Runtime
       \<Rightarrow> backendFault + (Execution \<times> Attempt list) \<Rightarrow> store \<Rightarrow> callReturn" where
  "runReply ec world operation executionID target active rt reply s =
     (let left = (\<lambda>result err act controlErr s1. \<lparr>cl_result = result, cl_err = err,
                    cl_runtime = leave act controlErr (cw_later world rt), cl_store = s1\<rparr>)
      in case reply of
           Inl fault \<Rightarrow> left zeroResult (Some (backendExecutionOperationError operation executionID fault)) active None s
         | Inr (execution, reconcile) \<Rightarrow>
             (case validateClaimedExecution (ec_codec ec) execution executionID (rn_ownerID rt) of
                Some validationErr \<Rightarrow>
                  (case rejectInvalidClaim (cw_reject world) execution validationErr s of
                     (err, s1) \<Rightarrow> left zeroResult (Some err) active None s1)
              | None \<Rightarrow>
                  let ran = runClaimed ec (cw_run world) execution reconcile target (setExecution execution active) s
                  in left (rr_result ran) (rr_err ran) (rr_active ran) (rr_control ran) (rr_store ran)))"

definition faultOf :: "backendFault + 'a \<Rightarrow> backendFault option" where
  "faultOf reply = (case reply of Inl fault \<Rightarrow> Some fault | Inr _ \<Rightarrow> None)"

definition startRuntime ::
    "EffectCodec \<Rightarrow> callWorld \<Rightarrow> ExecutionID \<Rightarrow> ExecutionSpec \<Rightarrow> Runtime \<Rightarrow> store \<Rightarrow> callReturn" where
  "startRuntime ec world executionID spec rt s =
     (let failed = (\<lambda>err rt1. \<lparr>cl_result = zeroResult, cl_err = Some err, cl_runtime = rt1, cl_store = s\<rparr>)
      in case validateRuntimeCall (cw_nilContext world) executionID of
           Some err \<Rightarrow> failed err rt
         | None \<Rightarrow>
             (case validateExecutionSpec (ec_codec ec) spec of
                Some err \<Rightarrow> failed (executionRuntimeError executionID err) rt
              | None \<Rightarrow>
                  (case HashExecutionSpec (ec_codec ec) spec of
                     None \<Rightarrow> failed (executionRuntimeError executionID (Annotated ''hash execution spec'' ErrInvalidArgument)) rt
                   | Some specHash \<Rightarrow>
                       (case enter (cw_callerErr world) executionID rt of
                          (Inl err, rt1) \<Rightarrow> failed err rt1
                        | (Inr active, rt1) \<Rightarrow>
                            (case claimIDOf (cw_now world) (cw_generated world) executionID ''start'' specHash rt1 of
                               (Inl err, rt2) \<Rightarrow> failed err (leave active None (cw_later world rt2))
                             | (Inr claimID, rt2) \<Rightarrow>
                                 (case callBackend (cw_claim world) (\<lambda>ctxErr clock. StartExecution (ec_codec ec) ctxErr clock
                                         \<lparr>sx_ExecutionID = executionID, sx_OwnerID = rn_ownerID rt2, sx_ClaimID = claimID,
                                          sx_LeaseTTL = rn_leaseTTL rt2, sx_Spec = spec, sx_SpecHash = specHash\<rparr>) s of
                                    (reply, s1) \<Rightarrow>
                                      runReply ec world ''start execution'' executionID zeroTarget active
                                        (resolveClaim executionID (faultOf reply) rt2)
                                        (map_sum id (\<lambda>claimed. (sr_Execution claimed, sr_Reconcile claimed)) reply) s1))))))"

definition resumeRuntime ::
    "EffectCodec \<Rightarrow> callWorld \<Rightarrow> ExecutionID \<Rightarrow> ResumeTarget \<Rightarrow> Runtime \<Rightarrow> store \<Rightarrow> callReturn" where
  "resumeRuntime ec world executionID target rt s =
     (let failed = (\<lambda>err rt1. \<lparr>cl_result = zeroResult, cl_err = Some err, cl_runtime = rt1, cl_store = s\<rparr>)
      in case validateRuntimeCall (cw_nilContext world) executionID of
           Some err \<Rightarrow> failed err rt
         | None \<Rightarrow>
             (case enter (cw_callerErr world) executionID rt of
                (Inl err, rt1) \<Rightarrow> failed err rt1
              | (Inr active, rt1) \<Rightarrow>
                  (case claimIDOf (cw_now world) (cw_generated world) executionID ''resume'' 0 rt1 of
                     (Inl err, rt2) \<Rightarrow> failed err (leave active None (cw_later world rt2))
                   | (Inr claimID, rt2) \<Rightarrow>
                       (case callBackend (cw_claim world) (\<lambda>ctxErr clock. ResumeExecution ctxErr clock
                               \<lparr>rx_ExecutionID = executionID, rx_OwnerID = rn_ownerID rt2, rx_ClaimID = claimID,
                                rx_LeaseTTL = rn_leaseTTL rt2\<rparr>) s of
                          (reply, s1) \<Rightarrow>
                            runReply ec world ''resume execution'' executionID target active
                              (resolveClaim executionID (faultOf reply) rt2)
                              (map_sum id (\<lambda>claimed. (rr_Execution claimed, rr_Reconcile claimed)) reply) s1))))"

section \<open>Suspend and close\<close>

text \<open>What a caller that waits for an execution sees first: its end with the control error, or its own context.\<close>

datatype waited = ExecutionDone "runtimeError option" | ContextDone goError

definition SuspendRuntime :: "bool \<Rightarrow> ExecutionID \<Rightarrow> waited \<Rightarrow> Runtime \<Rightarrow> runtimeError option \<times> Runtime" where
  "SuspendRuntime nilContext executionID wait rt =
     (case validateRuntimeCall nilContext executionID of
        Some err \<Rightarrow> (Some err, rt)
      | None \<Rightarrow>
          if rn_closed rt then (Some (executionRuntimeError executionID ErrClosed), rt)
          else case rn_active rt executionID of
            None \<Rightarrow> (Some (executionRuntimeError executionID ErrNotActive), rt)
          | Some active \<Rightarrow>
              (case requestSuspend active of
                 (Some err, active1) \<Rightarrow> (Some err, rt)
               | (None, active1) \<Rightarrow>
                   ((case wait of ExecutionDone controlErr \<Rightarrow> controlErr | ContextDone err \<Rightarrow> Some (EffectError err)),
                    rt\<lparr>rn_active := (rn_active rt)(executionID \<mapsto> active1)\<rparr>)))"

text \<open>The wait of \<^verbatim>\<open>Close\<close>: it stops at the first wait that its own context ends.\<close>

fun closeWaits :: "waited list \<Rightarrow> runtimeError list" where
  "closeWaits [] = []"
| "closeWaits (ExecutionDone (Some err) # rest) = err # closeWaits rest"
| "closeWaits (ExecutionDone None # rest) = closeWaits rest"
| "closeWaits (ContextDone err # rest) = [EffectError err]"

definition CloseRuntime :: "bool \<Rightarrow> waited list \<Rightarrow> Runtime \<Rightarrow> runtimeError option \<times> Runtime" where
  "CloseRuntime nilContext waits rt =
     (if nilContext then (Some (DurableError (Annotated ''nil context'' ErrInvalidArgument)), rt)
      else
        let closed = (if rn_closed rt then rt
              else rt\<lparr>rn_closed := True,
                     rn_active := (\<lambda>i. map_option (\<lambda>active. fst (requestStop (DurableError ErrClosed) active)) (rn_active rt i))\<rparr>)
        in (joinErrors (map Some (rn_closeErrors closed @ closeWaits waits)), closed))"

section \<open>Reconciliation\<close>

record Reconciliation =
  rc_AttemptNumber :: int
  rc_AttemptVersion :: uint64
  rc_Resolution :: ReconcileResolution
  rc_ModelEvents :: "Event list"
  rc_ToolResult :: "ToolResult option"
  rc_Failure :: "FailureRecord option"

definition scanTurnModel :: "string \<Rightarrow> int option" where
  "scanTurnModel s =
     (if take 5 s \<noteq> ''turn:'' then None
      else case scanInt (drop 5 s) of
        None \<Rightarrow> None
      | Some (turn, rest) \<Rightarrow> if take 6 rest \<noteq> '':model'' then None else Some turn)"

definition operationKind :: "string \<Rightarrow> AttemptKind option" where
  "operationKind operationID =
     (case scanTurnModel operationID of
        Some turn \<Rightarrow>
          if turn \<ge> 0 \<and> operationID = modelOperationID turn then Some AttemptKindModel
          else (case scanTurnCall operationID of
                  Some (turn1, call) \<Rightarrow>
                    if turn1 \<ge> 0 \<and> call \<ge> 0 \<and> operationID = toolOperationID turn1 call then Some AttemptKindTool else None
                | None \<Rightarrow> None)
      | None \<Rightarrow>
          (case scanTurnCall operationID of
             Some (turn1, call) \<Rightarrow>
               if turn1 \<ge> 0 \<and> call \<ge> 0 \<and> operationID = toolOperationID turn1 call then Some AttemptKindTool else None
           | None \<Rightarrow> None))"

text \<open>The texts of the errors are those of the code; a found call is the only one with its operation ID.\<close>

definition checkpointToolCall :: "Execution \<Rightarrow> string \<Rightarrow> string + ToolCall" where
  "checkpointToolCall execution operationID =
     (case e_Checkpoint execution of
        None \<Rightarrow> Inl ''tool reconciliation requires a checkpoint''
      | Some checkpoint \<Rightarrow>
          (case filter (\<lambda>call. tc_OperationID call = operationID) (concat (map m_ToolCalls (c_Messages (ck_Continuation checkpoint)))) of
             [] \<Rightarrow> Inl ''checkpoint omits operation ID''
           | [call] \<Rightarrow> Inr call
           | _ \<Rightarrow> Inl ''checkpoint repeats operation ID''))"

definition normalizeReconciledToolResult :: "ToolCall \<Rightarrow> ToolResult \<Rightarrow> string + ToolResult" where
  "normalizeReconciledToolResult call result =
     (if tr_ToolCallID result \<noteq> [] \<and> tr_ToolCallID result \<noteq> tc_ID call then Inl ''tool result call ID conflicts''
      else if tr_Name result \<noteq> [] \<and> tr_Name result \<noteq> tc_Name call then Inl ''tool result name conflicts''
      else Inr (result\<lparr>tr_ToolCallID := tc_ID call, tr_Name := tc_Name call\<rparr>))"

definition textError :: "string \<Rightarrow> runtimeError" where
  "textError text0 = EffectError (TextError text0)"

definition modelReconciliationPayload ::
    "EffectCodec \<Rightarrow> Reconciliation \<Rightarrow> runtimeError + (bytes \<times> FailureRecord option)" where
  "modelReconciliationPayload ec r =
     (if rc_ToolResult r \<noteq> None then Inl (textError ''model reconciliation contains a tool result'')
      else case rc_Resolution r of
        ReconcileResolutionSucceed \<Rightarrow>
          if rc_Failure r \<noteq> None then Inl (textError ''successful model reconciliation contains failure'')
          else (case validateSuccessfulModelEvents ec (rc_ModelEvents r) of
                  Some err \<Rightarrow> Inl err
                | None \<Rightarrow> map_sum id (\<lambda>payload. (payload, None)) (encodeModelAttempt ec (rc_ModelEvents r) None))
      | ReconcileResolutionFail \<Rightarrow>
          (case rc_Failure r of
             None \<Rightarrow> Inl (textError ''failed model reconciliation omits failure'')
           | Some failure \<Rightarrow>
               (case validateFailedModelEvents ec (rc_ModelEvents r) of
                  Some err \<Rightarrow> Inl err
                | None \<Rightarrow> map_sum id (\<lambda>payload. (payload, Some failure)) (encodeModelAttempt ec (rc_ModelEvents r) (Some failure))))
      | ReconcileResolutionRetry \<Rightarrow>
          if rc_ModelEvents r \<noteq> [] \<or> rc_Failure r \<noteq> None
          then Inl (textError ''retry model reconciliation contains output or failure'') else Inr ([], None)
      | ReconcileResolutionOther text0 \<Rightarrow> Inl (textError ''unknown reconciliation resolution''))"

definition toolReconciliationPayload ::
    "EffectCodec \<Rightarrow> Execution \<Rightarrow> string \<Rightarrow> Reconciliation \<Rightarrow> runtimeError + (bytes \<times> FailureRecord option)" where
  "toolReconciliationPayload ec execution operationID r =
     (if rc_ModelEvents r \<noteq> [] then Inl (textError ''tool reconciliation contains model events'')
      else case checkpointToolCall execution operationID of
        Inl text0 \<Rightarrow> Inl (textError text0)
      | Inr call \<Rightarrow>
          (case rc_Resolution r of
             ReconcileResolutionSucceed \<Rightarrow>
               (case rc_ToolResult r of
                  None \<Rightarrow> Inl (textError ''successful tool reconciliation requires only a tool result'')
                | Some given \<Rightarrow>
                    if rc_Failure r \<noteq> None then Inl (textError ''successful tool reconciliation requires only a tool result'')
                    else (case normalizeReconciledToolResult call given of
                            Inl text0 \<Rightarrow> Inl (textError text0)
                          | Inr result \<Rightarrow> map_sum id (\<lambda>payload. (payload, None)) (encodeToolAttempt ec result None)))
           | ReconcileResolutionFail \<Rightarrow>
               (case rc_Failure r of
                  None \<Rightarrow> Inl (textError ''failed tool reconciliation omits failure'')
                | Some failure \<Rightarrow>
                    (case (case rc_ToolResult r of None \<Rightarrow> Inr zeroToolResult | Some given \<Rightarrow> normalizeReconciledToolResult call given) of
                       Inl text0 \<Rightarrow> Inl (textError text0)
                     | Inr result \<Rightarrow> map_sum id (\<lambda>payload. (payload, Some failure)) (encodeToolAttempt ec result (Some failure))))
           | ReconcileResolutionRetry \<Rightarrow>
               if rc_ToolResult r \<noteq> None \<or> rc_Failure r \<noteq> None
               then Inl (textError ''retry tool reconciliation contains output or failure'') else Inr ([], None)
           | ReconcileResolutionOther text0 \<Rightarrow> Inl (textError ''unknown reconciliation resolution'')))"

definition reconciliationPayload ::
    "EffectCodec \<Rightarrow> Execution \<Rightarrow> string \<Rightarrow> AttemptKind \<Rightarrow> Reconciliation \<Rightarrow> runtimeError + (bytes \<times> FailureRecord option)" where
  "reconciliationPayload ec execution operationID kind r =
     (case kind of
        AttemptKindModel \<Rightarrow> modelReconciliationPayload ec r
      | AttemptKindTool \<Rightarrow> toolReconciliationPayload ec execution operationID r
      | AttemptKindOther text0 \<Rightarrow> Inl (textError ''unknown attempt kind''))"

definition ReconcileRuntime ::
    "EffectCodec \<Rightarrow> bool \<Rightarrow> wire \<Rightarrow> wire \<Rightarrow> call list \<Rightarrow> ExecutionID \<Rightarrow> string \<Rightarrow> Reconciliation \<Rightarrow> Runtime \<Rightarrow> store
       \<Rightarrow> runtimeError option \<times> store" where
  "ReconcileRuntime ec nilContext w1 w2 meanwhile executionID operationID r rt s =
     (let attemptErr = (\<lambda>err. Some (OfAttempt executionID operationID (rc_AttemptNumber r) err))
      in case validateRuntimeCall nilContext executionID of
           Some err \<Rightarrow> (Some err, s)
         | None \<Rightarrow>
             if blank operationID \<or> rc_AttemptNumber r < 1 \<or> rc_AttemptVersion r = 0
             then (Some (attemptRuntimeError executionID operationID (rc_AttemptNumber r) ErrInvalidArgument), s)
             else if rn_closed rt then (Some (executionRuntimeError executionID ErrClosed), s)
             else if rn_active rt executionID \<noteq> None then (Some (executionRuntimeError executionID ErrBusy), s)
             else case callBackend w1 (\<lambda>ctxErr clock. LoadExecution (ec_codec ec) ctxErr clock executionID) s of
               (Inl fault, s1) \<Rightarrow> (Some (backendExecutionOperationError ''load execution for reconciliation'' executionID fault), s1)
             | (Inr execution, s1) \<Rightarrow>
                 if e_ID execution \<noteq> executionID then (Some (executionRuntimeError executionID ErrConflict), s1)
                 else case validateExecutionCheckpoint (ec_codec ec) execution executionID of
                   Some err \<Rightarrow> (Some err, s1)
                 | None \<Rightarrow>
                     (case operationKind operationID of
                        None \<Rightarrow> (attemptErr (textError ''invalid operation ID''), s1)
                      | Some kind \<Rightarrow>
                          (case reconciliationPayload ec execution operationID kind r of
                             Inl err \<Rightarrow> (attemptErr (RuntimeJoin [DurableError ErrInvalidArgument, err]), s1)
                           | Inr (payload, failure) \<Rightarrow>
                               (case callBackend w2 (\<lambda>ctxErr clock. ReconcileAttempt ctxErr clock
                                       \<lparr>ra_ExecutionID = executionID, ra_OperationID = operationID,
                                        ra_AttemptNumber = rc_AttemptNumber r, ra_ExpectedAttemptVersion = rc_AttemptVersion r,
                                        ra_Resolution = rc_Resolution r, ra_Payload = payload, ra_Failure = failure\<rparr>)
                                       (history (ec_codec ec) meanwhile s1) of
                                  (Inl fault, s2) \<Rightarrow> (Some (backendOperationError ''reconcile attempt'' fault), s2)
                                | (Inr attempt, s2) \<Rightarrow> (None, s2)))))"

end
