(* ===== verification/Backend_Retry.thy ===== *)
theory Backend_Retry
  imports Backend_Properties
begin

text \<open>
  Only an operator abandons an attempt: of the calls of the backend, \<^verbatim>\<open>ReconcileAttempt\<close> with the resolution
  \<^verbatim>\<open>retry\<close> is the one that can move an attempt to \<^verbatim>\<open>abandoned\<close>, the status after which the backend lets the
  operation be executed again. The locale \<open>keeps_open\<close> states that for an operation on one record.
\<close>

definition abandonedIn :: "executionRecord \<Rightarrow> string \<Rightarrow> int set" where
  "abandonedIn rec opn = a_Number ` {a \<in> set (slotOf rec opn). a_Status a = AttemptStatusAbandoned}"

lemma slotOf_fields [simp]:
  "slotOf (rec\<lparr>er_execution := e\<rparr>) opn = slotOf rec opn"
  "slotOf (rec\<lparr>er_claims := c\<rparr>) opn = slotOf rec opn"
  "slotOf (rec\<lparr>er_releases := r\<rparr>) opn = slotOf rec opn"
  "slotOf (rec\<lparr>er_suspends := p\<rparr>) opn = slotOf rec opn"
  "slotOf (rec\<lparr>er_finishes := f\<rparr>) opn = slotOf rec opn"
  "slotOf (rec\<lparr>er_nextToken := t\<rparr>) opn = slotOf rec opn"
  by (simp_all add: slotOf_def)

lemma abandonedIn_fields [simp]:
  "abandonedIn (rec\<lparr>er_execution := e\<rparr>) opn = abandonedIn rec opn"
  "abandonedIn (rec\<lparr>er_claims := c\<rparr>) opn = abandonedIn rec opn"
  "abandonedIn (rec\<lparr>er_releases := r\<rparr>) opn = abandonedIn rec opn"
  "abandonedIn (rec\<lparr>er_suspends := p\<rparr>) opn = abandonedIn rec opn"
  "abandonedIn (rec\<lparr>er_finishes := f\<rparr>) opn = abandonedIn rec opn"
  "abandonedIn (rec\<lparr>er_nextToken := t\<rparr>) opn = abandonedIn rec opn"
  by (simp_all add: abandonedIn_def)

lemma abandonedIn_reconcileRunning:
  "abandonedIn (snd (reconcileRunning rec token)) opn \<subseteq> abandonedIn rec opn"
  by (auto simp: abandonedIn_def reconcileRunning_def slotOf_def map_of_map Let_def split: option.splits if_splits)

lemma abandonedIn_grantLease:
  "abandonedIn (snd (grantLease rec owner claim ttl now)) opn \<subseteq> abandonedIn rec opn"
  using abandonedIn_reconcileRunning [of rec 0 opn]
  by (auto simp: grantLease_def reconcileForClaim_def Let_def split_def)

lemma abandonedIn_setSlot:
  assumes "\<And>a. a \<in> set as \<Longrightarrow> a_Status a = AttemptStatusAbandoned \<Longrightarrow> a \<in> set (slotOf rec opn)"
  shows "abandonedIn (setSlot opn as rec) other \<subseteq> abandonedIn rec other"
  using assms by (auto simp: abandonedIn_def)

lemma abandonedIn_updateAttempt:
  assumes "a_Status b \<noteq> AttemptStatusAbandoned"
  shows "abandonedIn (updateAttempt opn k b rec) other \<subseteq> abandonedIn rec other"
  unfolding updateAttempt_def
proof (rule abandonedIn_setSlot)
  fix a assume a: "a \<in> set ((slotOf rec opn)[k := b])" "a_Status a = AttemptStatusAbandoned"
  have "a \<in> insert b (set (slotOf rec opn))" using set_update_subset_insert a(1) by fast
  then show "a \<in> set (slotOf rec opn)" using a(2) assms by auto
qed

locale keeps_open = record_operation idOf body
  for idOf :: "'q \<Rightarrow> ExecutionID" and body :: "'q \<Rightarrow> executionRecord \<Rightarrow> instant \<Rightarrow> 'a reply \<times> executionRecord" +
  assumes body_open: "abandonedIn (snd (body q rec now)) opn \<subseteq> abandonedIn rec opn"
begin

lemma withRecord_open:
  assumes "st_executions s i = Some rec"
    and "st_executions (snd (withRecord ctxErr clock (idOf q) opn (body q) s)) i = Some rec'"
  shows "abandonedIn rec' other \<subseteq> abandonedIn rec other"
proof (cases rule: withRecord_cases [of ctxErr clock "idOf q" opn "body q" s])
  case (found rec0)
  then show ?thesis using assms body_open [of q rec0 _ other] by (auto split: if_splits)
qed (use assms in auto)

end

lemmas open_simps = abandonedIn_reconcileRunning abandonedIn_grantLease abandonedIn_updateAttempt

interpretation renew_open: keeps_open nx_ExecutionID renewBody
  by unfold_locales (simp add: renewBody_def Let_def split: option.splits)

interpretation save_open: keeps_open cx_ExecutionID "saveBody codec" for codec
  by unfold_locales (simp add: saveBody_def Let_def split: option.splits)

interpretation suspend_open: keeps_open px_ExecutionID suspendBody
  by unfold_locales (simp add: suspendBody_def Let_def open_simps split: option.splits)

interpretation release_open: keeps_open lx_ExecutionID releaseBody
  by unfold_locales (simp add: releaseBody_def Let_def split_def open_simps split: option.splits)

interpretation finish_open: keeps_open fx_ExecutionID "finishBody codec" for codec
  by unfold_locales (simp add: finishBody_def Let_def split: option.splits)

interpretation resume_open: keeps_open rx_ExecutionID resumeBody
  by unfold_locales (simp add: resumeBody_def Let_def split_def open_simps split: option.splits)

interpretation finishAttempt_open: keeps_open fa_ExecutionID finishAttemptBody
  by unfold_locales (simp add: finishAttemptBody_def Let_def open_simps split: option.splits)

interpretation markUnknown_open: keeps_open fa_ExecutionID markUnknownBody
  by unfold_locales (simp add: markUnknownBody_def Let_def open_simps split: option.splits)

interpretation startAttempt_open: keeps_open sa_ExecutionID startAttemptBody
proof (unfold_locales, goal_cases)
  case (1 q rec now opn)
  have "abandonedIn (setSlot (sa_OperationID q) ((slotOf rec (sa_OperationID q))[k := makeUnknown a]) rec) opn \<subseteq> abandonedIn rec opn" for k a
    using abandonedIn_updateAttempt [of "makeUnknown a" "sa_OperationID q" k rec opn] by (simp add: updateAttempt_def)
  moreover have "abandonedIn (setSlot (sa_OperationID q) (slotOf rec (sa_OperationID q) @ [newAttempt q n]) rec) opn \<subseteq> abandonedIn rec opn"
    "abandonedIn (setSlot (sa_OperationID q) [newAttempt q n] rec) opn \<subseteq> abandonedIn rec opn" for n
    by (rule abandonedIn_setSlot; auto simp: newAttempt_def)+
  ultimately show ?case by (cases "a_Status (last (slotOf rec (sa_OperationID q)))") (simp_all add: startAttemptBody_def Let_def)
qed

lemma StartExecution_open:
  assumes "st_executions s i = Some rec" "st_executions (snd (StartExecution codec ctxErr clock q s)) i = Some rec'"
  shows "abandonedIn rec' opn \<subseteq> abandonedIn rec opn"
proof -
  have c: "abandonedIn (snd (claimForStart rec0 q now)) opn \<subseteq> abandonedIn rec0 opn" for rec0 now
    by (simp add: claimForStart_def Let_def split_def open_simps split: option.splits)
  show ?thesis using assms c
    by (auto simp: StartExecution_def Let_def split_def split: option.splits if_splits)
qed

lemmas operation_open = StartExecution_open
  renew_open.withRecord_open save_open.withRecord_open suspend_open.withRecord_open release_open.withRecord_open
  finish_open.withRecord_open resume_open.withRecord_open finishAttempt_open.withRecord_open
  markUnknown_open.withRecord_open startAttempt_open.withRecord_open

text \<open>The calls that ask for a retry of one attempt.\<close>

fun asksRetry :: "ExecutionID \<Rightarrow> string \<Rightarrow> int \<Rightarrow> call \<Rightarrow> bool" where
  "asksRetry i opn number (ctxErr, clock, CmdReconcile q) \<longleftrightarrow>
     ra_ExecutionID q = i \<and> ra_OperationID q = opn \<and> ra_AttemptNumber q = number \<and> ra_Resolution q = ReconcileResolutionRetry"
| "asksRetry i opn number _ \<longleftrightarrow> False"

lemma reconcileBody_open:
  assumes "number \<in> abandonedIn (snd (reconcileBody q rec now)) opn" "number \<notin> abandonedIn rec opn"
  shows "ra_OperationID q = opn \<and> ra_AttemptNumber q = number \<and> ra_Resolution q = ReconcileResolutionRetry"
proof -
  obtain k a where f: "attemptByNumber rec (ra_OperationID q) (ra_AttemptNumber q) = Some (k, a)"
    and u: "snd (reconcileBody q rec now) = updateAttempt (ra_OperationID q) k (resolveAttempt q a) rec"
    using assms by (auto simp: reconcileBody_def Let_def split: option.splits if_splits)
  have st: "a_Status a = AttemptStatusUnknown" using assms f
    by (auto simp: reconcileBody_def Let_def split: option.splits if_splits)
  have r: "a_Status (resolveAttempt q a) = AttemptStatusAbandoned" "ra_Resolution q = ReconcileResolutionRetry"
    using abandonedIn_updateAttempt [of "resolveAttempt q a" "ra_OperationID q" k rec opn] assms u st
    by (auto simp: resolveAttempt_def Let_def split: ReconcileResolution.splits)
  obtain b where b: "b \<in> set (slotOf (updateAttempt (ra_OperationID q) k (resolveAttempt q a) rec) opn)"
    "a_Number b = number" "a_Status b = AttemptStatusAbandoned"
    using assms(1) u by (auto simp: abandonedIn_def)
  have "b \<notin> set (slotOf rec opn)" using assms(2) b by (auto simp: abandonedIn_def)
  then have "opn = ra_OperationID q" "b = resolveAttempt q a"
    using b(1) set_update_subset_insert [of "slotOf rec opn" k "resolveAttempt q a"]
    by (auto simp: updateAttempt_def split: if_splits)
  then show ?thesis using b(2) r(2) attemptByNumber_Some(3) [OF f] by (simp add: resolveAttempt_def)
qed

lemma execute_abandons:
  assumes "st_executions s i = Some rec" "st_executions (execute codec call s) i = Some rec'"
    "number \<in> abandonedIn rec' opn" "number \<notin> abandonedIn rec opn"
  shows "asksRetry i opn number call"
proof (cases call)
  case (fields ctxErr clock cmd)
  show ?thesis
  proof (cases "\<exists>q. cmd = CmdReconcile q")
    case True
    then obtain q where q: "cmd = CmdReconcile q" by blast
    have "st_executions (snd (withRecord ctxErr clock (ra_ExecutionID q) (ra_OperationID q) (reconcileBody q) s)) i = Some rec'"
      using assms fields q by (auto simp: ReconcileAttempt_def split: option.splits)
    then show ?thesis
      using assms(1,3,4) reconcileBody_open [of number q rec _ opn] fields q
      by (cases rule: withRecord_cases [of ctxErr clock "ra_ExecutionID q" "ra_OperationID q" "reconcileBody q" s])
        (auto split: if_splits)
  next
    case False
    then have "abandonedIn rec' opn \<subseteq> abandonedIn rec opn"
      using assms(1,2) fields
      by (cases cmd) (auto simp: operation_defs split: if_splits option.splits dest!: operation_open [OF assms(1)])
    then show ?thesis using assms by blast
  qed
qed

lemma history_abandons:
  assumes "wfStore s" "st_executions s i = Some rec" "st_executions (history codec calls s) i = Some rec'"
    "number \<in> abandonedIn rec' opn" "number \<notin> abandonedIn rec opn"
  shows "\<exists>call \<in> set calls. asksRetry i opn number call"
  using assms
proof (induction calls arbitrary: s rec)
  case (Cons call calls)
  obtain rec1 where r: "st_executions (execute codec call s) i = Some rec1"
    using execute_step [OF Cons.prems(1,2)] by blast
  show ?case
  proof (cases "number \<in> abandonedIn rec1 opn")
    case True
    then show ?thesis using execute_abandons [OF Cons.prems(2) r] Cons.prems(5) by auto
  next
    case False
    then show ?thesis using Cons.IH [OF execute_wf [OF Cons.prems(1)] r] Cons.prems(3,4) by auto
  qed
qed simp

end
