(* ===== verification/Durable_Effects_Laws.thy ===== *)
theory Durable_Effects_Laws
  imports Durable_Effects Backend_Retry
begin

text \<open>
  What the interceptors of the durable runtime guarantee on the backend: under which attempts a driver runs,
  what is recorded before an answer is handed on, and what a later execution of the same operation finds.
\<close>

section \<open>Attempts in the store\<close>

lemma leaseReference_refOf [simp]: "leaseReference lease = refOf lease"
  by (simp add: leaseReference_def refOf_def)

text \<open>An attempt stays in its slot, and changes only as \<open>evolves\<close> allows.\<close>

lemma attempt_persists:
  assumes "wfStore s" "st_executions s i = Some rec" "a \<in> set (slotOf rec opn)"
  shows "\<exists>rec' b. st_executions (history codec later s) i = Some rec' \<and> b \<in> set (slotOf rec' opn) \<and> evolves a b"
proof -
  obtain rec' where "st_executions (history codec later s) i = Some rec'" "recStep rec rec'"
    using history_step [OF assms(1,2)] by blast
  then show ?thesis using assms(3) unfolding recStep_def attemptsKept_def by blast
qed

lemma history_snoc [simp]: "execute codec call (history codec calls s) = history codec (calls @ [call]) s"
  by (simp add: history_append)

lemma StartAttempt_Inr:
  assumes "StartAttempt ctxErr clock q s = (Inr started, s')"
  obtains rec rec' where "st_executions s (sa_ExecutionID q) = Some rec"
    "startAttemptBody q rec (trustedNow clock s) = (Inr started, rec')"
    "s' = s\<lparr>st_executions := (st_executions s)(sa_ExecutionID q \<mapsto> rec')\<rparr>"
proof -
  have w: "withRecord ctxErr clock (sa_ExecutionID q) (sa_OperationID q) (startAttemptBody q) s = (Inr started, s')"
    using assms by (auto simp: StartAttempt_def split: if_splits)
  show thesis
    by (cases rule: withRecord_cases [of ctxErr clock "sa_ExecutionID q" "sa_OperationID q" "startAttemptBody q" s])
      (use w that in \<open>auto simp: prod_eq_iff\<close>)
qed

text \<open>The attempt an answer \<^verbatim>\<open>execute\<close> names is running under the caller's lease.\<close>

lemma startAttemptBody_started:
  assumes "startAttemptBody q rec now = (Inr started, rec')" "as_Decision started = AttemptDecisionExecute"
    "wfRecord i rec"
  shows "as_Attempt started \<in> set (slotOf rec' (sa_OperationID q)) \<and> a_Status (as_Attempt started) = AttemptStatusRunning
    \<and> a_Lease (as_Attempt started) = Some (sa_Lease q) \<and> a_Kind (as_Attempt started) = sa_Kind q
    \<and> a_InputHash (as_Attempt started) = sa_InputHash q \<and> a_OperationID (as_Attempt started) = sa_OperationID q"
proof -
  have "a_OperationID (last (slotOf rec (sa_OperationID q))) = sa_OperationID q" if "slotOf rec (sa_OperationID q) \<noteq> []"
    using wf_slot [OF assms(3) that] that by (simp add: wfSlot_def wfAttempt_def list_all_iff)
  then show ?thesis using assms(1,2)
    by (auto simp: startAttemptBody_def newAttempt_def Let_def split: if_splits AttemptStatus.splits)
qed

lemma StartAttempt_started:
  assumes "StartAttempt ctxErr clock q s = (Inr started, s')" "as_Decision started = AttemptDecisionExecute" "wfStore s"
  obtains rec' where "st_executions s' (sa_ExecutionID q) = Some rec'" "as_Attempt started \<in> set (slotOf rec' (sa_OperationID q))"
    "a_Status (as_Attempt started) = AttemptStatusRunning" "a_Lease (as_Attempt started) = Some (sa_Lease q)"
    "a_Kind (as_Attempt started) = sa_Kind q" "a_InputHash (as_Attempt started) = sa_InputHash q"
    "a_OperationID (as_Attempt started) = sa_OperationID q" "wfRecord (sa_ExecutionID q) rec'"
proof -
  obtain rec rec' where r: "st_executions s (sa_ExecutionID q) = Some rec"
    "startAttemptBody q rec (trustedNow clock s) = (Inr started, rec')"
    "s' = s\<lparr>st_executions := (st_executions s)(sa_ExecutionID q \<mapsto> rec')\<rparr>"
    using assms(1) by (rule StartAttempt_Inr)
  have wf: "wfRecord (sa_ExecutionID q) rec" using r(1) assms(3) by (simp add: wfStore_def)
  have "wfRecord (sa_ExecutionID q) rec'" using startAttempt.body_wf [OF wf, of "trustedNow clock s"] r(2) by simp
  then show thesis using that [of rec'] startAttemptBody_started [OF r(2) assms(2) wf] r(3) by simp
qed

section \<open>Calls of the runtime as histories\<close>

lemma callBackend_Inr:
  "callBackend w operation s = (Inr value, s1) \<longleftrightarrow>
     wi_down w = None \<and> wi_lost w = None \<and> operation (wi_ctxErr w) (wi_clock w) s = (Inr value, s1)"
  by (cases "operation (wi_ctxErr w) (wi_clock w) s"; cases "fst (operation (wi_ctxErr w) (wi_clock w) s)")
    (auto simp: callBackend_def split: option.splits)

lemma callBackend_store:
  "snd (callBackend w operation s) = s \<or> snd (callBackend w operation s) = snd (operation (wi_ctxErr w) (wi_clock w) s)"
  by (auto simp: callBackend_def split_def split: option.splits)

text \<open>The stores that the runtime's settling calls can leave.\<close>

lemma finishAttempt_history:
  "\<exists>calls. snd (finishAttempt w active attempt payload failure s) = history codec calls s
     \<and> (\<forall>call \<in> set calls. \<not> asksRetry i opn number call)"
proof -
  have "\<exists>calls. snd (callBackend w (\<lambda>ctxErr clock. FinishAttempt ctxErr clock q) s) = history codec calls s
      \<and> (\<forall>call \<in> set calls. \<not> asksRetry i opn number call)" for q
    using callBackend_store [of w "\<lambda>ctxErr clock. FinishAttempt ctxErr clock q" s]
    by (elim disjE) (rule exI [of _ "[]"], simp, rule exI [of _ "[(wi_ctxErr w, wi_clock w, CmdFinishAttempt q)]"], simp)
  then show ?thesis
    by (auto simp: finishAttempt_def split_def split: option.splits sum.splits intro: exI [of _ "[]"])
qed

lemma markAttemptUnknown_history:
  "\<exists>calls. snd (markAttemptUnknown w active attempt payload failure s) = history codec calls s
     \<and> (\<forall>call \<in> set calls. \<not> asksRetry i opn number call)"
proof -
  have "\<exists>calls. snd (callBackend w (\<lambda>ctxErr clock. MarkAttemptUnknown ctxErr clock q) s) = history codec calls s
      \<and> (\<forall>call \<in> set calls. \<not> asksRetry i opn number call)" for q
    using callBackend_store [of w "\<lambda>ctxErr clock. MarkAttemptUnknown ctxErr clock q" s]
    by (elim disjE) (rule exI [of _ "[]"], simp, rule exI [of _ "[(wi_ctxErr w, wi_clock w, CmdMarkUnknown q)]"], simp)
  then show ?thesis
    by (auto simp: markAttemptUnknown_def split_def split: option.splits sum.splits intro: exI [of _ "[]"])
qed

lemma toolAttemptSettle_history:
  "\<exists>calls. snd (snd (toolAttemptSettle ec w active attempt outcome s)) = history codec calls s
     \<and> (\<forall>call \<in> set calls. \<not> asksRetry i opn number call)"
proof -
  have "\<exists>payload failure. snd (snd (toolAttemptSettle ec w active attempt outcome s)) = snd (finishAttempt w active attempt payload failure s)
      \<or> snd (snd (toolAttemptSettle ec w active attempt outcome s)) = snd (markAttemptUnknown w active attempt payload failure s)"
    by (auto simp: toolAttemptSettle_def Let_def split_def split: sum.splits prod.splits)
  then show ?thesis using finishAttempt_history markAttemptUnknown_history by metis
qed

section \<open>The tool interceptor\<close>

lemma startRequest_fields [simp]:
  "sa_ExecutionID (startRequest active lease opn kind h) = ac_id active"
  "sa_OperationID (startRequest active lease opn kind h) = opn"
  "sa_Lease (startRequest active lease opn kind h) = refOf lease"
  "sa_Kind (startRequest active lease opn kind h) = kind"
  "sa_InputHash (startRequest active lease opn kind h) = h"
  by (simp_all add: startRequest_def)

lemma startRequest_effects [simp]: "startRequest (active\<lparr>ac_effects := n\<rparr>) = startRequest active"
  by (intro ext) (simp add: startRequest_def)

lemma tool_reached:
  "tn_reached (toolAttemptExecute ec w1 w2 meanwhile drift nextd active call s) =
     (if tn_attempt (toolAttemptExecute ec w1 w2 meanwhile drift nextd active call s) = None then [] else [call])"
  by (simp add: toolAttemptExecute_def Let_def split: option.split prod.split sum.split AttemptDecision.split)

lemma tool_reaches:
  assumes "tn_attempt (toolAttemptExecute ec w1 w2 meanwhile drift nextd active call s) = Some a"
  obtains lease h started s1 where "e_Lease (ac_execution active) = Some lease" "toolInputHash ec call = Some h"
    "StartAttempt (wi_ctxErr w1) (wi_clock w1) (startRequest active lease (tc_OperationID call) AttemptKindTool h) s = (Inr started, s1)"
    "as_Decision started = AttemptDecisionExecute" "a = as_Attempt started" "tc_OperationID call \<noteq> []"
    "tn_store (toolAttemptExecute ec w1 w2 meanwhile drift nextd active call s) =
      snd (snd (toolAttemptSettle ec w2 (drift (active\<lparr>ac_effects := ac_effects active + 1\<rparr>)) a (nextd call)
        (history (ec_codec ec) meanwhile s1)))"
    "(tn_result (toolAttemptExecute ec w1 w2 meanwhile drift nextd active call s),
      tn_err (toolAttemptExecute ec w1 w2 meanwhile drift nextd active call s),
      tn_store (toolAttemptExecute ec w1 w2 meanwhile drift nextd active call s)) =
      toolAttemptSettle ec w2 (drift (active\<lparr>ac_effects := ac_effects active + 1\<rparr>)) a (nextd call)
        (history (ec_codec ec) meanwhile s1)"
proof -
  let ?active = "active\<lparr>ac_effects := ac_effects active + 1\<rparr>"
  have b: "beginEffect active = (None, ?active)" and o: "tc_OperationID call \<noteq> []"
    using assms by (auto simp: toolAttemptExecute_def beginEffect_def Let_def split: option.splits if_splits)
  obtain h where h: "toolInputHash ec call = Some h"
    using assms b o by (auto simp: toolAttemptExecute_def Let_def split: option.splits)
  obtain lease where l: "e_Lease (ac_execution active) = Some lease"
    using assms b o h by (cases "e_Lease (ac_execution active)") (auto simp: toolAttemptExecute_def Let_def)
  let ?q = "startRequest active lease (tc_OperationID call) AttemptKindTool h"
  obtain r s1 where c: "callBackend w1 (\<lambda>ctxErr clock. StartAttempt ctxErr clock ?q) s = (r, s1)" by fastforce
  obtain started where r: "r = Inr started"
    using assms b o h l c by (cases r) (auto simp: toolAttemptExecute_def Let_def)
  have d: "as_Decision started = AttemptDecisionExecute"
    using assms b o h l c r by (cases "as_Decision started") (auto simp: toolAttemptExecute_def Let_def split: sum.splits)
  have st: "StartAttempt (wi_ctxErr w1) (wi_clock w1) ?q s = (Inr started, s1)" using c r by (simp add: callBackend_Inr)
  note path = toolAttemptExecute_def b o h l c r d
  have a: "a = as_Attempt started"
    using assms by (simp add: path Let_def split: prod.splits)
  show thesis
    by (rule that [OF l h st d a o]) (simp_all add: path a Let_def split: prod.splits)
qed

lemma tool_reaches_store:
  assumes "tn_attempt (toolAttemptExecute ec w1 w2 meanwhile drift nextd active call s) = Some a" "wfStore s"
  obtains rec s1 settling where "st_executions s1 (ac_id active) = Some rec" "a \<in> set (slotOf rec (tc_OperationID call))"
    "a_Status a = AttemptStatusRunning" "a_Kind a = AttemptKindTool" "toolInputHash ec call = Some (a_InputHash a)"
    "a_Lease a = map_option refOf (e_Lease (ac_execution active))" "a_OperationID a = tc_OperationID call" "wfStore s1"
    "tn_store (toolAttemptExecute ec w1 w2 meanwhile drift nextd active call s) = history (ec_codec ec) (meanwhile @ settling) s1"
    "\<forall>call \<in> set settling. \<not> asksRetry i opn number call"
  using assms(1)
proof (cases rule: tool_reaches)
  case (1 lease h started s1)
  have "s1 = execute (ec_codec ec) (wi_ctxErr w1, wi_clock w1, CmdStartAttempt (startRequest active lease (tc_OperationID call) AttemptKindTool h)) s"
    using 1(3) by simp
  then have wf: "wfStore s1" using assms(2) by (simp only: execute_wf)
  obtain settling where settled: "tn_store (toolAttemptExecute ec w1 w2 meanwhile drift nextd active call s) = history (ec_codec ec) (meanwhile @ settling) s1"
    "\<forall>call \<in> set settling. \<not> asksRetry i opn number call"
    unfolding 1(7) history_append using toolAttemptSettle_history by blast
  show thesis
  proof (rule StartAttempt_started [OF 1(3,4) assms(2)], unfold startRequest_fields)
    fix rec
    assume started: "st_executions s1 (ac_id active) = Some rec" "as_Attempt started \<in> set (slotOf rec (tc_OperationID call))"
      "a_Status (as_Attempt started) = AttemptStatusRunning" "a_Lease (as_Attempt started) = Some (refOf lease)"
      "a_Kind (as_Attempt started) = AttemptKindTool" "a_InputHash (as_Attempt started) = h"
      "a_OperationID (as_Attempt started) = tc_OperationID call"
    show thesis
      by (rule that [OF started(1) _ _ _ _ _ _ wf settled]) (simp_all only: 1(1,2,5) started option.map)
  qed
qed

lemma tool_reaches_settles:
  assumes "tn_attempt (toolAttemptExecute ec w1 w2 meanwhile drift nextd active call s) = Some a" "wfStore s"
  obtains s1 result err s3 where "tc_OperationID call \<noteq> []" "a_OperationID a = tc_OperationID call" "wfStore s1"
    "toolAttemptSettle ec w2 (drift (active\<lparr>ac_effects := ac_effects active + 1\<rparr>)) a (nextd call)
      (history (ec_codec ec) meanwhile s1) = (result, err, s3)"
    "tn_store (toolAttemptExecute ec w1 w2 meanwhile drift nextd active call s) = s3"
    "tn_result (toolAttemptExecute ec w1 w2 meanwhile drift nextd active call s) = result"
    "tn_err (toolAttemptExecute ec w1 w2 meanwhile drift nextd active call s) = err"
  using assms(1)
proof (cases rule: tool_reaches)
  case (1 lease h started s1)
  obtain result err s3 where t: "toolAttemptSettle ec w2 (drift (active\<lparr>ac_effects := ac_effects active + 1\<rparr>)) a (nextd call)
      (history (ec_codec ec) meanwhile s1) = (result, err, s3)" by (rule prod_cases3)
  have "s1 = execute (ec_codec ec) (wi_ctxErr w1, wi_clock w1, CmdStartAttempt (startRequest active lease (tc_OperationID call) AttemptKindTool h)) s"
    using 1(3) by simp
  then have wf: "wfStore s1" using assms(2) by (simp only: execute_wf)
  have o: "a_OperationID a = tc_OperationID call" by (rule StartAttempt_started [OF 1(3,4) assms(2)]) (simp add: 1(5))
  have st: "tn_store (toolAttemptExecute ec w1 w2 meanwhile drift nextd active call s) = s3"
    "tn_result (toolAttemptExecute ec w1 w2 meanwhile drift nextd active call s) = result"
    "tn_err (toolAttemptExecute ec w1 w2 meanwhile drift nextd active call s) = err"
    using 1(8) t by simp_all
  show thesis by (rule that [OF 1(6) o wf t st])
qed

text \<open>The later of two runs of the driver finds the attempt of the earlier one still running under its own lease, or abandoned.\<close>

lemma tool_reaches_again:
  assumes "tn_attempt (toolAttemptExecute ec w1 w2 meanwhile drift nextd active call s) = Some b" "wfStore s"
    "st_executions s (ac_id active) = Some rec" "a \<in> set (slotOf rec (tc_OperationID call))"
  shows "a_Status a = AttemptStatusAbandoned \<or> a_Status a = AttemptStatusRunning \<and> a_Lease a = a_Lease b"
  using assms(1)
proof (cases rule: tool_reaches)
  case (1 lease h started s1)
  obtain rec0 rec1 where r: "st_executions s (ac_id active) = Some rec0"
    "startAttemptBody (startRequest active lease (tc_OperationID call) AttemptKindTool h) rec0 (trustedNow (wi_clock w1) s) = (Inr started, rec1)"
    by (rule StartAttempt_Inr [OF 1(3)]) auto
  have wf: "wfRecord (ac_id active) rec" using assms(2,3) by (simp add: wfStore_def)
  have "a_Lease b = Some (refOf lease)" by (rule StartAttempt_started [OF 1(3,4) assms(2)]) (simp add: 1(5))
  then show ?thesis using startAttemptBody_execute [OF wf _ 1(4), of _ _ _ a] r assms(3,4) by fastforce
qed

section \<open>Recorded results\<close>

lemma slot_number_unique:
  assumes "wfRecord i rec" "a \<in> set (slotOf rec opn)" "b \<in> set (slotOf rec opn)" "a_Number a = a_Number b"
  shows "a = b"
proof -
  have "slotOf rec opn \<noteq> []" using assms(2) by auto
  note wf_slot [OF assms(1) this]
  then have "distinct (map a_Number (slotOf rec opn))" by (auto simp: wfSlot_def distinct_map inj_on_def)
  then show ?thesis using assms(2-4) by (simp add: distinct_map inj_on_def)
qed

lemma settled_attempt_last:
  assumes "wfRecord i rec" "b \<in> set (slotOf rec opn)" "settledStatus (a_Status b)"
  shows "slotOf rec opn \<noteq> [] \<and> last (slotOf rec opn) = b"
proof -
  have ne: "slotOf rec opn \<noteq> []" using assms(2) by auto
  have "b = last (slotOf rec opn)"
    by (rule ccontr) (use wfSlot_closed_prefix [OF wf_slot [OF assms(1) ne] assms(2)] assms(3) in \<open>auto simp: settledStatus_def\<close>)
  then show ?thesis using ne by simp
qed

lemma finishAttemptBody_recorded:
  assumes "finishAttemptBody q rec now = (Inr b, rec')"
  shows "b \<in> set (slotOf rec' (fa_OperationID q)) \<and> a_Number b = fa_AttemptNumber q \<and> settledStatus (a_Status b)
    \<and> a_Payload b = fa_Payload q \<and> a_Failure b = fa_Failure q"
proof -
  obtain k a where f: "attemptByNumber rec (fa_OperationID q) (fa_AttemptNumber q) = Some (k, a)"
    using assms by (auto simp: finishAttemptBody_def Let_def split: option.splits if_splits)
  note k = attemptByNumber_Some [OF f]
  show ?thesis using assms f k set_update_memI [OF k(1)]
    by (auto simp: finishAttemptBody_def Let_def settledStatus_def updateAttempt_def split: if_splits)
qed

text \<open>A settling call that returns no error has put payload and failure on record.\<close>

lemma finishAttempt_recorded:
  assumes "finishAttempt w active attempt payload failure s = (None, s1)"
  obtains rec b where "st_executions s1 (ac_id active) = Some rec" "b \<in> set (slotOf rec (a_OperationID attempt))"
    "a_Number b = a_Number attempt" "settledStatus (a_Status b)" "a_Payload b = payload" "a_Failure b = failure"
proof -
  obtain lease b where c: "callBackend w (\<lambda>ctxErr clock. FinishAttempt ctxErr clock (settleRequest active lease attempt payload failure)) s = (Inr b, s1)"
    using assms by (auto simp: finishAttempt_def split: option.splits prod.splits sum.splits)
  let ?q = "settleRequest active lease attempt payload failure"
  have w: "withRecord (wi_ctxErr w) (wi_clock w) (fa_ExecutionID ?q) (fa_OperationID ?q) (finishAttemptBody ?q) s = (Inr b, s1)"
    using c by (auto simp: callBackend_Inr FinishAttempt_def split: option.splits)
  show thesis
  proof (cases rule: withRecord_cases [of "wi_ctxErr w" "wi_clock w" "fa_ExecutionID ?q" "fa_OperationID ?q" "finishAttemptBody ?q" s])
    case (found rec)
    then obtain rec' where r: "finishAttemptBody ?q rec (trustedNow (wi_clock w) s) = (Inr b, rec')"
      "st_executions s1 (fa_ExecutionID ?q) = Some rec'"
      using w by (cases "finishAttemptBody ?q rec (trustedNow (wi_clock w) s)") auto
    show thesis using that [of rec' b] finishAttemptBody_recorded [OF r(1)] r(2) by (simp add: settleRequest_def)
  qed (use w in simp)
qed

lemma joinErrors_None [simp]: "joinErrors errs = None \<longleftrightarrow> set errs \<subseteq> {None}"
  by (auto simp: Let_def filter_empty_conv)

lemma toolAttemptSettle_clean:
  assumes "toolAttemptSettle ec w active attempt outcome s = (result, None, s1)"
  obtains payload where "outcome = Returned result None" "encodeToolAttempt ec result None = Inr payload"
    "finishAttempt w active attempt payload None s = (None, s1)"
proof -
  obtain result0 executeErr where x: "executeToolDriver outcome = (result0, executeErr)" by fastforce
  have e: "executeErr = None" using assms x
    by (auto simp: toolAttemptSettle_def Let_def split: if_splits prod.splits sum.splits simp del: joinErrors.simps)
  obtain payload where p: "encodeToolAttempt ec result0 None = Inr payload" using assms x e
    by (auto simp: toolAttemptSettle_def Let_def split: if_splits prod.splits sum.splits simp del: joinErrors.simps)
  have r: "result0 = result" "finishAttempt w active attempt payload None s = (None, s1)"
    using assms x e p by (auto simp: toolAttemptSettle_def Let_def split: prod.splits)
  have "outcome = Returned result None" using x e r(1) by (auto simp: executeToolDriver_def split: execOutcome.splits)
  then show thesis using that p r by simp
qed

text \<open>A settled attempt is still the last of its slot after any later calls.\<close>

lemma settled_persists:
  assumes "wfStore s" "st_executions s i = Some rec" "b \<in> set (slotOf rec opn)" "settledStatus (a_Status b)"
  obtains rec' where "st_executions (history codec later s) i = Some rec'" "b \<in> set (slotOf rec' opn)"
proof -
  obtain rec' b' where "st_executions (history codec later s) i = Some rec'" "b' \<in> set (slotOf rec' opn)" "evolves b b'"
    using attempt_persists [OF assms(1-3)] by blast
  moreover have "\<not> uncertainStatus (a_Status b)" using assms(4) by (auto simp: settledStatus_def uncertainStatus_def)
  then have "b' = b" using calculation(3) unfolding evolves_def by blast
  ultimately show thesis using that [of rec'] by simp
qed

lemma StartAttempt_settled:
  assumes "wfStore s" "st_executions s (sa_ExecutionID q) = Some rec" "b \<in> set (slotOf rec (sa_OperationID q))"
    "settledStatus (a_Status b)" "StartAttempt ctxErr clock q s = (Inr started, s1)"
  shows "as_Decision started = AttemptDecisionReplay \<and> as_Attempt started = b"
proof -
  have "wfRecord (sa_ExecutionID q) rec" using assms(1,2) by (simp add: wfStore_def)
  note l = settled_attempt_last [OF this assms(3,4)]
  obtain rec1 where "startAttemptBody q rec (trustedNow clock s) = (Inr started, rec1)"
    by (rule StartAttempt_Inr [OF assms(5)]) (use assms(2) in auto)
  then show ?thesis using l assms(4)
    by (auto simp: startAttemptBody_def Let_def settledStatus_def split: if_splits)
qed

text \<open>Once the operation has a settled attempt, no driver is reached, and the recorded result is the answer.\<close>

lemma tool_replays:
  fixes ec w1 w2 meanwhile drift nextd active call s
  defines "run \<equiv> toolAttemptExecute ec w1 w2 meanwhile drift nextd active call s"
  assumes "wfStore s" "st_executions s (ac_id active) = Some rec" "b \<in> set (slotOf rec (tc_OperationID call))"
    "settledStatus (a_Status b)"
  shows "tn_reached run = []"
    and "tn_err run = None \<Longrightarrow> decodeToolAttempt ec (a_Payload b) = Inr (tn_result run, None)"
proof -
  have noattempt: "tn_attempt run = None"
  proof (rule ccontr)
    assume "tn_attempt run \<noteq> None"
    then obtain a where "tn_attempt run = Some a" by auto
    then show False using tool_reaches_again [OF _ assms(2-4)] assms(5) unfolding run_def by (auto simp: settledStatus_def)
  qed
  then show r: "tn_reached run = []" by (simp add: run_def tool_reached)
  assume e: "tn_err run = None"
  let ?active = "active\<lparr>ac_effects := ac_effects active + 1\<rparr>"
  have b: "beginEffect active = (None, ?active)" and o: "tc_OperationID call \<noteq> []"
    using e by (auto simp: run_def toolAttemptExecute_def beginEffect_def Let_def split: option.splits if_splits)
  obtain h where h: "toolInputHash ec call = Some h"
    using e b o by (auto simp: run_def toolAttemptExecute_def Let_def split: option.splits)
  obtain lease where l: "e_Lease (ac_execution active) = Some lease"
    using e b o h by (cases "e_Lease (ac_execution active)") (auto simp: run_def toolAttemptExecute_def Let_def)
  let ?q = "startRequest active lease (tc_OperationID call) AttemptKindTool h"
  obtain r s1 where c: "callBackend w1 (\<lambda>ctxErr clock. StartAttempt ctxErr clock ?q) s = (r, s1)" by fastforce
  obtain started where r: "r = Inr started"
    using e b o h l c by (cases r) (auto simp: run_def toolAttemptExecute_def Let_def)
  have "as_Decision started = AttemptDecisionReplay \<and> as_Attempt started = b"
    using c r assms(2-5) by (intro StartAttempt_settled) (auto simp: callBackend_Inr)
  then show "decodeToolAttempt ec (a_Payload b) = Inr (tn_result run, None)"
    using e b o h l c r by (auto simp: run_def toolAttemptExecute_def Let_def split: sum.splits)
qed

lemma tool_replay_answers:
  assumes "wfStore s" "st_executions s (ac_id active) = Some rec" "b \<in> set (slotOf rec (tc_OperationID call))"
    "settledStatus (a_Status b)" "decodeToolAttempt ec (a_Payload b) = Inr (result, None)"
    "fst (beginEffect active) = None" "tc_OperationID call \<noteq> []" "toolInputHash ec call = Some h"
    "e_Lease (ac_execution active) = Some lease"
    "fst (callBackend w1 (\<lambda>ctxErr clock. StartAttempt ctxErr clock (startRequest active lease (tc_OperationID call) AttemptKindTool h)) s) = Inr started"
  shows "tn_err (toolAttemptExecute ec w1 w2 meanwhile drift nextd active call s) = None"
proof -
  let ?active = "active\<lparr>ac_effects := ac_effects active + 1\<rparr>"
  have b: "beginEffect active = (None, ?active)"
    using assms(6) by (auto simp: beginEffect_def split: option.splits if_splits)
  let ?q = "startRequest active lease (tc_OperationID call) AttemptKindTool h"
  obtain s1 where c: "callBackend w1 (\<lambda>ctxErr clock. StartAttempt ctxErr clock ?q) s = (Inr started, s1)"
    using assms(10) by (metis prod.collapse)
  have "as_Decision started = AttemptDecisionReplay \<and> as_Attempt started = b"
    using c assms(1-4) by (intro StartAttempt_settled) (auto simp: callBackend_Inr)
  then show ?thesis using b c assms(5,7-9) by (simp add: toolAttemptExecute_def Let_def)
qed

section \<open>The model interceptor\<close>

text \<open>
  A run of the model interceptor on an operation with a settled attempt opens no stream; it answers what the
  replay of that attempt gives, or the error that kept it from asking the backend.
\<close>

lemma model_replays:
  fixes ec w1 w2 meanwhile drift nextd active request s
  defines "run \<equiv> modelAttemptStream ec w1 w2 meanwhile drift nextd active request s"
  assumes "wfStore s" "st_executions s (ac_id active) = Some rec" "b \<in> set (slotOf rec (pq_OperationID request))"
    "settledStatus (a_Status b)"
  shows "so_reached run = []"
    and "so_result run = map_sum (runtimeOperationError ''replay model attempt'') id (replayModelAttempt ec b) \<or> (\<exists>err. so_result run = Inl err)"
    and "fst (beginEffect active) = None \<Longrightarrow> pq_OperationID request \<noteq> [] \<Longrightarrow>
      canonicalJSONHash (ec_codec ec) (pq_encoded request) = Some h \<Longrightarrow> e_Lease (ac_execution active) = Some lease \<Longrightarrow>
      fst (callBackend w1 (\<lambda>ctxErr clock. StartAttempt ctxErr clock (startRequest active lease (pq_OperationID request) AttemptKindModel h)) s) = Inr started \<Longrightarrow>
      so_result run = map_sum (runtimeOperationError ''replay model attempt'') id (replayModelAttempt ec b)"
proof -
  have replay: "as_Decision started = AttemptDecisionReplay \<and> as_Attempt started = b"
    if "callBackend w1 (\<lambda>ctxErr clock. StartAttempt ctxErr clock (startRequest active1 lease (pq_OperationID request) AttemptKindModel h)) s = (Inr started, s1)"
      "ac_id active1 = ac_id active" for active1 lease h started s1
    using that assms(2-5) by (intro StartAttempt_settled) (auto simp: callBackend_Inr)
  have begin_id: "ac_id active1 = ac_id active" if "beginEffect active = (err, active1)" for err active1
    using that by (auto simp: beginEffect_def split: if_splits option.splits)
  show "so_reached run = []"
    by (auto simp: run_def modelAttemptStream_def Let_def dest: replay [OF _ begin_id] split: option.split prod.split sum.split AttemptDecision.split)
  show "so_result run = map_sum (runtimeOperationError ''replay model attempt'') id (replayModelAttempt ec b) \<or> (\<exists>err. so_result run = Inl err)"
    by (auto simp: run_def modelAttemptStream_def Let_def dest: replay [OF _ begin_id] split: option.split prod.split sum.split AttemptDecision.split)
  assume h: "fst (beginEffect active) = None" "pq_OperationID request \<noteq> []"
      "canonicalJSONHash (ec_codec ec) (pq_encoded request) = Some h" "e_Lease (ac_execution active) = Some lease"
      "fst (callBackend w1 (\<lambda>ctxErr clock. StartAttempt ctxErr clock (startRequest active lease (pq_OperationID request) AttemptKindModel h)) s) = Inr started"
  obtain s1 where c: "callBackend w1 (\<lambda>ctxErr clock. StartAttempt ctxErr clock (startRequest active lease (pq_OperationID request) AttemptKindModel h)) s = (Inr started, s1)"
    using h(5) by (metis prod.collapse)
  have "beginEffect active = (None, active\<lparr>ac_effects := ac_effects active + 1\<rparr>)"
    using h(1) by (auto simp: beginEffect_def split: if_splits option.splits)
  then show "so_result run = map_sum (runtimeOperationError ''replay model attempt'') id (replayModelAttempt ec b)"
    using replay [OF c refl] h(2-4) c by (simp add: run_def modelAttemptStream_def Let_def)
qed

text \<open>Settling an attempt that is still on record as running.\<close>

lemma finishAttempt_fresh:
  assumes "finishAttempt w active attempt payload failure s = (None, s1)" "wfStore s"
    "st_executions s (ac_id active) = Some rec" "attempt \<in> set (slotOf rec (a_OperationID attempt))"
    "a_Status attempt = AttemptStatusRunning"
  obtains rec' b where "st_executions s1 (ac_id active) = Some rec'" "b \<in> set (slotOf rec' (a_OperationID attempt))"
    "a_Status b = (if failure = None then AttemptStatusSucceeded else AttemptStatusFailed)"
    "a_Payload b = payload" "a_Failure b = failure" "wfStore s1"
proof -
  obtain lease b where c: "callBackend w (\<lambda>ctxErr clock. FinishAttempt ctxErr clock (settleRequest active lease attempt payload failure)) s = (Inr b, s1)"
    using assms(1) by (auto simp: finishAttempt_def split: option.splits prod.splits sum.splits)
  let ?q = "settleRequest active lease attempt payload failure"
  have q: "fa_ExecutionID ?q = ac_id active" "fa_OperationID ?q = a_OperationID attempt" "fa_AttemptNumber ?q = a_Number attempt"
    "fa_Payload ?q = payload" "fa_Failure ?q = failure" by (simp_all add: settleRequest_def)
  have st: "FinishAttempt (wi_ctxErr w) (wi_clock w) ?q s = (Inr b, s1)" using c by (simp add: callBackend_Inr)
  have "s1 = execute undefined (wi_ctxErr w, wi_clock w, CmdFinishAttempt ?q) s" using st by simp
  then have wf1: "wfStore s1" using assms(2) by (simp only: execute_wf)
  have w: "withRecord (wi_ctxErr w) (wi_clock w) (fa_ExecutionID ?q) (fa_OperationID ?q) (finishAttemptBody ?q) s = (Inr b, s1)"
    using st by (auto simp: FinishAttempt_def split: option.splits)
  then obtain rec' where r: "finishAttemptBody ?q rec (trustedNow (wi_clock w) s) = (Inr b, rec')" "st_executions s1 (fa_ExecutionID ?q) = Some rec'"
    using assms(3) q(1)
    by (cases rule: withRecord_cases [of "wi_ctxErr w" "wi_clock w" "fa_ExecutionID ?q" "fa_OperationID ?q" "finishAttemptBody ?q" s])
      (auto simp: prod_eq_iff)
  obtain k a where f: "attemptByNumber rec (fa_OperationID ?q) (fa_AttemptNumber ?q) = Some (k, a)"
    using r(1) by (auto simp: finishAttemptBody_def Let_def split: option.splits if_splits)
  have "wfRecord (ac_id active) rec" using assms(2,3) by (simp add: wfStore_def)
  then have "a = attempt" using attemptByNumber_Some [OF f] assms(4) slot_number_unique q by (metis nth_mem)
  then have "a_Status b = (if failure = None then AttemptStatusSucceeded else AttemptStatusFailed)"
    using r(1) f assms(5) q(5) by (auto simp: finishAttemptBody_def Let_def split: if_splits)
  then show thesis using that [of rec' b] finishAttemptBody_recorded [OF r(1)] r(2) q wf1 by simp
qed

lemma encodeModelAttempt_decode:
  assumes "encodeModelAttempt ec events failure = Inr payload"
    "\<And>bytes. ec_marshalModel ec (modelEnvelope ec events failure) = Inr bytes \<Longrightarrow>
       ec_unmarshalModel ec bytes = Inr (modelEnvelope ec events failure)"
    "\<forall>event \<in> set events. ev_Err event = None"
  shows "decodeModelAttempt ec payload = Inr (events, failure)"
proof -
  let ?env = "modelEnvelope ec events failure"
  have "ec_marshalModel ec ?env = Inr payload"
    using assms(1) by (auto simp: encodeModelAttempt_def map_sum_def split: sum.splits)
  then have u: "ec_unmarshalModel ec payload = Inr ?env" using assms(2) by simp
  let ?read = "\<lambda>stored. case se_Failure stored of None \<Rightarrow> se_Event stored
    | Some failure \<Rightarrow> (se_Event stored)\<lparr>ev_Err := Some (recordedFailureError failure)\<rparr>"
  have "map ?read (me_Events ?env) = map id events"
    unfolding modelEnvelope_def modelAttemptEnvelope.select_convs map_map
  proof (intro map_cong refl)
    fix event assume "event \<in> set events"
    then have "ev_Err event = None" using assms(3) by blast
    then show "(?read \<circ> (\<lambda>event. \<lparr>se_Event = event\<lparr>ev_Err := None\<rparr>,
        se_Failure = map_option (failureFromError ec \<circ> EffectError) (ev_Err event)\<rparr>)) event = id event"
      by (cases event) simp
  qed
  moreover have "me_Version ?env = attemptEnvelopeVersion" "me_Failure ?env = failure" by (simp_all add: modelEnvelope_def)
  ultimately show ?thesis using u by (simp add: decodeModelAttempt_def)
qed

text \<open>Events that end with \<^verbatim>\<open>done\<close> are no valid record of a failure.\<close>

lemma firstTerminal_nth:
  "firstTerminal k events = Some (i, event) \<Longrightarrow> k \<le> i \<and> i - k < length events \<and> event = events ! (i - k)"
  by (induction k events rule: firstTerminal.induct) (auto split: if_splits simp: Suc_diff_le nth_Cons')

lemma firstTerminal_None: "firstTerminal k events = None \<Longrightarrow> event \<in> set events \<Longrightarrow> ev_Kind event \<noteq> EventDone"
  by (induction k events rule: firstTerminal.induct) (auto split: if_splits)

lemma validateFailed_done:
  assumes "events \<noteq> []" "ev_Kind (last events) = EventDone"
  shows "validateFailedModelEvents ec events \<noteq> None"
proof (cases "firstTerminal 0 events")
  case None
  then show ?thesis using firstTerminal_None [of 0 events "last events"] assms by simp
next
  case (Some found)
  obtain i event where f: "found = (i, event)" by (cases found)
  show ?thesis using firstTerminal_nth [of 0 events i event] Some f assms
    by (auto simp: validateFailedModelEvents_def Let_def last_conv_nth)
qed

text \<open>A terminal event handed on, or refused by its validation, without a failure of the backend.\<close>

lemma settleTerminal_done:
  assumes "ev_Kind event = EventDone" "settleTerminal ec w active stream event recvErr s = (event1, err, s1)"
    "err = (case validation of None \<Rightarrow> recvErr | Some e \<Rightarrow> Some e)"
    "validation = validateSuccessfulModelEvents ec (ds_events stream)" "validation = None \<Longrightarrow> recvErr = None"
  obtains payload where
    "encodeModelAttempt ec (ds_events stream) (map_option (failureFromError ec) validation) = Inr payload"
    "finishAttempt w active (ds_attempt stream) payload (map_option (failureFromError ec) validation) s = (None, s1)"
    "event1 = (if validation = None then event else zeroEvent)"
proof -
  let ?failure = "map_option (failureFromError ec) validation"
  have shape: "validation = Some err \<Longrightarrow> (\<exists>e. err = EffectError e) \<or> (\<exists>e. err = EventsInvalid e)" for err
    unfolding assms(4) by (auto simp: validateSuccessfulModelEvents_def split: if_splits sum.splits)
  have fshape: "finishAttempt w active attempt payload failure s = (Some err, s1) \<Longrightarrow>
      (\<exists>opn f. err = BackendCallError opn f) \<or> (\<exists>e. err = DurableError e)" for attempt payload failure err s1
    by (auto simp: finishAttempt_def backendOperationError_def executionRuntimeError_def split: option.splits sum.splits prod.splits)
  note d = settleTerminal_def recordTerminal_def Let_def assms(1) assms(4)[symmetric]
  obtain payload where p: "encodeModelAttempt ec (ds_events stream) ?failure = Inr payload"
    using assms(2,3,5) shape
    by (cases "encodeModelAttempt ec (ds_events stream) ?failure"; cases validation) (auto simp: d split: sum.splits prod.splits)
  obtain serr s2 where f: "finishAttempt w active (ds_attempt stream) payload ?failure s = (serr, s2)" by fastforce
  have "serr = None" using assms(2,3,5) shape f p
    by (cases serr; cases validation) (auto simp: d dest!: fshape)
  then show thesis using that [OF p] f p assms(2) by (cases validation) (auto simp: d)
qed

lemma durableRecv_done:
  assumes "\<not> ds_closed stream" "\<not> ds_settled stream" "receiveModelEvent raw = (event, recvErr)" "ev_Kind event = EventDone"
    "sp_err (durableRecv ec w raw active stream s) = (case validation of None \<Rightarrow> recvErr | Some err \<Rightarrow> Some err)"
    "validation = validateSuccessfulModelEvents ec (ds_events stream @ [event])" "validation = None \<Longrightarrow> recvErr = None"
  obtains payload where
    "encodeModelAttempt ec (ds_events stream @ [event]) (map_option (failureFromError ec) validation) = Inr payload"
    "finishAttempt w active (ds_attempt stream) payload (map_option (failureFromError ec) validation) s
       = (None, sp_store (durableRecv ec w raw active stream s))"
    "ds_events (sp_stream (durableRecv ec w raw active stream s)) = ds_events stream @ [event]"
    "sp_event (durableRecv ec w raw active stream s) = (if validation = None then event else zeroEvent)"
proof -
  let ?stream = "stream\<lparr>ds_events := ds_events stream @ [event]\<rparr>"
  obtain event1 err s1 where t: "settleTerminal ec w active ?stream event recvErr s = (event1, err, s1)" by (rule prod_cases3)
  have d: "durableRecv ec w raw active stream s = \<lparr>sp_event = event1, sp_err = err, sp_stream = settledStream ?stream,
      sp_active = finishEffect ?stream active, sp_store = s1\<rparr>"
    using assms(1-4) t by (simp add: durableRecv_def Let_def)
  obtain payload where p: "encodeModelAttempt ec (ds_events ?stream) (map_option (failureFromError ec) validation) = Inr payload"
    "finishAttempt w active (ds_attempt ?stream) payload (map_option (failureFromError ec) validation) s = (None, s1)"
    "event1 = (if validation = None then event else zeroEvent)"
    by (rule settleTerminal_done [OF assms(4) t _ _ assms(7)]) (use assms(5,6) d in simp_all)
  then show thesis by (intro that [of payload]) (simp_all add: d settledStream_def)
qed

lemma durableRecv_Done:
  assumes "\<not> ds_closed stream" "\<not> ds_settled stream" "receiveModelEvent raw = (event, recvErr)"
    "ev_Kind (sp_event (durableRecv ec w raw active stream s)) = EventDone" "sp_err (durableRecv ec w raw active stream s) = None"
  shows "validateSuccessfulModelEvents ec (ds_events stream @ [event]) = None \<and> recvErr = None \<and> ev_Kind event = EventDone"
proof -
  have k: "ev_Kind zeroEvent \<noteq> EventDone" by (simp add: zeroEvent_def)
  note parts = durableRecv_def settleTerminal_def recordTerminal_def settleBroken_def Let_def
  have kind: "ev_Kind event = EventDone"
    using assms k by (auto simp: parts split: if_splits option.splits sum.splits prod.splits)
  then show ?thesis
    using assms k by (auto simp: parts split: option.splits sum.splits prod.splits)
qed

end
