(* ===== verification/Backend_Ledger.thy ===== *)
theory Backend_Ledger
  imports Backend_Properties
begin

text \<open>
  What the backend remembers. A finish is remembered under the hash of its result, and a claim with an execution
  that was running when it was granted. A lease that was released or suspended is not held again: its token is
  behind the last one granted, or the execution has no lease. The last part rests on fresh tokens, so it is
  claimed, by the flag \<open>fresh\<close>, only for histories shorter than the 64-bit counter.
\<close>

definition spent :: "executionRecord \<Rightarrow> uint64 \<Rightarrow> bool" where
  "spent rec token \<longleftrightarrow> token \<le> er_nextToken rec \<and> (token = er_nextToken rec \<longrightarrow> e_Lease (er_execution rec) = None)"

definition ledgerOk :: "bool \<Rightarrow> executionRecord \<Rightarrow> bool" where
  "ledgerOk fresh rec \<longleftrightarrow>
     (\<forall>owner token. fresh \<longrightarrow> er_releases rec (owner, token) \<noteq> None \<longrightarrow> spent rec token) \<and>
     (\<forall>owner token version. fresh \<longrightarrow> er_suspends rec ((owner, token), version) \<noteq> None \<longrightarrow> spent rec token) \<and>
     (\<forall>ref version hash e. er_finishes rec (ref, version, hash) = Some e \<longrightarrow> e_ResultHash e = hash) \<and>
     (\<forall>claim prior. er_claims rec claim = Some prior \<longrightarrow>
        (\<forall>result. cr_start prior = Some result \<longrightarrow> e_Status (sr_Execution result) = ExecutionStatusRunning) \<and>
        (\<forall>result. cr_resume prior = Some result \<longrightarrow> e_Status (rr_Execution result) = ExecutionStatusRunning))"

definition unwrapped :: "bool \<Rightarrow> executionRecord \<Rightarrow> bool" where
  "unwrapped fresh rec \<longleftrightarrow> fresh \<longrightarrow> er_nextToken rec < er_nextToken rec + 1"

lemma spent_token: "spent rec token \<Longrightarrow> e_Lease (er_execution rec) = Some lease \<Longrightarrow> token < er_nextToken rec"
  by (auto simp: spent_def order_le_less)

lemma spent_grant:
  assumes "spent rec token" "er_nextToken rec < er_nextToken rec + 1" "er_nextToken rec' = er_nextToken rec + 1"
  shows "spent rec' token"
  using assms by (auto simp: spent_def)

lemma spent_same:
  assumes "spent rec token" "er_nextToken rec' = er_nextToken rec"
    "e_Lease (er_execution rec) = None \<Longrightarrow> e_Lease (er_execution rec') = None"
  shows "spent rec' token"
  using assms by (auto simp: spent_def)

lemma ledger_same:
  assumes "ledgerOk fresh rec" "er_claims rec' = er_claims rec" "er_nextToken rec' = er_nextToken rec" "er_releases rec' = er_releases rec"
    "er_suspends rec' = er_suspends rec" "er_finishes rec' = er_finishes rec"
    "e_Lease (er_execution rec) = None \<Longrightarrow> e_Lease (er_execution rec') = None"
  shows "ledgerOk fresh rec'"
  using assms spent_same [of rec _ rec'] unfolding ledgerOk_def by auto

lemma ledger_spend:
  assumes "ledgerOk fresh rec" "er_nextToken rec' = er_nextToken rec" "e_Lease (er_execution rec') = None"
    "\<And>owner token. er_releases rec' (owner, token) \<noteq> None \<Longrightarrow> er_releases rec (owner, token) \<noteq> None \<or> token = er_nextToken rec"
    "\<And>owner token version. er_suspends rec' ((owner, token), version) \<noteq> None \<Longrightarrow>
       er_suspends rec ((owner, token), version) \<noteq> None \<or> token = er_nextToken rec"
    "er_finishes rec' = er_finishes rec" "er_claims rec' = er_claims rec"
  shows "ledgerOk fresh rec'"
proof -
  have sp: "spent rec' token" if "spent rec token \<or> token = er_nextToken rec" for token
    using that assms(2,3) by (auto simp: spent_def)
  have "fresh \<Longrightarrow> er_releases rec' (owner, token) \<noteq> None \<Longrightarrow> spent rec' token" for owner token
    using assms(1) assms(4) [of owner token] sp unfolding ledgerOk_def by blast
  moreover have "fresh \<Longrightarrow> er_suspends rec' ((owner, token), version) \<noteq> None \<Longrightarrow> spent rec' token" for owner token version
    using assms(1) assms(5) [of owner token version] sp unfolding ledgerOk_def by blast
  ultimately show ?thesis using assms(1) unfolding ledgerOk_def assms(6,7) by blast
qed

lemma reconcileRunning_fields [simp]:
  "er_nextToken (snd (reconcileRunning rec token)) = er_nextToken rec"
  "er_releases (snd (reconcileRunning rec token)) = er_releases rec"
  "er_suspends (snd (reconcileRunning rec token)) = er_suspends rec"
  "er_finishes (snd (reconcileRunning rec token)) = er_finishes rec"
  "er_execution (snd (reconcileRunning rec token)) = er_execution rec"
  "er_claims (snd (reconcileRunning rec token)) = er_claims rec"
  by (simp_all add: reconcileRunning_def Let_def)

lemma grantLease_fields:
  "er_nextToken (snd (grantLease rec owner claim ttl now)) = er_nextToken rec + 1"
  "er_releases (snd (grantLease rec owner claim ttl now)) = er_releases rec"
  "er_suspends (snd (grantLease rec owner claim ttl now)) = er_suspends rec"
  "er_finishes (snd (grantLease rec owner claim ttl now)) = er_finishes rec"
  "er_claims (snd (grantLease rec owner claim ttl now)) = er_claims rec"
  "e_Status (er_execution (snd (grantLease rec owner claim ttl now))) = ExecutionStatusRunning"
  by (simp_all add: grantLease_def reconcileForClaim_def Let_def split_def)

lemma ledger_grant:
  assumes "ledgerOk fresh rec" "unwrapped fresh rec"
    "\<And>result. cr_start prior = Some result \<Longrightarrow> e_Status (sr_Execution result) = ExecutionStatusRunning"
    "\<And>result. cr_resume prior = Some result \<Longrightarrow> e_Status (rr_Execution result) = ExecutionStatusRunning"
  shows "ledgerOk fresh ((snd (grantLease rec owner claim ttl now))\<lparr>er_claims := (er_claims rec)(c \<mapsto> prior)\<rparr>)"
proof -
  let ?rec' = "(snd (grantLease rec owner claim ttl now))\<lparr>er_claims := (er_claims rec)(c \<mapsto> prior)\<rparr>"
  have "fresh \<Longrightarrow> spent rec token \<Longrightarrow> spent ?rec' token" for token
    using spent_grant [of rec token ?rec'] assms(2) by (simp add: unwrapped_def grantLease_fields)
  then show ?thesis using assms(1,3,4) unfolding ledgerOk_def by (auto simp: grantLease_fields)
qed

locale keeps_ledger = record_operation idOf body
  for idOf :: "'q \<Rightarrow> ExecutionID" and body :: "'q \<Rightarrow> executionRecord \<Rightarrow> instant \<Rightarrow> 'a reply \<times> executionRecord" +
  assumes body_ledger: "wfRecord (idOf q) rec \<Longrightarrow> ledgerOk fresh rec \<Longrightarrow> unwrapped fresh rec \<Longrightarrow>
    ledgerOk fresh (snd (body q rec now))"
begin

lemma withRecord_ledger:
  assumes "wfStore s" "st_executions s i = Some rec" "ledgerOk fresh rec" "unwrapped fresh rec"
    and "st_executions (snd (withRecord ctxErr clock (idOf q) opn (body q) s)) i = Some rec'"
  shows "ledgerOk fresh rec'"
proof (cases rule: withRecord_cases [of ctxErr clock "idOf q" opn "body q" s])
  case (found rec0)
  have "wfRecord (idOf q) rec0" using assms(1) found(2) by (simp add: wfStore_def)
  then show ?thesis using assms(2-5) found body_ledger by (auto split: if_splits)
qed (use assms in auto)

end

lemma active_lease_Some: "requireActiveLease rec i ref now = None \<Longrightarrow> \<exists>lease. e_Lease (er_execution rec) = Some lease \<and> refOf lease = ref"
  by (auto simp: requireActive_None)

interpretation renew_ledger: keeps_ledger nx_ExecutionID renewBody
  by unfold_locales
    (auto simp: renewBody_def Let_def split: option.splits dest!: active_lease_Some intro: ledger_same)

interpretation save_ledger: keeps_ledger cx_ExecutionID "saveBody codec" for codec
  by unfold_locales (auto simp: saveBody_def Let_def split: option.splits intro: ledger_same)

interpretation startAttempt_ledger: keeps_ledger sa_ExecutionID startAttemptBody
  by unfold_locales
    (auto simp: startAttemptBody_def Let_def split: AttemptStatus.splits intro: ledger_same)

interpretation finishAttempt_ledger: keeps_ledger fa_ExecutionID finishAttemptBody
  by unfold_locales (auto simp: finishAttemptBody_def Let_def updateAttempt_def split: option.splits intro: ledger_same)

interpretation markUnknown_ledger: keeps_ledger fa_ExecutionID markUnknownBody
  by unfold_locales (auto simp: markUnknownBody_def Let_def updateAttempt_def split: option.splits intro: ledger_same)

interpretation reconcile_ledger: keeps_ledger ra_ExecutionID reconcileBody
  by unfold_locales (auto simp: reconcileBody_def Let_def updateAttempt_def split: option.splits intro: ledger_same)

interpretation resume_ledger: keeps_ledger rx_ExecutionID resumeBody
  by unfold_locales (auto simp: resumeBody_def Let_def split_def grantLease_fields split: option.splits intro!: ledger_grant)

lemma finishBody_ledger:
  assumes "ledgerOk fresh rec"
  shows "ledgerOk fresh (snd (finishBody codec q rec now))"
proof -
  have "ledgerOk fresh (rec\<lparr>er_execution := e, er_finishes := (er_finishes rec)(key \<mapsto> e)\<rparr>)"
    if "e_Lease e = None" "e_ResultHash e = snd (snd key)" for e key
    using assms that unfolding ledgerOk_def by (auto simp: spent_def)
  then show ?thesis using assms by (simp add: finishBody_def Let_def split: option.splits)
qed

interpretation finish_ledger: keeps_ledger fx_ExecutionID "finishBody codec" for codec
  by unfold_locales (rule finishBody_ledger)

lemma suspendBody_ledger:
  assumes "wfRecord i rec" "ledgerOk fresh rec"
  shows "ledgerOk fresh (snd (suspendBody q rec now))"
proof (cases "snd (suspendBody q rec now) = rec")
  case False
  obtain lease where l: "e_Lease (er_execution rec) = Some lease" "refOf lease = px_Lease q"
    using False by (auto simp: suspendBody_def Let_def split: option.splits if_splits dest!: active_lease_Some)
  have "lr_Token (px_Lease q) = er_nextToken rec" using wf_lease [OF assms(1) l(1)] unfolding l(2) [symmetric] by (simp add: refOf_def)
  then show ?thesis using assms(2)
    by (auto simp: suspendBody_def Let_def split: option.splits if_splits intro!: ledger_spend [of fresh rec])
qed (use assms in simp)

interpretation suspend_ledger: keeps_ledger px_ExecutionID suspendBody
  by unfold_locales (rule suspendBody_ledger)

lemma releaseBody_ledger:
  assumes "wfRecord i rec" "ledgerOk fresh rec"
  shows "ledgerOk fresh (snd (releaseBody q rec now))"
proof (cases "snd (releaseBody q rec now) = rec")
  case False
  have m: "leaseMatches (e_Lease (er_execution rec)) (lx_Lease q)"
    using False by (auto simp: releaseBody_def Let_def split_def split: option.splits if_splits)
  then obtain lease where l: "e_Lease (er_execution rec) = Some lease" by (auto simp: leaseMatches_def split: option.splits)
  have "lr_Token (lx_Lease q) = er_nextToken rec" using wf_lease [OF assms(1) l(1)] m l by (auto simp: leaseMatches_def)
  then show ?thesis using assms(2)
    by (auto simp: releaseBody_def Let_def split_def split: option.splits if_splits intro!: ledger_spend [of fresh rec])
qed (use assms in simp)

interpretation release_ledger: keeps_ledger lx_ExecutionID releaseBody
  by unfold_locales (rule releaseBody_ledger)

lemma StartExecution_ledger:
  assumes "st_executions s i = Some rec" "ledgerOk fresh rec" "unwrapped fresh rec"
    "st_executions (snd (StartExecution codec ctxErr clock q s)) i = Some rec'"
  shows "ledgerOk fresh rec'"
proof -
  have c: "ledgerOk fresh rec0 \<Longrightarrow> unwrapped fresh rec0 \<Longrightarrow> ledgerOk fresh (snd (claimForStart rec0 q now))" for rec0 now
    by (auto simp: claimForStart_def Let_def split_def grantLease_fields split: option.splits intro!: ledger_grant)
  show ?thesis using assms c [of rec]
    by (auto simp: StartExecution_def Let_def split_def split: option.splits if_splits)
qed

lemmas operation_ledger =
  renew_ledger.withRecord_ledger save_ledger.withRecord_ledger suspend_ledger.withRecord_ledger
  release_ledger.withRecord_ledger finish_ledger.withRecord_ledger resume_ledger.withRecord_ledger
  finishAttempt_ledger.withRecord_ledger markUnknown_ledger.withRecord_ledger startAttempt_ledger.withRecord_ledger
  reconcile_ledger.withRecord_ledger

lemma execute_ledger:
  assumes "wfStore s" "st_executions s i = Some rec" "ledgerOk fresh rec" "unwrapped fresh rec"
    "st_executions (execute codec call s) i = Some rec'"
  shows "ledgerOk fresh rec'"
proof (cases call)
  case (fields ctxErr clock cmd)
  show ?thesis
    using assms(2,3,5) fields
    by (cases cmd) (auto simp: operation_defs split: if_splits option.splits
      dest: StartExecution_ledger [OF assms(2-4)] operation_ledger [OF assms(1-4)])
qed

lemma created_ledger:
  assumes "st_executions s i = None" and "st_executions (execute codec call s) i = Some rec"
  shows "ledgerOk fresh rec"
proof (cases call)
  case (fields ctxErr clock cmd)
  have None_kept: "st_executions (snd (withRecord ctxErr clock j opn body s)) i = None" for j opn and body :: "executionRecord \<Rightarrow> instant \<Rightarrow> 'b reply \<times> executionRecord"
    using assms(1) by (cases rule: withRecord_cases [of ctxErr clock j opn body s]) auto
  show ?thesis using assms unfolding fields
    by (cases cmd)
      (auto simp: operation_defs None_kept StartExecution_def newExecution_def ledgerOk_def Let_def split_def
        split: option.splits if_splits)
qed

lemma reachable_ledger:
  assumes "st_executions (history codec calls New) i = Some rec" and "fresh \<Longrightarrow> length calls < 2 ^ 64"
  shows "ledgerOk fresh rec"
  using assms
proof (induction calls arbitrary: rec rule: rev_induct)
  case (snoc call calls)
  let ?s = "history codec calls New"
  have e: "st_executions (execute codec call ?s) i = Some rec" using snoc.prems(1) by (simp add: history_append)
  show ?case
  proof (cases "st_executions ?s i")
    case None
    then show ?thesis using created_ledger [OF None e] by simp
  next
    case (Some rec0)
    have "unwrapped fresh rec0"
      using reachable_token [OF Some] snoc.prems(2) word_plus_one_gt(1) [of "er_nextToken rec0"] by (force simp: unwrapped_def)
    moreover have "ledgerOk fresh rec0" using snoc.prems(2) by (intro snoc.IH [OF Some]) simp
    ultimately show ?thesis using execute_ledger [OF reachable_wf Some _ _ e] by blast
  qed
qed (simp add: New_def)

end
