(* ===== verification/Durable_Runtime_Laws.thy ===== *)
theory Durable_Runtime_Laws
  imports Durable_Runtime Durable_Effects_Laws Backend_Ledger
begin

text \<open>
  How a run of the durable runtime moves the store and its own view of the execution: every step is a bounded
  number of calls of the backend, and the active execution keeps the lease it was claimed with.
\<close>

section \<open>Bounded numbers of calls\<close>

definition within :: "Codec \<Rightarrow> nat \<Rightarrow> store \<Rightarrow> store \<Rightarrow> bool" where
  "within codec n s s' \<longleftrightarrow> (\<exists>calls. s' = history codec calls s \<and> length calls \<le> n)"

lemma within_refl [simp]: "within codec n s s"
  unfolding within_def by (rule exI [of _ "[]"]) simp

lemma within_history [simp]: "length calls \<le> n \<Longrightarrow> within codec n s (history codec calls s)"
  unfolding within_def by blast

lemma within_trans: "within codec m s s1 \<Longrightarrow> within codec n s1 s2 \<Longrightarrow> m + n \<le> k \<Longrightarrow> within codec k s s2"
proof -
  assume "within codec m s s1" "within codec n s1 s2" "m + n \<le> k"
  then obtain a b where "s1 = history codec a s" "length a \<le> m" "s2 = history codec b s1" "length b \<le> n"
    unfolding within_def by blast
  then show ?thesis unfolding within_def using \<open>m + n \<le> k\<close>
    by (intro exI [of _ "a @ b"]) (simp add: history_append)
qed

lemma within_mono: "within codec m s s1 \<Longrightarrow> m \<le> k \<Longrightarrow> within codec k s s1"
  using within_trans [OF _ within_refl, of codec m s s1 0 k] by simp

lemma within_execute: "within codec (Suc n) s (execute codec call s)"
  unfolding within_def by (rule exI [of _ "[call]"]) simp

lemma within_reachable:
  assumes "s = history codec before New" "within codec n s s'"
  obtains calls where "s' = history codec calls New" "length calls \<le> length before + n"
proof -
  obtain calls where "s' = history codec calls s" "length calls \<le> n" using assms(2) unfolding within_def by blast
  then show thesis using assms(1) by (intro that [of "before @ calls"]) (simp_all add: history_append)
qed

lemma callBackend_within:
  assumes "snd (operation (wi_ctxErr w) (wi_clock w) s) = execute codec call s"
  shows "within codec (Suc 0) s (snd (callBackend w operation s))"
  using callBackend_store [of w operation s] assms within_execute [of codec 0 s call] by auto

lemma finishAttempt_within: "within codec (Suc 0) s (snd (finishAttempt w active attempt payload failure s))"
proof -
  have "within codec (Suc 0) s (snd (callBackend w (\<lambda>ctxErr clock. FinishAttempt ctxErr clock q) s))" for q
    by (rule callBackend_within [where call = "(wi_ctxErr w, wi_clock w, CmdFinishAttempt q)"]) simp
  then show ?thesis by (auto simp: finishAttempt_def split_def split: option.splits sum.splits)
qed

lemma markAttemptUnknown_within: "within codec (Suc 0) s (snd (markAttemptUnknown w active attempt payload failure s))"
proof -
  have "within codec (Suc 0) s (snd (callBackend w (\<lambda>ctxErr clock. MarkAttemptUnknown ctxErr clock q) s))" for q
    by (rule callBackend_within [where call = "(wi_ctxErr w, wi_clock w, CmdMarkUnknown q)"]) simp
  then show ?thesis by (auto simp: markAttemptUnknown_def split_def split: option.splits sum.splits)
qed

lemma startAttempt_within: "within codec (Suc 0) s (snd (callBackend w (\<lambda>ctxErr clock. StartAttempt ctxErr clock q) s))"
  by (rule callBackend_within [where call = "(wi_ctxErr w, wi_clock w, CmdStartAttempt q)"]) simp

lemma release_within: "within codec (Suc 0) s (snd (callBackend w (\<lambda>ctxErr clock. ReleaseExecution ctxErr clock q) s))"
  by (rule callBackend_within [where call = "(wi_ctxErr w, wi_clock w, CmdRelease q)"]) simp

lemma suspend_within: "within codec (Suc 0) s (snd (callBackend w (\<lambda>ctxErr clock. SuspendExecution ctxErr clock q) s))"
  by (rule callBackend_within [where call = "(wi_ctxErr w, wi_clock w, CmdSuspend q)"]) simp

lemma finish_within: "within codec (Suc 0) s (snd (callBackend w (\<lambda>ctxErr clock. FinishExecution codec ctxErr clock q) s))"
  by (rule callBackend_within [where call = "(wi_ctxErr w, wi_clock w, CmdFinish q)"]) simp

lemma toolAttemptSettle_within: "within codec (Suc 0) s (snd (snd (toolAttemptSettle ec w active attempt outcome s)))"
proof -
  have "\<exists>payload failure. snd (snd (toolAttemptSettle ec w active attempt outcome s)) = snd (finishAttempt w active attempt payload failure s)
      \<or> snd (snd (toolAttemptSettle ec w active attempt outcome s)) = snd (markAttemptUnknown w active attempt payload failure s)"
    by (auto simp: toolAttemptSettle_def Let_def split_def split: sum.splits prod.splits)
  then show ?thesis using finishAttempt_within markAttemptUnknown_within by metis
qed

text \<open>One start, whatever others do, one settling call.\<close>

lemma effect_within:
  assumes "callBackend w1 (\<lambda>ctxErr clock. StartAttempt ctxErr clock q) s = (r, s1)"
    "within codec (Suc 0) (history codec meanwhile s1) s2"
  shows "within codec (Suc (Suc (length meanwhile))) s s2"
proof -
  have "within codec (Suc 0) s s1" using startAttempt_within [of codec s w1 q] assms(1) by simp
  then have "within codec (Suc (length meanwhile)) s (history codec meanwhile s1)"
    by (rule within_trans [OF _ within_history [OF order_refl]]) simp
  then show ?thesis using assms(2) by (rule within_trans) simp
qed

lemma start_within:
  assumes "callBackend w1 (\<lambda>ctxErr clock. StartAttempt ctxErr clock q) s = (r, s1)" "Suc 0 \<le> n"
  shows "within codec n s s1"
  using startAttempt_within [of codec s w1 q] assms by (auto intro: within_mono)

lemma toolAttemptExecute_within:
  "within (ec_codec ec) (Suc (Suc (length meanwhile))) s (tn_store (toolAttemptExecute ec w1 w2 meanwhile drift nextd active call s))"
proof -
  have settle: "within (ec_codec ec) (Suc 0) s1 s2"
    if "toolAttemptSettle ec w2 later attempt outcome s1 = (result, err, s2)" for later attempt outcome s1 result err s2
    using toolAttemptSettle_within [of "ec_codec ec" s1 ec w2 later attempt outcome] that by simp
  show ?thesis
    by (auto simp: toolAttemptExecute_def Let_def split: option.split prod.split sum.split AttemptDecision.split
        intro: start_within effect_within settle)
qed

lemma modelAttemptOpen_within: "within codec (Suc 0) s (snd (modelAttemptOpen ec w active attempt outcome s))"
proof -
  have a: "within codec (Suc 0) s (snd (abandonOpen ec w active attempt err failure s))" for err failure
    using markAttemptUnknown_within [of codec s w active attempt _ "Some failure"]
    by (simp add: abandonOpen_def Let_def split_def split: sum.split)
  show ?thesis
    using finishAttempt_within [of codec s w active attempt]
    by (auto simp: modelAttemptOpen_def Let_def split_def split: openOutcome.split sum.split intro: a)
qed

lemma modelAttemptStream_within:
  "within (ec_codec ec) (Suc (Suc (length meanwhile))) s (so_store (modelAttemptStream ec w1 w2 meanwhile drift nextd active request s))"
proof -
  have settle: "within (ec_codec ec) (Suc 0) s1 s2"
    if "modelAttemptOpen ec w2 later attempt outcome s1 = (result, s2)" for later attempt outcome s1 result s2
    using modelAttemptOpen_within [of "ec_codec ec" s1 ec w2 later attempt outcome] that by simp
  show ?thesis
    by (auto simp: modelAttemptStream_def Let_def split: option.split prod.split sum.split AttemptDecision.split
        intro: start_within effect_within settle)
qed

lemma settleTerminal_within: "within codec (Suc 0) s (snd (snd (settleTerminal ec w active stream event recvErr s)))"
proof -
  have "within codec (Suc 0) s (snd (snd (recordTerminal ec w active stream validationErr failure event recvErr s)))"
    for validationErr failure
    by (simp add: recordTerminal_def split_def finishAttempt_within markAttemptUnknown_within split: option.split sum.split)
  then show ?thesis unfolding settleTerminal_def Let_def .
qed

lemma settleBroken_within: "within codec (Suc 0) s (snd (snd (settleBroken ec w active stream event err s)))"
  by (simp add: settleBroken_def Let_def split_def markAttemptUnknown_within split: sum.split)

lemma durableRecv_within: "within codec (Suc 0) s (sp_store (durableRecv ec w raw active stream s))"
  by (simp add: durableRecv_def Let_def split_def settleTerminal_within settleBroken_within split: option.split)

lemma durableClose_within: "within codec (Suc 0) s (snd (snd (snd (durableClose ec w nextErr active stream s))))"
  by (simp add: durableClose_def Let_def split_def markAttemptUnknown_within split: option.split sum.split)

lemma ObserveBoundary_within: "within codec (Suc 0) s (snd (snd (ObserveBoundary codec w continuation active s)))"
proof -
  have "within codec (Suc 0) s s1" if "callBackend w (\<lambda>ctxErr clock. SaveCheckpoint codec ctxErr clock q) s = (r, s1)" for q r s1
    using callBackend_within [of "\<lambda>ctxErr clock. SaveCheckpoint codec ctxErr clock q" w s codec "(wi_ctxErr w, wi_clock w, CmdSave q)"] that by simp
  then show ?thesis
    by (auto simp: ObserveBoundary_def Let_def split: option.split prod.split sum.split)
qed

lemma heartbeatTick_within: "within codec (Suc 0) s (fst (snd (heartbeatTick w ttl active s)))"
proof -
  have "within codec (Suc 0) s s1" if "callBackend w (\<lambda>ctxErr clock. RenewExecution ctxErr clock q) s = (r, s1)" for q r s1
    using callBackend_within [of "\<lambda>ctxErr clock. RenewExecution ctxErr clock q" w s codec "(wi_ctxErr w, wi_clock w, CmdRenew q)"] that by simp
  then show ?thesis
    by (auto simp: heartbeatTick_def Let_def split: option.split prod.split sum.split)
qed

text \<open>How many calls a step of a run makes at most, those of other callers included.\<close>

fun stepCalls :: "runStep \<Rightarrow> nat" where
  "stepCalls (RunTool w1 w2 meanwhile controls nextd call) = length meanwhile + 2"
| "stepCalls (RunModel w1 w2 meanwhile controls nextd request) = length meanwhile + 2"
| "stepCalls (RunOthers calls) = length calls"
| "stepCalls (RunControl event) = 0"
| "stepCalls _ = 1"

lemma runStep_within: "within (ec_codec ec) (stepCalls step) (rs_store st) (rs_store (runStepOf ec step st))"
proof (cases step)
  case (RunTool w1 w2 meanwhile controls nextd call)
  then show ?thesis by (simp add: runStepOf_def Let_def toolAttemptExecute_within)
next
  case (RunModel w1 w2 meanwhile controls nextd request)
  then show ?thesis by (simp add: runStepOf_def Let_def modelAttemptStream_within)
next
  case (RunRecv index w raw)
  then show ?thesis by (simp add: runStepOf_def Let_def durableRecv_within)
next
  case (RunCloseStream index w nextErr)
  then show ?thesis
    using durableClose_within [of "ec_codec ec" "rs_store st" ec w nextErr "rs_active st" "rs_streams st ! index"]
    by (auto simp: runStepOf_def split: prod.split)
next
  case (RunBoundary w continuation)
  then show ?thesis
    using ObserveBoundary_within [of "ec_codec ec" "rs_store st" w continuation "rs_active st"]
    by (auto simp: runStepOf_def split: prod.split)
next
  case (RunHeartbeat w ttl)
  then show ?thesis
    using heartbeatTick_within [of "ec_codec ec" "rs_store st" w ttl "rs_active st"]
    by (auto simp: runStepOf_def split: prod.split)
qed (simp_all add: runStepOf_def)

lemma runSteps_within: "within (ec_codec ec) (sum_list (map stepCalls steps)) (rs_store st) (rs_store (runSteps ec steps st))"
proof (induction steps arbitrary: st)
  case (Cons step steps)
  show ?case
    using within_trans [OF runStep_within [of ec step st] Cons.IH] by (simp add: runSteps_def)
qed (simp add: runSteps_def)

section \<open>The lease of a run\<close>

definition held :: "ExecutionID \<Rightarrow> LeaseRef \<Rightarrow> activeExecution \<Rightarrow> bool" where
  "held i ref active \<longleftrightarrow> ac_id active = i \<and> map_option refOf (e_Lease (ac_execution active)) = Some ref"

lemma held_fields [simp]:
  "held i ref (active\<lparr>ac_effects := n\<rparr>) = held i ref active"
  "held i ref (active\<lparr>ac_cause := c\<rparr>) = held i ref active"
  "held i ref (active\<lparr>ac_callerErr := e\<rparr>) = held i ref active"
  "held i ref (active\<lparr>ac_stopping := b\<rparr>) = held i ref active"
  "held i ref (active\<lparr>ac_stopCause := r\<rparr>) = held i ref active"
  "held i ref (active\<lparr>ac_suspendRequested := b\<rparr>) = held i ref active"
  "held i ref (active\<lparr>ac_heartbeatErr := r\<rparr>) = held i ref active"
  by (simp_all add: held_def)

lemma held_operations [simp]:
  "held i ref (endEffect active) = held i ref active"
  "held i ref (cancelCause cause active) = held i ref active"
  "held i ref (snd (beginEffect active)) = held i ref active"
  "held i ref (fst (requestStop cause active)) = held i ref active"
  "held i ref (snd (requestSuspend active)) = held i ref active"
  "held i ref (recordHeartbeatError err active) = held i ref active"
  "held i ref (stopNewEffects active) = held i ref active"
  "held i ref (finishEffect stream active) = held i ref active"
  by (simp_all add: endEffect_def cancelCause_def beginEffect_def requestStop_def requestSuspend_def recordHeartbeatError_def
      stopNewEffects_def finishEffect_def Let_def split: option.split)

lemma held_updateLease: "held i ref active \<Longrightarrow> held i ref (updateLease lease active)"
  by (auto simp: held_def updateLease_def refOf_def split: option.splits)

lemma held_applyControl: "held i ref active \<Longrightarrow> held i ref (applyControl event active)"
  by (cases event) (simp_all add: applyControl_def held_updateLease)

lemma held_controls: "held i ref active \<Longrightarrow> held i ref (fold applyControl events active)"
  by (induction events arbitrary: active) (simp_all add: held_applyControl)

lemma held_begin: "beginEffect active = (err, active1) \<Longrightarrow> held i ref active \<Longrightarrow> held i ref active1"
  using held_operations(3) [of i ref active] by simp

lemma held_toolAttemptExecute:
  assumes "held i ref active"
  shows "held i ref (tn_active (toolAttemptExecute ec w1 w2 meanwhile (fold applyControl controls) nextd active call s))"
  using assms
  by (auto simp: toolAttemptExecute_def Let_def intro: held_controls held_begin
      split: option.split prod.split sum.split AttemptDecision.split)

lemma held_modelAttemptStream:
  assumes "held i ref active"
  shows "held i ref (so_active (modelAttemptStream ec w1 w2 meanwhile (fold applyControl controls) nextd active request s))"
  using assms
  by (auto simp: modelAttemptStream_def Let_def intro: held_controls held_begin
      split: option.split prod.split sum.split AttemptDecision.split)

lemma held_durableRecv: "held i ref active \<Longrightarrow> held i ref (sp_active (durableRecv ec w raw active stream s))"
  by (simp add: durableRecv_def Let_def split_def split: option.split)

lemma held_durableClose: "held i ref active \<Longrightarrow> held i ref (fst (snd (snd (durableClose ec w nextErr active stream s))))"
  by (simp add: durableClose_def Let_def split_def split: option.split sum.split)

lemma held_heartbeatTick: "held i ref active \<Longrightarrow> held i ref (fst (heartbeatTick w ttl active s))"
  by (auto simp: heartbeatTick_def held_updateLease split: option.split prod.split sum.split)

text \<open>A checkpoint that is saved comes back with the lease it was saved under.\<close>

lemma SaveCheckpoint_saved:
  assumes "SaveCheckpoint codec ctxErr clock q s = (Inr saved, s1)"
  obtains rec rec' where "st_executions s (cx_ExecutionID q) = Some rec" "saveBody codec q rec (trustedNow clock s) = (Inr saved, rec')"
    "s1 = s\<lparr>st_executions := (st_executions s)(cx_ExecutionID q \<mapsto> rec')\<rparr>" "er_execution rec' = saved"
    "map_option refOf (e_Lease saved) = Some (cx_Lease q)"
proof -
  have w: "withRecord ctxErr clock (cx_ExecutionID q) [] (saveBody codec q) s = (Inr saved, s1)"
    using assms by (auto simp: SaveCheckpoint_def split: if_splits option.splits)
  obtain rec rec' where r: "st_executions s (cx_ExecutionID q) = Some rec" "saveBody codec q rec (trustedNow clock s) = (Inr saved, rec')"
    "s1 = s\<lparr>st_executions := (st_executions s)(cx_ExecutionID q \<mapsto> rec')\<rparr>"
    by (cases rule: withRecord_cases [of ctxErr clock "cx_ExecutionID q" "[]" "saveBody codec q" s]) (use w in \<open>auto simp: prod_eq_iff\<close>)
  have "requireActiveLease rec (cx_ExecutionID q) (cx_Lease q) (trustedNow clock s) = None"
    using r(2) by (auto simp: saveBody_def Let_def split: option.splits)
  then obtain lease where "e_Lease (er_execution rec) = Some lease" "refOf lease = cx_Lease q" using active_lease_Some by blast
  then have "er_execution rec' = saved" "map_option refOf (e_Lease saved) = Some (cx_Lease q)"
    using r(2) by (auto simp: saveBody_def Let_def split: option.splits if_splits)
  then show thesis using that r by blast
qed

lemma held_ObserveBoundary:
  assumes "held i ref active"
  shows "held i ref (fst (snd (ObserveBoundary codec w continuation active s)))"
proof -
  have "held i ref (setExecution saved active)"
    if "callBackend w (\<lambda>ctxErr clock. SaveCheckpoint codec ctxErr clock q) s = (Inr saved, s1)" "cx_Lease q = ref" for q saved s1
  proof -
    have "map_option refOf (e_Lease saved) = Some ref"
      using that by (auto simp: callBackend_Inr elim!: SaveCheckpoint_saved)
    then show ?thesis using assms by (simp add: held_def setExecution_def)
  qed
  moreover have "refOf lease = ref" if "e_Lease (ac_execution active) = Some lease" for lease
    using assms that by (simp add: held_def)
  ultimately show ?thesis using assms
    by (auto simp: ObserveBoundary_def Let_def split: option.split sum.split prod.split)
qed

lemma held_runStep: "held i ref (rs_active st) \<Longrightarrow> held i ref (rs_active (runStepOf ec step st))"
proof (cases step)
  case (RunCloseStream index w nextErr)
  then show "held i ref (rs_active st) \<Longrightarrow> ?thesis"
    using held_durableClose [of i ref "rs_active st" ec w nextErr "rs_streams st ! index" "rs_store st"]
    by (auto simp: runStepOf_def split: prod.split)
next
  case (RunBoundary w continuation)
  then show "held i ref (rs_active st) \<Longrightarrow> ?thesis"
    using held_ObserveBoundary [of i ref "rs_active st" "ec_codec ec" w continuation "rs_store st"]
    by (auto simp: runStepOf_def split: prod.split)
next
  case (RunHeartbeat w ttl)
  then show "held i ref (rs_active st) \<Longrightarrow> ?thesis"
    using held_heartbeatTick [of i ref "rs_active st" w ttl "rs_store st"]
    by (auto simp: runStepOf_def split: prod.split)
qed (simp_all add: runStepOf_def Let_def held_toolAttemptExecute held_modelAttemptStream held_durableRecv held_applyControl)

lemma held_runSteps: "held i ref (rs_active st) \<Longrightarrow> held i ref (rs_active (runSteps ec steps st))"
  unfolding runSteps_def by (induction steps arbitrary: st) (simp_all add: held_runStep)

section \<open>Giving up the lease\<close>

text \<open>A store reached by so few calls that \<open>n\<close> more still leave every token fresh.\<close>

definition tracked :: "Codec \<Rightarrow> nat \<Rightarrow> store \<Rightarrow> bool" where
  "tracked codec n s \<longleftrightarrow> (\<exists>calls. s = history codec calls New \<and> length calls + n < 2 ^ 64)"

lemma tracked_within:
  assumes "tracked codec k s" "within codec m s s'" "m + n \<le> k"
  shows "tracked codec n s'"
proof -
  obtain calls where c: "s = history codec calls New" "length calls + k < 2 ^ 64" using assms(1) unfolding tracked_def by blast
  obtain calls' where "s' = history codec calls' New" "length calls' \<le> length calls + m"
    by (rule within_reachable [OF c(1) assms(2)])
  then show ?thesis unfolding tracked_def using c(2) assms(3) by (intro exI [of _ calls']) simp
qed

lemma tracked_record:
  assumes "tracked codec n s" "st_executions s i = Some rec"
  shows "wfRecord i rec" "ledgerOk True rec"
  using assms reachable_record reachable_ledger unfolding tracked_def by fastforce+

lemma tracked_wf: "tracked codec n s \<Longrightarrow> wfStore s"
  unfolding tracked_def by auto

definition unleased :: "ExecutionID \<Rightarrow> store \<Rightarrow> bool" where
  "unleased i s \<longleftrightarrow> (\<exists>rec. st_executions s i = Some rec \<and> e_Lease (er_execution rec) = None)"

lemma withRecord_Inr:
  assumes "withRecord ctxErr clock i opn body s = (Inr value, s1)"
  obtains rec rec' where "st_executions s i = Some rec" "body rec (trustedNow clock s) = (Inr value, rec')"
    "s1 = s\<lparr>st_executions := (st_executions s)(i \<mapsto> rec')\<rparr>"
  by (cases rule: withRecord_cases [of ctxErr clock i opn body s]) (use assms that in \<open>auto simp: prod_eq_iff\<close>)

lemma spent_not_behind:
  "spent rec token \<Longrightarrow> \<not> token < er_nextToken rec \<Longrightarrow> e_Lease (er_execution rec) = None"
  by (auto simp: spent_def)

lemma ReleaseExecution_unleased:
  assumes "tracked codec n s" "ReleaseExecution ctxErr clock q s = (Inr released, s1)"
  shows "unleased (lx_ExecutionID q) s1"
proof -
  have "withRecord ctxErr clock (lx_ExecutionID q) [] (releaseBody q) s = (Inr released, s1)"
    using assms(2) by (auto simp: ReleaseExecution_def split: if_splits)
  then obtain rec rec' where r: "st_executions s (lx_ExecutionID q) = Some rec" "releaseBody q rec (trustedNow clock s) = (Inr released, rec')"
    "s1 = s\<lparr>st_executions := (st_executions s)(lx_ExecutionID q \<mapsto> rec')\<rparr>" by (rule withRecord_Inr)
  have "er_releases rec (lr_OwnerID (lx_Lease q), lr_Token (lx_Lease q)) \<noteq> None \<Longrightarrow> spent rec (lr_Token (lx_Lease q))"
    using tracked_record(2) [OF assms(1) r(1)] unfolding ledgerOk_def by blast
  then have "e_Lease (er_execution rec') = None"
    using r(2) spent_not_behind [of rec "lr_Token (lx_Lease q)"]
    by (auto simp: releaseBody_def Let_def split_def split: option.splits if_splits)
  then show ?thesis using r(3) by (simp add: unleased_def)
qed

lemma SuspendExecution_unleased:
  assumes "tracked codec n s" "SuspendExecution ctxErr clock q s = (Inr suspended, s1)"
  shows "unleased (px_ExecutionID q) s1"
proof -
  have "withRecord ctxErr clock (px_ExecutionID q) [] (suspendBody q) s = (Inr suspended, s1)"
    using assms(2) by (auto simp: SuspendExecution_def split: if_splits)
  then obtain rec rec' where r: "st_executions s (px_ExecutionID q) = Some rec" "suspendBody q rec (trustedNow clock s) = (Inr suspended, rec')"
    "s1 = s\<lparr>st_executions := (st_executions s)(px_ExecutionID q \<mapsto> rec')\<rparr>" by (rule withRecord_Inr)
  have "er_suspends rec ((lr_OwnerID (px_Lease q), lr_Token (px_Lease q)), px_ExpectedVersion q) \<noteq> None \<Longrightarrow> spent rec (lr_Token (px_Lease q))"
    using tracked_record(2) [OF assms(1) r(1)] unfolding ledgerOk_def by blast
  then have "e_Lease (er_execution rec') = None"
    using r(2) spent_not_behind [of rec "lr_Token (px_Lease q)"]
    by (auto simp: suspendBody_def Let_def split: option.splits if_splits)
  then show ?thesis using r(3) by (simp add: unleased_def)
qed

text \<open>A finish that succeeds leaves the execution terminal, under the hash of the result.\<close>

lemma FinishExecution_finished:
  assumes "wfStore s" "\<And>rec. st_executions s (fx_ExecutionID q) = Some rec \<Longrightarrow> ledgerOk False rec"
    "FinishExecution codec ctxErr clock q s = (Inr finished, s1)"
  obtains rec where "st_executions s1 (fx_ExecutionID q) = Some rec" "er_execution rec = finished" "terminal (e_Status finished)"
    "e_Lease finished = None" "e_ResultHash finished = fx_ResultHash q"
proof -
  have "withRecord ctxErr clock (fx_ExecutionID q) [] (finishBody codec q) s = (Inr finished, s1)"
    using assms(3) by (auto simp: FinishExecution_def split: if_splits option.splits)
  then obtain rec rec' where r: "st_executions s (fx_ExecutionID q) = Some rec" "finishBody codec q rec (trustedNow clock s) = (Inr finished, rec')"
    "s1 = s\<lparr>st_executions := (st_executions s)(fx_ExecutionID q \<mapsto> rec')\<rparr>" by (rule withRecord_Inr)
  have wf: "wfRecord (fx_ExecutionID q) rec" using assms(1) r(1) by (simp add: wfStore_def)
  note f = finishBody_Inr [OF wf r(2)]
  have "wfRecord (fx_ExecutionID q) rec'" using finish.body_wf [OF wf, of codec "trustedNow clock s"] r(2) by simp
  then have "e_Lease finished = None" using wf_terminal f by fastforce
  moreover have "e_ResultHash finished = fx_ResultHash q"
    using finishBody_ledger [OF assms(2) [OF r(1)], of codec q "trustedNow clock s"] r(2) f unfolding ledgerOk_def by (metis snd_conv)
  ultimately show thesis using that [of rec'] f r(3) by simp
qed

lemma releaseActive_unleased:
  assumes "held i ref active" "tracked codec n s" "releaseActive world active s = (None, active1, s1)"
  shows "unleased i s1"
proof -
  obtain lease where l: "e_Lease (ac_execution active) = Some lease" "ac_id active = i" using assms(1) by (auto simp: held_def)
  obtain released where "callBackend (sw_release world) (\<lambda>ctxErr clock. ReleaseExecution ctxErr clock
      \<lparr>lx_ExecutionID = i, lx_Lease = leaseReference lease\<rparr>) s = (Inr released, s1)"
    using assms(3) l by (auto simp: releaseActive_def stopNewEffects_def Let_def split: option.splits prod.splits sum.splits)
  then have "unleased (lx_ExecutionID \<lparr>lx_ExecutionID = i, lx_Lease = leaseReference lease\<rparr>) s1"
    unfolding callBackend_Inr by (elim conjE) (rule ReleaseExecution_unleased [OF assms(2)])
  then show ?thesis by simp
qed

lemma suspendActive_unleased:
  assumes "held i ref active" "tracked codec n s" "suspendActive world active s = (None, active1, s1)"
  shows "unleased i s1"
proof -
  obtain lease where l: "e_Lease (ac_execution active) = Some lease" "ac_id active = i" using assms(1) by (auto simp: held_def)
  let ?q = "\<lparr>px_ExecutionID = i, px_Lease = leaseReference lease, px_ExpectedVersion = e_Version (ac_execution active)\<rparr>"
  obtain suspended where "callBackend (sw_suspend world) (\<lambda>ctxErr clock. SuspendExecution ctxErr clock ?q) s = (Inr suspended, s1)"
    using assms(3) l by (auto simp: suspendActive_def split: option.splits prod.splits sum.splits simp del: joinErrors.simps)
  then have "unleased (px_ExecutionID ?q) s1"
    unfolding callBackend_Inr by (elim conjE) (rule SuspendExecution_unleased [OF assms(2)])
  then show ?thesis by simp
qed

lemma releaseWith_unleased:
  assumes "held i ref active" "tracked codec n s" "rr_control (releaseWith world err result active s) = None"
  shows "unleased i (rr_store (releaseWith world err result active s))"
  using assms releaseActive_unleased [OF assms(1,2)]
  by (auto simp: releaseWith_def split: prod.splits)

text \<open>The ways \<^verbatim>\<open>complete\<close> ends.\<close>

lemma complete_cases:
  obtains (suspended) cleanupErr active1 s1 where
    "suspendActive world (stopNewEffects active) s = (cleanupErr, active1, s1)"
    "complete codec world outcome active s = \<lparr>rr_result = eo_result outcome,
       rr_err = joinErrors [Some (DurableError ErrSuspended), cleanupErr], rr_control = cleanupErr, rr_active = active1, rr_store = s1\<rparr>"
  | (released) err where
    "complete codec world outcome active s = releaseWith world err (eo_result outcome) (stopNewEffects active) s"
  | (lost) err where "e_Lease (ac_execution active) = None"
    "complete codec world outcome active s = \<lparr>rr_result = eo_result outcome, rr_err = Some err, rr_control = Some err,
       rr_active = stopNewEffects active, rr_store = s\<rparr>"
  | (unfinished) q err fault s1 where
    "callBackend (sw_finish world) (\<lambda>ctxErr clock. FinishExecution codec ctxErr clock q) s = (Inl fault, s1)"
    "complete codec world outcome active s = releaseWith world err (eo_result outcome) (stopNewEffects active) s1"
  | (finished) lease resultHash q finished s1 where
    "q = \<lparr>fx_ExecutionID = ac_id active, fx_Lease = leaseReference lease, fx_ExpectedVersion = e_Version (ac_execution active),
        fx_Result = eo_result outcome, fx_ResultHash = resultHash\<rparr>"
    "e_Lease (ac_execution active) = Some lease" "HashResult codec (eo_result outcome) = Some resultHash"
    "callBackend (sw_finish world) (\<lambda>ctxErr clock. FinishExecution codec ctxErr clock q) s = (Inr finished, s1)"
    "complete codec world outcome active s = \<lparr>rr_result = eo_result outcome, rr_err = None, rr_control = None,
       rr_active = setExecution finished (stopNewEffects active), rr_store = s1\<rparr>"
proof -
  let ?a = "stopNewEffects active"
  have stop: "ac_id ?a = ac_id active" "ac_execution ?a = ac_execution active" by (simp_all add: stopNewEffects_def)
  note d = complete_def Let_def stop
  show thesis
  proof (cases "ac_stopCause ?a")
    case (Some cause)
    show ?thesis
    proof (cases "isDurable ErrSuspended cause")
      case True
      obtain cleanupErr active1 s1 where x: "suspendActive world ?a s = (cleanupErr, active1, s1)" by (rule prod_cases3)
      show ?thesis by (rule suspended [OF x]) (simp add: d Some True x del: joinErrors.simps)
    next
      case False
      show ?thesis
        by (rule released [of "if isDurable ErrClosed cause then DurableError ErrClosed else cause"]) (simp add: d Some False)
    qed
  next
    case None
    note n = None
    let ?infra = "r_Failure (eo_result outcome) \<noteq> None \<and> eo_cause outcome \<noteq> None \<and> isRuntimeInfrastructure (the (eo_cause outcome))"
    have "(\<exists>err. complete codec world outcome active s = releaseWith world err (eo_result outcome) ?a s)
      \<or> ac_heartbeatErr ?a = None \<and> ac_callerErr ?a = None \<and> sw_waitComplete world = None \<and> \<not> ?infra"
    proof (cases "ac_heartbeatErr ?a = None \<and> ac_callerErr ?a = None \<and> \<not> ?infra")
      case True
      then show ?thesis by (cases "sw_waitComplete world") (auto simp: d n)
    next
      case False
      then show ?thesis by (cases "ac_heartbeatErr ?a"; cases "ac_callerErr ?a") (auto simp: d n)
    qed
    then show ?thesis
    proof (elim disjE exE conjE)
      fix err assume "complete codec world outcome active s = releaseWith world err (eo_result outcome) ?a s"
      then show ?thesis by (rule released)
    next
      assume go: "ac_heartbeatErr ?a = None" "ac_callerErr ?a = None" "sw_waitComplete world = None" "\<not> ?infra"
      show ?thesis
      proof (cases "e_Lease (ac_execution active)")
        case None
        show ?thesis
          by (rule lost [OF None, of "executionRuntimeError (ac_id active) ErrLeaseLost"]) (use go None in \<open>auto simp: d n\<close>)
      next
        case (Some lease)
        show ?thesis
        proof (cases "HashResult codec (eo_result outcome)")
          case None
          show ?thesis
            by (rule released [of "EffectError (Wrapped ''hash terminal result'' (TextError ''canonical JSON''))"])
              (use go None Some in \<open>auto simp: d n\<close>)
        next
          case h: (Some resultHash)
          let ?q = "\<lparr>fx_ExecutionID = ac_id active, fx_Lease = leaseReference lease, fx_ExpectedVersion = e_Version (ac_execution active),
            fx_Result = eo_result outcome, fx_ResultHash = resultHash\<rparr>"
          obtain reply s1 where c: "callBackend (sw_finish world) (\<lambda>ctxErr clock. FinishExecution codec ctxErr clock ?q) s = (reply, s1)"
            by fastforce
          show ?thesis
          proof (cases reply)
            case (Inl fault)
            show ?thesis by (rule unfinished [OF c [unfolded Inl], of "backendOperationError ''finish execution'' fault"])
                (use go h Some c Inl in \<open>auto simp: d n\<close>)
          next
            case (Inr finished)
            show ?thesis by (rule local.finished [OF refl Some h c [unfolded Inr]]) (use go h Some c Inr in \<open>auto simp: d n\<close>)
          qed
        qed
      qed
    qed
  qed
qed

lemma releaseWith_err: "rr_err (releaseWith world err result active s) \<noteq> None"
  by (simp add: releaseWith_def split_def del: joinErrors.simps)

text \<open>Whatever way it ends, without a control error the execution is left unleased.\<close>

lemma complete_unleased:
  assumes "held i ref active" "tracked codec 1 s" "rr_control (complete codec world outcome active s) = None"
  shows "unleased i (rr_store (complete codec world outcome active s))"
proof -
  have h: "held i ref (stopNewEffects active)" using assms(1) by simp
  have id: "ac_id active = i" using assms(1) by (simp add: held_def)
  show ?thesis
  proof (cases rule: complete_cases [of world active s codec outcome])
    case (suspended cleanupErr active1 s1)
    then show ?thesis using suspendActive_unleased [OF h assms(2), of world active1 s1] assms(3) by simp
  next
    case (released err)
    then show ?thesis using releaseWith_unleased [OF h assms(2)] assms(3) by simp
  next
    case (unfinished q err fault s1)
    have "within codec (Suc 0) s s1" using finish_within [of codec s "sw_finish world" q] unfinished(1) by simp
    then have "tracked codec 0 s1" by (rule tracked_within [OF assms(2)]) simp
    then show ?thesis using releaseWith_unleased [OF h] assms(3) unfinished(2) by simp
  next
    case (finished lease resultHash q finished s1)
    have i: "fx_ExecutionID q = i" using finished(1) id by simp
    have l: "ledgerOk False rec" if "st_executions s (fx_ExecutionID q) = Some rec" for rec
      using tracked_record(2) [OF assms(2) that] by (auto simp: ledgerOk_def)
    have fe: "FinishExecution codec (wi_ctxErr (sw_finish world)) (wi_clock (sw_finish world)) q s = (Inr finished, s1)"
      using finished(4) by (simp add: callBackend_Inr)
    obtain rec where "st_executions s1 (fx_ExecutionID q) = Some rec" "er_execution rec = finished" "e_Lease finished = None"
      by (rule FinishExecution_finished [OF tracked_wf [OF assms(2)] l fe])
    then have "st_executions s1 i = Some rec" "e_Lease (er_execution rec) = None" using i by simp_all
    then show ?thesis using finished(5) by (simp add: unleased_def)
  qed (use assms(3) in simp)
qed

lemma runClaimed_unleased:
  assumes "held (e_ID execution) ref active" "ac_execution active = execution" "\<not> terminalExecution (e_Status execution)"
    "tracked (ec_codec ec) (sum_list (map stepCalls (rw_steps world)) + 1) s"
    "rr_control (runClaimed ec world execution reconcile target active s) = None"
  shows "unleased (e_ID execution) (rr_store (runClaimed ec world execution reconcile target active s))"
proof -
  let ?ran = "runSteps ec (rw_steps world) \<lparr>rs_active = active, rs_store = s, rs_streams = []\<rparr>"
  have "within (ec_codec ec) (sum_list (map stepCalls (rw_steps world))) s (rs_store ?ran)"
    using runSteps_within [of ec "rw_steps world" "\<lparr>rs_active = active, rs_store = s, rs_streams = []\<rparr>"] by simp
  then have t: "tracked (ec_codec ec) 1 (rs_store ?ran)" by (rule tracked_within [OF assms(4)]) simp
  have h: "held (e_ID execution) ref (rs_active ?ran)" using assms(1) by (intro held_runSteps) simp
  have l: "e_Lease execution \<noteq> None" using assms(1,2) by (auto simp: held_def)
  show ?thesis
    using assms(3,5) l releaseWith_unleased [OF assms(1,4)] complete_unleased [OF h t]
    unfolding runClaimed_def Let_def by (auto split: option.splits if_splits)
qed

end
