(* ===== verification/Durable_Effects_Properties.thy ===== *)
theory Durable_Effects_Properties
  imports Durable_Effects_Laws
begin

text \<open>
  What the interceptors of the durable runtime promise: an operation is not carried out twice behind the
  operator's back, and what was recorded is what a later run of the operation answers.
\<close>

section \<open>A small codec and two runs\<close>

definition demoResult :: ToolResult where
  "demoResult = zeroToolResult\<lparr>tr_Name := ''t''\<rparr>"

definition demoEffects :: EffectCodec where
  "demoEffects = \<lparr>ec_codec = demoCodec, ec_marshalToolInput = (\<lambda>_ _. Some ''i''),
     ec_marshalTool = (\<lambda>_. Inr ''e''),
     ec_unmarshalTool = (\<lambda>_. Inr \<lparr>te_Version = 1, te_Result = demoResult, te_Failure = None\<rparr>),
     ec_marshalModel = (\<lambda>_. Inr ''m''), ec_unmarshalModel = (\<lambda>_. Inr \<lparr>me_Version = 1, me_Events = [], me_Failure = None\<rparr>),
     ec_errorText = (\<lambda>_. ''error'')\<rparr>"

definition upWire :: "instant \<Rightarrow> wire" where
  "upWire clock = \<lparr>wi_ctxErr = None, wi_clock = clock, wi_down = None, wi_lost = None\<rparr>"

definition downWire :: wire where
  "downWire = \<lparr>wi_ctxErr = None, wi_clock = 2, wi_down = Some (TextError ''connection refused''), wi_lost = None\<rparr>"

text \<open>The active execution as its owner sees it, with the lease the store holds.\<close>

definition activeOf :: "store \<Rightarrow> activeExecution" where
  "activeOf s = setExecution (er_execution (the (st_executions s ''x''))) (newActiveExecution None ''x'')"

definition demoTool :: ToolCall where
  "demoTool = \<lparr>tc_ID = ''c'', tc_Name = ''t'', tc_Arguments = [], tc_OperationID = ''t''\<rparr>"

definition demoStarted :: store where
  "demoStarted = history demoCodec [(None, 0, CmdStart demoStart)] New"

text \<open>The first process loses the backend before it can settle; the operator has the attempt retried; a third owner resumes.\<close>

definition crashedRun :: toolRun where
  "crashedRun = toolAttemptExecute demoEffects (upWire 1) downWire [] id (\<lambda>_. Returned demoResult None)
     (activeOf demoStarted) demoTool demoStarted"

definition demoRetry :: "call list" where
  "demoRetry = [(None, 20, CmdResume demoResume),
     (None, 21, CmdRelease \<lparr>lx_ExecutionID = ''x'', lx_Lease = \<lparr>lr_OwnerID = ''p'', lr_Token = 2\<rparr>\<rparr>),
     (None, 22, CmdReconcile \<lparr>ra_ExecutionID = ''x'', ra_OperationID = ''t'', ra_AttemptNumber = 1,
        ra_ExpectedAttemptVersion = 2, ra_Resolution = ReconcileResolutionRetry, ra_Payload = [], ra_Failure = None\<rparr>),
     (None, 23, CmdResume (demoResume\<lparr>rx_ClaimID := 3\<rparr>))]"

definition retryStore :: store where
  "retryStore = history demoCodec demoRetry (tn_store crashedRun)"

definition retriedRun :: toolRun where
  "retriedRun = toolAttemptExecute demoEffects (upWire 24) (upWire 25) [] id (\<lambda>_. Returned demoResult None)
     (activeOf retryStore) demoTool retryStore"

text \<open>The same with a first process that settles, then crashes; the second owner finds the result on record.\<close>

definition settledRun :: toolRun where
  "settledRun = toolAttemptExecute demoEffects (upWire 1) (upWire 2) [] id (\<lambda>_. Returned demoResult None)
     (activeOf demoStarted) demoTool demoStarted"

definition resumedStore :: store where
  "resumedStore = history demoCodec [(None, 20, CmdResume demoResume)] (tn_store settledRun)"

definition replayedRun :: toolRun where
  "replayedRun = toolAttemptExecute demoEffects (upWire 21) (upWire 22) [] id (\<lambda>_. Panicked ''not reached'')
     (activeOf resumedStore) demoTool resumedStore"

text \<open>A model stream whose answer is recorded, and one whose answer is refused: its tool call has no ID.\<close>

definition doneEvent :: Event where
  "doneEvent = zeroEvent\<lparr>ev_Kind := EventDone\<rparr>"

definition namelessCall :: Event where
  "namelessCall = zeroEvent\<lparr>ev_Kind := EventToolCall, ev_ToolCall := Some (demoTool\<lparr>tc_ID := []\<rparr>)\<rparr>"

definition demoAsked :: StartAttemptRequest where
  "demoAsked = demoModel\<lparr>sa_InputHash := 7\<rparr>"

definition streamingCalls :: "call list" where
  "streamingCalls = [(None, 0, CmdStart demoStart), (None, 1, CmdStartAttempt demoAsked)]"

definition streamingStore :: store where
  "streamingStore = history demoCodec streamingCalls New"

definition streamOf :: "Event list \<Rightarrow> durableModelStream" where
  "streamOf events = \<lparr>ds_attempt = newAttempt demoAsked 1, ds_events = events, ds_settled = False, ds_closed = False,
     ds_closeErr = None, ds_ended = False\<rparr>"

definition modelCodec :: "modelAttemptEnvelope \<Rightarrow> EffectCodec" where
  "modelCodec envelope = demoEffects\<lparr>ec_unmarshalModel := (\<lambda>_. Inr envelope)\<rparr>"

definition demoRequest :: ProviderRequest where
  "demoRequest = \<lparr>pq_OperationID = ''m'', pq_encoded = Some ''q''\<rparr>"

definition answeredCodec :: EffectCodec where
  "answeredCodec = modelCodec (modelEnvelope demoEffects [doneEvent] None)"

definition answeredStep :: streamStep where
  "answeredStep = durableRecv answeredCodec (upWire 2) (RawRecv doneEvent None) (activeOf streamingStore) (streamOf []) streamingStore"

definition answeredStore :: store where
  "answeredStore = history demoCodec [(None, 20, CmdResume demoResume)] (sp_store answeredStep)"

definition answeredRun :: streamOpen where
  "answeredRun = modelAttemptStream answeredCodec (upWire 21) (upWire 22) [] id (\<lambda>_. Opened) (activeOf answeredStore) demoRequest answeredStore"

definition refusedError :: runtimeError where
  "refusedError = the (validateSuccessfulModelEvents demoEffects [namelessCall, doneEvent])"

definition refusedCodec :: EffectCodec where
  "refusedCodec = modelCodec (modelEnvelope demoEffects [namelessCall, doneEvent] (Some (failureFromError demoEffects refusedError)))"

definition refusedStep :: streamStep where
  "refusedStep = durableRecv refusedCodec (upWire 2) (RawRecv doneEvent None) (activeOf streamingStore) (streamOf [namelessCall]) streamingStore"

definition refusedStore :: store where
  "refusedStore = history demoCodec [(None, 20, CmdResume demoResume)] (sp_store refusedStep)"

definition refusedRun :: streamOpen where
  "refusedRun = modelAttemptStream refusedCodec (upWire 21) (upWire 22) [] id (\<lambda>_. Opened) (activeOf refusedStore) demoRequest refusedStore"

section \<open>Properties\<close>

text \<open>
  C11. A tool is not executed twice behind the operator's back. Let the driver be reached for an operation of an
  execution, in any reachable state of the backend, whatever other callers do meanwhile and whether or not the
  result can be settled. If the driver is reached for that operation again under another lease, then in between
  someone has called \<^verbatim>\<open>ReconcileAttempt\<close> with the resolution \<^verbatim>\<open>retry\<close> for exactly the first attempt.
\<close>

theorem tool_effect_once:
  assumes "first = toolAttemptExecute ec w1 w2 meanwhile drift nextd active call (history (ec_codec ec) before New)"
    and "tn_reached first \<noteq> []"
    and "second = toolAttemptExecute ec v1 v2 meanwhile' drift' nextd' active' call' (history (ec_codec ec) between (tn_store first))"
    and "tn_reached second \<noteq> []"
    and "ac_id active' = ac_id active" and "tc_OperationID call' = tc_OperationID call"
    and "map_option leaseReference (e_Lease (ac_execution active')) \<noteq> map_option leaseReference (e_Lease (ac_execution active))"
  shows "\<exists>attempt. tn_attempt first = Some attempt \<and>
    (\<exists>c \<in> set (meanwhile @ between). asksRetry (ac_id active) (tc_OperationID call) (a_Number attempt) c)"
proof -
  let ?opn = "tc_OperationID call" and ?i = "ac_id active"
  obtain a b where a: "tn_attempt first = Some a" and b: "tn_attempt second = Some b"
    using assms(2,4) by (auto simp: assms(1,3) tool_reached split: if_splits)
  obtain rec s1 settling where f: "st_executions s1 ?i = Some rec" "a \<in> set (slotOf rec ?opn)" "wfStore s1"
    "a_Status a = AttemptStatusRunning" "a_Lease a = map_option refOf (e_Lease (ac_execution active))"
    "tn_store first = history (ec_codec ec) (meanwhile @ settling) s1"
    "\<forall>c \<in> set settling. \<not> asksRetry ?i ?opn (a_Number a) c"
    using a unfolding assms(1) by (rule tool_reaches_store [OF _ reachable_wf]) blast
  let ?s = "history (ec_codec ec) between (tn_store first)"
  have s: "?s = history (ec_codec ec) (meanwhile @ settling @ between) s1" by (simp add: f(6) history_append)
  have wf: "wfStore ?s" unfolding s using f(3) by (rule history_wf)
  obtain rec' a' where l: "st_executions ?s ?i = Some rec'" "a' \<in> set (slotOf rec' ?opn)" "evolves a a'"
    using attempt_persists [OF f(3,1,2)] unfolding s by blast
  have "a_Lease b = map_option refOf (e_Lease (ac_execution active'))"
    using b unfolding assms(3) by (rule tool_reaches_store [OF _ wf]) blast
  then have "a_Lease b \<noteq> a_Lease a" using assms(7) f(5) by (simp add: leaseReference_refOf [abs_def])
  moreover have "a_Status a' = AttemptStatusAbandoned \<or> a_Status a' = AttemptStatusRunning \<and> a_Lease a' = a_Lease b"
    using l(1,2) assms(5,6) by (intro tool_reaches_again [OF b [unfolded assms(3)] wf]) auto
  moreover have "a_Lease b \<noteq> None" using b unfolding assms(3) by (elim tool_reaches) (auto elim!: StartAttempt_started [OF _ _ wf])
  ultimately have "a_Status a' = AttemptStatusAbandoned" using l(3) unfolding evolves_def by metis
  then have "a_Number a' \<in> abandonedIn rec' ?opn" using l(2) unfolding abandonedIn_def by blast
  then have "a_Number a \<in> abandonedIn rec' ?opn" using l(3) by (simp add: evolves_def)
  moreover have "a_Number a \<notin> abandonedIn rec ?opn"
  proof
    assume "a_Number a \<in> abandonedIn rec ?opn"
    then obtain c where c: "c \<in> set (slotOf rec ?opn)" "a_Number c = a_Number a" "a_Status c = AttemptStatusAbandoned"
      by (auto simp: abandonedIn_def)
    have "wfRecord ?i rec" using f(1,3) by (simp add: wfStore_def)
    then show False using slot_number_unique [OF _ c(1) f(2) c(2)] c(3) f(4) by simp
  qed
  ultimately have "\<exists>c \<in> set (meanwhile @ settling @ between). asksRetry ?i ?opn (a_Number a) c"
    using history_abandons [OF f(3,1)] l(1) unfolding s by blast
  then show ?thesis using a f(7) by auto
qed

lemma tool_effect_once_witness:
  "\<exists>attempt. tn_attempt crashedRun = Some attempt \<and>
    (\<exists>c \<in> set ([] @ demoRetry). asksRetry (ac_id (activeOf demoStarted)) (tc_OperationID demoTool) (a_Number attempt) c)"
proof (rule tool_effect_once [where second = retriedRun])
  show "crashedRun = toolAttemptExecute demoEffects (upWire 1) downWire [] id (\<lambda>_. Returned demoResult None)
     (activeOf demoStarted) demoTool (history (ec_codec demoEffects) [(None, 0, CmdStart demoStart)] New)"
    unfolding crashedRun_def demoStarted_def demoEffects_def by simp
  show "tn_reached crashedRun \<noteq> []" by code_simp
  show "retriedRun = toolAttemptExecute demoEffects (upWire 24) (upWire 25) [] id (\<lambda>_. Returned demoResult None)
     (activeOf retryStore) demoTool (history (ec_codec demoEffects) demoRetry (tn_store crashedRun))"
    unfolding retriedRun_def retryStore_def by (simp add: demoEffects_def)
  show "tn_reached retriedRun \<noteq> []" by code_simp
  show "ac_id (activeOf retryStore) = ac_id (activeOf demoStarted)" by (simp add: activeOf_def setExecution_def newActiveExecution_def)
  show "map_option leaseReference (e_Lease (ac_execution (activeOf retryStore))) \<noteq>
    map_option leaseReference (e_Lease (ac_execution (activeOf demoStarted)))" by code_simp
qed simp

text \<open>
  C12. A recorded tool result is what every later run answers. After a run of the interceptor that reached the
  driver and returned without an error, and after any further calls of the backend, another run of the same
  operation, of whatever owner, does not reach the driver; if it is admitted and the backend answers its
  \<^verbatim>\<open>StartAttempt\<close>, it returns the same result without an error. The hypothesis on the codec is that the envelope
  of that result survives \<^verbatim>\<open>json.Marshal\<close> and \<^verbatim>\<open>json.Unmarshal\<close>.
\<close>

theorem tool_result_replayed:
  assumes "first = toolAttemptExecute ec w1 w2 meanwhile drift nextd active call (history (ec_codec ec) before New)"
    and "tn_reached first \<noteq> []" and "tn_err first = None" and "\<And>a. ac_id (drift a) = ac_id a"
    and "s2 = history (ec_codec ec) between (tn_store first)"
    and "second = toolAttemptExecute ec v1 v2 meanwhile' drift' nextd' active' call' s2"
    and "ac_id active' = ac_id active" and "tc_OperationID call' = tc_OperationID call"
    and "\<And>payload. ec_marshalTool ec \<lparr>te_Version = 1, te_Result = tn_result first, te_Failure = None\<rparr> = Inr payload \<Longrightarrow>
      ec_unmarshalTool ec payload = Inr \<lparr>te_Version = 1, te_Result = tn_result first, te_Failure = None\<rparr>"
  shows "tn_reached second = [] \<and> (tn_err second = None \<longrightarrow> tn_result second = tn_result first) \<and>
    ((\<exists>h lease started. fst (beginEffect active') = None \<and> toolInputHash ec call' = Some h \<and>
        e_Lease (ac_execution active') = Some lease \<and>
        fst (callBackend v1 (\<lambda>ctxErr clock. StartAttempt ctxErr clock
          (startRequest active' lease (tc_OperationID call') AttemptKindTool h)) s2) = Inr started)
     \<longrightarrow> tn_err second = None)"
proof -
  let ?opn = "tc_OperationID call" and ?i = "ac_id active"
  obtain a where a: "tn_attempt first = Some a" using assms(2) by (auto simp: assms(1) tool_reached split: if_splits)
  obtain s1 result err s3 where f: "tc_OperationID call \<noteq> []" "a_OperationID a = ?opn" "wfStore s1"
    "toolAttemptSettle ec w2 (drift (active\<lparr>ac_effects := ac_effects active + 1\<rparr>)) a (nextd call)
      (history (ec_codec ec) meanwhile s1) = (result, err, s3)" "tn_store first = s3"
    "tn_result first = result" "tn_err first = err"
    using a unfolding assms(1) by (rule tool_reaches_settles [OF _ reachable_wf])
  have "err = None" using assms(3) f(7) by simp
  then obtain payload where p: "encodeToolAttempt ec result None = Inr payload"
    "finishAttempt w2 (drift (active\<lparr>ac_effects := ac_effects active + 1\<rparr>)) a payload None (history (ec_codec ec) meanwhile s1) = (None, s3)"
    using toolAttemptSettle_clean f(4) by metis
  obtain rec b where b: "st_executions s3 ?i = Some rec" "b \<in> set (slotOf rec ?opn)" "settledStatus (a_Status b)" "a_Payload b = payload"
    by (rule finishAttempt_recorded [OF p(2)]) (simp add: assms(4) f(2))
  have wf3: "wfStore s3"
  proof -
    obtain calls where "s3 = history (ec_codec ec) calls (history (ec_codec ec) meanwhile s1)"
      using finishAttempt_history [of w2 _ a payload None "history (ec_codec ec) meanwhile s1"] p(2) by (metis snd_conv)
    then show ?thesis using f(3) by (simp add: history_wf)
  qed
  obtain rec' where b': "st_executions s2 ?i = Some rec'" "b \<in> set (slotOf rec' ?opn)"
    unfolding assms(5) f(5) by (rule settled_persists [OF wf3 b(1-3)])
  have wf2: "wfStore s2" unfolding assms(5) f(5) using wf3 by (rule history_wf)
  have d: "decodeToolAttempt ec (a_Payload b) = Inr (tn_result first, None)"
    using assms(9) p(1) f(6) b(4) by (auto simp: encodeToolAttempt_def decodeToolAttempt_def attemptEnvelopeVersion_def map_sum_def split: sum.splits)
  have b2: "st_executions s2 (ac_id active') = Some rec'" "b \<in> set (slotOf rec' (tc_OperationID call'))"
    using b' assms(7,8) by simp_all
  note r = tool_replays [OF wf2 b2 b(3), of ec v1 v2 meanwhile' drift' nextd', folded assms(6)]
  have "tc_OperationID call' \<noteq> []" using f(1) assms(8) by simp
  note ans = tool_replay_answers [OF wf2 b2 b(3) d _ this, of _ _ v1 _ v2 meanwhile' drift' nextd', folded assms(6)]
  show ?thesis using r d ans by auto
qed

lemma tool_result_replayed_witness:
  "tn_reached replayedRun = [] \<and> tn_err replayedRun = None \<and> tn_result replayedRun = tn_result settledRun"
proof -
  have "tn_reached replayedRun = [] \<and> (tn_err replayedRun = None \<longrightarrow> tn_result replayedRun = tn_result settledRun) \<and>
    ((\<exists>h lease started. fst (beginEffect (activeOf resumedStore)) = None \<and> toolInputHash demoEffects demoTool = Some h \<and>
        e_Lease (ac_execution (activeOf resumedStore)) = Some lease \<and>
        fst (callBackend (upWire 21) (\<lambda>ctxErr clock. StartAttempt ctxErr clock
          (startRequest (activeOf resumedStore) lease (tc_OperationID demoTool) AttemptKindTool h)) resumedStore) = Inr started)
     \<longrightarrow> tn_err replayedRun = None)"
  proof (rule tool_result_replayed)
    show "settledRun = toolAttemptExecute demoEffects (upWire 1) (upWire 2) [] id (\<lambda>_. Returned demoResult None)
       (activeOf demoStarted) demoTool (history (ec_codec demoEffects) [(None, 0, CmdStart demoStart)] New)"
      unfolding settledRun_def demoStarted_def demoEffects_def by simp
    show "tn_reached settledRun \<noteq> []" by code_simp
    show "tn_err settledRun = None" by code_simp
    show "resumedStore = history (ec_codec demoEffects) [(None, 20, CmdResume demoResume)] (tn_store settledRun)"
      by (simp add: resumedStore_def demoEffects_def)
    show "replayedRun = toolAttemptExecute demoEffects (upWire 21) (upWire 22) [] id (\<lambda>_. Panicked ''not reached'')
       (activeOf resumedStore) demoTool resumedStore" by (simp only: replayedRun_def)
    show "ac_id (activeOf resumedStore) = ac_id (activeOf demoStarted)" by (simp add: activeOf_def setExecution_def newActiveExecution_def)
    have "tn_result settledRun = demoResult" by code_simp
    then show "ec_unmarshalTool demoEffects payload = Inr \<lparr>te_Version = 1, te_Result = tn_result settledRun, te_Failure = None\<rparr>" for payload
      by (simp add: demoEffects_def)
  qed simp_all
  moreover have "tn_err replayedRun = None" by code_simp
  ultimately show ?thesis by simp
qed

text \<open>
  C13. A model answer is on record before the agent sees it. When \<^verbatim>\<open>Recv\<close> of the recorded stream hands on a \<^verbatim>\<open>done\<close>
  event without an error, then after any further calls of the backend another run of the operation, of whatever
  owner, reaches no provider, and the only stream it can return replays exactly the events that were handed on;
  if it is admitted and the backend answers its \<^verbatim>\<open>StartAttempt\<close>, it does return that stream. The hypotheses are
  that the stream's attempt was still on record as running, that the events carry no error, and that their
  envelope survives \<^verbatim>\<open>json.Marshal\<close> and \<^verbatim>\<open>json.Unmarshal\<close>.
\<close>

theorem model_answer_recorded:
  assumes "s = history (ec_codec ec) before New" and "st_executions s (ac_id active) = Some rec"
    and "ds_attempt stream \<in> set (slotOf rec (a_OperationID (ds_attempt stream)))"
    and "a_Status (ds_attempt stream) = AttemptStatusRunning" and "\<not> ds_closed stream" and "\<not> ds_settled stream"
    and "step = durableRecv ec w raw active stream s" and "ev_Kind (sp_event step) = EventDone" and "sp_err step = None"
    and "events = ds_events (sp_stream step)" and "list_all (\<lambda>event. ev_Err event = None) events"
    and "\<And>payload. ec_marshalModel ec (modelEnvelope ec events None) = Inr payload \<Longrightarrow>
      ec_unmarshalModel ec payload = Inr (modelEnvelope ec events None)"
    and "s2 = history (ec_codec ec) between (sp_store step)"
    and "run = modelAttemptStream ec v1 v2 meanwhile drift nextd active' request s2"
    and "ac_id active' = ac_id active" and "pq_OperationID request = a_OperationID (ds_attempt stream)"
  shows "events = ds_events stream @ [sp_event step] \<and> so_reached run = [] \<and>
    (\<forall>replay. so_result run = Inr replay \<longrightarrow> replay = ReplayStream events None) \<and>
    ((\<exists>h lease started. fst (beginEffect active') = None \<and> pq_OperationID request \<noteq> [] \<and>
        canonicalJSONHash (ec_codec ec) (pq_encoded request) = Some h \<and> e_Lease (ac_execution active') = Some lease \<and>
        fst (callBackend v1 (\<lambda>ctxErr clock. StartAttempt ctxErr clock
          (startRequest active' lease (pq_OperationID request) AttemptKindModel h)) s2) = Inr started)
     \<longrightarrow> so_result run = Inr (ReplayStream events None))"
proof -
  obtain event recvErr where r: "receiveModelEvent raw = (event, recvErr)" by fastforce
  have k: "ev_Kind zeroEvent \<noteq> EventDone" by (simp add: zeroEvent_def)
  note recv = durableRecv_Done [OF assms(5,6) r, of ec w active s, folded assms(7), OF assms(8,9)]
  have v: "validateSuccessfulModelEvents ec (ds_events stream @ [event]) = None" "recvErr = None"
    "ev_Kind event = EventDone" using recv by blast+
  obtain payload where p: "encodeModelAttempt ec (ds_events stream @ [event]) None = Inr payload"
    "finishAttempt w active (ds_attempt stream) payload None s = (None, sp_store step)"
    "ds_events (sp_stream step) = ds_events stream @ [event]" "sp_event step = event"
    unfolding assms(7)
    by (rule durableRecv_done [where validation = None and ec = ec and w = w and active = active and s = s,
          OF assms(5,6) r v(3) _ v(1) [symmetric]]) (use v assms(7,9) in auto)
  have ev: "events = ds_events stream @ [event]" using p(3) assms(10) by simp
  have wf: "wfStore s" by (simp add: assms(1))
  obtain rec' b where b: "st_executions (sp_store step) (ac_id active) = Some rec'"
    "b \<in> set (slotOf rec' (a_OperationID (ds_attempt stream)))" "a_Status b = AttemptStatusSucceeded" "a_Payload b = payload"
    "wfStore (sp_store step)"
    by (rule finishAttempt_fresh [OF p(2) wf assms(2,3,4)]) simp
  have st: "settledStatus (a_Status b)" using b(3) by (simp add: settledStatus_def)
  obtain rec2 where b2: "st_executions s2 (ac_id active') = Some rec2" "b \<in> set (slotOf rec2 (pq_OperationID request))"
    unfolding assms(13,15,16) by (rule settled_persists [OF b(5,1,2) st])
  have wf2: "wfStore s2" unfolding assms(13) using b(5) by (rule history_wf)
  have "decodeModelAttempt ec payload = Inr (events, None)"
    using p(1) assms(11,12) ev by (intro encodeModelAttempt_decode) (auto simp: list_all_iff)
  then have "replayModelAttempt ec b = Inr (ReplayStream events None)"
    using v(1) ev b(3,4) by (simp add: replayModelAttempt_def)
  note m = model_replays [OF wf2 b2 st, where ec = ec and ?w1.0 = v1 and ?w2.0 = v2 and meanwhile = meanwhile and drift = drift and nextd = nextd, folded assms(14), unfolded this]
  show ?thesis using m ev p(4) by auto
qed

text \<open>
  C23. A refused answer can never be replayed. When \<^verbatim>\<open>Recv\<close> of the recorded stream gets a \<^verbatim>\<open>done\<close> event that
  completes events which do not normalize (say, a tool call without an ID), it records them as a failed attempt
  and returns the validation error. From then on no run of the operation returns a stream or reaches the
  provider, and every run that is admitted and answered fails with an error of the runtime's replay instead of
  the recorded failure: \<^verbatim>\<open>replayModelAttempt\<close> refuses failed attempts whose events contain \<^verbatim>\<open>done\<close>.
\<close>

theorem refused_answer_never_replays:
  assumes "s = history (ec_codec ec) before New" and "st_executions s (ac_id active) = Some rec"
    and "ds_attempt stream \<in> set (slotOf rec (a_OperationID (ds_attempt stream)))"
    and "a_Status (ds_attempt stream) = AttemptStatusRunning" and "\<not> ds_closed stream" and "\<not> ds_settled stream"
    and "step = durableRecv ec w (RawRecv event recvErr) active stream s" and "ev_Kind event = EventDone"
    and "events = ds_events stream @ [event]" and "validateSuccessfulModelEvents ec events = Some err"
    and "sp_err step = Some err" and "failure = Some (failureFromError ec err)"
    and "list_all (\<lambda>event. ev_Err event = None) events"
    and "\<And>payload. ec_marshalModel ec (modelEnvelope ec events failure) = Inr payload \<Longrightarrow>
      ec_unmarshalModel ec payload = Inr (modelEnvelope ec events failure)"
    and "s2 = history (ec_codec ec) between (sp_store step)"
    and "run = modelAttemptStream ec v1 v2 meanwhile drift nextd active' request s2"
    and "ac_id active' = ac_id active" and "pq_OperationID request = a_OperationID (ds_attempt stream)"
  shows "so_reached run = [] \<and> (\<exists>err'. so_result run = Inl err') \<and>
    ((\<exists>h lease started. fst (beginEffect active') = None \<and> pq_OperationID request \<noteq> [] \<and>
        canonicalJSONHash (ec_codec ec) (pq_encoded request) = Some h \<and> e_Lease (ac_execution active') = Some lease \<and>
        fst (callBackend v1 (\<lambda>ctxErr clock. StartAttempt ctxErr clock
          (startRequest active' lease (pq_OperationID request) AttemptKindModel h)) s2) = Inr started)
     \<longrightarrow> (\<exists>cause. validateFailedModelEvents ec events = Some cause \<and>
           so_result run = Inl (runtimeOperationError ''replay model attempt'' cause)))"
proof -
  have r: "receiveModelEvent (RawRecv event recvErr) = (event, map_option EffectError recvErr)"
    by (simp add: receiveModelEvent_def)
  obtain payload where p: "encodeModelAttempt ec events failure = Inr payload"
    "finishAttempt w active (ds_attempt stream) payload failure s = (None, sp_store step)"
    unfolding assms(7) by (rule durableRecv_done [where validation = "Some err" and ec = ec and w = w and active = active and s = s,
          OF assms(5,6) r assms(8) _ assms(10) [unfolded assms(9), symmetric]])
      (use assms(7,9,11,12) in auto)
  have wf: "wfStore s" by (simp add: assms(1))
  obtain rec' b where b: "st_executions (sp_store step) (ac_id active) = Some rec'"
    "b \<in> set (slotOf rec' (a_OperationID (ds_attempt stream)))" "a_Status b = AttemptStatusFailed" "a_Payload b = payload"
    "wfStore (sp_store step)"
    by (rule finishAttempt_fresh [OF p(2) wf assms(2,3,4)]) (simp add: assms(12))
  have st: "settledStatus (a_Status b)" using b(3) by (simp add: settledStatus_def)
  obtain rec2 where b2: "st_executions s2 (ac_id active') = Some rec2" "b \<in> set (slotOf rec2 (pq_OperationID request))"
    unfolding assms(15,17,18) by (rule settled_persists [OF b(5,1,2) st])
  have wf2: "wfStore s2" unfolding assms(15) using b(5) by (rule history_wf)
  obtain cause where c: "validateFailedModelEvents ec events = Some cause"
    using validateFailed_done [of events ec] assms(8,9) by auto
  have "decodeModelAttempt ec payload = Inr (events, failure)"
    using p(1) assms(13,14) by (intro encodeModelAttempt_decode) (auto simp: list_all_iff)
  then have "replayModelAttempt ec b = Inl cause"
    using c b(3,4) assms(12) by (simp add: replayModelAttempt_def)
  note m = model_replays [OF wf2 b2 st, where ec = ec and ?w1.0 = v1 and ?w2.0 = v2 and meanwhile = meanwhile and drift = drift and nextd = nextd, folded assms(16), unfolded this]
  show ?thesis using m c by auto
qed

lemma streaming_attempt:
  "st_executions streamingStore ''x'' = Some (the (st_executions streamingStore ''x''))"
  "newAttempt demoAsked 1 \<in> set (slotOf (the (st_executions streamingStore ''x'')) ''m'')"
proof -
  have "st_executions streamingStore ''x'' \<noteq> None" by code_simp
  then show "st_executions streamingStore ''x'' = Some (the (st_executions streamingStore ''x''))" by simp
qed code_simp

lemma demoCodecs [simp]: "ec_codec demoEffects = demoCodec" "ec_codec (modelCodec envelope) = demoCodec"
  by (simp_all add: modelCodec_def demoEffects_def)

lemma modelCodec_errors [simp]: "failureFromError (modelCodec envelope) = failureFromError demoEffects"
  by (intro ext) (simp add: modelCodec_def failureFromError_def)

lemma modelCodec_codec [simp]:
  "modelEnvelope (modelCodec envelope) = modelEnvelope demoEffects"
  "validateSuccessfulModelEvents (modelCodec envelope) = validateSuccessfulModelEvents demoEffects"
  "validateFailedModelEvents (modelCodec envelope) = validateFailedModelEvents demoEffects"
  by (intro ext, simp add: modelEnvelope_def validateSuccessfulModelEvents_def validateFailedModelEvents_def)+

lemma activeOf_id [simp]: "ac_id (activeOf s) = ''x''"
  by (simp add: activeOf_def setExecution_def newActiveExecution_def)

lemma model_answer_recorded_witness:
  "so_reached answeredRun = [] \<and> so_result answeredRun = Inr (ReplayStream [doneEvent] None)"
proof -
  let ?stream = "streamOf []"
  have e: "[doneEvent] = ds_events (sp_stream answeredStep)" by code_simp
  have "[doneEvent] = ds_events ?stream @ [sp_event answeredStep] \<and> so_reached answeredRun = [] \<and>
    (\<forall>replay. so_result answeredRun = Inr replay \<longrightarrow> replay = ReplayStream [doneEvent] None) \<and>
    ((\<exists>h lease started. fst (beginEffect (activeOf answeredStore)) = None \<and> pq_OperationID demoRequest \<noteq> [] \<and>
        canonicalJSONHash (ec_codec answeredCodec) (pq_encoded demoRequest) = Some h \<and>
        e_Lease (ac_execution (activeOf answeredStore)) = Some lease \<and>
        fst (callBackend (upWire 21) (\<lambda>ctxErr clock. StartAttempt ctxErr clock
          (startRequest (activeOf answeredStore) lease (pq_OperationID demoRequest) AttemptKindModel h)) answeredStore) = Inr started)
     \<longrightarrow> so_result answeredRun = Inr (ReplayStream [doneEvent] None))"
  proof (rule model_answer_recorded [where before = streamingCalls and active = "activeOf streamingStore"])
    show "streamingStore = history (ec_codec answeredCodec) streamingCalls New" by (simp add: streamingStore_def answeredCodec_def)
    show "st_executions streamingStore (ac_id (activeOf streamingStore)) = Some (the (st_executions streamingStore ''x''))"
      using streaming_attempt(1) by simp
    show "ds_attempt ?stream \<in> set (slotOf (the (st_executions streamingStore ''x'')) (a_OperationID (ds_attempt ?stream)))"
      using streaming_attempt(2) by (simp add: streamOf_def newAttempt_def demoAsked_def demoModel_def)
    show "answeredStep = durableRecv answeredCodec (upWire 2) (RawRecv doneEvent None) (activeOf streamingStore) ?stream streamingStore"
      by (rule answeredStep_def)
    show "ev_Kind (sp_event answeredStep) = EventDone" by code_simp
    show "sp_err answeredStep = None" by code_simp
    show "answeredStore = history (ec_codec answeredCodec) [(None, 20, CmdResume demoResume)] (sp_store answeredStep)"
      by (simp add: answeredStore_def answeredCodec_def)
    show "answeredRun = modelAttemptStream answeredCodec (upWire 21) (upWire 22) [] id (\<lambda>_. Opened) (activeOf answeredStore) demoRequest answeredStore"
      by (rule answeredRun_def)
    show "ec_unmarshalModel answeredCodec payload = Inr (modelEnvelope answeredCodec [doneEvent] None)" for payload
      by (simp add: answeredCodec_def) (simp add: modelCodec_def)
    show "list_all (\<lambda>event. ev_Err event = None) [doneEvent]" by (simp add: doneEvent_def zeroEvent_def)
    show "[doneEvent] = ds_events (sp_stream answeredStep)" by (rule e)
  qed (simp_all add: streamOf_def newAttempt_def demoRequest_def demoAsked_def demoModel_def)
  moreover have "\<exists>h lease started. fst (beginEffect (activeOf answeredStore)) = None \<and> pq_OperationID demoRequest \<noteq> [] \<and>
        canonicalJSONHash (ec_codec answeredCodec) (pq_encoded demoRequest) = Some h \<and>
        e_Lease (ac_execution (activeOf answeredStore)) = Some lease \<and>
        fst (callBackend (upWire 21) (\<lambda>ctxErr clock. StartAttempt ctxErr clock
          (startRequest (activeOf answeredStore) lease (pq_OperationID demoRequest) AttemptKindModel h)) answeredStore) = Inr started"
  proof (intro exI conjI)
    show "fst (beginEffect (activeOf answeredStore)) = None" by code_simp
    show "pq_OperationID demoRequest \<noteq> []" by (simp add: demoRequest_def)
    show "canonicalJSONHash (ec_codec answeredCodec) (pq_encoded demoRequest) = Some 7" by code_simp
    show "e_Lease (ac_execution (activeOf answeredStore)) = Some (the (e_Lease (ac_execution (activeOf answeredStore))))" by (rule option.collapse [symmetric]) code_simp
    show "fst (callBackend (upWire 21) (\<lambda>ctxErr clock. StartAttempt ctxErr clock
          (startRequest (activeOf answeredStore) (the (e_Lease (ac_execution (activeOf answeredStore)))) (pq_OperationID demoRequest) AttemptKindModel 7)) answeredStore) =
        Inr (projr (fst (callBackend (upWire 21) (\<lambda>ctxErr clock. StartAttempt ctxErr clock
          (startRequest (activeOf answeredStore) (the (e_Lease (ac_execution (activeOf answeredStore)))) (pq_OperationID demoRequest) AttemptKindModel 7)) answeredStore)))"
      by (rule sum.collapse(2) [symmetric]) code_simp
  qed
  ultimately show ?thesis by blast
qed

lemma refused_answer_never_replays_witness:
  "so_reached refusedRun = [] \<and> (\<exists>cause. so_result refusedRun = Inl (runtimeOperationError ''replay model attempt'' cause))"
proof -
  let ?stream = "streamOf [namelessCall]" and ?failure = "Some (failureFromError refusedCodec refusedError)"
  have v: "validateSuccessfulModelEvents refusedCodec [namelessCall, doneEvent] = Some refusedError"
  proof -
    have "validateSuccessfulModelEvents demoEffects [namelessCall, doneEvent] \<noteq> None" by code_simp
    then show ?thesis by (simp add: refusedCodec_def refusedError_def)
  qed
  have "so_reached refusedRun = [] \<and> (\<exists>err'. so_result refusedRun = Inl err') \<and>
    ((\<exists>h lease started. fst (beginEffect (activeOf refusedStore)) = None \<and> pq_OperationID demoRequest \<noteq> [] \<and>
        canonicalJSONHash (ec_codec refusedCodec) (pq_encoded demoRequest) = Some h \<and>
        e_Lease (ac_execution (activeOf refusedStore)) = Some lease \<and>
        fst (callBackend (upWire 21) (\<lambda>ctxErr clock. StartAttempt ctxErr clock
          (startRequest (activeOf refusedStore) lease (pq_OperationID demoRequest) AttemptKindModel h)) refusedStore) = Inr started)
     \<longrightarrow> (\<exists>cause. validateFailedModelEvents refusedCodec [namelessCall, doneEvent] = Some cause \<and>
           so_result refusedRun = Inl (runtimeOperationError ''replay model attempt'' cause)))"
  proof (rule refused_answer_never_replays [where before = streamingCalls and active = "activeOf streamingStore" and err = refusedError and failure = ?failure])
    show "streamingStore = history (ec_codec refusedCodec) streamingCalls New" by (simp add: streamingStore_def refusedCodec_def)
    show "st_executions streamingStore (ac_id (activeOf streamingStore)) = Some (the (st_executions streamingStore ''x''))"
      using streaming_attempt(1) by simp
    show "ds_attempt ?stream \<in> set (slotOf (the (st_executions streamingStore ''x'')) (a_OperationID (ds_attempt ?stream)))"
      using streaming_attempt(2) by (simp add: streamOf_def newAttempt_def demoAsked_def demoModel_def)
    show "refusedStep = durableRecv refusedCodec (upWire 2) (RawRecv doneEvent None) (activeOf streamingStore) ?stream streamingStore"
      by (rule refusedStep_def)
    show "sp_err refusedStep = Some refusedError" by code_simp
    show "refusedStore = history (ec_codec refusedCodec) [(None, 20, CmdResume demoResume)] (sp_store refusedStep)"
      by (simp add: refusedStore_def refusedCodec_def)
    show "refusedRun = modelAttemptStream refusedCodec (upWire 21) (upWire 22) [] id (\<lambda>_. Opened) (activeOf refusedStore) demoRequest refusedStore"
      by (rule refusedRun_def)
    show "ec_unmarshalModel refusedCodec payload = Inr (modelEnvelope refusedCodec [namelessCall, doneEvent] ?failure)" for payload
      by (simp add: refusedCodec_def) (simp add: modelCodec_def)
  qed (use v in \<open>simp_all add: streamOf_def newAttempt_def doneEvent_def namelessCall_def zeroEvent_def demoRequest_def demoAsked_def demoModel_def\<close>)
  moreover have "\<exists>h lease started. fst (beginEffect (activeOf refusedStore)) = None \<and> pq_OperationID demoRequest \<noteq> [] \<and>
        canonicalJSONHash (ec_codec refusedCodec) (pq_encoded demoRequest) = Some h \<and>
        e_Lease (ac_execution (activeOf refusedStore)) = Some lease \<and>
        fst (callBackend (upWire 21) (\<lambda>ctxErr clock. StartAttempt ctxErr clock
          (startRequest (activeOf refusedStore) lease (pq_OperationID demoRequest) AttemptKindModel h)) refusedStore) = Inr started"
  proof (intro exI conjI)
    show "fst (beginEffect (activeOf refusedStore)) = None" by code_simp
    show "pq_OperationID demoRequest \<noteq> []" by (simp add: demoRequest_def)
    show "canonicalJSONHash (ec_codec refusedCodec) (pq_encoded demoRequest) = Some 7" by code_simp
    show "e_Lease (ac_execution (activeOf refusedStore)) = Some (the (e_Lease (ac_execution (activeOf refusedStore))))" by (rule option.collapse [symmetric]) code_simp
    show "fst (callBackend (upWire 21) (\<lambda>ctxErr clock. StartAttempt ctxErr clock
          (startRequest (activeOf refusedStore) (the (e_Lease (ac_execution (activeOf refusedStore)))) (pq_OperationID demoRequest) AttemptKindModel 7)) refusedStore) =
        Inr (projr (fst (callBackend (upWire 21) (\<lambda>ctxErr clock. StartAttempt ctxErr clock
          (startRequest (activeOf refusedStore) (the (e_Lease (ac_execution (activeOf refusedStore)))) (pq_OperationID demoRequest) AttemptKindModel 7)) refusedStore)))"
      by (rule sum.collapse(2) [symmetric]) code_simp
  qed
  ultimately show ?thesis by blast
qed

end
