(* ===== verification/Durable_Runtime_Properties.thy ===== *)
theory Durable_Runtime_Properties
  imports Durable_Runtime_Laws Durable_Effects_Properties
begin

text \<open>
  What the durable runtime promises its callers: a result that is returned is on record, a run that ends without
  a control error has given up its lease, a claim whose reply was lost is not lost, and what an operator supplies
  for an uncertain attempt can be replayed.
\<close>

section \<open>Returned results\<close>

definition recorded :: "Codec \<Rightarrow> ExecutionID \<Rightarrow> store \<Rightarrow> Result \<Rightarrow> bool" where
  "recorded codec i s result \<longleftrightarrow>
     (case st_executions s i of
        None \<Rightarrow> False
      | Some rec \<Rightarrow> terminal (e_Status (er_execution rec)) \<and> e_Lease (er_execution rec) = None
          \<and> HashResult codec result = Some (e_ResultHash (er_execution rec)))"

lemma terminalExecution_terminal [simp]: "terminalExecution = terminal"
  by (intro ext) (simp add: terminalExecution_def terminal_def)

lemma StartExecution_terminal:
  assumes "\<And>rec. st_executions s (sx_ExecutionID q) = Some rec \<Longrightarrow> ledgerOk False rec"
    "StartExecution codec ctxErr clock q s = (Inr claimed, s1)" "terminal (e_Status (sr_Execution claimed))"
  shows "\<exists>rec. st_executions s1 (sx_ExecutionID q) = Some rec \<and> er_execution rec = sr_Execution claimed"
proof -
  have fresh: "\<not> terminal (e_Status (sr_Execution result))" if "claimForStart rec q now = (Inr result, rec')" "ledgerOk False rec" for rec now result rec'
    using that(1)
  proof (cases rule: claimForStart_Inr)
    case (replay prior)
    then show ?thesis using that(2) by (auto simp: ledgerOk_def)
  next
    case (granted reconcile rec1)
    then show ?thesis using grantLease_fields(6) [of rec "sx_OwnerID q" "sx_ClaimID q" "sx_LeaseTTL q" now] by simp
  qed
  show ?thesis using assms(2,3) fresh assms(1)
    by (auto simp: StartExecution_def Let_def newExecution_def split: option.splits if_splits prod.splits)
qed

lemma ResumeExecution_terminal:
  assumes "\<And>rec. st_executions s (rx_ExecutionID q) = Some rec \<Longrightarrow> ledgerOk False rec"
    "ResumeExecution ctxErr clock q s = (Inr claimed, s1)" "terminal (e_Status (rr_Execution claimed))"
  shows "\<exists>rec. st_executions s1 (rx_ExecutionID q) = Some rec \<and> er_execution rec = rr_Execution claimed"
proof -
  have "withRecord ctxErr clock (rx_ExecutionID q) [] (resumeBody q) s = (Inr claimed, s1)"
    using assms(2) by (auto simp: ResumeExecution_def split: if_splits)
  then obtain rec rec' where r: "st_executions s (rx_ExecutionID q) = Some rec" "resumeBody q rec (trustedNow clock s) = (Inr claimed, rec')"
    "s1 = s\<lparr>st_executions := (st_executions s)(rx_ExecutionID q \<mapsto> rec')\<rparr>" by (rule withRecord_Inr)
  from r(2) have "er_execution rec' = rr_Execution claimed"
  proof (cases rule: resumeBody_Inr)
    case (replay prior)
    then show ?thesis using assms(1) [OF r(1)] assms(3) by (auto simp: ledgerOk_def)
  next
    case (granted reconcile rec1)
    then show ?thesis using grantLease_fields(6) [of rec "rx_OwnerID q" "rx_ClaimID q" "rx_LeaseTTL q" "trustedNow clock s"] assms(3) by simp
  qed simp
  then show ?thesis using r(3) by simp
qed

lemma complete_recorded:
  assumes "s = history codec calls New" "rr_err (complete codec world outcome active s) = None"
  shows "recorded codec (ac_id active) (rr_store (complete codec world outcome active s)) (rr_result (complete codec world outcome active s))"
proof (cases rule: complete_cases [of world active s codec outcome])
  case (finished lease resultHash q finished s1)
  have i: "fx_ExecutionID q = ac_id active" "fx_ResultHash q = resultHash" using finished(1) by simp_all
  have wf: "wfStore s" and l: "st_executions s j = Some rec \<Longrightarrow> ledgerOk False rec" for j rec
    using reachable_ledger [of codec calls j rec False] assms(1) by simp_all
  have fe: "FinishExecution codec (wi_ctxErr (sw_finish world)) (wi_clock (sw_finish world)) q s = (Inr finished, s1)"
    using finished(4) by (simp add: callBackend_Inr)
  obtain rec where "st_executions s1 (fx_ExecutionID q) = Some rec" "er_execution rec = finished" "terminal (e_Status finished)"
      "e_Lease finished = None" "e_ResultHash finished = fx_ResultHash q"
    by (rule FinishExecution_finished [OF wf l fe])
  then show ?thesis using finished(3,5) i by (simp add: recorded_def)
qed (use assms(2) releaseWith_err in \<open>simp_all del: joinErrors.simps\<close>)

lemma runClaimed_recorded:
  assumes "s = history (ec_codec ec) calls New" "rr_err (runClaimed ec world execution reconcile target active s) = None"
    "held (e_ID execution) ref active \<or> terminal (e_Status execution)"
    "terminal (e_Status execution) \<Longrightarrow> \<exists>rec. st_executions s (e_ID execution) = Some rec \<and> er_execution rec = execution"
  shows "recorded (ec_codec ec) (e_ID execution) (rr_store (runClaimed ec world execution reconcile target active s))
    (rr_result (runClaimed ec world execution reconcile target active s))"
proof (cases "terminal (e_Status execution)")
  case True
  obtain rec where r: "st_executions s (e_ID execution) = Some rec" "er_execution rec = execution" using assms(4) True by blast
  then have "e_Lease execution = None"
    using reachable_record [of "ec_codec ec" calls "e_ID execution" rec] assms(1) True wf_terminal by fastforce
  then show ?thesis using assms(2) True r
    by (auto simp: runClaimed_def Let_def recorded_def split: option.splits if_splits)
next
  case False
  let ?ran = "runSteps ec (rw_steps world) \<lparr>rs_active = active, rs_store = s, rs_streams = []\<rparr>"
  have h: "held (e_ID execution) ref (rs_active ?ran)" using assms(3) False by (intro held_runSteps) simp
  have "within (ec_codec ec) (sum_list (map stepCalls (rw_steps world))) s (rs_store ?ran)"
    using runSteps_within [of ec "rw_steps world" "\<lparr>rs_active = active, rs_store = s, rs_streams = []\<rparr>"] by simp
  then obtain calls' where c: "rs_store ?ran = history (ec_codec ec) calls' New" by (rule within_reachable [OF assms(1)])
  have "runClaimed ec world execution reconcile target active s =
      complete (ec_codec ec) (rw_settle world) (rw_outcome world) (rs_active ?ran) (rs_store ?ran)"
    using assms(2) False by (auto simp: runClaimed_def Let_def releaseWith_err split: option.splits if_splits)
  moreover have "ac_id (rs_active ?ran) = e_ID execution" using h by (simp add: held_def)
  ultimately show ?thesis
    using complete_recorded [OF c, of "rw_settle world" "rw_outcome world" "rs_active ?ran"] assms(2) by simp
qed

lemma validClaimed_held:
  assumes "validateClaimedExecution codec execution i owner = None"
  shows "e_ID execution = i \<and> (terminal (e_Status execution) \<or>
    (\<exists>lease. held i (refOf lease) (setExecution execution (newActiveExecution err i)) \<and> e_Lease execution = Some lease))"
  using assms
  by (auto simp: validateClaimedExecution_def validateClaimedExecutionStatus_def held_def setExecution_def newActiveExecution_def
      Let_def terminal_def split: if_splits option.splits ExecutionStatus.splits)

lemma runReply_recorded:
  assumes "s1 = history (ec_codec ec) calls New"
    "cl_err (runReply ec world operation i target (newActiveExecution err i) rt (Inr (execution, reconcile)) s1) = None"
    "terminal (e_Status execution) \<Longrightarrow> \<exists>rec. st_executions s1 i = Some rec \<and> er_execution rec = execution"
  shows "recorded (ec_codec ec) i (cl_store (runReply ec world operation i target (newActiveExecution err i) rt (Inr (execution, reconcile)) s1))
    (cl_result (runReply ec world operation i target (newActiveExecution err i) rt (Inr (execution, reconcile)) s1))"
proof -
  let ?active = "setExecution execution (newActiveExecution err i)"
  have v: "validateClaimedExecution (ec_codec ec) execution i (rn_ownerID rt) = None"
    using assms(2) by (auto simp: runReply_def Let_def split: option.splits prod.splits)
  note h = validClaimed_held [OF v, of err]
  have e: "rr_err (runClaimed ec (cw_run world) execution reconcile target ?active s1) = None"
    using assms(2) v by (simp add: runReply_def Let_def)
  have "recorded (ec_codec ec) (e_ID execution) (rr_store (runClaimed ec (cw_run world) execution reconcile target ?active s1))
      (rr_result (runClaimed ec (cw_run world) execution reconcile target ?active s1))"
    using h assms(3) by (intro runClaimed_recorded [OF assms(1) e, of "refOf (the (e_Lease execution))"]) auto
  then show ?thesis using v h by (simp add: runReply_def Let_def)
qed

text \<open>A call that gets as far as the backend: what it sends and how the reply is handled.\<close>

lemma enter_Inr: "enter callerErr i rt = (Inr active, rt1) \<Longrightarrow> active = newActiveExecution callerErr i"
  by (auto simp: enter_def Let_def split: if_splits)

lemma startRuntime_sent:
  assumes "validateRuntimeCall (cw_nilContext world) i = None" "validateExecutionSpec (ec_codec ec) spec = None"
    "HashExecutionSpec (ec_codec ec) spec = Some specHash" "enter (cw_callerErr world) i rt = (Inr active, rt1)"
    "claimIDOf (cw_now world) (cw_generated world) i ''start'' specHash rt1 = (Inr claimID, rt2)"
    "callBackend (cw_claim world) (\<lambda>ctxErr clock. StartExecution (ec_codec ec) ctxErr clock
       \<lparr>sx_ExecutionID = i, sx_OwnerID = rn_ownerID rt2, sx_ClaimID = claimID, sx_LeaseTTL = rn_leaseTTL rt2, sx_Spec = spec,
        sx_SpecHash = specHash\<rparr>) s = (reply, s1)"
  shows "startRuntime ec world i spec rt s = runReply ec world ''start execution'' i zeroTarget (newActiveExecution (cw_callerErr world) i)
    (resolveClaim i (faultOf reply) rt2) (map_sum id (\<lambda>claimed. (sr_Execution claimed, sr_Reconcile claimed)) reply) s1"
  using assms enter_Inr [OF assms(4)] by (simp add: startRuntime_def Let_def)

lemma startRuntime_clean:
  assumes "cl_err (startRuntime ec world i spec rt s) = None"
  obtains q rt1 claimed s1 where
    "callBackend (cw_claim world) (\<lambda>ctxErr clock. StartExecution (ec_codec ec) ctxErr clock q) s = (Inr claimed, s1)" "sx_ExecutionID q = i"
    "startRuntime ec world i spec rt s = runReply ec world ''start execution'' i zeroTarget (newActiveExecution (cw_callerErr world) i) rt1
        (Inr (sr_Execution claimed, sr_Reconcile claimed)) s1"
proof -
  have v: "validateRuntimeCall (cw_nilContext world) i = None"
    using assms by (cases "validateRuntimeCall (cw_nilContext world) i") (simp_all add: startRuntime_def Let_def)
  have p: "validateExecutionSpec (ec_codec ec) spec = None"
    using assms v by (cases "validateExecutionSpec (ec_codec ec) spec") (simp_all add: startRuntime_def Let_def)
  obtain specHash where h: "HashExecutionSpec (ec_codec ec) spec = Some specHash"
    using assms v p by (cases "HashExecutionSpec (ec_codec ec) spec") (simp_all add: startRuntime_def Let_def)
  obtain e rt1 where e: "enter (cw_callerErr world) i rt = (e, rt1)" by fastforce
  obtain active where a: "e = Inr active"
    using assms v p h e by (cases e) (simp_all add: startRuntime_def Let_def)
  obtain g rt2 where g: "claimIDOf (cw_now world) (cw_generated world) i ''start'' specHash rt1 = (g, rt2)" by fastforce
  obtain claimID where c: "g = Inr claimID"
    using assms v p h e a g by (cases g) (simp_all add: startRuntime_def Let_def)
  let ?q = "\<lparr>sx_ExecutionID = i, sx_OwnerID = rn_ownerID rt2, sx_ClaimID = claimID, sx_LeaseTTL = rn_leaseTTL rt2, sx_Spec = spec, sx_SpecHash = specHash\<rparr>"
  obtain reply s1 where b: "callBackend (cw_claim world) (\<lambda>ctxErr clock. StartExecution (ec_codec ec) ctxErr clock ?q) s = (reply, s1)" by fastforce
  note eq = startRuntime_sent [OF v p h e [unfolded a] g [unfolded c] b]
  obtain claimed where r: "reply = Inr claimed"
    using assms unfolding eq by (cases reply) (simp_all add: runReply_def Let_def)
  show thesis by (rule that [of ?q claimed s1]) (use b eq r in simp_all)
qed

lemma resumeRuntime_sent:
  assumes "validateRuntimeCall (cw_nilContext world) i = None" "enter (cw_callerErr world) i rt = (Inr active, rt1)"
    "claimIDOf (cw_now world) (cw_generated world) i ''resume'' 0 rt1 = (Inr claimID, rt2)"
    "callBackend (cw_claim world) (\<lambda>ctxErr clock. ResumeExecution ctxErr clock
       \<lparr>rx_ExecutionID = i, rx_OwnerID = rn_ownerID rt2, rx_ClaimID = claimID, rx_LeaseTTL = rn_leaseTTL rt2\<rparr>) s = (reply, s1)"
  shows "resumeRuntime ec world i target rt s = runReply ec world ''resume execution'' i target (newActiveExecution (cw_callerErr world) i)
    (resolveClaim i (faultOf reply) rt2) (map_sum id (\<lambda>claimed. (rr_Execution claimed, rr_Reconcile claimed)) reply) s1"
  using assms enter_Inr [OF assms(2)] by (simp add: resumeRuntime_def Let_def)

lemma resumeRuntime_clean:
  assumes "cl_err (resumeRuntime ec world i target rt s) = None"
  obtains q rt1 claimed s1 where
    "callBackend (cw_claim world) (\<lambda>ctxErr clock. ResumeExecution ctxErr clock q) s = (Inr claimed, s1)" "rx_ExecutionID q = i"
    "resumeRuntime ec world i target rt s = runReply ec world ''resume execution'' i target (newActiveExecution (cw_callerErr world) i) rt1
        (Inr (rr_Execution claimed, rr_Reconcile claimed)) s1"
proof -
  have v: "validateRuntimeCall (cw_nilContext world) i = None"
    using assms by (cases "validateRuntimeCall (cw_nilContext world) i") (simp_all add: resumeRuntime_def Let_def)
  obtain e rt1 where e: "enter (cw_callerErr world) i rt = (e, rt1)" by fastforce
  obtain active where a: "e = Inr active"
    using assms v e by (cases e) (simp_all add: resumeRuntime_def Let_def)
  obtain g rt2 where g: "claimIDOf (cw_now world) (cw_generated world) i ''resume'' 0 rt1 = (g, rt2)" by fastforce
  obtain claimID where c: "g = Inr claimID"
    using assms v e a g by (cases g) (simp_all add: resumeRuntime_def Let_def)
  let ?q = "\<lparr>rx_ExecutionID = i, rx_OwnerID = rn_ownerID rt2, rx_ClaimID = claimID, rx_LeaseTTL = rn_leaseTTL rt2\<rparr>"
  obtain reply s1 where b: "callBackend (cw_claim world) (\<lambda>ctxErr clock. ResumeExecution ctxErr clock ?q) s = (reply, s1)" by fastforce
  note eq = resumeRuntime_sent [OF v e [unfolded a] g [unfolded c] b]
  obtain claimed where r: "reply = Inr claimed"
    using assms unfolding eq by (cases reply) (simp_all add: runReply_def Let_def)
  show thesis by (rule that [of ?q claimed s1]) (use b eq r in simp_all)
qed

section \<open>Claims whose reply is lost\<close>

text \<open>
  The same claim sent again, in any later state of the backend in which the execution is as the first claim left it
  and its lease is still active.
\<close>

lemma StartExecution_replay:
  assumes "wfStore s" "StartExecution codec ctxErr clock q s = (Inr claimed, s1)"
    "st_executions s2 (sx_ExecutionID q) = st_executions s1 (sx_ExecutionID q)"
    "\<And>rec. st_executions s1 (sx_ExecutionID q) = Some rec \<Longrightarrow> leaseActive (e_Lease (er_execution rec)) (trustedNow clock' s2)"
  shows "StartExecution codec None clock' q s2 = (Inr claimed, s2)"
proof -
  let ?i = "sx_ExecutionID q"
  have v: "validExecutionID ?i" "validLeaseInput (sx_OwnerID q) (sx_ClaimID q) (sx_LeaseTTL q)"
    "HashExecutionSpec codec (sx_Spec q) = Some (sx_SpecHash q)"
    using assms(2) by (auto simp: StartExecution_def Let_def split: option.splits if_splits)
  have again: ?thesis if "st_executions s1 ?i = Some rec'" "e_SpecHash (er_execution rec') = sx_SpecHash q"
    "\<not> terminal (e_Status (er_execution rec'))" "claimForStart rec' q (trustedNow clock' s2) = (Inr claimed, rec')" for rec'
  proof -
    have r: "st_executions s2 ?i = Some rec'" using that(1) assms(3) by simp
    then have "s2\<lparr>st_executions := (st_executions s2)(?i \<mapsto> rec')\<rparr> = s2" by (simp add: fun_upd_idem)
    then show ?thesis using v that r by (simp add: StartExecution_def Let_def)
  qed
  show ?thesis
  proof (cases "st_executions s ?i")
    case None
    let ?rec = "newExecution codec q (trustedNow clock s)"
    let ?claimed = "\<lparr>sr_Execution = er_execution ?rec, sr_Created = True, sr_Reconcile = []\<rparr>"
    let ?rec' = "?rec\<lparr>er_claims := (er_claims ?rec)(sx_ClaimID q \<mapsto> \<lparr>cr_mode = ''start'', cr_ownerID = sx_OwnerID q, cr_leaseTTL = sx_LeaseTTL q,
      cr_specHash = sx_SpecHash q, cr_token = er_nextToken ?rec, cr_start = Some ?claimed, cr_resume = None\<rparr>)\<rparr>"
    have r: "claimed = ?claimed" "s1 = s\<lparr>st_executions := (st_executions s)(?i \<mapsto> ?rec')\<rparr>"
      using assms(2) v None by (cases ctxErr; simp add: StartExecution_def Let_def)+
    have e: "e_SpecHash (er_execution ?rec) = sx_SpecHash q" "e_Status (er_execution ?rec) = ExecutionStatusRunning"
      "e_Lease (er_execution ?rec) \<noteq> None" "l_ClaimID (the (e_Lease (er_execution ?rec))) = sx_ClaimID q"
      by (simp_all add: newExecution_def)
    have "claimForStart ?rec' q now = (Inr ?claimed, ?rec')" if "leaseActive (e_Lease (er_execution ?rec)) now" for now
      using that e by (simp add: claimForStart_def Let_def)
    then have "claimForStart ?rec' q (trustedNow clock' s2) = (Inr ?claimed, ?rec')" using assms(4) [of ?rec'] r(2) by simp
    then show ?thesis using e r by (intro again [of ?rec']) simp_all
  next
    case (Some rec)
    have wf: "wfRecord ?i rec" using assms(1) Some by (simp add: wfStore_def)
    have h: "e_SpecHash (er_execution rec) = sx_SpecHash q"
      using assms(2) v Some by (auto simp: StartExecution_def Let_def split: option.splits if_splits)
    have nt: "\<not> terminal (e_Status (er_execution rec))"
    proof
      assume t: "terminal (e_Status (er_execution rec))"
      then have "s1 = s" using assms(2) v Some h by (auto simp: StartExecution_def Let_def split: option.splits)
      then show False using assms(4) [of rec] Some wf_terminal [OF wf t] by (simp add: leaseActive_def)
    qed
    obtain reply rec' where c: "claimForStart rec q (trustedNow clock s) = (reply, rec')" by fastforce
    then have r: "reply = Inr claimed" "s1 = s\<lparr>st_executions := (st_executions s)(?i \<mapsto> rec')\<rparr>"
      using assms(2) v Some h nt by (auto simp: StartExecution_def Let_def split: option.splits)
    have step: "recStep rec rec'" "wfRecord ?i rec'"
      using claimForStart_keeps(1,2) [OF wf nt, of "trustedNow clock s"] c by simp_all
    have act: "leaseActive (e_Lease (er_execution rec')) (trustedNow clock' s2)" using assms(4) r(2) by simp
    then have nt': "\<not> terminal (e_Status (er_execution rec'))"
      using lease_not_terminal [OF step(2)] leaseActive_Some by blast
    have "claimForStart rec' q (trustedNow clock' s2) = (Inr claimed, rec')"
      by (rule claimForStart_replay [OF wf c [unfolded r(1)] act])
    then show ?thesis using h nt' step(1) r(2) by (intro again [of rec']) (simp_all add: recStep_def)
  qed
qed

text \<open>What a \<^verbatim>\<open>Start\<close> whose claim is granted but whose reply is lost leaves behind, and what a later \<^verbatim>\<open>Start\<close> makes of it.\<close>

lemma startRuntime_lost:
  assumes "validateRuntimeCall (cw_nilContext world) i = None" "validateExecutionSpec (ec_codec ec) spec = None"
    "HashExecutionSpec (ec_codec ec) spec = Some specHash" "cw_generated world = Inr claimID"
    "\<And>rt. rn_pendingClaims (cw_later world rt) i = rn_pendingClaims rt i"
    "\<not> rn_closed rt" "rn_active rt i = None" "rn_pendingClaims rt i = None"
    "callBackend (cw_claim world) (\<lambda>ctxErr clock. StartExecution (ec_codec ec) ctxErr clock
       \<lparr>sx_ExecutionID = i, sx_OwnerID = rn_ownerID rt, sx_ClaimID = claimID, sx_LeaseTTL = rn_leaseTTL rt, sx_Spec = spec,
        sx_SpecHash = specHash\<rparr>) s = (Inl (Transport lost), s1)"
    "first = startRuntime ec world i spec rt s"
  shows "cl_err first = Some (BackendCallError ''start execution'' (Transport lost))" "cl_store first = s1"
    "rn_pendingClaims (cl_runtime first) i
       = Some \<lparr>pc_mode = ''start'', pc_specHash = specHash, pc_claimID = claimID, pc_expires = cw_now world + rn_leaseTTL rt\<rparr>"
proof -
  let ?active = "newActiveExecution (cw_callerErr world) i"
  let ?pending = "\<lparr>pc_mode = ''start'', pc_specHash = specHash, pc_claimID = claimID, pc_expires = cw_now world + rn_leaseTTL rt\<rparr>"
  let ?rt1 = "rt\<lparr>rn_active := (rn_active rt)(i \<mapsto> ?active)\<rparr>"
  let ?rt2 = "?rt1\<lparr>rn_pendingClaims := (rn_pendingClaims rt)(i \<mapsto> ?pending)\<rparr>"
  have e: "enter (cw_callerErr world) i rt = (Inr ?active, ?rt1)" using assms(6,7) by (simp add: enter_def Let_def)
  have g: "claimIDOf (cw_now world) (cw_generated world) i ''start'' specHash ?rt1 = (Inr claimID, ?rt2)"
    using assms(4,8) by (simp add: claimIDOf_def Let_def)
  have r: "first = runReply ec world ''start execution'' i zeroTarget ?active ?rt2 (Inl (Transport lost)) s1"
    using startRuntime_sent [OF assms(1-3) e g, of s "Inl (Transport lost)" s1] assms(9)
    by (simp add: assms(10) resolveClaim_def faultOf_def definitiveClaimError_def)
  have "rn_pendingClaims (leave ?active None (cw_later world ?rt2)) i = Some ?pending"
    using assms(5) [of ?rt2] by (simp add: leave_def Let_def)
  then show "cl_err first = Some (BackendCallError ''start execution'' (Transport lost))" "cl_store first = s1"
    "rn_pendingClaims (cl_runtime first) i = Some ?pending"
    unfolding r by (simp_all add: runReply_def Let_def backendExecutionOperationError_def backendOperationError_def)
qed

lemma startRuntime_pending:
  assumes "validateRuntimeCall (cw_nilContext world) i = None" "validateExecutionSpec (ec_codec ec) spec = None"
    "HashExecutionSpec (ec_codec ec) spec = Some specHash" "\<not> rn_closed rt" "rn_active rt i = None"
    "rn_pendingClaims rt i = Some \<lparr>pc_mode = ''start'', pc_specHash = specHash, pc_claimID = claimID, pc_expires = expires\<rparr>"
    "cw_now world < expires"
    "callBackend (cw_claim world) (\<lambda>ctxErr clock. StartExecution (ec_codec ec) ctxErr clock
       \<lparr>sx_ExecutionID = i, sx_OwnerID = rn_ownerID rt, sx_ClaimID = claimID, sx_LeaseTTL = rn_leaseTTL rt, sx_Spec = spec,
        sx_SpecHash = specHash\<rparr>) s = (Inr claimed, s1)"
  shows "\<exists>rt'. rn_ownerID rt' = rn_ownerID rt \<and> rn_pendingClaims rt' i = None \<and>
    startRuntime ec world i spec rt s = runReply ec world ''start execution'' i zeroTarget
      (newActiveExecution (cw_callerErr world) i) rt' (Inr (sr_Execution claimed, sr_Reconcile claimed)) s1"
proof -
  let ?rt1 = "rt\<lparr>rn_active := (rn_active rt)(i \<mapsto> newActiveExecution (cw_callerErr world) i)\<rparr>"
  have e: "enter (cw_callerErr world) i rt = (Inr (newActiveExecution (cw_callerErr world) i), ?rt1)"
    using assms(4,5) by (simp add: enter_def Let_def)
  have g: "claimIDOf (cw_now world) (cw_generated world) i ''start'' specHash ?rt1 = (Inr claimID, ?rt1)"
    using assms(6,7) by (simp add: claimIDOf_def Let_def)
  show ?thesis using startRuntime_sent [OF assms(1-3) e g, of s "Inr claimed" s1] assms(8)
    by (intro exI [of _ "resolveClaim i None ?rt1"]) (simp add: resolveClaim_def faultOf_def)
qed

section \<open>Reconciled attempts\<close>

lemma reconcileBody_recorded:
  assumes "reconcileBody q rec now = (Inr b, rec')" "ra_Resolution q = ReconcileResolutionSucceed \<or> ra_Resolution q = ReconcileResolutionFail"
    "ra_Resolution q = ReconcileResolutionSucceed \<Longrightarrow> ra_Failure q = None"
  shows "b \<in> set (slotOf rec' (ra_OperationID q)) \<and> a_Number b = ra_AttemptNumber q \<and> a_Payload b = ra_Payload q \<and> a_Failure b = ra_Failure q
    \<and> a_Status b = (if ra_Resolution q = ReconcileResolutionSucceed then AttemptStatusSucceeded else AttemptStatusFailed)"
proof -
  obtain k a where f: "attemptByNumber rec (ra_OperationID q) (ra_AttemptNumber q) = Some (k, a)"
    using assms(1) by (auto simp: reconcileBody_def Let_def split: option.splits if_splits)
  note k = attemptByNumber_Some [OF f]
  show ?thesis using assms f k set_update_memI [OF k(1)]
    by (auto simp: reconcileBody_def Let_def reconcileExact_def resolveAttempt_def updateAttempt_def split: if_splits)
qed

lemma ReconcileRuntime_clean:
  assumes "ReconcileRuntime ec nilContext w1 w2 meanwhile i opn r rt s = (None, s1)"
  obtains execution kind payload failure attempt s2 where "operationKind opn = Some kind"
    "reconciliationPayload ec execution opn kind r = Inr (payload, failure)"
    "ReconcileAttempt (wi_ctxErr w2) (wi_clock w2) \<lparr>ra_ExecutionID = i, ra_OperationID = opn, ra_AttemptNumber = rc_AttemptNumber r,
       ra_ExpectedAttemptVersion = rc_AttemptVersion r, ra_Resolution = rc_Resolution r, ra_Payload = payload, ra_Failure = failure\<rparr>
       s2 = (Inr attempt, s1)"
proof -
  have v: "validateRuntimeCall nilContext i = None" "\<not> (blank opn \<or> rc_AttemptNumber r < 1 \<or> rc_AttemptVersion r = 0)" "\<not> rn_closed rt" "rn_active rt i = None"
    using assms by (auto simp: ReconcileRuntime_def Let_def split: option.splits if_splits)
  note d = ReconcileRuntime_def Let_def v
  obtain e sl where e: "callBackend w1 (\<lambda>ctxErr clock. LoadExecution (ec_codec ec) ctxErr clock i) s = (e, sl)" by fastforce
  obtain execution where x: "e = Inr execution" using assms e v(2) by (cases e) (simp_all add: d)
  have y: "e_ID execution = i" "validateExecutionCheckpoint (ec_codec ec) execution i = None"
    using assms e x v(2) by (auto simp: d split: option.splits if_splits)
  obtain kind where k: "operationKind opn = Some kind" using assms e x y v(2) by (cases "operationKind opn") (simp_all add: d)
  obtain pf where "reconciliationPayload ec execution opn kind r = Inr pf"
    using assms e x y k v(2) by (cases "reconciliationPayload ec execution opn kind r") (simp_all add: d)
  then obtain payload failure where p: "reconciliationPayload ec execution opn kind r = Inr (payload, failure)" by (cases pf) simp
  let ?q = "\<lparr>ra_ExecutionID = i, ra_OperationID = opn, ra_AttemptNumber = rc_AttemptNumber r,
       ra_ExpectedAttemptVersion = rc_AttemptVersion r, ra_Resolution = rc_Resolution r, ra_Payload = payload, ra_Failure = failure\<rparr>"
  obtain a s3 where c: "callBackend w2 (\<lambda>ctxErr clock. ReconcileAttempt ctxErr clock ?q) (history (ec_codec ec) meanwhile sl) = (a, s3)" by fastforce
  obtain attempt where "a = Inr attempt" "s3 = s1" using assms e x y k p c v(2) by (cases a) (simp_all add: d)
  then show thesis using that [OF k p, of "history (ec_codec ec) meanwhile sl" attempt] c by (simp add: callBackend_Inr)
qed

lemma ReconcileAttempt_recorded:
  assumes "ReconcileAttempt ctxErr clock q s = (Inr attempt, s1)"
    "ra_Resolution q = ReconcileResolutionSucceed \<or> ra_Resolution q = ReconcileResolutionFail"
    "ra_Resolution q = ReconcileResolutionSucceed \<Longrightarrow> ra_Failure q = None"
  obtains rec where "st_executions s1 (ra_ExecutionID q) = Some rec" "attempt \<in> set (slotOf rec (ra_OperationID q))"
    "a_Number attempt = ra_AttemptNumber q" "a_Payload attempt = ra_Payload q" "a_Failure attempt = ra_Failure q"
    "a_Status attempt = (if ra_Resolution q = ReconcileResolutionSucceed then AttemptStatusSucceeded else AttemptStatusFailed)"
proof -
  have "withRecord ctxErr clock (ra_ExecutionID q) (ra_OperationID q) (reconcileBody q) s = (Inr attempt, s1)"
    using assms(1) by (auto simp: ReconcileAttempt_def split: option.splits)
  then obtain rec rec' where r: "st_executions s (ra_ExecutionID q) = Some rec" "reconcileBody q rec (trustedNow clock s) = (Inr attempt, rec')"
    "s1 = s\<lparr>st_executions := (st_executions s)(ra_ExecutionID q \<mapsto> rec')\<rparr>" by (rule withRecord_Inr)
  show thesis using that [of rec'] reconcileBody_recorded [OF r(2) assms(2,3)] r(3) by simp
qed

section \<open>Small runs\<close>

definition demoRuntime :: Runtime where
  "demoRuntime = \<lparr>rn_ownerID = ''o'', rn_leaseTTL = 10, rn_settlementTimeout = 5, rn_active = Map.empty,
     rn_pendingClaims = Map.empty, rn_closed = False, rn_closeErrors = []\<rparr>"

definition demoSettle :: settleWorld where
  "demoSettle = \<lparr>sw_waitComplete = None, sw_waitSuspend = None, sw_waitRelease = None,
     sw_finish = upWire 5, sw_suspend = upWire 5, sw_release = upWire 6\<rparr>"

definition demoToolStep :: runStep where
  "demoToolStep = RunTool (upWire 1) (upWire 2) [] [] (\<lambda>_. Returned demoResult None) demoTool"

definition demoRunWorld :: "runStep list \<Rightarrow> runWorld" where
  "demoRunWorld steps = \<lparr>rw_steps = steps, rw_outcome = \<lparr>eo_result = zeroResult, eo_cause = None\<rparr>, rw_settle = demoSettle\<rparr>"

definition demoWorld :: "wire \<Rightarrow> callWorld" where
  "demoWorld claim = \<lparr>cw_nilContext = False, cw_callerErr = None, cw_now = 0, cw_generated = Inr 1, cw_claim = claim,
     cw_reject = upWire 1, cw_run = demoRunWorld [demoToolStep, RunHeartbeat (upWire 3) 10], cw_later = id\<rparr>"

definition demoCall :: callReturn where
  "demoCall = startRuntime demoEffects (demoWorld (upWire 0)) ''x'' (sx_Spec demoStart) demoRuntime New"

definition suspendedRun :: runReturn where
  "suspendedRun = runClaimed demoEffects (demoRunWorld [demoToolStep, RunControl CtlSuspend])
     (er_execution (the (st_executions demoStarted ''x''))) [] zeroTarget
     (setExecution (er_execution (the (st_executions demoStarted ''x''))) (newActiveExecution None ''x'')) demoStarted"

definition lostWire :: wire where
  "lostWire = (upWire 0)\<lparr>wi_lost := Some (TextError ''connection reset'')\<rparr>"

definition uncertainCalls :: "call list" where
  "uncertainCalls = [(None, 0, CmdStart demoStart), (None, 1, CmdStartAttempt (demoAsked\<lparr>sa_OperationID := ''turn:0:model''\<rparr>)),
     (None, 20, CmdResume demoResume), (None, 21, CmdRelease \<lparr>lx_ExecutionID = ''x'', lx_Lease = \<lparr>lr_OwnerID = ''p'', lr_Token = 2\<rparr>\<rparr>)]"

definition demoAnswer :: Reconciliation where
  "demoAnswer = \<lparr>rc_AttemptNumber = 1, rc_AttemptVersion = 2, rc_Resolution = ReconcileResolutionSucceed, rc_ModelEvents = [doneEvent],
     rc_ToolResult = None, rc_Failure = None\<rparr>"

definition reconciledStore :: "runtimeError option \<times> store" where
  "reconciledStore = ReconcileRuntime answeredCodec False (upWire 22) (upWire 23) [] ''x'' ''turn:0:model'' demoAnswer demoRuntime
     (history demoCodec uncertainCalls New)"

section \<open>Properties\<close>

text \<open>
  C14. A result that \<^verbatim>\<open>Start\<close> or \<^verbatim>\<open>Resume\<close> returns without an error is on record: whatever the engine did, other
  callers, the heartbeat and requests to stop in between, the execution is then terminal in the backend, holds no
  lease, and its result hash is the hash of the returned result.
\<close>

theorem returned_result_recorded:
  assumes "s = history (ec_codec ec) before New"
    and "ret = startRuntime ec world i spec rt s \<or> ret = resumeRuntime ec world i target rt s"
    and "cl_err ret = None"
  shows "recorded (ec_codec ec) i (cl_store ret) (cl_result ret)"
proof -
  let ?codec = "ec_codec ec"
  have l: "st_executions s j = Some rec \<Longrightarrow> ledgerOk False rec" for j rec
    using reachable_ledger [of ?codec before j rec False] assms(1) by simp
  from assms(2) show ?thesis
  proof
    assume r: "ret = startRuntime ec world i spec rt s"
    obtain q rt1 claimed s1 where c:
      "callBackend (cw_claim world) (\<lambda>ctxErr clock. StartExecution ?codec ctxErr clock q) s = (Inr claimed, s1)" "sx_ExecutionID q = i"
      "ret = runReply ec world ''start execution'' i zeroTarget (newActiveExecution (cw_callerErr world) i) rt1
        (Inr (sr_Execution claimed, sr_Reconcile claimed)) s1"
      unfolding r by (rule startRuntime_clean [OF assms(3) [unfolded r]])
    have st: "StartExecution ?codec (wi_ctxErr (cw_claim world)) (wi_clock (cw_claim world)) q s = (Inr claimed, s1)"
      using c(1) by (simp add: callBackend_Inr)
    have "s1 = execute ?codec (wi_ctxErr (cw_claim world), wi_clock (cw_claim world), CmdStart q) s" using st by simp
    then have "s1 = history ?codec (before @ [(wi_ctxErr (cw_claim world), wi_clock (cw_claim world), CmdStart q)]) New"
      unfolding assms(1) history_snoc .
    then show ?thesis
      using assms(3) StartExecution_terminal [OF l st] c(2) unfolding c(3) by (intro runReply_recorded) auto
  next
    assume r: "ret = resumeRuntime ec world i target rt s"
    obtain q rt1 claimed s1 where c:
      "callBackend (cw_claim world) (\<lambda>ctxErr clock. ResumeExecution ctxErr clock q) s = (Inr claimed, s1)" "rx_ExecutionID q = i"
      "ret = runReply ec world ''resume execution'' i target (newActiveExecution (cw_callerErr world) i) rt1
        (Inr (rr_Execution claimed, rr_Reconcile claimed)) s1"
      unfolding r by (rule resumeRuntime_clean [OF assms(3) [unfolded r]])
    have st: "ResumeExecution (wi_ctxErr (cw_claim world)) (wi_clock (cw_claim world)) q s = (Inr claimed, s1)"
      using c(1) by (simp add: callBackend_Inr)
    have "s1 = execute ?codec (wi_ctxErr (cw_claim world), wi_clock (cw_claim world), CmdResume q) s" using st by simp
    then have "s1 = history ?codec (before @ [(wi_ctxErr (cw_claim world), wi_clock (cw_claim world), CmdResume q)]) New"
      unfolding assms(1) history_snoc .
    then show ?thesis
      using assms(3) ResumeExecution_terminal [OF l st] c(2) unfolding c(3) by (intro runReply_recorded) auto
  qed
qed

lemma returned_result_recorded_witness: "recorded demoCodec ''x'' (cl_store demoCall) (cl_result demoCall)"
proof -
  have "cl_err demoCall = None" by code_simp
  then have "recorded (ec_codec demoEffects) ''x'' (cl_store demoCall) (cl_result demoCall)"
    by (intro returned_result_recorded [where s = New and before = "[]" and rt = demoRuntime and spec = "sx_Spec demoStart"
          and world = "demoWorld (upWire 0)" and target = zeroTarget]) (simp_all add: demoCall_def)
  then show ?thesis by simp
qed

text \<open>
  C15. A run does not walk away with its lease. Let a validly claimed execution run, with any sequence of effects,
  boundaries, heartbeats, stop requests and calls of other callers, and end in any way (finished, suspended,
  closed, cancelled, failed, refused). If the control error is nil, which is what \<^verbatim>\<open>Suspend\<close> and \<^verbatim>\<open>Close\<close> wait
  for, the backend then has no lease on the execution. The number of calls stays below the range of the
  fencing tokens.
\<close>

theorem run_ends_unleased:
  assumes "s = history (ec_codec ec) before New"
    and "length before + sum_list (map stepCalls (rw_steps world)) + 1 < 2 ^ 64"
    and "validateClaimedExecution (ec_codec ec) execution i owner = None" and "\<not> terminalExecution (e_Status execution)"
    and "run = runClaimed ec world execution reconcile target (setExecution execution (newActiveExecution err i)) s"
    and "rr_control run = None"
  shows "\<exists>rec. st_executions (rr_store run) i = Some rec \<and> e_Lease (er_execution rec) = None"
proof -
  obtain lease where h: "held i (refOf lease) (setExecution execution (newActiveExecution err i))" and e: "e_ID execution = i"
    using validClaimed_held [OF assms(3), of err] assms(4) by auto
  have t: "tracked (ec_codec ec) (sum_list (map stepCalls (rw_steps world)) + 1) s"
    unfolding tracked_def using assms(1,2) by (intro exI [of _ before]) simp
  have "unleased (e_ID execution) (rr_store run)"
    unfolding assms(5) using h e assms(4,6) [unfolded assms(5)] t
    by (intro runClaimed_unleased) (simp_all add: setExecution_def)
  then show ?thesis using e by (simp add: unleased_def)
qed

lemma run_ends_unleased_witness:
  "\<exists>rec. st_executions (rr_store suspendedRun) ''x'' = Some rec \<and> e_Lease (er_execution rec) = None"
proof (rule run_ends_unleased [where before = "[(None, 0, CmdStart demoStart)]" and owner = "''o''"])
  show "demoStarted = history (ec_codec demoEffects) [(None, 0, CmdStart demoStart)] New" by (simp add: demoStarted_def)
  show "length [(None :: durableError option, 0 :: instant, CmdStart demoStart)]
      + sum_list (map stepCalls (rw_steps (demoRunWorld [demoToolStep, RunControl CtlSuspend]))) + 1 < 2 ^ 64"
    by (simp add: demoRunWorld_def demoToolStep_def)
  show "validateClaimedExecution (ec_codec demoEffects) (er_execution (the (st_executions demoStarted ''x''))) ''x'' ''o'' = None" by code_simp
  show "\<not> terminalExecution (e_Status (er_execution (the (st_executions demoStarted ''x''))))" by code_simp
  show "suspendedRun = runClaimed demoEffects (demoRunWorld [demoToolStep, RunControl CtlSuspend])
     (er_execution (the (st_executions demoStarted ''x''))) [] zeroTarget
     (setExecution (er_execution (the (st_executions demoStarted ''x''))) (newActiveExecution None ''x'')) demoStarted"
    by (rule suspendedRun_def)
  show "rr_control suspendedRun = None" by code_simp
qed

text \<open>
  C20. A claim of \<^verbatim>\<open>Start\<close> whose reply is lost is recovered by the same call, as long as it still can be. The
  backend grants the claim that a \<^verbatim>\<open>Start\<close> with no claim pending sends, and the reply does not arrive: that call
  fails with the transport error, and the grant stands. Then any calls may follow, of this runtime on other
  executions and of other callers on the backend, as long as the runtime is not closed and no other call of it is
  active on the execution, its pending claim is still there, and the stored execution is as the grant left it. The
  same \<^verbatim>\<open>Start\<close>, repeated before the pending claim and the lease expire and with a reply that arrives, sends the
  same claim again, gets the execution that was granted the first time, and runs it instead of finding it busy;
  the repeated claim changes nothing in the backend and settles the pending one. Nothing is said of a repetition
  after the expiry, for which \<^verbatim>\<open>claimID\<close> draws a new claim, or of \<^verbatim>\<open>Resume\<close>.
\<close>

theorem lost_claim_recovered:
  assumes "s = history (ec_codec ec) before New"
    and "q = \<lparr>sx_ExecutionID = i, sx_OwnerID = rn_ownerID rt, sx_ClaimID = claimID, sx_LeaseTTL = rn_leaseTTL rt, sx_Spec = spec,
      sx_SpecHash = specHash\<rparr>"
    and "StartExecution (ec_codec ec) (wi_ctxErr (cw_claim world1)) (wi_clock (cw_claim world1)) q s = (Inr claimed, s1)"
    and "wi_down (cw_claim world1) = None" and "wi_lost (cw_claim world1) = Some lost"
    and "validateRuntimeCall (cw_nilContext world1) i = None" and "validateExecutionSpec (ec_codec ec) spec = None"
    and "HashExecutionSpec (ec_codec ec) spec = Some specHash" and "cw_generated world1 = Inr claimID"
    and "\<And>rt. rn_pendingClaims (cw_later world1 rt) i = rn_pendingClaims rt i"
    and "\<not> rn_closed rt" and "rn_active rt i = None" and "rn_pendingClaims rt i = None"
    and "first = startRuntime ec world1 i spec rt s"
    and "rn_ownerID rt2 = rn_ownerID rt" and "rn_leaseTTL rt2 = rn_leaseTTL rt" and "\<not> rn_closed rt2" and "rn_active rt2 i = None"
    and "rn_pendingClaims rt2 i = rn_pendingClaims (cl_runtime first) i"
    and "st_executions s2 i = st_executions s1 i"
    and "wi_ctxErr (cw_claim world2) = None" and "wi_down (cw_claim world2) = None" and "wi_lost (cw_claim world2) = None"
    and "\<not> cw_nilContext world2" and "cw_now world2 < cw_now world1 + rn_leaseTTL rt"
    and "\<And>rec. st_executions s2 i = Some rec \<Longrightarrow> leaseActive (e_Lease (er_execution rec)) (trustedNow (wi_clock (cw_claim world2)) s2)"
  shows "cl_err first = Some (BackendCallError ''start execution'' (Transport lost)) \<and> cl_store first = s1 \<and>
    (\<exists>rt'. rn_ownerID rt' = rn_ownerID rt \<and> rn_pendingClaims rt' i = None \<and>
       startRuntime ec world2 i spec rt2 s2 =
         runReply ec world2 ''start execution'' i zeroTarget (newActiveExecution (cw_callerErr world2) i) rt'
           (Inr (sr_Execution claimed, sr_Reconcile claimed)) s2)"
proof -
  have c1: "callBackend (cw_claim world1) (\<lambda>ctxErr clock. StartExecution (ec_codec ec) ctxErr clock q) s = (Inl (Transport lost), s1)"
    using assms(3-5) by (simp add: callBackend_def)
  note lost = startRuntime_lost [OF assms(6-13) c1 [unfolded assms(2)] assms(14)]
  have i: "sx_ExecutionID q = i" by (simp add: assms(2))
  have "StartExecution (ec_codec ec) None (wi_clock (cw_claim world2)) q s2 = (Inr claimed, s2)"
    using assms(20,26) lost(2) by (intro StartExecution_replay [OF _ assms(3)]) (simp_all add: assms(1) i)
  then have c2: "callBackend (cw_claim world2) (\<lambda>ctxErr clock. StartExecution (ec_codec ec) ctxErr clock q) s2 = (Inr claimed, s2)"
    using assms(21-23) by (simp add: callBackend_Inr)
  have v: "validateRuntimeCall (cw_nilContext world2) i = None" using assms(6,24) by (simp add: validateRuntimeCall_def split: if_splits)
  show ?thesis
    using startRuntime_pending [OF v assms(7,8,17,18) assms(19) [unfolded lost(3)] assms(25)] c2 lost(1,2) assms(15,16)
    by (simp add: assms(2))
qed

definition lostReply :: "StartResult reply \<times> store" where
  "lostReply = StartExecution demoCodec None 0 (demoStart\<lparr>sx_ClaimID := 1\<rparr>) New"

text \<open>Between the two calls another execution is started.\<close>

definition lostCall :: callReturn where
  "lostCall = startRuntime demoEffects (demoWorld lostWire) ''x'' (sx_Spec demoStart) demoRuntime New"

definition lostStore :: store where
  "lostStore = snd (StartExecution demoCodec None 0 (demoStart\<lparr>sx_ExecutionID := ''y'', sx_ClaimID := 2\<rparr>) (snd lostReply))"

lemma lost_claim_recovered_witness:
  "cl_err lostCall = Some (BackendCallError ''start execution'' (Transport (TextError ''connection reset''))) \<and>
   cl_store lostCall = snd lostReply \<and> st_executions lostStore ''y'' \<noteq> None \<and>
   (\<exists>rt'. rn_ownerID rt' = ''o'' \<and> rn_pendingClaims rt' ''x'' = None \<and>
      startRuntime demoEffects (demoWorld (upWire 1)) ''x'' (sx_Spec demoStart) (cl_runtime lostCall) lostStore =
        runReply demoEffects (demoWorld (upWire 1)) ''start execution'' ''x'' zeroTarget (newActiveExecution None ''x'') rt'
          (Inr (sr_Execution (projr (fst lostReply)), sr_Reconcile (projr (fst lostReply)))) lostStore)"
proof -
  let ?q = "demoStart\<lparr>sx_ClaimID := 1\<rparr>"
  have "case fst lostReply of Inl err \<Rightarrow> False | Inr claimed \<Rightarrow> True" by code_simp
  then have reply: "StartExecution (ec_codec demoEffects) (wi_ctxErr (cw_claim (demoWorld lostWire))) (wi_clock (cw_claim (demoWorld lostWire))) ?q New
      = (Inr (projr (fst lostReply)), snd lostReply)"
    by (auto simp: lostReply_def demoWorld_def lostWire_def upWire_def prod_eq_iff split: sum.splits)
  have q: "?q = \<lparr>sx_ExecutionID = ''x'', sx_OwnerID = rn_ownerID demoRuntime, sx_ClaimID = 1, sx_LeaseTTL = rn_leaseTTL demoRuntime,
      sx_Spec = sx_Spec demoStart, sx_SpecHash = 7\<rparr>" by (simp add: demoStart_def demoRuntime_def)
  have spec: "validateExecutionSpec (ec_codec demoEffects) (sx_Spec demoStart) = None"
    "HashExecutionSpec (ec_codec demoEffects) (sx_Spec demoStart) = Some 7" by code_simp+
  have call: "validateRuntimeCall False ''x'' = None" by code_simp
  have rt2: "rn_ownerID (cl_runtime lostCall) = rn_ownerID demoRuntime" "rn_leaseTTL (cl_runtime lostCall) = rn_leaseTTL demoRuntime"
    "\<not> rn_closed (cl_runtime lostCall)" "rn_active (cl_runtime lostCall) ''x'' = None" by code_simp+
  have store: "st_executions lostStore ''x'' = st_executions (snd lostReply) ''x''"
    by (simp add: lostStore_def StartExecution_def Let_def split: option.splits prod.splits)
  have lease: "leaseActive (e_Lease (er_execution (the (st_executions lostStore ''x'')))) (trustedNow (wi_clock (cw_claim (demoWorld (upWire 1)))) lostStore)"
    by code_simp
  have "\<not> Option.is_none (st_executions lostStore ''y'')" by code_simp
  then have other: "st_executions lostStore ''y'' \<noteq> None" by (simp add: Option.is_none_def)
  have "\<And>rec. st_executions lostStore ''x'' = Some rec
      \<Longrightarrow> leaseActive (e_Lease (er_execution rec)) (trustedNow (wi_clock (cw_claim (demoWorld (upWire 1)))) lostStore)"
    using lease by simp
  note leased = lost_claim_recovered [where ec = demoEffects and s = New and before = "[]" and ?world1.0 = "demoWorld lostWire" and i = "''x''",
      OF _ q reply _ _ _ spec _ _ _ _ _ lostCall_def rt2 refl store _ _ _ _ _ this]
  have "cl_err lostCall = Some (BackendCallError ''start execution'' (Transport (TextError ''connection reset''))) \<and>
    cl_store lostCall = snd lostReply \<and>
    (\<exists>rt'. rn_ownerID rt' = rn_ownerID demoRuntime \<and> rn_pendingClaims rt' ''x'' = None \<and>
      startRuntime demoEffects (demoWorld (upWire 1)) ''x'' (sx_Spec demoStart) (cl_runtime lostCall) lostStore =
        runReply demoEffects (demoWorld (upWire 1)) ''start execution'' ''x'' zeroTarget
          (newActiveExecution (cw_callerErr (demoWorld (upWire 1))) ''x'') rt'
          (Inr (sr_Execution (projr (fst lostReply)), sr_Reconcile (projr (fst lostReply)))) lostStore)"
    by (rule leased) (simp_all add: call demoWorld_def lostWire_def upWire_def demoRuntime_def)
  moreover have "rn_ownerID demoRuntime = ''o''" "cw_callerErr (demoWorld (upWire 1)) = None"
    by (simp_all add: demoRuntime_def demoWorld_def)
  ultimately show ?thesis using other by simp
qed

text \<open>
  C21. What an operator supplies for an uncertain model call can be replayed: after \<^verbatim>\<open>Reconcile\<close> with the resolution
  succeed or fail returns without an error, the attempt is settled in the backend, and its replay gives the
  supplied events, followed by the supplied failure unless an error event ends them; with no events it gives the
  failure. The hypotheses are that the events carry no error and
  that their envelope survives \<^verbatim>\<open>json.Marshal\<close> and \<^verbatim>\<open>json.Unmarshal\<close>.
\<close>

theorem reconciled_answer_replays:
  assumes "ReconcileRuntime ec nilContext w1 w2 meanwhile i opn r rt s = (None, s1)"
    and "operationKind opn = Some AttemptKindModel"
    and "rc_Resolution r = ReconcileResolutionSucceed \<or> rc_Resolution r = ReconcileResolutionFail"
    and "events = rc_ModelEvents r" and "list_all (\<lambda>event. ev_Err event = None) events"
    and "\<And>payload. ec_marshalModel ec (modelEnvelope ec events (rc_Failure r)) = Inr payload \<Longrightarrow>
      ec_unmarshalModel ec payload = Inr (modelEnvelope ec events (rc_Failure r))"
  shows "\<exists>rec attempt. st_executions s1 i = Some rec \<and> attempt \<in> set (slotOf rec opn) \<and> a_Number attempt = rc_AttemptNumber r \<and>
    replayModelAttempt ec attempt =
      (case rc_Failure r of
         None \<Rightarrow> Inr (ReplayStream events None)
       | Some failure \<Rightarrow>
           if events = [] then Inl (EffectError (recordedFailureError failure))
           else Inr (ReplayStream events (if ev_Kind (last events) = EventError then None else Some (recordedFailureError failure))))"
proof -
  obtain execution kind payload failure attempt s2 where c: "operationKind opn = Some kind"
    "reconciliationPayload ec execution opn kind r = Inr (payload, failure)"
    "ReconcileAttempt (wi_ctxErr w2) (wi_clock w2) \<lparr>ra_ExecutionID = i, ra_OperationID = opn, ra_AttemptNumber = rc_AttemptNumber r,
       ra_ExpectedAttemptVersion = rc_AttemptVersion r, ra_Resolution = rc_Resolution r, ra_Payload = payload, ra_Failure = failure\<rparr>
       s2 = (Inr attempt, s1)" by (rule ReconcileRuntime_clean [OF assms(1)])
  let ?q = "\<lparr>ra_ExecutionID = i, ra_OperationID = opn, ra_AttemptNumber = rc_AttemptNumber r,
       ra_ExpectedAttemptVersion = rc_AttemptVersion r, ra_Resolution = rc_Resolution r, ra_Payload = payload, ra_Failure = failure\<rparr>"
  have m: "modelReconciliationPayload ec r = Inr (payload, failure)"
    using c(1,2) assms(2) by (simp add: reconciliationPayload_def)
  have p: "encodeModelAttempt ec events failure = Inr payload" "failure = rc_Failure r"
    "failure = None \<longleftrightarrow> rc_Resolution r = ReconcileResolutionSucceed"
    "failure = None \<Longrightarrow> validateSuccessfulModelEvents ec events = None" "failure \<noteq> None \<Longrightarrow> validateFailedModelEvents ec events = None"
    using m assms(3,4) by (auto simp: modelReconciliationPayload_def map_sum_def split: if_splits option.splits sum.splits)
  obtain rec where a: "st_executions s1 i = Some rec" "attempt \<in> set (slotOf rec opn)" "a_Number attempt = rc_AttemptNumber r"
    "a_Payload attempt = payload" "a_Status attempt = (if failure = None then AttemptStatusSucceeded else AttemptStatusFailed)"
    by (rule ReconcileAttempt_recorded [OF c(3)]) (use assms(3) p(3) in simp_all)
  have "decodeModelAttempt ec payload = Inr (events, failure)"
    using p(1,2) assms(5,6) by (intro encodeModelAttempt_decode) (auto simp: list_all_iff)
  then have "replayModelAttempt ec attempt =
      (case rc_Failure r of
         None \<Rightarrow> Inr (ReplayStream events None)
       | Some failure \<Rightarrow>
           if events = [] then Inl (EffectError (recordedFailureError failure))
           else Inr (ReplayStream events (if ev_Kind (last events) = EventError then None else Some (recordedFailureError failure))))"
    using a(4,5) p(4,5) unfolding p(2) by (cases "rc_Failure r") (simp_all add: replayModelAttempt_def Let_def)
  then show ?thesis using a(1-3) by blast
qed

lemma reconciled_answer_replays_witness:
  "\<exists>rec attempt. st_executions (snd reconciledStore) ''x'' = Some rec \<and> attempt \<in> set (slotOf rec ''turn:0:model'')
     \<and> a_Number attempt = 1 \<and> replayModelAttempt answeredCodec attempt = Inr (ReplayStream [doneEvent] None)"
proof -
  have "fst reconciledStore = None" by code_simp
  then have r: "ReconcileRuntime answeredCodec False (upWire 22) (upWire 23) [] ''x'' ''turn:0:model'' demoAnswer demoRuntime
     (history demoCodec uncertainCalls New) = (None, snd reconciledStore)"
    unfolding reconciledStore_def by (metis prod.collapse)
  have k: "operationKind ''turn:0:model'' = Some AttemptKindModel" by code_simp
  have m: "ec_unmarshalModel answeredCodec payload = Inr (modelEnvelope answeredCodec [doneEvent] None)" for payload
    by (simp add: answeredCodec_def) (simp add: modelCodec_def)
  show ?thesis
    using reconciled_answer_replays [OF r k, of "[doneEvent]"] m by (simp add: demoAnswer_def doneEvent_def zeroEvent_def)
qed

text \<open>
  C22. After the boundary observer reports success, the runtime's view of the execution is what the backend holds,
  under the same lease; its checkpoint carries the hash of the observed continuation and the next sequence number.
\<close>

theorem boundary_in_sync:
  assumes "ObserveBoundary codec w continuation active s = (None, active1, s1)"
  shows "\<exists>rec checkpoint. st_executions s1 (ac_id active) = Some rec \<and> er_execution rec = ac_execution active1 \<and>
    map_option leaseReference (e_Lease (ac_execution active1)) = map_option leaseReference (e_Lease (ac_execution active)) \<and>
    e_Checkpoint (ac_execution active1) = Some checkpoint \<and> HashContinuation codec continuation = Inr (ck_ContinuationHash checkpoint) \<and>
    ck_Sequence checkpoint = (case e_Checkpoint (ac_execution active) of None \<Rightarrow> 1 | Some old \<Rightarrow> ck_Sequence old + 1)"
proof -
  let ?sequence = "case e_Checkpoint (ac_execution active) of None \<Rightarrow> 1 | Some ck \<Rightarrow> ck_Sequence ck + 1"
  obtain hash lease q saved where c: "HashContinuation codec continuation = Inr hash" "e_Lease (ac_execution active) = Some lease"
    "q = \<lparr>cx_ExecutionID = ac_id active, cx_Lease = leaseReference lease, cx_ExpectedVersion = e_Version (ac_execution active),
      cx_Checkpoint = \<lparr>ck_Sequence = ?sequence, ck_Continuation = continuation, ck_ContinuationHash = hash\<rparr>\<rparr>"
    "callBackend w (\<lambda>ctxErr clock. SaveCheckpoint codec ctxErr clock q) s = (Inr saved, s1)" "active1 = setExecution saved active"
    using assms by (auto simp: ObserveBoundary_def Let_def split: option.splits sum.splits prod.splits if_splits)
  have "SaveCheckpoint codec (wi_ctxErr w) (wi_clock w) q s = (Inr saved, s1)" using c(4) by (simp add: callBackend_Inr)
  then obtain rec rec' where r: "saveBody codec q rec (trustedNow (wi_clock w) s) = (Inr saved, rec')"
    "s1 = s\<lparr>st_executions := (st_executions s)(cx_ExecutionID q \<mapsto> rec')\<rparr>" "er_execution rec' = saved"
    "map_option refOf (e_Lease saved) = Some (cx_Lease q)" by (rule SaveCheckpoint_saved)
  obtain checkpoint where "e_Checkpoint saved = Some checkpoint" "ck_ContinuationHash checkpoint = hash" "ck_Sequence checkpoint = ?sequence"
    using r(1) c(3) by (auto simp: saveBody_def Let_def split: option.splits if_splits)
  then show ?thesis using c(1,2,3,5) r(2-4)
    by (intro exI [of _ rec'] exI [of _ checkpoint]) (simp add: setExecution_def leaseReference_refOf [abs_def])
qed

definition demoReady :: Continuation where
  "demoReady = zeroContinuation\<lparr>c_SchemaVersion := 1, c_Phase := ContinuationReady\<rparr>"

definition observed :: "runtimeError option \<times> activeExecution \<times> store" where
  "observed = ObserveBoundary demoCodec (upWire 1) demoReady (activeOf demoStarted) demoStarted"

lemma boundary_in_sync_witness:
  "\<exists>rec checkpoint. st_executions (snd (snd observed)) ''x'' = Some rec \<and> er_execution rec = ac_execution (fst (snd observed))
    \<and> e_Checkpoint (ac_execution (fst (snd observed))) = Some checkpoint \<and> ck_Sequence checkpoint = 1"
proof -
  have "fst observed = None" by code_simp
  then have o: "ObserveBoundary demoCodec (upWire 1) demoReady (activeOf demoStarted) demoStarted = (None, fst (snd observed), snd (snd observed))"
    unfolding observed_def by (metis prod.collapse)
  have "e_Checkpoint (ac_execution (activeOf demoStarted)) = None" by code_simp
  then show ?thesis using boundary_in_sync [OF o] by auto
qed

text \<open>
  The preconditions of a resume are exact: a target is accepted if and only if each fact it asserts is the
  checkpoint's. The sequence and the phase are the checkpoint's own, the operation is one that the continuation
  has pending; without a checkpoint only the empty target is accepted.
\<close>

theorem resume_target_exact:
  "resumeTargetMismatch execution target = None \<longleftrightarrow>
     (rt_CheckpointSequence target \<noteq> 0 \<longrightarrow> map_option ck_Sequence (e_Checkpoint execution) = Some (rt_CheckpointSequence target)) \<and>
     (rt_Phase target \<noteq> ContinuationOther [] \<longrightarrow>
        map_option (c_Phase \<circ> ck_Continuation) (e_Checkpoint execution) = Some (rt_Phase target)) \<and>
     (rt_OperationID target \<noteq> [] \<longrightarrow>
        (\<exists>checkpoint. e_Checkpoint execution = Some checkpoint \<and> rt_OperationID target \<in> set (pendingOperationIDs (ck_Continuation checkpoint))))"
  by (auto simp: resumeTargetMismatch_def emptyTarget_def zeroTarget_def Let_def List.member_iff split: option.splits)

end
