(* ===== verification/Orchestration.thy ===== *)
theory Orchestration
  imports Agent_Types Tool_Update
begin

text \<open>
  Policy-free orchestration (\<^verbatim>\<open>src/orchestration/scheduler.go\<close> and \<^verbatim>\<open>src/orchestration/drive.go\<close>): the
  data a scheduler and \<^verbatim>\<open>Drive\<close> exchange, the validation of dispatches, of an initial state and of a
  batch, the concurrent execution of a batch, and the loop of \<^verbatim>\<open>Drive\<close>.

  The application supplies the scheduler and the executor; both are arguments. A batch runs one goroutine
  per dispatch, launched in order by a loop that takes a permit for each, and is a step relation whose runs
  are the interleavings of the launch loop, the goroutines, the cancellation of the caller's context and
  its propagation to the context of the batch. \<^verbatim>\<open>json.Valid\<close> is the argument \<open>jsonValid\<close>. Dispatch
  identifiers never repeat, so an executor whose answers differ from call to call is a function of the
  dispatch and of what the context of the batch says when it returns.
\<close>

section \<open>Dispatches, outcomes and states\<close>

record Handoff =
  ho_From :: string
  ho_To :: string
  ho_Reason :: string
  ho_Payload :: bytes

record Dispatch =
  d_ID :: string
  d_Route :: string
  d_Request :: AgentRequest
  d_OutputPolicy :: OutputPolicy
  d_Handoff :: "Handoff option"
  d_Metadata :: strmap

record Outcome =
  oc_Tick :: int
  oc_Dispatch :: Dispatch
  oc_Result :: Result

record State =
  st_Tick :: int
  st_Outcomes :: "Outcome list"

datatype orchestrationError =
    ErrInvalidArgument string "fmtArg list"
  | ErrAt string int orchestrationError
  | ErrSchedulerPanic string
  | ErrExecutorPanic string
  | ApplicationError goError

definition negativeBudget :: "Budget \<Rightarrow> bool" where
  "negativeBudget budget \<longleftrightarrow> b_MaxTokens budget < 0 \<or> b_MaxToolCalls budget < 0 \<or> b_MaxSteps budget < 0
     \<or> b_MaxWallClock budget < 0"

definition ValidateHandoff :: "(bytes \<Rightarrow> bool) \<Rightarrow> Dispatch \<Rightarrow> Handoff \<Rightarrow> orchestrationError option" where
  "ValidateHandoff jsonValid dispatch handoff =
     (if ho_Payload handoff \<noteq> [] \<and> \<not> jsonValid (ho_Payload handoff)
      then Some (ErrInvalidArgument ''dispatch handoff payload is invalid JSON'' [ArgString (d_ID dispatch)])
      else if ho_To handoff \<noteq> [] \<and> ho_To handoff \<noteq> d_Route dispatch
      then Some (ErrInvalidArgument ''dispatch handoff target conflicts with route''
             [ArgString (d_ID dispatch), ArgString (ho_To handoff), ArgString (d_Route dispatch)])
      else None)"

definition ValidateDispatch :: "(bytes \<Rightarrow> bool) \<Rightarrow> Dispatch \<Rightarrow> orchestrationError option" where
  "ValidateDispatch jsonValid dispatch =
     (if blank (d_ID dispatch) then Some (ErrInvalidArgument ''dispatch ID is empty'' [])
      else if blank (d_Route dispatch)
      then Some (ErrInvalidArgument ''dispatch route is empty'' [ArgString (d_ID dispatch)])
      else if (case rq_Budget (d_Request dispatch) of None \<Rightarrow> False | Some budget \<Rightarrow> negativeBudget budget)
      then Some (ErrInvalidArgument ''dispatch has a negative budget'' [ArgString (d_ID dispatch)])
      else if op_MaxRepairAttempts (d_OutputPolicy dispatch) < 0
      then Some (ErrInvalidArgument ''dispatch has a negative repair limit'' [ArgString (d_ID dispatch)])
      else if op_Schema (d_OutputPolicy dispatch) \<noteq> [] \<and> \<not> jsonValid (op_Schema (d_OutputPolicy dispatch))
      then Some (ErrInvalidArgument ''dispatch output schema is invalid JSON'' [ArgString (d_ID dispatch)])
      else case d_Handoff dispatch of None \<Rightarrow> None | Some handoff \<Rightarrow> ValidateHandoff jsonValid dispatch handoff)"

text \<open>The order of outcomes: by tick, then by dispatch identifier.\<close>

definition outcomeKey :: "Outcome \<Rightarrow> int \<times> string" where
  "outcomeKey outcome = (oc_Tick outcome, d_ID (oc_Dispatch outcome))"

definition outcomeLess :: "Outcome \<Rightarrow> Outcome \<Rightarrow> bool" where
  "outcomeLess left right \<longleftrightarrow>
     (if oc_Tick left \<noteq> oc_Tick right then oc_Tick left < oc_Tick right
      else d_ID (oc_Dispatch left) < d_ID (oc_Dispatch right))"

text \<open>
  The loop over the outcomes of an initial state: the index, the outcome before, the identifiers seen so
  far, and the outcomes still to check.
\<close>

fun validateOutcomes ::
  "(bytes \<Rightarrow> bool) \<Rightarrow> int \<Rightarrow> int \<Rightarrow> Outcome option \<Rightarrow> string list \<Rightarrow> Outcome list \<Rightarrow> orchestrationError option" where
  "validateOutcomes jsonValid tick index previous seen [] = None"
| "validateOutcomes jsonValid tick index previous seen (outcome # outcomes) =
     (let identifier = d_ID (oc_Dispatch outcome)
      in if oc_Tick outcome < 1 \<or> oc_Tick outcome > tick
         then Some (ErrInvalidArgument ''initial outcome tick is outside'' [ArgString identifier, ArgInt (oc_Tick outcome), ArgInt tick])
         else case ValidateDispatch jsonValid (oc_Dispatch outcome) of
             Some err \<Rightarrow> Some (ErrAt ''initial outcome'' index err)
           | None \<Rightarrow>
               if identifier \<in> set seen
               then Some (ErrInvalidArgument ''duplicate initial dispatch ID'' [ArgString identifier])
               else if (case previous of None \<Rightarrow> False | Some before \<Rightarrow> \<not> outcomeLess before outcome)
               then Some (ErrInvalidArgument ''initial outcomes are not sorted by tick and dispatch ID'' [])
               else validateOutcomes jsonValid tick (index + 1) (Some outcome) (identifier # seen) outcomes)"

definition validateInitialState :: "(bytes \<Rightarrow> bool) \<Rightarrow> State \<Rightarrow> orchestrationError option" where
  "validateInitialState jsonValid state =
     (if st_Tick state < 0 then Some (ErrInvalidArgument ''initial state has negative tick'' [])
      else validateOutcomes jsonValid (st_Tick state) 0 None [] (st_Outcomes state))"

fun validateDispatches ::
  "(bytes \<Rightarrow> bool) \<Rightarrow> int \<Rightarrow> string list \<Rightarrow> Dispatch list \<Rightarrow> orchestrationError option" where
  "validateDispatches jsonValid index seen [] = None"
| "validateDispatches jsonValid index seen (dispatch # dispatches) =
     (case ValidateDispatch jsonValid dispatch of
        Some err \<Rightarrow> Some (ErrAt ''scheduler dispatch'' index err)
      | None \<Rightarrow>
          if d_ID dispatch \<in> set seen
          then Some (ErrInvalidArgument ''duplicate dispatch ID'' [ArgString (d_ID dispatch)])
          else validateDispatches jsonValid (index + 1) (d_ID dispatch # seen) dispatches)"

definition outcomeIDs :: "State \<Rightarrow> string list" where
  "outcomeIDs state = map (d_ID \<circ> oc_Dispatch) (st_Outcomes state)"

definition validateBatch :: "(bytes \<Rightarrow> bool) \<Rightarrow> State \<Rightarrow> Dispatch list \<Rightarrow> orchestrationError + Dispatch list" where
  "validateBatch jsonValid state dispatches =
     (case validateDispatches jsonValid 0 (outcomeIDs state) dispatches of
        Some err \<Rightarrow> Inl err | None \<Rightarrow> Inr dispatches)"

section \<open>The application's functions\<close>

datatype scheduled = Scheduled "Dispatch list" | ScheduleFailed goError | SchedulePanicked string

datatype executed = Executed Result "goError option" | ExecutePanicked string

definition callScheduler :: "(State \<Rightarrow> scheduled) \<Rightarrow> State \<Rightarrow> orchestrationError + Dispatch list" where
  "callScheduler scheduler state =
     (case scheduler state of
        Scheduled dispatches \<Rightarrow> Inr dispatches
      | ScheduleFailed err \<Rightarrow> Inl (ApplicationError err)
      | SchedulePanicked recovered \<Rightarrow> Inl (ErrSchedulerPanic recovered))"

definition callExecutor :: "executed \<Rightarrow> Result \<times> orchestrationError option" where
  "callExecutor execution =
     (case execution of
        Executed result err \<Rightarrow> (result, map_option ApplicationError err)
      | ExecutePanicked recovered \<Rightarrow> (zeroResult, Some (ErrExecutorPanic recovered)))"

type_synonym executor = "Dispatch \<Rightarrow> goError option \<Rightarrow> executed"

text \<open>Frames of a dispatch reach the shared sink one at a time, with the dispatch as their source.\<close>

record Frame =
  fm_Source :: string
  fm_Kind :: string
  fm_Text :: string
  fm_TextPhase :: TextPhase
  fm_Thinking :: string
  fm_Signature :: string
  fm_RedactedThinking :: string
  fm_ToolCall :: "ToolCall option"
  fm_ToolCallDelta :: "ToolCallDelta option"
  fm_ToolResult :: "ToolResult option"
  fm_ToolUpdate :: "Update option"
  fm_Usage :: Usage
  fm_StopReason :: StopReason
  fm_ProviderState :: bytes
  fm_Err :: "goError option"

definition sourceSink :: "string \<Rightarrow> Frame \<Rightarrow> Frame" where
  "sourceSink source frame = frame\<lparr>fm_Source := source\<rparr>"

section \<open>A batch\<close>

record dispatchExecution =
  de_dispatch :: Dispatch
  de_result :: Result
  de_err :: "orchestrationError option"

definition executionOf :: "executor \<Rightarrow> Dispatch \<Rightarrow> goError option \<Rightarrow> dispatchExecution" where
  "executionOf executor dispatch ctxErr =
     (let (result, err) = callExecutor (executor dispatch ctxErr)
      in \<lparr>de_dispatch = dispatch, de_result = result, de_err = err\<rparr>)"

text \<open>
  The launch loop is at its head, past the check of the context, holding the permit of the next dispatch,
  or has left. A goroutine is not launched, runs its executor, has recorded a failure and is about to
  cancel the batch, is about to give its permit back, or has ended.
\<close>

datatype launcher = AtHead | Checked | Acquired | Left

datatype worker = Unlaunched | Running | Failing | Releasing | Ended

record batch =
  bt_workers :: "worker list"
  bt_next :: nat
  bt_launcher :: launcher
  bt_permits :: nat
  bt_records :: "dispatchExecution list"
  bt_ctxErr :: "goError option"
  bt_batchErr :: "goError option"
  bt_frames :: "Frame list"

definition startBatch :: "nat \<Rightarrow> batch" where
  "startBatch n = \<lparr>bt_workers = replicate n Unlaunched, bt_next = 0, bt_launcher = AtHead, bt_permits = 0,
     bt_records = [], bt_ctxErr = None, bt_batchErr = None, bt_frames = []\<rparr>"

definition setWorker :: "batch \<Rightarrow> nat \<Rightarrow> worker \<Rightarrow> batch" where
  "setWorker b i w = b\<lparr>bt_workers := (bt_workers b)[i := w]\<rparr>"

text \<open>
  The launch of the next dispatch: with permits, after the context has been read again behind the permit;
  without, right after the check at the head.
\<close>

definition mayLaunch :: "nat option \<Rightarrow> batch \<Rightarrow> bool" where
  "mayLaunch limit b \<longleftrightarrow>
     (case limit of None \<Rightarrow> bt_launcher b = Checked
      | Some _ \<Rightarrow> bt_launcher b = Acquired \<and> bt_batchErr b = None)"

definition launchNext :: "batch \<Rightarrow> batch" where
  "launchNext b = (setWorker b (bt_next b) Running)\<lparr>bt_next := Suc (bt_next b), bt_launcher := AtHead\<rparr>"

text \<open>
  The executor returns: its record goes to the channel, and a failing goroutine cancels the batch before
  its deferred calls give the permit back.
\<close>

definition returnExecutor :: "executor \<Rightarrow> Dispatch list \<Rightarrow> batch \<Rightarrow> nat \<Rightarrow> batch" where
  "returnExecutor executor dispatches b i =
     (let execution = executionOf executor (dispatches ! i) (bt_batchErr b)
      in (setWorker b i (if de_err execution = None then Releasing else Failing))
           \<lparr>bt_records := bt_records b @ [execution]\<rparr>)"

definition cancelBatch :: "batch \<Rightarrow> nat \<Rightarrow> batch" where
  "cancelBatch b i =
     (setWorker b i Releasing)\<lparr>bt_batchErr := (case bt_batchErr b of None \<Rightarrow> Some ContextCanceled | Some err \<Rightarrow> Some err)\<rparr>"

definition releasePermit :: "nat option \<Rightarrow> batch \<Rightarrow> batch" where
  "releasePermit limit b = (case limit of None \<Rightarrow> b | Some _ \<Rightarrow> b\<lparr>bt_permits := bt_permits b - 1\<rparr>)"

inductive batchStep :: "executor \<Rightarrow> bool \<Rightarrow> nat option \<Rightarrow> Dispatch list \<Rightarrow> batch \<Rightarrow> batch \<Rightarrow> bool"
  for executor sink limit dispatches where
  caller_cancels: "bt_ctxErr b = None \<Longrightarrow>
    batchStep executor sink limit dispatches b (b\<lparr>bt_ctxErr := Some err\<rparr>)"
| propagate: "bt_ctxErr b = Some err \<Longrightarrow> bt_batchErr b = None \<Longrightarrow>
    batchStep executor sink limit dispatches b (b\<lparr>bt_batchErr := Some err\<rparr>)"
| check: "bt_launcher b = AtHead \<Longrightarrow> bt_next b < length dispatches \<Longrightarrow> bt_batchErr b = None \<Longrightarrow>
    batchStep executor sink limit dispatches b (b\<lparr>bt_launcher := Checked\<rparr>)"
| leave_head: "bt_launcher b = AtHead \<Longrightarrow> bt_next b < length dispatches \<Longrightarrow> bt_batchErr b \<noteq> None \<Longrightarrow>
    batchStep executor sink limit dispatches b (b\<lparr>bt_launcher := Left\<rparr>)"
| acquire: "bt_launcher b = Checked \<Longrightarrow> limit = Some permits \<Longrightarrow> bt_permits b < permits \<Longrightarrow>
    batchStep executor sink limit dispatches b (b\<lparr>bt_launcher := Acquired, bt_permits := Suc (bt_permits b)\<rparr>)"
| leave_waiting: "bt_launcher b = Checked \<Longrightarrow> limit = Some permits \<Longrightarrow> bt_batchErr b \<noteq> None \<Longrightarrow>
    batchStep executor sink limit dispatches b (b\<lparr>bt_launcher := Left\<rparr>)"
| leave_holding: "bt_launcher b = Acquired \<Longrightarrow> bt_batchErr b \<noteq> None \<Longrightarrow>
    batchStep executor sink limit dispatches b ((releasePermit limit b)\<lparr>bt_launcher := Left\<rparr>)"
| launch: "mayLaunch limit b \<Longrightarrow> batchStep executor sink limit dispatches b (launchNext b)"
| emit: "sink \<Longrightarrow> i < length dispatches \<Longrightarrow> bt_workers b ! i = Running \<Longrightarrow>
    batchStep executor sink limit dispatches b
      (b\<lparr>bt_frames := bt_frames b @ [sourceSink (d_ID (dispatches ! i)) frame]\<rparr>)"
| return: "i < length dispatches \<Longrightarrow> bt_workers b ! i = Running \<Longrightarrow>
    batchStep executor sink limit dispatches b (returnExecutor executor dispatches b i)"
| cancel: "i < length dispatches \<Longrightarrow> bt_workers b ! i = Failing \<Longrightarrow>
    batchStep executor sink limit dispatches b (cancelBatch b i)"
| release: "i < length dispatches \<Longrightarrow> bt_workers b ! i = Releasing \<Longrightarrow>
    batchStep executor sink limit dispatches b (releasePermit limit (setWorker b i Ended))"

inductive_cases batchStepE: "batchStep executor sink limit dispatches b b'"

inductive batchRun :: "executor \<Rightarrow> bool \<Rightarrow> nat option \<Rightarrow> Dispatch list \<Rightarrow> batch \<Rightarrow> bool"
  for executor sink limit dispatches where
  start: "batchRun executor sink limit dispatches (startBatch (length dispatches))"
| step: "batchRun executor sink limit dispatches b \<Longrightarrow> batchStep executor sink limit dispatches b b' \<Longrightarrow>
    batchRun executor sink limit dispatches b'"

text \<open>The launch loop is over and \<^verbatim>\<open>wait.Wait\<close> has returned.\<close>

definition idle :: "worker \<Rightarrow> bool" where
  "idle w \<longleftrightarrow> w = Unlaunched \<or> w = Ended"

definition batchFinished :: "batch \<Rightarrow> bool" where
  "batchFinished b \<longleftrightarrow>
     (bt_launcher b = Left \<or> bt_launcher b = AtHead \<and> bt_next b = length (bt_workers b)) \<and> list_all idle (bt_workers b)"

text \<open>The fold of the records; \<^verbatim>\<open>errors.Join\<close> of nothing is nil.\<close>

datatype driveError =
    InvalidDrive orchestrationError
  | DriveContext goError
  | SchedulerError int orchestrationError
  | ErrMaxTicks
  | DispatchErrors "dispatchExecution list" "goError option"

definition successOf :: "int \<Rightarrow> dispatchExecution \<Rightarrow> Outcome" where
  "successOf tick execution =
     \<lparr>oc_Tick = tick, oc_Dispatch = de_dispatch execution, oc_Result = de_result execution\<rparr>"

definition collectBatch :: "State \<Rightarrow> dispatchExecution list \<Rightarrow> goError option \<Rightarrow> State \<times> driveError option" where
  "collectBatch state records ctxErr =
     (let nextTick = wrap64 (st_Tick state + 1);
          successes = sort_key (d_ID \<circ> oc_Dispatch)
            (map (successOf nextTick) (filter (\<lambda>r. de_err r = None) records));
          failures = sort_key (d_ID \<circ> de_dispatch) (filter (\<lambda>r. de_err r \<noteq> None) records)
      in (state\<lparr>st_Outcomes := sort_key outcomeKey (st_Outcomes state @ successes)\<rparr>,
          if failures = [] \<and> ctxErr = None then None else Some (DispatchErrors failures ctxErr)))"

inductive executeBatch ::
  "executor \<Rightarrow> bool \<Rightarrow> nat option \<Rightarrow> State \<Rightarrow> Dispatch list \<Rightarrow> State \<times> driveError option \<Rightarrow> bool"
  for executor sink limit state dispatches where
  executed: "batchRun executor sink limit dispatches b \<Longrightarrow> batchFinished b \<Longrightarrow>
    executeBatch executor sink limit state dispatches (collectBatch state (bt_records b) (bt_ctxErr b))"

inductive_cases executeBatchE: "executeBatch executor sink limit state dispatches outcome"

section \<open>The drive loop\<close>

record DriveOptions =
  do_MaxTicks :: int
  do_MaxConcurrency :: int
  do_UnlimitedConcurrency :: bool
  do_Sink :: bool
  do_InitialState :: "State option"

definition defaultMaxTicks :: int where
  "defaultMaxTicks = 64"

definition defaultMaxConcurrency :: int where
  "defaultMaxConcurrency = 4"

definition tickLimit :: "DriveOptions \<Rightarrow> int" where
  "tickLimit options = (if do_MaxTicks options = 0 then defaultMaxTicks else do_MaxTicks options)"

text \<open>The capacity of the permit channel, which unlimited concurrency does without.\<close>

definition permitLimit :: "DriveOptions \<Rightarrow> nat option" where
  "permitLimit options =
     (if do_UnlimitedConcurrency options then None
      else Some (nat (if do_MaxConcurrency options = 0 then defaultMaxConcurrency else do_MaxConcurrency options)))"

text \<open>
  The world of one call of \<^verbatim>\<open>Drive\<close>: \<open>dv_CtxErr\<close> is \<^verbatim>\<open>ctx.Err()\<close> at the head of the loop after so many
  ticks, and \<open>dv_Batch\<close> is what the interleaving of the goroutines makes of a batch.
\<close>

record DriveWorld =
  dv_jsonValid :: "bytes \<Rightarrow> bool"
  dv_Scheduler :: "(State \<Rightarrow> scheduled) option"
  dv_Executor :: "executor option"
  dv_CtxErr :: "int \<Rightarrow> goError option"
  dv_Batch :: "State \<Rightarrow> Dispatch list \<Rightarrow> State \<times> driveError option"

function driveLoop ::
  "DriveWorld \<Rightarrow> (State \<Rightarrow> scheduled) \<Rightarrow> int \<Rightarrow> int \<Rightarrow> State \<Rightarrow> State \<times> driveError option" where
  "driveLoop world scheduler maxTicks completedTicks state =
     (case dv_CtxErr world completedTicks of
        Some err \<Rightarrow> (state, Some (DriveContext err))
      | None \<Rightarrow>
          (case callScheduler scheduler state of
             Inl err \<Rightarrow> (state, Some (SchedulerError (st_Tick state) err))
           | Inr returned \<Rightarrow>
               (case validateBatch (dv_jsonValid world) state returned of
                  Inl err \<Rightarrow> (state, Some (SchedulerError (st_Tick state) err))
                | Inr dispatches \<Rightarrow>
                    if dispatches = [] then (state, None)
                    else if completedTicks \<ge> maxTicks then (state, Some ErrMaxTicks)
                    else case dv_Batch world state dispatches of
                        (next, Some err) \<Rightarrow> (next, Some err)
                      | (next, None) \<Rightarrow>
                          driveLoop world scheduler maxTicks (completedTicks + 1)
                            (next\<lparr>st_Tick := wrap64 (st_Tick next + 1)\<rparr>))))"
  by pat_completeness auto

termination driveLoop
  by (relation "measure (\<lambda>(_, _, maxTicks, completedTicks, _). nat (maxTicks - completedTicks))") auto

declare driveLoop.simps [simp del]

definition zeroState :: State where
  "zeroState = \<lparr>st_Tick = 0, st_Outcomes = []\<rparr>"

definition Drive :: "DriveWorld \<Rightarrow> DriveOptions \<Rightarrow> State \<times> driveError option" where
  "Drive world options =
     (case (dv_Scheduler world, dv_Executor world) of
        (None, _) \<Rightarrow> (zeroState, Some (InvalidDrive (ErrInvalidArgument ''nil scheduler'' [])))
      | (_, None) \<Rightarrow> (zeroState, Some (InvalidDrive (ErrInvalidArgument ''nil executor'' [])))
      | (Some scheduler, Some executor) \<Rightarrow>
          if do_MaxTicks options < 0 \<or> do_MaxConcurrency options < 0
          then (zeroState, Some (InvalidDrive (ErrInvalidArgument ''negative drive limit'' [])))
          else case do_InitialState options of
              None \<Rightarrow> driveLoop world scheduler (tickLimit options) 0 zeroState
            | Some initial \<Rightarrow>
                (case validateInitialState (dv_jsonValid world) initial of
                   Some err \<Rightarrow> (zeroState, Some (InvalidDrive err))
                 | None \<Rightarrow> driveLoop world scheduler (tickLimit options) 0 initial))"

text \<open>The batches of the world are batches of its executor under the options.\<close>

definition batchesRun :: "DriveWorld \<Rightarrow> DriveOptions \<Rightarrow> bool" where
  "batchesRun world options \<longleftrightarrow>
     (\<forall>executor state dispatches. dv_Executor world = Some executor \<longrightarrow>
        executeBatch executor (do_Sink options) (permitLimit options) state dispatches (dv_Batch world state dispatches))"

end
