(* ===== verification/Orchestration_Laws.thy ===== *)
theory Orchestration_Laws
  imports Orchestration
begin

text \<open>
  Laws of orchestration: the invariant of a running batch, what the records of a finished batch are, the
  runs of clean and of serial batches, and the validity of the state a batch is folded into.
\<close>

section \<open>The invariant of a batch\<close>

definition hasRecorded :: "worker \<Rightarrow> bool" where
  "hasRecorded w \<longleftrightarrow> w = Failing \<or> w = Releasing \<or> w = Ended"

definition holding :: "worker \<Rightarrow> bool" where
  "holding w \<longleftrightarrow> w = Running \<or> w = Failing \<or> w = Releasing"

lemma worker_simps [simp]:
  "\<not> hasRecorded Unlaunched" "\<not> hasRecorded Running" "hasRecorded Failing" "hasRecorded Releasing" "hasRecorded Ended"
  "\<not> holding Unlaunched" "holding Running" "holding Failing" "holding Releasing" "\<not> holding Ended"
  "idle Unlaunched" "\<not> idle Running" "\<not> idle Failing" "\<not> idle Releasing" "idle Ended"
  by (simp_all add: hasRecorded_def holding_def idle_def)

text \<open>The records, in the order they were sent, are executions of distinct dispatches.\<close>

definition recordsOf :: "executor \<Rightarrow> Dispatch list \<Rightarrow> worker list \<Rightarrow> dispatchExecution list \<Rightarrow> nat list \<Rightarrow> bool" where
  "recordsOf executor dispatches workers records order \<longleftrightarrow>
     distinct order \<and> set order = {i. i < length workers \<and> hasRecorded (workers ! i)} \<and>
     list_all2 (\<lambda>i r. \<exists>c. r = executionOf executor (dispatches ! i) c) order records"

definition permitsKept :: "nat option \<Rightarrow> batch \<Rightarrow> bool" where
  "permitsKept limit b \<longleftrightarrow>
     (case limit of None \<Rightarrow> True
      | Some n \<Rightarrow> bt_permits b = length (filter holding (bt_workers b)) + (if bt_launcher b = Acquired then 1 else 0)
          \<and> bt_permits b \<le> n)"

definition launchedBelow :: "Dispatch list \<Rightarrow> batch \<Rightarrow> bool" where
  "launchedBelow dispatches b \<longleftrightarrow>
     length (bt_workers b) = length dispatches \<and> bt_next b \<le> length dispatches \<and>
     (bt_launcher b = Checked \<or> bt_launcher b = Acquired \<longrightarrow> bt_next b < length dispatches) \<and>
     (\<forall>i < length dispatches. bt_workers b ! i = Unlaunched \<longleftrightarrow> bt_next b \<le> i)"

definition batchInv :: "executor \<Rightarrow> nat option \<Rightarrow> Dispatch list \<Rightarrow> batch \<Rightarrow> bool" where
  "batchInv executor limit dispatches b \<longleftrightarrow>
     launchedBelow dispatches b \<and> permitsKept limit b \<and>
     (\<exists>order. recordsOf executor dispatches (bt_workers b) (bt_records b) order)"

lemma launchedBelowD:
  assumes "launchedBelow dispatches b"
  shows "length (bt_workers b) = length dispatches" "bt_next b \<le> length dispatches"
    "bt_launcher b = Checked \<Longrightarrow> bt_next b < length dispatches"
    "bt_launcher b = Acquired \<Longrightarrow> bt_next b < length dispatches"
    "\<And>i. i < length dispatches \<Longrightarrow> bt_workers b ! i = Unlaunched \<longleftrightarrow> bt_next b \<le> i"
  using assms by (auto simp: launchedBelow_def)

lemma mayLaunch_next: "launchedBelow dispatches b \<Longrightarrow> mayLaunch limit b \<Longrightarrow> bt_next b < length dispatches"
  by (auto simp: mayLaunch_def dest: launchedBelowD split: option.splits)

lemma launchedBelow_set:
  assumes "launchedBelow dispatches b" "i < length dispatches" "bt_workers b ! i \<noteq> Unlaunched" "w \<noteq> Unlaunched"
    "bt_workers b' = (bt_workers b)[i := w]" "bt_next b' = bt_next b" "bt_launcher b' = bt_launcher b"
  shows "launchedBelow dispatches b'"
proof -
  have "bt_workers b' ! k = Unlaunched \<longleftrightarrow> bt_workers b ! k = Unlaunched" if "k < length dispatches" for k
    using assms(2-5) launchedBelowD(1) [OF assms(1)] that by (cases "k = i") auto
  then show ?thesis using assms by (simp add: launchedBelow_def)
qed

lemma launchedBelow_launch:
  assumes "launchedBelow dispatches b" "bt_next b < length dispatches"
  shows "launchedBelow dispatches (launchNext b)"
  using assms by (auto simp: launchedBelow_def launchNext_def setWorker_def nth_list_update)

lemma releasePermit_simps [simp]:
  "bt_workers (releasePermit limit b) = bt_workers b" "bt_next (releasePermit limit b) = bt_next b"
  "bt_launcher (releasePermit limit b) = bt_launcher b" "bt_records (releasePermit limit b) = bt_records b"
  "bt_ctxErr (releasePermit limit b) = bt_ctxErr b" "bt_batchErr (releasePermit limit b) = bt_batchErr b"
  "bt_frames (releasePermit limit b) = bt_frames b"
  "bt_permits (releasePermit limit b) = (if limit = None then bt_permits b else bt_permits b - 1)"
  by (auto simp: releasePermit_def split: option.splits)

lemma setWorker_simps [simp]:
  "bt_workers (setWorker b i w) = (bt_workers b)[i := w]" "bt_next (setWorker b i w) = bt_next b"
  "bt_launcher (setWorker b i w) = bt_launcher b" "bt_records (setWorker b i w) = bt_records b"
  "bt_ctxErr (setWorker b i w) = bt_ctxErr b" "bt_batchErr (setWorker b i w) = bt_batchErr b"
  "bt_frames (setWorker b i w) = bt_frames b" "bt_permits (setWorker b i w) = bt_permits b"
  by (simp_all add: setWorker_def)

lemma launchNext_simps [simp]:
  "bt_workers (launchNext b) = (bt_workers b)[bt_next b := Running]" "bt_next (launchNext b) = Suc (bt_next b)"
  "bt_launcher (launchNext b) = AtHead" "bt_records (launchNext b) = bt_records b"
  "bt_ctxErr (launchNext b) = bt_ctxErr b" "bt_batchErr (launchNext b) = bt_batchErr b"
  "bt_frames (launchNext b) = bt_frames b" "bt_permits (launchNext b) = bt_permits b"
  by (simp_all add: launchNext_def)

lemma cancelBatch_simps [simp]:
  "bt_workers (cancelBatch b i) = (bt_workers b)[i := Releasing]" "bt_next (cancelBatch b i) = bt_next b"
  "bt_launcher (cancelBatch b i) = bt_launcher b" "bt_records (cancelBatch b i) = bt_records b"
  "bt_ctxErr (cancelBatch b i) = bt_ctxErr b" "bt_frames (cancelBatch b i) = bt_frames b"
  "bt_permits (cancelBatch b i) = bt_permits b" "bt_batchErr (cancelBatch b i) \<noteq> None"
  by (simp_all add: cancelBatch_def split: option.splits)

lemma returnExecutor_simps [simp]:
  "bt_workers (returnExecutor executor dispatches b i)
     = (bt_workers b)[i := if de_err (executionOf executor (dispatches ! i) (bt_batchErr b)) = None then Releasing else Failing]"
  "bt_next (returnExecutor executor dispatches b i) = bt_next b"
  "bt_launcher (returnExecutor executor dispatches b i) = bt_launcher b"
  "bt_records (returnExecutor executor dispatches b i)
     = bt_records b @ [executionOf executor (dispatches ! i) (bt_batchErr b)]"
  "bt_ctxErr (returnExecutor executor dispatches b i) = bt_ctxErr b"
  "bt_batchErr (returnExecutor executor dispatches b i) = bt_batchErr b"
  "bt_frames (returnExecutor executor dispatches b i) = bt_frames b"
  "bt_permits (returnExecutor executor dispatches b i) = bt_permits b"
  by (simp_all add: returnExecutor_def Let_def)

lemma launchedBelow_step:
  assumes "batchStep executor sink limit dispatches b b'" and inv: "launchedBelow dispatches b"
  shows "launchedBelow dispatches b'"
  using assms(1)
proof cases
  case launch
  then show ?thesis using launchedBelow_launch [OF inv mayLaunch_next [OF inv]] by simp
next
  case (return i)
  show ?thesis by (rule launchedBelow_set [OF inv return(2)]) (use return in auto)
next
  case (cancel i)
  show ?thesis by (rule launchedBelow_set [OF inv cancel(2), of Releasing]) (use cancel in auto)
next
  case (release i)
  show ?thesis by (rule launchedBelow_set [OF inv release(2), of Ended]) (use release in auto)
qed (use inv in \<open>auto simp: launchedBelow_def\<close>)

lemma permitsKept_step:
  assumes "batchStep executor sink limit dispatches b b'" and inv: "launchedBelow dispatches b" "permitsKept limit b"
  shows "permitsKept limit b'"
proof (cases limit)
  case (Some n)
  have upd: "length (filter holding ((bt_workers b)[i := w])) + (if holding (bt_workers b ! i) then 1 else 0)
      = length (filter holding (bt_workers b)) + (if holding w then 1 else 0)" if "i < length dispatches" for i w
    using length_filter_update [of i "bt_workers b" holding w] that launchedBelowD(1) [OF inv(1)] by simp
  show ?thesis using assms(1)
  proof cases
    case launch
    note nxt = mayLaunch_next [OF inv(1) launch(2)]
    then have "bt_workers b ! bt_next b = Unlaunched" using launchedBelowD(5) [OF inv(1) nxt] by simp
    then show ?thesis using upd [OF nxt, of Running] inv(2) launch Some by (simp add: permitsKept_def mayLaunch_def)
  next
    case (return i)
    then show ?thesis using upd [OF return(2), of Releasing] upd [OF return(2), of Failing] inv(2) Some
      by (simp add: permitsKept_def)
  next
    case (cancel i)
    then show ?thesis using upd [OF cancel(2), of Releasing] inv(2) Some by (simp add: permitsKept_def)
  next
    case (release i)
    then show ?thesis using upd [OF release(2), of Ended] inv(2) Some by (auto simp: permitsKept_def)
  qed (use inv(2) Some in \<open>auto simp: permitsKept_def\<close>)
qed (simp add: permitsKept_def)

lemma recordsOf_same:
  assumes "recordsOf executor dispatches workers records order" "length workers' = length workers"
    "\<And>i. i < length workers \<Longrightarrow> hasRecorded (workers' ! i) = hasRecorded (workers ! i)"
  shows "recordsOf executor dispatches workers' records order"
  using assms unfolding recordsOf_def by auto

lemma recordsOf_update:
  assumes "recordsOf executor dispatches workers records order" "hasRecorded w = hasRecorded (workers ! i)"
  shows "recordsOf executor dispatches (workers[i := w]) records order"
proof (rule recordsOf_same [OF assms(1)])
  show "hasRecorded (workers[i := w] ! k) = hasRecorded (workers ! k)" if "k < length workers" for k
    using assms(2) that by (cases "k = i") auto
qed simp

lemma recordsOf_return:
  assumes "recordsOf executor dispatches workers records order" "i < length workers" "\<not> hasRecorded (workers ! i)" "hasRecorded w"
  shows "recordsOf executor dispatches (workers[i := w]) (records @ [executionOf executor (dispatches ! i) c]) (order @ [i])"
proof -
  have "hasRecorded (workers[i := w] ! k) \<longleftrightarrow> hasRecorded (workers ! k) \<or> k = i" if "k < length workers" for k
    using assms(2,4) that by (cases "k = i") auto
  then have "{k. k < length (workers[i := w]) \<and> hasRecorded (workers[i := w] ! k)}
      = insert i {k. k < length workers \<and> hasRecorded (workers ! k)}"
    using assms(2) by auto
  then show ?thesis using assms(1,3) unfolding recordsOf_def by (auto intro: list_all2_appendI)
qed

lemma recordsOf_step:
  assumes "batchStep executor sink limit dispatches b b'" and inv: "launchedBelow dispatches b"
    and rec: "recordsOf executor dispatches (bt_workers b) (bt_records b) order"
  shows "\<exists>order. recordsOf executor dispatches (bt_workers b') (bt_records b') order"
  using assms(1)
proof cases
  case launch
  note nxt = mayLaunch_next [OF inv launch(2)]
  then have "bt_workers b ! bt_next b = Unlaunched" using launchedBelowD(5) [OF inv nxt] by simp
  then show ?thesis using recordsOf_update [OF rec, of Running "bt_next b"] launch(1) by auto
next
  case (return i)
  then have "recordsOf executor dispatches (bt_workers b') (bt_records b') (order @ [i])"
    using launchedBelowD(1) [OF inv] unfolding return(1) returnExecutor_simps by (intro recordsOf_return [OF rec]) auto
  then show ?thesis ..
next
  case (cancel i)
  then show ?thesis using recordsOf_update [OF rec, of Releasing i] by auto
next
  case (release i)
  then show ?thesis using recordsOf_update [OF rec, of Ended i] by auto
qed (use rec in auto)

lemma batchRun_inv: "batchRun executor sink limit dispatches b \<Longrightarrow> batchInv executor limit dispatches b"
proof (induction rule: batchRun.induct)
  case start
  show ?case by (auto simp: batchInv_def launchedBelow_def permitsKept_def recordsOf_def startBatch_def split: option.splits)
next
  case (step b b')
  then show ?case unfolding batchInv_def
    using launchedBelow_step permitsKept_step recordsOf_step by metis
qed

section \<open>The records of a finished batch\<close>

lemma executionOf_dispatch [simp]: "de_dispatch (executionOf executor dispatch c) = dispatch"
  by (simp add: executionOf_def split: prod.splits)

lemma recordsOf_dispatches:
  assumes "recordsOf executor dispatches workers records order"
  shows "map de_dispatch records = map (nth dispatches) order"
  using assms unfolding recordsOf_def by (auto simp: list_all2_conv_all_nth intro!: nth_equalityI)

lemma batchRun_records:
  assumes "batchRun executor sink limit dispatches b" "distinct (map d_ID dispatches)"
  shows "set (map de_dispatch (bt_records b)) \<subseteq> set dispatches" "distinct (map (d_ID \<circ> de_dispatch) (bt_records b))"
proof -
  obtain order where launched: "launchedBelow dispatches b"
    and rec: "recordsOf executor dispatches (bt_workers b) (bt_records b) order"
    using batchRun_inv [OF assms(1)] by (auto simp: batchInv_def)
  have order: "distinct order" "set order \<subseteq> {..<length dispatches}"
    using rec launchedBelowD(1) [OF launched] by (auto simp: recordsOf_def)
  note eq = recordsOf_dispatches [OF rec]
  show "set (map de_dispatch (bt_records b)) \<subseteq> set dispatches" unfolding eq using order(2) by auto
  have "map (d_ID \<circ> de_dispatch) (bt_records b) = map d_ID (map de_dispatch (bt_records b))" by simp
  also have "\<dots> = map (nth (map d_ID dispatches)) order" unfolding eq using order(2) by auto
  finally show "distinct (map (d_ID \<circ> de_dispatch) (bt_records b))"
    using order inj_on_nth [OF assms(2), of "set order"] by (auto simp: distinct_map [of _ order])
qed

section \<open>Clean batches\<close>

definition undisturbed :: "executor \<Rightarrow> Dispatch \<Rightarrow> dispatchExecution" where
  "undisturbed executor dispatch = executionOf executor dispatch None"

lemma undisturbed_dispatch [simp]: "de_dispatch (undisturbed executor dispatch) = dispatch"
  by (simp add: undisturbed_def)

definition cleanInv :: "executor \<Rightarrow> Dispatch list \<Rightarrow> batch \<Rightarrow> bool" where
  "cleanInv executor dispatches b \<longleftrightarrow>
     (bt_ctxErr b = None \<and> (\<forall>r \<in> set (bt_records b). de_err r = None) \<longrightarrow>
        bt_batchErr b = None \<and> bt_launcher b \<noteq> Left \<and> (\<forall>i < length dispatches. bt_workers b ! i \<noteq> Failing) \<and>
        (\<forall>r \<in> set (bt_records b). r = undisturbed executor (de_dispatch r)))"

text \<open>As long as nobody cancels and no dispatch fails, every executor sees an undisturbed context.\<close>

lemma batchRun_clean: "batchRun executor sink limit dispatches b \<Longrightarrow> cleanInv executor dispatches b"
proof (induction rule: batchRun.induct)
  case start
  show ?case by (simp add: cleanInv_def startBatch_def)
next
  case (step b b')
  have len: "length (bt_workers b) = length dispatches"
    using batchRun_inv [OF step(1)] by (simp add: batchInv_def launchedBelow_def)
  from step(2) show ?case
  proof cases
    case launch
    have "bt_workers b' ! i \<noteq> Failing" if "bt_workers b ! i \<noteq> Failing" "i < length dispatches" for i
      using that len launch(1) by (cases "bt_next b = i") auto
    then show ?thesis using step.IH launch(1) by (auto simp: cleanInv_def)
  next
    case (return i)
    then show ?thesis using step.IH len
      by (auto simp: cleanInv_def undisturbed_def nth_list_update split: if_splits)
  qed (use step.IH len in \<open>auto simp: cleanInv_def nth_list_update\<close>)
qed

lemma clean_records:
  assumes run: "batchRun executor sink limit dispatches b" and fin: "batchFinished b" and ctx: "bt_ctxErr b = None"
    and ok: "\<forall>r \<in> set (bt_records b). de_err r = None"
  shows "mset (bt_records b) = mset (map (undisturbed executor) dispatches)"
proof -
  obtain order where launched: "launchedBelow dispatches b"
    and rec: "recordsOf executor dispatches (bt_workers b) (bt_records b) order"
    using batchRun_inv [OF run] by (auto simp: batchInv_def)
  note clean = batchRun_clean [OF run, unfolded cleanInv_def, THEN mp, OF conjI, OF ctx ok]
  have len: "length (bt_workers b) = length dispatches" by (rule launchedBelowD(1) [OF launched])
  have nxt: "bt_next b = length dispatches" using fin clean len by (simp add: batchFinished_def)
  have "hasRecorded (bt_workers b ! i)" if "i < length dispatches" for i
    using fin launchedBelowD(5) [OF launched that] that len nxt
    by (auto simp: batchFinished_def list_all_length idle_def)
  then have "set order = set [0..<length dispatches]" using rec len by (auto simp: recordsOf_def)
  moreover have "distinct order" using rec by (simp add: recordsOf_def)
  ultimately have order: "mset order = mset [0..<length dispatches]"
    by (metis distinct_upt set_eq_iff_mset_eq_distinct)
  have "bt_records b = map (undisturbed executor) (map de_dispatch (bt_records b))"
    using clean by (auto intro!: nth_equalityI)
  then have "mset (bt_records b) = image_mset (undisturbed executor \<circ> nth dispatches) (mset order)"
    using recordsOf_dispatches [OF rec] by (metis map_map mset_map)
  also have "\<dots> = mset (map (undisturbed executor) (map (nth dispatches) [0..<length dispatches]))"
    by (simp add: order multiset.map_comp del: mset_upt)
  finally show ?thesis by (simp add: map_nth)
qed

lemma collectBatch_mset:
  assumes "mset records = mset records'" "distinct (map (d_ID \<circ> de_dispatch) records)"
  shows "collectBatch state records c = collectBatch state records' c"
proof -
  have inj: "inj_on (d_ID \<circ> de_dispatch) (set records)" using assms(2) by (simp add: distinct_map)
  have filters: "mset (filter P records) = mset (filter P records')" for P using assms(1) by simp
  have "sort_key (d_ID \<circ> oc_Dispatch) (map (successOf t) (filter (\<lambda>r. de_err r = None) records))
      = sort_key (d_ID \<circ> oc_Dispatch) (map (successOf t) (filter (\<lambda>r. de_err r = None) records'))" for t
    using filters inj by (intro sort_key_mset_eq) (auto simp: inj_on_def successOf_def)
  moreover have "sort_key (d_ID \<circ> de_dispatch) (filter (\<lambda>r. de_err r \<noteq> None) records)
      = sort_key (d_ID \<circ> de_dispatch) (filter (\<lambda>r. de_err r \<noteq> None) records')"
    using filters inj by (intro sort_key_mset_eq) (auto simp: inj_on_def)
  ultimately show ?thesis by (simp add: collectBatch_def)
qed

lemma collectBatch_None: "snd (collectBatch state records c) = None \<longleftrightarrow> c = None \<and> (\<forall>r \<in> set records. de_err r = None)"
proof -
  have "sort_key f xs = [] \<longleftrightarrow> xs = []" for f :: "dispatchExecution \<Rightarrow> string" and xs
    by (metis length_0_conv length_sort)
  then show ?thesis by (auto simp: collectBatch_def Let_def filter_empty_conv)
qed

lemma clean_batch:
  assumes "executeBatch executor sink limit state dispatches outcome" "snd outcome = None" "distinct (map d_ID dispatches)"
  shows "outcome = collectBatch state (map (undisturbed executor) dispatches) None"
proof -
  obtain b where b: "outcome = collectBatch state (bt_records b) (bt_ctxErr b)"
    "batchRun executor sink limit dispatches b" "batchFinished b" using assms(1) by (rule executeBatchE)
  have ok: "bt_ctxErr b = None" "\<forall>r \<in> set (bt_records b). de_err r = None"
    using assms(2) unfolding b(1) collectBatch_None by auto
  show ?thesis unfolding b(1) ok(1)
    by (rule collectBatch_mset [OF clean_records [OF b(2,3) ok] batchRun_records(2) [OF b(2) assms(3)]])
qed

section \<open>Batches with one permit\<close>

text \<open>One dispatch after the other, up to the first that fails.\<close>

fun oneAtATime :: "executor \<Rightarrow> Dispatch list \<Rightarrow> dispatchExecution list" where
  "oneAtATime executor [] = []"
| "oneAtATime executor (dispatch # dispatches) =
     undisturbed executor dispatch
       # (if de_err (undisturbed executor dispatch) = None then oneAtATime executor dispatches else [])"

lemma oneAtATime_prefix:
  assumes "n \<le> length dispatches" "\<And>i. Suc i < n \<Longrightarrow> de_err (undisturbed executor (dispatches ! i)) = None"
    "n = length dispatches \<or> 0 < n \<and> de_err (undisturbed executor (dispatches ! (n - 1))) \<noteq> None"
  shows "oneAtATime executor dispatches = map (undisturbed executor) (take n dispatches)"
  using assms
proof (induction dispatches arbitrary: n)
  case (Cons dispatch dispatches)
  then obtain m where n: "n = Suc m" by (cases n) auto
  show ?case
  proof (cases m)
    case 0
    then show ?thesis using Cons.prems n by auto
  next
    case (Suc k)
    have "de_err (undisturbed executor dispatch) = None" using Cons.prems(2) [of 0] n Suc by simp
    moreover have "oneAtATime executor dispatches = map (undisturbed executor) (take m dispatches)"
    proof (rule Cons.IH)
      show "de_err (undisturbed executor (dispatches ! i)) = None" if "Suc i < m" for i
        using Cons.prems(2) [of "Suc i"] that n by simp
    qed (use Cons.prems n Suc in auto)
    ultimately show ?thesis using n by simp
  qed
qed simp

text \<open>Where the last launched goroutine is, and what has been recorded by then.\<close>

definition serialLast :: "executor \<Rightarrow> Dispatch list \<Rightarrow> batch \<Rightarrow> bool" where
  "serialLast executor dispatches b \<longleftrightarrow>
     (let n = bt_next b; failed = de_err (undisturbed executor (dispatches ! (n - 1))) \<noteq> None
      in if n = 0 then bt_records b = [] \<and> bt_batchErr b = None
         else case bt_workers b ! (n - 1) of
             Unlaunched \<Rightarrow> False
           | Running \<Rightarrow> bt_records b = map (undisturbed executor) (take (n - 1) dispatches) \<and> bt_batchErr b = None
           | Failing \<Rightarrow> bt_records b = map (undisturbed executor) (take n dispatches) \<and> bt_batchErr b = None \<and> failed
           | _ \<Rightarrow> bt_records b = map (undisturbed executor) (take n dispatches) \<and> (bt_batchErr b \<noteq> None \<longleftrightarrow> failed))"

definition serialInv :: "executor \<Rightarrow> Dispatch list \<Rightarrow> batch \<Rightarrow> bool" where
  "serialInv executor dispatches b \<longleftrightarrow>
     (bt_ctxErr b = None \<longrightarrow>
        (\<forall>i. Suc i < bt_next b \<longrightarrow> bt_workers b ! i = Ended \<and> de_err (undisturbed executor (dispatches ! i)) = None) \<and>
        serialLast executor dispatches b \<and> (bt_launcher b = Left \<longrightarrow> bt_batchErr b \<noteq> None))"

lemma serialLast_update [simp]:
  "serialLast executor dispatches (b\<lparr>bt_launcher := l\<rparr>) = serialLast executor dispatches b"
  "serialLast executor dispatches (b\<lparr>bt_permits := p\<rparr>) = serialLast executor dispatches b"
  "serialLast executor dispatches (b\<lparr>bt_frames := fs\<rparr>) = serialLast executor dispatches b"
  "serialLast executor dispatches (releasePermit limit b) = serialLast executor dispatches b"
  by (simp_all add: serialLast_def Let_def split: worker.splits)

lemma serial_only_last:
  assumes "serialInv executor dispatches b" "launchedBelow dispatches b" "bt_ctxErr b = None"
    "i < length dispatches" "bt_workers b ! i \<noteq> Ended" "bt_workers b ! i \<noteq> Unlaunched"
  shows "bt_next b = Suc i"
proof -
  have "i < bt_next b" using assms(2,4,6) launchedBelowD(5) by fastforce
  moreover have "\<not> Suc i < bt_next b" using assms(1,3,5) by (auto simp: serialInv_def)
  ultimately show ?thesis by simp
qed

lemma no_holders:
  assumes "permitsKept (Some 1) b" "bt_launcher b = Acquired" "w \<in> set (bt_workers b)"
  shows "\<not> holding w"
proof -
  have "length (filter holding (bt_workers b)) = 0" using assms(1,2) unfolding permitsKept_def by auto
  then show ?thesis using assms(3) by (simp add: filter_empty_conv)
qed

lemma serial_launch:
  assumes inv: "serialInv executor dispatches b" and launched: "launchedBelow dispatches b"
    and permits: "permitsKept (Some 1) b" and may: "mayLaunch (Some 1) b"
  shows "serialInv executor dispatches (launchNext b)"
  unfolding serialInv_def
proof (intro impI)
  assume ctx: "bt_ctxErr (launchNext b) = None"
  define n where "n = bt_next b"
  note len = launchedBelowD(1) [OF launched]
  have nxt: "n < length dispatches" unfolding n_def by (rule mayLaunch_next [OF launched may])
  have acq: "bt_launcher b = Acquired" "bt_batchErr b = None" using may by (auto simp: mayLaunch_def)
  have before: "\<forall>i. Suc i < n \<longrightarrow> bt_workers b ! i = Ended \<and> de_err (undisturbed executor (dispatches ! i)) = None"
    and last: "serialLast executor dispatches b" using inv ctx by (auto simp: serialInv_def n_def)
  have ended: "bt_workers b ! (n - 1) = Ended" if "0 < n"
  proof -
    have "bt_workers b ! (n - 1) \<in> set (bt_workers b)" using that nxt len by auto
    then have "\<not> holding (bt_workers b ! (n - 1))" by (rule no_holders [OF permits acq(1)])
    moreover have "bt_workers b ! (n - 1) \<noteq> Unlaunched"
      using launchedBelowD(5) [OF launched, of "n - 1"] that nxt by (simp add: n_def)
    ultimately show ?thesis by (cases "bt_workers b ! (n - 1)") auto
  qed
  have records: "bt_records b = map (undisturbed executor) (take n dispatches)"
    and ok: "0 < n \<Longrightarrow> de_err (undisturbed executor (dispatches ! (n - 1))) = None"
    using last ended acq(2) by (auto simp: serialLast_def n_def Let_def split: if_splits)
  have "bt_workers (launchNext b) ! i = Ended \<and> de_err (undisturbed executor (dispatches ! i)) = None" if "i < n" for i
  proof (cases "Suc i < n")
    case False
    then have "i = n - 1" using that by simp
    then show ?thesis using ended ok that by (simp flip: n_def)
  qed (use before in \<open>simp flip: n_def\<close>)
  moreover have "serialLast executor dispatches (launchNext b)"
    using nxt len records acq(2) by (simp add: serialLast_def flip: n_def)
  ultimately show "(\<forall>i. Suc i < bt_next (launchNext b) \<longrightarrow> bt_workers (launchNext b) ! i = Ended
        \<and> de_err (undisturbed executor (dispatches ! i)) = None)
      \<and> serialLast executor dispatches (launchNext b) \<and> (bt_launcher (launchNext b) = Left \<longrightarrow> bt_batchErr (launchNext b) \<noteq> None)"
    by (simp add: n_def)
qed

lemma serial_worker:
  assumes inv: "serialInv executor dispatches b" and launched: "launchedBelow dispatches b"
    and i: "i < length dispatches" "bt_workers b ! i \<noteq> Ended" "bt_workers b ! i \<noteq> Unlaunched"
    and b': "bt_workers b' = (bt_workers b)[i := w]" "bt_next b' = bt_next b" "bt_ctxErr b' = bt_ctxErr b"
      "bt_launcher b' = bt_launcher b" "bt_batchErr b \<noteq> None \<Longrightarrow> bt_batchErr b' \<noteq> None"
    and last: "bt_ctxErr b = None \<Longrightarrow> bt_next b = Suc i \<Longrightarrow> serialLast executor dispatches b \<Longrightarrow> serialLast executor dispatches b'"
  shows "serialInv executor dispatches b'"
  unfolding serialInv_def b'(2,3,4)
proof (intro impI)
  assume ctx: "bt_ctxErr b = None"
  note n = serial_only_last [OF inv launched ctx i]
  show "(\<forall>k. Suc k < bt_next b \<longrightarrow> bt_workers b' ! k = Ended \<and> de_err (undisturbed executor (dispatches ! k)) = None)
      \<and> serialLast executor dispatches b' \<and> (bt_launcher b = Left \<longrightarrow> bt_batchErr b' \<noteq> None)"
    using inv ctx last [OF ctx n] n b'(1,5) by (auto simp: serialInv_def)
qed

lemma batchRun_serial: "batchRun executor sink (Some 1) dispatches b \<Longrightarrow> serialInv executor dispatches b"
proof (induction rule: batchRun.induct)
  case start
  show ?case by (simp add: serialInv_def serialLast_def startBatch_def)
next
  case (step b b')
  have launched: "launchedBelow dispatches b" and permits: "permitsKept (Some 1) b"
    using batchRun_inv [OF step(1)] by (auto simp: batchInv_def)
  note len = launchedBelowD(1) [OF launched]
  from step(2) show ?case
  proof cases
    case launch
    then show ?thesis using serial_launch [OF step.IH launched permits] by simp
  next
    case (return i)
    show ?thesis
    proof (rule serial_worker [OF step.IH launched return(2)])
      show "serialLast executor dispatches b'" if "bt_next b = Suc i" "serialLast executor dispatches b"
        using that return len by (auto simp: serialLast_def Let_def undisturbed_def take_Suc_conv_app_nth)
    qed (use return in auto)
  next
    case (cancel i)
    show ?thesis
    proof (rule serial_worker [OF step.IH launched cancel(2)])
      show "serialLast executor dispatches b'" if "bt_next b = Suc i" "serialLast executor dispatches b"
        using that cancel len by (auto simp: serialLast_def Let_def)
    qed (use cancel in auto)
  next
    case (release i)
    show ?thesis
    proof (rule serial_worker [OF step.IH launched release(2)])
      show "serialLast executor dispatches b'" if "bt_next b = Suc i" "serialLast executor dispatches b"
        using that release len by (auto simp: serialLast_def Let_def)
    qed (use release in auto)
  qed (use step.IH in \<open>auto simp: serialInv_def\<close>)
qed

lemma serial_records:
  assumes run: "batchRun executor sink (Some 1) dispatches b" and fin: "batchFinished b" and ctx: "bt_ctxErr b = None"
  shows "bt_records b = oneAtATime executor dispatches"
proof -
  define n where "n = bt_next b"
  have launched: "launchedBelow dispatches b" using batchRun_inv [OF run] by (simp add: batchInv_def)
  note len = launchedBelowD(1) [OF launched]
  have serial: "\<And>i. Suc i < n \<Longrightarrow> de_err (undisturbed executor (dispatches ! i)) = None"
    "serialLast executor dispatches b" "bt_launcher b = Left \<Longrightarrow> bt_batchErr b \<noteq> None"
    using batchRun_serial [OF run] ctx by (auto simp: serialInv_def n_def)
  have bound: "n \<le> length dispatches" unfolding n_def by (rule launchedBelowD(2) [OF launched])
  have ended: "bt_workers b ! (n - 1) = Ended" if "0 < n"
  proof -
    have "n - 1 < length dispatches" using that bound by simp
    moreover from this have "bt_workers b ! (n - 1) \<noteq> Unlaunched"
      using launchedBelowD(5) [OF launched] that by (simp add: n_def)
    ultimately show ?thesis using fin len by (auto simp: batchFinished_def list_all_length idle_def)
  qed
  have records: "bt_records b = map (undisturbed executor) (take n dispatches)"
    and failed: "bt_batchErr b \<noteq> None \<longleftrightarrow> 0 < n \<and> de_err (undisturbed executor (dispatches ! (n - 1))) \<noteq> None"
    using serial(2) ended by (auto simp: serialLast_def n_def Let_def split: if_splits)
  have "n = length dispatches \<or> 0 < n \<and> de_err (undisturbed executor (dispatches ! (n - 1))) \<noteq> None"
    using fin serial(3) failed len by (auto simp: batchFinished_def n_def)
  then show ?thesis using oneAtATime_prefix [OF bound serial(1)] records by simp
qed

section \<open>Every batch can finish\<close>

text \<open>The batch between two dispatches of a serial run, after \<open>k\<close> of them have succeeded.\<close>

definition serialAt :: "executor \<Rightarrow> Dispatch list \<Rightarrow> nat \<Rightarrow> batch" where
  "serialAt executor dispatches k =
     \<lparr>bt_workers = replicate k Ended @ replicate (length dispatches - k) Unlaunched, bt_next = k,
      bt_launcher = AtHead, bt_permits = 0, bt_records = map (undisturbed executor) (take k dispatches),
      bt_ctxErr = None, bt_batchErr = None, bt_frames = []\<rparr>"

definition serialGot :: "executor \<Rightarrow> nat option \<Rightarrow> Dispatch list \<Rightarrow> nat \<Rightarrow> worker \<Rightarrow> goError option \<Rightarrow> batch" where
  "serialGot executor limit dispatches k w err =
     \<lparr>bt_workers = replicate k Ended @ w # replicate (length dispatches - Suc k) Unlaunched, bt_next = Suc k,
      bt_launcher = AtHead, bt_permits = (if limit = None \<or> w = Ended then 0 else 1),
      bt_records = map (undisturbed executor) (take (if w = Running then k else Suc k) dispatches),
      bt_ctxErr = None, bt_batchErr = err, bt_frames = []\<rparr>"

lemma replicate_update [simp]:
  "k < n \<Longrightarrow> (replicate k x @ replicate (n - k) y)[k := z] = replicate k x @ z # replicate (n - Suc k) y"
  by (simp add: list_update_append Suc_diff_Suc [symmetric])

lemma serialGot_update [simp]:
  "(replicate k x @ y # ys)[k := z] = replicate k x @ z # ys" "(replicate k x @ y # ys) ! k = y"
  by (simp_all add: list_update_append nth_append)

lemma serial_run_launch:
  assumes "batchRun executor sink limit dispatches (serialAt executor dispatches k)" "k < length dispatches" "limit \<noteq> Some 0"
  shows "batchRun executor sink limit dispatches (serialGot executor limit dispatches k Running None)"
proof -
  let ?b = "serialAt executor dispatches k"
  have "batchStep executor sink limit dispatches ?b (?b\<lparr>bt_launcher := Checked\<rparr>)"
    by (rule batchStep.check) (use assms(2) in \<open>simp_all add: serialAt_def\<close>)
  note checked = batchRun.step [OF assms(1) this]
  show ?thesis
  proof (cases limit)
    case None
    have "batchStep executor sink limit dispatches (?b\<lparr>bt_launcher := Checked\<rparr>) (launchNext (?b\<lparr>bt_launcher := Checked\<rparr>))"
      by (rule batchStep.launch) (simp add: mayLaunch_def None)
    from batchRun.step [OF checked this] show ?thesis
      using assms(2) by (simp add: launchNext_def setWorker_def serialAt_def serialGot_def None)
  next
    case (Some n)
    let ?c = "?b\<lparr>bt_launcher := Acquired, bt_permits := Suc 0\<rparr>"
    have "batchStep executor sink limit dispatches (?b\<lparr>bt_launcher := Checked\<rparr>) ?c"
      using batchStep.acquire [of "?b\<lparr>bt_launcher := Checked\<rparr>" limit n] assms(3) Some by (simp add: serialAt_def)
    note acquired = batchRun.step [OF checked this]
    have "batchStep executor sink limit dispatches ?c (launchNext ?c)"
      by (rule batchStep.launch) (simp add: mayLaunch_def Some serialAt_def)
    from batchRun.step [OF acquired this] show ?thesis
      using assms(2) by (simp add: launchNext_def setWorker_def serialAt_def serialGot_def Some)
  qed
qed

lemma serial_run_release:
  assumes "batchRun executor sink limit dispatches (serialGot executor limit dispatches k Releasing err)" "k < length dispatches"
  shows "batchRun executor sink limit dispatches (serialGot executor limit dispatches k Ended err)"
proof -
  let ?b = "serialGot executor limit dispatches k Releasing err"
  have "batchStep executor sink limit dispatches ?b (releasePermit limit (setWorker ?b k Ended))"
    by (rule batchStep.release) (use assms(2) in \<open>simp_all add: serialGot_def\<close>)
  from batchRun.step [OF assms(1) this] show ?thesis
    by (simp add: releasePermit_def setWorker_def serialGot_def split: option.splits)
qed

lemma serial_run_return:
  assumes "batchRun executor sink limit dispatches (serialAt executor dispatches k)" "k < length dispatches" "limit \<noteq> Some 0"
  shows "batchRun executor sink limit dispatches
    (serialGot executor limit dispatches k Ended
       (if de_err (undisturbed executor (dispatches ! k)) = None then None else Some ContextCanceled))"
proof -
  let ?b = "serialGot executor limit dispatches k Running None"
  have "batchStep executor sink limit dispatches ?b (returnExecutor executor dispatches ?b k)"
    by (rule batchStep.return) (use assms(2) in \<open>simp_all add: serialGot_def\<close>)
  note returned = batchRun.step [OF serial_run_launch [OF assms] this]
  show ?thesis
  proof (cases "de_err (undisturbed executor (dispatches ! k)) = None")
    case True
    then have "returnExecutor executor dispatches ?b k = serialGot executor limit dispatches k Releasing None"
      using assms(2) by (simp add: returnExecutor_def setWorker_def serialGot_def undisturbed_def take_Suc_conv_app_nth)
    then show ?thesis using serial_run_release [OF _ assms(2)] returned True by simp
  next
    case False
    let ?c = "serialGot executor limit dispatches k Failing None"
    have "returnExecutor executor dispatches ?b k = ?c"
      using assms(2) False by (auto simp: returnExecutor_def Let_def setWorker_def serialGot_def undisturbed_def take_Suc_conv_app_nth)
    then have run: "batchRun executor sink limit dispatches ?c" using returned by simp
    have "batchStep executor sink limit dispatches ?c (cancelBatch ?c k)"
      by (rule batchStep.cancel) (use assms(2) in \<open>simp_all add: serialGot_def\<close>)
    moreover have "cancelBatch ?c k = serialGot executor limit dispatches k Releasing (Some ContextCanceled)"
      by (simp add: cancelBatch_def setWorker_def serialGot_def)
    ultimately have "batchRun executor sink limit dispatches
        (serialGot executor limit dispatches k Releasing (Some ContextCanceled))"
      using batchRun.step [OF run] by simp
    from serial_run_release [OF this assms(2)] show ?thesis using False by auto
  qed
qed

lemma serial_run_finish:
  assumes "batchRun executor sink limit dispatches (serialGot executor limit dispatches k Ended (Some err))" "k < length dispatches"
  shows "\<exists>b. batchRun executor sink limit dispatches b \<and> batchFinished b \<and> bt_ctxErr b = None
    \<and> bt_records b = map (undisturbed executor) (take (Suc k) dispatches)"
proof (cases "Suc k = length dispatches")
  case True
  then show ?thesis using assms(1)
    by (intro exI [of _ "serialGot executor limit dispatches k Ended (Some err)"])
      (simp add: batchFinished_def serialGot_def list_all_iff)
next
  case False
  let ?b = "serialGot executor limit dispatches k Ended (Some err)"
  have "batchStep executor sink limit dispatches ?b (?b\<lparr>bt_launcher := Left\<rparr>)"
    by (rule batchStep.leave_head) (use assms(2) False in \<open>simp_all add: serialGot_def\<close>)
  from batchRun.step [OF assms(1) this] show ?thesis
    by (intro exI [of _ "?b\<lparr>bt_launcher := Left\<rparr>"]) (auto simp: batchFinished_def serialGot_def list_all_iff)
qed

lemma serial_run:
  assumes "batchRun executor sink limit dispatches (serialAt executor dispatches k)" "k \<le> length dispatches" "limit \<noteq> Some 0"
  shows "\<exists>b. batchRun executor sink limit dispatches b \<and> batchFinished b \<and> bt_ctxErr b = None
    \<and> bt_records b = map (undisturbed executor) (take k dispatches) @ oneAtATime executor (drop k dispatches)"
  using assms
proof (induction "length dispatches - k" arbitrary: k)
  case 0
  then show ?case
    by (intro exI [of _ "serialAt executor dispatches k"]) (simp add: batchFinished_def serialAt_def list_all_iff)
next
  case (Suc m)
  then have k: "k < length dispatches" by simp
  note drops = Cons_nth_drop_Suc [OF k, symmetric]
  note got = serial_run_return [OF Suc.prems(1) k Suc.prems(3)]
  show ?case
  proof (cases "de_err (undisturbed executor (dispatches ! k)) = None")
    case True
    have "serialGot executor limit dispatches k Ended None = serialAt executor dispatches (Suc k)"
      by (simp add: serialGot_def serialAt_def replicate_append_same [symmetric])
    then have "batchRun executor sink limit dispatches (serialAt executor dispatches (Suc k))" using got True by simp
    from Suc.hyps(1) [OF _ this] Suc.hyps(2) k Suc.prems(3) show ?thesis
      using True by (simp add: drops take_Suc_conv_app_nth)
  next
    case False
    then have "batchRun executor sink limit dispatches
        (serialGot executor limit dispatches k Ended (Some ContextCanceled))" using got by auto
    from serial_run_finish [OF this k] show ?thesis using False k by (auto simp: drops take_Suc_conv_app_nth)
  qed
qed

lemma executeBatch_serial:
  assumes "limit \<noteq> Some 0"
  shows "executeBatch executor sink limit state dispatches (collectBatch state (oneAtATime executor dispatches) None)"
proof -
  have "serialAt executor dispatches 0 = startBatch (length dispatches)" by (simp add: serialAt_def startBatch_def)
  then have "batchRun executor sink limit dispatches (serialAt executor dispatches 0)" by (simp add: batchRun.start)
  from serial_run [OF this _ assms] obtain b where "batchRun executor sink limit dispatches b" "batchFinished b"
    "bt_ctxErr b = None" "bt_records b = oneAtATime executor dispatches" by auto
  then show ?thesis using executeBatch.executed [of executor sink limit dispatches b state] by simp
qed

section \<open>Valid states\<close>

definition wellFormed :: "(bytes \<Rightarrow> bool) \<Rightarrow> State \<Rightarrow> bool" where
  "wellFormed jsonValid state \<longleftrightarrow>
     0 \<le> st_Tick state \<and> distinct (outcomeIDs state) \<and> sorted_wrt outcomeLess (st_Outcomes state) \<and>
     (\<forall>outcome \<in> set (st_Outcomes state). 1 \<le> oc_Tick outcome \<and> oc_Tick outcome \<le> st_Tick state
        \<and> ValidateDispatch jsonValid (oc_Dispatch outcome) = None)"

lemma outcomeLess_key: "outcomeLess left right \<longleftrightarrow> outcomeKey left < outcomeKey right"
  by (auto simp: outcomeLess_def outcomeKey_def less_prod_def)

lemma outcomeLess_transp: "transp outcomeLess"
  by (auto simp: transp_def outcomeLess_key)

lemma validateOutcomes_None:
  "validateOutcomes jsonValid tick index previous seen outcomes = None \<longleftrightarrow>
     (\<forall>outcome \<in> set outcomes. 1 \<le> oc_Tick outcome \<and> oc_Tick outcome \<le> tick
        \<and> ValidateDispatch jsonValid (oc_Dispatch outcome) = None) \<and>
     distinct (map (d_ID \<circ> oc_Dispatch) outcomes) \<and> set (map (d_ID \<circ> oc_Dispatch) outcomes) \<inter> set seen = {} \<and>
     sorted_wrt outcomeLess (case previous of None \<Rightarrow> outcomes | Some before \<Rightarrow> before # outcomes)"
proof (induction outcomes arbitrary: index previous seen)
  case (Cons outcome outcomes)
  have chain: "sorted_wrt outcomeLess (before # outcome # outcomes) \<longleftrightarrow>
      outcomeLess before outcome \<and> sorted_wrt outcomeLess (outcome # outcomes)" for before
    using outcomeLess_transp by (auto dest: transpD)
  show ?case using chain by (cases previous) (auto simp: Cons.IH Let_def simp del: sorted_wrt.simps split: option.splits)
qed (auto split: option.splits)

lemma validateInitialState_wellFormed: "validateInitialState jsonValid state = None \<longleftrightarrow> wellFormed jsonValid state"
  by (auto simp: validateInitialState_def wellFormed_def validateOutcomes_None outcomeIDs_def)

lemma validateDispatches_None:
  "validateDispatches jsonValid index seen dispatches = None \<longleftrightarrow>
     (\<forall>d \<in> set dispatches. ValidateDispatch jsonValid d = None) \<and> distinct (map d_ID dispatches)
     \<and> set (map d_ID dispatches) \<inter> set seen = {}"
  by (induction dispatches arbitrary: index seen) (auto split: option.splits)

lemma validateBatch_Inr:
  "validateBatch jsonValid state returned = Inr dispatches \<longleftrightarrow>
     dispatches = returned \<and> (\<forall>d \<in> set returned. ValidateDispatch jsonValid d = None)
     \<and> distinct (map d_ID returned) \<and> set (map d_ID returned) \<inter> set (outcomeIDs state) = {}"
  using validateDispatches_None [of jsonValid 0 "outcomeIDs state" returned]
  by (auto simp: validateBatch_def split: option.splits)

text \<open>The successes of a tick, in the order of their identifiers, follow the outcomes of the ticks before.\<close>

definition tickOutcomes :: "int \<Rightarrow> dispatchExecution list \<Rightarrow> Outcome list" where
  "tickOutcomes tick records =
     sort_key (d_ID \<circ> oc_Dispatch) (map (successOf tick) (filter (\<lambda>r. de_err r = None) records))"

lemma tickOutcomes_set: "set (tickOutcomes tick records) = successOf tick ` {r \<in> set records. de_err r = None}"
  by (simp add: tickOutcomes_def)

lemma tickOutcomes_IDs:
  "set (map (d_ID \<circ> oc_Dispatch) (tickOutcomes tick records)) \<subseteq> set (map (d_ID \<circ> de_dispatch) records)"
  by (auto simp: tickOutcomes_set successOf_def)

lemma tickOutcomes_distinct:
  assumes "distinct (map (d_ID \<circ> de_dispatch) records)"
  shows "distinct (map (d_ID \<circ> oc_Dispatch) (tickOutcomes tick records))"
proof -
  have ids: "map (d_ID \<circ> oc_Dispatch) (map (successOf tick) rs) = map (d_ID \<circ> de_dispatch) rs" for rs
    by (simp add: successOf_def)
  have "mset (map (d_ID \<circ> oc_Dispatch) (tickOutcomes tick records))
      = mset (map (d_ID \<circ> oc_Dispatch) (map (successOf tick) (filter (\<lambda>r. de_err r = None) records)))"
    by (simp only: tickOutcomes_def mset_map mset_sort)
  then have "mset (map (d_ID \<circ> oc_Dispatch) (tickOutcomes tick records))
      = mset (map (d_ID \<circ> de_dispatch) (filter (\<lambda>r. de_err r = None) records))"
    by (simp only: ids)
  moreover have "distinct (map (d_ID \<circ> de_dispatch) (filter (\<lambda>r. de_err r = None) records))"
    using assms by (rule distinct_map_filter)
  ultimately show ?thesis using mset_eq_imp_distinct_iff by blast
qed

lemma tickOutcomes_sorted:
  assumes "distinct (map (d_ID \<circ> de_dispatch) records)"
  shows "sorted_wrt outcomeLess (tickOutcomes tick records)"
proof -
  have "sorted_wrt (<) (map (d_ID \<circ> oc_Dispatch) (tickOutcomes tick records))"
    using tickOutcomes_distinct [OF assms] by (simp add: strict_sorted_iff tickOutcomes_def)
  then have "sorted_wrt (\<lambda>x y. d_ID (oc_Dispatch x) < d_ID (oc_Dispatch y)) (tickOutcomes tick records)"
    by (simp add: sorted_wrt_map)
  then show ?thesis
    by (rule sorted_wrt_mono_rel [rotated]) (auto simp: tickOutcomes_set successOf_def outcomeLess_def)
qed

lemma sorted_outcomes_id: "sorted_wrt outcomeLess xs \<Longrightarrow> sort_key outcomeKey xs = xs"
  by (rule sort_key_id_if_sorted) (auto simp: sorted_map intro: sorted_wrt_mono_rel [of xs outcomeLess] simp: outcomeLess_key)

lemma sorted_outcomes_append:
  assumes wf: "wellFormed jsonValid state" and ids: "distinct (map (d_ID \<circ> de_dispatch) records)"
  shows "sorted_wrt outcomeLess (st_Outcomes state @ tickOutcomes (st_Tick state + 1) records)"
  using wf tickOutcomes_sorted [OF ids]
  by (fastforce simp: sorted_wrt_append wellFormed_def tickOutcomes_set successOf_def outcomeLess_def)

text \<open>What a batch adds to a valid state, and when the result is valid again.\<close>

definition foldsTick :: "(bytes \<Rightarrow> bool) \<Rightarrow> State \<Rightarrow> State \<Rightarrow> bool" where
  "foldsTick jsonValid state next \<longleftrightarrow>
     st_Tick next = st_Tick state \<and>
     (\<exists>added. st_Outcomes next = st_Outcomes state @ added \<and> (\<forall>outcome \<in> set added. oc_Tick outcome = st_Tick state + 1)) \<and>
     wellFormed jsonValid (next\<lparr>st_Tick := st_Tick state + 1\<rparr>)"

lemma collectBatch_folds:
  assumes wf: "wellFormed jsonValid state" and range: "int64 (st_Tick state + 1)"
    and batch: "validateBatch jsonValid state returned = Inr dispatches"
    and records: "set (map de_dispatch records) \<subseteq> set dispatches" "distinct (map (d_ID \<circ> de_dispatch) records)"
  shows "foldsTick jsonValid state (fst (collectBatch state records c))"
proof -
  let ?new = "tickOutcomes (st_Tick state + 1) records"
  note batch' = batch [unfolded validateBatch_Inr]
  have outcomes: "st_Outcomes (fst (collectBatch state records c)) = st_Outcomes state @ ?new"
    using sorted_outcomes_id [OF sorted_outcomes_append [OF wf records(2)]] range
    by (simp add: collectBatch_def tickOutcomes_def Let_def)
  have tick: "st_Tick (fst (collectBatch state records c)) = st_Tick state" by (simp add: collectBatch_def Let_def)
  have new: "oc_Tick outcome = st_Tick state + 1 \<and> oc_Dispatch outcome \<in> set dispatches" if "outcome \<in> set ?new" for outcome
    using that records(1) by (auto simp: tickOutcomes_set successOf_def)
  have "set (map (d_ID \<circ> oc_Dispatch) ?new) \<inter> set (outcomeIDs state) = {}"
    using batch' new by fastforce
  then have "distinct (outcomeIDs (fst (collectBatch state records c)))"
    using wf tickOutcomes_distinct [OF records(2), of "st_Tick state + 1"]
    by (auto simp: outcomeIDs_def outcomes wellFormed_def)
  then have "wellFormed jsonValid ((fst (collectBatch state records c))\<lparr>st_Tick := st_Tick state + 1\<rparr>)"
    using wf sorted_outcomes_append [OF wf records(2)] new batch'
    by (auto simp: wellFormed_def outcomes outcomeIDs_def)
  then show ?thesis using outcomes tick new by (auto simp: foldsTick_def)
qed

lemma executeBatch_folds:
  assumes "wellFormed jsonValid state" "int64 (st_Tick state + 1)" "validateBatch jsonValid state returned = Inr dispatches"
    "executeBatch executor sink limit state dispatches outcome"
  shows "foldsTick jsonValid state (fst outcome)" "snd outcome = Some err \<Longrightarrow> \<exists>failures c. err = DispatchErrors failures c"
proof -
  obtain b where b: "outcome = collectBatch state (bt_records b) (bt_ctxErr b)"
    "batchRun executor sink limit dispatches b" using assms(4) by (rule executeBatchE)
  have distinct: "distinct (map d_ID dispatches)" using assms(3) by (auto simp: validateBatch_Inr)
  show "foldsTick jsonValid state (fst outcome)" unfolding b(1)
    by (rule collectBatch_folds [OF assms(1-3) batchRun_records [OF b(2) distinct]])
  show "\<exists>failures c. err = DispatchErrors failures c" if "snd outcome = Some err"
    using that b(1) by (auto simp: collectBatch_def Let_def split: if_splits)
qed

section \<open>The loop\<close>

lemma driveLoop_cases:
  obtains
    (stay) err where "\<And>batch. driveLoop (world\<lparr>dv_Batch := batch\<rparr>) scheduler maxTicks completedTicks state = (state, err)"
      "driveLoop world scheduler maxTicks completedTicks state = (state, err)" "\<And>failures c. err \<noteq> Some (DispatchErrors failures c)"
  | (failed) returned dispatches "next" err where "validateBatch (dv_jsonValid world) state returned = Inr dispatches"
      "completedTicks < maxTicks" "dv_Batch world state dispatches = (next, Some err)"
      "driveLoop world scheduler maxTicks completedTicks state = (next, Some err)"
  | (tick) returned dispatches "next" where "validateBatch (dv_jsonValid world) state returned = Inr dispatches"
      "completedTicks < maxTicks" "dv_Batch world state dispatches = (next, None)"
      "driveLoop world scheduler maxTicks completedTicks state
         = driveLoop world scheduler maxTicks (completedTicks + 1) (next\<lparr>st_Tick := wrap64 (st_Tick next + 1)\<rparr>)"
      "\<And>batch. batch state dispatches = (next, None) \<Longrightarrow>
         driveLoop (world\<lparr>dv_Batch := batch\<rparr>) scheduler maxTicks completedTicks state
           = driveLoop (world\<lparr>dv_Batch := batch\<rparr>) scheduler maxTicks (completedTicks + 1)
               (next\<lparr>st_Tick := wrap64 (st_Tick next + 1)\<rparr>)"
proof (cases "dv_CtxErr world completedTicks")
  case (Some err)
  show thesis by (rule stay [of "Some (DriveContext err)"]) (simp_all add: driveLoop.simps Some)
next
  case running: None
  show thesis
  proof (cases "callScheduler scheduler state")
    case (Inl err)
    show thesis by (rule stay [of "Some (SchedulerError (st_Tick state) err)"]) (simp_all add: driveLoop.simps running Inl)
  next
    case called: (Inr returned)
    show thesis
    proof (cases "validateBatch (dv_jsonValid world) state returned")
      case (Inl err)
      show thesis
        by (rule stay [of "Some (SchedulerError (st_Tick state) err)"]) (simp_all add: driveLoop.simps running called Inl)
    next
      case valid: (Inr dispatches)
      note unfolded = driveLoop.simps [of _ scheduler maxTicks completedTicks state] running called valid
      consider "dispatches = []" | "dispatches \<noteq> []" "maxTicks \<le> completedTicks"
        | "dispatches \<noteq> []" "completedTicks < maxTicks" by linarith
      then show thesis
      proof cases
        case 1
        then show thesis by (intro stay [of None]) (simp_all add: unfolded)
      next
        case 2
        then show thesis by (intro stay [of "Some ErrMaxTicks"]) (simp_all add: unfolded)
      next
        case 3
        obtain "next" err where "dv_Batch world state dispatches = (next, err)" by (cases "dv_Batch world state dispatches")
        then show thesis using 3 failed [OF valid, of "next"] tick [OF valid, of "next"]
          by (cases err) (simp_all add: unfolded)
      qed
    qed
  qed
qed

text \<open>
  What a run of the loop leaves: the outcomes it started from with new ones behind them, at most so many
  ticks later; a valid state, unless the last batch failed, in which case the successes of that batch stand
  one tick ahead and the state is valid exactly when there are none.
\<close>

definition driveEnds :: "(bytes \<Rightarrow> bool) \<Rightarrow> State \<Rightarrow> int \<Rightarrow> State \<times> driveError option \<Rightarrow> bool" where
  "driveEnds jsonValid state ticks answer \<longleftrightarrow>
     (let final = fst answer
      in st_Tick state \<le> st_Tick final \<and> st_Tick final \<le> st_Tick state + ticks \<and>
         (\<exists>added. st_Outcomes final = st_Outcomes state @ added
            \<and> (\<forall>outcome \<in> set added. st_Tick state < oc_Tick outcome \<and> oc_Tick outcome \<le> st_Tick state + ticks)) \<and>
         (if \<exists>failures c. snd answer = Some (DispatchErrors failures c)
          then wellFormed jsonValid (final\<lparr>st_Tick := st_Tick final + 1\<rparr>)
          else wellFormed jsonValid final))"

lemma driveEnds_stay:
  assumes "wellFormed jsonValid state" "0 \<le> ticks" "\<And>failures c. err \<noteq> Some (DispatchErrors failures c)"
  shows "driveEnds jsonValid state ticks (state, err)"
  using assms by (auto simp: driveEnds_def)

lemma driveEnds_failed:
  assumes "foldsTick jsonValid state next" "0 < ticks"
  shows "driveEnds jsonValid state ticks (next, Some (DispatchErrors failures c))"
  using assms by (auto simp: driveEnds_def foldsTick_def)

lemma driveEnds_step:
  assumes folds: "foldsTick jsonValid state next" and ends: "driveEnds jsonValid (next\<lparr>st_Tick := st_Tick state + 1\<rparr>) (ticks - 1) answer"
  shows "driveEnds jsonValid state ticks answer"
proof -
  obtain added where "st_Outcomes next = st_Outcomes state @ added" "\<forall>outcome \<in> set added. oc_Tick outcome = st_Tick state + 1"
    using folds by (auto simp: foldsTick_def)
  then show ?thesis using ends by (fastforce simp: driveEnds_def Let_def)
qed

lemma driveLoop_ends:
  assumes "wellFormed (dv_jsonValid world) state" "completedTicks \<le> maxTicks"
    "int64 (st_Tick state + (maxTicks - completedTicks))"
    "\<And>state dispatches. executeBatch executor sink limit state dispatches (dv_Batch world state dispatches)"
  shows "driveEnds (dv_jsonValid world) state (maxTicks - completedTicks) (driveLoop world scheduler maxTicks completedTicks state)"
  using assms(1-3)
proof (induction "nat (maxTicks - completedTicks)" arbitrary: completedTicks state rule: less_induct)
  case less
  let ?ticks = "maxTicks - completedTicks"
  show ?case
  proof (cases rule: driveLoop_cases [of world scheduler maxTicks completedTicks state])
    case (stay err)
    then show ?thesis using driveEnds_stay [OF less.prems(1)] less.prems(2) by simp
  next
    case (failed returned dispatches "next" err)
    have range: "int64 (st_Tick state + 1)" using less.prems(1,3) failed(2) by (auto simp: int64_def wellFormed_def)
    note folds = executeBatch_folds [OF less.prems(1) range failed(1) assms(4)]
    obtain failures c where "err = DispatchErrors failures c" using folds(2) failed(3) by auto
    then show ?thesis using driveEnds_failed [of _ state "next" ?ticks] folds(1) failed by simp
  next
    case (tick returned dispatches "next")
    have range: "int64 (st_Tick state + 1)" using less.prems(1,3) tick(2) by (auto simp: int64_def wellFormed_def)
    have folds: "foldsTick (dv_jsonValid world) state next"
      using executeBatch_folds(1) [OF less.prems(1) range tick(1) assms(4)] tick(3) by simp
    let ?state = "next\<lparr>st_Tick := st_Tick state + 1\<rparr>"
    have "next\<lparr>st_Tick := wrap64 (st_Tick next + 1)\<rparr> = ?state" using folds range by (simp add: foldsTick_def)
    then have "driveEnds (dv_jsonValid world) ?state (maxTicks - (completedTicks + 1))
        (driveLoop world scheduler maxTicks completedTicks state)"
      unfolding tick(4) using less.hyps [of "completedTicks + 1" ?state] folds tick(2) less.prems(3)
      by (simp add: foldsTick_def add.commute add.left_commute algebra_simps)
    then show ?thesis using driveEnds_step [OF folds, of ?ticks] by (simp add: algebra_simps)
  qed
qed

text \<open>
  The loop in which a batch is the plain map of the executor over the dispatches, in their order and without
  concurrency; every interleaving that goes without a failing batch does the same.
\<close>

definition inOrder :: "executor \<Rightarrow> State \<Rightarrow> Dispatch list \<Rightarrow> State \<times> driveError option" where
  "inOrder executor state dispatches = collectBatch state (map (undisturbed executor) dispatches) None"

lemma driveLoop_inOrder:
  assumes "\<And>state dispatches. executeBatch executor sink limit state dispatches (dv_Batch world state dispatches)"
    "driveLoop world scheduler maxTicks completedTicks state = (final, err)"
    "\<And>failures c. err \<noteq> Some (DispatchErrors failures c)"
  shows "driveLoop (world\<lparr>dv_Batch := inOrder executor\<rparr>) scheduler maxTicks completedTicks state = (final, err)"
  using assms(2)
proof (induction "nat (maxTicks - completedTicks)" arbitrary: completedTicks state rule: less_induct)
  case less
  show ?case
  proof (cases rule: driveLoop_cases [of world scheduler maxTicks completedTicks state])
    case (stay e)
    then show ?thesis using less.prems by simp
  next
    case (failed returned dispatches "next" e)
    then have "snd (dv_Batch world state dispatches) = Some e" by simp
    moreover have "\<exists>failures c. snd (collectBatch state records ctx) \<noteq> None \<longrightarrow> snd (collectBatch state records ctx) = Some (DispatchErrors failures c)"
      for records ctx by (auto simp: collectBatch_def Let_def)
    ultimately have "\<exists>failures c. e = DispatchErrors failures c"
      using executeBatchE [OF assms(1) [of state dispatches]] by (metis option.inject option.distinct(1))
    then show ?thesis using failed(4) less.prems assms(3) by auto
  next
    case (tick returned dispatches "next")
    have "inOrder executor state dispatches = (next, None)"
      using clean_batch [OF assms(1) [of state dispatches]] tick(1,3) by (simp add: inOrder_def validateBatch_Inr)
    from tick(5) [of "inOrder executor", OF this] show ?thesis
      using less.hyps [of "completedTicks + 1"] tick(2,4) less.prems by simp
  qed
qed

end
