(* ===== verification/Orchestration_Properties.thy ===== *)
theory Orchestration_Properties
  imports Orchestration_Laws
begin

text \<open>
  What \<^verbatim>\<open>Drive\<close> promises: the states it returns can be handed back to it, it keeps what was there and
  adds at most its budget of ticks, concurrency shows neither in its state nor above its limit, and a batch
  with one permit stops at the first failure.
\<close>

section \<open>From the loop to Drive\<close>

definition driveInitial :: "DriveOptions \<Rightarrow> State" where
  "driveInitial options = (case do_InitialState options of None \<Rightarrow> zeroState | Some state \<Rightarrow> state)"

lemma wellFormed_zeroState [simp]: "wellFormed jsonValid zeroState"
  by (simp add: wellFormed_def zeroState_def outcomeIDs_def)

lemma Drive_cases:
  assumes "Drive world options = (final, err)"
  obtains (refused) e where "final = zeroState" "err = Some (InvalidDrive e)"
  | (loop) scheduler executor where "dv_Scheduler world = Some scheduler" "dv_Executor world = Some executor"
      "0 \<le> do_MaxTicks options" "wellFormed (dv_jsonValid world) (driveInitial options)"
      "driveLoop world scheduler (tickLimit options) 0 (driveInitial options) = (final, err)"
proof -
  consider (nil) "dv_Scheduler world = None \<or> dv_Executor world = None"
    | (both) scheduler executor where "dv_Scheduler world = Some scheduler" "dv_Executor world = Some executor"
    by (cases "dv_Scheduler world"; cases "dv_Executor world") auto
  then show thesis
  proof cases
    case nil
    then show thesis using assms refused by (auto simp: Drive_def split: option.splits)
  next
    case both
    show thesis
    proof (cases "do_MaxTicks options < 0 \<or> do_MaxConcurrency options < 0")
      case False
      show thesis
      proof (cases "validateInitialState (dv_jsonValid world) (driveInitial options)")
        case None
        then have "wellFormed (dv_jsonValid world) (driveInitial options)" by (simp add: validateInitialState_wellFormed)
        moreover have "driveLoop world scheduler (tickLimit options) 0 (driveInitial options) = (final, err)"
          using False both assms None by (auto simp: Drive_def driveInitial_def split: option.splits)
        ultimately show thesis using False loop [OF both] by simp
      next
        case (Some e)
        then have "do_InitialState options = Some (driveInitial options)"
          by (auto simp: driveInitial_def validateInitialState_def zeroState_def split: option.splits)
        then show thesis using False both Some assms refused by (auto simp: Drive_def)
      qed
    qed (use both assms refused in \<open>auto simp: Drive_def\<close>)
  qed
qed

lemma tickLimit_nonneg: "0 \<le> do_MaxTicks options \<Longrightarrow> 0 \<le> tickLimit options"
  by (simp add: tickLimit_def defaultMaxTicks_def)

lemma Drive_ends:
  assumes "batchesRun world options" "int64 (st_Tick (driveInitial options) + tickLimit options)"
    "Drive world options = (final, err)"
  obtains (refused) e where "final = zeroState" "err = Some (InvalidDrive e)"
  | (ends) "driveEnds (dv_jsonValid world) (driveInitial options) (tickLimit options) (final, err)"
      "0 \<le> st_Tick (driveInitial options)"
  using assms(3)
proof (cases rule: Drive_cases)
  case (loop scheduler executor)
  have "\<And>state dispatches. executeBatch executor (do_Sink options) (permitLimit options) state dispatches (dv_Batch world state dispatches)"
    using assms(1) loop(2) by (simp add: batchesRun_def)
  from driveLoop_ends [OF loop(4) tickLimit_nonneg [OF loop(3)] _ this, of scheduler] show thesis
    using assms(2) loop(4,5) ends by (simp add: wellFormed_def)
qed (use refused in blast)

lemma wellFormed_ahead:
  assumes "wellFormed jsonValid (state\<lparr>st_Tick := st_Tick state + 1\<rparr>)" "0 \<le> st_Tick state"
  shows "wellFormed jsonValid state \<longleftrightarrow> (\<forall>outcome \<in> set (st_Outcomes state). oc_Tick outcome \<le> st_Tick state)"
  using assms by (auto simp: wellFormed_def outcomeIDs_def)

lemma wellFormed_ticks:
  "wellFormed jsonValid state \<Longrightarrow> outcome \<in> set (st_Outcomes state) \<Longrightarrow> oc_Tick outcome \<le> st_Tick state"
  by (simp add: wellFormed_def)

lemma driveEnds_resumable:
  assumes ends: "driveEnds jsonValid state ticks (final, err)" and start: "0 \<le> st_Tick state"
  shows "((\<forall>failures c. err \<noteq> Some (DispatchErrors failures c)) \<longrightarrow> wellFormed jsonValid final) \<and>
    (wellFormed jsonValid final \<longleftrightarrow> (\<forall>outcome \<in> set (st_Outcomes final). oc_Tick outcome \<le> st_Tick final))"
proof (cases "\<exists>failures c. err = Some (DispatchErrors failures c)")
  case True
  then have "wellFormed jsonValid (final\<lparr>st_Tick := st_Tick final + 1\<rparr>)" "0 \<le> st_Tick final"
    using ends start by (auto simp: driveEnds_def)
  from wellFormed_ahead [OF this] show ?thesis using True by blast
next
  case False
  then have "wellFormed jsonValid final" using ends by (auto simp: driveEnds_def)
  then show ?thesis using wellFormed_ticks by blast
qed

section \<open>The properties\<close>

text \<open>
  C24. The state that \<^verbatim>\<open>Drive\<close> returns is a valid initial state for another \<^verbatim>\<open>Drive\<close> unless the last batch
  failed; after a failed batch it is valid exactly when no outcome of that batch stands ahead of the tick
  counter, that is, a partially executed tick is never taken for a complete one.
\<close>

theorem drive_state_resumable:
  assumes "batchesRun world options" "int64 (st_Tick (driveInitial options) + tickLimit options)"
    "Drive world options = (final, err)"
  shows "((\<forall>failures c. err \<noteq> Some (DispatchErrors failures c)) \<longrightarrow> validateInitialState (dv_jsonValid world) final = None) \<and>
    (validateInitialState (dv_jsonValid world) final = None \<longleftrightarrow>
      (\<forall>outcome \<in> set (st_Outcomes final). oc_Tick outcome \<le> st_Tick final))"
proof (cases rule: Drive_ends [OF assms])
  case 1
  then show ?thesis by (simp add: validateInitialState_wellFormed) (simp add: zeroState_def)
next
  case 2
  then show ?thesis unfolding validateInitialState_wellFormed by (rule driveEnds_resumable)
qed

text \<open>
  \<^verbatim>\<open>Drive\<close> keeps the outcomes it was given, unchanged and in front, and adds outcomes of at most its
  budget of new ticks, each for a dispatch identifier of its own.
\<close>

theorem drive_adds_within_budget:
  assumes "batchesRun world options" "int64 (st_Tick (driveInitial options) + tickLimit options)"
    "Drive world options = (final, err)" "\<And>e. err \<noteq> Some (InvalidDrive e)"
  shows "\<exists>added. st_Outcomes final = st_Outcomes (driveInitial options) @ added \<and> distinct (outcomeIDs final) \<and>
    (\<forall>outcome \<in> set added. st_Tick (driveInitial options) < oc_Tick outcome
       \<and> oc_Tick outcome \<le> st_Tick (driveInitial options) + tickLimit options) \<and>
    st_Tick final \<le> st_Tick (driveInitial options) + tickLimit options"
proof (cases rule: Drive_ends [OF assms(1-3)])
  case 1
  then show ?thesis using assms(4) by blast
next
  case 2
  then have "distinct (outcomeIDs final)"
    by (auto simp: driveEnds_def Let_def wellFormed_def outcomeIDs_def split: if_splits)
  then show ?thesis using 2(1) by (auto simp: driveEnds_def Let_def)
qed

text \<open>
  C25. Concurrency does not show: whatever the interleaving of the goroutines and whatever the concurrency
  limit, a \<^verbatim>\<open>Drive\<close> that meets no failing batch returns what the plain loop returns that executes the
  dispatches of each batch in their order, one after the other.
\<close>

theorem drive_is_in_order:
  assumes "batchesRun world options" "Drive world options = (final, err)"
    "\<And>failures c. err \<noteq> Some (DispatchErrors failures c)" "dv_Executor world = Some executor"
  shows "Drive (world\<lparr>dv_Batch := inOrder executor\<rparr>) options = (final, err)"
proof -
  have runs: "\<And>state dispatches. executeBatch executor (do_Sink options) (permitLimit options) state dispatches (dv_Batch world state dispatches)"
    using assms(1,4) by (simp add: batchesRun_def)
  note same = driveLoop_inOrder [OF runs _ assms(3)]
  show ?thesis using assms(2,4) same
    by (auto simp: Drive_def split: option.splits if_splits)
qed

text \<open>
  C26. With one permit a batch is serial and stops at the first failure: unless the caller cancels, the
  records are those of the dispatches in order up to and including the first that fails. A failing
  goroutine cancels the batch before it gives its permit back, so the launch loop never starts a dispatch
  behind a failure.
\<close>

theorem single_permit_stops_at_failure:
  assumes "executeBatch executor sink (Some 1) state dispatches outcome"
    "\<And>failures c. snd outcome \<noteq> Some (DispatchErrors failures (Some c))"
  shows "outcome = collectBatch state (oneAtATime executor dispatches) None"
proof -
  obtain b where b: "outcome = collectBatch state (bt_records b) (bt_ctxErr b)"
    "batchRun executor sink (Some 1) dispatches b" "batchFinished b" using assms(1) by (rule executeBatchE)
  have "bt_ctxErr b = None" using assms(2) unfolding b(1)
    by (cases "bt_ctxErr b") (auto simp: collectBatch_def Let_def)
  then show ?thesis using serial_records [OF b(2,3)] b(1) by simp
qed

section \<open>Frames and permits\<close>

lemma batchRun_frames:
  "batchRun executor sink limit dispatches b \<Longrightarrow>
   (\<forall>frame \<in> set (bt_frames b). \<exists>i < bt_next b. i < length dispatches \<and> fm_Source frame = d_ID (dispatches ! i))
   \<and> (\<not> sink \<longrightarrow> bt_frames b = [])"
proof (induction rule: batchRun.induct)
  case start
  show ?case by (simp add: startBatch_def)
next
  case (step b b')
  have launched: "launchedBelow dispatches b" using batchRun_inv [OF step(1)] by (simp add: batchInv_def)
  from step(2) show ?case
  proof cases
    case (emit i frame)
    then have "i < bt_next b" using launchedBelowD(5) [OF launched emit(3)] by (metis leI worker.distinct(1))
    then show ?thesis using emit step.IH by (auto simp: sourceSink_def)
  qed (use step.IH in \<open>auto intro: less_SucI\<close>)
qed

text \<open>
  C27. At no moment of a batch do more executors run than the concurrency limit allows, and every frame
  delivered to the shared sink carries as its source the identifier of a dispatch launched by then, whatever
  source the executor gave it.
\<close>

theorem batch_concurrency_bounded:
  assumes "batchRun executor sink (Some n) dispatches b"
  shows "length (filter (\<lambda>w. w = Running) (bt_workers b)) \<le> n \<and>
    (\<forall>frame \<in> set (bt_frames b). \<exists>i < bt_next b. i < length dispatches \<and> fm_Source frame = d_ID (dispatches ! i))"
proof
  have "length (filter (\<lambda>w. w = Running) ws) \<le> length (filter holding ws)" for ws
    by (induction ws) (auto simp: holding_def)
  from this [of "bt_workers b"]
  have "length (filter (\<lambda>w. w = Running) (bt_workers b)) \<le> length (filter holding (bt_workers b))" .
  also have "\<dots> \<le> n" using batchRun_inv [OF assms] by (auto simp: batchInv_def permitsKept_def)
  finally show "length (filter (\<lambda>w. w = Running) (bt_workers b)) \<le> n" .
  show "\<forall>frame \<in> set (bt_frames b). \<exists>i < bt_next b. i < length dispatches \<and> fm_Source frame = d_ID (dispatches ! i)"
    using batchRun_frames [OF assms] by blast
qed

section \<open>Witnesses\<close>

text \<open>
  A scheduler of two ticks, \<^verbatim>\<open>b\<close> and \<^verbatim>\<open>a\<close> and then \<^verbatim>\<open>c\<close> and \<^verbatim>\<open>d\<close>, with an executor that fails on \<^verbatim>\<open>d\<close> in
  the first of the two worlds, and the serial interleaving of each batch.
\<close>

definition demoDispatch :: "string \<Rightarrow> Dispatch" where
  "demoDispatch name = \<lparr>d_ID = name, d_Route = ''route'', d_Request = \<lparr>rq_Prompt = [], rq_Budget = None\<rparr>,
     d_OutputPolicy = \<lparr>op_Schema = [], op_Validate = False, op_Repair = False, op_MaxRepairAttempts = 0\<rparr>,
     d_Handoff = None, d_Metadata = []\<rparr>"

definition demoScheduler :: "State \<Rightarrow> scheduled" where
  "demoScheduler state =
     (if st_Tick state = 0 then Scheduled [demoDispatch ''b'', demoDispatch ''a'']
      else if st_Tick state = 1 then Scheduled [demoDispatch ''c'', demoDispatch ''d'']
      else Scheduled [])"

definition demoExecutor :: "string \<Rightarrow> executor" where
  "demoExecutor broken dispatch ctxErr =
     (if d_ID dispatch = broken then Executed zeroResult (Some (TextError ''broken'')) else Executed zeroResult None)"

definition driveDemo :: "string \<Rightarrow> DriveWorld" where
  "driveDemo broken = \<lparr>dv_jsonValid = (\<lambda>_. True), dv_Scheduler = Some demoScheduler,
     dv_Executor = Some (demoExecutor broken), dv_CtxErr = (\<lambda>_. None),
     dv_Batch = (\<lambda>state dispatches. collectBatch state (oneAtATime (demoExecutor broken) dispatches) None)\<rparr>"

definition demoOptions :: DriveOptions where
  "demoOptions = \<lparr>do_MaxTicks = 5, do_MaxConcurrency = 2, do_UnlimitedConcurrency = False, do_Sink = False,
     do_InitialState = None\<rparr>"

lemma demo_batchesRun: "batchesRun (driveDemo broken) demoOptions"
  by (auto simp: batchesRun_def driveDemo_def demoOptions_def permitLimit_def intro: executeBatch_serial)

lemma demo_range: "int64 (st_Tick (driveInitial demoOptions) + tickLimit demoOptions)"
  by (simp add: demoOptions_def driveInitial_def zeroState_def tickLimit_def int64_def maxInt_def)

lemma demo_run: "map oc_Tick (st_Outcomes (fst (Drive (driveDemo ''d'') demoOptions))) = [1, 1, 2]"
  "outcomeIDs (fst (Drive (driveDemo ''d'') demoOptions)) = [''a'', ''b'', ''c'']"
  "st_Tick (fst (Drive (driveDemo ''d'') demoOptions)) = 1"
  by code_simp+

lemma demo_pair: "Drive (driveDemo broken) demoOptions
    = (fst (Drive (driveDemo broken) demoOptions), snd (Drive (driveDemo broken) demoOptions))"
  by simp

text \<open>Witness of the resumable state: \<^verbatim>\<open>c\<close> stands ahead of the tick counter and the state is refused.\<close>

theorem drive_state_resumable_witness:
  "validateInitialState (\<lambda>_. True) (fst (Drive (driveDemo ''d'') demoOptions)) \<noteq> None"
proof
  assume valid: "validateInitialState (\<lambda>_. True) (fst (Drive (driveDemo ''d'') demoOptions)) = None"
  have "dv_jsonValid (driveDemo ''d'') = (\<lambda>_. True)" by (simp add: driveDemo_def)
  then have "\<forall>outcome \<in> set (st_Outcomes (fst (Drive (driveDemo ''d'') demoOptions))).
      oc_Tick outcome \<le> st_Tick (fst (Drive (driveDemo ''d'') demoOptions))"
    using drive_state_resumable [OF demo_batchesRun demo_range demo_pair, of "''d''"] valid by simp
  then have "list_all (\<lambda>t. t \<le> 1) (map oc_Tick (st_Outcomes (fst (Drive (driveDemo ''d'') demoOptions))))"
    unfolding demo_run(3) by (simp add: list_all_iff)
  then show False unfolding demo_run(1) by simp
qed

lemma demo_err: "case snd (Drive (driveDemo ''d'') demoOptions) of Some (DispatchErrors [f] None) \<Rightarrow> d_ID (de_dispatch f) = ''d'' | _ \<Rightarrow> False"
  "snd (Drive (driveDemo ''e'') demoOptions) = None"
  by code_simp+

text \<open>Witness of the budget: the run that fails on \<^verbatim>\<open>d\<close>.\<close>

theorem drive_adds_within_budget_witness:
  "distinct (outcomeIDs (fst (Drive (driveDemo ''d'') demoOptions))) \<and> st_Tick (fst (Drive (driveDemo ''d'') demoOptions)) \<le> 5"
proof -
  have "snd (Drive (driveDemo ''d'') demoOptions) \<noteq> Some (InvalidDrive e)" for e
    using demo_err(1) by (auto split: option.splits)
  from drive_adds_within_budget [OF demo_batchesRun demo_range demo_pair this] show ?thesis
    by (simp add: demoOptions_def driveInitial_def zeroState_def tickLimit_def)
qed

text \<open>Witness of the order: the run in which nothing fails.\<close>

theorem drive_is_in_order_witness:
  "Drive ((driveDemo ''e'')\<lparr>dv_Batch := inOrder (demoExecutor ''e'')\<rparr>) demoOptions = Drive (driveDemo ''e'') demoOptions"
proof -
  have "dv_Executor (driveDemo ''e'') = Some (demoExecutor ''e'')" by (simp add: driveDemo_def)
  moreover have "snd (Drive (driveDemo ''e'') demoOptions) \<noteq> Some (DispatchErrors failures c)" for failures c
    by (simp add: demo_err(2))
  ultimately show ?thesis using drive_is_in_order [OF demo_batchesRun demo_pair, of "''e''"] by simp
qed

text \<open>Witness of the serial batch: \<^verbatim>\<open>b\<close> is never executed behind the failing \<^verbatim>\<open>d\<close>.\<close>

theorem single_permit_stops_at_failure_witness:
  "\<exists>outcome. executeBatch (demoExecutor ''d'') False (Some 1) zeroState (map demoDispatch [''a'', ''d'', ''b'']) outcome
     \<and> outcome = collectBatch zeroState (map (undisturbed (demoExecutor ''d'') \<circ> demoDispatch) [''a'', ''d'']) None"
proof -
  let ?ds = "map demoDispatch [''a'', ''d'', ''b'']"
  let ?outcome = "collectBatch zeroState (oneAtATime (demoExecutor ''d'') ?ds) None"
  have "executeBatch (demoExecutor ''d'') False (Some 1) zeroState ?ds ?outcome"
    by (rule executeBatch_serial) simp
  moreover have "snd ?outcome \<noteq> Some (DispatchErrors failures (Some c))" for failures c
    by (simp add: collectBatch_def Let_def)
  ultimately obtain outcome where run: "executeBatch (demoExecutor ''d'') False (Some 1) zeroState ?ds outcome"
    "\<And>failures c. snd outcome \<noteq> Some (DispatchErrors failures (Some c))" by (rule that)
  have eq: "oneAtATime (demoExecutor ''d'') ?ds = map (undisturbed (demoExecutor ''d'') \<circ> demoDispatch) [''a'', ''d'']"
    by (simp add: undisturbed_def executionOf_def demoExecutor_def demoDispatch_def callExecutor_def)
  show ?thesis by (intro exI [of _ outcome] conjI run(1) single_permit_stops_at_failure [OF run, unfolded eq])
qed

text \<open>Witness of the bound: the start of a batch with two permits.\<close>

theorem batch_concurrency_bounded_witness:
  "\<exists>b. batchRun (demoExecutor ''d'') True (Some 2) [demoDispatch ''a''] b \<and> bt_workers b = [Running]
     \<and> length (filter (\<lambda>w. w = Running) (bt_workers b)) \<le> 2"
proof -
  have "batchRun (demoExecutor ''d'') True (Some 2) [demoDispatch ''a''] (serialAt (demoExecutor ''d'') [demoDispatch ''a''] 0)"
    using batchRun.start [of "demoExecutor ''d''" True "Some 2" "[demoDispatch ''a'']"] by (simp add: serialAt_def startBatch_def)
  from serial_run_launch [OF this] have run: "batchRun (demoExecutor ''d'') True (Some 2) [demoDispatch ''a'']
      (serialGot (demoExecutor ''d'') (Some 2) [demoDispatch ''a''] 0 Running None)" by simp
  show ?thesis using run batch_concurrency_bounded [OF run]
    by (intro exI [of _ "serialGot (demoExecutor ''d'') (Some 2) [demoDispatch ''a''] 0 Running None"]) (simp add: serialGot_def)
qed

end
