(* ===== verification/Spec2Isabelle.thy ===== *)
theory Spec2Isabelle
  imports Provider_Usage Provider_Retry_Properties Provider_Routing Provider_Interceptor Provider_Anthropic_Properties Agent_History Backend_Properties Durable_Runtime_Properties Orchestration_Properties
begin

text \<open>
  A verification development for Venat, a Go library that runs one AI agent execution: a bounded loop of
  model turns and tool calls, optionally made durable across crashes, and optionally driven in batches by an
  application's scheduler.

  \<^bold>\<open>The program and its parts.\<close> An agent execution alternates between a provider, which streams the events of one
  model answer, and a tool bus, which runs the tool calls the answer asks for (\<^verbatim>\<open>src/agent/agent.go\<close>). Messages
  and histories are \<^verbatim>\<open>src/message\<close>, the provider contract and the normalization of its events \<^verbatim>\<open>src/provider\<close>, the
  bus with its update streams, interceptors and parallel batches \<^verbatim>\<open>src/tool\<close>. At the boundaries of its phases the
  loop hands out continuations, from which an interrupted run is resumed (\<^verbatim>\<open>src/agent/continuation.go\<close>,
  \<^verbatim>\<open>resume.go\<close>, \<^verbatim>\<open>engine.go\<close>). The durable runtime (\<^verbatim>\<open>src/durable\<close>) claims an execution at a backend under a
  fenced lease, saves its boundaries as checkpoints, and surrounds every model and tool call with an attempt that
  is recorded before the agent sees its outcome; the reference backend is \<^verbatim>\<open>src/durable/internal/testbackend\<close>.
  \<^verbatim>\<open>src/orchestration\<close> schedules batches of executions.

  \<^bold>\<open>The theories.\<close>
  \<^item> \<open>Prelude\<close>: Go values, 64-bit integers, trimming and printing, generic list lemmas.
  \<^item> \<open>Json\<close>, \<open>Output_Policy\<close>, \<open>Output_Policy_Laws\<close>: decoded JSON documents, the strict document traversal, and the
    schema subset of \<^verbatim>\<open>src/agent/output_policy.go\<close>. What \<open>ValidateJSON\<close> accepts is characterized exactly by a
    conformance relation that is defined apart from the validator: numbers by their rational value, enumerations by
    equality of JSON values.
  \<^item> \<open>Message\<close>, \<open>Message_Turns\<close>: messages, canonical and legacy content, and the complete-turn rules of
    \<^verbatim>\<open>src/message/history.go\<close>; acceptance is equivalent to the documented contract when all identifiers are given.
  \<^item> \<open>Provider\<close>, \<open>Provider_Usage\<close>, \<open>Provider_Normalize\<close>, \<open>Provider_Normalize_Laws\<close>: events, errors and their
    retry classification, saturating usage arithmetic, and \<^verbatim>\<open>src/provider/conformance.go\<close>: what an accepted event
    stream looks like and how interleaved tool-call fragments are put together.
  \<^item> \<open>Provider_Retry\<close>, \<open>Provider_Retry_Properties\<close>, \<open>Provider_Http\<close>, \<open>Provider_Routing\<close>, \<open>Provider_Interceptor\<close>: the classification
    of errors and the retrying stream of \<^verbatim>\<open>retry_stream.go\<close>, the HTTP retries of \<^verbatim>\<open>shared/retry.go\<close>, and \<^verbatim>\<open>failover.go\<close> and
    \<^verbatim>\<open>resolver.go\<close>: a retry neither repeats nor drops output, retries and waits are bounded, failover takes the first
    driver that opens, the last registration of a model wins, and interceptors (\<^verbatim>\<open>interceptor.go\<close>) let at most one
    unchanged request through.
  \<^item> \<open>Provider_Sse\<close>, \<open>Provider_Sse_Properties\<close>, \<open>Provider_Anthropic\<close>, \<open>Provider_Anthropic_Properties\<close>: the reader of
    server-sent events (\<^verbatim>\<open>shared/sse.go\<close>) and the Anthropic driver: printed events are read back and truncated ones
    refused, a request from a complete history pairs tool uses with their results, and the bytes of a response
    normalize to its text and tool calls.
  \<^item> \<open>Tool_Update\<close>, \<open>Tool_Interceptor\<close>, \<open>Tool_Bus\<close>, \<open>Tool_Bus_Laws\<close>, \<open>Tool_Parallel\<close>, \<open>Tool_Properties\<close>: the
    update stream of one call and its ceilings, the guarded interceptor chain, the registry and single calls,
    sequential batches, and the worker pool of parallel batches as a step relation with its invariant, its
    progress measure and its equivalence with the sequential batch, bounded concurrency groups included.
  \<^item> \<open>Agent_Types\<close>, \<open>Agent_Continuation\<close>, \<open>Agent_Stream\<close>, \<open>Agent_Loop\<close>, \<open>Agent_Run\<close>, \<open>Agent_Engine\<close>: the data of
    \<^verbatim>\<open>src/agent\<close>, the validation of continuations, the collection of one answer, hooks and guardrails, the loop
    with its budgets and compaction, and the engine with structured output, repair and resume.
    \<open>Agent_Run_Laws\<close>, \<open>Agent_Turn\<close>, \<open>Agent_Engine_Laws\<close>, \<open>Agent_Resume_Laws\<close>, \<open>Agent_Run_Properties\<close>,
    \<open>Agent_Resume_Properties\<close> and \<open>Agent_History\<close> prove that the loop ends within its ceilings; that compaction keeps
    the cached prefix; that the history stays complete at every turn boundary while hooks keep identifiers and
    guardrails stay plain; that a run resumed at the boundaries of \<open>boundaryOf\<close> ends as the uninterrupted one, which
    leaves out a failed tool step and, for two phases, inputs with defaulted limits; and that structured-output
    repair under a boundary observer gives the same failure whatever the model would answer.
  \<^item> \<open>Durable_Types\<close>, \<open>Test_Backend\<close>, \<open>Backend_Invariant\<close>, \<open>Backend_Properties\<close>, \<open>Backend_Retry\<close>,
    \<open>Backend_Ledger\<close>: the records and requests of \<^verbatim>\<open>src/durable/backend.go\<close>, every operation of the backend, the
    invariant of its store, the refinement of an abstract lifecycle, fencing, at-most-once attempts, and which
    tokens have been spent. The contracts that all operations share are locales (\<open>record_operation\<close> and its
    extensions), interpreted on each operation.
  \<^item> \<open>Durable_Codec\<close>, \<open>Durable_Effects\<close>, \<open>Durable_Effects_Laws\<close>, \<open>Durable_Effects_Properties\<close>: the recorded
    attempts of \<^verbatim>\<open>codec.go\<close>, the active execution of \<^verbatim>\<open>active.go\<close> and the model and tool interceptors of
    \<^verbatim>\<open>interceptor.go\<close>: an effect is not repeated behind the operator's back, and what was recorded is replayed.
  \<^item> \<open>Durable_Runtime\<close>, \<open>Durable_Runtime_Laws\<close>, \<open>Durable_Runtime_Properties\<close>: \<^verbatim>\<open>runtime.go\<close>, \<^verbatim>\<open>boundary.go\<close>,
    \<^verbatim>\<open>resume_target.go\<close> and \<^verbatim>\<open>reconcile.go\<close>: a returned result is on record, a run leaves no lease behind, a claim
    whose reply is lost is recovered by a repeated \<^verbatim>\<open>Start\<close> before it expires, and reconciled answers replay.
  \<^item> \<open>Orchestration\<close>, \<open>Orchestration_Laws\<close>, \<open>Orchestration_Properties\<close>: the drive loop and the concurrent batch of
    \<^verbatim>\<open>src/orchestration\<close>: returned states can be resumed, concurrency does not show in the state and stays within
    its limit.

  \<^bold>\<open>How code becomes definitions.\<close> A struct is a record, an enumeration a datatype with a constructor for any
  other string, a nil pointer \<open>None\<close>, an error a value of an error datatype. A handler is one function that takes
  and returns the state, with a branch for every early return. Contexts, clocks, random sources, the network, hooks,
  drivers and \<^verbatim>\<open>encoding/json\<close> are arguments. Goroutines are step relations (\<open>poolStep\<close>, \<open>batchStep\<close>) or sequences
  of atomic steps (\<open>runStep\<close>, the calls of a \<open>history\<close>), so a theorem about all runs is one about all
  interleavings. Calls of the backend are atomic, as they are under the mutex of its store, and may be lost before
  or after they take effect (\<open>wire\<close>).

  \<^bold>\<open>Bounds and fuel.\<close> The agent loop takes fuel; the termination theorem gives the amount that suffices for the
  iteration ceiling, or for the step ceiling when iterations are unlimited. Version and fencing counters are 64-bit words, and theorems that
  need them not to wrap assume fewer than \<open>2 ^ 64\<close> calls, counting those of a run with \<open>stepCalls\<close>. Ticks and token
  counts are integers wrapped or saturated at 64 bits. Three counters that Go would wrap at 64 bits are unbounded:
  the operation turn and the charged tool calls inside \<open>loopBody\<close>, and the sequence of synthetic call IDs in
  \<open>ensureToolCallBuilder\<close>; a run would have to count \<open>2 ^ 63\<close> turns or calls to tell the difference.

  \<^bold>\<open>Limits of the environment.\<close> An interceptor is a sequential tree of calls of the next driver (\<open>wrapInterceptor\<close>):
  calls of next from several goroutines, or after the interceptor has returned, do not occur in the model, so the
  branches that refuse them are not exercised. In \<open>batchStep\<close> an executor is a function of its dispatch and of the
  context error it sees, and it emits frames only while it runs. The provider, tools
  and extensions of an agent run are functions of what they are given, the number of the pass included: they may answer
  differently in every pass, not twice within one.

  \<^bold>\<open>Not modelled.\<close> The OpenAI drivers under \<^verbatim>\<open>src/provider/openai\<close>, which translate to and from two further wire
  formats; the construction of HTTP clients; agents as tools,
  skills and specs; typed output and the tool kit, which work by reflection; the contract suite, which is a test;
  examples and scripts. Deep copies are the identity on values.
\<close>

end
